(* ===== verification/Prelude.thy ===== *)
theory Prelude
  imports Main "HOL-Library.AList" "HOL-Library.Sublist"
begin

text \<open>
  What every component of the development shares: the exceptions of the source as values,
  the sequencing of code that may raise, Python dictionaries in insertion order, and the
  generic lemmas about them.

  A Python \<open>str\<close> is modelled by its UTF-8 encoding, a list of 8-bit characters: equality,
  \<open>startswith\<close> and the order of code points agree with those of the bytes, and the byte
  bounds of the source (\<open>len(value.encode("utf-8"))\<close>) are the length of the list.  A string
  with lone surrogates has no encoding, is rejected by every validator of the source and
  does not occur here.  A timezone-aware \<open>datetime\<close> is its instant, in microseconds since
  the epoch; a finite \<open>float\<close> is the rational number it denotes.
\<close>

section \<open>Rule collections\<close>

named_theorems dict_simps \<open>lookup and update of insertion-ordered dictionaries\<close>
named_theorems res_simps \<open>inversion of code that may raise\<close>

section \<open>Exceptions as values\<close>

datatype py_error =
    ValueError string
  | TypeError string
  | RuntimeError string
  | KeyError string
  | OSError string
  | TimeoutError string
  | OverflowError string
  | AttributeError string

type_synonym 'a result = "py_error + 'a"

definition bindr :: "'e + 'a \<Rightarrow> ('a \<Rightarrow> 'e + 'b) \<Rightarrow> 'e + 'b" where
  "bindr x f = (case x of Inl e \<Rightarrow> Inl e | Inr a \<Rightarrow> f a)"

lemma bindr_simps [simp]:
  "bindr (Inl e) f = Inl e"
  "bindr (Inr a) f = f a"
  by (simp_all add: bindr_def)

lemma bindr_eq_Inr [res_simps]: "bindr x f = Inr b \<longleftrightarrow> (\<exists>a. x = Inr a \<and> f a = Inr b)"
  by (auto simp: bindr_def split: sum.splits)

lemma bindr_eq_Inl [res_simps]:
  "bindr x f = Inl e \<longleftrightarrow> x = Inl e \<or> (\<exists>a. x = Inr a \<and> f a = Inl e)"
  by (auto simp: bindr_def split: sum.splits)

lemma bindr_cong [fundef_cong]:
  "x = y \<Longrightarrow> (\<And>a. y = Inr a \<Longrightarrow> f a = g a) \<Longrightarrow> bindr x f = bindr y g"
  by (auto simp: bindr_def split: sum.splits)

text \<open>\<open>if not c: raise e\<close>, as a value.\<close>

definition require :: "bool \<Rightarrow> 'e \<Rightarrow> 'e + unit" where
  "require c e = (if c then Inr () else Inl e)"

lemma require_eq_Inr [simp, res_simps]: "require c e = Inr u \<longleftrightarrow> c"
  by (simp add: require_def)

lemma require_eq_Inl [simp, res_simps]: "require c e = Inl e' \<longleftrightarrow> \<not> c \<and> e' = e"
  by (auto simp: require_def)

text \<open>A sequence of checks, of which the first that fails is raised.\<close>

fun checks :: "('e + unit) list \<Rightarrow> 'e + unit" where
  "checks [] = Inr ()"
| "checks (c # cs) = (case c of Inl e \<Rightarrow> Inl e | Inr _ \<Rightarrow> checks cs)"

lemma require_simps [simp]: "require True e = Inr ()" "require False e = Inl e"
  by (simp_all add: require_def)

lemma checks_eq_Inr [res_simps]: "checks cs = Inr u \<longleftrightarrow> list_all (\<lambda>c. c = Inr ()) cs"
  by (induction cs) (auto split: sum.splits)

lemma checks_append: "checks (cs @ ds) = bindr (checks cs) (\<lambda>_. checks ds)"
  by (induction cs) (auto split: sum.splits)

declare checks.simps(2) [simp del]

text \<open>
  A constructor whose \<open>__post_init__\<close> runs the checks \<open>cs\<close>: it returns the object or raises.
\<close>

definition post_init :: "('a \<Rightarrow> ('e + unit) list) \<Rightarrow> 'a \<Rightarrow> 'e + 'a" where
  "post_init cs x = bindr (checks (cs x)) (\<lambda>_. Inr x)"

definition passes :: "('a \<Rightarrow> ('e + unit) list) \<Rightarrow> 'a \<Rightarrow> bool" where
  "passes cs x \<longleftrightarrow> list_all (\<lambda>c. c = Inr ()) (cs x)"

lemma post_init_eq_Inr [res_simps]: "post_init cs x = Inr y \<longleftrightarrow> passes cs x \<and> y = x"
  by (auto simp: post_init_def passes_def res_simps)

text \<open>A loop that computes one result per element and stops at the first exception.\<close>

fun traverse :: "('a \<Rightarrow> 'e + 'b) \<Rightarrow> 'a list \<Rightarrow> 'e + 'b list" where
  "traverse f [] = Inr []"
| "traverse f (x # xs) = bindr (f x) (\<lambda>y. bindr (traverse f xs) (\<lambda>ys. Inr (y # ys)))"

lemma traverse_cong [fundef_cong]:
  "xs = ys \<Longrightarrow> (\<And>x. x \<in> set ys \<Longrightarrow> f x = g x) \<Longrightarrow> traverse f xs = traverse g ys"
  by (induction ys arbitrary: xs) auto

lemma traverse_eq_Inr [res_simps]:
  "traverse f xs = Inr ys \<longleftrightarrow> list_all2 (\<lambda>x y. f x = Inr y) xs ys"
proof (induction xs arbitrary: ys)
  case Nil
  then show ?case by auto
next
  case (Cons x xs)
  then show ?case by (cases ys) (auto simp: res_simps list_all2_Cons1)
qed

text \<open>A loop with an accumulator that stops at the first exception.\<close>

fun foldr_res :: "('a \<Rightarrow> 's \<Rightarrow> 'e + 's) \<Rightarrow> 'a list \<Rightarrow> 's \<Rightarrow> 'e + 's" where
  "foldr_res f [] s = Inr s"
| "foldr_res f (x # xs) s = bindr (f x s) (\<lambda>s'. foldr_res f xs s')"

lemma foldr_res_append:
  "foldr_res f (xs @ ys) s = bindr (foldr_res f xs s) (foldr_res f ys)"
  by (induction xs arbitrary: s) (auto simp: bindr_def split: sum.splits)

section \<open>Dictionaries in insertion order\<close>

text \<open>
  A Python dictionary keeps the order in which its keys were first inserted: assigning an
  existing key leaves it at its place, a new key is appended.  That is the library's
  \<open>AList.update\<close>; \<open>pop\<close> is \<open>AList.delete\<close>.
\<close>

type_synonym ('k, 'v) dict = "('k \<times> 'v) list"

abbreviation dget :: "('k, 'v) dict \<Rightarrow> 'k \<Rightarrow> 'v option" where
  "dget \<equiv> map_of"

abbreviation dset :: "'k \<Rightarrow> 'v \<Rightarrow> ('k, 'v) dict \<Rightarrow> ('k, 'v) dict" where
  "dset \<equiv> AList.update"

abbreviation dpop :: "'k \<Rightarrow> ('k, 'v) dict \<Rightarrow> ('k, 'v) dict" where
  "dpop \<equiv> AList.delete"

abbreviation dkeys :: "('k, 'v) dict \<Rightarrow> 'k list" where
  "dkeys \<equiv> map fst"

abbreviation dwf :: "('k, 'v) dict \<Rightarrow> bool" where
  "dwf d \<equiv> distinct (map fst d)"

text \<open>\<open>d.setdefault(k, v)\<close>: an existing entry is kept.\<close>

definition dsetdefault :: "'k \<Rightarrow> 'v \<Rightarrow> ('k, 'v) dict \<Rightarrow> ('k, 'v) dict" where
  "dsetdefault k v d = (if map_of d k = None then AList.update k v d else d)"

text \<open>\<open>d.update({key(x): x for x in xs})\<close>.\<close>

definition dset_all :: "('a \<Rightarrow> 'k) \<Rightarrow> ('a \<Rightarrow> 'v) \<Rightarrow> 'a list \<Rightarrow> ('k, 'v) dict \<Rightarrow> ('k, 'v) dict" where
  "dset_all key val xs d = fold (\<lambda>x. AList.update (key x) (val x)) xs d"

declare update_conv' [dict_simps] delete_conv' [dict_simps]

lemma dget_dset [dict_simps]: "dget (dset k v d) k' = (if k' = k then Some v else dget d k')"
  by (simp add: update_conv')

lemma dget_dpop [dict_simps]: "dget (dpop k d) k' = (if k' = k then None else dget d k')"
  by (simp add: delete_conv')

lemma dget_dsetdefault [dict_simps]:
  "dget (dsetdefault k v d) k' = (if k' = k \<and> dget d k = None then Some v else dget d k')"
  by (auto simp: dsetdefault_def dict_simps)

lemma dwf_dset [simp]: "dwf d \<Longrightarrow> dwf (dset k v d)"
  by (rule distinct_update)

lemma dwf_dpop [simp]: "dwf d \<Longrightarrow> dwf (dpop k d)"
  by (rule distinct_delete)

lemma dwf_dsetdefault [simp]: "dwf d \<Longrightarrow> dwf (dsetdefault k v d)"
  by (simp add: dsetdefault_def)

lemma dwf_dset_all [simp]: "dwf d \<Longrightarrow> dwf (dset_all key val xs d)"
  unfolding dset_all_def by (induction xs arbitrary: d) simp_all

lemma dset_all_simps [simp]:
  "dset_all key val [] d = d"
  "dset_all key val (x # xs) d = dset_all key val xs (dset (key x) (val x) d)"
  by (simp_all add: dset_all_def)

lemma dget_dset_all_notin [dict_simps]:
  "k \<notin> key ` set xs \<Longrightarrow> dget (dset_all key val xs d) k = dget d k"
  by (induction xs arbitrary: d) (auto simp: dict_simps)

lemma dget_dset_all_in:
  "distinct (map key xs) \<Longrightarrow> x \<in> set xs \<Longrightarrow> dget (dset_all key val xs d) (key x) = Some (val x)"
proof (induction xs arbitrary: d)
  case Nil
  then show ?case by simp
next
  case (Cons y xs)
  show ?case
  proof (cases "x = y")
    case True
    with Cons.prems have "key x \<notin> key ` set xs" by auto
    with True show ?thesis by (simp add: dict_simps)
  next
    case False
    with Cons show ?thesis by auto
  qed
qed

text \<open>Storing the value an entry already has changes nothing, not even the order.\<close>

lemma dset_same: "dget d k = Some v \<Longrightarrow> dset k v d = d"
  by (induction d) auto

lemma dset_all_same:
  "(\<And>x. x \<in> set xs \<Longrightarrow> dget d (key x) = Some (val x)) \<Longrightarrow> dset_all key val xs d = d"
  by (induction xs) (auto simp: dset_same)

lemma dset_dset: "dset k v (dset k w d) = dset k v d"
  by (induction d) auto

lemma dkeys_dset: "dkeys (dset k v d) = (if k \<in> set (dkeys d) then dkeys d else dkeys d @ [k])"
  by (simp add: update_keys)

lemma dget_in_set: "dwf d \<Longrightarrow> dget d k = Some v \<longleftrightarrow> (k, v) \<in> set d"
  by simp

section \<open>Lists\<close>

text \<open>\<open>next((f(x) for x in xs if p(x)), default)\<close>.\<close>

definition next_or :: "('a \<Rightarrow> bool) \<Rightarrow> ('a \<Rightarrow> 'b) \<Rightarrow> 'b \<Rightarrow> 'a list \<Rightarrow> 'b" where
  "next_or p f def xs = (case List.find p xs of None \<Rightarrow> def | Some x \<Rightarrow> f x)"

lemma next_or_default:
  "next_or p f def xs = def \<longleftrightarrow> (case List.find p xs of None \<Rightarrow> True | Some x \<Rightarrow> f x = def)"
  by (simp add: next_or_def split: option.split)

lemma find_Some_set: "List.find p xs = Some x \<Longrightarrow> x \<in> set xs \<and> p x"
  by (auto simp: find_Some_iff in_set_conv_nth)

lemma next_or_const:
  "(\<And>x. x \<in> set xs \<Longrightarrow> p x \<Longrightarrow> f x = def) \<Longrightarrow> next_or p f def xs = def"
  by (auto simp: next_or_def split: option.split dest: find_Some_set)

text \<open>\<open>len(set(xs)) != len(xs)\<close> as the source tests for duplicates.\<close>

lemma distinct_card_set: "card (set xs) = length xs \<longleftrightarrow> distinct xs"
  using card_distinct distinct_card by blast

lemma list_all2_same_length: "list_all2 P xs ys \<Longrightarrow> length xs = length ys"
  by (rule list_all2_lengthD)

end
