(* ===== verification/Text.thy ===== *)
theory Text
  imports Prelude
begin

text \<open>
  The text formats the source writes and reads back: decimal numbers, zero-padded sequence
  numbers, lowercase SHA-256 digests, bounded transport identifiers, and the trimming and
  parsing of \<open>int(...)\<close>.
\<close>

section \<open>Character classes\<close>

abbreviation ord :: "char \<Rightarrow> nat" where
  "ord \<equiv> of_char"

definition is_digit :: "char \<Rightarrow> bool" where
  "is_digit c \<longleftrightarrow> 48 \<le> ord c \<and> ord c \<le> 57"

definition is_hex_lower :: "char \<Rightarrow> bool" where
  "is_hex_lower c \<longleftrightarrow> is_digit c \<or> 97 \<le> ord c \<and> ord c \<le> 102"

definition is_alnum :: "char \<Rightarrow> bool" where
  "is_alnum c \<longleftrightarrow> is_digit c \<or> 65 \<le> ord c \<and> ord c \<le> 90 \<or> 97 \<le> ord c \<and> ord c \<le> 122"

definition is_ident_char :: "char \<Rightarrow> bool" where
  "is_ident_char c \<longleftrightarrow> is_alnum c \<or> c \<in> {CHR ''.'', CHR ''_'', CHR '':'', CHR ''-''}"

text \<open>\<open>[0-9a-f]{64}\<close> and \<open>[A-Za-z0-9][A-Za-z0-9._:-]{0,127}\<close>, matched on the whole text.\<close>

definition is_digest :: "string \<Rightarrow> bool" where
  "is_digest s \<longleftrightarrow> length s = 64 \<and> list_all is_hex_lower s"

definition is_transport_id :: "string \<Rightarrow> bool" where
  "is_transport_id s \<longleftrightarrow>
     (case s of [] \<Rightarrow> False
      | c # cs \<Rightarrow> is_alnum c \<and> list_all is_ident_char cs \<and> length cs \<le> 127)"

lemma is_transport_id_nonempty: "is_transport_id s \<Longrightarrow> s \<noteq> []"
  by (cases s) (auto simp: is_transport_id_def)

lemma is_transport_id_length: "is_transport_id s \<Longrightarrow> length s \<le> 128"
  by (cases s) (auto simp: is_transport_id_def)

lemma is_transport_id_chars: "is_transport_id s \<Longrightarrow> list_all is_ident_char s"
  by (cases s) (auto simp: is_transport_id_def is_ident_char_def)

lemma is_digit_ident [simp]: "is_digit c \<Longrightarrow> is_ident_char c"
  by (simp add: is_ident_char_def is_alnum_def)

lemma is_hex_lower_ident [simp]: "is_hex_lower c \<Longrightarrow> is_ident_char c"
  by (auto simp: is_hex_lower_def is_ident_char_def is_alnum_def)

section \<open>Decimal numbers\<close>

definition digit_char :: "nat \<Rightarrow> char" where
  "digit_char n = char_of (48 + n)"

definition digit_val :: "char \<Rightarrow> nat" where
  "digit_val c = ord c - 48"

lemma ord_digit_char: "n < 10 \<Longrightarrow> ord (digit_char n) = 48 + n"
  by (simp add: digit_char_def)

lemma digit_val_digit_char [simp]: "n < 10 \<Longrightarrow> digit_val (digit_char n) = n"
  by (simp add: digit_val_def ord_digit_char)

lemma is_digit_digit_char [simp]: "n < 10 \<Longrightarrow> is_digit (digit_char n)"
  by (simp add: is_digit_def ord_digit_char)

text \<open>\<open>str(n)\<close> for a natural number, and the value of a string of digits.\<close>

fun dec_of_nat :: "nat \<Rightarrow> string" where
  "dec_of_nat n = (if n < 10 then [digit_char n] else dec_of_nat (n div 10) @ [digit_char (n mod 10)])"

declare dec_of_nat.simps [simp del]

definition nat_of_dec :: "string \<Rightarrow> nat" where
  "nat_of_dec s = foldl (\<lambda>a c. 10 * a + digit_val c) 0 s"

lemma nat_of_dec_snoc: "nat_of_dec (s @ [c]) = 10 * nat_of_dec s + digit_val c"
  by (simp add: nat_of_dec_def)

lemma nat_of_dec_zeros: "nat_of_dec (replicate k (CHR ''0'') @ s) = nat_of_dec s"
  by (induction k) (simp_all add: nat_of_dec_def digit_val_def)

lemma dec_of_nat_digits: "list_all is_digit (dec_of_nat n)"
proof (induction n rule: dec_of_nat.induct)
  case (1 n)
  then show ?case by (cases "n < 10") (simp_all add: dec_of_nat.simps [of n])
qed

lemma nat_of_dec_of_nat: "nat_of_dec (dec_of_nat n) = n"
proof (induction n rule: dec_of_nat.induct)
  case (1 n)
  show ?case
  proof (cases "n < 10")
    case True
    then show ?thesis by (simp add: dec_of_nat.simps [of n] nat_of_dec_def)
  next
    case False
    with 1 show ?thesis by (simp add: dec_of_nat.simps [of n] nat_of_dec_snoc)
  qed
qed

lemma dec_of_nat_nonempty [simp]: "dec_of_nat n \<noteq> []"
  by (subst dec_of_nat.simps) simp

lemma dec_of_nat_inj: "dec_of_nat m = dec_of_nat n \<Longrightarrow> m = n"
  by (metis nat_of_dec_of_nat)

lemma length_dec_of_nat: "n < 10 ^ k \<Longrightarrow> 0 < k \<Longrightarrow> length (dec_of_nat n) \<le> k"
proof (induction n arbitrary: k rule: dec_of_nat.induct)
  case (1 n)
  show ?case
  proof (cases "n < 10")
    case True
    with "1.prems" show ?thesis by (simp add: dec_of_nat.simps [of n])
  next
    case False
    with "1.prems" have "k \<noteq> 1" by auto
    with "1.prems" obtain j where k: "k = Suc j" and j: "0 < j"
      by (cases k) auto
    with "1.prems" False have "n div 10 < 10 ^ j" by simp
    with False j k "1.IH" [of j] show ?thesis by (simp add: dec_of_nat.simps [of n])
  qed
qed

text \<open>\<open>f"{n:06d}"\<close> and \<open>f"{n:012d}"\<close>.\<close>

definition zero_pad :: "nat \<Rightarrow> nat \<Rightarrow> string" where
  "zero_pad w n = replicate (w - length (dec_of_nat n)) (CHR ''0'') @ dec_of_nat n"

lemma nat_of_dec_zero_pad: "nat_of_dec (zero_pad w n) = n"
  by (simp add: zero_pad_def nat_of_dec_zeros nat_of_dec_of_nat)

lemma zero_pad_digits: "list_all is_digit (zero_pad w n)"
proof -
  have "is_digit (CHR ''0'')" by (simp add: is_digit_def)
  then show ?thesis
    using dec_of_nat_digits [of n] by (auto simp: zero_pad_def list_all_iff)
qed

lemma length_zero_pad: "w \<le> length (zero_pad w n)"
  by (simp add: zero_pad_def)

lemma length_zero_pad_le: "n < 10 ^ k \<Longrightarrow> 0 < k \<Longrightarrow> w \<le> k \<Longrightarrow> length (zero_pad w n) \<le> k"
  using length_dec_of_nat [of n k] by (simp add: zero_pad_def)

lemma zero_pad_inj: "zero_pad w m = zero_pad w n \<Longrightarrow> m = n"
  by (metis nat_of_dec_zero_pad)

section \<open>\<open>str(i)\<close> and \<open>int(s)\<close>\<close>

definition dec_of_int :: "int \<Rightarrow> string" where
  "dec_of_int i = (if i < 0 then CHR ''-'' # dec_of_nat (nat (- i)) else dec_of_nat (nat i))"

definition is_space :: "char \<Rightarrow> bool" where
  "is_space c \<longleftrightarrow> ord c = 32 \<or> 9 \<le> ord c \<and> ord c \<le> 13 \<or> 28 \<le> ord c \<and> ord c \<le> 31"

definition strip :: "string \<Rightarrow> string" where
  "strip s = rev (dropWhile is_space (rev (dropWhile is_space s)))"

text \<open>Digits with single underscores between them.\<close>

fun digits_only :: "string \<Rightarrow> string option" where
  "digits_only [] = None"
| "digits_only [c] = (if is_digit c then Some [c] else None)"
| "digits_only (c # d # cs) =
     (if \<not> is_digit c then None
      else if d = CHR ''_'' then map_option ((#) c) (digits_only cs)
      else map_option ((#) c) (digits_only (d # cs)))"

definition py_int :: "string \<Rightarrow> int option" where
  "py_int s =
     (case strip s of
        [] \<Rightarrow> None
      | c # cs \<Rightarrow>
          if c = CHR ''-'' then map_option (\<lambda>d. - int (nat_of_dec d)) (digits_only cs)
          else if c = CHR ''+'' then map_option (\<lambda>d. int (nat_of_dec d)) (digits_only cs)
          else map_option (\<lambda>d. int (nat_of_dec d)) (digits_only (c # cs)))"

lemma digits_only_digits: "list_all is_digit s \<Longrightarrow> s \<noteq> [] \<Longrightarrow> digits_only s = Some s"
  by (induction s rule: digits_only.induct) (auto simp: is_digit_def)

lemma digit_not_space: "is_digit c \<Longrightarrow> \<not> is_space c"
  by (auto simp: is_digit_def is_space_def)

lemma dropWhile_hd: "s \<noteq> [] \<Longrightarrow> \<not> p (hd s) \<Longrightarrow> dropWhile p s = s"
  by (cases s) auto

lemma strip_id: "s \<noteq> [] \<Longrightarrow> \<not> is_space (hd s) \<Longrightarrow> \<not> is_space (last s) \<Longrightarrow> strip s = s"
  by (simp add: strip_def dropWhile_hd hd_rev)

lemma py_int_dec_of_int: "py_int (dec_of_int i) = Some i"
proof -
  define d where "d = dec_of_nat (nat \<bar>i\<bar>)"
  have d: "list_all is_digit d" "d \<noteq> []" "nat_of_dec d = nat \<bar>i\<bar>"
    by (simp_all add: d_def dec_of_nat_digits nat_of_dec_of_nat)
  then have last: "\<not> is_space (last d)" and hd: "is_digit (hd d)"
    by (auto simp: list_all_iff digit_not_space)
  show ?thesis
  proof (cases "i < 0")
    case True
    then have eq: "dec_of_int i = CHR ''-'' # d" by (simp add: dec_of_int_def d_def)
    have "strip (CHR ''-'' # d) = CHR ''-'' # d"
      using d last by (intro strip_id) (auto simp: is_space_def)
    with True d show ?thesis by (simp add: eq py_int_def digits_only_digits)
  next
    case False
    then have eq: "dec_of_int i = d" by (simp add: dec_of_int_def d_def)
    have "strip d = d" using d hd last by (intro strip_id) (auto simp: digit_not_space)
    moreover obtain c cs where "d = c # cs" "is_digit c" using d hd by (cases d) auto
    moreover from this have "c \<noteq> CHR ''-''" "c \<noteq> CHR ''+''" by (auto simp: is_digit_def)
    ultimately show ?thesis
      using False d digits_only_digits [of d] by (simp add: eq py_int_def)
  qed
qed


text \<open>Splitting text at a character, as \<open>split\<close>, \<open>partition\<close> and \<open>rpartition\<close> do.\<close>

fun split_on :: "char \<Rightarrow> string \<Rightarrow> string list" where
  "split_on c [] = [[]]"
| "split_on c (x # xs) =
     (if x = c then [] # split_on c xs
      else (case split_on c xs of [] \<Rightarrow> [[x]] | l # ls \<Rightarrow> (x # l) # ls))"

definition newline :: string where
  "newline = [CHR 0x0A]"

text \<open>Newline-terminated lines, one after the other.\<close>

definition unlines :: "string list \<Rightarrow> string" where
  "unlines ls = concat (map (\<lambda>l. l @ newline) ls)"

definition one_line :: "string \<Rightarrow> bool" where
  "one_line s \<longleftrightarrow> CHR 0x0A \<notin> set s"

text \<open>What precedes and what follows the last occurrence of a character.\<close>

definition rpartition :: "char \<Rightarrow> string \<Rightarrow> (string \<times> string) option" where
  "rpartition c s =
     (if c \<in> set s
      then Some (rev (tl (dropWhile (\<lambda>x. x \<noteq> c) (rev s))), rev (takeWhile (\<lambda>x. x \<noteq> c) (rev s)))
      else None)"

lemma split_on_nonempty [simp]: "split_on c s \<noteq> []"
  by (induction s) (auto split: list.split)

lemma split_on_append: "c \<notin> set l \<Longrightarrow> split_on c (l @ c # s) = l # split_on c s"
  by (induction l) auto

lemma split_on_unlines: "list_all one_line ls \<Longrightarrow> split_on (CHR 0x0A) (unlines ls) = ls @ [[]]"
  by (induction ls) (auto simp: unlines_def newline_def one_line_def split_on_append)

lemma unlines_simps [simp]:
  "unlines [] = []" "unlines (l # ls) = l @ newline @ unlines ls"
  "unlines (ls @ ms) = unlines ls @ unlines ms"
  by (simp_all add: unlines_def)

lemma rpartition_append: "c \<notin> set t \<Longrightarrow> rpartition c (s @ c # t) = Some (s, t)"
  by (auto simp: rpartition_def takeWhile_append dropWhile_append)

lemma rpartition_eq: "rpartition c s = Some (a, b) \<Longrightarrow> s = a @ c # b \<and> c \<notin> set b"
proof -
  assume r: "rpartition c s = Some (a, b)"
  then have c: "c \<in> set s" by (auto simp: rpartition_def split: if_splits)
  let ?d = "dropWhile (\<lambda>x. x \<noteq> c) (rev s)" and ?t = "takeWhile (\<lambda>x. x \<noteq> c) (rev s)"
  have "?d \<noteq> []" using c by (simp add: dropWhile_eq_Nil_conv)
  then have d: "?d = c # tl ?d" by (metis (mono_tags, lifting) hd_dropWhile list.collapse)
  have "s = rev (?t @ ?d)" by (simp only: takeWhile_dropWhile_id rev_rev_ident)
  also have "\<dots> = rev (tl ?d) @ c # rev ?t" by (subst d) simp
  finally have "s = rev (tl ?d) @ c # rev ?t" .
  moreover have "c \<notin> set ?t" by (auto dest: set_takeWhileD)
  moreover have "a = rev (tl ?d)" "b = rev ?t" using r c by (simp_all add: rpartition_def)
  ultimately show ?thesis by (simp only: set_rev) simp
qed

end
