(* ===== verification/Json.thy ===== *)
theory Json
  imports Text Complex_Main "HOL-Library.Char_ord" "HOL-Library.List_Lexorder"
begin

text \<open>
  The JSON-shaped Python values that evidence carries, Python's \<open>==\<close> on them, and
  \<open>json.dumps(..., sort_keys=True, separators=(",", ":"))\<close>.

  A finite float is the rational number it denotes together with the text \<open>repr\<close> prints for
  it, so that printing needs no floating-point conversion.  With \<open>ascii\<close> set the printer is
  the one of \<open>ensure_ascii=True\<close>; the source uses it on ASCII text only, and only that is
  modelled (a byte above 127 is copied in both modes).
\<close>

section \<open>Values\<close>

datatype jval =
    JNull
  | JBool bool
  | JInt int
  | JFloat rat string
  | JStr string
  | JList "jval list"
  | JDict "(string \<times> jval) list"

text \<open>\<open>bool\<close>, \<open>int\<close> and \<open>float\<close> compare by their numeric value.\<close>

fun num_of :: "jval \<Rightarrow> rat option" where
  "num_of (JBool b) = Some (if b then 1 else 0)"
| "num_of (JInt i) = Some (of_int i)"
| "num_of (JFloat q r) = Some q"
| "num_of _ = None"

text \<open>
  Python's \<open>==\<close>.  A dictionary equals another when it has as many entries and each of its keys
  is in the other with an equal value; the order of the entries does not matter.
\<close>

primrec py_eq :: "jval \<Rightarrow> jval \<Rightarrow> bool" where
  "py_eq JNull w = (w = JNull)"
| "py_eq (JBool b) w = (num_of w = num_of (JBool b))"
| "py_eq (JInt i) w = (num_of w = num_of (JInt i))"
| "py_eq (JFloat q r) w = (num_of w = num_of (JFloat q r))"
| "py_eq (JStr s) w = (w = JStr s)"
| "py_eq (JList vs) w =
     (case w of JList ws \<Rightarrow> list_all2 (\<lambda>eq x. eq x) (map py_eq vs) ws | _ \<Rightarrow> False)"
| "py_eq (JDict kvs) w =
     (case w of
        JDict kws \<Rightarrow>
          length kvs = length kws \<and>
          list_all (\<lambda>(k, eq). case map_of kws k of None \<Rightarrow> False | Some x \<Rightarrow> eq x)
            (map (map_prod id py_eq) kvs)
      | _ \<Rightarrow> False)"

text \<open>
  Identical values are equal (no NaN occurs); the disjunct spares the proofs the fact that a
  dictionary has no key twice.
\<close>

definition jeq :: "jval \<Rightarrow> jval \<Rightarrow> bool" where
  "jeq v w \<longleftrightarrow> v = w \<or> py_eq v w"

lemma jeq_refl [simp]: "jeq v v"
  by (simp add: jeq_def)

definition jeq_list :: "jval list \<Rightarrow> jval list \<Rightarrow> bool" where
  "jeq_list vs ws \<longleftrightarrow> list_all2 jeq vs ws"

lemma jeq_list_refl [simp]: "jeq_list vs vs"
  by (simp add: jeq_list_def list_all2_refl)

lemma jeq_list_length: "jeq_list vs ws \<Longrightarrow> length vs = length ws"
  by (simp add: jeq_list_def list_all2_lengthD)

text \<open>\<open>dict == dict\<close> for dictionaries from text to text.\<close>

definition tags_eq :: "(string, string) dict \<Rightarrow> (string, string) dict \<Rightarrow> bool" where
  "tags_eq a b \<longleftrightarrow> a = b \<or>
     (length a = length b \<and> list_all (\<lambda>(k, v). map_of b k = Some v) a)"

lemma tags_eq_refl [simp]: "tags_eq a a"
  by (simp add: tags_eq_def)

section \<open>Printing\<close>

definition hex_char :: "nat \<Rightarrow> char" where
  "hex_char n = (if n < 10 then char_of (48 + n) else char_of (87 + n))"

definition escape_char :: "bool \<Rightarrow> char \<Rightarrow> string" where
  "escape_char ascii c =
     (if c = CHR 0x22 then [CHR 0x5C, CHR 0x22]
      else if c = CHR 0x5C then [CHR 0x5C, CHR 0x5C]
      else if ord c = 8 then [CHR 0x5C, CHR ''b'']
      else if ord c = 9 then [CHR 0x5C, CHR ''t'']
      else if ord c = 10 then [CHR 0x5C, CHR ''n'']
      else if ord c = 12 then [CHR 0x5C, CHR ''f'']
      else if ord c = 13 then [CHR 0x5C, CHR ''r'']
      else if ord c < 32 \<or> ascii \<and> ord c = 127
        then CHR 0x5C # ''u00'' @ [hex_char (ord c div 16), hex_char (ord c mod 16)]
      else [c])"

definition json_quote :: "bool \<Rightarrow> string \<Rightarrow> string" where
  "json_quote ascii s = CHR 0x22 # concat (map (escape_char ascii) s) @ [CHR 0x22]"

fun join_comma :: "string list \<Rightarrow> string" where
  "join_comma [] = []"
| "join_comma [x] = x"
| "join_comma (x # y # xs) = x @ CHR '','' # join_comma (y # xs)"

primrec json_dumps :: "bool \<Rightarrow> jval \<Rightarrow> string" where
  "json_dumps ascii JNull = ''null''"
| "json_dumps ascii (JBool b) = (if b then ''true'' else ''false'')"
| "json_dumps ascii (JInt i) = dec_of_int i"
| "json_dumps ascii (JFloat q r) = r"
| "json_dumps ascii (JStr s) = json_quote ascii s"
| "json_dumps ascii (JList vs) = CHR ''['' # join_comma (map (json_dumps ascii) vs) @ '']''"
| "json_dumps ascii (JDict kvs) =
     CHR ''{'' # join_comma (map (\<lambda>(k, t). json_quote ascii k @ CHR '':'' # t)
       (sort_key fst (map (map_prod id (json_dumps ascii)) kvs))) @ ''}''"

end
