(* ===== verification/Evidence.thy ===== *)
theory Evidence
  imports Json
begin

text \<open>
  The typed evidence records of \<open>verdict/evidence.py\<close> and the checks their constructors run:
  source sessions, agent runs, turns, events, and the capture batches and bundles made of
  them.  A constructor is \<open>post_init\<close> over its list of checks, in the order of
  \<open>__post_init__\<close>; the type tests of the source (\<open>isinstance\<close>, timezone awareness) are the
  types of the fields.  The names an error message interpolates are kept where they are
  field names and left out otherwise.
\<close>

section \<open>Enumerations\<close>

datatype execution_status = COMPLETED | FAILED | TIMED_OUT | CANCELLED | UNKNOWN

datatype evidence_state = PRESENT | MISSING | NOT_CAPTURED | NOT_APPLICABLE

datatype privacy_classification = METADATA | REDACTED | OMITTED

datatype tool_origin = MCP | PROVIDER_HOSTED | APPLICATION

datatype agent_event_type =
    INSTRUCTION | CONTEXT | MODEL_CALL | TOOL_CALL | TOOL_RESULT | COMMAND
  | TEST_RESULT | ARTIFACT | SUBAGENT | RETRY | FEEDBACK | OUTCOME

fun tool_origin_value :: "tool_origin \<Rightarrow> string" where
  "tool_origin_value MCP = ''mcp''"
| "tool_origin_value PROVIDER_HOSTED = ''provider_hosted''"
| "tool_origin_value APPLICATION = ''application''"

text \<open>The values the enumerations are written as.\<close>

fun execution_status_value :: "execution_status \<Rightarrow> string" where
  "execution_status_value COMPLETED = ''completed''"
| "execution_status_value FAILED = ''failed''"
| "execution_status_value TIMED_OUT = ''timed_out''"
| "execution_status_value CANCELLED = ''cancelled''"
| "execution_status_value UNKNOWN = ''unknown''"

fun privacy_value :: "privacy_classification \<Rightarrow> string" where
  "privacy_value METADATA = ''metadata''"
| "privacy_value REDACTED = ''redacted''"
| "privacy_value OMITTED = ''omitted''"

fun evidence_state_value :: "evidence_state \<Rightarrow> string" where
  "evidence_state_value PRESENT = ''present''"
| "evidence_state_value MISSING = ''missing''"
| "evidence_state_value NOT_CAPTURED = ''not_captured''"
| "evidence_state_value NOT_APPLICABLE = ''not_applicable''"

fun event_type_value :: "agent_event_type \<Rightarrow> string" where
  "event_type_value INSTRUCTION = ''instruction''"
| "event_type_value CONTEXT = ''context''"
| "event_type_value MODEL_CALL = ''model_call''"
| "event_type_value TOOL_CALL = ''tool_call''"
| "event_type_value TOOL_RESULT = ''tool_result''"
| "event_type_value COMMAND = ''command''"
| "event_type_value TEST_RESULT = ''test_result''"
| "event_type_value ARTIFACT = ''artifact''"
| "event_type_value SUBAGENT = ''subagent''"
| "event_type_value RETRY = ''retry''"
| "event_type_value FEEDBACK = ''feedback''"
| "event_type_value OUTCOME = ''outcome''"

fun event_fields :: "agent_event_type \<Rightarrow> string list" where
  "event_fields INSTRUCTION = [''name'', ''text'', ''source'', ''available'']"
| "event_fields CONTEXT = [''name'', ''text'', ''value'', ''source'', ''available'']"
| "event_fields MODEL_CALL =
     [''provider'', ''request_model'', ''response_model'', ''operation'', ''finish_reason'',
      ''input_tokens'', ''output_tokens'', ''latency_ms'', ''error'']"
| "event_fields TOOL_CALL = [''tool_name'', ''arguments'', ''call_id'', ''tool_origin'']"
| "event_fields TOOL_RESULT = [''tool_name'', ''result'', ''call_id'', ''is_error'']"
| "event_fields COMMAND =
     [''command'', ''cwd_hash'', ''exit_code'', ''stdout'', ''stderr'', ''check_id_hash'']"
| "event_fields TEST_RESULT =
     [''command'', ''exit_code'', ''passed'', ''failed'', ''skipped'', ''output'',
      ''check_id_hash'']"
| "event_fields ARTIFACT = [''path_hash'', ''action'', ''authoritative'', ''state'']"
| "event_fields SUBAGENT = [''agent_name'', ''action'', ''child_run_id'', ''state'']"
| "event_fields RETRY = [''reason'', ''attempt'', ''operation'']"
| "event_fields FEEDBACK = [''kind'', ''value'']"
| "event_fields OUTCOME = [''name'', ''value'', ''source'']"

definition event_content_fields :: "string list" where
  "event_content_fields =
     [''text'', ''value'', ''arguments'', ''result'', ''command'', ''stdout'', ''stderr'',
      ''output'', ''reason'']"

definition text_fields :: "string list" where
  "text_fields =
     [''name'', ''text'', ''source'', ''provider'', ''request_model'', ''response_model'',
      ''operation'', ''finish_reason'', ''error'', ''tool_name'', ''tool_origin'',
      ''call_id'', ''command'', ''cwd_hash'', ''check_id_hash'', ''stdout'', ''stderr'',
      ''output'', ''path_hash'', ''action'', ''state'', ''agent_name'', ''child_run_id'',
      ''reason'', ''kind'']"

definition boolean_fields :: "string list" where
  "boolean_fields = [''available'', ''is_error'', ''authoritative'']"

definition count_fields :: "string list" where
  "count_fields =
     [''input_tokens'', ''output_tokens'', ''passed'', ''failed'', ''skipped'', ''attempt'']"

definition token_usage_bases :: "string list" where
  "token_usage_bases = [''codex_turn_delta'', ''claude_provider_response_sum'']"

section \<open>Field checks\<close>

abbreviation max_int64 :: int where
  "max_int64 \<equiv> 9223372036854775807"

definition validate_text :: "string \<Rightarrow> string \<Rightarrow> nat \<Rightarrow> py_error + unit" where
  "validate_text value field_name maximum =
     checks
      [require (value \<noteq> []) (ValueError (field_name @ '' must be a non-empty string'')),
       require (\<not> (maximum < length value \<or> CHR 0x00 \<in> set value))
         (ValueError (field_name @ '' is not bounded valid text''))]"

lemma validate_text_eq_Inr [res_simps]:
  "validate_text v f m = Inr u \<longleftrightarrow> v \<noteq> [] \<and> length v \<le> m \<and> CHR 0x00 \<notin> set v"
  by (auto simp: validate_text_def res_simps)

text \<open>\<open>if value: validate\<close> and \<open>if value is not None: validate\<close>.\<close>

definition validate_if_set :: "string \<Rightarrow> string \<Rightarrow> nat \<Rightarrow> py_error + unit" where
  "validate_if_set value f m = (if value = [] then Inr () else validate_text value f m)"

definition validate_if_some :: "string option \<Rightarrow> string \<Rightarrow> nat \<Rightarrow> py_error + unit" where
  "validate_if_some value f m = (case value of None \<Rightarrow> Inr () | Some v \<Rightarrow> validate_text v f m)"

lemma validate_if_set_eq_Inr [res_simps]:
  "validate_if_set v f m = Inr u \<longleftrightarrow> length v \<le> m \<and> CHR 0x00 \<notin> set v"
  by (auto simp: validate_if_set_def res_simps)

lemma validate_if_some_eq_Inr [res_simps]:
  "validate_if_some v f m = Inr u \<longleftrightarrow>
     (case v of None \<Rightarrow> True | Some x \<Rightarrow> x \<noteq> [] \<and> length x \<le> m \<and> CHR 0x00 \<notin> set x)"
  by (auto simp: validate_if_some_def res_simps split: option.splits)

definition bounded :: py_error where
  "bounded = ValueError ''event attributes must be bounded''"

text \<open>
  The node and depth bounds on a nested attribute value: \<open>d\<close> is the depth, \<open>n\<close> the number of
  nodes visited so far, the result the number visited after this value.  The source's test
  for reference cycles has no counterpart, a value being a finite tree.
\<close>

definition enter_node :: "nat \<Rightarrow> nat \<Rightarrow> (nat \<Rightarrow> nat result) \<Rightarrow> nat result" where
  "enter_node d n rest =
     (if 128 < n + 1 \<or> 4 < d then Inl bounded else rest (n + 1))"

primrec bounded_json_value :: "jval \<Rightarrow> nat \<Rightarrow> nat \<Rightarrow> nat result" where
  "bounded_json_value JNull d n = enter_node d n Inr"
| "bounded_json_value (JBool b) d n = enter_node d n Inr"
| "bounded_json_value (JInt i) d n = enter_node d n Inr"
| "bounded_json_value (JFloat q r) d n = enter_node d n Inr"
| "bounded_json_value (JStr s) d n = enter_node d n (\<lambda>m.
     if 4096 < length s \<or> CHR 0x00 \<in> set s
     then Inl (ValueError ''event attributes must be bounded valid text'') else Inr m)"
| "bounded_json_value (JList vs) d n = enter_node d n (\<lambda>m.
     if 24 < length vs then Inl bounded
     else foldr_res (\<lambda>f k. f (d + 1) k) (map bounded_json_value vs) m)"
| "bounded_json_value (JDict kvs) d n = enter_node d n (\<lambda>m.
     if 24 < length kvs then Inl bounded
     else foldr_res (\<lambda>(key, f) k.
            bindr (validate_text key ''attribute key'' 64) (\<lambda>_. f (d + 1) k))
          (map (map_prod id bounded_json_value) kvs) m)"

definition is_int_in :: "int \<Rightarrow> int \<Rightarrow> jval \<Rightarrow> bool" where
  "is_int_in lo hi v = (case v of JInt i \<Rightarrow> lo \<le> i \<and> i \<le> hi | _ \<Rightarrow> False)"

text \<open>\<open>float(i)\<close> raises \<open>OverflowError\<close> once \<open>i\<close> rounds beyond the largest finite double.\<close>

definition float_overflows :: "int \<Rightarrow> bool" where
  "float_overflows i \<longleftrightarrow> 2 ^ 1024 - 2 ^ 970 \<le> \<bar>i\<bar>"

definition validate_latency :: "jval \<Rightarrow> py_error + unit" where
  "validate_latency v =
     (let negative = ValueError ''event attribute 'latency_ms' must be a non-negative number'' in
      case v of
        JInt i \<Rightarrow> (if float_overflows i then Inl (OverflowError ''int too large to convert to float'')
                   else require (0 \<le> i) negative)
      | JFloat q r \<Rightarrow> require (0 \<le> q) negative
      | _ \<Rightarrow> Inl negative)"

definition is_jstr :: "jval \<Rightarrow> bool" where
  "is_jstr v = (case v of JStr _ \<Rightarrow> True | _ \<Rightarrow> False)"

definition is_jbool :: "jval \<Rightarrow> bool" where
  "is_jbool v = (case v of JBool _ \<Rightarrow> True | _ \<Rightarrow> False)"

definition validate_tool_origin :: "jval \<Rightarrow> py_error + unit" where
  "validate_tool_origin v =
     (case v of
        JStr s \<Rightarrow> require (s \<in> set (map tool_origin_value [MCP, PROVIDER_HOSTED, APPLICATION]))
          (ValueError ''event attribute 'tool_origin' must be a ToolOrigin value'')
      | JList _ \<Rightarrow> Inl (TypeError ''unhashable type'')
      | JDict _ \<Rightarrow> Inl (TypeError ''unhashable type'')
      | _ \<Rightarrow> Inl (ValueError ''event attribute 'tool_origin' must be a ToolOrigin value''))"

definition validate_attribute :: "string \<times> jval \<Rightarrow> py_error + unit" where
  "validate_attribute = (\<lambda>(name, value).
     if name = ''check_id_hash'' \<and> \<not> (case value of JStr s \<Rightarrow> is_digest s | _ \<Rightarrow> False)
     then Inl (ValueError ''event check_id_hash must be a lowercase SHA-256 digest'')
     else if value = JNull \<or> name \<in> {''arguments'', ''result''}
     then require (name \<noteq> ''tool_origin'')
            (ValueError ''event attribute 'tool_origin' must be a ToolOrigin value'')
     else checks
      [if name = ''tool_origin'' then validate_tool_origin value else Inr (),
       require (name \<in> set text_fields \<longrightarrow> is_jstr value)
         (ValueError ''event attribute must be text''),
       require (name \<in> set boolean_fields \<longrightarrow> is_jbool value)
         (ValueError ''event attribute must be boolean''),
       require (name \<in> set count_fields \<longrightarrow> is_int_in 0 max_int64 value)
         (ValueError ''event attribute must be a non-negative integer''),
       require (name = ''exit_code'' \<longrightarrow> is_int_in (- 2147483647) 2147483647 value)
         (ValueError ''event attribute 'exit_code' must be a bounded integer''),
       if name = ''latency_ms'' then validate_latency value else Inr ()])"

definition validate_attributes ::
  "agent_event_type \<Rightarrow> (string, jval) dict \<Rightarrow> py_error + unit" where
  "validate_attributes event_type attributes =
     checks
      ([require (list_all (\<lambda>k. k \<in> set (event_fields event_type)) (dkeys attributes))
          (ValueError ''event attribute is not allowed'')]
       @ map validate_attribute attributes
       @ [bindr (bounded_json_value (JDict attributes) 0 0) (\<lambda>_. Inr ()),
          require (length (json_dumps False (JDict attributes)) \<le> 16384) bounded])"

definition has_content_field :: "(string, jval) dict \<Rightarrow> bool" where
  "has_content_field attributes = list_ex (\<lambda>k. k \<in> set event_content_fields) (dkeys attributes)"

section \<open>Records and their constructors\<close>

record source_session =
  s_source_session_id :: string
  s_tenant_id :: string
  s_source_kind :: string
  s_source_locator_hash :: string
  s_started_at :: int
  s_observed_at :: int
  s_ended_at :: "int option"

definition source_session_checks :: "source_session \<Rightarrow> (py_error + unit) list" where
  "source_session_checks s =
     [validate_text (s_source_session_id s) ''source_session_id'' 256,
      validate_text (s_tenant_id s) ''tenant_id'' 256,
      validate_text (s_source_kind s) ''source_kind'' 256,
      require (is_digest (s_source_locator_hash s))
        (ValueError ''source_locator_hash must be a lowercase SHA-256 digest'')]"

record agent_run =
  r_run_id :: string
  r_source_session_id :: string
  r_tenant_id :: string
  r_started_at :: int
  r_status :: execution_status
  r_ended_at :: "int option"
  r_agent_name :: string
  r_agent_version :: string
  r_configuration_fingerprint :: string
  r_session_id :: "string option"
  r_parent_run_id :: "string option"
  r_service_name :: string
  r_environment :: string
  r_instance_id :: string

definition agent_run_checks :: "agent_run \<Rightarrow> (py_error + unit) list" where
  "agent_run_checks r =
     [validate_text (r_run_id r) ''run_id'' 256,
      validate_text (r_source_session_id r) ''source_session_id'' 256,
      validate_text (r_tenant_id r) ''tenant_id'' 256,
      require (r_status r = UNKNOWN \<or> r_ended_at r \<noteq> None)
        (ValueError ''terminal run status requires ended_at''),
      validate_if_set (r_agent_name r) ''agent_name'' 256,
      validate_if_set (r_agent_version r) ''agent_version'' 256,
      validate_if_set (r_configuration_fingerprint r) ''configuration_fingerprint'' 256,
      validate_if_set (r_service_name r) ''service_name'' 256,
      validate_if_set (r_environment r) ''environment'' 256,
      validate_if_set (r_instance_id r) ''instance_id'' 256,
      validate_if_some (r_session_id r) ''session_id'' 256,
      validate_if_some (r_parent_run_id r) ''parent_run_id'' 256,
      require (r_parent_run_id r \<noteq> Some (r_run_id r))
        (ValueError ''run cannot be its own parent'')]"

record agent_turn =
  t_turn_id :: string
  t_run_id :: string
  t_sequence :: int
  t_started_at :: int
  t_status :: execution_status
  t_ended_at :: "int option"
  t_user_request_redacted :: "string option"
  t_final_response_redacted :: "string option"
  t_request_state :: evidence_state
  t_response_state :: evidence_state
  t_input_tokens :: "int option"
  t_cached_input_tokens :: "int option"
  t_cache_write_input_tokens :: "int option"
  t_output_tokens :: "int option"
  t_reasoning_output_tokens :: "int option"
  t_total_tokens :: "int option"
  t_token_usage_basis :: "string option"
  t_request_truncated :: bool
  t_response_truncated :: bool
  t_progress_redacted :: "string option"

definition turn_token_fields :: "agent_turn \<Rightarrow> int option list" where
  "turn_token_fields t =
     [t_input_tokens t, t_cached_input_tokens t, t_cache_write_input_tokens t,
      t_output_tokens t, t_reasoning_output_tokens t, t_total_tokens t]"

definition has_usage :: "agent_turn \<Rightarrow> bool" where
  "has_usage t = list_ex (\<lambda>v. v \<noteq> None) (turn_token_fields t)"

definition token_count_ok :: "int option \<Rightarrow> bool" where
  "token_count_ok v = (case v of None \<Rightarrow> True | Some n \<Rightarrow> 0 \<le> n \<and> n \<le> max_int64)"

definition content_checks :: "evidence_state \<Rightarrow> string option \<Rightarrow> (py_error + unit) list" where
  "content_checks state content =
     [require (state = PRESENT \<longrightarrow> content \<noteq> None)
        (ValueError ''content is required when evidence is present''),
      require (state \<noteq> PRESENT \<longrightarrow> content = None)
        (ValueError ''content must be absent when evidence is not present''),
      require (case content of None \<Rightarrow> True | Some c \<Rightarrow> length c \<le> 65536)
        (ValueError ''content must be bounded'')]"

definition agent_turn_checks :: "agent_turn \<Rightarrow> (py_error + unit) list" where
  "agent_turn_checks t =
     [validate_text (t_turn_id t) ''turn_id'' 256,
      validate_text (t_run_id t) ''run_id'' 256,
      require (0 \<le> t_sequence t) (ValueError ''turn sequence must be a non-negative integer'')]
     @ content_checks (t_request_state t) (t_user_request_redacted t)
     @ content_checks (t_response_state t) (t_final_response_redacted t)
     @ [require (case t_progress_redacted t of None \<Rightarrow> True | Some c \<Rightarrow> length c \<le> 4096)
          (ValueError ''progress_redacted must be bounded'')]
     @ map (\<lambda>v. require (token_count_ok v)
          (ValueError ''token count must be a non-negative 64-bit token count''))
         (turn_token_fields t)
     @ [require (has_usage t \<longrightarrow> (case t_token_usage_basis t of None \<Rightarrow> False
            | Some b \<Rightarrow> b \<in> set token_usage_bases))
          (ValueError ''token usage basis is required for captured token counts''),
        require (\<not> has_usage t \<longrightarrow> t_token_usage_basis t = None)
          (ValueError ''token usage basis requires at least one token count''),
        require (t_request_truncated t \<longrightarrow>
            t_request_state t = PRESENT \<and> t_user_request_redacted t \<noteq> None)
          (ValueError ''request_truncated requires present turn content''),
        require (t_response_truncated t \<longrightarrow>
            t_response_state t = PRESENT \<and> t_final_response_redacted t \<noteq> None)
          (ValueError ''response_truncated requires present turn content'')]"

record agent_event =
  e_event_id :: string
  e_turn_id :: string
  e_sequence :: int
  e_occurred_at :: int
  e_event_type :: agent_event_type
  e_status :: execution_status
  e_provenance :: string
  e_attributes :: "(string, jval) dict"
  e_privacy :: privacy_classification
  e_omission_reason :: "string option"
  e_trace_id :: "string option"
  e_producer_id :: string
  e_producer_sequence :: "int option"
  e_parent_event_id :: "string option"

definition agent_event_checks :: "agent_event \<Rightarrow> (py_error + unit) list" where
  "agent_event_checks e =
     [validate_text (e_event_id e) ''event_id'' 256,
      validate_text (e_turn_id e) ''turn_id'' 256,
      require (0 \<le> e_sequence e) (ValueError ''event sequence must be a non-negative integer''),
      validate_text (e_provenance e) ''provenance'' 512,
      validate_attributes (e_event_type e) (e_attributes e),
      require (e_privacy e = METADATA \<longrightarrow> \<not> has_content_field (e_attributes e))
        (ValueError ''content-bearing event attributes cannot be classified as metadata''),
      validate_if_some (e_trace_id e) ''trace_id'' 256,
      require (e_trace_id e \<noteq> None \<longrightarrow> e_event_type e = MODEL_CALL)
        (ValueError ''trace_id is valid only for a model_call event''),
      require (e_privacy e = OMITTED \<longrightarrow> e_omission_reason e \<notin> {None, Some []})
        (ValueError ''omitted event requires omission_reason''),
      require (e_privacy e = OMITTED \<longrightarrow> \<not> has_content_field (e_attributes e))
        (ValueError ''omitted event cannot retain content attributes''),
      require (e_privacy e \<noteq> OMITTED \<longrightarrow> e_omission_reason e = None)
        (ValueError ''omission_reason is valid only for omitted evidence''),
      validate_if_some (e_omission_reason e) ''omission_reason'' 256,
      validate_if_set (e_producer_id e) ''producer_id'' 256,
      (case e_parent_event_id e of None \<Rightarrow> Inr ()
       | Some p \<Rightarrow> validate_if_set p ''parent_event_id'' 256),
      require (token_count_ok (e_producer_sequence e))
        (ValueError ''producer_sequence must be a non-negative 64-bit integer''),
      require (e_parent_event_id e \<noteq> Some (e_event_id e))
        (ValueError ''event cannot be its own parent'')]"

section \<open>Capture batches and bundles\<close>

record agent_capture =
  c_session :: source_session
  c_run :: agent_run
  c_turns :: "agent_turn list"
  c_events :: "agent_event list"

text \<open>
  The two loops of \<open>_validate_agent_capture_parts\<close>, with the sets they fill: the turn ids and
  sequences seen, then the event ids seen and the event sequences seen per turn.
\<close>

definition check_turn ::
  "string \<Rightarrow> agent_turn \<Rightarrow> string list \<times> int list \<Rightarrow> (string list \<times> int list) result" where
  "check_turn run_id t = (\<lambda>(turn_ids, turn_sequences).
     bindr (checks
       [require (t_run_id t = run_id) (ValueError ''turn references an unknown run''),
        require (t_turn_id t \<notin> set turn_ids)
          (ValueError ''agent capture contains duplicate turn_id''),
        require (t_sequence t \<notin> set turn_sequences)
          (ValueError ''agent capture contains duplicate turn sequence'')])
     (\<lambda>_. Inr (t_turn_id t # turn_ids, t_sequence t # turn_sequences)))"

definition check_event ::
  "string list \<Rightarrow> agent_event \<Rightarrow> string list \<times> (string \<times> int) list
     \<Rightarrow> (string list \<times> (string \<times> int) list) result" where
  "check_event turn_ids e = (\<lambda>(event_ids, event_sequences).
     bindr (checks
       [require (e_turn_id e \<in> set turn_ids) (ValueError ''event references an unknown turn''),
        require (e_event_id e \<notin> set event_ids)
          (ValueError ''agent capture contains duplicate event_id''),
        require ((e_turn_id e, e_sequence e) \<notin> set event_sequences)
          (ValueError ''agent capture contains duplicate event sequence'')])
     (\<lambda>_. Inr (e_event_id e # event_ids, (e_turn_id e, e_sequence e) # event_sequences)))"

text \<open>\<open>s == set(range(n))\<close>, for the elements \<open>s\<close> of a list.\<close>

definition is_range :: "int list \<Rightarrow> nat \<Rightarrow> bool" where
  "is_range xs n = (set xs = set (map int [0..<n]))"

definition sequences_of :: "string \<Rightarrow> (string \<times> int) list \<Rightarrow> int list" where
  "sequences_of turn_id seqs = map snd (filter (\<lambda>p. fst p = turn_id) seqs)"

definition validate_agent_capture_parts :: "bool \<Rightarrow> agent_capture \<Rightarrow> py_error + unit" where
  "validate_agent_capture_parts contiguous c =
     bindr (checks
       [require (r_source_session_id (c_run c) = s_source_session_id (c_session c))
          (ValueError ''run references an unknown source session''),
        require (r_tenant_id (c_run c) = s_tenant_id (c_session c))
          (ValueError ''run and source session tenant_id must match'')]) (\<lambda>_.
     bindr (foldr_res (check_turn (r_run_id (c_run c))) (c_turns c) ([], [])) (\<lambda>(turn_ids, turn_seqs).
     bindr (require (contiguous \<longrightarrow> is_range turn_seqs (length (c_turns c)))
       (ValueError ''turn sequences must be contiguous from zero'')) (\<lambda>_.
     bindr (foldr_res (check_event turn_ids) (c_events c) ([], [])) (\<lambda>(event_ids, event_seqs).
     require (contiguous \<longrightarrow> list_all (\<lambda>t.
         is_range (sequences_of t event_seqs) (length (sequences_of t event_seqs))) turn_ids)
       (ValueError ''event sequences must be contiguous from zero per turn'')))))"

definition agent_capture_batch_checks :: "agent_capture \<Rightarrow> (py_error + unit) list" where
  "agent_capture_batch_checks c = [validate_agent_capture_parts False c]"

definition agent_run_bundle_checks :: "agent_capture \<Rightarrow> (py_error + unit) list" where
  "agent_run_bundle_checks c = [validate_agent_capture_parts True c]"

section \<open>What a valid capture is\<close>

text \<open>
  The declarative reading of the two loops: every reference resolves, identities are unique,
  and no two turns of the run (no two events of a turn) have the same position.
\<close>

definition capture_refs_ok :: "agent_capture \<Rightarrow> bool" where
  "capture_refs_ok c \<longleftrightarrow>
     r_source_session_id (c_run c) = s_source_session_id (c_session c) \<and>
     r_tenant_id (c_run c) = s_tenant_id (c_session c) \<and>
     (\<forall>t \<in> set (c_turns c). t_run_id t = r_run_id (c_run c)) \<and>
     distinct (map t_turn_id (c_turns c)) \<and>
     distinct (map t_sequence (c_turns c)) \<and>
     (\<forall>e \<in> set (c_events c). e_turn_id e \<in> t_turn_id ` set (c_turns c)) \<and>
     distinct (map e_event_id (c_events c)) \<and>
     distinct (map (\<lambda>e. (e_turn_id e, e_sequence e)) (c_events c))"

definition capture_contiguous :: "agent_capture \<Rightarrow> bool" where
  "capture_contiguous c \<longleftrightarrow>
     t_sequence ` set (c_turns c) = int ` {0..<length (c_turns c)} \<and>
     (\<forall>t \<in> set (c_turns c).
        e_sequence ` {e \<in> set (c_events c). e_turn_id e = t_turn_id t} =
        int ` {0..<length (filter (\<lambda>e. e_turn_id e = t_turn_id t) (c_events c))})"

lemma check_turn_eq_Inr:
  "check_turn r t (ids, seqs) = Inr st \<longleftrightarrow>
     t_run_id t = r \<and> t_turn_id t \<notin> set ids \<and> t_sequence t \<notin> set seqs \<and>
     st = (t_turn_id t # ids, t_sequence t # seqs)"
  by (auto simp: check_turn_def res_simps)

lemma check_event_eq_Inr:
  "check_event tids e (ids, seqs) = Inr st \<longleftrightarrow>
     e_turn_id e \<in> set tids \<and> e_event_id e \<notin> set ids \<and>
     (e_turn_id e, e_sequence e) \<notin> set seqs \<and>
     st = (e_event_id e # ids, (e_turn_id e, e_sequence e) # seqs)"
  by (auto simp: check_event_def res_simps)

lemma check_turns_eq_Inr:
  "foldr_res (check_turn r) ts (ids, seqs) = Inr (ids', seqs') \<longleftrightarrow>
     (\<forall>t \<in> set ts. t_run_id t = r) \<and>
     distinct (map t_turn_id ts) \<and> set (map t_turn_id ts) \<inter> set ids = {} \<and>
     distinct (map t_sequence ts) \<and> set (map t_sequence ts) \<inter> set seqs = {} \<and>
     ids' = rev (map t_turn_id ts) @ ids \<and> seqs' = rev (map t_sequence ts) @ seqs"
proof (induction ts arbitrary: ids seqs)
  case Nil
  then show ?case by auto
next
  case (Cons t ts)
  show ?case by (auto simp: check_turn_eq_Inr bindr_eq_Inr Cons.IH)
qed

lemma check_events_eq_Inr:
  "foldr_res (check_event tids) es (ids, seqs) = Inr (ids', seqs') \<longleftrightarrow>
     (\<forall>e \<in> set es. e_turn_id e \<in> set tids) \<and>
     distinct (map e_event_id es) \<and> set (map e_event_id es) \<inter> set ids = {} \<and>
     distinct (map (\<lambda>e. (e_turn_id e, e_sequence e)) es) \<and>
     set (map (\<lambda>e. (e_turn_id e, e_sequence e)) es) \<inter> set seqs = {} \<and>
     ids' = rev (map e_event_id es) @ ids \<and>
     seqs' = rev (map (\<lambda>e. (e_turn_id e, e_sequence e)) es) @ seqs"
proof (induction es arbitrary: ids seqs)
  case Nil
  then show ?case by auto
next
  case (Cons e es)
  show ?case by (auto simp: check_event_eq_Inr bindr_eq_Inr Cons.IH)
qed

lemma sequences_of_events:
  "sequences_of t (rev (map (\<lambda>e. (e_turn_id e, e_sequence e)) es)) =
     rev (map e_sequence (filter (\<lambda>e. e_turn_id e = t) es))"
  by (simp add: sequences_of_def filter_map o_def rev_map rev_filter)

lemma validate_agent_capture_parts_iff:
  "validate_agent_capture_parts contiguous c = Inr () \<longleftrightarrow>
     capture_refs_ok c \<and> (contiguous \<longrightarrow> capture_contiguous c)"
proof -
  have "e_sequence ` {e \<in> set (c_events c). e_turn_id e = i} =
      e_sequence ` set (filter (\<lambda>e. e_turn_id e = i) (c_events c))" for i
    by auto
  then show ?thesis
    by (auto simp: validate_agent_capture_parts_def res_simps check_turns_eq_Inr
      check_events_eq_Inr capture_refs_ok_def capture_contiguous_def is_range_def
      sequences_of_events list_all_iff)
qed

text \<open>The loops that validate a capture accept it exactly when every reference
resolves and every identity and position is unique, and, for a bundle, when turns and events are
numbered without gaps from zero.\<close>

theorem capture_validation_sound_complete:
  "(post_init agent_capture_batch_checks c = Inr c \<longleftrightarrow> capture_refs_ok c) \<and>
   (post_init agent_run_bundle_checks c = Inr c \<longleftrightarrow>
      capture_refs_ok c \<and> capture_contiguous c)"
  by (auto simp: res_simps passes_def agent_capture_batch_checks_def
    agent_run_bundle_checks_def validate_agent_capture_parts_iff)

end
