(* ===== verification/Trace_Record.thy ===== *)
theory Trace_Record
  imports Json
begin

text \<open>
  The \<open>Trace\<close> record of \<open>verdict/schema.py\<close>: one model call, its scalar normalisation at the
  public boundary, and the derived analysis fields.
\<close>

datatype operation = CHAT | TEXT_COMPLETION | EMBEDDING

definition operation_aliases :: "(string, operation) dict" where
  "operation_aliases =
     [(''messages.create'', CHAT), (''chat.completions.create'', CHAT),
      (''responses.create'', CHAT), (''generate_content'', CHAT),
      (''models.generate_content'', CHAT), (''completions.create'', TEXT_COMPLETION),
      (''embeddings.create'', EMBEDDING), (''embed_content'', EMBEDDING),
      (''models.embed_content'', EMBEDDING)]"

fun operation_value :: "operation \<Rightarrow> string" where
  "operation_value CHAT = ''chat''"
| "operation_value TEXT_COMPLETION = ''text_completion''"
| "operation_value EMBEDDING = ''embeddings''"

text \<open>\<open>str.lower()\<close> on ASCII letters; the other characters that \<open>lower\<close> changes occur in no alias.\<close>

definition lower_char :: "char \<Rightarrow> char" where
  "lower_char c = (if 65 \<le> ord c \<and> ord c \<le> 90 then char_of (ord c + 32) else c)"

definition operation_of :: "string \<Rightarrow> operation result" where
  "operation_of s =
     (case List.find (\<lambda>op. operation_value op = s) [CHAT, TEXT_COMPLETION, EMBEDDING] of
        Some op \<Rightarrow> Inr op
      | None \<Rightarrow>
          (case dget operation_aliases (map lower_char s) of
             Some op \<Rightarrow> Inr op
           | None \<Rightarrow> Inl (ValueError ''Unsupported operation'')))"

definition max_trace_integer :: int where
  "max_trace_integer = 2147483647"

text \<open>\<open>normalize_optional_integer\<close> and \<open>normalize_optional_float\<close> on any value.\<close>

definition normalize_optional_integer :: "jval \<Rightarrow> int \<Rightarrow> int \<Rightarrow> int option" where
  "normalize_optional_integer value minimum maximum =
     (case value of
        JInt n \<Rightarrow> if n < minimum \<or> maximum < n then None else Some n
      | _ \<Rightarrow> None)"

definition normalize_optional_float :: "jval \<Rightarrow> rat option \<Rightarrow> rat option" where
  "normalize_optional_float value minimum =
     (let bounded = (\<lambda>q. case minimum of None \<Rightarrow> Some q
                       | Some lo \<Rightarrow> if q < lo then None else Some q)
      in case value of
           JInt n \<Rightarrow> bounded (of_int n)
         | JFloat q r \<Rightarrow> bounded q
         | _ \<Rightarrow> None)"

text \<open>The same on the typed fields of a record.\<close>

definition norm_count :: "int option \<Rightarrow> int option" where
  "norm_count v = (case v of None \<Rightarrow> None
     | Some n \<Rightarrow> normalize_optional_integer (JInt n) 0 max_trace_integer)"

definition norm_amount :: "rat option \<Rightarrow> rat option" where
  "norm_amount v = (case v of None \<Rightarrow> None
     | Some q \<Rightarrow> normalize_optional_float (JFloat q []) (Some 0))"

record trace =
  tr_trace_id :: string
  tr_started_at :: int
  tr_ended_at :: "int option"
  tr_provider :: string
  tr_operation :: operation
  tr_request_model :: string
  tr_response_model :: string
  tr_input_tokens :: "int option"
  tr_output_tokens :: "int option"
  tr_temperature :: "rat option"
  tr_max_tokens :: "int option"
  tr_finish_reason :: "string option"
  tr_error :: "string option"
  tr_latency_ms :: "rat option"
  tr_prompt_redacted :: "string option"
  tr_response_redacted :: "string option"
  tr_raw_messages :: "jval list option"
  tr_tenant_id :: "string option"
  tr_session_id :: "string option"
  tr_user_id_hash :: "string option"
  tr_cluster_id :: "string option"
  tr_tags :: "(string, string) dict"
  tr_cost_usd :: "rat option"
  tr_parent_span_id :: "string option"
  tr_analysis_started_at_us :: "int option"
  tr_analysis_started_at_state :: string
  tr_analysis_raw_messages_utf8_bytes :: "nat option"
  tr_analysis_raw_messages_state :: string
  tr_service_name :: string
  tr_environment :: string

definition normalize_scalars :: "trace \<Rightarrow> trace" where
  "normalize_scalars t = t\<lparr>
     tr_input_tokens := norm_count (tr_input_tokens t),
     tr_output_tokens := norm_count (tr_output_tokens t),
     tr_max_tokens := norm_count (tr_max_tokens t),
     tr_latency_ms := norm_amount (tr_latency_ms t),
     tr_cost_usd := norm_amount (tr_cost_usd t)\<rparr>"

definition max_analysis_raw_messages_bytes :: nat where
  "max_analysis_raw_messages_bytes = 67108864"

text \<open>A datetime being its instant in microseconds, \<open>datetime_to_utc_us\<close> is the identity.\<close>

definition populate_trace_analysis_fields :: "trace \<Rightarrow> trace" where
  "populate_trace_analysis_fields t =
     (let t' = t\<lparr>tr_analysis_started_at_us := Some (tr_started_at t),
                 tr_analysis_started_at_state := ''valid''\<rparr>
      in case tr_raw_messages t of
           None \<Rightarrow> t'\<lparr>tr_analysis_raw_messages_utf8_bytes := None,
                      tr_analysis_raw_messages_state := ''missing''\<rparr>
         | Some msgs \<Rightarrow>
             (let n = length (json_dumps False (JList msgs))
              in t'\<lparr>tr_analysis_raw_messages_utf8_bytes := Some n,
                    tr_analysis_raw_messages_state :=
                      (if n \<le> max_analysis_raw_messages_bytes then ''valid'' else ''oversize'')\<rparr>))"

lemma norm_count_idem [simp]: "norm_count (norm_count v) = norm_count v"
  by (auto simp: norm_count_def normalize_optional_integer_def split: option.splits)

lemma norm_amount_idem [simp]: "norm_amount (norm_amount v) = norm_amount v"
  by (auto simp: norm_amount_def normalize_optional_float_def Let_def split: option.splits)

lemma normalize_scalars_idem: "normalize_scalars (normalize_scalars t) = normalize_scalars t"
  by (simp add: normalize_scalars_def)

text \<open>A trace as the constructor and the storage boundary leave it.\<close>

definition trace_normal :: "trace \<Rightarrow> bool" where
  "trace_normal t \<longleftrightarrow> normalize_scalars t = t \<and> populate_trace_analysis_fields t = t"

end
