(* ===== verification/Evidence_Merge.thy ===== *)
theory Evidence_Merge
  imports Evidence Trace_Record
begin

text \<open>
  The merge rules of \<open>verdict/normalized_evidence.py\<close>: how an incoming revision of a session,
  run, turn, event or linked trace is combined with the recorded one.  Every helper of the
  source is a definition; \<open>Inl\<close> is the \<open>ValueError\<close> it raises.
\<close>

section \<open>Field rules\<close>

definition replaced :: "string \<Rightarrow> py_error" where
  "replaced subject = ValueError (subject @ '' cannot be replaced'')"

definition advance_status ::
  "execution_status \<Rightarrow> execution_status \<Rightarrow> string \<Rightarrow> execution_status result" where
  "advance_status current incoming subject =
     (if current = incoming \<or> incoming = UNKNOWN then Inr current
      else if current = UNKNOWN then Inr incoming
      else Inl (ValueError (subject @ '' terminal status cannot be replaced'')))"

definition fill_text :: "string \<Rightarrow> string \<Rightarrow> string \<Rightarrow> string result" where
  "fill_text current incoming subject =
     (if current = [] then Inr incoming
      else if incoming = [] \<or> incoming = current then Inr current
      else Inl (replaced subject))"

definition fill_optional :: "'a option \<Rightarrow> 'a option \<Rightarrow> string \<Rightarrow> 'a option result" where
  "fill_optional current incoming subject =
     (if current = None then Inr incoming
      else if incoming = None \<or> incoming = current then Inr current
      else Inl (replaced subject))"

definition advance_end ::
  "execution_status \<Rightarrow> int option \<Rightarrow> execution_status \<Rightarrow> int option \<Rightarrow> string
     \<Rightarrow> int option result" where
  "advance_end current_status current incoming_status incoming subject =
     (if current_status \<noteq> UNKNOWN then
        (case (current, incoming) of
           (Some c, Some i) \<Rightarrow>
             if current_status = incoming_status \<and> i < c then Inr current
             else fill_optional current incoming subject
         | _ \<Rightarrow> fill_optional current incoming subject)
      else if incoming_status \<noteq> UNKNOWN then Inr incoming
      else (case (current, incoming) of
              (None, _) \<Rightarrow> Inr incoming
            | (_, None) \<Rightarrow> Inr current
            | (Some c, Some i) \<Rightarrow> Inr (Some (max c i))))"

definition advance_count :: "int option \<Rightarrow> int option \<Rightarrow> string \<Rightarrow> int option result" where
  "advance_count current incoming subject =
     (case (current, incoming) of
        (None, _) \<Rightarrow> Inr incoming
      | (_, None) \<Rightarrow> Inr current
      | (Some c, Some i) \<Rightarrow>
          if i = c then Inr current
          else if c < i then Inr incoming
          else Inl (ValueError (subject @ '' cannot decrease'')))"

definition extend_text ::
  "string option \<Rightarrow> string option \<Rightarrow> string \<Rightarrow> string option \<Rightarrow> string option result" where
  "extend_text current incoming subject legacy_projection =
     (case (current, incoming) of
        (None, _) \<Rightarrow> Inr incoming
      | (_, None) \<Rightarrow> Inr current
      | (Some c, Some i) \<Rightarrow>
          if i = c then Inr current
          else if prefix c i then Inr incoming
          else if prefix i c then Inr current
          else if legacy_projection = current then Inr incoming
          else Inl (replaced subject))"

definition messages_error :: py_error where
  "messages_error = ValueError ''Trace messages cannot be replaced''"

definition extend_messages ::
  "jval list option \<Rightarrow> jval list option \<Rightarrow> jval list option result" where
  "extend_messages current incoming =
     (case (current, incoming) of
        (None, _) \<Rightarrow> Inr incoming
      | (_, None) \<Rightarrow> Inr current
      | (Some c, Some i) \<Rightarrow>
          if jeq_list i c then Inr current
          else if jeq_list (take (length c) i) c then Inr incoming
          else if jeq_list (take (length i) c) i then Inr current
          else Inl messages_error)"

definition advance_evidence_state ::
  "evidence_state \<Rightarrow> evidence_state \<Rightarrow> bool \<Rightarrow> evidence_state result" where
  "advance_evidence_state current incoming has_content =
     (if has_content then Inr PRESENT
      else if current = incoming \<or> incoming = NOT_CAPTURED then Inr current
      else if current = NOT_CAPTURED then Inr incoming
      else Inl (ValueError ''turn evidence state cannot be replaced''))"

section \<open>Sessions and runs\<close>

definition later :: "int option \<Rightarrow> int option \<Rightarrow> int option" where
  "later a b =
     (case (a, b) of (None, _) \<Rightarrow> b | (_, None) \<Rightarrow> a | (Some x, Some y) \<Rightarrow> Some (max x y))"

definition merge_source_session ::
  "source_session option \<Rightarrow> source_session \<Rightarrow> source_session result" where
  "merge_source_session current incoming =
     (case current of
        None \<Rightarrow> Inr incoming
      | Some c \<Rightarrow>
          if (s_source_session_id c, s_tenant_id c, s_source_kind c, s_source_locator_hash c,
              s_started_at c) \<noteq>
             (s_source_session_id incoming, s_tenant_id incoming, s_source_kind incoming,
              s_source_locator_hash incoming, s_started_at incoming)
          then Inl (ValueError ''import source identity facts cannot be replaced'')
          else post_init source_session_checks
            \<lparr>s_source_session_id = s_source_session_id c,
             s_tenant_id = s_tenant_id c,
             s_source_kind = s_source_kind c,
             s_source_locator_hash = s_source_locator_hash c,
             s_started_at = s_started_at c,
             s_observed_at = max (s_observed_at c) (s_observed_at incoming),
             s_ended_at = later (s_ended_at c) (s_ended_at incoming)\<rparr>)"

definition merge_agent_run :: "agent_run option \<Rightarrow> agent_run \<Rightarrow> agent_run result" where
  "merge_agent_run current incoming =
     (case current of
        None \<Rightarrow> Inr incoming
      | Some c \<Rightarrow>
          if (r_run_id c, r_source_session_id c, r_tenant_id c, r_started_at c) \<noteq>
             (r_run_id incoming, r_source_session_id incoming, r_tenant_id incoming,
              r_started_at incoming)
          then Inl (ValueError ''agent run identity facts cannot be replaced'')
          else
     bindr (advance_status (r_status c) (r_status incoming) ''run'') (\<lambda>status.
     bindr (advance_end (r_status c) (r_ended_at c) (r_status incoming) (r_ended_at incoming)
       ''run end'') (\<lambda>ended_at.
     bindr (fill_text (r_agent_name c) (r_agent_name incoming) ''agent name'') (\<lambda>agent_name.
     bindr (fill_text (r_agent_version c) (r_agent_version incoming) ''agent version'') (\<lambda>agent_version.
     bindr (fill_text (r_configuration_fingerprint c) (r_configuration_fingerprint incoming)
       ''agent configuration'') (\<lambda>configuration.
     bindr (fill_optional (r_session_id c) (r_session_id incoming) ''logical session'') (\<lambda>session_id.
     bindr (fill_optional (r_parent_run_id c) (r_parent_run_id incoming) ''parent run'') (\<lambda>parent.
     bindr (fill_text (r_service_name c) (r_service_name incoming) ''service name'') (\<lambda>service_name.
     bindr (fill_text (r_environment c) (r_environment incoming) ''environment'') (\<lambda>environment.
     bindr (fill_text (r_instance_id c) (r_instance_id incoming) ''instance'') (\<lambda>instance_id.
     post_init agent_run_checks
       \<lparr>r_run_id = r_run_id c,
        r_source_session_id = r_source_session_id c,
        r_tenant_id = r_tenant_id c,
        r_started_at = r_started_at c,
        r_status = status,
        r_ended_at = ended_at,
        r_agent_name = agent_name,
        r_agent_version = agent_version,
        r_configuration_fingerprint = configuration,
        r_session_id = session_id,
        r_parent_run_id = parent,
        r_service_name = service_name,
        r_environment = environment,
        r_instance_id = instance_id\<rparr>)))))))))))"

section \<open>Turns\<close>

text \<open>
  The keyword arguments of \<open>merge_agent_turn\<close>: the preview pair of a legacy local capture, and
  the two flags of the local-history adapter.
\<close>

record merge_options =
  m_legacy_preview :: "(string option \<times> string option) option"
  m_replace_progress :: bool
  m_clear_local_request :: bool

definition default_options :: merge_options where
  "default_options =
     \<lparr>m_legacy_preview = None, m_replace_progress = False, m_clear_local_request = False\<rparr>"

definition legacy_request :: "merge_options \<Rightarrow> string option" where
  "legacy_request opts = (case m_legacy_preview opts of None \<Rightarrow> None | Some p \<Rightarrow> fst p)"

definition legacy_response :: "merge_options \<Rightarrow> string option" where
  "legacy_response opts = (case m_legacy_preview opts of None \<Rightarrow> None | Some p \<Rightarrow> snd p)"

text \<open>
  Whether the merged text is truncated: as the side the text came from says, or as either
  says when they agree on the text.
\<close>

definition merge_truncated ::
  "string option \<Rightarrow> string option \<Rightarrow> bool \<Rightarrow> string option \<Rightarrow> bool \<Rightarrow> bool" where
  "merge_truncated merged current current_truncated incoming incoming_truncated =
     (if merged = incoming \<and> incoming \<noteq> current then incoming_truncated
      else if merged = current \<and> current \<noteq> incoming then current_truncated
      else current_truncated \<or> incoming_truncated)"

definition turn_identity :: "agent_turn \<Rightarrow> string \<times> string \<times> int \<times> int" where
  "turn_identity t = (t_turn_id t, t_run_id t, t_sequence t, t_started_at t)"

definition clear_turn_request :: "agent_turn \<Rightarrow> agent_turn \<Rightarrow> agent_turn result" where
  "clear_turn_request c incoming =
     (if t_user_request_redacted incoming \<noteq> None \<or> t_request_truncated incoming
      then Inl (ValueError ''local Turn request reclassification is invalid'')
      else post_init agent_turn_checks
        (c\<lparr>t_user_request_redacted := None, t_request_state := t_request_state incoming,
           t_request_truncated := False\<rparr>))"

definition merge_turn_fields ::
  "merge_options \<Rightarrow> agent_turn \<Rightarrow> agent_turn \<Rightarrow> agent_turn result" where
  "merge_turn_fields opts c incoming =
     bindr (extend_text (t_user_request_redacted c) (t_user_request_redacted incoming)
       ''turn request'' (legacy_request opts)) (\<lambda>request.
     bindr (extend_text (t_final_response_redacted c) (t_final_response_redacted incoming)
       ''turn response'' (legacy_response opts)) (\<lambda>response.
     bindr (advance_status (t_status c) (t_status incoming) ''turn'') (\<lambda>status.
     bindr (advance_end (t_status c) (t_ended_at c) (t_status incoming) (t_ended_at incoming)
       ''turn end'') (\<lambda>ended_at.
     bindr (advance_evidence_state (t_request_state c) (t_request_state incoming)
       (request \<noteq> None)) (\<lambda>request_state.
     bindr (advance_evidence_state (t_response_state c) (t_response_state incoming)
       (response \<noteq> None)) (\<lambda>response_state.
     bindr (advance_count (t_input_tokens c) (t_input_tokens incoming)
       ''turn input tokens'') (\<lambda>input_tokens.
     bindr (advance_count (t_cached_input_tokens c) (t_cached_input_tokens incoming)
       ''turn cached input tokens'') (\<lambda>cached.
     bindr (advance_count (t_cache_write_input_tokens c) (t_cache_write_input_tokens incoming)
       ''turn cache-write input tokens'') (\<lambda>cache_write.
     bindr (advance_count (t_output_tokens c) (t_output_tokens incoming)
       ''turn output tokens'') (\<lambda>output_tokens.
     bindr (advance_count (t_reasoning_output_tokens c) (t_reasoning_output_tokens incoming)
       ''turn reasoning output tokens'') (\<lambda>reasoning.
     bindr (advance_count (t_total_tokens c) (t_total_tokens incoming)
       ''turn total tokens'') (\<lambda>total.
     bindr (fill_optional (t_token_usage_basis c) (t_token_usage_basis incoming)
       ''turn token usage basis'') (\<lambda>basis.
     bindr (if m_replace_progress opts \<and> t_progress_redacted incoming \<noteq> None
            then Inr (t_progress_redacted incoming)
            else extend_text (t_progress_redacted c) (t_progress_redacted incoming)
              ''turn progress'' None) (\<lambda>progress.
     post_init agent_turn_checks
       \<lparr>t_turn_id = t_turn_id c,
        t_run_id = t_run_id c,
        t_sequence = t_sequence c,
        t_started_at = t_started_at c,
        t_status = status,
        t_ended_at = ended_at,
        t_user_request_redacted = request,
        t_final_response_redacted = response,
        t_request_state = request_state,
        t_response_state = response_state,
        t_input_tokens = input_tokens,
        t_cached_input_tokens = cached,
        t_cache_write_input_tokens = cache_write,
        t_output_tokens = output_tokens,
        t_reasoning_output_tokens = reasoning,
        t_total_tokens = total,
        t_token_usage_basis = basis,
        t_request_truncated = merge_truncated request (t_user_request_redacted c)
          (t_request_truncated c) (t_user_request_redacted incoming)
          (t_request_truncated incoming),
        t_response_truncated = merge_truncated response (t_final_response_redacted c)
          (t_response_truncated c) (t_final_response_redacted incoming)
          (t_response_truncated incoming),
        t_progress_redacted = progress\<rparr>))))))))))))))"

definition merge_agent_turn ::
  "merge_options \<Rightarrow> agent_turn option \<Rightarrow> agent_turn \<Rightarrow> agent_turn result" where
  "merge_agent_turn opts current incoming =
     (case current of
        None \<Rightarrow> Inr incoming
      | Some c \<Rightarrow>
          if turn_identity c \<noteq> turn_identity incoming
          then Inl (ValueError ''turn identity facts cannot be replaced'')
          else bindr (if m_clear_local_request opts then clear_turn_request c incoming else Inr c)
            (\<lambda>c'. merge_turn_fields opts c' incoming))"

section \<open>Events\<close>

definition event_conflict :: py_error where
  "event_conflict = ValueError ''agent event facts cannot be replaced''"

definition capture_limit_marker :: "agent_event \<Rightarrow> agent_event \<Rightarrow> bool" where
  "capture_limit_marker c incoming \<longleftrightarrow>
     e_provenance c = ''verdict:capture_limit'' \<and>
     e_provenance incoming = e_provenance c \<and>
     dget (e_attributes c) ''name'' = Some (JStr ''source_events_omitted'') \<and>
     dget (e_attributes incoming) ''name'' = dget (e_attributes c) ''name''"

text \<open>\<open>int(str(v))\<close>: only text and integers print as something \<open>int\<close> reads.\<close>

definition int_of_jval :: "jval \<Rightarrow> int option" where
  "int_of_jval v = (case v of JStr s \<Rightarrow> py_int s | JInt i \<Rightarrow> Some i | _ \<Rightarrow> None)"

definition merge_attribute ::
  "bool \<Rightarrow> string \<times> jval \<Rightarrow> (string, jval) dict \<Rightarrow> (string, jval) dict result" where
  "merge_attribute marker = (\<lambda>(name, value) attributes.
     (case dget attributes name of
        None \<Rightarrow> Inr (dset name value attributes)
      | Some old \<Rightarrow>
          if old = JNull \<or> old = JStr [] then Inr (dset name value attributes)
          else if name = ''source'' \<and> marker then
            (case (int_of_jval old, int_of_jval value) of
               (Some a, Some b) \<Rightarrow> Inr (dset name (JStr (dec_of_int (max a b))) attributes)
             | _ \<Rightarrow> Inl event_conflict)
          else if value = JNull \<or> value = JStr [] \<or> jeq value old then Inr attributes
          else Inl event_conflict))"

definition merge_attributes ::
  "bool \<Rightarrow> (string, jval) dict \<Rightarrow> (string, jval) dict \<Rightarrow> (string, jval) dict result" where
  "merge_attributes marker current incoming =
     foldr_res (merge_attribute marker) incoming current"

fun privacy_rank :: "privacy_classification \<Rightarrow> nat" where
  "privacy_rank OMITTED = 0"
| "privacy_rank METADATA = 1"
| "privacy_rank REDACTED = 2"

definition max_privacy ::
  "privacy_classification \<Rightarrow> privacy_classification \<Rightarrow> privacy_classification" where
  "max_privacy a b = (if privacy_rank a < privacy_rank b then b else a)"

definition merge_agent_event :: "agent_event option \<Rightarrow> agent_event \<Rightarrow> agent_event result" where
  "merge_agent_event current incoming =
     (case current of
        None \<Rightarrow> Inr incoming
      | Some c \<Rightarrow>
          let marker = capture_limit_marker c incoming;
              privacy = max_privacy (e_privacy c) (e_privacy incoming) in
          if (e_event_id c, e_turn_id c, e_sequence c, e_event_type c, e_provenance c) \<noteq>
             (e_event_id incoming, e_turn_id incoming, e_sequence incoming,
              e_event_type incoming, e_provenance incoming)
             \<or> (e_occurred_at c \<noteq> e_occurred_at incoming \<and> \<not> marker)
          then Inl event_conflict
          else
     bindr (merge_attributes marker (e_attributes c) (e_attributes incoming)) (\<lambda>attributes.
     bindr (if privacy = OMITTED
            then fill_optional (e_omission_reason c) (e_omission_reason incoming)
              ''event omission reason''
            else Inr None) (\<lambda>omission_reason.
     bindr (advance_status (e_status c) (e_status incoming) ''event'') (\<lambda>status.
     bindr (fill_optional (e_trace_id c) (e_trace_id incoming) ''event Trace link'') (\<lambda>trace_id.
     bindr (fill_text (e_producer_id c) (e_producer_id incoming) ''event producer'') (\<lambda>producer.
     bindr (fill_optional (e_producer_sequence c) (e_producer_sequence incoming)
       ''event producer sequence'') (\<lambda>producer_sequence.
     bindr (fill_optional (e_parent_event_id c) (e_parent_event_id incoming)
       ''event parent'') (\<lambda>parent.
     post_init agent_event_checks
       \<lparr>e_event_id = e_event_id c,
        e_turn_id = e_turn_id c,
        e_sequence = e_sequence c,
        e_occurred_at = e_occurred_at c,
        e_event_type = e_event_type c,
        e_status = status,
        e_provenance = e_provenance c,
        e_attributes = attributes,
        e_privacy = privacy,
        e_omission_reason = omission_reason,
        e_trace_id = trace_id,
        e_producer_id = producer,
        e_producer_sequence = producer_sequence,
        e_parent_event_id = parent\<rparr>))))))))"

section \<open>Linked traces\<close>

definition tag_set :: "trace \<Rightarrow> string \<Rightarrow> bool" where
  "tag_set t k = (case dget (tr_tags t) k of None \<Rightarrow> False | Some v \<Rightarrow> v \<noteq> [])"

definition is_verdict_local_agent_trace :: "trace \<Rightarrow> bool" where
  "is_verdict_local_agent_trace t \<longleftrightarrow>
     dget (tr_tags t) ''verdict.source'' = Some ''claude-code'' \<and>
     dget (tr_tags t) ''verdict.workload'' = Some ''agent'' \<and>
     tag_set t ''verdict.agent_run_id'' \<and>
     tag_set t ''verdict.agent_event_id'' \<and>
     dget (tr_tags t) ''verdict.input_evidence'' = Some ''turn_request_only'' \<and>
     dget (tr_tags t) ''verdict.time_evidence'' = Some ''response_observed_at''"

definition message :: "string \<Rightarrow> string \<Rightarrow> jval" where
  "message role content = JDict [(''role'', JStr role), (''content'', JStr content)]"

definition local_agent_messages :: "string option \<Rightarrow> string option \<Rightarrow> jval list option" where
  "local_agent_messages prompt response =
     (let messages = (case prompt of None \<Rightarrow> [] | Some p \<Rightarrow> [message ''user'' p])
                   @ (case response of None \<Rightarrow> [] | Some r \<Rightarrow> [message ''assistant'' r])
      in if messages = [] then None else Some messages)"

definition messages_eq :: "jval list option \<Rightarrow> jval list option \<Rightarrow> bool" where
  "messages_eq a b =
     (case (a, b) of (None, None) \<Rightarrow> True | (Some x, Some y) \<Rightarrow> jeq_list x y | _ \<Rightarrow> False)"

definition validate_local_agent_messages :: "trace \<Rightarrow> py_error + unit" where
  "validate_local_agent_messages t =
     require (messages_eq (tr_raw_messages t)
         (local_agent_messages (tr_prompt_redacted t) (tr_response_redacted t)))
       messages_error"

definition same_request_facts :: "trace \<Rightarrow> trace \<Rightarrow> bool" where
  "same_request_facts a b \<longleftrightarrow>
     tr_trace_id a = tr_trace_id b \<and> tr_started_at a = tr_started_at b \<and>
     tr_provider a = tr_provider b \<and> tr_operation a = tr_operation b \<and>
     tr_request_model a = tr_request_model b \<and> tr_temperature a = tr_temperature b \<and>
     tr_max_tokens a = tr_max_tokens b \<and> tr_tenant_id a = tr_tenant_id b \<and>
     tr_session_id a = tr_session_id b \<and> tr_user_id_hash a = tr_user_id_hash b \<and>
     tags_eq (tr_tags a) (tr_tags b)"

definition or_text :: "string option \<Rightarrow> string option \<Rightarrow> string option" where
  "or_text a b = (case a of None \<Rightarrow> b | Some s \<Rightarrow> if s = [] then b else a)"

definition clear_trace_request :: "trace \<Rightarrow> trace \<Rightarrow> trace result" where
  "clear_trace_request c incoming =
     (if \<not> is_verdict_local_agent_trace c \<or> tr_prompt_redacted incoming \<noteq> None
      then Inl (ValueError ''local Trace request reclassification is invalid'')
      else bindr (validate_local_agent_messages c) (\<lambda>_.
        Inr (normalize_scalars (c\<lparr>tr_prompt_redacted := None,
          tr_raw_messages := local_agent_messages None (tr_response_redacted c)\<rparr>))))"

definition merge_trace_text ::
  "bool \<Rightarrow> string option \<Rightarrow> string option \<Rightarrow> string \<Rightarrow> string option \<Rightarrow> string option result" where
  "merge_trace_text local_trace current incoming subject legacy =
     (if local_trace then extend_text current incoming subject legacy
      else fill_optional current incoming subject)"

definition merge_trace_messages ::
  "bool \<Rightarrow> trace \<Rightarrow> trace \<Rightarrow> string option \<Rightarrow> string option \<Rightarrow> jval list option result" where
  "merge_trace_messages local_trace c incoming prompt response =
     (if local_trace then
        bindr (validate_local_agent_messages c) (\<lambda>_.
        bindr (validate_local_agent_messages incoming) (\<lambda>_.
        Inr (local_agent_messages prompt response)))
      else extend_messages (tr_raw_messages c) (tr_raw_messages incoming))"

definition merge_trace_fields :: "merge_options \<Rightarrow> trace \<Rightarrow> trace \<Rightarrow> trace result" where
  "merge_trace_fields opts c incoming =
     (let local_trace = is_verdict_local_agent_trace c in
     bindr (merge_trace_text local_trace (tr_prompt_redacted c) (tr_prompt_redacted incoming)
       ''Trace prompt'' (legacy_request opts)) (\<lambda>prompt.
     bindr (merge_trace_text local_trace (tr_response_redacted c) (tr_response_redacted incoming)
       ''Trace response'' (legacy_response opts)) (\<lambda>response.
     bindr (merge_trace_messages local_trace c incoming prompt response) (\<lambda>raw_messages.
     bindr (fill_optional (tr_ended_at c) (tr_ended_at incoming) ''Trace end'') (\<lambda>ended_at.
     bindr (fill_text (tr_response_model c) (tr_response_model incoming)
       ''Trace response model'') (\<lambda>response_model.
     bindr (fill_optional (tr_input_tokens c) (tr_input_tokens incoming)
       ''Trace input tokens'') (\<lambda>input_tokens.
     bindr (fill_optional (tr_output_tokens c) (tr_output_tokens incoming)
       ''Trace output tokens'') (\<lambda>output_tokens.
     bindr (fill_optional (tr_finish_reason c) (tr_finish_reason incoming)
       ''Trace finish reason'') (\<lambda>finish_reason.
     bindr (fill_optional (tr_error c) (tr_error incoming) ''Trace error'') (\<lambda>error.
     bindr (fill_optional (tr_latency_ms c) (tr_latency_ms incoming) ''Trace latency'') (\<lambda>latency.
     bindr (fill_optional (tr_cost_usd c) (tr_cost_usd incoming) ''Trace cost'') (\<lambda>cost.
     bindr (fill_optional (tr_parent_span_id c) (tr_parent_span_id incoming)
       ''Trace parent span'') (\<lambda>parent_span.
     Inr (populate_trace_analysis_fields (normalize_scalars (incoming\<lparr>
       tr_ended_at := ended_at,
       tr_response_model := response_model,
       tr_input_tokens := input_tokens,
       tr_output_tokens := output_tokens,
       tr_finish_reason := finish_reason,
       tr_error := error,
       tr_latency_ms := latency,
       tr_prompt_redacted := prompt,
       tr_response_redacted := response,
       tr_raw_messages := raw_messages,
       tr_cost_usd := cost,
       tr_parent_span_id := parent_span,
       tr_cluster_id := or_text (tr_cluster_id incoming) (tr_cluster_id c)\<rparr>))))))))))))))))"

definition merge_capture_trace :: "merge_options \<Rightarrow> trace option \<Rightarrow> trace \<Rightarrow> trace result" where
  "merge_capture_trace opts current incoming =
     (case current of
        None \<Rightarrow> Inr incoming
      | Some c \<Rightarrow>
          if \<not> same_request_facts c incoming
          then Inl (ValueError ''Trace request identity facts cannot be replaced'')
          else bindr (if m_clear_local_request opts then clear_trace_request c incoming else Inr c)
            (\<lambda>c'. merge_trace_fields opts c' incoming))"

end
