(* ===== verification/Capture_Prepare.thy ===== *)
theory Capture_Prepare
  imports Evidence_Merge
begin

text \<open>
  The boundary every capture crosses before it is stored: the sanitizers of
  \<open>verdict/redaction.py\<close> that walk traces and capture records, and the preparation of the
  linked traces in \<open>verdict/normalized_evidence.py\<close>.

  The text-level rules of the redactor (its patterns, its budget, its key classification) are
  a parameter, the record \<open>redactor\<close>: \<open>redact\<close>, \<open>redact_structure\<close> on text and on
  JSON values, \<open>_secret_value\<close> and \<open>_is_sensitive_key\<close> at one fixed mode and secret.
\<close>

record redactor =
  rd_plain :: "string \<Rightarrow> string"
  rd_text :: "string \<Rightarrow> string"
  rd_value :: "jval \<Rightarrow> jval"
  rd_secret :: "jval \<Rightarrow> jval"
  rd_sensitive :: "string \<Rightarrow> bool"

definition message_fields :: "string list" where
  "message_fields =
     [''role'', ''content'', ''name'', ''tool_call_id'', ''tool_calls'', ''function_call'',
      ''metadata'', ''refusal'', ''audio'', ''cache_control'']"

definition redacted :: string where
  "redacted = ''<REDACTED>''"

definition or_else :: "string \<Rightarrow> string \<Rightarrow> string" where
  "or_else s d = (if s = [] then d else s)"

section \<open>Sanitizing a trace\<close>

definition redact_message :: "redactor \<Rightarrow> jval \<Rightarrow> jval" where
  "redact_message rd m =
     (case m of
        JDict kvs \<Rightarrow>
          JDict (fold (\<lambda>key sanitized.
             (case dget kvs key of
                None \<Rightarrow> sanitized
              | Some v \<Rightarrow> dset (or_else (rd_plain rd key) key) (rd_value rd v) sanitized))
            message_fields [])
      | _ \<Rightarrow> JDict [(''role'', JStr ''unknown''), (''content'', JStr redacted)])"

definition redact_messages :: "redactor \<Rightarrow> jval list \<Rightarrow> jval list" where
  "redact_messages rd = map (redact_message rd)"

text \<open>\<open>redact_structure\<close> maps a text to a text, so only text occurs as the value of a tag.\<close>

definition tag_text :: "jval \<Rightarrow> string" where
  "tag_text v = (case v of JStr s \<Rightarrow> s | _ \<Rightarrow> redacted)"

definition sanitize_tags :: "redactor \<Rightarrow> (string, string) dict \<Rightarrow> (string, string) dict" where
  "sanitize_tags rd tags =
     (let v = rd_value rd (JDict (map (map_prod id JStr) tags))
      in case v of
           JDict kvs \<Rightarrow> map (map_prod id tag_text) kvs
         | _ \<Rightarrow> [(''verdict.redaction_status'', tag_text v)])"

definition sanitize_label :: "redactor \<Rightarrow> string \<Rightarrow> string" where
  "sanitize_label rd value = (if length value \<le> 256 then rd_text rd value else [])"

definition sanitize_trace :: "redactor \<Rightarrow> trace \<Rightarrow> trace" where
  "sanitize_trace rd t = t\<lparr>
     tr_prompt_redacted := map_option (rd_text rd) (tr_prompt_redacted t),
     tr_response_redacted := map_option (rd_text rd) (tr_response_redacted t),
     tr_error := map_option (rd_text rd) (tr_error t),
     tr_service_name := sanitize_label rd (tr_service_name t),
     tr_environment := sanitize_label rd (tr_environment t),
     tr_raw_messages := map_option (redact_messages rd) (tr_raw_messages t),
     tr_tags := sanitize_tags rd (tr_tags t)\<rparr>"

section \<open>Sanitizing a capture\<close>

fun semantic_content_fields :: "agent_event_type \<Rightarrow> string list" where
  "semantic_content_fields INSTRUCTION = [''text'']"
| "semantic_content_fields CONTEXT = [''text'', ''value'']"
| "semantic_content_fields OUTCOME = [''value'']"
| "semantic_content_fields _ = []"

definition sensitive_name :: "redactor \<Rightarrow> (string, jval) dict \<Rightarrow> bool" where
  "sensitive_name rd attributes =
     (case dget attributes ''name'' of Some (JStr s) \<Rightarrow> rd_sensitive rd s | _ \<Rightarrow> False)"

definition sanitize_agent_event_attributes ::
  "redactor \<Rightarrow> agent_event_type \<Rightarrow> (string, jval) dict \<Rightarrow> (string, jval) dict" where
  "sanitize_agent_event_attributes rd event_type attributes =
     (case rd_value rd (JDict attributes) of
        JDict sanitized \<Rightarrow>
          (if sensitive_name rd attributes then
             fold (\<lambda>field s. (case dget s field of
                 None \<Rightarrow> s
               | Some v \<Rightarrow> dset field (rd_secret rd v) s))
               (semantic_content_fields event_type) sanitized
           else sanitized)
      | _ \<Rightarrow> [])"

definition sanitize_run :: "redactor \<Rightarrow> agent_run \<Rightarrow> agent_run result" where
  "sanitize_run rd r = post_init agent_run_checks (r\<lparr>
     r_agent_name := rd_text rd (r_agent_name r),
     r_agent_version := rd_text rd (r_agent_version r),
     r_service_name := rd_text rd (r_service_name r),
     r_environment := rd_text rd (r_environment r)\<rparr>)"

definition sanitize_progress :: "redactor \<Rightarrow> string option \<Rightarrow> string option" where
  "sanitize_progress rd p =
     (case map_option (rd_text rd) p of
        None \<Rightarrow> None
      | Some s \<Rightarrow> Some (if 4096 < length s then redacted else s))"

definition sanitize_turn :: "redactor \<Rightarrow> agent_turn \<Rightarrow> agent_turn result" where
  "sanitize_turn rd t = post_init agent_turn_checks (t\<lparr>
     t_user_request_redacted := map_option (rd_text rd) (t_user_request_redacted t),
     t_final_response_redacted := map_option (rd_text rd) (t_final_response_redacted t),
     t_progress_redacted := sanitize_progress rd (t_progress_redacted t)\<rparr>)"

definition sanitize_event :: "redactor \<Rightarrow> agent_event \<Rightarrow> agent_event result" where
  "sanitize_event rd e = post_init agent_event_checks (e\<lparr>
     e_attributes := sanitize_agent_event_attributes rd (e_event_type e) (e_attributes e)\<rparr>)"

text \<open>\<open>capture_checks\<close> is the constructor of the class: a batch or a bundle.\<close>

definition sanitize_agent_capture ::
  "redactor \<Rightarrow> (agent_capture \<Rightarrow> (py_error + unit) list) \<Rightarrow> agent_capture
     \<Rightarrow> agent_capture result" where
  "sanitize_agent_capture rd capture_checks c =
     bindr (sanitize_run rd (c_run c)) (\<lambda>run.
     bindr (traverse (sanitize_turn rd) (c_turns c)) (\<lambda>turns.
     bindr (traverse (sanitize_event rd) (c_events c)) (\<lambda>events.
     post_init capture_checks
       \<lparr>c_session = c_session c, c_run = run, c_turns = turns, c_events = events\<rparr>)))"

section \<open>Linked traces\<close>

definition event_links :: "agent_event list \<Rightarrow> string list" where
  "event_links events = List.map_filter e_trace_id events"

definition prepare_trace ::
  "redactor \<Rightarrow> string list \<Rightarrow> trace \<Rightarrow> trace list \<Rightarrow> trace list result" where
  "prepare_trace rd linked_ids source_trace prepared =
     (let t = populate_trace_analysis_fields (sanitize_trace rd source_trace) in
     bindr (checks
       [require (tr_trace_id t \<notin> tr_trace_id ` set prepared)
          (ValueError ''agent capture contains duplicate trace_id''),
        require (tr_trace_id t \<in> set linked_ids)
          (ValueError ''agent capture contains an unlinked Trace'')])
     (\<lambda>_. Inr (prepared @ [t])))"

definition prepare_linked_traces ::
  "redactor \<Rightarrow> agent_event list \<Rightarrow> trace list \<Rightarrow> (trace list \<times> string list) result" where
  "prepare_linked_traces rd events traces =
     (let linked_ids = event_links events in
     bindr (require (distinct linked_ids)
       (ValueError ''agent capture links one Trace to multiple AgentEvents'')) (\<lambda>_.
     bindr (foldr_res (prepare_trace rd linked_ids) traces []) (\<lambda>prepared.
     Inr (prepared, linked_ids))))"

definition prepare_agent_capture ::
  "redactor \<Rightarrow> (agent_capture \<Rightarrow> (py_error + unit) list) \<Rightarrow> agent_capture \<Rightarrow> trace list
     \<Rightarrow> (agent_capture \<times> trace list \<times> string list) result" where
  "prepare_agent_capture rd capture_checks c traces =
     bindr (sanitize_agent_capture rd capture_checks c) (\<lambda>sanitized.
     bindr (prepare_linked_traces rd (c_events sanitized) traces) (\<lambda>(prepared, linked_ids).
     Inr (sanitized, prepared, linked_ids)))"

definition require_same_tenant_linked_traces ::
  "string \<Rightarrow> string list \<Rightarrow> (string \<Rightarrow> string option option) \<Rightarrow> py_error + unit" where
  "require_same_tenant_linked_traces tenant_id linked_ids trace_tenants =
     require (list_all (\<lambda>t. trace_tenants t = Some (Some tenant_id)) linked_ids)
       (ValueError ''model-call event requires a same-tenant Trace'')"

section \<open>What a prepared capture satisfies\<close>

text \<open>Every record of a prepared capture is valid, whatever the redactor returned.\<close>

definition capture_valid :: "agent_capture \<Rightarrow> bool" where
  "capture_valid c \<longleftrightarrow>
     passes agent_run_checks (c_run c) \<and>
     list_all (passes agent_turn_checks) (c_turns c) \<and>
     list_all (passes agent_event_checks) (c_events c) \<and>
     capture_refs_ok c"

lemma list_all2_imp_list_all: "list_all2 P xs ys \<Longrightarrow> (\<And>x y. P x y \<Longrightarrow> Q y) \<Longrightarrow> list_all Q ys"
  by (induction rule: list_all2_induct) auto

lemma sanitized_capture_valid:
  assumes "sanitize_agent_capture rd cc c = Inr c'"
    and "cc = agent_capture_batch_checks \<or> cc = agent_run_bundle_checks"
  shows "capture_valid c' \<and> c_session c' = c_session c"
proof -
  from assms(1) have run: "sanitize_run rd (c_run c) = Inr (c_run c')"
    and turns: "list_all2 (\<lambda>x y. sanitize_turn rd x = Inr y) (c_turns c) (c_turns c')"
    and events: "list_all2 (\<lambda>x y. sanitize_event rd x = Inr y) (c_events c) (c_events c')"
    and cap: "passes cc c'" and session: "c_session c' = c_session c"
    by (auto simp: sanitize_agent_capture_def res_simps)
  from cap assms(2) have "capture_refs_ok c'"
    by (auto simp: passes_def agent_capture_batch_checks_def agent_run_bundle_checks_def
      validate_agent_capture_parts_iff)
  moreover have "list_all (passes agent_turn_checks) (c_turns c')"
    using turns by (rule list_all2_imp_list_all) (auto simp: sanitize_turn_def res_simps)
  moreover have "list_all (passes agent_event_checks) (c_events c')"
    using events by (rule list_all2_imp_list_all) (auto simp: sanitize_event_def res_simps)
  ultimately show ?thesis
    using run session by (auto simp: capture_valid_def sanitize_run_def res_simps)
qed

lemma prepare_trace_eq_Inr:
  "prepare_trace rd ids t acc = Inr out \<longleftrightarrow>
     (let u = populate_trace_analysis_fields (sanitize_trace rd t) in
      tr_trace_id u \<notin> tr_trace_id ` set acc \<and> tr_trace_id u \<in> set ids \<and> out = acc @ [u])"
  by (auto simp: prepare_trace_def Let_def res_simps)

lemma prepare_traces_ok:
  "foldr_res (prepare_trace rd ids) ts acc = Inr out \<Longrightarrow>
   out = acc @ map (\<lambda>t. populate_trace_analysis_fields (sanitize_trace rd t)) ts \<and>
   (distinct (map tr_trace_id acc) \<longrightarrow> distinct (map tr_trace_id out)) \<and>
   (tr_trace_id ` set acc \<subseteq> set ids \<longrightarrow> tr_trace_id ` set out \<subseteq> set ids)"
proof (induction ts arbitrary: acc)
  case Nil
  then show ?case by simp
next
  case (Cons t ts)
  let ?t = "populate_trace_analysis_fields (sanitize_trace rd t)"
  from Cons.prems have new: "tr_trace_id ?t \<notin> tr_trace_id ` set acc" "tr_trace_id ?t \<in> set ids"
    and rest: "foldr_res (prepare_trace rd ids) ts (acc @ [?t]) = Inr out"
    by (auto simp: prepare_trace_eq_Inr Let_def res_simps)
  have "distinct (map tr_trace_id acc) \<Longrightarrow> distinct (map tr_trace_id (acc @ [?t]))"
    "tr_trace_id ` set acc \<subseteq> set ids \<Longrightarrow> tr_trace_id ` set (acc @ [?t]) \<subseteq> set ids"
    using new by auto
  with Cons.IH [OF rest] show ?case by (metis append.assoc append_Cons append_Nil list.map(2))
qed

lemma prepare_linked_traces_ok:
  "prepare_linked_traces rd events ts = Inr (prepared, ids) \<Longrightarrow>
   ids = event_links events \<and> distinct ids \<and> distinct (map tr_trace_id prepared) \<and>
   tr_trace_id ` set prepared \<subseteq> set ids"
  by (auto simp: prepare_linked_traces_def Let_def res_simps dest!: prepare_traces_ok)

lemma event_links_in: "t \<in> set (event_links es) \<longleftrightarrow> (\<exists>e \<in> set es. e_trace_id e = Some t)"
  by (induction es) (auto simp: event_links_def map_filter_simps split: option.splits)

lemma event_links_distinct:
  "distinct (event_links es) \<Longrightarrow> a \<in> set es \<Longrightarrow> b \<in> set es \<Longrightarrow> e_trace_id a = Some t \<Longrightarrow>
   e_trace_id b = Some t \<Longrightarrow> a = b"
proof (induction es)
  case Nil
  then show ?case by simp
next
  case (Cons e es)
  have "event_links (e # es) = (case e_trace_id e of None \<Rightarrow> [] | Some u \<Rightarrow> [u]) @ event_links es"
    by (simp add: event_links_def map_filter_simps split: option.split)
  with Cons show ?case by (auto simp: event_links_in split: option.splits)
qed

end
