(* ===== verification/Evidence_Store.thy ===== *)
theory Evidence_Store
  imports Capture_Prepare "HOL-Library.Product_Lexorder"
begin

text \<open>
  The in-memory evidence store of \<open>verdict/storage/memory.py\<close>: traces, and the normalised
  agent evidence (source sessions, runs, turns, events) that captures are merged into, with
  the manual spans and the judgments that a trace owns.

  Captures are stored by \<open>append_agent_capture\<close> and \<open>replace_agent_capture\<close>, which call
  \<open>_store_agent_capture\<close> without a local source revision; the branches of the local-history
  adapter, which need one, are not taken.  A method of the source that raises leaves the
  store as it was, since every check precedes the first write: \<open>Inl\<close> carries no store.
\<close>

section \<open>The store\<close>

record judgment_record =
  j_judgment_id :: string
  j_trace_id :: string
  j_evaluated_trace_fingerprint :: "string option"

record span_record =
  sp_span_id :: string
  sp_name :: string
  sp_trace_id :: "string option"
  sp_parent_name :: "string option"
  sp_started_at :: int
  sp_ended_at :: "int option"
  sp_duration_ms :: "rat option"
  sp_attributes :: "(string, jval) dict"
  sp_error :: "string option"
  sp_tenant_id :: "string option"

type_synonym run_key = "string \<times> string"
type_synonym item_key = "string \<times> string \<times> string"

record evidence_store =
  st_traces :: "(string, trace) dict"
  st_sources :: "(run_key, source_session) dict"
  st_runs :: "(run_key, agent_run) dict"
  st_turns :: "(item_key, agent_turn) dict"
  st_events :: "(item_key, agent_event) dict"
  st_judgments :: "(string, judgment_record) dict"
  st_spans :: "(string, span_record) dict"

definition empty_store :: evidence_store where
  "empty_store = \<lparr>st_traces = [], st_sources = [], st_runs = [], st_turns = [],
     st_events = [], st_judgments = [], st_spans = []\<rparr>"

section \<open>Traces\<close>

definition local_tenant :: string where
  "local_tenant = ''__verdict_local__''"

text \<open>\<open>x or "__verdict_local__"\<close>.\<close>

definition tenant_or_local :: "string option \<Rightarrow> string" where
  "tenant_or_local t = (case t of None \<Rightarrow> local_tenant | Some s \<Rightarrow> or_else s local_tenant)"

definition trace_tenant_matches :: "string option \<Rightarrow> string \<Rightarrow> bool" where
  "trace_tenant_matches stored requested \<longleftrightarrow>
     stored = Some requested \<or> (requested = local_tenant \<and> stored = None)"

text \<open>The fields a second write of a trace takes from the recorded one.\<close>

definition keep_request_facts :: "trace \<Rightarrow> trace \<Rightarrow> trace" where
  "keep_request_facts existing t = t\<lparr>
     tr_started_at := tr_started_at existing,
     tr_provider := tr_provider existing,
     tr_operation := tr_operation existing,
     tr_request_model := tr_request_model existing,
     tr_temperature := tr_temperature existing,
     tr_max_tokens := tr_max_tokens existing,
     tr_raw_messages := tr_raw_messages existing,
     tr_tenant_id := tr_tenant_id existing,
     tr_session_id := tr_session_id existing,
     tr_user_id_hash := tr_user_id_hash existing,
     tr_tags := tr_tags existing,
     tr_analysis_started_at_us := tr_analysis_started_at_us existing,
     tr_analysis_started_at_state := tr_analysis_started_at_state existing,
     tr_analysis_raw_messages_utf8_bytes := tr_analysis_raw_messages_utf8_bytes existing,
     tr_analysis_raw_messages_state := tr_analysis_raw_messages_state existing,
     tr_cluster_id := (case tr_cluster_id t of None \<Rightarrow> tr_cluster_id existing | c \<Rightarrow> c),
     tr_parent_span_id :=
       (case tr_parent_span_id t of None \<Rightarrow> tr_parent_span_id existing | p \<Rightarrow> p)\<rparr>"

definition insert_trace :: "redactor \<Rightarrow> trace \<Rightarrow> evidence_store \<Rightarrow> evidence_store result" where
  "insert_trace rd source_trace st =
     (let t = populate_trace_analysis_fields (sanitize_trace rd source_trace) in
      case dget (st_traces st) (tr_trace_id t) of
        None \<Rightarrow> Inr (st\<lparr>st_traces := dset (tr_trace_id t) t (st_traces st)\<rparr>)
      | Some existing \<Rightarrow>
          if tenant_or_local (tr_tenant_id existing) \<noteq> tenant_or_local (tr_tenant_id t)
          then Inl (ValueError ''trace identity belongs to another tenant'')
          else Inr (st\<lparr>st_traces :=
                 dset (tr_trace_id t) (keep_request_facts existing t) (st_traces st)\<rparr>))"

definition get_trace :: "evidence_store \<Rightarrow> string \<Rightarrow> trace option" where
  "get_trace st trace_id = dget (st_traces st) trace_id"

definition trace_exists :: "evidence_store \<Rightarrow> string \<Rightarrow> bool" where
  "trace_exists st trace_id \<longleftrightarrow> trace_id \<in> set (dkeys (st_traces st))"

definition trace_owner :: "evidence_store \<Rightarrow> string \<Rightarrow> string option" where
  "trace_owner st trace_id =
     (case dget (st_traces st) trace_id of None \<Rightarrow> None
      | Some t \<Rightarrow> Some (tenant_or_local (tr_tenant_id t)))"

text \<open>
  \<open>out.sort(key=..., reverse=True)\<close> keeps equal keys in their order, as \<open>sort_key\<close> on the
  negated key does.
\<close>

definition list_traces ::
  "evidence_store \<Rightarrow> string option \<Rightarrow> string option \<Rightarrow> nat \<Rightarrow> trace list" where
  "list_traces st tenant_id cluster_id limit =
     take limit (sort_key (\<lambda>t. - tr_started_at t)
       (filter (\<lambda>t.
            (case tenant_id of None \<Rightarrow> True | Some r \<Rightarrow> trace_tenant_matches (tr_tenant_id t) r) \<and>
            (case cluster_id of None \<Rightarrow> True | Some c \<Rightarrow> tr_cluster_id t = Some c))
          (map snd (st_traces st))))"

text \<open>\<open>sanitize_judgment\<close> rewrites its text only, no field modelled here.\<close>

definition insert_judgment :: "judgment_record \<Rightarrow> evidence_store \<Rightarrow> evidence_store" where
  "insert_judgment j st = st\<lparr>st_judgments := dset (j_judgment_id j) j (st_judgments st)\<rparr>"

definition sanitize_span :: "redactor \<Rightarrow> span_record \<Rightarrow> span_record" where
  "sanitize_span rd s = s\<lparr>
     sp_name := rd_text rd (sp_name s),
     sp_parent_name := map_option (rd_text rd) (sp_parent_name s),
     sp_error := map_option (rd_text rd) (sp_error s),
     sp_attributes := (case rd_value rd (JDict (sp_attributes s)) of
        JDict kvs \<Rightarrow> kvs
      | v \<Rightarrow> [(''verdict.redaction_status'', JStr (tag_text v))])\<rparr>"

definition insert_span :: "redactor \<Rightarrow> span_record \<Rightarrow> evidence_store \<Rightarrow> evidence_store result" where
  "insert_span rd source_span st =
     (let s = sanitize_span rd source_span in
      case dget (st_spans st) (sp_span_id s) of
        Some current \<Rightarrow>
          if tenant_or_local (sp_tenant_id current) \<noteq> tenant_or_local (sp_tenant_id s)
          then Inl (ValueError ''span identity belongs to another tenant'')
          else Inr (st\<lparr>st_spans := dset (sp_span_id s) s (st_spans st)\<rparr>)
      | None \<Rightarrow> Inr (st\<lparr>st_spans := dset (sp_span_id s) s (st_spans st)\<rparr>))"

section \<open>Deleting a trace\<close>

definition retained_parent_span_ids :: "(string, trace) dict \<Rightarrow> string list" where
  "retained_parent_span_ids traces = List.map_filter (\<lambda>(k, t). tr_parent_span_id t) traces"

definition unlink_trace :: "string \<Rightarrow> agent_event \<Rightarrow> agent_event" where
  "unlink_trace trace_id e =
     (if e_trace_id e = Some trace_id then e\<lparr>e_trace_id := None\<rparr> else e)"

definition delete_trace :: "string \<Rightarrow> evidence_store \<Rightarrow> evidence_store" where
  "delete_trace trace_id st =
     (let traces = dpop trace_id (st_traces st);
          retained = retained_parent_span_ids traces
      in st\<lparr>
        st_traces := traces,
        st_events := map (map_prod id (unlink_trace trace_id)) (st_events st),
        st_judgments := filter (\<lambda>(k, j). j_trace_id j \<noteq> trace_id) (st_judgments st),
        st_spans := filter (\<lambda>(k, s). sp_trace_id s \<noteq> Some trace_id \<or> k \<in> set retained)
          (map (\<lambda>(k, s). (k, if sp_trace_id s = Some trace_id \<and> k \<in> set retained
                              then s\<lparr>sp_trace_id := None\<rparr> else s)) (st_spans st))\<rparr>)"

section \<open>Storing a capture\<close>

text \<open>\<open>next((id(v) for k, v in d.items() if p(k, v)), default)\<close>.\<close>

definition owner_in :: "('k \<Rightarrow> 'v \<Rightarrow> bool) \<Rightarrow> ('v \<Rightarrow> string) \<Rightarrow> string \<Rightarrow> ('k, 'v) dict \<Rightarrow> string" where
  "owner_in p ident own d = next_or (\<lambda>(k, v). p k v) (\<lambda>(k, v). ident v) own d"

definition check_locator :: "evidence_store \<Rightarrow> string \<Rightarrow> source_session \<Rightarrow> py_error + unit" where
  "check_locator st tenant source =
     require (owner_in (\<lambda>(scope, _) v. scope = tenant \<and> s_source_kind v = s_source_kind source \<and>
                  s_source_locator_hash v = s_source_locator_hash source)
                s_source_session_id (s_source_session_id source) (st_sources st)
              = s_source_session_id source)
       (ValueError ''import source identity facts cannot be replaced'')"

definition check_turn_sequence ::
  "evidence_store \<Rightarrow> string \<Rightarrow> string \<Rightarrow> agent_turn \<Rightarrow> py_error + unit" where
  "check_turn_sequence st tenant run_id t =
     require (owner_in (\<lambda>(scope, owner, _) v. scope = tenant \<and> owner = run_id \<and>
                  t_sequence v = t_sequence t)
                t_turn_id (t_turn_id t) (st_turns st)
              = t_turn_id t)
       (ValueError ''turn sequence cannot be reassigned'')"

definition check_event_identity ::
  "evidence_store \<Rightarrow> string \<Rightarrow> string \<Rightarrow> agent_event \<Rightarrow> py_error + unit" where
  "check_event_identity st tenant run_id e =
     checks
      [require (owner_in (\<lambda>(scope, owner, _) v. scope = tenant \<and> owner = run_id \<and>
                   e_turn_id v = e_turn_id e \<and> e_sequence v = e_sequence e)
                 e_event_id (e_event_id e) (st_events st)
               = e_event_id e)
         (ValueError ''event sequence cannot be reassigned''),
       require (e_trace_id e \<noteq> None \<longrightarrow>
           owner_in (\<lambda>(scope, owner, _) v. scope = tenant \<and> e_trace_id v = e_trace_id e)
             e_event_id (e_event_id e) (st_events st)
           = e_event_id e)
         (ValueError ''Trace is already linked to another AgentEvent''),
       require (e_producer_id e \<noteq> [] \<and> e_producer_sequence e \<noteq> None \<longrightarrow>
           owner_in (\<lambda>(scope, owner, _) v. scope = tenant \<and> owner = run_id \<and>
               e_producer_id v = e_producer_id e \<and>
               e_producer_sequence v = e_producer_sequence e)
             e_event_id (e_event_id e) (st_events st)
           = e_event_id e)
         (ValueError ''producer sequence cannot be reassigned'')]"

text \<open>The tenant of each linked trace that is prepared or stored (\<open>trace_tenants\<close>).\<close>

definition linked_tenant :: "trace list \<Rightarrow> evidence_store \<Rightarrow> string \<Rightarrow> string option option" where
  "linked_tenant prepared st trace_id =
     (case List.find (\<lambda>t. tr_trace_id t = trace_id) prepared of
        Some t \<Rightarrow> Some (tr_tenant_id t)
      | None \<Rightarrow> map_option tr_tenant_id (dget (st_traces st) trace_id))"

definition merge_stored_turn ::
  "evidence_store \<Rightarrow> string \<Rightarrow> string \<Rightarrow> agent_turn \<Rightarrow> agent_turn result" where
  "merge_stored_turn st tenant run_id t =
     merge_agent_turn default_options (dget (st_turns st) (tenant, run_id, t_turn_id t)) t"

definition merge_stored_event ::
  "evidence_store \<Rightarrow> string \<Rightarrow> string \<Rightarrow> agent_event \<Rightarrow> agent_event result" where
  "merge_stored_event st tenant run_id e =
     merge_agent_event (dget (st_events st) (tenant, run_id, e_event_id e)) e"

definition merge_stored_trace :: "evidence_store \<Rightarrow> trace \<Rightarrow> trace result" where
  "merge_stored_trace st t =
     merge_capture_trace default_options (dget (st_traces st) (tr_trace_id t)) t"

text \<open>What the capture becomes once merged with the recorded evidence.\<close>

record merged_capture =
  mc_traces :: "trace list"
  mc_source :: source_session
  mc_run :: agent_run
  mc_turns :: "agent_turn list"
  mc_events :: "agent_event list"

definition merge_capture ::
  "evidence_store \<Rightarrow> agent_capture \<Rightarrow> trace list \<Rightarrow> merged_capture result" where
  "merge_capture st c traces =
     (let tenant = r_tenant_id (c_run c) in
     bindr (traverse (merge_stored_trace st) traces) (\<lambda>prepared.
     bindr (merge_source_session
       (dget (st_sources st) (tenant, s_source_session_id (c_session c))) (c_session c)) (\<lambda>source.
     bindr (merge_agent_run (dget (st_runs st) (tenant, r_run_id (c_run c))) (c_run c)) (\<lambda>run.
     bindr (traverse (merge_stored_turn st tenant (r_run_id run)) (c_turns c)) (\<lambda>turns.
     bindr (traverse (merge_stored_event st tenant (r_run_id run)) (c_events c)) (\<lambda>events.
     Inr \<lparr>mc_traces = prepared, mc_source = source, mc_run = run, mc_turns = turns,
          mc_events = events\<rparr>))))))"

definition check_merged ::
  "evidence_store \<Rightarrow> string \<Rightarrow> string list \<Rightarrow> merged_capture \<Rightarrow> py_error + unit" where
  "check_merged st tenant linked_ids m =
     (let run_id = r_run_id (mc_run m) in
     checks
      ([check_locator st tenant (mc_source m)]
       @ map (check_turn_sequence st tenant run_id) (mc_turns m)
       @ map (check_event_identity st tenant run_id) (mc_events m)
       @ [require_same_tenant_linked_traces tenant linked_ids
            (linked_tenant (mc_traces m) st)]))"

definition write_merged ::
  "string \<Rightarrow> string \<Rightarrow> merged_capture \<Rightarrow> evidence_store \<Rightarrow> evidence_store" where
  "write_merged tenant source_id m st =
     (let run_id = r_run_id (mc_run m) in
      st\<lparr>st_traces := dset_all tr_trace_id id (mc_traces m) (st_traces st),
         st_sources := dset (tenant, source_id) (mc_source m) (st_sources st),
         st_runs := dset (tenant, run_id) (mc_run m) (st_runs st),
         st_turns := dset_all (\<lambda>t. (tenant, run_id, t_turn_id t)) id (mc_turns m) (st_turns st),
         st_events := dset_all (\<lambda>e. (tenant, run_id, e_event_id e)) id (mc_events m) (st_events st)\<rparr>)"

definition store_agent_capture ::
  "agent_capture \<Rightarrow> trace list \<Rightarrow> string list \<Rightarrow> evidence_store \<Rightarrow> evidence_store result" where
  "store_agent_capture c traces linked_ids st =
     (let tenant = r_tenant_id (c_run c) in
     bindr (merge_capture st c traces) (\<lambda>m.
     bindr (check_merged st tenant linked_ids m) (\<lambda>_.
     Inr (write_merged tenant (s_source_session_id (c_session c)) m st))))"

definition append_agent_capture ::
  "redactor \<Rightarrow> agent_capture \<Rightarrow> trace list \<Rightarrow> evidence_store \<Rightarrow> evidence_store result" where
  "append_agent_capture rd batch traces st =
     bindr (prepare_agent_capture rd agent_capture_batch_checks batch traces)
       (\<lambda>(c, prepared, linked_ids). store_agent_capture c prepared linked_ids st)"

definition replace_agent_capture ::
  "redactor \<Rightarrow> agent_capture \<Rightarrow> trace list \<Rightarrow> evidence_store \<Rightarrow> evidence_store result" where
  "replace_agent_capture rd bundle traces st =
     bindr (prepare_agent_capture rd agent_run_bundle_checks bundle traces)
       (\<lambda>(c, prepared, linked_ids). store_agent_capture c prepared linked_ids st)"

section \<open>Reading a bundle\<close>

text \<open>Python compares text tuples in code point order, which is the byte order of UTF-8.\<close>

definition run_turns :: "evidence_store \<Rightarrow> string \<Rightarrow> string \<Rightarrow> agent_turn list" where
  "run_turns st tenant run_id =
     sort_key (\<lambda>t. (t_sequence t, t_turn_id t))
       (map snd (filter (\<lambda>((scope, owner, _), _). scope = tenant \<and> owner = run_id) (st_turns st)))"

definition run_events ::
  "evidence_store \<Rightarrow> string \<Rightarrow> string \<Rightarrow> string list \<Rightarrow> agent_event list" where
  "run_events st tenant run_id turn_ids =
     sort_key (\<lambda>e. (e_turn_id e, e_sequence e, e_event_id e))
       (map snd (filter (\<lambda>((scope, owner, _), e). scope = tenant \<and> owner = run_id \<and>
            e_turn_id e \<in> set turn_ids) (st_events st)))"

definition agent_bundle :: "evidence_store \<Rightarrow> string \<Rightarrow> string \<Rightarrow> agent_capture option result" where
  "agent_bundle st tenant run_id =
     (case dget (st_runs st) (tenant, run_id) of
        None \<Rightarrow> Inr None
      | Some run \<Rightarrow>
          (case dget (st_sources st) (tenant, r_source_session_id run) of
             None \<Rightarrow> Inl (KeyError ''source_session_id'')
           | Some source \<Rightarrow>
               (let turns = run_turns st tenant run_id;
                    events = run_events st tenant run_id (map t_turn_id turns)
                in bindr (post_init agent_run_bundle_checks
                     \<lparr>c_session = source, c_run = run, c_turns = turns, c_events = events\<rparr>)
                   (\<lambda>b. Inr (Some b)))))"

definition validate_bundle_id :: "string \<Rightarrow> string \<Rightarrow> py_error + unit" where
  "validate_bundle_id name v =
     require (\<not> (v = [] \<or> CHR 0x00 \<in> set v \<or> 256 < length v))
       (ValueError (name @ '' must be bounded text''))"

definition get_agent_run_bundle ::
  "evidence_store \<Rightarrow> string \<Rightarrow> string \<Rightarrow> agent_capture option result" where
  "get_agent_run_bundle st tenant run_id =
     bindr (checks [validate_bundle_id ''tenant_id'' tenant, validate_bundle_id ''run_id'' run_id])
       (\<lambda>_. agent_bundle st tenant run_id)"

end
