(* ===== verification/Merge_Laws.thy ===== *)
theory Merge_Laws
  imports Evidence_Merge
begin

text \<open>
  What the merge rules promise.  Every field rule is monotone in an information order: the
  merged value contains what was recorded and what came in.  The interface \<open>evidence_merge\<close>
  states the contract of a merge once (an upper bound of both sides that absorbs what it
  already contains) and derives what a store needs: nothing recorded is lost over any sequence
  of revisions, and delivering old revisions again changes nothing.
\<close>

named_theorems le_intro \<open>the information order of the fields\<close>
named_theorems absorb \<open>a merged field absorbs what it contains\<close>

section \<open>The information order of a field\<close>

definition status_le :: "execution_status \<Rightarrow> execution_status \<Rightarrow> bool" where
  "status_le a b \<longleftrightarrow> a = UNKNOWN \<or> a = b"

definition opt_le :: "'a option \<Rightarrow> 'a option \<Rightarrow> bool" where
  "opt_le a b \<longleftrightarrow> a = None \<or> a = b"

definition text_le :: "string \<Rightarrow> string \<Rightarrow> bool" where
  "text_le a b \<longleftrightarrow> a = [] \<or> a = b"

definition count_le :: "int option \<Rightarrow> int option \<Rightarrow> bool" where
  "count_le a b \<longleftrightarrow> (case a of None \<Rightarrow> True | Some x \<Rightarrow> (case b of None \<Rightarrow> False | Some y \<Rightarrow> x \<le> y))"

definition prefix_le :: "string option \<Rightarrow> string option \<Rightarrow> bool" where
  "prefix_le a b \<longleftrightarrow> (case a of None \<Rightarrow> True | Some x \<Rightarrow> (case b of None \<Rightarrow> False | Some y \<Rightarrow> prefix x y))"

definition state_le :: "evidence_state \<Rightarrow> evidence_state \<Rightarrow> bool" where
  "state_le a b \<longleftrightarrow> a = NOT_CAPTURED \<or> a = b \<or> b = PRESENT"

text \<open>An end time counts once the status is terminal, and while both sides are still open.\<close>

definition end_le ::
  "execution_status \<Rightarrow> int option \<Rightarrow> execution_status \<Rightarrow> int option \<Rightarrow> bool" where
  "end_le sa a sb b \<longleftrightarrow> (sa \<noteq> UNKNOWN \<or> sb = UNKNOWN \<longrightarrow> count_le a b)"

lemmas field_le_defs =
  status_le_def opt_le_def text_le_def count_le_def prefix_le_def state_le_def end_le_def

lemma field_le_refl [simp]:
  "status_le s s" "opt_le a a" "text_le t t" "count_le n n" "prefix_le p p" "state_le e e"
  "end_le s n s n"
  by (auto simp: field_le_defs split: option.splits)

lemma status_le_trans: "status_le a b \<Longrightarrow> status_le b c \<Longrightarrow> status_le a c"
  by (auto simp: field_le_defs)

lemma opt_le_trans: "opt_le a b \<Longrightarrow> opt_le b c \<Longrightarrow> opt_le a c"
  by (auto simp: field_le_defs)

lemma text_le_trans: "text_le a b \<Longrightarrow> text_le b c \<Longrightarrow> text_le a c"
  by (auto simp: field_le_defs)

lemma count_le_trans: "count_le a b \<Longrightarrow> count_le b c \<Longrightarrow> count_le a c"
  by (auto simp: field_le_defs split: option.splits)

lemma prefix_le_trans: "prefix_le a b \<Longrightarrow> prefix_le b c \<Longrightarrow> prefix_le a c"
  by (auto simp: field_le_defs split: option.splits intro: prefix_order.trans)

lemma prefix_le_antisym: "prefix_le a b \<Longrightarrow> prefix_le b a \<Longrightarrow> a = b"
  by (auto simp: field_le_defs split: option.splits intro: prefix_order.antisym)

lemma state_le_trans: "state_le a b \<Longrightarrow> state_le b c \<Longrightarrow> state_le a c"
  by (auto simp: field_le_defs)

lemma end_le_trans:
  "status_le sa sb \<Longrightarrow> status_le sb sc \<Longrightarrow> end_le sa a sb b \<Longrightarrow> end_le sb b sc c \<Longrightarrow> end_le sa a sc c"
  by (auto simp: end_le_def status_le_def intro: count_le_trans)

lemmas field_le_trans =
  status_le_trans opt_le_trans text_le_trans count_le_trans prefix_le_trans state_le_trans

section \<open>Every field rule is an upper bound\<close>

lemma advance_status_le [le_intro]:
  "advance_status c i s = Inr m \<Longrightarrow> status_le c m"
  "advance_status c i s = Inr m \<Longrightarrow> status_le i m"
  by (auto simp: advance_status_def status_le_def split: if_splits)

lemma fill_optional_le [le_intro]:
  "fill_optional c i s = Inr m \<Longrightarrow> opt_le c m"
  "fill_optional c i s = Inr m \<Longrightarrow> opt_le i m"
  by (auto simp: fill_optional_def opt_le_def split: if_splits)

lemma fill_text_le [le_intro]:
  "fill_text c i s = Inr m \<Longrightarrow> text_le c m"
  "fill_text c i s = Inr m \<Longrightarrow> text_le i m"
  by (auto simp: fill_text_def text_le_def split: if_splits)

lemma advance_count_le [le_intro]:
  "advance_count c i s = Inr m \<Longrightarrow> count_le c m"
  "advance_count c i s = Inr m \<Longrightarrow> count_le i m"
  by (auto simp: advance_count_def count_le_def split: option.splits if_splits)

lemma extend_text_le [le_intro]:
  "extend_text c i s None = Inr m \<Longrightarrow> prefix_le c m"
  "extend_text c i s None = Inr m \<Longrightarrow> prefix_le i m"
  by (auto simp: extend_text_def prefix_le_def split: option.splits if_splits)

lemma advance_evidence_state_le [le_intro]:
  "advance_evidence_state c i h = Inr m \<Longrightarrow> state_le c m"
  "advance_evidence_state c i h = Inr m \<Longrightarrow> state_le i m"
  by (auto simp: advance_evidence_state_def state_le_def split: if_splits)

lemma advance_end_le [le_intro]:
  "advance_status cs is s = Inr ms \<Longrightarrow> advance_end cs c is i s' = Inr m \<Longrightarrow> end_le cs c ms m"
  "advance_status cs is s = Inr ms \<Longrightarrow> advance_end cs c is i s' = Inr m \<Longrightarrow> end_le is i ms m"
  by (auto simp: advance_status_def advance_end_def fill_optional_def end_le_def count_le_def
    split: option.splits if_splits)

lemma later_le [le_intro]: "count_le a (later a b)" "count_le b (later a b)"
  by (auto simp: later_def count_le_def split: option.splits)

section \<open>Every field rule absorbs what it contains\<close>

lemma advance_status_absorb [absorb]: "status_le i m \<Longrightarrow> advance_status m i s = Inr m"
  by (auto simp: advance_status_def status_le_def)

lemma fill_optional_absorb [absorb]: "opt_le i m \<Longrightarrow> fill_optional m i s = Inr m"
  by (auto simp: fill_optional_def opt_le_def)

lemma fill_text_absorb [absorb]: "text_le i m \<Longrightarrow> fill_text m i s = Inr m"
  by (auto simp: fill_text_def text_le_def)

lemma advance_count_absorb [absorb]: "advance_count m None s = Inr m"
  by (auto simp: advance_count_def split: option.splits)

lemma extend_text_absorb [absorb]: "prefix_le i m \<Longrightarrow> extend_text m i s l = Inr m"
  by (auto simp: extend_text_def prefix_le_def split: option.splits)

lemma later_absorb [absorb]: "count_le i m \<Longrightarrow> later m i = m"
  by (auto simp: later_def count_le_def split: option.splits)

definition end_fits :: "execution_status \<Rightarrow> int option \<Rightarrow> bool" where
  "end_fits s e \<longleftrightarrow> (s = UNKNOWN \<longrightarrow> e = None)"

lemma advance_end_absorb [absorb]:
  "status_le is ms \<Longrightarrow> end_le is i ms m \<Longrightarrow> end_fits is i \<Longrightarrow> advance_end ms m is i s = Inr m"
  by (auto simp: advance_end_def fill_optional_def status_le_def end_le_def count_le_def
    end_fits_def split: option.splits)

lemma advance_evidence_state_absorb [absorb]:
  "state_le i m \<Longrightarrow> (h \<longleftrightarrow> m = PRESENT) \<Longrightarrow> advance_evidence_state m i h = Inr m"
  by (auto simp: advance_evidence_state_def state_le_def)

section \<open>Repeating the last revision\<close>

text \<open>
  A rule applied to its own result and the same incoming value gives the result again.  This
  needs none of the conditions of absorption: it covers counts and legacy previews too.
\<close>

lemma advance_status_replay: "advance_status c i s = Inr m \<Longrightarrow> advance_status m i s = Inr m"
  by (auto simp: advance_status_def split: if_splits)

lemma fill_optional_replay: "fill_optional c i s = Inr m \<Longrightarrow> fill_optional m i s = Inr m"
  by (auto simp: fill_optional_def split: if_splits)

lemma fill_text_replay: "fill_text c i s = Inr m \<Longrightarrow> fill_text m i s = Inr m"
  by (auto simp: fill_text_def split: if_splits)

lemma advance_count_replay: "advance_count c i s = Inr m \<Longrightarrow> advance_count m i s = Inr m"
  by (auto simp: advance_count_def split: option.splits if_splits)

lemma extend_text_replay: "extend_text c i s l = Inr m \<Longrightarrow> extend_text m i s l = Inr m"
  by (auto simp: extend_text_def split: option.splits if_splits)

lemma extend_messages_replay: "extend_messages c i = Inr m \<Longrightarrow> extend_messages m i = Inr m"
  by (auto simp: extend_messages_def split: option.splits if_splits)

lemma advance_evidence_state_replay:
  "advance_evidence_state c i h = Inr m \<Longrightarrow> advance_evidence_state m i h = Inr m"
  by (auto simp: advance_evidence_state_def split: if_splits)

lemma advance_end_replay:
  "advance_status cs is s = Inr ms \<Longrightarrow> advance_end cs c is i s' = Inr m \<Longrightarrow>
   advance_end ms m is i s' = Inr m"
  by (auto simp: advance_status_def advance_end_def fill_optional_def
    split: option.splits if_splits)

lemma later_replay: "later (later c i) i = later c i"
  by (auto simp: later_def split: option.splits)

lemma merge_truncated_replay:
  "merge_truncated m m (merge_truncated m c ct i it) i it = merge_truncated m c ct i it"
  by (auto simp: merge_truncated_def)

lemmas field_replay =
  advance_status_replay fill_optional_replay fill_text_replay advance_count_replay
  extend_text_replay extend_messages_replay advance_evidence_state_replay advance_end_replay

lemma field_self:
  "advance_status s s l = Inr s" "fill_optional a a l = Inr a" "fill_text t t l = Inr t"
  "advance_count n n l = Inr n" "extend_text p p l q = Inr p"
  "advance_end s e s e l = Inr e" "later e e = e"
  by (auto simp: advance_status_def fill_optional_def fill_text_def advance_count_def
    extend_text_def advance_end_def later_def split: option.splits)

section \<open>The contract of a merge\<close>

text \<open>Merging a sequence of revisions into what is recorded, stopping at the first conflict.\<close>

definition merge_revisions ::
  "('a option \<Rightarrow> 'a \<Rightarrow> 'a result) \<Rightarrow> 'a list \<Rightarrow> 'a option \<Rightarrow> 'a option result" where
  "merge_revisions merge xs current =
     foldr_res (\<lambda>x s. bindr (merge s x) (\<lambda>m. Inr (Some m))) xs current"

lemma merge_revisions_simps [simp]:
  "merge_revisions merge [] s = Inr s"
  "merge_revisions merge (x # xs) s = bindr (merge s x) (\<lambda>m. merge_revisions merge xs (Some m))"
  by (auto simp: merge_revisions_def bindr_def split: sum.splits)

locale evidence_merge =
  fixes merge :: "'a option \<Rightarrow> 'a \<Rightarrow> 'a result"
    and ident :: "'a \<Rightarrow> 'k"
    and le :: "'a \<Rightarrow> 'a \<Rightarrow> bool"
    and ok :: "'a \<Rightarrow> bool"
    and fits :: "'a \<Rightarrow> bool"
  assumes merge_new: "merge None x = Inr x"
    and merge_ident: "merge (Some c) x = Inr m \<Longrightarrow> ok c \<Longrightarrow> ident c = ident x \<and> ident m = ident x"
    and merge_ok: "merge (Some c) x = Inr m \<Longrightarrow> ok c \<Longrightarrow> ok x \<Longrightarrow> ok m"
    and merge_upper: "merge (Some c) x = Inr m \<Longrightarrow> ok c \<Longrightarrow> ok x \<Longrightarrow> le c m \<and> le x m"
    and merge_again: "merge (Some c) x = Inr m \<Longrightarrow> ok c \<Longrightarrow> ok x \<Longrightarrow> merge (Some m) x = Inr m"
    and merge_self: "ok x \<Longrightarrow> merge (Some x) x = Inr x"
    and merge_absorb:
      "ok m \<Longrightarrow> ok x \<Longrightarrow> fits x \<Longrightarrow> le x m \<Longrightarrow> ident x = ident m \<Longrightarrow> merge (Some m) x = Inr m"
    and le_refl: "le x x"
    and le_trans: "le x y \<Longrightarrow> le y z \<Longrightarrow> le x z"
begin

lemma merge_any_ok:
  "merge s x = Inr m \<Longrightarrow> (\<And>c. s = Some c \<Longrightarrow> ok c) \<Longrightarrow> ok x \<Longrightarrow> ok m"
  by (cases s) (auto simp: merge_new intro: merge_ok)

lemma merge_any_upper:
  "merge s x = Inr m \<Longrightarrow> (\<And>c. s = Some c \<Longrightarrow> ok c) \<Longrightarrow> ok x \<Longrightarrow>
   le x m \<and> ident x = ident m \<and> (\<forall>c. s = Some c \<longrightarrow> le c m \<and> ident c = ident m)"
  by (cases s) (auto simp: merge_new le_refl dest: merge_upper merge_ident)

lemma merge_any_again:
  "merge s x = Inr m \<Longrightarrow> (\<And>c. s = Some c \<Longrightarrow> ok c) \<Longrightarrow> ok x \<Longrightarrow> merge (Some m) x = Inr m"
  by (cases s) (auto simp: merge_new merge_self intro: merge_again)

lemma revisions_ok:
  "merge_revisions merge xs s = Inr (Some m) \<Longrightarrow> (\<And>c. s = Some c \<Longrightarrow> ok c) \<Longrightarrow> list_all ok xs \<Longrightarrow> ok m"
proof (induction xs arbitrary: s)
  case Nil
  then show ?case by simp
next
  case (Cons x xs)
  then obtain m1 where m1: "merge s x = Inr m1" "merge_revisions merge xs (Some m1) = Inr (Some m)"
    by (auto simp: res_simps)
  with Cons.prems have "ok m1" by (auto intro: merge_any_ok)
  with m1 Cons show ?case by auto
qed

lemma revisions_keep:
  "merge_revisions merge xs (Some c) = Inr (Some m) \<Longrightarrow> ok c \<Longrightarrow> list_all ok xs \<Longrightarrow>
   le c m \<and> ident c = ident m"
proof (induction xs arbitrary: c)
  case Nil
  then show ?case by (simp add: le_refl)
next
  case (Cons x xs)
  then obtain m1 where m1: "merge (Some c) x = Inr m1" "merge_revisions merge xs (Some m1) = Inr (Some m)"
    by (auto simp: res_simps)
  with Cons.prems have "ok m1" "le c m1" "ident c = ident m1"
    using merge_any_ok [OF m1(1)] merge_any_upper [OF m1(1)] by auto
  moreover have "le m1 m \<and> ident m1 = ident m"
    using Cons.IH [OF m1(2)] \<open>ok m1\<close> Cons.prems by simp
  ultimately show ?case by (auto intro: le_trans)
qed

text \<open>Nothing that came in is lost, whatever came after it.\<close>

lemma revisions_upper:
  "merge_revisions merge xs s = Inr (Some m) \<Longrightarrow> (\<And>c. s = Some c \<Longrightarrow> ok c) \<Longrightarrow> list_all ok xs \<Longrightarrow>
   x \<in> set xs \<Longrightarrow> le x m \<and> ident x = ident m"
proof (induction xs arbitrary: s)
  case Nil
  then show ?case by simp
next
  case (Cons y xs)
  then obtain m1 where m1: "merge s y = Inr m1" "merge_revisions merge xs (Some m1) = Inr (Some m)"
    by (auto simp: res_simps)
  with Cons.prems have ok1: "ok m1" by (auto intro: merge_any_ok)
  show ?case
  proof (cases "x = y")
    case True
    with m1 Cons.prems have "le x m1 \<and> ident x = ident m1"
      using merge_any_upper [OF m1(1)] by auto
    with revisions_keep [OF m1(2)] ok1 Cons.prems show ?thesis by (auto intro: le_trans)
  next
    case False
    with Cons.IH [OF m1(2)] ok1 Cons.prems show ?thesis by auto
  qed
qed

text \<open>Revisions already contained are absorbed, in any order and number.\<close>

lemma revisions_absorb:
  "ok m \<Longrightarrow> (\<And>x. x \<in> set ys \<Longrightarrow> ok x \<and> fits x \<and> le x m \<and> ident x = ident m) \<Longrightarrow>
   merge_revisions merge ys (Some m) = Inr (Some m)"
  by (induction ys) (simp_all add: merge_absorb)

lemma revisions_redeliver:
  assumes "merge_revisions merge xs s = Inr (Some m)" and "\<And>c. s = Some c \<Longrightarrow> ok c"
    and "list_all ok xs" and "list_all fits xs" and "set ys \<subseteq> set xs"
  shows "merge_revisions merge ys (Some m) = Inr (Some m)"
proof (rule revisions_absorb)
  show "ok m" using assms by (auto intro: revisions_ok)
next
  fix x assume "x \<in> set ys"
  with assms have "x \<in> set xs" by auto
  with assms revisions_upper [OF assms(1)] show "ok x \<and> fits x \<and> le x m \<and> ident x = ident m"
    by (auto simp: list_all_iff)
qed

end

section \<open>Sessions\<close>

definition session_ident :: "source_session \<Rightarrow> string \<times> string \<times> string \<times> string \<times> int" where
  "session_ident s = (s_source_session_id s, s_tenant_id s, s_source_kind s,
     s_source_locator_hash s, s_started_at s)"

definition session_le :: "source_session \<Rightarrow> source_session \<Rightarrow> bool" where
  "session_le a b \<longleftrightarrow> s_observed_at a \<le> s_observed_at b \<and> count_le (s_ended_at a) (s_ended_at b)"

lemma source_session_eta [simp]:
  "\<lparr>s_source_session_id = s_source_session_id m,
     s_tenant_id = s_tenant_id m,
     s_source_kind = s_source_kind m,
     s_source_locator_hash = s_source_locator_hash m,
     s_started_at = s_started_at m,
     s_observed_at = s_observed_at m,
     s_ended_at = s_ended_at m\<rparr> = (m :: source_session)"
  by (cases m) simp

interpretation session_merge: evidence_merge
  merge_source_session session_ident session_le "passes source_session_checks" "\<lambda>_. True"
proof (unfold_locales, goal_cases)
  case (4 c x m)
  then show ?case by (auto simp: merge_source_session_def session_le_def res_simps later_le
    split: if_splits)
next
  case (7 m x)
  then show ?case by (auto simp: merge_source_session_def session_le_def session_ident_def
    res_simps max_def absorb)
qed (auto simp: merge_source_session_def session_ident_def session_le_def res_simps max_def
    later_replay absorb intro: count_le_trans split: if_splits)

section \<open>Runs\<close>

definition run_ident :: "agent_run \<Rightarrow> string \<times> string \<times> string \<times> int" where
  "run_ident r = (r_run_id r, r_source_session_id r, r_tenant_id r, r_started_at r)"

definition run_le :: "agent_run \<Rightarrow> agent_run \<Rightarrow> bool" where
  "run_le a b \<longleftrightarrow>
     status_le (r_status a) (r_status b) \<and>
     end_le (r_status a) (r_ended_at a) (r_status b) (r_ended_at b) \<and>
     text_le (r_agent_name a) (r_agent_name b) \<and>
     text_le (r_agent_version a) (r_agent_version b) \<and>
     text_le (r_configuration_fingerprint a) (r_configuration_fingerprint b) \<and>
     opt_le (r_session_id a) (r_session_id b) \<and>
     opt_le (r_parent_run_id a) (r_parent_run_id b) \<and>
     text_le (r_service_name a) (r_service_name b) \<and>
     text_le (r_environment a) (r_environment b) \<and>
     text_le (r_instance_id a) (r_instance_id b)"

definition run_fits :: "agent_run \<Rightarrow> bool" where
  "run_fits r \<longleftrightarrow> end_fits (r_status r) (r_ended_at r)"

lemma agent_run_eta [simp]:
  "\<lparr>r_run_id = r_run_id m,
     r_source_session_id = r_source_session_id m,
     r_tenant_id = r_tenant_id m,
     r_started_at = r_started_at m,
     r_status = r_status m,
     r_ended_at = r_ended_at m,
     r_agent_name = r_agent_name m,
     r_agent_version = r_agent_version m,
     r_configuration_fingerprint = r_configuration_fingerprint m,
     r_session_id = r_session_id m,
     r_parent_run_id = r_parent_run_id m,
     r_service_name = r_service_name m,
     r_environment = r_environment m,
     r_instance_id = r_instance_id m\<rparr> = (m :: agent_run)"
  by (cases m) simp

lemma merge_agent_run_upper:
  "merge_agent_run (Some c) x = Inr m \<Longrightarrow> run_le c m \<and> run_le x m"
  by (auto simp: merge_agent_run_def run_le_def res_simps intro: le_intro split: if_splits)

lemma merge_agent_run_again:
  "merge_agent_run (Some c) x = Inr m \<Longrightarrow> merge_agent_run (Some m) x = Inr m"
  by (auto simp: merge_agent_run_def res_simps split: if_splits dest: field_replay
    advance_end_replay)

lemma merge_agent_run_absorb:
  "passes agent_run_checks m \<Longrightarrow> run_fits x \<Longrightarrow> run_le x m \<Longrightarrow> run_ident x = run_ident m \<Longrightarrow>
   merge_agent_run (Some m) x = Inr m"
  by (simp add: merge_agent_run_def run_fits_def run_le_def run_ident_def absorb post_init_eq_Inr)

lemma run_le_refl: "run_le r r"
  by (simp add: run_le_def)

lemma run_le_trans: "run_le a b \<Longrightarrow> run_le b c \<Longrightarrow> run_le a c"
  unfolding run_le_def by (blast intro: field_le_trans end_le_trans)

lemma merge_agent_run_self: "passes agent_run_checks x \<Longrightarrow> merge_agent_run (Some x) x = Inr x"
  by (simp add: merge_agent_run_def field_self post_init_eq_Inr)

lemma merge_agent_run_ident:
  "merge_agent_run (Some c) x = Inr m \<Longrightarrow>
   run_ident c = run_ident x \<and> run_ident m = run_ident x \<and> passes agent_run_checks m"
  by (auto simp: merge_agent_run_def run_ident_def res_simps split: if_splits)

interpretation run_merge: evidence_merge
  merge_agent_run run_ident run_le "passes agent_run_checks" run_fits
  by unfold_locales
    (simp add: merge_agent_run_def, blast dest: merge_agent_run_ident,
     blast dest: merge_agent_run_ident, blast dest: merge_agent_run_upper,
     erule merge_agent_run_again, erule merge_agent_run_self,
     rule merge_agent_run_absorb, assumption+, rule run_le_refl, erule (1) run_le_trans)

text \<open>
  When two revisions of a run can be merged: the fields must not contradict each other.  The
  constructor of the merged run never fails.
\<close>

definition end_compatible ::
  "execution_status \<Rightarrow> int option \<Rightarrow> execution_status \<Rightarrow> int option \<Rightarrow> bool" where
  "end_compatible cs c is i \<longleftrightarrow>
     (cs = UNKNOWN \<or> c = None \<or> i = None \<or> i = c \<or> (cs = is \<and> the i < the c))"

definition status_compatible :: "execution_status \<Rightarrow> execution_status \<Rightarrow> bool" where
  "status_compatible c i \<longleftrightarrow> c = UNKNOWN \<or> i = UNKNOWN \<or> c = i"

definition text_compatible :: "string \<Rightarrow> string \<Rightarrow> bool" where
  "text_compatible c i \<longleftrightarrow> c = [] \<or> i = [] \<or> c = i"

definition opt_compatible :: "'a option \<Rightarrow> 'a option \<Rightarrow> bool" where
  "opt_compatible c i \<longleftrightarrow> c = None \<or> i = None \<or> c = i"

definition run_compatible :: "agent_run \<Rightarrow> agent_run \<Rightarrow> bool" where
  "run_compatible c x \<longleftrightarrow>
     run_ident c = run_ident x \<and>
     status_compatible (r_status c) (r_status x) \<and>
     end_compatible (r_status c) (r_ended_at c) (r_status x) (r_ended_at x) \<and>
     text_compatible (r_agent_name c) (r_agent_name x) \<and>
     text_compatible (r_agent_version c) (r_agent_version x) \<and>
     text_compatible (r_configuration_fingerprint c) (r_configuration_fingerprint x) \<and>
     opt_compatible (r_session_id c) (r_session_id x) \<and>
     opt_compatible (r_parent_run_id c) (r_parent_run_id x) \<and>
     text_compatible (r_service_name c) (r_service_name x) \<and>
     text_compatible (r_environment c) (r_environment x) \<and>
     text_compatible (r_instance_id c) (r_instance_id x)"

lemma advance_status_ok:
  "(\<exists>m. advance_status c i s = Inr m) \<longleftrightarrow> status_compatible c i"
  by (auto simp: advance_status_def status_compatible_def)

lemma fill_text_ok: "(\<exists>m. fill_text c i s = Inr m) \<longleftrightarrow> text_compatible c i"
  by (auto simp: fill_text_def text_compatible_def)

lemma fill_optional_ok: "(\<exists>m. fill_optional c i s = Inr m) \<longleftrightarrow> opt_compatible c i"
  by (auto simp: fill_optional_def opt_compatible_def)

lemma advance_end_ok: "(\<exists>m. advance_end cs c is i s = Inr m) \<longleftrightarrow> end_compatible cs c is i"
  by (auto simp: advance_end_def fill_optional_def end_compatible_def split: option.splits)

lemma fill_text_in: "fill_text c i s = Inr m \<Longrightarrow> m = c \<or> m = i"
  by (auto simp: fill_text_def split: if_splits)

lemma fill_optional_in: "fill_optional c i s = Inr m \<Longrightarrow> m = c \<or> m = i"
  by (auto simp: fill_optional_def split: if_splits)

lemma terminal_end_kept:
  "advance_status cs is s = Inr ms \<Longrightarrow> advance_end cs c is i s' = Inr m \<Longrightarrow>
   cs = UNKNOWN \<or> c \<noteq> None \<Longrightarrow> is = UNKNOWN \<or> i \<noteq> None \<Longrightarrow> ms = UNKNOWN \<or> m \<noteq> None"
  by (auto simp: advance_status_def advance_end_def fill_optional_def split: if_splits option.splits)

lemma merged_run_constructs:
  assumes "passes agent_run_checks c" and "passes agent_run_checks x"
    and "run_ident c = run_ident x"
    and "advance_status (r_status c) (r_status x) ''run'' = Inr st"
    and "advance_end (r_status c) (r_ended_at c) (r_status x) (r_ended_at x) ''run end'' = Inr en"
    and "an \<in> {r_agent_name c, r_agent_name x}" and "av \<in> {r_agent_version c, r_agent_version x}"
    and "cf \<in> {r_configuration_fingerprint c, r_configuration_fingerprint x}"
    and "si \<in> {r_session_id c, r_session_id x}" and "pa \<in> {r_parent_run_id c, r_parent_run_id x}"
    and "sn \<in> {r_service_name c, r_service_name x}" and "enr \<in> {r_environment c, r_environment x}"
    and "ii \<in> {r_instance_id c, r_instance_id x}"
  shows "passes agent_run_checks \<lparr>r_run_id = r_run_id c,
     r_source_session_id = r_source_session_id c, r_tenant_id = r_tenant_id c,
     r_started_at = r_started_at c, r_status = st, r_ended_at = en, r_agent_name = an,
     r_agent_version = av, r_configuration_fingerprint = cf, r_session_id = si,
     r_parent_run_id = pa, r_service_name = sn, r_environment = enr, r_instance_id = ii\<rparr>"
proof -
  have "st = UNKNOWN \<or> en \<noteq> None"
    using terminal_end_kept [OF assms(4,5)] assms(1,2)
    by (auto simp: passes_def agent_run_checks_def)
  with assms show ?thesis
    by (auto simp: passes_def agent_run_checks_def res_simps run_ident_def)
qed

lemma merge_agent_run_success:
  "merge_agent_run (Some c) x = Inr m \<Longrightarrow> run_compatible c x"
  unfolding run_compatible_def run_ident_def
  by (auto simp: merge_agent_run_def res_simps simp flip: advance_status_ok [where s = "''run''"]
      advance_end_ok [where s = "''run end''"] split: if_splits
      dest: fill_text_ok [THEN iffD1, OF exI] fill_optional_ok [THEN iffD1, OF exI])

lemma merge_agent_run_compatible:
  assumes c: "passes agent_run_checks c" and x: "passes agent_run_checks x"
    and k: "run_compatible c x"
  shows "\<exists>m. merge_agent_run (Some c) x = Inr m"
proof -
  obtain st en where st: "advance_status (r_status c) (r_status x) ''run'' = Inr st"
    and en: "advance_end (r_status c) (r_ended_at c) (r_status x) (r_ended_at x) ''run end'' = Inr en"
    using k advance_status_ok advance_end_ok unfolding run_compatible_def by metis
  obtain an av cf sn env ii where texts:
    "fill_text (r_agent_name c) (r_agent_name x) ''agent name'' = Inr an"
    "fill_text (r_agent_version c) (r_agent_version x) ''agent version'' = Inr av"
    "fill_text (r_configuration_fingerprint c) (r_configuration_fingerprint x)
       ''agent configuration'' = Inr cf"
    "fill_text (r_service_name c) (r_service_name x) ''service name'' = Inr sn"
    "fill_text (r_environment c) (r_environment x) ''environment'' = Inr env"
    "fill_text (r_instance_id c) (r_instance_id x) ''instance'' = Inr ii"
    using k fill_text_ok unfolding run_compatible_def by metis
  obtain si pa where opts:
    "fill_optional (r_session_id c) (r_session_id x) ''logical session'' = Inr si"
    "fill_optional (r_parent_run_id c) (r_parent_run_id x) ''parent run'' = Inr pa"
    using k fill_optional_ok unfolding run_compatible_def by metis
  have id: "run_ident c = run_ident x" using k by (simp add: run_compatible_def)
  note built = merged_run_constructs [OF c x id st en, of an av cf si pa sn env ii]
  have "an \<in> {r_agent_name c, r_agent_name x}" "av \<in> {r_agent_version c, r_agent_version x}"
    "cf \<in> {r_configuration_fingerprint c, r_configuration_fingerprint x}"
    "sn \<in> {r_service_name c, r_service_name x}" "env \<in> {r_environment c, r_environment x}"
    "ii \<in> {r_instance_id c, r_instance_id x}" "si \<in> {r_session_id c, r_session_id x}"
    "pa \<in> {r_parent_run_id c, r_parent_run_id x}"
    using texts opts by (auto dest: fill_text_in fill_optional_in)
  with built id st en texts opts show ?thesis
    by (simp add: merge_agent_run_def run_ident_def post_init_eq_Inr)
qed

end
