(* ===== verification/Turn_Event_Laws.thy ===== *)
theory Turn_Event_Laws
  imports Merge_Laws
begin

text \<open>
  The contract of the merge rules, discharged for turns and events: the information order of
  the record, that the merged record contains both sides, and that it absorbs what it contains.
\<close>

section \<open>Turns\<close>

lemma agent_turn_eta [simp]:
  "\<lparr>t_turn_id = t_turn_id m, t_run_id = t_run_id m, t_sequence = t_sequence m,
     t_started_at = t_started_at m, t_status = t_status m, t_ended_at = t_ended_at m,
     t_user_request_redacted = t_user_request_redacted m,
     t_final_response_redacted = t_final_response_redacted m,
     t_request_state = t_request_state m, t_response_state = t_response_state m,
     t_input_tokens = t_input_tokens m, t_cached_input_tokens = t_cached_input_tokens m,
     t_cache_write_input_tokens = t_cache_write_input_tokens m,
     t_output_tokens = t_output_tokens m,
     t_reasoning_output_tokens = t_reasoning_output_tokens m,
     t_total_tokens = t_total_tokens m, t_token_usage_basis = t_token_usage_basis m,
     t_request_truncated = t_request_truncated m,
     t_response_truncated = t_response_truncated m,
     t_progress_redacted = t_progress_redacted m\<rparr> = (m :: agent_turn)"
  by (cases m) simp

text \<open>A text and its truncation flag: the flag counts between equal texts.\<close>

definition trunc_le :: "string option \<Rightarrow> bool \<Rightarrow> string option \<Rightarrow> bool \<Rightarrow> bool" where
  "trunc_le a ta b tb \<longleftrightarrow> prefix_le a b \<and> (a = b \<and> ta \<longrightarrow> tb)"

lemma trunc_le_refl [simp]: "trunc_le a ta a ta"
  by (simp add: trunc_le_def)

lemma trunc_le_trans: "trunc_le a ta b tb \<Longrightarrow> trunc_le b tb c tc \<Longrightarrow> trunc_le a ta c tc"
  unfolding trunc_le_def by (metis prefix_le_antisym prefix_le_trans)

lemma extend_text_trunc_le [le_intro]:
  "extend_text c i s None = Inr m \<Longrightarrow> trunc_le c tc m (merge_truncated m c tc i ti)"
  "extend_text c i s None = Inr m \<Longrightarrow> trunc_le i ti m (merge_truncated m c tc i ti)"
  by (auto simp: trunc_le_def merge_truncated_def intro: le_intro)

lemma merge_truncated_absorb [absorb]:
  "trunc_le i ti m mt \<Longrightarrow> merge_truncated m m mt i ti = mt"
  by (auto simp: trunc_le_def merge_truncated_def)

definition turn_le :: "agent_turn \<Rightarrow> agent_turn \<Rightarrow> bool" where
  "turn_le a b \<longleftrightarrow>
     status_le (t_status a) (t_status b) \<and>
     end_le (t_status a) (t_ended_at a) (t_status b) (t_ended_at b) \<and>
     trunc_le (t_user_request_redacted a) (t_request_truncated a)
       (t_user_request_redacted b) (t_request_truncated b) \<and>
     trunc_le (t_final_response_redacted a) (t_response_truncated a)
       (t_final_response_redacted b) (t_response_truncated b) \<and>
     state_le (t_request_state a) (t_request_state b) \<and>
     state_le (t_response_state a) (t_response_state b) \<and>
     count_le (t_input_tokens a) (t_input_tokens b) \<and>
     count_le (t_cached_input_tokens a) (t_cached_input_tokens b) \<and>
     count_le (t_cache_write_input_tokens a) (t_cache_write_input_tokens b) \<and>
     count_le (t_output_tokens a) (t_output_tokens b) \<and>
     count_le (t_reasoning_output_tokens a) (t_reasoning_output_tokens b) \<and>
     count_le (t_total_tokens a) (t_total_tokens b) \<and>
     opt_le (t_token_usage_basis a) (t_token_usage_basis b) \<and>
     prefix_le (t_progress_redacted a) (t_progress_redacted b)"

text \<open>
  A revision is absorbed ta any later time when ti reports no usage: a count that has grown
  since is refused (\<open>_advance_count\<close> raises on a decrease).
\<close>

definition turn_fits :: "agent_turn \<Rightarrow> bool" where
  "turn_fits t \<longleftrightarrow> end_fits (t_status t) (t_ended_at t) \<and> \<not> has_usage t"

lemma turn_le_refl: "turn_le t t"
  by (simp add: turn_le_def)

lemma turn_le_trans: "turn_le a b \<Longrightarrow> turn_le b c \<Longrightarrow> turn_le a c"
  unfolding turn_le_def by (blast intro: field_le_trans end_le_trans trunc_le_trans)

lemma turn_states:
  "passes agent_turn_checks t \<Longrightarrow>
     (t_user_request_redacted t \<noteq> None \<longleftrightarrow> t_request_state t = PRESENT) \<and>
     (t_final_response_redacted t \<noteq> None \<longleftrightarrow> t_response_state t = PRESENT)"
  by (auto simp: passes_def agent_turn_checks_def content_checks_def)

lemma merge_agent_turn_default:
  "merge_agent_turn default_options (Some c) x =
     (if turn_identity c \<noteq> turn_identity x
      then Inl (ValueError ''turn identity facts cannot be replaced'')
      else merge_turn_fields default_options c x)"
  by (simp add: merge_agent_turn_def default_options_def)

lemma default_options_simps [simp]:
  "legacy_request default_options = None" "legacy_response default_options = None"
  "m_replace_progress default_options = False" "m_clear_local_request default_options = False"
  by (simp_all add: default_options_def legacy_request_def legacy_response_def)

lemma merge_turn_fields_ident:
  "merge_turn_fields opts c x = Inr m \<Longrightarrow>
   turn_identity m = turn_identity c \<and> passes agent_turn_checks m"
  by (auto simp: merge_turn_fields_def res_simps turn_identity_def)

lemma merge_turn_fields_upper:
  "merge_turn_fields default_options c x = Inr m \<Longrightarrow> turn_le c m \<and> turn_le x m"
  by (auto simp: merge_turn_fields_def turn_le_def res_simps intro: le_intro)

text \<open>The state rule on the merged record, whose state is \<open>PRESENT\<close> exactly with content.\<close>

lemma merge_turn_fields_again:
  "merge_turn_fields opts c x = Inr m \<Longrightarrow> merge_turn_fields opts m x = Inr m"
  by (auto simp: merge_turn_fields_def res_simps merge_truncated_replay split: if_splits
    dest: field_replay advance_end_replay)

lemma merge_turn_fields_absorb:
  assumes "passes agent_turn_checks m" and "turn_fits x" and "turn_le x m"
  shows "merge_turn_fields default_options m x = Inr m"
proof -
  have "t_input_tokens x = None" "t_cached_input_tokens x = None"
    "t_cache_write_input_tokens x = None" "t_output_tokens x = None"
    "t_reasoning_output_tokens x = None" "t_total_tokens x = None"
    using assms(2) by (auto simp: turn_fits_def has_usage_def turn_token_fields_def)
  moreover have "prefix_le (t_user_request_redacted x) (t_user_request_redacted m)"
    "prefix_le (t_final_response_redacted x) (t_final_response_redacted m)"
    using assms(3) by (auto simp: turn_le_def trunc_le_def)
  ultimately show ?thesis
    using assms turn_states [OF assms(1)]
    by (simp add: merge_turn_fields_def turn_fits_def turn_le_def absorb post_init_eq_Inr)
qed

lemma merge_turn_fields_self:
  "passes agent_turn_checks x \<Longrightarrow> merge_turn_fields opts x x = Inr x"
  using turn_states [of x]
  by (simp add: merge_turn_fields_def field_self post_init_eq_Inr advance_evidence_state_absorb
    merge_truncated_def)

interpretation turn_merge: evidence_merge
  "merge_agent_turn default_options" turn_identity turn_le "passes agent_turn_checks" turn_fits
proof (unfold_locales, goal_cases)
  case (7 m x)
  then show ?case by (simp add: merge_agent_turn_default merge_turn_fields_absorb)
next
  case (9 x y z)
  then show ?case by (blast intro: turn_le_trans)
qed (auto simp: merge_agent_turn_default merge_turn_fields_self turn_le_refl
    merge_agent_turn_def [of _ None] split: if_splits
    dest: merge_turn_fields_ident merge_turn_fields_upper merge_turn_fields_again)

section \<open>Attributes of an event\<close>

lemma py_eq_num: "num_of b = Some q \<Longrightarrow> py_eq b c \<Longrightarrow> num_of c = Some q"
  by (cases b) auto

lemma py_eq_dict:
  "py_eq (JDict xs) (JDict ys) \<longleftrightarrow> length xs = length ys \<and>
     (\<forall>k v. (k, v) \<in> set xs \<longrightarrow> (\<exists>w. map_of ys k = Some w \<and> py_eq v w))"
  by (auto simp: list_all_iff split: option.splits; fastforce)

lemma py_eq_trans: "py_eq a b \<Longrightarrow> py_eq b c \<Longrightarrow> py_eq a c"
proof (induction a arbitrary: b c)
  case (JList vs)
  then obtain ws us where *: "b = JList ws" "c = JList us"
    by (auto split: jval.splits)
  with JList.prems have "list_all2 py_eq vs ws" "list_all2 py_eq ws us"
    by (simp_all add: list_all2_conv_all_nth)
  then have "list_all2 py_eq vs us"
    using JList.IH by (auto simp: list_all2_conv_all_nth)
  with * show ?case by (simp add: list_all2_conv_all_nth)
next
  case (JDict kvs)
  then obtain kws kus where *: "b = JDict kws" "c = JDict kus"
    by (auto split: jval.splits)
  have vw: "\<forall>k v. (k, v) \<in> set kvs \<longrightarrow> (\<exists>w. map_of kws k = Some w \<and> py_eq v w)"
    and wu: "\<forall>k v. (k, v) \<in> set kws \<longrightarrow> (\<exists>w. map_of kus k = Some w \<and> py_eq v w)"
    and len: "length kvs = length kus"
    using JDict.prems unfolding * py_eq_dict by simp_all
  have "\<exists>u. map_of kus k = Some u \<and> py_eq v u" if kv: "(k, v) \<in> set kvs" for k v
  proof -
    from kv vw obtain w where w: "map_of kws k = Some w" "py_eq v w" by blast
    with wu map_of_SomeD obtain u where "map_of kus k = Some u" "py_eq w u" by metis
    moreover have "v \<in> Basic_BNFs.snds (k, v)" by simp
    ultimately show ?thesis using JDict.IH [OF kv \<open>v \<in> _\<close>] w by blast
  qed
  with len show ?case unfolding * py_eq_dict by blast
qed (auto dest: py_eq_num)

lemma jeq_trans: "jeq a b \<Longrightarrow> jeq b c \<Longrightarrow> jeq a c"
  unfolding jeq_def using py_eq_trans by blast

definition blank :: "jval \<Rightarrow> bool" where
  "blank v \<longleftrightarrow> v = JNull \<or> v = JStr []"

lemma jeq_blank: "jeq v w \<Longrightarrow> blank w \<Longrightarrow> blank v"
  by (cases v) (auto simp: jeq_def blank_def split: jval.splits)

text \<open>Every attribute of the one that says something is in the other with an equal value.\<close>

definition attr_le :: "(string, jval) dict \<Rightarrow> (string, jval) dict \<Rightarrow> bool" where
  "attr_le a b \<longleftrightarrow>
     (\<forall>k v. dget a k = Some v \<and> \<not> blank v \<longrightarrow> (\<exists>w. dget b k = Some w \<and> jeq v w))"

lemma attr_le_refl [simp]: "attr_le a a"
  by (auto simp: attr_le_def)

lemma attr_le_trans: "attr_le a b \<Longrightarrow> attr_le b c \<Longrightarrow> attr_le a c"
  unfolding attr_le_def by (metis jeq_trans jeq_blank)

lemma merge_attribute_cases:
  assumes "merge_attribute False (k, v) a = Inr a'"
  obtains (set_it) "a' = dset k v a" "case dget a k of None \<Rightarrow> True | Some w \<Rightarrow> blank w"
  | (keep) w where "a' = a" "dget a k = Some w" "\<not> blank w" "blank v \<or> jeq v w"
  using assms that by (auto simp: merge_attribute_def blank_def split: option.splits if_splits)

lemma merge_attribute_step:
  assumes "merge_attribute False (k, v) a = Inr a'"
  shows "attr_le a a' \<and> (\<not> blank v \<longrightarrow> (\<exists>w. dget a' k = Some w \<and> jeq v w)) \<and> (dwf a \<longrightarrow> dwf a')"
  using assms
  by (rule merge_attribute_cases) (auto simp: attr_le_def dict_simps split: if_splits option.splits)

lemma merge_attribute_other:
  "merge_attribute b (k, v) a = Inr a' \<Longrightarrow> k' \<noteq> k \<Longrightarrow> dget a' k' = dget a k'"
  by (auto simp: merge_attribute_def dict_simps split: if_splits option.splits)

lemma merge_attributes_other:
  "merge_attributes b a xs = Inr a' \<Longrightarrow> k \<notin> set (dkeys xs) \<Longrightarrow> dget a' k = dget a k"
  by (induction xs arbitrary: a)
    (auto simp: merge_attributes_def res_simps dest: merge_attribute_other)

lemma merge_attributes_Cons:
  "merge_attributes b a (x # xs) = bindr (merge_attribute b x a) (\<lambda>a'. merge_attributes b a' xs)"
  by (simp add: merge_attributes_def)

lemma merge_attributes_Nil [simp]: "merge_attributes b a [] = Inr a"
  by (simp add: merge_attributes_def)

lemma merge_attributes_upper:
  "merge_attributes False a xs = Inr m \<Longrightarrow> dwf xs \<Longrightarrow>
   attr_le a m \<and> attr_le xs m \<and> (dwf a \<longrightarrow> dwf m)"
proof (induction xs arbitrary: a)
  case Nil
  then show ?case by (auto simp: attr_le_def)
next
  case (Cons x xs)
  obtain k v where x: "x = (k, v)" by force
  from Cons.prems obtain a1 where a1: "merge_attribute False (k, v) a = Inr a1"
    "merge_attributes False a1 xs = Inr m" by (auto simp: merge_attributes_Cons x res_simps)
  have m: "attr_le a1 m \<and> attr_le xs m \<and> (dwf a1 \<longrightarrow> dwf m)"
    using Cons.IH [OF a1(2)] Cons.prems by simp
  moreover have "dget m k = dget a1 k"
    using merge_attributes_other [OF a1(2)] Cons.prems x by simp
  ultimately have "attr_le (x # xs) m"
    using merge_attribute_step [OF a1(1)] x by (auto simp: attr_le_def split: if_splits)
  with m merge_attribute_step [OF a1(1)] show ?case
    using attr_le_trans by blast
qed

text \<open>A step that changes nothing: what the entry must hold.\<close>

lemma merge_attribute_stable:
  "dget a k = Some w \<Longrightarrow> (blank w \<longrightarrow> w = v) \<Longrightarrow> blank v \<or> jeq v w \<Longrightarrow>
   merge_attribute False (k, v) a = Inr a"
  by (auto simp: merge_attribute_def blank_def dset_same)

lemma merge_attributes_stable:
  "(\<And>k v. (k, v) \<in> set xs \<Longrightarrow>
      \<exists>w. dget m k = Some w \<and> (blank w \<longrightarrow> w = v) \<and> (blank v \<or> jeq v w)) \<Longrightarrow>
   merge_attributes False m xs = Inr m"
proof (induction xs)
  case Nil
  then show ?case by simp
next
  case (Cons x xs)
  obtain k v where x: "x = (k, v)" by force
  have "merge_attribute False x m = Inr m"
    using Cons.prems [of k v] x merge_attribute_stable by (metis list.set_intros(1))
  with Cons show ?case by (simp add: merge_attributes_Cons)
qed

lemma merge_attributes_result:
  "merge_attributes False a xs = Inr m \<Longrightarrow> dwf xs \<Longrightarrow> (k, v) \<in> set xs \<Longrightarrow>
   \<exists>w. dget m k = Some w \<and> (blank w \<longrightarrow> w = v) \<and> (blank v \<or> jeq v w)"
proof (induction xs arbitrary: a)
  case Nil
  then show ?case by simp
next
  case (Cons x xs)
  obtain k1 v1 where x: "x = (k1, v1)" by force
  from Cons.prems obtain a1 where a1: "merge_attribute False (k1, v1) a = Inr a1"
    "merge_attributes False a1 xs = Inr m" by (auto simp: merge_attributes_Cons x res_simps)
  show ?case
  proof (cases "(k, v) \<in> set xs")
    case True
    with Cons.IH [OF a1(2)] Cons.prems show ?thesis by simp
  next
    case False
    with Cons.prems x have [simp]: "k1 = k" "v1 = v" by auto
    have "dget m k = dget a1 k"
      using merge_attributes_other [OF a1(2)] Cons.prems x by simp
    with a1(1) show ?thesis
      by (auto elim!: merge_attribute_cases simp: dict_simps)
  qed
qed

lemma merge_attributes_again:
  "merge_attributes False a xs = Inr m \<Longrightarrow> dwf xs \<Longrightarrow> merge_attributes False m xs = Inr m"
  by (rule merge_attributes_stable) (rule merge_attributes_result)

lemma merge_attributes_self: "dwf xs \<Longrightarrow> merge_attributes False xs xs = Inr xs"
  by (rule merge_attributes_stable) auto

lemma merge_attributes_absorb:
  assumes "attr_le xs m" and "dwf xs" and "list_all (\<lambda>(k, v). \<not> blank v) xs"
  shows "merge_attributes False m xs = Inr m"
proof (rule merge_attributes_stable)
  fix k v assume kv: "(k, v) \<in> set xs"
  with assms(2,3) have "dget xs k = Some v" "\<not> blank v" by (auto simp: list_all_iff)
  with assms(1) obtain w where "dget m k = Some w" "jeq v w" by (auto simp: attr_le_def)
  with \<open>\<not> blank v\<close> show "\<exists>w. dget m k = Some w \<and> (blank w \<longrightarrow> w = v) \<and> (blank v \<or> jeq v w)"
    using jeq_blank by blast
qed

section \<open>Events\<close>

lemma agent_event_eta [simp]:
  "\<lparr>e_event_id = e_event_id m, e_turn_id = e_turn_id m, e_sequence = e_sequence m,
     e_occurred_at = e_occurred_at m, e_event_type = e_event_type m, e_status = e_status m,
     e_provenance = e_provenance m, e_attributes = e_attributes m, e_privacy = e_privacy m,
     e_omission_reason = e_omission_reason m, e_trace_id = e_trace_id m,
     e_producer_id = e_producer_id m, e_producer_sequence = e_producer_sequence m,
     e_parent_event_id = e_parent_event_id m\<rparr> = (m :: agent_event)"
  by (cases m) simp

text \<open>
  The marker events of a truncated import count omitted source events in an attribute: their
  merge is a maximum and not an order of information, so the contract is stated for the rest.
\<close>

definition plain_event :: "agent_event \<Rightarrow> bool" where
  "plain_event e \<longleftrightarrow> passes agent_event_checks e \<and> dwf (e_attributes e) \<and>
     e_provenance e \<noteq> ''verdict:capture_limit''"

definition event_ident ::
  "agent_event \<Rightarrow> string \<times> string \<times> int \<times> agent_event_type \<times> string \<times> int" where
  "event_ident e = (e_event_id e, e_turn_id e, e_sequence e, e_event_type e, e_provenance e,
     e_occurred_at e)"

definition omission_le :: "agent_event \<Rightarrow> agent_event \<Rightarrow> bool" where
  "omission_le a b \<longleftrightarrow> privacy_rank (e_privacy a) \<le> privacy_rank (e_privacy b) \<and>
     (e_privacy b = OMITTED \<longrightarrow> opt_le (e_omission_reason a) (e_omission_reason b))"

definition event_le :: "agent_event \<Rightarrow> agent_event \<Rightarrow> bool" where
  "event_le a b \<longleftrightarrow>
     attr_le (e_attributes a) (e_attributes b) \<and>
     omission_le a b \<and>
     status_le (e_status a) (e_status b) \<and>
     opt_le (e_trace_id a) (e_trace_id b) \<and>
     text_le (e_producer_id a) (e_producer_id b) \<and>
     opt_le (e_producer_sequence a) (e_producer_sequence b) \<and>
     opt_le (e_parent_event_id a) (e_parent_event_id b)"

definition event_fits :: "agent_event \<Rightarrow> bool" where
  "event_fits e \<longleftrightarrow> list_all (\<lambda>(k, v). \<not> blank v) (e_attributes e)"

lemma privacy_rank_0: "privacy_rank p = 0 \<longleftrightarrow> p = OMITTED"
  by (cases p) auto

lemma omission_le_trans: "omission_le a b \<Longrightarrow> omission_le b c \<Longrightarrow> omission_le a c"
  unfolding omission_le_def
  by (metis opt_le_trans order_trans le_zero_eq privacy_rank_0)

lemma max_privacy_simps:
  "privacy_rank a \<le> privacy_rank (max_privacy a b)"
  "privacy_rank b \<le> privacy_rank (max_privacy a b)"
  "privacy_rank b \<le> privacy_rank a \<Longrightarrow> max_privacy a b = a"
  "max_privacy (max_privacy a b) b = max_privacy a b"
  by (auto simp: max_privacy_def)

lemma max_privacy_omitted: "max_privacy a b = OMITTED \<longleftrightarrow> a = OMITTED \<and> b = OMITTED"
  by (cases a; cases b) (simp_all add: max_privacy_def)

lemma omission_known:
  "passes agent_event_checks e \<Longrightarrow>
     (e_privacy e = OMITTED \<longrightarrow> e_omission_reason e \<noteq> None) \<and>
     (e_privacy e \<noteq> OMITTED \<longrightarrow> e_omission_reason e = None)"
  by (auto simp: passes_def agent_event_checks_def)

lemma plain_no_marker: "plain_event c \<Longrightarrow> capture_limit_marker c x = False"
  by (simp add: plain_event_def capture_limit_marker_def)

lemma event_le_refl: "event_le e e"
  by (simp add: event_le_def omission_le_def)

lemma event_le_trans: "event_le a b \<Longrightarrow> event_le b c \<Longrightarrow> event_le a c"
  unfolding event_le_def by (blast intro: field_le_trans attr_le_trans omission_le_trans)

lemma merge_agent_event_ident:
  "merge_agent_event (Some c) x = Inr m \<Longrightarrow> plain_event c \<Longrightarrow>
   event_ident c = event_ident x \<and> event_ident m = event_ident x \<and> passes agent_event_checks m"
  by (auto simp: merge_agent_event_def event_ident_def res_simps Let_def plain_no_marker
    split: if_splits)

lemma merge_agent_event_upper:
  "merge_agent_event (Some c) x = Inr m \<Longrightarrow> plain_event c \<Longrightarrow> plain_event x \<Longrightarrow>
   event_le c m \<and> event_le x m"
  by (auto simp: merge_agent_event_def event_le_def omission_le_def res_simps Let_def
    plain_no_marker max_privacy_simps max_privacy_omitted plain_event_def
    split: if_splits intro: le_intro dest: merge_attributes_upper)

lemma merge_agent_event_plain:
  "merge_agent_event (Some c) x = Inr m \<Longrightarrow> plain_event c \<Longrightarrow> plain_event x \<Longrightarrow> plain_event m"
  by (auto simp: merge_agent_event_def res_simps Let_def plain_no_marker plain_event_def
    split: if_splits dest: merge_attributes_upper)

lemma merge_agent_event_again:
  assumes "merge_agent_event (Some c) x = Inr m" and "plain_event c" and "plain_event x"
  shows "merge_agent_event (Some m) x = Inr m"
  using assms merge_agent_event_plain [OF assms, THEN plain_no_marker]
  by (auto simp: merge_agent_event_def res_simps Let_def plain_no_marker plain_event_def
    max_privacy_simps max_privacy_omitted split: if_splits
    dest: field_replay merge_attributes_again)

text \<open>The omission rule on a recorded event, where the reason is set exactly when omitted.\<close>

lemma omission_absorb:
  "passes agent_event_checks m \<Longrightarrow> omission_le x m \<Longrightarrow>
   (if e_privacy m = OMITTED then fill_optional (e_omission_reason m) (e_omission_reason x) s
    else Inr None) = Inr (e_omission_reason m)"
  using omission_known [of m] by (auto simp: omission_le_def absorb)

lemma merge_agent_event_absorb:
  assumes "plain_event m" and "plain_event x" and "event_le x m"
    and "event_ident x = event_ident m"
    and "merge_attributes False (e_attributes m) (e_attributes x) = Inr (e_attributes m)"
  shows "merge_agent_event (Some m) x = Inr m"
  using assms plain_no_marker [OF assms(1), of x] omission_absorb [of m x]
  by (simp add: merge_agent_event_def plain_event_def Let_def event_le_def
    event_ident_def omission_le_def max_privacy_simps absorb post_init_eq_Inr split del: if_split)

lemma merge_agent_event_self: "plain_event x \<Longrightarrow> merge_agent_event (Some x) x = Inr x"
  by (rule merge_agent_event_absorb)
    (auto simp: event_le_refl plain_event_def intro: merge_attributes_self)

lemma merge_agent_event_fits:
  "plain_event m \<Longrightarrow> plain_event x \<Longrightarrow> event_fits x \<Longrightarrow> event_le x m \<Longrightarrow>
   event_ident x = event_ident m \<Longrightarrow> merge_agent_event (Some m) x = Inr m"
  by (rule merge_agent_event_absorb)
    (auto simp: plain_event_def event_fits_def event_le_def intro: merge_attributes_absorb)

interpretation event_merge: evidence_merge
  merge_agent_event event_ident event_le plain_event event_fits
proof (unfold_locales, goal_cases)
  case (9 x y z)
  then show ?case by (blast intro: event_le_trans)
qed (auto simp: event_le_refl merge_agent_event_self merge_agent_event_fits
    merge_agent_event_def [of None]
    dest: merge_agent_event_ident merge_agent_event_upper merge_agent_event_plain
      merge_agent_event_again)

text \<open>
  The marker of a truncated import: merging keeps the larger of the two counts, and repeating
  the merge changes nothing once the count has been written by a merge.
\<close>

lemma dec_of_int_not_Nil: "dec_of_int n \<noteq> []"
proof
  assume "dec_of_int n = []"
  then have "py_int [] = Some n" using py_int_dec_of_int [of n] by simp
  moreover have "py_int [] = None" by code_simp
  ultimately show False by simp
qed

lemma marker_source_max:
  assumes "dget a ''source'' = Some old" and "\<not> blank old"
    and "int_of_jval old = Some i" and "int_of_jval v = Some j"
  shows "merge_attribute True (''source'', v) a =
      Inr (dset ''source'' (JStr (dec_of_int (max i j))) a)"
    and "merge_attribute True (''source'', v) (dset ''source'' (JStr (dec_of_int (max i j))) a) =
      Inr (dset ''source'' (JStr (dec_of_int (max i j))) a)"
  using assms
  by (simp_all add: merge_attribute_def blank_def dict_simps int_of_jval_def py_int_dec_of_int
      dec_of_int_not_Nil dset_dset)

end
