(* ===== verification/Trace_Merge_Laws.thy ===== *)
theory Trace_Merge_Laws
  imports Turn_Event_Laws
begin

text \<open>
  The contract of \<open>merge_capture_trace\<close> as the evidence store uses it: the request facts are
  fixed, completion facts are only filled in, and repeating a delivery changes nothing.
\<close>

text \<open>A trace as a capture carries it: normalised, and canonical when local history owns it.\<close>

definition trace_wf :: "trace \<Rightarrow> bool" where
  "trace_wf t \<longleftrightarrow> trace_normal t \<and> dwf (tr_tags t)"

definition trace_fits :: "trace \<Rightarrow> bool" where
  "trace_fits t \<longleftrightarrow>
     (is_verdict_local_agent_trace t \<longrightarrow>
        tr_raw_messages t = local_agent_messages (tr_prompt_redacted t) (tr_response_redacted t))"

lemma tags_eq_dget:
  assumes "tags_eq a b" and "dwf a" and "dwf b"
  shows "dget a = dget b"
proof (cases "a = b")
  case False
  with assms(1) have len: "length a = length b"
    and sub: "\<And>k v. (k, v) \<in> set a \<Longrightarrow> dget b k = Some v"
    by (auto simp: tags_eq_def list_all_iff)
  have "set a \<subseteq> set b" using sub by (auto dest: map_of_SomeD)
  moreover have "card (set a) = card (set b)"
    using assms(2,3) len by (simp add: distinct_card distinct_map)
  ultimately have "set a = set b" by (simp add: card_subset_eq)
  with assms(2,3) show ?thesis by (simp add: map_of_inject_set)
qed simp

lemma local_trace_tags:
  "dget (tr_tags a) = dget (tr_tags b) \<Longrightarrow>
   is_verdict_local_agent_trace a = is_verdict_local_agent_trace b"
  by (simp add: is_verdict_local_agent_trace_def tag_set_def)

lemma messages_eq_refl [simp]: "messages_eq a a"
  by (simp add: messages_eq_def split: option.split)

lemma merge_capture_trace_default:
  "merge_capture_trace default_options (Some c) x =
     (if \<not> same_request_facts c x
      then Inl (ValueError ''Trace request identity facts cannot be replaced'')
      else merge_trace_fields default_options c x)"
  by (simp add: merge_capture_trace_def)

lemma populate_trace_fields [simp]:
  "tr_trace_id (populate_trace_analysis_fields t) = tr_trace_id t"
  "tr_tenant_id (populate_trace_analysis_fields t) = tr_tenant_id t"
  "tr_tags (populate_trace_analysis_fields t) = tr_tags t"
  "tr_prompt_redacted (populate_trace_analysis_fields t) = tr_prompt_redacted t"
  "tr_response_redacted (populate_trace_analysis_fields t) = tr_response_redacted t"
  "tr_raw_messages (populate_trace_analysis_fields t) = tr_raw_messages t"
  by (simp_all add: populate_trace_analysis_fields_def Let_def split: option.split)

lemma merge_trace_fields_ident:
  "merge_trace_fields opts c x = Inr m \<Longrightarrow> tr_trace_id m = tr_trace_id x \<and>
   tr_tenant_id m = tr_tenant_id x \<and> tr_tags m = tr_tags x"
  by (auto simp: merge_trace_fields_def Let_def res_simps normalize_scalars_def)

lemma merge_capture_trace_ident:
  "merge_capture_trace default_options (Some c) x = Inr m \<Longrightarrow>
   tr_trace_id m = tr_trace_id x \<and> tr_tenant_id m = tr_tenant_id x \<and> tr_tags m = tr_tags x \<and>
   tr_trace_id c = tr_trace_id x \<and> tr_tenant_id c = tr_tenant_id x"
  by (auto simp: merge_capture_trace_default same_request_facts_def split: if_splits
    dest: merge_trace_fields_ident)

lemma normalize_populate: "normalize_scalars (populate_trace_analysis_fields t) =
    populate_trace_analysis_fields (normalize_scalars t)"
  by (simp add: normalize_scalars_def populate_trace_analysis_fields_def Let_def
    split: option.split)

lemma populate_idem:
  "populate_trace_analysis_fields (populate_trace_analysis_fields t) =
   populate_trace_analysis_fields t"
  by (simp add: populate_trace_analysis_fields_def Let_def split: option.split)

lemma merge_trace_fields_wf:
  "merge_trace_fields opts c x = Inr m \<Longrightarrow> dwf (tr_tags x) \<Longrightarrow> trace_wf m"
proof -
  assume m: "merge_trace_fields opts c x = Inr m" and x: "dwf (tr_tags x)"
  from m obtain y where "m = populate_trace_analysis_fields (normalize_scalars y)"
    unfolding merge_trace_fields_def Let_def by (auto simp: res_simps)
  then have "trace_normal m"
    by (simp add: trace_normal_def normalize_populate normalize_scalars_idem populate_idem)
  with m x show ?thesis by (simp add: trace_wf_def merge_trace_fields_ident)
qed

lemma merge_capture_trace_wf:
  "merge_capture_trace default_options s x = Inr m \<Longrightarrow> trace_wf x \<Longrightarrow> trace_wf m"
  by (cases s) (auto simp: merge_capture_trace_default trace_wf_def [of x]
    merge_capture_trace_def [of _ None] split: if_splits intro: merge_trace_fields_wf)

section \<open>Repeating a delivery\<close>

lemma normal_fields:
  "normalize_scalars t = t \<longleftrightarrow>
     norm_count (tr_input_tokens t) = tr_input_tokens t \<and>
     norm_count (tr_output_tokens t) = tr_output_tokens t \<and>
     norm_count (tr_max_tokens t) = tr_max_tokens t \<and>
     norm_amount (tr_latency_ms t) = tr_latency_ms t \<and>
     norm_amount (tr_cost_usd t) = tr_cost_usd t"
  by (cases t) (auto simp: normalize_scalars_def)

lemma or_text_again: "or_text a (or_text a b) = or_text a b"
  by (simp add: or_text_def split: option.split)

lemma merge_trace_messages_again:
  assumes "merge_trace_messages local_trace c x p r = Inr msgs"
    and "tr_raw_messages m = msgs" and "tr_prompt_redacted m = p" and "tr_response_redacted m = r"
  shows "merge_trace_messages local_trace m x p r = Inr msgs"
  using assms
  by (auto simp: merge_trace_messages_def res_simps validate_local_agent_messages_def
    split: if_splits dest: extend_messages_replay)

lemma merge_trace_text_again:
  "merge_trace_text b c x s None = Inr m \<Longrightarrow> merge_trace_text b m x s None = Inr m"
  by (auto simp: merge_trace_text_def dest: field_replay split: if_splits)

text \<open>The record the merge builds, before the derived fields.\<close>

definition merged_trace :: "trace \<Rightarrow> trace \<Rightarrow> trace \<Rightarrow> bool" where
  "merged_trace c x y \<longleftrightarrow>
     merge_trace_text (is_verdict_local_agent_trace c) (tr_prompt_redacted c)
       (tr_prompt_redacted x) ''Trace prompt'' None = Inr (tr_prompt_redacted y) \<and>
     merge_trace_text (is_verdict_local_agent_trace c) (tr_response_redacted c)
       (tr_response_redacted x) ''Trace response'' None = Inr (tr_response_redacted y) \<and>
     merge_trace_messages (is_verdict_local_agent_trace c) c x (tr_prompt_redacted y)
       (tr_response_redacted y) = Inr (tr_raw_messages y) \<and>
     fill_optional (tr_ended_at c) (tr_ended_at x) ''Trace end'' = Inr (tr_ended_at y) \<and>
     fill_text (tr_response_model c) (tr_response_model x) ''Trace response model'' =
       Inr (tr_response_model y) \<and>
     fill_optional (tr_input_tokens c) (tr_input_tokens x) ''Trace input tokens'' =
       Inr (tr_input_tokens y) \<and>
     fill_optional (tr_output_tokens c) (tr_output_tokens x) ''Trace output tokens'' =
       Inr (tr_output_tokens y) \<and>
     fill_optional (tr_finish_reason c) (tr_finish_reason x) ''Trace finish reason'' =
       Inr (tr_finish_reason y) \<and>
     fill_optional (tr_error c) (tr_error x) ''Trace error'' = Inr (tr_error y) \<and>
     fill_optional (tr_latency_ms c) (tr_latency_ms x) ''Trace latency'' = Inr (tr_latency_ms y) \<and>
     fill_optional (tr_cost_usd c) (tr_cost_usd x) ''Trace cost'' = Inr (tr_cost_usd y) \<and>
     fill_optional (tr_parent_span_id c) (tr_parent_span_id x) ''Trace parent span'' =
       Inr (tr_parent_span_id y) \<and>
     tr_cluster_id y = or_text (tr_cluster_id x) (tr_cluster_id c)"

definition with_completion :: "trace \<Rightarrow> trace \<Rightarrow> trace" where
  "with_completion x y = x\<lparr>
     tr_ended_at := tr_ended_at y,
     tr_response_model := tr_response_model y,
     tr_input_tokens := tr_input_tokens y,
     tr_output_tokens := tr_output_tokens y,
     tr_finish_reason := tr_finish_reason y,
     tr_error := tr_error y,
     tr_latency_ms := tr_latency_ms y,
     tr_prompt_redacted := tr_prompt_redacted y,
     tr_response_redacted := tr_response_redacted y,
     tr_raw_messages := tr_raw_messages y,
     tr_cost_usd := tr_cost_usd y,
     tr_parent_span_id := tr_parent_span_id y,
     tr_cluster_id := tr_cluster_id y\<rparr>"

lemma fill_optional_fixed:
  "fill_optional a b s = Inr z \<Longrightarrow> f a = a \<Longrightarrow> f b = b \<Longrightarrow> f z = z"
  using fill_optional_in by metis

lemma merged_trace_normal:
  assumes "merged_trace c x y" and "y = with_completion x y"
    and c: "normalize_scalars c = c" and x: "normalize_scalars x = x"
  shows "normalize_scalars y = y"
proof -
  have "tr_max_tokens y = tr_max_tokens x"
    using arg_cong [OF assms(2), of tr_max_tokens] by (simp add: with_completion_def)
  moreover have "norm_count (tr_input_tokens y) = tr_input_tokens y"
    using assms(1) c x unfolding merged_trace_def normal_fields by (blast intro: fill_optional_fixed)
  moreover have "norm_count (tr_output_tokens y) = tr_output_tokens y"
    using assms(1) c x unfolding merged_trace_def normal_fields by (blast intro: fill_optional_fixed)
  moreover have "norm_amount (tr_latency_ms y) = tr_latency_ms y"
    using assms(1) c x unfolding merged_trace_def normal_fields by (blast intro: fill_optional_fixed)
  moreover have "norm_amount (tr_cost_usd y) = tr_cost_usd y"
    using assms(1) c x unfolding merged_trace_def normal_fields by (blast intro: fill_optional_fixed)
  ultimately show ?thesis using x unfolding normal_fields by simp
qed

lemma merge_trace_fields_iff:
  "merge_trace_fields default_options c x = Inr m \<longleftrightarrow>
     (\<exists>y. merged_trace c x y \<and> y = with_completion x y \<and>
        m = populate_trace_analysis_fields (normalize_scalars y))"
proof
  assume "merge_trace_fields default_options c x = Inr m"
  then obtain p r msgs e rm it ot fr er la co ps where f:
    "merge_trace_text (is_verdict_local_agent_trace c) (tr_prompt_redacted c)
       (tr_prompt_redacted x) ''Trace prompt'' None = Inr p"
    "merge_trace_text (is_verdict_local_agent_trace c) (tr_response_redacted c)
       (tr_response_redacted x) ''Trace response'' None = Inr r"
    "merge_trace_messages (is_verdict_local_agent_trace c) c x p r = Inr msgs"
    "fill_optional (tr_ended_at c) (tr_ended_at x) ''Trace end'' = Inr e"
    "fill_text (tr_response_model c) (tr_response_model x) ''Trace response model'' = Inr rm"
    "fill_optional (tr_input_tokens c) (tr_input_tokens x) ''Trace input tokens'' = Inr it"
    "fill_optional (tr_output_tokens c) (tr_output_tokens x) ''Trace output tokens'' = Inr ot"
    "fill_optional (tr_finish_reason c) (tr_finish_reason x) ''Trace finish reason'' = Inr fr"
    "fill_optional (tr_error c) (tr_error x) ''Trace error'' = Inr er"
    "fill_optional (tr_latency_ms c) (tr_latency_ms x) ''Trace latency'' = Inr la"
    "fill_optional (tr_cost_usd c) (tr_cost_usd x) ''Trace cost'' = Inr co"
    "fill_optional (tr_parent_span_id c) (tr_parent_span_id x) ''Trace parent span'' = Inr ps"
    "m = populate_trace_analysis_fields (normalize_scalars (x\<lparr>
       tr_ended_at := e, tr_response_model := rm, tr_input_tokens := it, tr_output_tokens := ot,
       tr_finish_reason := fr, tr_error := er, tr_latency_ms := la, tr_prompt_redacted := p,
       tr_response_redacted := r, tr_raw_messages := msgs, tr_cost_usd := co,
       tr_parent_span_id := ps,
       tr_cluster_id := or_text (tr_cluster_id x) (tr_cluster_id c)\<rparr>))"
    by (auto simp: merge_trace_fields_def Let_def res_simps)
  let ?y = "x\<lparr>
       tr_ended_at := e, tr_response_model := rm, tr_input_tokens := it, tr_output_tokens := ot,
       tr_finish_reason := fr, tr_error := er, tr_latency_ms := la, tr_prompt_redacted := p,
       tr_response_redacted := r, tr_raw_messages := msgs, tr_cost_usd := co,
       tr_parent_span_id := ps,
       tr_cluster_id := or_text (tr_cluster_id x) (tr_cluster_id c)\<rparr>"
  have "merged_trace c x ?y" unfolding merged_trace_def using f(1-12) by simp
  moreover have "?y = with_completion x ?y" by (simp add: with_completion_def)
  ultimately show "\<exists>y. merged_trace c x y \<and> y = with_completion x y \<and>
        m = populate_trace_analysis_fields (normalize_scalars y)"
    using f(13) by blast
next
  assume "\<exists>y. merged_trace c x y \<and> y = with_completion x y \<and>
        m = populate_trace_analysis_fields (normalize_scalars y)"
  then obtain y where y: "merged_trace c x y" "y = with_completion x y"
    "m = populate_trace_analysis_fields (normalize_scalars y)" by blast
  have "merge_trace_fields default_options c x =
      Inr (populate_trace_analysis_fields (normalize_scalars (with_completion x y)))"
    using y(1) by (simp add: merge_trace_fields_def merged_trace_def with_completion_def Let_def)
  with y show "merge_trace_fields default_options c x = Inr m" by simp
qed

lemma merge_capture_trace_again:
  assumes "merge_capture_trace default_options (Some c) x = Inr m" and "trace_wf c" and "trace_wf x"
  shows "merge_capture_trace default_options (Some m) x = Inr m"
proof -
  from assms(1) have same: "same_request_facts c x"
    and "merge_trace_fields default_options c x = Inr m"
    by (simp_all add: merge_capture_trace_default split: if_splits)
  then obtain y where y: "merged_trace c x y" "y = with_completion x y"
    "m = populate_trace_analysis_fields (normalize_scalars y)"
    using merge_trace_fields_iff by blast
  have "normalize_scalars y = y"
    using merged_trace_normal [OF y(1,2)] assms(2,3) by (simp add: trace_wf_def trace_normal_def)
  with y(3) have m: "m = populate_trace_analysis_fields y" by simp
  have m_fields: "is_verdict_local_agent_trace m = is_verdict_local_agent_trace c"
    using local_trace_tags [of m c] tags_eq_dget [of "tr_tags c" "tr_tags x"] same assms(2,3)
      merge_capture_trace_ident [OF assms(1)]
    by (simp add: same_request_facts_def trace_wf_def)
  have pop: "tr_prompt_redacted m = tr_prompt_redacted y"
    "tr_response_redacted m = tr_response_redacted y" "tr_raw_messages m = tr_raw_messages y"
    "tr_ended_at m = tr_ended_at y" "tr_response_model m = tr_response_model y"
    "tr_input_tokens m = tr_input_tokens y" "tr_output_tokens m = tr_output_tokens y"
    "tr_finish_reason m = tr_finish_reason y" "tr_error m = tr_error y"
    "tr_latency_ms m = tr_latency_ms y" "tr_cost_usd m = tr_cost_usd y"
    "tr_parent_span_id m = tr_parent_span_id y" "tr_cluster_id m = tr_cluster_id y"
    by (simp_all add: m populate_trace_analysis_fields_def Let_def split: option.split)
  have "merged_trace m x y"
    unfolding merged_trace_def pop m_fields
    using y(1) unfolding merged_trace_def
    by (auto simp: or_text_again pop
      intro: merge_trace_text_again merge_trace_messages_again fill_optional_replay fill_text_replay)
  moreover have "m = populate_trace_analysis_fields (normalize_scalars y)"
    by (rule y(3))
  ultimately have "merge_trace_fields default_options m x = Inr m"
    using y(2) merge_trace_fields_iff by blast
  moreover have "same_request_facts m x"
  proof -
    have "same_request_facts x x" by (simp add: same_request_facts_def)
    moreover have "same_request_facts (populate_trace_analysis_fields (with_completion x y)) x =
        same_request_facts x x"
      by (simp add: same_request_facts_def with_completion_def populate_trace_analysis_fields_def
        Let_def split: option.split)
    ultimately show ?thesis using m y(2) by metis
  qed
  ultimately show ?thesis by (simp add: merge_capture_trace_default)
qed

lemma merge_capture_trace_self:
  assumes "trace_wf x" and "trace_fits x"
  shows "merge_capture_trace default_options (Some x) x = Inr x"
proof -
  have "validate_local_agent_messages x = Inr ()" if "is_verdict_local_agent_trace x"
    using assms(2) that by (simp add: trace_fits_def validate_local_agent_messages_def)
  then have "merged_trace x x x"
    using assms(2)
    by (simp add: merged_trace_def merge_trace_text_def merge_trace_messages_def field_self
      extend_messages_def or_text_def trace_fits_def split: option.split)
  moreover have "x = with_completion x x" by (simp add: with_completion_def)
  moreover have "x = populate_trace_analysis_fields (normalize_scalars x)"
    using assms(1) by (simp add: trace_wf_def trace_normal_def)
  ultimately have "merge_trace_fields default_options x x = Inr x"
    unfolding merge_trace_fields_iff by blast
  then show ?thesis by (simp add: merge_capture_trace_default same_request_facts_def)
qed

lemma merge_capture_trace_redeliver:
  "merge_capture_trace default_options s x = Inr m \<Longrightarrow> (\<And>c. s = Some c \<Longrightarrow> trace_wf c) \<Longrightarrow>
   trace_wf x \<Longrightarrow> trace_fits x \<Longrightarrow> merge_capture_trace default_options (Some m) x = Inr m"
  by (cases s) (auto simp: merge_capture_trace_def [of _ None] merge_capture_trace_self
    intro: merge_capture_trace_again)

end
