(* ===== verification/Store_Laws.thy ===== *)
theory Store_Laws
  imports Evidence_Store Trace_Merge_Laws
begin

text \<open>
  What the evidence store promises: the referential invariant of its tables and that every
  operation keeps it.  The tables have no keys of a database; the checks of
  \<open>_store_agent_capture\<close> are shown to enforce what the unique indexes and foreign keys of the
  SQL adapters state.
\<close>

declare map_of_eq_Some_iff [simp del]

section \<open>Unique indexes\<close>

text \<open>
  A partial unique index on a table: two rows with the same index value are the same item.
\<close>

definition unique_by :: "('k \<Rightarrow> 'v \<Rightarrow> 'i option) \<Rightarrow> ('v \<Rightarrow> 'id) \<Rightarrow> ('k, 'v) dict \<Rightarrow> bool" where
  "unique_by idx ident d \<longleftrightarrow>
     (\<forall>k v k' v'. dget d k = Some v \<and> dget d k' = Some v' \<and> idx k v \<noteq> None \<and>
        idx k v = idx k' v' \<longrightarrow> ident v = ident v')"

lemma dget_dset_all:
  assumes "distinct (map key xs)"
  shows "dget (dset_all key val xs d) k = Some v \<longleftrightarrow>
     (\<exists>x \<in> set xs. key x = k \<and> v = val x) \<or> (k \<notin> key ` set xs \<and> dget d k = Some v)"
proof (cases "k \<in> key ` set xs")
  case True
  then obtain x where x: "x \<in> set xs" "k = key x" by auto
  have "y = x" if "y \<in> set xs" "key y = key x" for y
    using assms x that by (auto simp: distinct_map dest: inj_onD)
  with x dget_dset_all_in [OF assms x(1), of val d] show ?thesis by auto
next
  case False
  then show ?thesis by (auto simp: dget_dset_all_notin)
qed

lemma unique_by_dset_all:
  assumes "unique_by idx ident d" and "distinct (map key xs)"
    and "\<And>x i k v. x \<in> set xs \<Longrightarrow> idx (key x) x = Some i \<Longrightarrow> dget d k = Some v \<Longrightarrow>
      idx k v = Some i \<Longrightarrow> ident v = ident x"
    and "\<And>x y i. x \<in> set xs \<Longrightarrow> y \<in> set xs \<Longrightarrow> idx (key x) x = Some i \<Longrightarrow>
      idx (key y) y = Some i \<Longrightarrow> ident x = ident y"
  shows "unique_by idx ident (dset_all key id xs d)"
proof -
  have row: "(v \<in> set xs \<and> k = key v) \<or> dget d k = Some v"
    if "dget (dset_all key id xs d) k = Some v" for k v
    using that dget_dset_all [OF assms(2), of id d k v] by auto
  have "ident v = ident v'"
    if "dget (dset_all key id xs d) k = Some v" "dget (dset_all key id xs d) k' = Some v'"
      "idx k v = Some i" "idx k' v' = Some i" for k v k' v' i
    using row [OF that(1)] row [OF that(2)]
  proof (elim disjE conjE)
    assume "v \<in> set xs" "k = key v" "v' \<in> set xs" "k' = key v'"
    with that assms(4) show ?thesis by blast
  next
    assume "v \<in> set xs" "k = key v" "dget d k' = Some v'"
    with that assms(3) show ?thesis by metis
  next
    assume "dget d k = Some v" "v' \<in> set xs" "k' = key v'"
    with that assms(3) show ?thesis by metis
  next
    assume "dget d k = Some v" "dget d k' = Some v'"
    with that assms(1) show ?thesis unfolding unique_by_def by (metis option.distinct(1))
  qed
  then show ?thesis unfolding unique_by_def by (metis not_None_eq)
qed

text \<open>The first owner of an index value is the only one.\<close>

lemma owner_in_own:
  assumes "\<And>k v. dget d k = Some v \<Longrightarrow> p k v \<Longrightarrow> ident v = own" and "dwf d"
  shows "owner_in p ident own d = own"
  unfolding owner_in_def using assms by (intro next_or_const) (auto dest: map_of_is_SomeI)

lemma owner_in_unique:
  assumes "owner_in p ident own d = own" and "dwf d"
    and "\<And>k v k' v'. dget d k = Some v \<Longrightarrow> dget d k' = Some v' \<Longrightarrow> p k v \<Longrightarrow> p k' v' \<Longrightarrow>
      ident v = ident v'"
    and "dget d k = Some v" and "p k v"
  shows "ident v = own"
proof -
  have "(k, v) \<in> set d" using assms(4) by (rule map_of_SomeD)
  with assms(5) obtain k1 v1 where f: "List.find (\<lambda>(k, v). p k v) d = Some (k1, v1)"
    by (cases "List.find (\<lambda>(k, v). p k v) d") (auto simp: find_None_iff)
  with find_Some_set have "(k1, v1) \<in> set d" "p k1 v1" by fastforce+
  with assms have "ident v = ident v1" by (metis map_of_eq_Some_iff)
  with f assms(1) show ?thesis by (simp add: owner_in_def next_or_def)
qed

section \<open>The invariant\<close>

fun locator_index :: "run_key \<Rightarrow> source_session \<Rightarrow> (string \<times> string \<times> string) option" where
  "locator_index (ten, _) v = Some (ten, s_source_kind v, s_source_locator_hash v)"

fun turn_index :: "item_key \<Rightarrow> agent_turn \<Rightarrow> (string \<times> string \<times> int) option" where
  "turn_index (ten, run, _) v = Some (ten, run, t_sequence v)"

fun event_index :: "item_key \<Rightarrow> agent_event \<Rightarrow> (string \<times> string \<times> string \<times> int) option" where
  "event_index (ten, run, _) v = Some (ten, run, e_turn_id v, e_sequence v)"

fun link_index :: "item_key \<Rightarrow> agent_event \<Rightarrow> (string \<times> string) option" where
  "link_index (ten, run, _) v = map_option (Pair ten) (e_trace_id v)"

fun producer_index :: "item_key \<Rightarrow> agent_event \<Rightarrow> (string \<times> string \<times> string \<times> int) option" where
  "producer_index (ten, run, _) v =
     (if e_producer_id v = [] then None
      else map_option (\<lambda>n. (ten, run, e_producer_id v, n)) (e_producer_sequence v))"

definition sources_wf :: "evidence_store \<Rightarrow> bool" where
  "sources_wf st \<longleftrightarrow> dwf (st_sources st) \<and>
     (\<forall>ten i v. dget (st_sources st) (ten, i) = Some v \<longrightarrow>
        s_tenant_id v = ten \<and> s_source_session_id v = i \<and> passes source_session_checks v) \<and>
     unique_by locator_index s_source_session_id (st_sources st)"

definition runs_wf :: "evidence_store \<Rightarrow> bool" where
  "runs_wf st \<longleftrightarrow> dwf (st_runs st) \<and>
     (\<forall>ten i v. dget (st_runs st) (ten, i) = Some v \<longrightarrow>
        r_tenant_id v = ten \<and> r_run_id v = i \<and> passes agent_run_checks v \<and>
        dget (st_sources st) (ten, r_source_session_id v) \<noteq> None)"

definition turns_wf :: "evidence_store \<Rightarrow> bool" where
  "turns_wf st \<longleftrightarrow> dwf (st_turns st) \<and>
     (\<forall>ten run i v. dget (st_turns st) (ten, run, i) = Some v \<longrightarrow>
        t_run_id v = run \<and> t_turn_id v = i \<and> passes agent_turn_checks v \<and>
        dget (st_runs st) (ten, run) \<noteq> None) \<and>
     unique_by turn_index t_turn_id (st_turns st)"

definition events_wf :: "evidence_store \<Rightarrow> bool" where
  "events_wf st \<longleftrightarrow> dwf (st_events st) \<and>
     (\<forall>ten run i v. dget (st_events st) (ten, run, i) = Some v \<longrightarrow>
        e_event_id v = i \<and> passes agent_event_checks v \<and> dwf (e_attributes v) \<and>
        dget (st_turns st) (ten, run, e_turn_id v) \<noteq> None) \<and>
     unique_by event_index e_event_id (st_events st) \<and>
     unique_by link_index e_event_id (st_events st)"

definition traces_wf :: "evidence_store \<Rightarrow> bool" where
  "traces_wf st \<longleftrightarrow> dwf (st_traces st) \<and>
     (\<forall>i v. dget (st_traces st) i = Some v \<longrightarrow> tr_trace_id v = i \<and> trace_wf v)"

text \<open>Every link of an event resolves to a trace of the same tenant.\<close>

definition links_wf :: "evidence_store \<Rightarrow> bool" where
  "links_wf st \<longleftrightarrow>
     (\<forall>ten run i v t. dget (st_events st) (ten, run, i) = Some v \<and> e_trace_id v = Some t \<longrightarrow>
        (\<exists>tr. dget (st_traces st) t = Some tr \<and> tr_tenant_id tr = Some ten))"

definition store_wf :: "evidence_store \<Rightarrow> bool" where
  "store_wf st \<longleftrightarrow> sources_wf st \<and> runs_wf st \<and> turns_wf st \<and> events_wf st \<and> traces_wf st \<and>
     links_wf st"

lemmas store_wf_defs =
  store_wf_def sources_wf_def runs_wf_def turns_wf_def events_wf_def traces_wf_def links_wf_def

lemma store_wf_empty: "store_wf empty_store"
  by (simp add: store_wf_defs empty_store_def unique_by_def)

section \<open>Writing and deleting a trace\<close>

lemma dget_map_prod: "dget (map (map_prod id f) d) k = map_option f (dget d k)"
  using map_of_map [of f d] by (simp add: map_prod_def id_def fun_eq_iff)

lemma unique_by_map:
  assumes "unique_by idx ident d"
    and "\<And>k v. ident (f v) = ident v" and "\<And>k v. idx k (f v) = None \<or> idx k (f v) = idx k v"
  shows "unique_by idx ident (map (map_prod id f) d)"
  unfolding unique_by_def dget_map_prod
proof (intro allI impI, elim conjE)
  fix k v k' v'
  assume "map_option f (dget d k) = Some v" "map_option f (dget d k') = Some v'"
  then obtain u u' where u: "dget d k = Some u" "v = f u" "dget d k' = Some u'" "v' = f u'" by auto
  assume "idx k v \<noteq> None" "idx k v = idx k' v'"
  with u assms(3) have "idx k u = idx k' u'" "idx k u \<noteq> None" by metis+
  with u assms(1) have "ident u = ident u'" unfolding unique_by_def by blast
  with u show "ident v = ident v'" by (simp add: assms(2))
qed

text \<open>
  What the inputs of the source are: a dictionary has no key twice, a constructed trace is
  normalised, and the redaction of a dictionary is a dictionary (or a text).
\<close>

definition redactor_ok :: "redactor \<Rightarrow> bool" where
  "redactor_ok rd \<longleftrightarrow>
     (\<forall>kvs out. dwf kvs \<longrightarrow> rd_value rd (JDict kvs) = JDict out \<longrightarrow> dwf out)"

definition trace_built :: "trace \<Rightarrow> bool" where
  "trace_built t \<longleftrightarrow> normalize_scalars t = t \<and> dwf (tr_tags t)"

lemma sanitize_trace_built:
  assumes "redactor_ok rd" and "trace_built t"
  shows "trace_wf (populate_trace_analysis_fields (sanitize_trace rd t))"
proof -
  have "dwf (map (map_prod id JStr) (tr_tags t))"
    using assms(2) by (simp add: trace_built_def o_def)
  with assms(1) have "rd_value rd (JDict (map (map_prod id JStr) (tr_tags t))) = JDict out \<Longrightarrow>
      dwf out" for out
    unfolding redactor_ok_def by blast
  then have "dwf (sanitize_tags rd (tr_tags t))"
    by (auto simp: sanitize_tags_def Let_def o_def split: jval.split)
  moreover have "normalize_scalars (sanitize_trace rd t) = sanitize_trace rd t"
    using assms(2) by (simp add: trace_built_def normal_fields sanitize_trace_def)
  ultimately show ?thesis
    by (simp add: trace_wf_def trace_normal_def normalize_populate populate_idem)
      (simp add: sanitize_trace_def)
qed

lemma keep_request_facts_wf:
  assumes "trace_wf e" and "trace_wf t"
  shows "trace_wf (keep_request_facts e t)"
proof -
  have "normalize_scalars e = e" "normalize_scalars t = t"
    "populate_trace_analysis_fields e = e" "dwf (tr_tags e)"
    using assms by (simp_all add: trace_wf_def trace_normal_def)
  then have "normalize_scalars (keep_request_facts e t) = keep_request_facts e t"
    by (simp add: normal_fields keep_request_facts_def)
  moreover have "tr_analysis_started_at_us e = Some (tr_started_at e)"
    "tr_analysis_started_at_state e = ''valid''"
    "tr_raw_messages e = None \<Longrightarrow> tr_analysis_raw_messages_utf8_bytes e = None \<and>
       tr_analysis_raw_messages_state e = ''missing''"
    "\<And>ms. tr_raw_messages e = Some ms \<Longrightarrow>
       tr_analysis_raw_messages_utf8_bytes e = Some (length (json_dumps False (JList ms))) \<and>
       tr_analysis_raw_messages_state e =
         (if length (json_dumps False (JList ms)) \<le> max_analysis_raw_messages_bytes
          then ''valid'' else ''oversize'')"
    by (subst \<open>populate_trace_analysis_fields e = e\<close> [symmetric],
        simp add: populate_trace_analysis_fields_def Let_def split: option.split)+
  then have "populate_trace_analysis_fields (keep_request_facts e t) = keep_request_facts e t"
    by (simp add: populate_trace_analysis_fields_def keep_request_facts_def Let_def
      split: option.split)
  ultimately show ?thesis
    using \<open>dwf (tr_tags e)\<close> by (simp add: trace_wf_def trace_normal_def keep_request_facts_def)
qed

lemma insert_trace_table:
  assumes "insert_trace rd t st = Inr st'" and "traces_wf st" and "redactor_ok rd" and "trace_built t"
  shows "traces_wf st' \<and>
    (\<forall>i tr. dget (st_traces st) i = Some tr \<longrightarrow>
       (\<exists>tr'. dget (st_traces st') i = Some tr' \<and> tr_tenant_id tr' = tr_tenant_id tr)) \<and>
    st_sources st' = st_sources st \<and> st_runs st' = st_runs st \<and> st_turns st' = st_turns st \<and>
    st_events st' = st_events st"
proof -
  let ?t = "populate_trace_analysis_fields (sanitize_trace rd t)"
  have t: "trace_wf ?t" using assms by (intro sanitize_trace_built)
  obtain u where u: "st' = st\<lparr>st_traces := dset (tr_trace_id ?t) u (st_traces st)\<rparr>"
    "tr_trace_id u = tr_trace_id ?t" "trace_wf u"
    "\<And>e. dget (st_traces st) (tr_trace_id ?t) = Some e \<Longrightarrow> tr_tenant_id u = tr_tenant_id e"
  proof (cases "dget (st_traces st) (tr_trace_id ?t)")
    case None
    with assms(1) t that [of ?t] show ?thesis by (simp add: insert_trace_def Let_def)
  next
    case (Some e)
    with assms(2) have "trace_wf e" by (auto simp: traces_wf_def)
    with Some assms(1) t that [of "keep_request_facts e ?t"] keep_request_facts_wf [of e ?t]
    show ?thesis by (simp add: insert_trace_def Let_def keep_request_facts_def split: if_splits)
  qed
  then show ?thesis
    using assms(2) by (auto simp: traces_wf_def dict_simps)
qed

lemma insert_trace_wf:
  assumes "store_wf st" and "insert_trace rd t st = Inr st'" and "redactor_ok rd" and "trace_built t"
  shows "store_wf st'"
  using assms insert_trace_table [OF assms(2) _ assms(3,4)]
  by (auto simp: store_wf_def sources_wf_def runs_wf_def turns_wf_def events_wf_def links_wf_def)
    metis

lemma unlink_trace_simps:
  "e_event_id (unlink_trace i e) = e_event_id e" "e_turn_id (unlink_trace i e) = e_turn_id e"
  "e_sequence (unlink_trace i e) = e_sequence e"
  "e_attributes (unlink_trace i e) = e_attributes e"
  "e_trace_id (unlink_trace i e) = (if e_trace_id e = Some i then None else e_trace_id e)"
  "passes agent_event_checks e \<Longrightarrow> passes agent_event_checks (unlink_trace i e)"
  by (auto simp: unlink_trace_def passes_def agent_event_checks_def res_simps)

lemma delete_trace_wf: "store_wf st \<Longrightarrow> store_wf (delete_trace i st)"
proof -
  assume wf: "store_wf st"
  let ?st = "delete_trace i st"
  have tables: "st_sources ?st = st_sources st" "st_runs ?st = st_runs st"
    "st_turns ?st = st_turns st" "st_traces ?st = dpop i (st_traces st)"
    "st_events ?st = map (map_prod id (unlink_trace i)) (st_events st)"
    by (simp_all add: delete_trace_def Let_def)
  have "unique_by event_index e_event_id (st_events ?st)"
    "unique_by link_index e_event_id (st_events ?st)"
    using wf unfolding tables store_wf_def events_wf_def
    by (auto intro!: unique_by_map simp: unlink_trace_simps split: if_splits)
  moreover have "dwf (st_events ?st)"
    using wf by (simp add: tables store_wf_def events_wf_def o_def)
  ultimately have "events_wf ?st"
    using wf unfolding store_wf_def events_wf_def
    by (auto simp: tables dget_map_prod unlink_trace_simps)
  with wf show ?thesis
    by (auto simp: store_wf_def sources_wf_def runs_wf_def turns_wf_def traces_wf_def links_wf_def
      tables dget_map_prod unlink_trace_simps dict_simps split: if_splits)
qed

end
