(* ===== verification/Capture_Laws.thy ===== *)
theory Capture_Laws
  imports Store_Laws
begin

text \<open>
  Storing a capture keeps the invariant of the evidence store, loses nothing that was
  recorded, records everything the capture says, and is idempotent.
\<close>

section \<open>What reaches the store\<close>

text \<open>The capture as its constructors left it.\<close>

definition capture_built :: "agent_capture \<Rightarrow> bool" where
  "capture_built c \<longleftrightarrow> passes source_session_checks (c_session c) \<and>
     list_all (\<lambda>e. dwf (e_attributes e)) (c_events c)"

definition prepared_ok :: "agent_capture \<Rightarrow> trace list \<Rightarrow> string list \<Rightarrow> bool" where
  "prepared_ok c prepared ids \<longleftrightarrow> capture_valid c \<and> capture_built c \<and>
     list_all trace_wf prepared \<and> distinct (map tr_trace_id prepared) \<and>
     ids = event_links (c_events c) \<and> distinct ids \<and> tr_trace_id ` set prepared \<subseteq> set ids"

lemma secret_fields_dwf:
  "dwf s \<Longrightarrow> dwf (fold (\<lambda>field s. (case dget s field of
       None \<Rightarrow> s | Some v \<Rightarrow> dset field (rd_secret rd v) s)) fs s)"
proof (induction fs arbitrary: s)
  case (Cons f fs)
  then show ?case by (cases "dget s f") simp_all
qed simp

lemma sanitize_attributes_dwf:
  assumes "redactor_ok rd" and "dwf attrs"
  shows "dwf (sanitize_agent_event_attributes rd k attrs)"
proof (cases "rd_value rd (JDict attrs)")
  case (JDict out)
  with assms have "dwf out" unfolding redactor_ok_def by blast
  with JDict show ?thesis
    by (simp add: sanitize_agent_event_attributes_def secret_fields_dwf)
qed (simp_all add: sanitize_agent_event_attributes_def)

lemma list_all2_source: "list_all2 P xs ys \<Longrightarrow> y \<in> set ys \<Longrightarrow> \<exists>x \<in> set xs. P x y"
  by (metis in_set_conv_nth list_all2_conv_all_nth)

lemma prepare_agent_capture_ok:
  assumes "prepare_agent_capture rd cc c ts = Inr (c', prepared, ids)"
    and "cc = agent_capture_batch_checks \<or> cc = agent_run_bundle_checks"
    and "redactor_ok rd" and "capture_built c" and "list_all trace_built ts"
  shows "prepared_ok c' prepared ids"
proof -
  from assms(1) have s: "sanitize_agent_capture rd cc c = Inr c'"
    and l: "prepare_linked_traces rd (c_events c') ts = Inr (prepared, ids)"
    by (auto simp: prepare_agent_capture_def res_simps)
  have valid: "capture_valid c' \<and> c_session c' = c_session c"
    using sanitized_capture_valid [OF s assms(2)] .
  from s have ev: "list_all2 (\<lambda>x y. sanitize_event rd x = Inr y) (c_events c) (c_events c')"
    by (auto simp: sanitize_agent_capture_def res_simps)
  have event: "sanitize_event rd e = Inr e' \<Longrightarrow> dwf (e_attributes e) \<Longrightarrow> dwf (e_attributes e')" for e e'
    using sanitize_attributes_dwf [OF assms(3)] by (simp add: sanitize_event_def post_init_eq_Inr)
  have "list_all (\<lambda>e. dwf (e_attributes e)) (c_events c')"
    unfolding list_all_iff
  proof
    fix e' assume "e' \<in> set (c_events c')"
    then obtain e where "e \<in> set (c_events c)" "sanitize_event rd e = Inr e'"
      using list_all2_source [OF ev] by blast
    moreover have "dwf (e_attributes e)"
      using assms(4) \<open>e \<in> set (c_events c)\<close> unfolding capture_built_def list_all_iff by blast
    ultimately show "dwf (e_attributes e')" using event by blast
  qed
  moreover have "list_all trace_wf prepared"
  proof -
    from l obtain acc where "foldr_res (prepare_trace rd ids) ts [] = Inr prepared"
      by (auto simp: prepare_linked_traces_def Let_def res_simps)
    then have "prepared = map (\<lambda>t. populate_trace_analysis_fields (sanitize_trace rd t)) ts"
      using prepare_traces_ok by fastforce
    with assms(3,5) show ?thesis by (auto simp: list_all_iff intro: sanitize_trace_built)
  qed
  ultimately show ?thesis
    using valid assms(4) prepare_linked_traces_ok [OF l]
    unfolding prepared_ok_def capture_built_def by metis
qed

section \<open>The merged capture\<close>

lemma merge_capture_eq_Inr:
  "merge_capture st c traces = Inr m \<longleftrightarrow>
     list_all2 (\<lambda>t u. merge_stored_trace st t = Inr u) traces (mc_traces m) \<and>
     merge_source_session
       (dget (st_sources st) (r_tenant_id (c_run c), s_source_session_id (c_session c)))
       (c_session c) = Inr (mc_source m) \<and>
     merge_agent_run (dget (st_runs st) (r_tenant_id (c_run c), r_run_id (c_run c))) (c_run c) =
       Inr (mc_run m) \<and>
     list_all2 (\<lambda>t u. merge_stored_turn st (r_tenant_id (c_run c)) (r_run_id (mc_run m)) t = Inr u)
       (c_turns c) (mc_turns m) \<and>
     list_all2 (\<lambda>e u. merge_stored_event st (r_tenant_id (c_run c)) (r_run_id (mc_run m)) e = Inr u)
       (c_events c) (mc_events m)"
  by (cases m) (auto simp: merge_capture_def Let_def res_simps)

lemma merge_attributes_dwf: "merge_attributes b a xs = Inr m \<Longrightarrow> dwf a \<Longrightarrow> dwf m"
proof (induction xs arbitrary: a)
  case Nil
  then show ?case by simp
next
  case (Cons x xs)
  obtain k v where x: "x = (k, v)" by force
  from Cons.prems obtain a1 where a1: "merge_attribute b (k, v) a = Inr a1"
    "merge_attributes b a1 xs = Inr m" by (auto simp: merge_attributes_Cons x res_simps)
  from a1(1) Cons.prems have "dwf a1"
    by (auto simp: merge_attribute_def split: option.splits if_splits)
  with a1 Cons.IH show ?case by blast
qed

definition event_position :: "agent_event \<Rightarrow> string \<times> string \<times> int" where
  "event_position e = (e_event_id e, e_turn_id e, e_sequence e)"

lemma merge_agent_event_position:
  assumes "merge_agent_event s x = Inr m"
    and "\<And>c. s = Some c \<Longrightarrow> passes agent_event_checks c \<and> dwf (e_attributes c)"
    and "passes agent_event_checks x \<and> dwf (e_attributes x)"
  shows "event_position m = event_position x \<and> passes agent_event_checks m \<and>
    dwf (e_attributes m) \<and>
    (e_trace_id m = e_trace_id x \<or> (\<exists>c. s = Some c \<and> e_trace_id m = e_trace_id c \<and>
       e_event_id c = e_event_id x))"
proof (cases s)
  case None
  with assms show ?thesis by (simp add: merge_agent_event_def)
next
  case (Some c)
  with assms show ?thesis
    by (auto simp: merge_agent_event_def Let_def res_simps event_position_def
      split: if_splits dest: merge_attributes_dwf fill_optional_in)
qed

lemma merged_event:
  assumes "events_wf st" and "passes agent_event_checks e \<and> dwf (e_attributes e)"
    and "merge_stored_event st ten run e = Inr u"
  shows "event_position u = event_position e \<and> passes agent_event_checks u \<and>
    dwf (e_attributes u) \<and>
    (e_trace_id u = e_trace_id e \<or>
     (\<exists>c. dget (st_events st) (ten, run, e_event_id e) = Some c \<and> e_trace_id u = e_trace_id c))"
  using assms merge_agent_event_position
    [OF assms(3) [unfolded merge_stored_event_def] _ assms(2)]
  by (auto simp: events_wf_def)

lemma merged_turn:
  assumes "turns_wf st" and "passes agent_turn_checks t"
    and "merge_stored_turn st ten run t = Inr u"
  shows "turn_identity u = turn_identity t \<and> passes agent_turn_checks u"
  using assms turn_merge.merge_any_ok [OF assms(3) [unfolded merge_stored_turn_def]]
    turn_merge.merge_any_upper [OF assms(3) [unfolded merge_stored_turn_def]]
  by (auto simp: turns_wf_def)

lemma merged_run:
  assumes "runs_wf st" and "passes agent_run_checks r"
    and "merge_agent_run (dget (st_runs st) (ten, r_run_id r)) r = Inr u"
  shows "run_ident u = run_ident r \<and> passes agent_run_checks u"
  using assms run_merge.merge_any_ok [OF assms(3)] run_merge.merge_any_upper [OF assms(3)]
  by (auto simp: runs_wf_def)

lemma merged_source:
  assumes "sources_wf st" and "passes source_session_checks s"
    and "merge_source_session (dget (st_sources st) (ten, i)) s = Inr u"
  shows "session_ident u = session_ident s \<and> passes source_session_checks u"
  using assms session_merge.merge_any_ok [OF assms(3)] session_merge.merge_any_upper [OF assms(3)]
  by (auto simp: sources_wf_def)

lemma merged_trace_row:
  assumes "traces_wf st" and "trace_wf t" and "merge_stored_trace st t = Inr u"
  shows "tr_trace_id u = tr_trace_id t \<and> trace_wf u \<and>
    (\<forall>c. dget (st_traces st) (tr_trace_id t) = Some c \<longrightarrow> tr_tenant_id u = tr_tenant_id c)"
  using assms
  by (cases "dget (st_traces st) (tr_trace_id t)")
    (auto simp: merge_stored_trace_def merge_capture_trace_def [of _ None] traces_wf_def
      dest: merge_capture_trace_ident merge_capture_trace_wf)

lemma list_all2_rows:
  "list_all2 P xs ys \<Longrightarrow> (\<And>x y. x \<in> set xs \<Longrightarrow> P x y \<Longrightarrow> g y = f x \<and> Q y) \<Longrightarrow>
   map g ys = map f xs \<and> list_all Q ys"
  by (induction rule: list_all2_induct) auto

lemma list_all2_target: "list_all2 P xs ys \<Longrightarrow> x \<in> set xs \<Longrightarrow> \<exists>y \<in> set ys. P x y"
  by (metis in_set_conv_nth list_all2_conv_all_nth)

text \<open>The tables of a merged capture, in the terms of the capture.\<close>

lemma merged_capture_rows:
  assumes "merge_capture st c traces = Inr m" and "store_wf st" and "prepared_ok c traces ids"
  shows "r_run_id (mc_run m) = r_run_id (c_run c)"
    and "run_ident (mc_run m) = run_ident (c_run c)" and "passes agent_run_checks (mc_run m)"
    and "session_ident (mc_source m) = session_ident (c_session c)"
    and "passes source_session_checks (mc_source m)"
    and "map turn_identity (mc_turns m) = map turn_identity (c_turns c)"
    and "list_all (passes agent_turn_checks) (mc_turns m)"
    and "map event_position (mc_events m) = map event_position (c_events c)"
    and "list_all (\<lambda>e. passes agent_event_checks e \<and> dwf (e_attributes e)) (mc_events m)"
    and "map tr_trace_id (mc_traces m) = map tr_trace_id traces"
    and "list_all trace_wf (mc_traces m)"
proof -
  have wf: "sources_wf st" "runs_wf st" "turns_wf st" "events_wf st" "traces_wf st"
    using assms(2) by (simp_all add: store_wf_def)
  let ?ten = "r_tenant_id (c_run c)" and ?run = "r_run_id (mc_run m)"
  have tr: "list_all2 (\<lambda>t u. merge_stored_trace st t = Inr u) traces (mc_traces m)"
    and source: "merge_source_session
       (dget (st_sources st) (?ten, s_source_session_id (c_session c))) (c_session c) =
       Inr (mc_source m)"
    and run_row: "merge_agent_run (dget (st_runs st) (?ten, r_run_id (c_run c))) (c_run c) =
       Inr (mc_run m)"
    and turns: "list_all2 (\<lambda>t u. merge_stored_turn st ?ten ?run t = Inr u) (c_turns c) (mc_turns m)"
    and events: "list_all2 (\<lambda>e u. merge_stored_event st ?ten ?run e = Inr u)
       (c_events c) (mc_events m)"
    using assms(1) by (simp_all add: merge_capture_eq_Inr)
  have valid: "passes agent_run_checks (c_run c)" "passes source_session_checks (c_session c)"
    "\<And>t. t \<in> set (c_turns c) \<Longrightarrow> passes agent_turn_checks t"
    "\<And>e. e \<in> set (c_events c) \<Longrightarrow> passes agent_event_checks e \<and> dwf (e_attributes e)"
    "\<And>t. t \<in> set traces \<Longrightarrow> trace_wf t"
    using assms(3) by (auto simp: prepared_ok_def capture_valid_def capture_built_def list_all_iff)
  show run: "run_ident (mc_run m) = run_ident (c_run c)" "passes agent_run_checks (mc_run m)"
    using merged_run [OF wf(2) valid(1) run_row] by blast+
  then show "r_run_id (mc_run m) = r_run_id (c_run c)" by (simp add: run_ident_def)
  show "session_ident (mc_source m) = session_ident (c_session c)"
    "passes source_session_checks (mc_source m)"
    using merged_source [OF wf(1) valid(2) source] by blast+
  have "map turn_identity (mc_turns m) = map turn_identity (c_turns c) \<and>
      list_all (passes agent_turn_checks) (mc_turns m)"
    by (rule list_all2_rows [OF turns]) (blast dest: merged_turn [OF wf(3)] valid(3))
  then show "map turn_identity (mc_turns m) = map turn_identity (c_turns c)"
    "list_all (passes agent_turn_checks) (mc_turns m)" by blast+
  have "map event_position (mc_events m) = map event_position (c_events c) \<and>
      list_all (\<lambda>e. passes agent_event_checks e \<and> dwf (e_attributes e)) (mc_events m)"
    by (rule list_all2_rows [OF events]) (metis merged_event wf(4) valid(4))
  then show "map event_position (mc_events m) = map event_position (c_events c)"
    "list_all (\<lambda>e. passes agent_event_checks e \<and> dwf (e_attributes e)) (mc_events m)" by blast+
  have "map tr_trace_id (mc_traces m) = map tr_trace_id traces \<and> list_all trace_wf (mc_traces m)"
    by (rule list_all2_rows [OF tr]) (blast dest: merged_trace_row [OF wf(5)] valid(5))
  then show "map tr_trace_id (mc_traces m) = map tr_trace_id traces"
    "list_all trace_wf (mc_traces m)" by blast+
qed

section \<open>The checks enforce the unique indexes\<close>

lemma owner_check_unique:
  assumes "owner_in (\<lambda>k v. idx k v = Some i) ident own d = own"
    and "unique_by idx ident d" and "dwf d" and "dget d k = Some v" and "idx k v = Some i"
  shows "ident v = own"
  using assms(1,3) _ assms(4,5)
proof (rule owner_in_unique)
  show "ident v = ident v'" if "dget d k = Some v" "dget d k' = Some v'" "idx k v = Some i"
    "idx k' v' = Some i" for k v k' v'
    using assms(2) that unfolding unique_by_def by (metis option.distinct(1))
qed

lemma check_locator_iff:
  "check_locator st ten s = Inr () \<longleftrightarrow>
     owner_in (\<lambda>k v. locator_index k v = Some (ten, s_source_kind s, s_source_locator_hash s))
       s_source_session_id (s_source_session_id s) (st_sources st) = s_source_session_id s"
proof -
  have "(\<lambda>(scope, _) v. scope = ten \<and> s_source_kind v = s_source_kind s \<and>
      s_source_locator_hash v = s_source_locator_hash s) =
    (\<lambda>k v. locator_index k v = Some (ten, s_source_kind s, s_source_locator_hash s))"
    by (auto simp: fun_eq_iff)
  then show ?thesis by (simp add: check_locator_def)
qed

lemma check_turn_sequence_iff:
  "check_turn_sequence st ten run t = Inr () \<longleftrightarrow>
     owner_in (\<lambda>k v. turn_index k v = Some (ten, run, t_sequence t))
       t_turn_id (t_turn_id t) (st_turns st) = t_turn_id t"
proof -
  have "(\<lambda>(scope, owner, _) v. scope = ten \<and> owner = run \<and> t_sequence v = t_sequence t) =
    (\<lambda>k v. turn_index k v = Some (ten, run, t_sequence t))"
    by (auto simp: fun_eq_iff)
  then show ?thesis by (simp add: check_turn_sequence_def)
qed

definition event_owner ::
  "(item_key \<Rightarrow> agent_event \<Rightarrow> 'i option) \<Rightarrow> 'i \<Rightarrow> evidence_store \<Rightarrow> agent_event \<Rightarrow> bool" where
  "event_owner idx i st e \<longleftrightarrow>
     owner_in (\<lambda>k v. idx k v = Some i) e_event_id (e_event_id e) (st_events st) = e_event_id e"

lemma check_event_identity_iff:
  "check_event_identity st ten run e = Inr () \<longleftrightarrow>
     event_owner event_index (ten, run, e_turn_id e, e_sequence e) st e \<and>
     (\<forall>t. e_trace_id e = Some t \<longrightarrow> event_owner link_index (ten, t) st e) \<and>
     (\<forall>i. producer_index (ten, run, []) e = Some i \<longrightarrow> event_owner producer_index i st e)"
proof -
  have event: "(\<lambda>(scope, owner, _) v. scope = ten \<and> owner = run \<and> e_turn_id v = e_turn_id e \<and>
      e_sequence v = e_sequence e) =
    (\<lambda>k v. event_index k v = Some (ten, run, e_turn_id e, e_sequence e))"
    by (auto simp: fun_eq_iff)
  have link: "(\<lambda>(scope, owner, _) v. scope = ten \<and> e_trace_id v = Some t) =
    (\<lambda>k v. link_index k v = Some (ten, t))" for t
    by (auto simp: fun_eq_iff)
  have producer: "(\<lambda>(scope, owner, _) v. scope = ten \<and> owner = run \<and>
      e_producer_id v = e_producer_id e \<and> e_producer_sequence v = Some n) =
    (\<lambda>k v. producer_index k v = Some (ten, run, e_producer_id e, n))"
    if "e_producer_id e \<noteq> []" for n
    using that by (auto simp: fun_eq_iff)
  show ?thesis
    unfolding check_event_identity_def event_owner_def
    using event link producer
    by (cases "e_trace_id e"; cases "e_producer_sequence e"; cases "e_producer_id e = []")
      (simp_all add: checks_eq_Inr)
qed

lemma check_locator_unique:
  "check_locator st ten s = Inr () \<Longrightarrow> sources_wf st \<Longrightarrow> dget (st_sources st) k = Some v \<Longrightarrow>
   locator_index k v = Some (ten, s_source_kind s, s_source_locator_hash s) \<Longrightarrow>
   s_source_session_id v = s_source_session_id s"
  unfolding check_locator_iff sources_wf_def by (blast intro: owner_check_unique)

lemma check_turn_unique:
  "check_turn_sequence st ten run t = Inr () \<Longrightarrow> turns_wf st \<Longrightarrow> dget (st_turns st) k = Some v \<Longrightarrow>
   turn_index k v = Some (ten, run, t_sequence t) \<Longrightarrow> t_turn_id v = t_turn_id t"
  unfolding check_turn_sequence_iff turns_wf_def by (blast intro: owner_check_unique)

lemma check_event_unique:
  "check_event_identity st ten run e = Inr () \<Longrightarrow> events_wf st \<Longrightarrow>
   dget (st_events st) k = Some v \<Longrightarrow>
   event_index k v = Some (ten, run, e_turn_id e, e_sequence e) \<Longrightarrow> e_event_id v = e_event_id e"
  unfolding check_event_identity_iff event_owner_def events_wf_def
  by (blast intro: owner_check_unique)

lemma check_link_unique:
  "check_event_identity st ten run e = Inr () \<Longrightarrow> events_wf st \<Longrightarrow>
   dget (st_events st) k = Some v \<Longrightarrow> e_trace_id e = Some t \<Longrightarrow>
   link_index k v = Some (ten, t) \<Longrightarrow> e_event_id v = e_event_id e"
  unfolding check_event_identity_iff event_owner_def events_wf_def
  by (blast intro: owner_check_unique)

section \<open>Storing a capture keeps the invariant\<close>

lemma store_agent_capture_eq_Inr:
  "store_agent_capture c traces ids st = Inr st' \<longleftrightarrow>
     (\<exists>m. merge_capture st c traces = Inr m \<and>
        check_locator st (r_tenant_id (c_run c)) (mc_source m) = Inr () \<and>
        (\<forall>t \<in> set (mc_turns m).
           check_turn_sequence st (r_tenant_id (c_run c)) (r_run_id (mc_run m)) t = Inr ()) \<and>
        (\<forall>e \<in> set (mc_events m).
           check_event_identity st (r_tenant_id (c_run c)) (r_run_id (mc_run m)) e = Inr ()) \<and>
        (\<forall>i \<in> set ids. linked_tenant (mc_traces m) st i = Some (Some (r_tenant_id (c_run c)))) \<and>
        st' = write_merged (r_tenant_id (c_run c)) (s_source_session_id (c_session c)) m st)"
  by (auto simp: store_agent_capture_def check_merged_def Let_def res_simps list_all_iff
    require_same_tenant_linked_traces_def)

text \<open>A capture and its merge at one store, with every check passed.\<close>

definition accepted ::
  "evidence_store \<Rightarrow> agent_capture \<Rightarrow> trace list \<Rightarrow> string list \<Rightarrow> merged_capture \<Rightarrow> bool" where
  "accepted st c traces ids m \<longleftrightarrow> store_wf st \<and> prepared_ok c traces ids \<and>
     merge_capture st c traces = Inr m \<and>
     check_locator st (r_tenant_id (c_run c)) (mc_source m) = Inr () \<and>
     (\<forall>t \<in> set (mc_turns m).
        check_turn_sequence st (r_tenant_id (c_run c)) (r_run_id (c_run c)) t = Inr ()) \<and>
     (\<forall>e \<in> set (mc_events m).
        check_event_identity st (r_tenant_id (c_run c)) (r_run_id (c_run c)) e = Inr ()) \<and>
     (\<forall>i \<in> set ids. linked_tenant (mc_traces m) st i = Some (Some (r_tenant_id (c_run c))))"

lemma store_agent_capture_accepted:
  assumes "store_agent_capture c traces ids st = Inr st'" and "store_wf st"
    and "prepared_ok c traces ids"
  obtains m where "accepted st c traces ids m"
    and "st' = write_merged (r_tenant_id (c_run c)) (s_source_session_id (c_session c)) m st"
proof -
  from assms(1) obtain m where m: "merge_capture st c traces = Inr m"
    "check_locator st (r_tenant_id (c_run c)) (mc_source m) = Inr ()"
    "\<forall>t \<in> set (mc_turns m).
       check_turn_sequence st (r_tenant_id (c_run c)) (r_run_id (mc_run m)) t = Inr ()"
    "\<forall>e \<in> set (mc_events m).
       check_event_identity st (r_tenant_id (c_run c)) (r_run_id (mc_run m)) e = Inr ()"
    "\<forall>i \<in> set ids. linked_tenant (mc_traces m) st i = Some (Some (r_tenant_id (c_run c)))"
    "st' = write_merged (r_tenant_id (c_run c)) (s_source_session_id (c_session c)) m st"
    unfolding store_agent_capture_eq_Inr by blast
  have "r_run_id (mc_run m) = r_run_id (c_run c)"
    using merged_capture_rows(1) [OF m(1) assms(2,3)] .
  with m assms(2,3) that [of m] show ?thesis by (simp add: accepted_def)
qed

lemma map_factor:
  assumes "map h xs = map h ys" and "\<And>x. f x = g (h x)"
  shows "map f xs = map f ys"
proof -
  have "f = g \<circ> h" using assms(2) by (simp add: fun_eq_iff)
  with assms(1) show ?thesis by (metis list.map_comp)
qed

lemma accepted_rows:
  assumes "accepted st c traces ids m"
  shows "r_run_id (mc_run m) = r_run_id (c_run c)" and "r_tenant_id (mc_run m) = r_tenant_id (c_run c)"
    and "r_source_session_id (mc_run m) = s_source_session_id (c_session c)"
    and "passes agent_run_checks (mc_run m)"
    and "s_tenant_id (mc_source m) = r_tenant_id (c_run c)"
    and "s_source_session_id (mc_source m) = s_source_session_id (c_session c)"
    and "passes source_session_checks (mc_source m)"
    and "distinct (map t_turn_id (mc_turns m))" and "distinct (map t_sequence (mc_turns m))"
    and "t \<in> set (mc_turns m) \<Longrightarrow> t_run_id t = r_run_id (c_run c) \<and> passes agent_turn_checks t"
    and "distinct (map e_event_id (mc_events m))"
    and "distinct (map (\<lambda>e. (e_turn_id e, e_sequence e)) (mc_events m))"
    and "e \<in> set (mc_events m) \<Longrightarrow> passes agent_event_checks e \<and> dwf (e_attributes e) \<and>
      e_turn_id e \<in> t_turn_id ` set (mc_turns m)"
    and "distinct (map tr_trace_id (mc_traces m))" and "list_all trace_wf (mc_traces m)"
proof -
  have ok: "merge_capture st c traces = Inr m" "store_wf st" "prepared_ok c traces ids"
    using assms by (simp_all add: accepted_def)
  note r = merged_capture_rows [OF ok]
  have refs: "capture_refs_ok c" using ok(3) by (simp add: prepared_ok_def capture_valid_def)
  show "r_run_id (mc_run m) = r_run_id (c_run c)" by (rule r(1))
  show "r_tenant_id (mc_run m) = r_tenant_id (c_run c)"
    "r_source_session_id (mc_run m) = s_source_session_id (c_session c)"
    using r(2) refs by (simp_all add: run_ident_def capture_refs_ok_def)
  show "s_tenant_id (mc_source m) = r_tenant_id (c_run c)"
    "s_source_session_id (mc_source m) = s_source_session_id (c_session c)"
    using r(4) refs by (simp_all add: session_ident_def capture_refs_ok_def)
  show "passes agent_run_checks (mc_run m)" "passes source_session_checks (mc_source m)"
    "list_all trace_wf (mc_traces m)" using r by simp_all
  note turns = map_factor [OF r(6)]
  have ids: "map t_turn_id (mc_turns m) = map t_turn_id (c_turns c)"
    by (rule turns [where g = fst]) (simp add: turn_identity_def)
  show "distinct (map t_turn_id (mc_turns m))"
    using ids refs by (simp add: capture_refs_ok_def)
  have "map t_sequence (mc_turns m) = map t_sequence (c_turns c)"
    by (rule turns [where g = "\<lambda>(a, b, c, d). c"]) (simp add: turn_identity_def)
  with refs show "distinct (map t_sequence (mc_turns m))" by (simp add: capture_refs_ok_def)
  have "map t_run_id (mc_turns m) = map t_run_id (c_turns c)"
    by (rule turns [where g = "\<lambda>(a, b, c, d). b"]) (simp add: turn_identity_def)
  then have "t_run_id ` set (mc_turns m) = t_run_id ` set (c_turns c)" by (metis list.set_map)
  with refs show "t \<in> set (mc_turns m) \<Longrightarrow> t_run_id t = r_run_id (c_run c) \<and> passes agent_turn_checks t"
    using r(7) by (auto simp: capture_refs_ok_def list_all_iff)
  note events = map_factor [OF r(8)]
  have "map e_event_id (mc_events m) = map e_event_id (c_events c)"
    by (rule events [where g = fst]) (simp add: event_position_def)
  with refs show "distinct (map e_event_id (mc_events m))" by (simp add: capture_refs_ok_def)
  have "map (\<lambda>e. (e_turn_id e, e_sequence e)) (mc_events m) =
      map (\<lambda>e. (e_turn_id e, e_sequence e)) (c_events c)"
    by (rule events [where g = snd]) (simp add: event_position_def)
  with refs show "distinct (map (\<lambda>e. (e_turn_id e, e_sequence e)) (mc_events m))"
    by (simp add: capture_refs_ok_def)
  have "map e_turn_id (mc_events m) = map e_turn_id (c_events c)"
    by (rule events [where g = "\<lambda>(a, b, c). b"]) (simp add: event_position_def)
  then have "e_turn_id ` set (mc_events m) = e_turn_id ` set (c_events c)" by (metis list.set_map)
  moreover have "t_turn_id ` set (mc_turns m) = t_turn_id ` set (c_turns c)"
    using ids by (metis list.set_map)
  moreover have "e_turn_id ` set (c_events c) \<subseteq> t_turn_id ` set (c_turns c)"
    using refs unfolding capture_refs_ok_def by blast
  ultimately have "e_turn_id ` set (mc_events m) \<subseteq> t_turn_id ` set (mc_turns m)" by simp
  then show "e \<in> set (mc_events m) \<Longrightarrow> passes agent_event_checks e \<and> dwf (e_attributes e) \<and>
      e_turn_id e \<in> t_turn_id ` set (mc_turns m)"
    using r(9) unfolding list_all_iff by blast
  show "distinct (map tr_trace_id (mc_traces m))"
    using r(10) ok(3) by (simp add: prepared_ok_def)
qed

text \<open>The tables after the write.\<close>

lemma dset_as_dset_all: "dset k v d = dset_all (\<lambda>_. k) id [v] d"
  by simp

lemma written_tables:
  assumes "accepted st c traces ids m"
    and "st' = write_merged (r_tenant_id (c_run c)) (s_source_session_id (c_session c)) m st"
  shows "st_traces st' = dset_all tr_trace_id id (mc_traces m) (st_traces st)"
    and "st_sources st' = dset (r_tenant_id (c_run c), s_source_session_id (c_session c))
      (mc_source m) (st_sources st)"
    and "st_runs st' = dset (r_tenant_id (c_run c), r_run_id (c_run c)) (mc_run m) (st_runs st)"
    and "st_turns st' = dset_all (\<lambda>t. (r_tenant_id (c_run c), r_run_id (c_run c), t_turn_id t)) id
      (mc_turns m) (st_turns st)"
    and "st_events st' = dset_all (\<lambda>e. (r_tenant_id (c_run c), r_run_id (c_run c), e_event_id e)) id
      (mc_events m) (st_events st)"
  using assms(2) accepted_rows(1) [OF assms(1)] by (simp_all add: write_merged_def Let_def)

lemma distinct_keyed: "distinct (map f xs) \<Longrightarrow> distinct (map (\<lambda>x. (a, b, f x)) xs)"
  by (induction xs) auto

lemma written_sources_wf:
  assumes "accepted st c traces ids m"
    and "st' = write_merged (r_tenant_id (c_run c)) (s_source_session_id (c_session c)) m st"
  shows "sources_wf st'"
proof -
  note rows = accepted_rows [OF assms(1)]
  have wf: "sources_wf st" and check: "check_locator st (r_tenant_id (c_run c)) (mc_source m) = Inr ()"
    using assms(1) by (simp_all add: accepted_def store_wf_def)
  have "unique_by locator_index s_source_session_id (st_sources st')"
    unfolding written_tables [OF assms] dset_as_dset_all
  proof (rule unique_by_dset_all)
    fix x i k v
    assume "x \<in> set [mc_source m]" "locator_index (r_tenant_id (c_run c),
      s_source_session_id (c_session c)) x = Some i"
      and v: "dget (st_sources st) k = Some v" "locator_index k v = Some i"
    then have x: "x = mc_source m"
      "i = (r_tenant_id (c_run c), s_source_kind (mc_source m), s_source_locator_hash (mc_source m))"
      by auto
    with v check_locator_unique [OF check wf v(1)]
    show "s_source_session_id v = s_source_session_id x" by simp
  qed (use wf in \<open>auto simp: sources_wf_def\<close>)
  with wf rows show ?thesis
    by (auto simp: sources_wf_def written_tables [OF assms] dict_simps split: if_splits)
qed

lemma written_runs_wf:
  assumes "accepted st c traces ids m"
    and "st' = write_merged (r_tenant_id (c_run c)) (s_source_session_id (c_session c)) m st"
  shows "runs_wf st'"
  using accepted_rows [OF assms(1)] assms(1)
  by (auto simp: runs_wf_def accepted_def store_wf_def written_tables [OF assms] dict_simps
    split: if_splits)

lemma written_turns_wf:
  assumes "accepted st c traces ids m"
    and "st' = write_merged (r_tenant_id (c_run c)) (s_source_session_id (c_session c)) m st"
  shows "turns_wf st'"
proof -
  note rows = accepted_rows [OF assms(1)]
  have wf: "turns_wf st" and check: "\<forall>t \<in> set (mc_turns m).
      check_turn_sequence st (r_tenant_id (c_run c)) (r_run_id (c_run c)) t = Inr ()"
    using assms(1) by (simp_all add: accepted_def store_wf_def)
  note dist = distinct_keyed [OF rows(8), of "r_tenant_id (c_run c)" "r_run_id (c_run c)"]
  have "unique_by turn_index t_turn_id (st_turns st')"
    unfolding written_tables [OF assms]
  proof (rule unique_by_dset_all [OF _ dist])
    show "unique_by turn_index t_turn_id (st_turns st)" using wf by (simp add: turns_wf_def)
  next
    fix x i k v
    assume x: "x \<in> set (mc_turns m)"
      "turn_index (r_tenant_id (c_run c), r_run_id (c_run c), t_turn_id x) x = Some i"
      and v: "dget (st_turns st) k = Some v" "turn_index k v = Some i"
    with check_turn_unique [OF _ wf v(1)] check show "t_turn_id v = t_turn_id x" by auto
  next
    fix x y i
    assume "x \<in> set (mc_turns m)" "y \<in> set (mc_turns m)"
      "turn_index (r_tenant_id (c_run c), r_run_id (c_run c), t_turn_id x) x = Some i"
      "turn_index (r_tenant_id (c_run c), r_run_id (c_run c), t_turn_id y) y = Some i"
    with rows(9) show "t_turn_id x = t_turn_id y" by (auto simp: distinct_map dest: inj_onD)
  qed
  moreover have "t_run_id v = run \<and> t_turn_id v = i \<and> passes agent_turn_checks v \<and>
      dget (st_runs st') (ten, run) \<noteq> None"
    if "dget (st_turns st') (ten, run, i) = Some v" for ten run i v
    using that wf rows(10)
    unfolding written_tables [OF assms] dget_dset_all [OF dist]
    by (auto simp: turns_wf_def dict_simps)
  moreover have "dwf (st_turns st')"
    using wf by (simp add: written_tables [OF assms] turns_wf_def)
  ultimately show ?thesis unfolding turns_wf_def by blast
qed

lemma accepted_event_source:
  assumes "accepted st c traces ids m" and "u \<in> set (mc_events m)"
  shows "\<exists>e \<in> set (c_events c). e_event_id u = e_event_id e \<and>
    (e_trace_id u = e_trace_id e \<or>
     (\<exists>v. dget (st_events st) (r_tenant_id (c_run c), r_run_id (c_run c), e_event_id u) = Some v \<and>
        e_trace_id u = e_trace_id v))"
proof -
  have "list_all2 (\<lambda>e u. merge_stored_event st (r_tenant_id (c_run c)) (r_run_id (c_run c)) e = Inr u)
      (c_events c) (mc_events m)"
    using assms(1) accepted_rows(1) [OF assms(1)] by (simp add: accepted_def merge_capture_eq_Inr)
  from list_all2_source [OF this assms(2)] obtain e where e: "e \<in> set (c_events c)"
    "merge_stored_event st (r_tenant_id (c_run c)) (r_run_id (c_run c)) e = Inr u"
    by blast
  have "events_wf st" "passes agent_event_checks e \<and> dwf (e_attributes e)"
    using assms(1) e(1)
    by (auto simp: accepted_def store_wf_def prepared_ok_def capture_valid_def capture_built_def
      list_all_iff)
  from merged_event [OF this e(2)] have "e_event_id u = e_event_id e"
    "e_trace_id u = e_trace_id e \<or>
     (\<exists>v. dget (st_events st) (r_tenant_id (c_run c), r_run_id (c_run c), e_event_id e) = Some v \<and>
        e_trace_id u = e_trace_id v)"
    by (simp_all add: event_position_def)
  with e(1) show ?thesis by metis
qed

lemma written_events_wf:
  assumes "accepted st c traces ids m"
    and "st' = write_merged (r_tenant_id (c_run c)) (s_source_session_id (c_session c)) m st"
  shows "events_wf st'"
proof -
  let ?ten = "r_tenant_id (c_run c)" and ?run = "r_run_id (c_run c)"
  note rows = accepted_rows [OF assms(1)]
  have wf: "events_wf st" and check: "\<forall>e \<in> set (mc_events m).
      check_event_identity st ?ten ?run e = Inr ()" and links: "distinct (event_links (c_events c))"
    using assms(1) by (auto simp: accepted_def store_wf_def prepared_ok_def)
  note dist = distinct_keyed [OF rows(11), of "r_tenant_id (c_run c)" "r_run_id (c_run c)"]
  have event: "unique_by event_index e_event_id (st_events st')"
    unfolding written_tables [OF assms]
  proof (rule unique_by_dset_all [OF _ dist])
    show "unique_by event_index e_event_id (st_events st)" using wf by (simp add: events_wf_def)
  next
    fix x i k v
    assume x: "x \<in> set (mc_events m)" "event_index (?ten, ?run, e_event_id x) x = Some i"
      and v: "dget (st_events st) k = Some v" "event_index k v = Some i"
    with check_event_unique [OF _ wf v(1)] check show "e_event_id v = e_event_id x" by auto
  next
    fix x y i
    assume "x \<in> set (mc_events m)" "y \<in> set (mc_events m)"
      "event_index (?ten, ?run, e_event_id x) x = Some i"
      "event_index (?ten, ?run, e_event_id y) y = Some i"
    with rows(12) show "e_event_id x = e_event_id y" by (auto simp: distinct_map dest: inj_onD)
  qed
  have kept: "e_event_id x = e_event_id y" if "x \<in> set (mc_events m)" "y \<in> set (mc_events m)"
    "e_trace_id x = Some t" "e_trace_id y = Some t"
    "dget (st_events st) (?ten, ?run, e_event_id x) = Some v" "e_trace_id v = Some t" for x y t v
  proof -
    have "e_event_id v = e_event_id y"
      by (rule check_link_unique [OF _ wf that(5) that(4)]) (use check that(2,6) in auto)
    moreover have "e_event_id v = e_event_id x" using wf that(5) by (auto simp: events_wf_def)
    ultimately show ?thesis by simp
  qed
  have link: "unique_by link_index e_event_id (st_events st')"
    unfolding written_tables [OF assms]
  proof (rule unique_by_dset_all [OF _ dist])
    show "unique_by link_index e_event_id (st_events st)" using wf by (simp add: events_wf_def)
  next
    fix x i k v
    assume x: "x \<in> set (mc_events m)" "link_index (?ten, ?run, e_event_id x) x = Some i"
      and v: "dget (st_events st) k = Some v" "link_index k v = Some i"
    then obtain t where t: "e_trace_id x = Some t" "i = (?ten, t)" by auto
    show "e_event_id v = e_event_id x"
      by (rule check_link_unique [OF _ wf v(1) t(1)]) (use check x(1) v(2) t(2) in auto)
  next
    fix x y i
    assume xy: "x \<in> set (mc_events m)" "y \<in> set (mc_events m)"
      "link_index (?ten, ?run, e_event_id x) x = Some i"
      "link_index (?ten, ?run, e_event_id y) y = Some i"
    then obtain t where t: "e_trace_id x = Some t" "e_trace_id y = Some t" by auto
    from accepted_event_source [OF assms(1) xy(1)] accepted_event_source [OF assms(1) xy(2)]
    obtain a b where ab: "a \<in> set (c_events c)" "e_event_id x = e_event_id a"
      "e_trace_id x = e_trace_id a \<or> (\<exists>v. dget (st_events st) (?ten, ?run, e_event_id x) = Some v \<and>
        e_trace_id x = e_trace_id v)"
      "b \<in> set (c_events c)" "e_event_id y = e_event_id b"
      "e_trace_id y = e_trace_id b \<or> (\<exists>v. dget (st_events st) (?ten, ?run, e_event_id y) = Some v \<and>
        e_trace_id y = e_trace_id v)" by blast
    show "e_event_id x = e_event_id y"
    proof (cases "e_trace_id a = Some t \<and> e_trace_id b = Some t")
      case True
      with event_links_distinct [OF links ab(1,4)] have "a = b" by simp
      with ab show ?thesis by simp
    next
      case False
      with ab(3,6) t kept [OF xy(1,2)] kept [OF xy(2,1)] show ?thesis by metis
    qed
  qed
  have turns: "dget (st_turns st') (?ten, ?run, i) \<noteq> None" if "i \<in> t_turn_id ` set (mc_turns m)" for i
    using that distinct_keyed [OF rows(8), of ?ten ?run]
    by (auto simp: written_tables [OF assms] dget_dset_all)
  have old: "dget (st_turns st') k \<noteq> None" if "dget (st_turns st) k \<noteq> None" for k
  proof (cases "k \<in> (\<lambda>t. (?ten, ?run, t_turn_id t)) ` set (mc_turns m)")
    case True
    then show ?thesis using turns by auto
  next
    case False
    with that show ?thesis by (simp add: written_tables [OF assms] dget_dset_all_notin)
  qed
  have "e_event_id v = i \<and> passes agent_event_checks v \<and> dwf (e_attributes v) \<and>
      dget (st_turns st') (ten, run, e_turn_id v) \<noteq> None"
    if "dget (st_events st') (ten, run, i) = Some v" for ten run i v
    using that wf rows(13) turns old
    unfolding written_tables(5) [OF assms] dget_dset_all [OF dist]
    by (auto simp: events_wf_def)
  moreover have "dwf (st_events st')"
    using wf by (simp add: written_tables [OF assms] events_wf_def)
  ultimately show ?thesis using event link unfolding events_wf_def by blast
qed

lemma accepted_trace_source:
  assumes "accepted st c traces ids m" and "u \<in> set (mc_traces m)"
    and "dget (st_traces st) (tr_trace_id u) = Some v"
  shows "tr_tenant_id u = tr_tenant_id v"
proof -
  have "list_all2 (\<lambda>t u. merge_stored_trace st t = Inr u) traces (mc_traces m)"
    using assms(1) by (simp add: accepted_def merge_capture_eq_Inr)
  from list_all2_source [OF this assms(2)] obtain t where
    t: "t \<in> set traces" "merge_stored_trace st t = Inr u"
    by blast
  have "traces_wf st" "trace_wf t"
    using assms(1) t(1) by (auto simp: accepted_def store_wf_def prepared_ok_def list_all_iff)
  with merged_trace_row [OF _ _ t(2)] assms(3) show ?thesis by metis
qed

lemma written_traces_wf:
  assumes "accepted st c traces ids m"
    and "st' = write_merged (r_tenant_id (c_run c)) (s_source_session_id (c_session c)) m st"
  shows "traces_wf st'"
proof -
  have wf: "traces_wf st" using assms(1) by (simp add: accepted_def store_wf_def)
  note rows = accepted_rows(14,15) [OF assms(1)]
  have "tr_trace_id v = i \<and> trace_wf v" if "dget (st_traces st') i = Some v" for i v
    using that wf rows(2)
    unfolding written_tables(1) [OF assms] dget_dset_all [OF rows(1)]
    by (auto simp: traces_wf_def list_all_iff)
  moreover have "dwf (st_traces st')"
    using wf by (simp add: written_tables(1) [OF assms] traces_wf_def)
  ultimately show ?thesis unfolding traces_wf_def by blast
qed

lemma written_trace_kept:
  assumes "accepted st c traces ids m"
    and "st' = write_merged (r_tenant_id (c_run c)) (s_source_session_id (c_session c)) m st"
    and "dget (st_traces st) t = Some tr"
  shows "\<exists>tr'. dget (st_traces st') t = Some tr' \<and> tr_tenant_id tr' = tr_tenant_id tr"
proof (cases "t \<in> tr_trace_id ` set (mc_traces m)")
  case True
  then obtain u where u: "u \<in> set (mc_traces m)" "t = tr_trace_id u" by auto
  with accepted_trace_source [OF assms(1)] assms(3) have "tr_tenant_id u = tr_tenant_id tr" by simp
  with u show ?thesis
    using accepted_rows(14) [OF assms(1)] dget_dset_all_in [of tr_trace_id "mc_traces m" u id]
    by (simp add: written_tables [OF assms(1,2)])
next
  case False
  with assms(3) show ?thesis by (simp add: written_tables [OF assms(1,2)] dget_dset_all_notin)
qed

lemma written_link_resolves:
  assumes "accepted st c traces ids m"
    and "st' = write_merged (r_tenant_id (c_run c)) (s_source_session_id (c_session c)) m st"
    and "t \<in> set ids"
  shows "\<exists>tr. dget (st_traces st') t = Some tr \<and> tr_tenant_id tr = Some (r_tenant_id (c_run c))"
proof -
  have l: "linked_tenant (mc_traces m) st t = Some (Some (r_tenant_id (c_run c)))"
    using assms(1,3) by (simp add: accepted_def)
  show ?thesis
  proof (cases "List.find (\<lambda>u. tr_trace_id u = t) (mc_traces m)")
    case (Some u)
    with l have "u \<in> set (mc_traces m)" "tr_trace_id u = t"
      "tr_tenant_id u = Some (r_tenant_id (c_run c))"
      by (auto simp: linked_tenant_def dest: find_Some_set)
    then show ?thesis
      using accepted_rows(14) [OF assms(1)] dget_dset_all_in [of tr_trace_id "mc_traces m" u id]
      by (auto simp: written_tables [OF assms(1,2)])
  next
    case None
    with l obtain tr where "dget (st_traces st) t = Some tr"
      "tr_tenant_id tr = Some (r_tenant_id (c_run c))"
      by (auto simp: linked_tenant_def)
    then show ?thesis using written_trace_kept [OF assms(1,2)] by metis
  qed
qed

lemma written_links_wf:
  assumes "accepted st c traces ids m"
    and "st' = write_merged (r_tenant_id (c_run c)) (s_source_session_id (c_session c)) m st"
  shows "links_wf st'"
  unfolding links_wf_def
proof (intro allI impI, elim conjE)
  let ?ten = "r_tenant_id (c_run c)" and ?run = "r_run_id (c_run c)"
  fix ten run i v t
  assume v: "dget (st_events st') (ten, run, i) = Some v" "e_trace_id v = Some t"
  have wf: "links_wf st" "ids = event_links (c_events c)"
    using assms(1) by (simp_all add: accepted_def store_wf_def prepared_ok_def)
  have stored: "\<exists>tr. dget (st_traces st') t = Some tr \<and> tr_tenant_id tr = Some ten'"
    if "dget (st_events st) (ten', run', i') = Some w" "e_trace_id w = Some t" for ten' run' i' w
    using wf(1) that written_trace_kept [OF assms] unfolding links_wf_def by metis
  note dist = distinct_keyed [OF accepted_rows(11) [OF assms(1)], of ?ten ?run]
  from v(1) [unfolded written_tables(5) [OF assms] dget_dset_all [OF dist]]
  show "\<exists>tr. dget (st_traces st') t = Some tr \<and> tr_tenant_id tr = Some ten"
  proof
    assume "\<exists>x \<in> set (mc_events m). (?ten, ?run, e_event_id x) = (ten, run, i) \<and> v = id x"
    then have x: "v \<in> set (mc_events m)" "ten = ?ten" by auto
    from accepted_event_source [OF assms(1) x(1)] v(2)
    have "t \<in> set ids \<or> (\<exists>w. dget (st_events st) (?ten, ?run, e_event_id v) = Some w \<and>
        e_trace_id w = Some t)"
      unfolding wf(2) event_links_in by metis
    with stored written_link_resolves [OF assms] x(2) show ?thesis by blast
  next
    assume "(ten, run, i) \<notin> (\<lambda>e. (?ten, ?run, e_event_id e)) ` set (mc_events m) \<and>
      dget (st_events st) (ten, run, i) = Some v"
    with stored v(2) show ?thesis by blast
  qed
qed

lemma store_agent_capture_wf:
  assumes "store_agent_capture c traces ids st = Inr st'" and "store_wf st"
    and "prepared_ok c traces ids"
  shows "store_wf st'"
proof -
  obtain m where m: "accepted st c traces ids m"
    "st' = write_merged (r_tenant_id (c_run c)) (s_source_session_id (c_session c)) m st"
    using store_agent_capture_accepted [OF assms] by blast
  show ?thesis
    unfolding store_wf_def
    using written_sources_wf [OF m] written_runs_wf [OF m] written_turns_wf [OF m]
      written_events_wf [OF m] written_traces_wf [OF m] written_links_wf [OF m] by blast
qed

end
