(* ===== verification/Capture_Delivery.thy ===== *)
theory Capture_Delivery
  imports Capture_Laws
begin

text \<open>
  Delivering captures to the evidence store: nothing recorded is lost, everything a capture
  says is recorded, a repeated delivery changes nothing, and one tenant's captures do not
  touch another's evidence.
\<close>

section \<open>Nothing is lost\<close>

definition marker_event :: "agent_event \<Rightarrow> bool" where
  "marker_event e \<longleftrightarrow> e_provenance e = ''verdict:capture_limit''"

text \<open>Every row of a table is in the other table, with more information.\<close>

definition table_le :: "('v \<Rightarrow> 'v \<Rightarrow> bool) \<Rightarrow> ('k, 'v) dict \<Rightarrow> ('k, 'v) dict \<Rightarrow> bool" where
  "table_le le a b \<longleftrightarrow> (\<forall>k v. dget a k = Some v \<longrightarrow> (\<exists>w. dget b k = Some w \<and> le v w))"

definition event_kept :: "agent_event \<Rightarrow> agent_event \<Rightarrow> bool" where
  "event_kept a b \<longleftrightarrow> event_position a = event_position b \<and> (\<not> marker_event a \<longrightarrow> event_le a b)"

definition store_le :: "evidence_store \<Rightarrow> evidence_store \<Rightarrow> bool" where
  "store_le a b \<longleftrightarrow>
     table_le session_le (st_sources a) (st_sources b) \<and>
     table_le run_le (st_runs a) (st_runs b) \<and>
     table_le turn_le (st_turns a) (st_turns b) \<and>
     table_le event_kept (st_events a) (st_events b)"

text \<open>The capture is in the store: each of its records, with at least its information.\<close>

definition recorded :: "agent_capture \<Rightarrow> evidence_store \<Rightarrow> bool" where
  "recorded c st \<longleftrightarrow>
     (let ten = r_tenant_id (c_run c); run = r_run_id (c_run c) in
      (\<exists>s. dget (st_sources st) (ten, s_source_session_id (c_session c)) = Some s \<and>
         session_le (c_session c) s) \<and>
      (\<exists>r. dget (st_runs st) (ten, run) = Some r \<and> run_le (c_run c) r) \<and>
      (\<forall>t \<in> set (c_turns c). \<exists>u. dget (st_turns st) (ten, run, t_turn_id t) = Some u \<and> turn_le t u) \<and>
      (\<forall>e \<in> set (c_events c). \<exists>u. dget (st_events st) (ten, run, e_event_id e) = Some u \<and>
         event_kept e u))"

lemma event_kept_refl: "event_kept e e"
  by (simp add: event_kept_def event_le_refl)

lemma merge_agent_event_kept:
  assumes "merge_agent_event s x = Inr u" and "passes agent_event_checks x \<and> dwf (e_attributes x)"
    and "\<And>v. s = Some v \<Longrightarrow> passes agent_event_checks v \<and> dwf (e_attributes v)"
  shows "event_kept x u \<and> (\<forall>v. s = Some v \<longrightarrow> event_kept v u)"
proof (cases s)
  case None
  with assms(1) show ?thesis by (simp add: merge_agent_event_def event_kept_refl)
next
  case (Some v)
  have same: "event_position v = event_position x" "e_provenance v = e_provenance x"
    "event_position u = event_position x"
    using assms(1) Some
    by (auto simp: merge_agent_event_def Let_def res_simps event_position_def split: if_splits)
  have "event_le v u \<and> event_le x u" if "\<not> marker_event x"
    using assms Some same(2) that merge_agent_event_upper [of v x u]
    by (simp add: plain_event_def marker_event_def)
  with same Some show ?thesis by (simp add: event_kept_def marker_event_def)
qed

lemma table_le_dset_all:
  assumes "\<And>v. le v v" and "distinct (map key xs)"
    and "\<And>x v. x \<in> set xs \<Longrightarrow> dget d (key x) = Some v \<Longrightarrow> le v x"
  shows "table_le le d (dset_all key id xs d)"
  unfolding table_le_def
proof (intro allI impI)
  fix k v assume v: "dget d k = Some v"
  show "\<exists>w. dget (dset_all key id xs d) k = Some w \<and> le v w"
  proof (cases "k \<in> key ` set xs")
    case True
    then obtain x where x: "x \<in> set xs" "k = key x" by auto
    then have "dget (dset_all key id xs d) k = Some x"
      using dget_dset_all_in [OF assms(2) x(1), of id d] by simp
    with x v assms(3) show ?thesis by blast
  next
    case False
    with v assms(1) show ?thesis by (auto simp: dget_dset_all_notin)
  qed
qed

text \<open>The rows of a merge, each with what it came from.\<close>

lemma accepted_merges:
  assumes "accepted st c traces ids m"
  shows "merge_source_session
      (dget (st_sources st) (r_tenant_id (c_run c), s_source_session_id (c_session c)))
      (c_session c) = Inr (mc_source m)"
    and "merge_agent_run (dget (st_runs st) (r_tenant_id (c_run c), r_run_id (c_run c))) (c_run c) =
      Inr (mc_run m)"
    and "list_all2 (\<lambda>t u. t \<in> set (c_turns c) \<and> u \<in> set (mc_turns m) \<and> t_turn_id u = t_turn_id t \<and>
        merge_agent_turn default_options
          (dget (st_turns st) (r_tenant_id (c_run c), r_run_id (c_run c), t_turn_id t)) t = Inr u)
      (c_turns c) (mc_turns m)"
    and "list_all2 (\<lambda>e u. e \<in> set (c_events c) \<and> u \<in> set (mc_events m) \<and>
        e_event_id u = e_event_id e \<and>
        merge_agent_event
          (dget (st_events st) (r_tenant_id (c_run c), r_run_id (c_run c), e_event_id e)) e = Inr u)
      (c_events c) (mc_events m)"
    and "list_all2 (\<lambda>t u. t \<in> set traces \<and> u \<in> set (mc_traces m) \<and> tr_trace_id u = tr_trace_id t \<and>
        merge_capture_trace default_options (dget (st_traces st) (tr_trace_id t)) t = Inr u)
      traces (mc_traces m)"
proof -
  have wf: "turns_wf st" "events_wf st" "traces_wf st"
    and ok: "\<And>t. t \<in> set (c_turns c) \<Longrightarrow> passes agent_turn_checks t"
    "\<And>e. e \<in> set (c_events c) \<Longrightarrow> passes agent_event_checks e \<and> dwf (e_attributes e)"
    "\<And>t. t \<in> set traces \<Longrightarrow> trace_wf t"
    using assms by (auto simp: accepted_def store_wf_def prepared_ok_def capture_valid_def
      capture_built_def list_all_iff)
  let ?ten = "r_tenant_id (c_run c)" and ?run = "r_run_id (c_run c)"
  have m: "merge_source_session
      (dget (st_sources st) (?ten, s_source_session_id (c_session c))) (c_session c) =
      Inr (mc_source m)"
    "merge_agent_run (dget (st_runs st) (?ten, ?run)) (c_run c) = Inr (mc_run m)"
    and turns: "list_all2 (\<lambda>t u. merge_stored_turn st ?ten ?run t = Inr u) (c_turns c) (mc_turns m)"
    and events: "list_all2 (\<lambda>e u. merge_stored_event st ?ten ?run e = Inr u) (c_events c) (mc_events m)"
    and links: "list_all2 (\<lambda>t u. merge_stored_trace st t = Inr u) traces (mc_traces m)"
    using assms accepted_rows(1) [OF assms] by (simp_all add: accepted_def merge_capture_eq_Inr)
  show "merge_source_session
      (dget (st_sources st) (?ten, s_source_session_id (c_session c))) (c_session c) =
      Inr (mc_source m)"
    "merge_agent_run (dget (st_runs st) (?ten, ?run)) (c_run c) = Inr (mc_run m)" by (rule m)+
  show "list_all2 (\<lambda>t u. t \<in> set (c_turns c) \<and> u \<in> set (mc_turns m) \<and> t_turn_id u = t_turn_id t \<and>
        merge_agent_turn default_options (dget (st_turns st) (?ten, ?run, t_turn_id t)) t = Inr u)
      (c_turns c) (mc_turns m)"
  proof (rule list.rel_mono_strong [OF turns], intro conjI)
    fix t u assume "t \<in> set (c_turns c)" "merge_stored_turn st ?ten ?run t = Inr u"
    then show "t_turn_id u = t_turn_id t"
      "merge_agent_turn default_options (dget (st_turns st) (?ten, ?run, t_turn_id t)) t = Inr u"
      using merged_turn [OF wf(1) ok(1)] unfolding merge_stored_turn_def turn_identity_def by blast+
  qed
  show "list_all2 (\<lambda>e u. e \<in> set (c_events c) \<and> u \<in> set (mc_events m) \<and>
        e_event_id u = e_event_id e \<and>
        merge_agent_event (dget (st_events st) (?ten, ?run, e_event_id e)) e = Inr u)
      (c_events c) (mc_events m)"
  proof (rule list.rel_mono_strong [OF events], intro conjI)
    fix e u assume "e \<in> set (c_events c)" "merge_stored_event st ?ten ?run e = Inr u"
    then show "e_event_id u = e_event_id e"
      "merge_agent_event (dget (st_events st) (?ten, ?run, e_event_id e)) e = Inr u"
      using merged_event [OF wf(2) ok(2)] unfolding merge_stored_event_def event_position_def
      by blast+
  qed
  show "list_all2 (\<lambda>t u. t \<in> set traces \<and> u \<in> set (mc_traces m) \<and> tr_trace_id u = tr_trace_id t \<and>
        merge_capture_trace default_options (dget (st_traces st) (tr_trace_id t)) t = Inr u)
      traces (mc_traces m)"
  proof (rule list.rel_mono_strong [OF links], intro conjI)
    fix t u assume "t \<in> set traces" "merge_stored_trace st t = Inr u"
    then show "tr_trace_id u = tr_trace_id t"
      "merge_capture_trace default_options (dget (st_traces st) (tr_trace_id t)) t = Inr u"
      using merged_trace_row [OF wf(3) ok(3)] unfolding merge_stored_trace_def by blast+
  qed
qed

lemma written_row:
  assumes "accepted st c traces ids m"
    and "st' = write_merged (r_tenant_id (c_run c)) (s_source_session_id (c_session c)) m st"
  shows "t \<in> set (mc_turns m) \<Longrightarrow>
      dget (st_turns st') (r_tenant_id (c_run c), r_run_id (c_run c), t_turn_id t) = Some t"
    and "e \<in> set (mc_events m) \<Longrightarrow>
      dget (st_events st') (r_tenant_id (c_run c), r_run_id (c_run c), e_event_id e) = Some e"
    and "u \<in> set (mc_traces m) \<Longrightarrow> dget (st_traces st') (tr_trace_id u) = Some u"
proof -
  let ?ten = "r_tenant_id (c_run c)" and ?run = "r_run_id (c_run c)"
  note rows = accepted_rows [OF assms(1)]
  show "t \<in> set (mc_turns m) \<Longrightarrow> dget (st_turns st') (?ten, ?run, t_turn_id t) = Some t"
    using dget_dset_all_in [OF distinct_keyed [OF rows(8)], of t ?ten ?run id]
    by (simp add: written_tables [OF assms])
  show "e \<in> set (mc_events m) \<Longrightarrow> dget (st_events st') (?ten, ?run, e_event_id e) = Some e"
    using dget_dset_all_in [OF distinct_keyed [OF rows(11)], of e ?ten ?run id]
    by (simp add: written_tables [OF assms])
  show "u \<in> set (mc_traces m) \<Longrightarrow> dget (st_traces st') (tr_trace_id u) = Some u"
    using dget_dset_all_in [OF rows(14), of u id] by (simp add: written_tables [OF assms])
qed

lemma accepted_turn_row:
  assumes "accepted st c traces ids m" and "u \<in> set (mc_turns m)"
  shows "\<exists>t \<in> set (c_turns c). t_turn_id u = t_turn_id t \<and>
    merge_agent_turn default_options
      (dget (st_turns st) (r_tenant_id (c_run c), r_run_id (c_run c), t_turn_id t)) t = Inr u"
  using list_all2_source [OF accepted_merges(3) [OF assms(1)] assms(2)] by blast

lemma accepted_event_row:
  assumes "accepted st c traces ids m" and "u \<in> set (mc_events m)"
  shows "\<exists>e \<in> set (c_events c). e_event_id u = e_event_id e \<and>
    merge_agent_event
      (dget (st_events st) (r_tenant_id (c_run c), r_run_id (c_run c), e_event_id e)) e = Inr u"
  using list_all2_source [OF accepted_merges(4) [OF assms(1)] assms(2)] by blast

lemma accepted_valid:
  assumes "accepted st c traces ids m"
  shows "sources_wf st" and "runs_wf st" and "turns_wf st" and "events_wf st" and "traces_wf st"
    and "passes source_session_checks (c_session c)" and "passes agent_run_checks (c_run c)"
    and "t \<in> set (c_turns c) \<Longrightarrow> passes agent_turn_checks t"
    and "e \<in> set (c_events c) \<Longrightarrow> passes agent_event_checks e \<and> dwf (e_attributes e)"
    and "u \<in> set traces \<Longrightarrow> trace_wf u"
  using assms
  by (auto simp: accepted_def store_wf_def prepared_ok_def capture_valid_def capture_built_def
    list_all_iff)

lemma turn_merge_le:
  assumes "merge_agent_turn default_options (dget (st_turns st) k) t = Inr u" and "turns_wf st"
    and "passes agent_turn_checks t"
  shows "turn_le t u \<and> (\<forall>v. dget (st_turns st) k = Some v \<longrightarrow> turn_le v u)"
proof -
  have "passes agent_turn_checks v" if "dget (st_turns st) k = Some v" for v
    using assms(2) that by (cases k) (auto simp: turns_wf_def)
  then show ?thesis using turn_merge.merge_any_upper [OF assms(1) _ assms(3)] by blast
qed

lemma event_merge_le:
  assumes "merge_agent_event (dget (st_events st) k) e = Inr u" and "events_wf st"
    and "passes agent_event_checks e \<and> dwf (e_attributes e)"
  shows "event_kept e u \<and> (\<forall>v. dget (st_events st) k = Some v \<longrightarrow> event_kept v u)"
proof (rule merge_agent_event_kept [OF assms(1,3)])
  fix v assume "dget (st_events st) k = Some v"
  with assms(2) show "passes agent_event_checks v \<and> dwf (e_attributes v)"
    by (cases k) (auto simp: events_wf_def)
qed

lemma store_agent_capture_keeps:
  assumes "store_agent_capture c traces ids st = Inr st'" and "store_wf st"
    and "prepared_ok c traces ids"
  shows "store_le st st'"
proof -
  let ?ten = "r_tenant_id (c_run c)" and ?run = "r_run_id (c_run c)"
  obtain m where m: "accepted st c traces ids m"
    "st' = write_merged ?ten (s_source_session_id (c_session c)) m st"
    using store_agent_capture_accepted [OF assms] by blast
  note rows = accepted_rows [OF m(1)] and valid = accepted_valid [OF m(1)]
  have "session_le v (mc_source m)"
    if "dget (st_sources st) (?ten, s_source_session_id (c_session c)) = Some v" for v
    using session_merge.merge_any_upper [OF accepted_merges(1) [OF m(1)]] valid(1,6) that
    by (auto simp: sources_wf_def)
  then have sources: "table_le session_le (st_sources st) (st_sources st')"
    unfolding written_tables(2) [OF m] dset_as_dset_all
    by (intro table_le_dset_all) (auto simp: session_merge.le_refl)
  have "run_le v (mc_run m)" if "dget (st_runs st) (?ten, ?run) = Some v" for v
    using run_merge.merge_any_upper [OF accepted_merges(2) [OF m(1)]] valid(2,7) that
    by (auto simp: runs_wf_def)
  then have runs: "table_le run_le (st_runs st) (st_runs st')"
    unfolding written_tables(3) [OF m] dset_as_dset_all
    by (intro table_le_dset_all) (auto simp: run_le_refl)
  have turns: "table_le turn_le (st_turns st) (st_turns st')"
    unfolding written_tables(4) [OF m]
  proof (rule table_le_dset_all [OF turn_le_refl distinct_keyed [OF rows(8)]])
    fix u v assume uv: "u \<in> set (mc_turns m)" "dget (st_turns st) (?ten, ?run, t_turn_id u) = Some v"
    from accepted_turn_row [OF m(1) uv(1)] obtain t where "t \<in> set (c_turns c)"
      "t_turn_id u = t_turn_id t"
      "merge_agent_turn default_options (dget (st_turns st) (?ten, ?run, t_turn_id t)) t = Inr u"
      by blast
    with turn_merge_le [OF _ valid(3,8)] uv(2) show "turn_le v u" by metis
  qed
  have events: "table_le event_kept (st_events st) (st_events st')"
    unfolding written_tables(5) [OF m]
  proof (rule table_le_dset_all [OF event_kept_refl distinct_keyed [OF rows(11)]])
    fix u v assume uv: "u \<in> set (mc_events m)" "dget (st_events st) (?ten, ?run, e_event_id u) = Some v"
    from accepted_event_row [OF m(1) uv(1)] obtain e where "e \<in> set (c_events c)"
      "e_event_id u = e_event_id e"
      "merge_agent_event (dget (st_events st) (?ten, ?run, e_event_id e)) e = Inr u"
      by blast
    with event_merge_le [OF _ valid(4,9)] uv(2) show "event_kept v u" by metis
  qed
  from sources runs turns events show ?thesis by (simp add: store_le_def)
qed

lemma store_agent_capture_records:
  assumes "store_agent_capture c traces ids st = Inr st'" and "store_wf st"
    and "prepared_ok c traces ids"
  shows "recorded c st'"
proof -
  let ?ten = "r_tenant_id (c_run c)" and ?run = "r_run_id (c_run c)"
  obtain m where m: "accepted st c traces ids m"
    "st' = write_merged ?ten (s_source_session_id (c_session c)) m st"
    using store_agent_capture_accepted [OF assms] by blast
  note valid = accepted_valid [OF m(1)]
  have "session_le (c_session c) (mc_source m)"
    using session_merge.merge_any_upper [OF accepted_merges(1) [OF m(1)]] valid(1,6)
    by (auto simp: sources_wf_def)
  moreover have "run_le (c_run c) (mc_run m)"
    using run_merge.merge_any_upper [OF accepted_merges(2) [OF m(1)]] valid(2,7)
    by (auto simp: runs_wf_def)
  moreover have "\<exists>u. dget (st_turns st') (?ten, ?run, t_turn_id t) = Some u \<and> turn_le t u"
    if t: "t \<in> set (c_turns c)" for t
  proof -
    from list_all2_target [OF accepted_merges(3) [OF m(1)] t] obtain u where u: "u \<in> set (mc_turns m)"
      "t_turn_id u = t_turn_id t"
      "merge_agent_turn default_options (dget (st_turns st) (?ten, ?run, t_turn_id t)) t = Inr u"
      by blast
    with written_row(1) [OF m u(1)] turn_merge_le [OF u(3) valid(3) valid(8) [OF t]] show ?thesis
      by auto
  qed
  moreover have "\<exists>u. dget (st_events st') (?ten, ?run, e_event_id e) = Some u \<and> event_kept e u"
    if e: "e \<in> set (c_events c)" for e
  proof -
    from list_all2_target [OF accepted_merges(4) [OF m(1)] e] obtain u where u: "u \<in> set (mc_events m)"
      "e_event_id u = e_event_id e"
      "merge_agent_event (dget (st_events st) (?ten, ?run, e_event_id e)) e = Inr u"
      by blast
    with written_row(2) [OF m u(1)] event_merge_le [OF u(3) valid(4) valid(9) [OF e]] show ?thesis
      by auto
  qed
  ultimately show ?thesis
    by (simp add: recorded_def Let_def written_tables(2,3) [OF m] dict_simps)
qed

section \<open>A repeated delivery\<close>

lemma owner_check_own:
  assumes "unique_by idx ident d" and "dget d k = Some x" and "idx k x = Some i" and "dwf d"
  shows "owner_in (\<lambda>k v. idx k v = Some i) ident (ident x) d = ident x"
proof (rule owner_in_own [OF _ assms(4)])
  fix k' v assume "dget d k' = Some v" "idx k' v = Some i"
  with assms(1-3) show "ident v = ident x" unfolding unique_by_def by (metis option.distinct(1))
qed

text \<open>
  What makes a capture repeatable: it carries no import marker, its linked traces are
  canonical, and after the delivery no two events of a run share a producer position.
\<close>

definition repeatable :: "agent_capture \<Rightarrow> trace list \<Rightarrow> evidence_store \<Rightarrow> bool" where
  "repeatable c traces st' \<longleftrightarrow>
     list_all (\<lambda>e. \<not> marker_event e) (c_events c) \<and> list_all trace_fits traces \<and>
     unique_by producer_index e_event_id (st_events st')"

lemma redelivered_merge:
  assumes m: "accepted st c traces ids m"
    "st' = write_merged (r_tenant_id (c_run c)) (s_source_session_id (c_session c)) m st"
    and rep: "repeatable c traces st'"
  shows "merge_capture st' c traces = Inr m"
proof -
  let ?ten = "r_tenant_id (c_run c)" and ?run = "r_run_id (c_run c)"
  note valid = accepted_valid [OF m(1)] and rows = accepted_rows [OF m(1)]
  have "merge_source_session (dget (st_sources st') (?ten, s_source_session_id (c_session c)))
      (c_session c) = Inr (mc_source m)"
    using session_merge.merge_any_again [OF accepted_merges(1) [OF m(1)]] valid(1,6)
    by (auto simp: sources_wf_def written_tables(2) [OF m] dict_simps)
  moreover have "merge_agent_run (dget (st_runs st') (?ten, ?run)) (c_run c) = Inr (mc_run m)"
    using run_merge.merge_any_again [OF accepted_merges(2) [OF m(1)]] valid(2,7)
    by (auto simp: runs_wf_def written_tables(3) [OF m] dict_simps)
  moreover have "list_all2 (\<lambda>t u. merge_stored_turn st' ?ten ?run t = Inr u) (c_turns c) (mc_turns m)"
  proof (rule list.rel_mono_strong [OF accepted_merges(3) [OF m(1)]], elim conjE)
    fix t u assume tu: "t \<in> set (c_turns c)" "u \<in> set (mc_turns m)" "t_turn_id u = t_turn_id t"
      "merge_agent_turn default_options (dget (st_turns st) (?ten, ?run, t_turn_id t)) t = Inr u"
    have "merge_agent_turn default_options (Some u) t = Inr u"
      using turn_merge.merge_any_again [OF tu(4)] valid(3) valid(8) [OF tu(1)]
      by (auto simp: turns_wf_def)
    with written_row(1) [OF m tu(2)] tu(3)
    show "merge_stored_turn st' ?ten ?run t = Inr u" by (simp add: merge_stored_turn_def)
  qed
  moreover have "list_all2 (\<lambda>e u. merge_stored_event st' ?ten ?run e = Inr u)
      (c_events c) (mc_events m)"
  proof (rule list.rel_mono_strong [OF accepted_merges(4) [OF m(1)]], elim conjE)
    fix e u assume eu: "e \<in> set (c_events c)" "u \<in> set (mc_events m)" "e_event_id u = e_event_id e"
      "merge_agent_event (dget (st_events st) (?ten, ?run, e_event_id e)) e = Inr u"
    have e: "plain_event e"
      using valid(9) [OF eu(1)] rep eu(1)
      by (auto simp: plain_event_def repeatable_def marker_event_def list_all_iff)
    have "plain_event v" if "dget (st_events st) (?ten, ?run, e_event_id e) = Some v" for v
    proof -
      have "e_provenance v = e_provenance e"
        using eu(4) that
        by (auto simp: merge_agent_event_def Let_def res_simps split: if_splits)
      with e valid(4) that show ?thesis by (auto simp: plain_event_def events_wf_def)
    qed
    then have "merge_agent_event (Some u) e = Inr u"
      using event_merge.merge_any_again [OF eu(4)] e by blast
    with written_row(2) [OF m eu(2)] eu(3)
    show "merge_stored_event st' ?ten ?run e = Inr u" by (simp add: merge_stored_event_def)
  qed
  moreover have "list_all2 (\<lambda>t u. merge_stored_trace st' t = Inr u) traces (mc_traces m)"
  proof (rule list.rel_mono_strong [OF accepted_merges(5) [OF m(1)]], elim conjE)
    fix t u assume tu: "t \<in> set traces" "u \<in> set (mc_traces m)" "tr_trace_id u = tr_trace_id t"
      "merge_capture_trace default_options (dget (st_traces st) (tr_trace_id t)) t = Inr u"
    have fits: "trace_fits t" using rep tu(1) by (simp add: repeatable_def list_all_iff)
    have "merge_capture_trace default_options (Some u) t = Inr u"
      by (rule merge_capture_trace_redeliver [OF tu(4) _ valid(10) [OF tu(1)] fits])
        (use valid(5) in \<open>simp add: traces_wf_def\<close>)
    with written_row(3) [OF m tu(2)] tu(3)
    show "merge_stored_trace st' t = Inr u" by (simp add: merge_stored_trace_def)
  qed
  ultimately show ?thesis by (simp add: merge_capture_eq_Inr rows(1))
qed

lemma redelivered_checks:
  assumes m: "accepted st c traces ids m"
    "st' = write_merged (r_tenant_id (c_run c)) (s_source_session_id (c_session c)) m st"
    and rep: "repeatable c traces st'" and wf: "store_wf st'"
  shows "check_locator st' (r_tenant_id (c_run c)) (mc_source m) = Inr ()"
    and "t \<in> set (mc_turns m) \<Longrightarrow>
      check_turn_sequence st' (r_tenant_id (c_run c)) (r_run_id (c_run c)) t = Inr ()"
    and "e \<in> set (mc_events m) \<Longrightarrow>
      check_event_identity st' (r_tenant_id (c_run c)) (r_run_id (c_run c)) e = Inr ()"
    and "i \<in> set ids \<Longrightarrow> linked_tenant (mc_traces m) st' i = Some (Some (r_tenant_id (c_run c)))"
proof -
  let ?ten = "r_tenant_id (c_run c)" and ?run = "r_run_id (c_run c)"
  note rows = accepted_rows [OF m(1)]
  have w: "sources_wf st'" "turns_wf st'" "events_wf st'" using wf by (simp_all add: store_wf_def)
  show "check_locator st' ?ten (mc_source m) = Inr ()"
  proof -
    have row: "dget (st_sources st') (?ten, s_source_session_id (c_session c)) = Some (mc_source m)"
      by (simp add: written_tables(2) [OF m] dict_simps)
    have uni: "unique_by locator_index s_source_session_id (st_sources st')" "dwf (st_sources st')"
      using w(1) by (simp_all add: sources_wf_def)
    show ?thesis
      unfolding check_locator_iff by (rule owner_check_own [OF uni(1) row _ uni(2)]) simp
  qed
  show "check_turn_sequence st' ?ten ?run t = Inr ()" if "t \<in> set (mc_turns m)"
    unfolding check_turn_sequence_iff
    by (rule owner_check_own [OF _ written_row(1) [OF m that]])
      (use w(2) in \<open>auto simp: turns_wf_def\<close>)
  show "check_event_identity st' ?ten ?run e = Inr ()" if e: "e \<in> set (mc_events m)"
    unfolding check_event_identity_iff event_owner_def
  proof (intro conjI allI impI)
    note row = written_row(2) [OF m e]
    show "owner_in (\<lambda>k v. event_index k v = Some (?ten, ?run, e_turn_id e, e_sequence e))
        e_event_id (e_event_id e) (st_events st') = e_event_id e"
      by (rule owner_check_own [OF _ row]) (use w(3) in \<open>auto simp: events_wf_def\<close>)
    show "owner_in (\<lambda>k v. link_index k v = Some (?ten, t)) e_event_id (e_event_id e)
        (st_events st') = e_event_id e" if "e_trace_id e = Some t" for t
      by (rule owner_check_own [OF _ row]) (use w(3) that in \<open>auto simp: events_wf_def\<close>)
    show "owner_in (\<lambda>k v. producer_index k v = Some i) e_event_id (e_event_id e)
        (st_events st') = e_event_id e" if "producer_index (?ten, ?run, []) e = Some i" for i
      by (rule owner_check_own [OF _ row])
        (use w(3) rep that in \<open>auto simp: events_wf_def repeatable_def\<close>)
  qed
  show "linked_tenant (mc_traces m) st' i = Some (Some ?ten)" if "i \<in> set ids"
  proof -
    from written_link_resolves [OF m that] obtain tr where
      tr: "dget (st_traces st') i = Some tr" "tr_tenant_id tr = Some ?ten" by blast
    show ?thesis
    proof (cases "List.find (\<lambda>u. tr_trace_id u = i) (mc_traces m)")
      case None
      with tr show ?thesis by (simp add: linked_tenant_def)
    next
      case (Some u)
      then have "u \<in> set (mc_traces m)" "tr_trace_id u = i" by (auto dest: find_Some_set)
      with written_row(3) [OF m] tr Some show ?thesis by (auto simp: linked_tenant_def)
    qed
  qed
qed

lemma rewritten:
  assumes m: "accepted st c traces ids m"
    "st' = write_merged (r_tenant_id (c_run c)) (s_source_session_id (c_session c)) m st"
  shows "write_merged (r_tenant_id (c_run c)) (s_source_session_id (c_session c)) m st' = st'"
proof -
  let ?ten = "r_tenant_id (c_run c)" and ?run = "r_run_id (c_run c)"
  have run: "r_run_id (mc_run m) = ?run" using accepted_rows(1) [OF m(1)] .
  have "dset_all tr_trace_id id (mc_traces m) (st_traces st') = st_traces st'"
    by (rule dset_all_same) (simp add: written_row(3) [OF m])
  moreover have "dset_all (\<lambda>t. (?ten, ?run, t_turn_id t)) id (mc_turns m) (st_turns st') = st_turns st'"
    by (rule dset_all_same) (simp add: written_row(1) [OF m])
  moreover have "dset_all (\<lambda>e. (?ten, ?run, e_event_id e)) id (mc_events m) (st_events st') =
      st_events st'"
    by (rule dset_all_same) (simp add: written_row(2) [OF m])
  moreover have "dset (?ten, s_source_session_id (c_session c)) (mc_source m) (st_sources st') =
      st_sources st'"
    by (simp add: written_tables(2) [OF m] dset_dset)
  moreover have "dset (?ten, ?run) (mc_run m) (st_runs st') = st_runs st'"
    by (simp add: written_tables(3) [OF m] dset_dset)
  ultimately show ?thesis by (simp add: write_merged_def Let_def run)
qed

lemma store_agent_capture_again:
  assumes "store_agent_capture c traces ids st = Inr st'" and "store_wf st"
    and "prepared_ok c traces ids" and "repeatable c traces st'"
  shows "store_agent_capture c traces ids st' = Inr st'"
proof -
  obtain m where m: "accepted st c traces ids m"
    "st' = write_merged (r_tenant_id (c_run c)) (s_source_session_id (c_session c)) m st"
    using store_agent_capture_accepted [OF assms(1-3)] by blast
  note wf = store_agent_capture_wf [OF assms(1-3)]
  show ?thesis
    unfolding store_agent_capture_eq_Inr
    using redelivered_merge [OF m assms(4)] redelivered_checks [OF m assms(4) wf]
      rewritten [OF m] accepted_rows(1) [OF m(1)] by metis
qed

section \<open>Tenants\<close>

definition tenant_view :: "string \<Rightarrow> evidence_store \<Rightarrow> evidence_store \<Rightarrow> bool" where
  "tenant_view ten a b \<longleftrightarrow>
     (\<forall>i. dget (st_sources a) (ten, i) = dget (st_sources b) (ten, i)) \<and>
     (\<forall>i. dget (st_runs a) (ten, i) = dget (st_runs b) (ten, i)) \<and>
     (\<forall>r i. dget (st_turns a) (ten, r, i) = dget (st_turns b) (ten, r, i)) \<and>
     (\<forall>r i. dget (st_events a) (ten, r, i) = dget (st_events b) (ten, r, i)) \<and>
     (\<forall>i t. dget (st_traces a) i = Some t \<and> tr_tenant_id t = Some ten \<longrightarrow>
        dget (st_traces b) i = Some t)"

lemma store_agent_capture_tenant:
  assumes "store_agent_capture c traces ids st = Inr st'" and "store_wf st"
    and "prepared_ok c traces ids" and "ten \<noteq> r_tenant_id (c_run c)"
  shows "tenant_view ten st st'"
proof -
  obtain m where m: "accepted st c traces ids m"
    "st' = write_merged (r_tenant_id (c_run c)) (s_source_session_id (c_session c)) m st"
    using store_agent_capture_accepted [OF assms(1-3)] by blast
  have "dget (st_traces st') i = Some t"
    if t: "dget (st_traces st) i = Some t" "tr_tenant_id t = Some ten" for i t
  proof (cases "i \<in> tr_trace_id ` set (mc_traces m)")
    case True
    then obtain u where u: "u \<in> set (mc_traces m)" "i = tr_trace_id u" by auto
    from u have "i \<in> set ids"
      using list_all2_source [OF accepted_merges(5) [OF m(1)] u(1)] assms(3)
      by (auto simp: prepared_ok_def)
    from written_link_resolves [OF m this] written_trace_kept [OF m t(1)] t(2) assms(4)
    show ?thesis by auto
  next
    case False
    with t show ?thesis by (simp add: written_tables(1) [OF m] dget_dset_all_notin)
  qed
  moreover have "dget (st_turns st') (ten, r, i) = dget (st_turns st) (ten, r, i)"
    "dget (st_events st') (ten, r, i) = dget (st_events st) (ten, r, i)" for r i
    unfolding written_tables [OF m] by (rule dget_dset_all_notin, use assms(4) in auto)+
  ultimately show ?thesis
    using assms(4) by (simp add: tenant_view_def written_tables(2,3) [OF m] dict_simps)
qed

end
