(* ===== verification/Samples.thy ===== *)
theory Samples
  imports Capture_Delivery
begin

text \<open>
  Concrete records on which the properties are applied: one session with one run, one turn and
  a model call linked to its trace.
\<close>

definition plain_redactor :: redactor where
  "plain_redactor = \<lparr>rd_plain = id, rd_text = id, rd_value = id, rd_secret = id,
     rd_sensitive = (\<lambda>_. False)\<rparr>"

definition sample_digest :: string where
  "sample_digest = replicate 64 (CHR ''a'')"

definition sample_session :: source_session where
  "sample_session = \<lparr>s_source_session_id = ''s'', s_tenant_id = ''t'', s_source_kind = ''sdk'',
     s_source_locator_hash = sample_digest, s_started_at = 1, s_observed_at = 2,
     s_ended_at = None\<rparr>"

definition sample_run :: agent_run where
  "sample_run = \<lparr>r_run_id = ''r'', r_source_session_id = ''s'', r_tenant_id = ''t'',
     r_started_at = 1, r_status = UNKNOWN, r_ended_at = None, r_agent_name = ''agent'',
     r_agent_version = [], r_configuration_fingerprint = [], r_session_id = None,
     r_parent_run_id = None, r_service_name = [], r_environment = [], r_instance_id = []\<rparr>"

definition sample_turn :: agent_turn where
  "sample_turn = \<lparr>t_turn_id = ''u'', t_run_id = ''r'', t_sequence = 0, t_started_at = 1,
     t_status = UNKNOWN, t_ended_at = None, t_user_request_redacted = Some ''hi'',
     t_final_response_redacted = None, t_request_state = PRESENT,
     t_response_state = NOT_CAPTURED, t_input_tokens = None, t_cached_input_tokens = None,
     t_cache_write_input_tokens = None, t_output_tokens = None,
     t_reasoning_output_tokens = None, t_total_tokens = None, t_token_usage_basis = None,
     t_request_truncated = False, t_response_truncated = False, t_progress_redacted = None\<rparr>"

definition sample_event :: agent_event where
  "sample_event = \<lparr>e_event_id = ''e'', e_turn_id = ''u'', e_sequence = 0, e_occurred_at = 1,
     e_event_type = MODEL_CALL, e_status = UNKNOWN, e_provenance = ''sdk'',
     e_attributes = [(''provider'', JStr ''p'')], e_privacy = METADATA,
     e_omission_reason = None, e_trace_id = Some ''x'', e_producer_id = ''p'',
     e_producer_sequence = Some 0, e_parent_event_id = None\<rparr>"

definition sample_trace :: trace where
  "sample_trace = populate_trace_analysis_fields \<lparr>tr_trace_id = ''x'', tr_started_at = 1,
     tr_ended_at = None, tr_provider = ''p'', tr_operation = CHAT, tr_request_model = ''m'',
     tr_response_model = [], tr_input_tokens = Some 3, tr_output_tokens = None,
     tr_temperature = None, tr_max_tokens = None, tr_finish_reason = None, tr_error = None,
     tr_latency_ms = None, tr_prompt_redacted = Some ''hi'', tr_response_redacted = None,
     tr_raw_messages = None, tr_tenant_id = Some ''t'', tr_session_id = None,
     tr_user_id_hash = None, tr_cluster_id = None, tr_tags = [], tr_cost_usd = None,
     tr_parent_span_id = None, tr_analysis_started_at_us = None,
     tr_analysis_started_at_state = ''pending'', tr_analysis_raw_messages_utf8_bytes = None,
     tr_analysis_raw_messages_state = ''pending'', tr_service_name = [], tr_environment = []\<rparr>"

definition sample_capture :: agent_capture where
  "sample_capture = \<lparr>c_session = sample_session, c_run = sample_run, c_turns = [sample_turn],
     c_events = [sample_event]\<rparr>"

definition sample_store :: evidence_store where
  "sample_store =
     \<lparr>st_traces = [(''x'', sample_trace)],
      st_sources = [((''t'', ''s''), sample_session)],
      st_runs = [((''t'', ''r''), sample_run)],
      st_turns = [((''t'', ''r'', ''u''), sample_turn)],
      st_events = [((''t'', ''r'', ''e''), sample_event)],
      st_judgments = [], st_spans = []\<rparr>"

lemma sample_digest_ok: "is_digest sample_digest"
  by (simp add: is_digest_def sample_digest_def list_all_iff is_hex_lower_def is_digit_def)

lemma sample_session_ok: "passes source_session_checks sample_session"
  by (simp add: passes_def source_session_checks_def sample_session_def res_simps sample_digest_ok)

lemma sample_trace_sanitized:
  "populate_trace_analysis_fields (sanitize_trace plain_redactor sample_trace) = sample_trace"
  by (simp add: sample_trace_def populate_trace_analysis_fields_def sanitize_trace_def
    plain_redactor_def sanitize_label_def sanitize_tags_def Let_def)

lemma sample_run_ok: "passes agent_run_checks sample_run"
  by (simp add: passes_def agent_run_checks_def sample_run_def res_simps)

lemma sample_turn_ok: "passes agent_turn_checks sample_turn"
  by (simp add: passes_def agent_turn_checks_def content_checks_def sample_turn_def res_simps
    has_usage_def turn_token_fields_def token_count_ok_def)

lemma sample_event_ok: "passes agent_event_checks sample_event"
  by (simp add: passes_def agent_event_checks_def sample_event_def res_simps
    validate_attributes_def validate_attribute_def has_content_field_def event_content_fields_def
    enter_node_def text_fields_def boolean_fields_def count_fields_def is_jstr_def
    token_count_ok_def json_quote_def escape_char_def)

lemma sample_capture_refs: "capture_refs_ok sample_capture"
  by (simp add: capture_refs_ok_def sample_capture_def sample_session_def sample_run_def
    sample_turn_def sample_event_def)

lemma sample_capture_contiguous: "capture_contiguous sample_capture"
proof -
  have "{e \<in> set (c_events sample_capture). e_turn_id e = ''u''} = {sample_event}"
    by (auto simp: sample_capture_def sample_event_def)
  then show ?thesis
    by (simp add: capture_contiguous_def sample_capture_def sample_turn_def)
      (simp add: sample_event_def)
qed

lemma sample_capture_ok:
  "passes agent_capture_batch_checks sample_capture" "passes agent_run_bundle_checks sample_capture"
  by (simp_all add: passes_def agent_capture_batch_checks_def agent_run_bundle_checks_def
    validate_agent_capture_parts_iff sample_capture_refs sample_capture_contiguous)

lemma sample_sanitized:
  "sanitize_run plain_redactor sample_run = Inr sample_run"
  "sanitize_turn plain_redactor sample_turn = Inr sample_turn"
  "sanitize_event plain_redactor sample_event = Inr sample_event"
proof -
  have "sample_run\<lparr>r_agent_name := r_agent_name sample_run, r_agent_version := r_agent_version sample_run,
     r_service_name := r_service_name sample_run, r_environment := r_environment sample_run\<rparr> = sample_run"
    by simp
  then show "sanitize_run plain_redactor sample_run = Inr sample_run"
    using sample_run_ok by (simp add: sanitize_run_def plain_redactor_def post_init_eq_Inr)
  show "sanitize_turn plain_redactor sample_turn = Inr sample_turn"
    using sample_turn_ok
    by (simp add: sanitize_turn_def plain_redactor_def post_init_eq_Inr sanitize_progress_def
      sample_turn_def)
  show "sanitize_event plain_redactor sample_event = Inr sample_event"
    using sample_event_ok
    by (simp add: sanitize_event_def plain_redactor_def post_init_eq_Inr
      sanitize_agent_event_attributes_def sensitive_name_def sample_event_def)
qed

lemma sample_capture_sanitized:
  "sanitize_agent_capture plain_redactor agent_capture_batch_checks sample_capture =
     Inr sample_capture"
  "sanitize_agent_capture plain_redactor agent_run_bundle_checks sample_capture =
     Inr sample_capture"
  using sample_capture_ok
  by (simp_all add: sanitize_agent_capture_def sample_capture_def sample_sanitized post_init_eq_Inr)

lemma sample_trace_id: "tr_trace_id sample_trace = ''x''" "tr_tenant_id sample_trace = Some ''t''"
  by (simp_all add: sample_trace_def)

lemma sample_linked:
  "prepare_linked_traces plain_redactor (c_events sample_capture) [sample_trace] =
     Inr ([sample_trace], [''x''])"
  by (simp add: prepare_linked_traces_def prepare_trace_def sample_trace_sanitized Let_def
    sample_trace_id event_links_def sample_capture_def sample_event_def map_filter_simps
    checks.simps(2))

lemma sample_prepared:
  "prepare_agent_capture plain_redactor agent_capture_batch_checks sample_capture [sample_trace] =
     Inr (sample_capture, [sample_trace], [''x''])"
  "prepare_agent_capture plain_redactor agent_run_bundle_checks sample_capture [sample_trace] =
     Inr (sample_capture, [sample_trace], [''x''])"
  by (simp_all add: prepare_agent_capture_def sample_capture_sanitized sample_linked)

lemma sample_merge:
  "merge_capture empty_store sample_capture [sample_trace] =
     Inr \<lparr>mc_traces = [sample_trace], mc_source = sample_session, mc_run = sample_run,
          mc_turns = [sample_turn], mc_events = [sample_event]\<rparr>"
  by (simp add: merge_capture_def Let_def sample_capture_def merge_stored_trace_def
    merge_stored_turn_def merge_stored_event_def merge_capture_trace_def merge_source_session_def
    merge_agent_run_def merge_agent_turn_def merge_agent_event_def empty_store_def)

lemma sample_stored: "store_agent_capture sample_capture [sample_trace] [''x''] empty_store = Inr sample_store"
  unfolding store_agent_capture_eq_Inr sample_merge
  by (simp add: check_locator_def check_turn_sequence_def check_event_identity_def owner_in_def
    next_or_def linked_tenant_def sample_trace_id sample_capture_def write_merged_def Let_def
    sample_store_def empty_store_def sample_session_def sample_run_def sample_turn_def
    sample_event_def res_simps)

lemma sample_append:
  "append_agent_capture plain_redactor sample_capture [sample_trace] empty_store = Inr sample_store"
  by (simp add: append_agent_capture_def sample_prepared sample_stored)

lemma sample_replace:
  "replace_agent_capture plain_redactor sample_capture [sample_trace] empty_store = Inr sample_store"
  by (simp add: replace_agent_capture_def sample_prepared sample_stored)

lemma sample_built: "capture_built sample_capture" "trace_built sample_trace"
  using sample_session_ok
  by (simp_all add: capture_built_def sample_capture_def sample_event_def trace_built_def
    sample_trace_def normal_fields norm_count_def norm_amount_def normalize_optional_integer_def
    max_trace_integer_def populate_trace_analysis_fields_def Let_def)

lemma plain_redactor_ok: "redactor_ok plain_redactor"
  by (simp add: redactor_ok_def plain_redactor_def)

end
