(* ===== verification/Merge_Properties.thy ===== *)
theory Merge_Properties
  imports Samples
begin

text \<open>
  The properties of the merge rules: when two revisions can be merged, what a sequence of
  revisions amounts to, and that the order of two revisions does not matter.
\<close>

section \<open>The order of two revisions\<close>

lemma advance_status_commute:
  "advance_status a b s = Inr m \<Longrightarrow> advance_status b a s' = Inr n \<Longrightarrow> m = n"
  by (auto simp: advance_status_def split: if_splits)

lemma fill_text_commute: "fill_text a b s = Inr m \<Longrightarrow> fill_text b a s' = Inr n \<Longrightarrow> m = n"
  by (auto simp: fill_text_def split: if_splits)

lemma fill_optional_commute:
  "fill_optional a b s = Inr m \<Longrightarrow> fill_optional b a s' = Inr n \<Longrightarrow> m = n"
  by (auto simp: fill_optional_def split: if_splits)

lemma advance_count_commute:
  "advance_count a b s = Inr m \<Longrightarrow> advance_count b a s' = Inr n \<Longrightarrow> m = n"
  by (auto simp: advance_count_def split: option.splits if_splits)

lemma extend_text_commute:
  "extend_text a b s None = Inr m \<Longrightarrow> extend_text b a s' None = Inr n \<Longrightarrow> m = n"
  by (auto simp: extend_text_def split: option.splits if_splits dest: prefix_order.antisym)

lemma advance_evidence_state_commute:
  "advance_evidence_state a b h = Inr m \<Longrightarrow> advance_evidence_state b a h = Inr n \<Longrightarrow> m = n"
  by (auto simp: advance_evidence_state_def split: if_splits)

lemma advance_end_eqs:
  "advance_end s None t e l = Inr e"
  "advance_end s (Some c) t None l =
     (if s = UNKNOWN \<and> t \<noteq> UNKNOWN then Inr None else Inr (Some c))"
  "advance_end s (Some c) t (Some i) l =
     (if s = UNKNOWN then Inr (Some (if t = UNKNOWN then max c i else i))
      else if i = c \<or> (s = t \<and> i < c) then Inr (Some c) else Inl (replaced l))"
  by (auto simp: advance_end_def fill_optional_def)

text \<open>A terminal status comes with an end time, as the constructors require.\<close>

lemma advance_end_commute:
  assumes "advance_status a b s = Inr ms" and "advance_end a ea b eb s' = Inr m"
    and "advance_end b eb a ea s' = Inr n"
    and "a = UNKNOWN \<or> ea \<noteq> None" and "b = UNKNOWN \<or> eb \<noteq> None"
  shows "m = n"
proof (cases ea)
  case None
  with assms show ?thesis
    by (cases eb) (auto simp: advance_end_eqs advance_status_def split: if_splits)
next
  case (Some x)
  with assms show ?thesis
    by (cases eb) (auto simp: advance_end_eqs advance_status_def max_def split: if_splits)
qed

lemma merge_truncated_commute: "merge_truncated m a ta b tb = merge_truncated m b tb a ta"
  by (cases "m = a"; cases "m = b") (simp_all add: merge_truncated_def disj_commute)

lemmas field_commute =
  advance_status_commute fill_text_commute fill_optional_commute advance_count_commute
  extend_text_commute advance_evidence_state_commute

lemma merge_run_fields:
  assumes "merge_agent_run (Some c) x = Inr m"
  shows "run_ident c = run_ident x" and "run_ident m = run_ident c"
    and "advance_status (r_status c) (r_status x) ''run'' = Inr (r_status m)"
    and "advance_end (r_status c) (r_ended_at c) (r_status x) (r_ended_at x) ''run end'' =
     Inr (r_ended_at m)"
    and "fill_text (r_agent_name c) (r_agent_name x) ''agent name'' = Inr (r_agent_name m)"
    and "fill_text (r_agent_version c) (r_agent_version x) ''agent version'' =
      Inr (r_agent_version m)"
    and "fill_text (r_configuration_fingerprint c) (r_configuration_fingerprint x)
     ''agent configuration'' = Inr (r_configuration_fingerprint m)"
    and "fill_optional (r_session_id c) (r_session_id x) ''logical session'' = Inr (r_session_id m)"
    and "fill_optional (r_parent_run_id c) (r_parent_run_id x) ''parent run'' =
      Inr (r_parent_run_id m)"
    and "fill_text (r_service_name c) (r_service_name x) ''service name'' = Inr (r_service_name m)"
    and "fill_text (r_environment c) (r_environment x) ''environment'' = Inr (r_environment m)"
    and "fill_text (r_instance_id c) (r_instance_id x) ''instance'' = Inr (r_instance_id m)"
  using assms by (simp_all add: merge_agent_run_def res_simps run_ident_def split: if_splits)
    (elim exE conjE; simp)+

lemma run_end_known: "passes agent_run_checks r \<Longrightarrow> r_status r = UNKNOWN \<or> r_ended_at r \<noteq> None"
  by (simp add: passes_def agent_run_checks_def)

text \<open>Two revisions of a run that can be merged in both orders give the same
run in both orders.\<close>

theorem run_merge_commutes:
  assumes "merge_agent_run (Some a) b = Inr m" and "merge_agent_run (Some b) a = Inr n"
    and "passes agent_run_checks a" and "passes agent_run_checks b"
  shows "m = n"
proof -
  note ab = merge_run_fields [OF assms(1)] and ba = merge_run_fields [OF assms(2)]
  have "run_ident m = run_ident n" using ab(1,2) ba(2) by simp
  moreover have "r_status m = r_status n" by (rule advance_status_commute [OF ab(3) ba(3)])
  moreover have "r_ended_at m = r_ended_at n"
    by (rule advance_end_commute [OF ab(3,4) ba(4)]) (use assms(3,4) run_end_known in blast)+
  moreover note fill_text_commute [OF ab(5) ba(5)] fill_text_commute [OF ab(6) ba(6)]
    fill_text_commute [OF ab(7) ba(7)] fill_optional_commute [OF ab(8) ba(8)]
    fill_optional_commute [OF ab(9) ba(9)] fill_text_commute [OF ab(10) ba(10)]
    fill_text_commute [OF ab(11) ba(11)] fill_text_commute [OF ab(12) ba(12)]
  ultimately show ?thesis by (cases m; cases n) (simp add: run_ident_def)
qed

definition sample_finished_run :: agent_run where
  "sample_finished_run = sample_run\<lparr>r_status := COMPLETED, r_ended_at := Some 9,
     r_agent_version := ''1''\<rparr>"

lemma sample_finished_run_ok: "passes agent_run_checks sample_finished_run"
  by (simp add: passes_def agent_run_checks_def sample_finished_run_def sample_run_def res_simps)

lemma sample_run_merges:
  "merge_agent_run (Some sample_run) sample_finished_run = Inr sample_finished_run"
  "merge_agent_run (Some sample_finished_run) sample_run = Inr sample_finished_run"
  using sample_finished_run_ok
  by (simp_all add: merge_agent_run_def sample_finished_run_def sample_run_def
    advance_status_def advance_end_def fill_text_def fill_optional_def post_init_eq_Inr)

theorem run_merge_commutes_witness:
  "\<exists>m. merge_agent_run (Some sample_run) sample_finished_run = Inr m \<and>
       merge_agent_run (Some sample_finished_run) sample_run = Inr m"
  using run_merge_commutes [OF sample_run_merges sample_run_ok sample_finished_run_ok]
    sample_run_merges by blast

lemma merge_turn_parts:
  assumes "merge_turn_fields default_options c x = Inr m"
  shows "turn_identity m = turn_identity c"
    and "extend_text (t_user_request_redacted c) (t_user_request_redacted x) ''turn request'' None =
      Inr (t_user_request_redacted m)"
    and "extend_text (t_final_response_redacted c) (t_final_response_redacted x) ''turn response''
      None = Inr (t_final_response_redacted m)"
    and "advance_status (t_status c) (t_status x) ''turn'' = Inr (t_status m)"
    and "advance_end (t_status c) (t_ended_at c) (t_status x) (t_ended_at x) ''turn end'' =
      Inr (t_ended_at m)"
    and "advance_evidence_state (t_request_state c) (t_request_state x)
      (t_user_request_redacted m \<noteq> None) = Inr (t_request_state m)"
    and "advance_evidence_state (t_response_state c) (t_response_state x)
      (t_final_response_redacted m \<noteq> None) = Inr (t_response_state m)"
    and "advance_count (t_input_tokens c) (t_input_tokens x) ''turn input tokens'' =
      Inr (t_input_tokens m)"
    and "advance_count (t_cached_input_tokens c) (t_cached_input_tokens x)
      ''turn cached input tokens'' = Inr (t_cached_input_tokens m)"
    and "advance_count (t_cache_write_input_tokens c) (t_cache_write_input_tokens x)
      ''turn cache-write input tokens'' = Inr (t_cache_write_input_tokens m)"
    and "advance_count (t_output_tokens c) (t_output_tokens x) ''turn output tokens'' =
      Inr (t_output_tokens m)"
    and "advance_count (t_reasoning_output_tokens c) (t_reasoning_output_tokens x)
      ''turn reasoning output tokens'' = Inr (t_reasoning_output_tokens m)"
    and "advance_count (t_total_tokens c) (t_total_tokens x) ''turn total tokens'' =
      Inr (t_total_tokens m)"
    and "fill_optional (t_token_usage_basis c) (t_token_usage_basis x) ''turn token usage basis'' =
      Inr (t_token_usage_basis m)"
    and "extend_text (t_progress_redacted c) (t_progress_redacted x) ''turn progress'' None =
      Inr (t_progress_redacted m)"
    and "t_request_truncated m = merge_truncated (t_user_request_redacted m)
      (t_user_request_redacted c) (t_request_truncated c) (t_user_request_redacted x)
      (t_request_truncated x)"
    and "t_response_truncated m = merge_truncated (t_final_response_redacted m)
      (t_final_response_redacted c) (t_response_truncated c) (t_final_response_redacted x)
      (t_response_truncated x)"
  using assms by (simp_all add: merge_turn_fields_def res_simps turn_identity_def)
    (elim exE conjE; simp)+

text \<open>Two revisions of a turn that can be merged in both orders give the same
turn in both orders: texts, states, counts and truncation flags included.  A turn with a terminal
status must have an end time, which the constructor of a turn (unlike that of a run) does not
require.\<close>

theorem turn_merge_commutes:
  assumes "merge_agent_turn default_options (Some a) b = Inr m"
    and "merge_agent_turn default_options (Some b) a = Inr n"
    and "t_status a = UNKNOWN \<or> t_ended_at a \<noteq> None" and "t_status b = UNKNOWN \<or> t_ended_at b \<noteq> None"
  shows "m = n"
proof -
  have id: "turn_identity a = turn_identity b"
    and "merge_turn_fields default_options a b = Inr m"
    and "merge_turn_fields default_options b a = Inr n"
    using assms(1,2) by (simp_all add: merge_agent_turn_default split: if_splits)
  note ab = merge_turn_parts [OF this(2)] and ba = merge_turn_parts [OF this(3)]
  have req: "t_user_request_redacted m = t_user_request_redacted n"
    and res: "t_final_response_redacted m = t_final_response_redacted n"
    by (rule extend_text_commute [OF ab(2) ba(2)], rule extend_text_commute [OF ab(3) ba(3)])
  have "turn_identity m = turn_identity n" using ab(1) ba(1) id by simp
  moreover have "t_request_state m = t_request_state n"
    by (rule advance_evidence_state_commute [OF ab(6) ba(6) [folded req]])
  moreover have "t_response_state m = t_response_state n"
    by (rule advance_evidence_state_commute [OF ab(7) ba(7) [folded res]])
  moreover have "t_ended_at m = t_ended_at n"
    by (rule advance_end_commute [OF ab(4,5) ba(5) assms(3,4)])
  moreover have "t_request_truncated m = t_request_truncated n"
    "t_response_truncated m = t_response_truncated n"
    unfolding ab(16,17) ba(16,17) req res by (rule merge_truncated_commute)+
  moreover note req res advance_status_commute [OF ab(4) ba(4)]
    advance_count_commute [OF ab(8) ba(8)] advance_count_commute [OF ab(9) ba(9)]
    advance_count_commute [OF ab(10) ba(10)] advance_count_commute [OF ab(11) ba(11)]
    advance_count_commute [OF ab(12) ba(12)] advance_count_commute [OF ab(13) ba(13)]
    fill_optional_commute [OF ab(14) ba(14)] extend_text_commute [OF ab(15) ba(15)]
  ultimately show ?thesis by (cases m; cases n) (simp add: turn_identity_def)
qed

definition sample_longer_turn :: agent_turn where
  "sample_longer_turn = sample_turn\<lparr>t_user_request_redacted := Some ''hi there'',
     t_final_response_redacted := Some ''ok'', t_response_state := PRESENT,
     t_status := COMPLETED, t_ended_at := Some 7\<rparr>"

lemma sample_longer_turn_ok: "passes agent_turn_checks sample_longer_turn"
  by (simp add: passes_def agent_turn_checks_def content_checks_def sample_longer_turn_def
    sample_turn_def res_simps has_usage_def turn_token_fields_def token_count_ok_def)

lemma sample_turn_merges:
  "merge_agent_turn default_options (Some sample_turn) sample_longer_turn = Inr sample_longer_turn"
  "merge_agent_turn default_options (Some sample_longer_turn) sample_turn = Inr sample_longer_turn"
  using sample_longer_turn_ok
  by (simp_all add: merge_agent_turn_default merge_turn_fields_def sample_longer_turn_def
    sample_turn_def turn_identity_def advance_status_def advance_end_def fill_optional_def
    extend_text_def advance_count_def advance_evidence_state_def merge_truncated_def
    post_init_eq_Inr)

theorem turn_merge_commutes_witness:
  "\<exists>m. merge_agent_turn default_options (Some sample_turn) sample_longer_turn = Inr m \<and>
       merge_agent_turn default_options (Some sample_longer_turn) sample_turn = Inr m"
  using turn_merge_commutes [OF sample_turn_merges] sample_turn_merges
  by (simp add: sample_turn_def sample_longer_turn_def)

section \<open>When two revisions can be merged\<close>

text \<open>Two valid revisions of a run can be merged exactly when they agree on the
identity facts, on every text and reference that both set, on a terminal status and, from then on,
on an end time no later than the recorded one; the constructor of the merged run never fails.\<close>

theorem run_merge_defined:
  assumes "passes agent_run_checks c" and "passes agent_run_checks x"
  shows "(\<exists>m. merge_agent_run (Some c) x = Inr m) \<longleftrightarrow> run_compatible c x"
  using merge_agent_run_success merge_agent_run_compatible [OF assms] by blast

theorem run_merge_defined_witness: "run_compatible sample_run sample_finished_run"
  using run_merge_defined [OF sample_run_ok sample_finished_run_ok] sample_run_merges(1) by blast

section \<open>Sequences of revisions\<close>




lemma sample_event_plain: "plain_event sample_event" "event_fits sample_event"
  using sample_event_ok
  by (simp_all add: plain_event_def event_fits_def sample_event_def blank_def)


end
