(* ===== verification/Analysis.thy ===== *)
theory Analysis
  imports Evidence "HOL-Library.Product_Lexorder"
begin

text \<open>
  The deterministic analysis of a run, \<open>verdict/analysis.py\<close>: which recorded events count as
  failures, how tool calls and results pair up, and the findings and coverage derived from a
  bundle.  What the source takes from the interpreter and has no closed form here (Unicode case
  folding, \<open>json.loads\<close> as a recogniser, the floating-point sum of latencies) is the record
  \<open>analysis_env\<close>, a parameter.
\<close>

section \<open>Local source revisions\<close>

record local_revision =
  lr_full_bytes :: int
  lr_full_sha256 :: string
  lr_complete_prefix_bytes :: int
  lr_complete_prefix_sha256 :: string
  lr_partial_final_line :: bool
  lr_source_turn_count :: "int option"
  lr_source_event_count :: "int option"
  lr_v1_turn_count :: "int option"
  lr_v1_event_count :: "int option"
  lr_min_turn_at :: "string option"
  lr_max_turn_at :: "string option"

definition revision_counts :: "local_revision \<Rightarrow> int option list" where
  "revision_counts r =
     [lr_source_turn_count r, lr_source_event_count r, lr_v1_turn_count r, lr_v1_event_count r]"

definition local_revision_checks :: "local_revision \<Rightarrow> (py_error + unit) list" where
  "local_revision_checks r =
     [require (0 \<le> lr_complete_prefix_bytes r \<and> lr_complete_prefix_bytes r \<le> lr_full_bytes r \<and>
         lr_full_bytes r \<le> max_int64 \<and> is_digest (lr_full_sha256 r) \<and>
         is_digest (lr_complete_prefix_sha256 r) \<and>
         (lr_partial_final_line r \<or> lr_complete_prefix_bytes r = lr_full_bytes r))
        (ValueError ''invalid local source revision''),
      require (list_all (\<lambda>c. c = None) (revision_counts r) \<or>
          (list_all (\<lambda>c. case c of None \<Rightarrow> False | Some n \<Rightarrow> 0 \<le> n) (revision_counts r) \<and>
           the (lr_v1_turn_count r) \<le> the (lr_source_turn_count r) \<and>
           the (lr_v1_event_count r) \<le> the (lr_source_event_count r) \<and>
           lr_source_turn_count r \<noteq> Some 0 \<and>
           lr_min_turn_at r \<noteq> None \<and> lr_max_turn_at r \<noteq> None))
        (ValueError ''invalid local source coverage'')]"

definition local_scope_partial ::
  "string \<Rightarrow> local_revision option \<Rightarrow> int \<Rightarrow> int option \<Rightarrow> bool" where
  "local_scope_partial source_kind revision last_turn_sequence selected =
     (if source_kind \<notin> {''codex'', ''claude-code''} then False
      else case revision of
        None \<Rightarrow> True
      | Some r \<Rightarrow>
          (case lr_source_turn_count r of
             None \<Rightarrow> True
           | Some turns \<Rightarrow>
               if selected = None \<and>
                  (lr_source_turn_count r \<noteq> lr_v1_turn_count r \<or>
                   lr_source_event_count r \<noteq> lr_v1_event_count r)
               then True
               else if \<not> lr_partial_final_line r then False
               else (case selected of None \<Rightarrow> True | Some s \<Rightarrow> turns - 1 \<le> s)))"

section \<open>Policies and findings\<close>

record analysis_policy =
  ap_required_event_types :: "agent_event_type list"
  ap_prohibited_tools :: "string list"
  ap_expected_response_format :: "string option"
  ap_repeated_tool_call_threshold :: int

definition analysis_policy_checks :: "analysis_policy \<Rightarrow> (py_error + unit) list" where
  "analysis_policy_checks p =
     [require (2 \<le> ap_repeated_tool_call_threshold p)
        (ValueError ''repeated_tool_call_threshold must be at least 2'')]"

definition default_policy :: analysis_policy where
  "default_policy = \<lparr>ap_required_event_types = [], ap_prohibited_tools = [],
     ap_expected_response_format = None, ap_repeated_tool_call_threshold = 4\<rparr>"

datatype severity = Info | Warning | Error

record finding =
  f_code :: string
  f_severity :: severity
  f_message :: string
  f_evidence_event_ids :: "string list"
  f_judge_used :: bool

record run_metrics =
  rm_turns :: nat
  rm_model_calls :: nat
  rm_tool_calls :: nat
  rm_tool_errors :: nat
  rm_command_failures :: nat
  rm_test_failures :: nat
  rm_retries :: nat
  rm_input_tokens :: int
  rm_output_tokens :: int
  rm_model_latency_ms :: rat

record run_coverage =
  rc_request :: string
  rc_response :: string
  rc_event_stream :: string

record run_analysis =
  ra_run_id :: string
  ra_metrics :: run_metrics
  ra_coverage :: run_coverage
  ra_findings :: "finding list"

definition make_finding :: "string \<Rightarrow> severity \<Rightarrow> string \<Rightarrow> agent_event list \<Rightarrow> finding" where
  "make_finding code severity message events =
     \<lparr>f_code = code, f_severity = severity, f_message = message,
      f_evidence_event_ids = map e_event_id (take 20 events), f_judge_used = False\<rparr>"

section \<open>Reading single events\<close>

definition attr :: "agent_event \<Rightarrow> string \<Rightarrow> jval option" where
  "attr e name = dget (e_attributes e) name"

definition is_int_attr :: "jval option \<Rightarrow> (int \<Rightarrow> bool) \<Rightarrow> bool" where
  "is_int_attr v p = (case v of Some (JInt n) \<Rightarrow> p n | _ \<Rightarrow> False)"

definition is_bool_attr :: "jval option \<Rightarrow> bool" where
  "is_bool_attr v = (case v of Some (JBool b) \<Rightarrow> True | _ \<Rightarrow> False)"

definition outcome_reported :: "agent_event \<Rightarrow> bool" where
  "outcome_reported e \<longleftrightarrow>
     e_status e \<in> {COMPLETED, FAILED, TIMED_OUT} \<or>
     is_bool_attr (attr e ''is_error'') \<or>
     is_int_attr (attr e ''exit_code'') (\<lambda>_. True) \<or>
     is_int_attr (attr e ''failed'') (\<lambda>_. True)"

datatype event_issue = ToolError | CommandFailed | TestFailed | BusinessOutcomeFailed

definition failed_status :: "execution_status \<Rightarrow> bool" where
  "failed_status s \<longleftrightarrow> s \<in> {FAILED, TIMED_OUT}"

definition recorded_event_issue :: "agent_event \<Rightarrow> event_issue option" where
  "recorded_event_issue e =
     (if e_event_type e = TOOL_RESULT \<and>
         (failed_status (e_status e) \<or> attr e ''is_error'' = Some (JBool True))
      then Some ToolError
      else if e_event_type e = COMMAND \<and>
         (failed_status (e_status e) \<or> is_int_attr (attr e ''exit_code'') (\<lambda>n. n \<noteq> 0))
      then Some CommandFailed
      else if e_event_type e = TEST_RESULT \<and>
         (failed_status (e_status e) \<or> is_int_attr (attr e ''failed'') (\<lambda>n. 0 < n) \<or>
          is_int_attr (attr e ''exit_code'') (\<lambda>n. n \<noteq> 0))
      then Some TestFailed
      else if e_event_type e = OUTCOME \<and> e_status e = FAILED
      then Some BusinessOutcomeFailed
      else None)"

section \<open>Pairing tool calls with results\<close>

definition valid_call_id :: "jval option \<Rightarrow> bool" where
  "valid_call_id v =
     (case v of Some (JStr s) \<Rightarrow> s \<noteq> [] \<and> CHR 0x00 \<notin> set s \<and> length s \<le> 256 | _ \<Rightarrow> False)"

definition id_count :: "jval option \<Rightarrow> jval option list \<Rightarrow> nat" where
  "id_count v xs = count_list (filter valid_call_id xs) v"

definition unpaired :: "jval option list \<Rightarrow> jval option list \<Rightarrow> nat list" where
  "unpaired xs ys =
     filter (\<lambda>i. \<not> valid_call_id (xs ! i) \<or> id_count (xs ! i) xs \<noteq> 1 \<or> id_count (xs ! i) ys \<noteq> 1)
       [0..<length xs]"

definition recorded_tool_pairing_issues ::
  "jval option list \<Rightarrow> jval option list \<Rightarrow> nat list \<times> nat list" where
  "recorded_tool_pairing_issues calls results =
     (if calls = [] then ([], []) else (unpaired calls results, unpaired results calls))"

definition recorded_tool_pairing_complete :: "jval option list \<Rightarrow> jval option list \<Rightarrow> bool" where
  "recorded_tool_pairing_complete calls results =
     (let (bad_calls, bad_results) = recorded_tool_pairing_issues calls results
      in bad_calls = [] \<and> bad_results = [])"

section \<open>The analysis\<close>

record analysis_env =
  an_casefold :: "string \<Rightarrow> string"
  an_json_loads :: "string \<Rightarrow> bool"
  an_float_sum :: "jval list \<Rightarrow> rat"

text \<open>The \<open>local_revision\<close> argument, with the sentinel of the source for \<open>not given\<close>.\<close>

datatype revision_arg = Unspecified | Revision "local_revision option"

definition of_type :: "agent_event_type \<Rightarrow> agent_event list \<Rightarrow> agent_event list" where
  "of_type t es = filter (\<lambda>e. e_event_type e = t) es"

definition with_issue :: "event_issue \<Rightarrow> agent_event list \<Rightarrow> agent_event list" where
  "with_issue i es = filter (\<lambda>e. recorded_event_issue e = Some i) es"

text \<open>\<open>isinstance(v, int)\<close> holds of a \<open>bool\<close> too.\<close>

definition int_values :: "string \<Rightarrow> agent_event list \<Rightarrow> int list" where
  "int_values name es = List.map_filter (\<lambda>e. case attr e name of
       Some (JInt n) \<Rightarrow> Some n | Some (JBool b) \<Rightarrow> Some (if b then 1 else 0) | _ \<Rightarrow> None) es"

definition number_values :: "string \<Rightarrow> agent_event list \<Rightarrow> jval list" where
  "number_values name es = List.map_filter (\<lambda>e. case attr e name of
       Some (JInt n) \<Rightarrow> Some (JInt n) | Some (JBool b) \<Rightarrow> Some (JBool b)
     | Some (JFloat q r) \<Rightarrow> Some (JFloat q r) | _ \<Rightarrow> None) es"

definition capture_markers :: "agent_capture \<Rightarrow> agent_event list" where
  "capture_markers b = filter (\<lambda>e. e_provenance e = ''verdict:capture_limit'') (c_events b)"

definition last_sequence :: "agent_capture \<Rightarrow> int" where
  "last_sequence b = (if c_turns b = [] then -1 else Max (set (map t_sequence (c_turns b))))"

definition source_partial :: "agent_capture \<Rightarrow> revision_arg \<Rightarrow> bool" where
  "source_partial b lrev =
     (case lrev of Unspecified \<Rightarrow> False
      | Revision r \<Rightarrow>
          local_scope_partial (s_source_kind (c_session b)) r (last_sequence b) None)"

definition coverage_of :: "evidence_state list \<Rightarrow> string" where
  "coverage_of states =
     (case remdups states of [] \<Rightarrow> ''not_applicable'' | [s] \<Rightarrow> evidence_state_value s
      | _ \<Rightarrow> ''mixed'')"

definition event_order_key :: "agent_event \<Rightarrow> int \<times> string \<times> string \<times> int \<times> string" where
  "event_order_key e = (e_occurred_at e, [], e_producer_id e,
     (case e_producer_sequence e of Some n \<Rightarrow> n | None \<Rightarrow> e_sequence e), e_event_id e)"

definition plural_message :: "agent_event list \<Rightarrow> string \<Rightarrow> string" where
  "plural_message es text = dec_of_nat (length es) @ text"

text \<open>A finding for a group of events, reported when the group is not empty.\<close>

definition group_finding :: "string \<Rightarrow> severity \<Rightarrow> string \<Rightarrow> agent_event list \<Rightarrow> finding list" where
  "group_finding code severity message es =
     (if es = [] then [] else [make_finding code severity message es])"

definition pairing_findings :: "agent_capture \<Rightarrow> finding list" where
  "pairing_findings b =
     (let calls = of_type TOOL_CALL (c_events b);
          results = of_type TOOL_RESULT (c_events b);
          (bad_calls, bad_results) = recorded_tool_pairing_issues
            (map (\<lambda>e. attr e ''call_id'') calls) (map (\<lambda>e. attr e ''call_id'') results);
          affected = sort_key event_order_key
            (map (\<lambda>i. calls ! i) bad_calls @ map (\<lambda>i. results ! i) bad_results)
      in group_finding ''tool_outcomes_incomplete'' Warning
           ''Recorded tool calls and results cannot be paired one-to-one; their outcomes are unclear.''
           affected)"

text \<open>\<open>sorted(..., key=str)\<close> orders the members by their Python names.\<close>

fun event_type_name :: "agent_event_type \<Rightarrow> string" where
  "event_type_name INSTRUCTION = ''AgentEventType.INSTRUCTION''"
| "event_type_name CONTEXT = ''AgentEventType.CONTEXT''"
| "event_type_name MODEL_CALL = ''AgentEventType.MODEL_CALL''"
| "event_type_name TOOL_CALL = ''AgentEventType.TOOL_CALL''"
| "event_type_name TOOL_RESULT = ''AgentEventType.TOOL_RESULT''"
| "event_type_name COMMAND = ''AgentEventType.COMMAND''"
| "event_type_name TEST_RESULT = ''AgentEventType.TEST_RESULT''"
| "event_type_name ARTIFACT = ''AgentEventType.ARTIFACT''"
| "event_type_name SUBAGENT = ''AgentEventType.SUBAGENT''"
| "event_type_name RETRY = ''AgentEventType.RETRY''"
| "event_type_name FEEDBACK = ''AgentEventType.FEEDBACK''"
| "event_type_name OUTCOME = ''AgentEventType.OUTCOME''"

definition missing_types :: "analysis_policy \<Rightarrow> agent_capture \<Rightarrow> agent_event_type list" where
  "missing_types p b = sort_key event_type_name (remdups
     (filter (\<lambda>t. t \<notin> e_event_type ` set (c_events b)) (ap_required_event_types p)))"

definition missing_finding :: "agent_event_type \<Rightarrow> finding" where
  "missing_finding t = make_finding ''required_step_missing'' Error
     (''Required evidence type '' @ [CHR 0x27] @ event_type_value t @ [CHR 0x27]
      @ '' was not observed.'') []"

text \<open>\<open>str(v or "")\<close> and \<open>str(v)\<close>; the constructor of an event lets \<open>tool_name\<close> be text or absent.\<close>

definition tool_name_or_empty :: "agent_event \<Rightarrow> string" where
  "tool_name_or_empty e = (case attr e ''tool_name'' of Some (JStr s) \<Rightarrow> s | _ \<Rightarrow> [])"

definition tool_name_str :: "agent_event \<Rightarrow> string" where
  "tool_name_str e = (case attr e ''tool_name'' of Some (JStr s) \<Rightarrow> s | _ \<Rightarrow> ''None'')"

fun join_with :: "string \<Rightarrow> string list \<Rightarrow> string" where
  "join_with sep [] = []"
| "join_with sep [x] = x"
| "join_with sep (x # y # xs) = x @ sep @ join_with sep (y # xs)"

definition prohibited_calls ::
  "analysis_env \<Rightarrow> analysis_policy \<Rightarrow> agent_capture \<Rightarrow> agent_event list" where
  "prohibited_calls env p b =
     filter (\<lambda>e. an_casefold env (tool_name_or_empty e) \<in> an_casefold env ` set (ap_prohibited_tools p))
       (of_type TOOL_CALL (c_events b))"

definition prohibited_findings ::
  "analysis_env \<Rightarrow> analysis_policy \<Rightarrow> agent_capture \<Rightarrow> finding list" where
  "prohibited_findings env p b =
     (let calls = prohibited_calls env p b;
          names = sort (remdups (map tool_name_str calls))
      in group_finding ''prohibited_tool_used'' Error
           (''Prohibited tool(s) '' @ join_with '', '' names @ '' were called ''
            @ dec_of_nat (length calls) @ '' time(s).'') calls)"

definition last_source_sequence :: "agent_capture \<Rightarrow> revision_arg \<Rightarrow> int" where
  "last_source_sequence b lrev =
     (case lrev of
        Revision (Some r) \<Rightarrow>
          (case lr_source_turn_count r of Some n \<Rightarrow> n - 1 | None \<Rightarrow> last_sequence b)
      | _ \<Rightarrow> last_sequence b)"

definition partial_line :: "revision_arg \<Rightarrow> bool" where
  "partial_line lrev = (case lrev of Revision (Some r) \<Rightarrow> lr_partial_final_line r | _ \<Rightarrow> False)"

definition invalid_response :: "analysis_env \<Rightarrow> agent_capture \<Rightarrow> revision_arg \<Rightarrow> agent_turn \<Rightarrow> bool" where
  "invalid_response env b lrev t \<longleftrightarrow>
     \<not> (partial_line lrev \<and> t_sequence t = last_source_sequence b lrev) \<and>
     t_response_state t = PRESENT \<and>
     \<not> an_json_loads env (case t_final_response_redacted t of None \<Rightarrow> [] | Some s \<Rightarrow> s)"

definition response_findings ::
  "analysis_env \<Rightarrow> analysis_policy \<Rightarrow> agent_capture \<Rightarrow> revision_arg \<Rightarrow> finding list" where
  "response_findings env p b lrev =
     (let invalid = length (filter (invalid_response env b lrev) (c_turns b)) in
      if ap_expected_response_format p = Some ''json'' \<and> invalid \<noteq> 0
      then [make_finding ''response_schema_invalid'' Error
        (dec_of_nat invalid @ '' response(s) were not valid JSON as required by policy.'') []]
      else [])"

definition negative_feedback :: "agent_capture \<Rightarrow> agent_event list" where
  "negative_feedback b =
     filter (\<lambda>e. attr e ''kind'' = Some (JStr ''thumbs_down'') \<and> attr e ''value'' = Some (JBool True))
       (of_type FEEDBACK (c_events b))"

definition feedback_message :: "agent_event list \<Rightarrow> string" where
  "feedback_message es =
     (if length es = 1
      then ''1 explicit thumbs-down rating was recorded; its cause is unknown.''
      else plural_message es
        '' explicit thumbs-down ratings were recorded; their cause is unknown.'')"

definition run_metrics_of :: "analysis_env \<Rightarrow> agent_capture \<Rightarrow> run_metrics" where
  "run_metrics_of env b =
     (let es = c_events b; model_calls = of_type MODEL_CALL es in
      \<lparr>rm_turns = length (c_turns b),
       rm_model_calls = length model_calls,
       rm_tool_calls = length (of_type TOOL_CALL es),
       rm_tool_errors = length (with_issue ToolError (of_type TOOL_RESULT es)),
       rm_command_failures = length (with_issue CommandFailed (of_type COMMAND es)),
       rm_test_failures = length (with_issue TestFailed (of_type TEST_RESULT es)),
       rm_retries = length (of_type RETRY es),
       rm_input_tokens = sum_list (int_values ''input_tokens'' model_calls),
       rm_output_tokens = sum_list (int_values ''output_tokens'' model_calls),
       rm_model_latency_ms = an_float_sum env (number_values ''latency_ms'' model_calls)\<rparr>)"

definition coverage_findings :: "agent_capture \<Rightarrow> revision_arg \<Rightarrow> finding list" where
  "coverage_findings b lrev =
     (let response = coverage_of (map t_response_state (c_turns b)) in
     (if r_status (c_run b) = UNKNOWN
      then [make_finding ''run_status_unknown'' Info
        ''The source does not expose a terminal status for this agent session.'' []] else [])
     @ (if response \<in> {''missing'', ''not_captured'', ''mixed''}
        then [make_finding ''response_not_evaluable'' Info
          ''At least one response is unavailable; response quality is not evaluable.'' []] else [])
     @ group_finding ''event_capture_partial'' Warning
         ''The source exceeded the bounded event limit; event-level analysis is partial.''
         (capture_markers b)
     @ (if source_partial b lrev
        then [make_finding ''source_capture_partial'' Warning
          ''The local source contains evidence outside this historical prefix, an incomplete final line, or unverified coverage. Whole-run analysis is partial.'' []]
        else []))"

definition failure_findings :: "agent_capture \<Rightarrow> finding list" where
  "failure_findings b =
     (let es = c_events b;
          tool_errors = with_issue ToolError (of_type TOOL_RESULT es);
          command_failures = with_issue CommandFailed (of_type COMMAND es);
          test_failures = with_issue TestFailed (of_type TEST_RESULT es);
          outcomes = with_issue BusinessOutcomeFailed (of_type OUTCOME es);
          negative = negative_feedback b
      in group_finding ''tool_error'' Error
           (plural_message tool_errors '' tool result(s) reported failure.'') tool_errors
       @ group_finding ''command_failed'' Error
           (plural_message command_failures
             '' command(s) reported failure, timeout, or a non-zero exit.'') command_failures
       @ group_finding ''test_failed'' Error
           (plural_message test_failures
             '' test execution(s) reported failure or timeout.'') test_failures
       @ group_finding ''business_outcome_failed'' Error
           (plural_message outcomes
             '' explicit business outcome(s) reported failure.'') outcomes
       @ group_finding ''negative_feedback_recorded'' Warning (feedback_message negative) negative)"

definition partial_evidence :: "agent_capture \<Rightarrow> revision_arg \<Rightarrow> bool" where
  "partial_evidence b lrev \<longleftrightarrow> capture_markers b \<noteq> [] \<or> source_partial b lrev"

definition analyze_agent_run ::
  "analysis_env \<Rightarrow> agent_capture \<Rightarrow> analysis_policy option \<Rightarrow> bool \<Rightarrow> revision_arg \<Rightarrow> run_analysis" where
  "analyze_agent_run env b policy include_tool_outcome_coverage lrev =
     (let p = (case policy of None \<Rightarrow> default_policy | Some p \<Rightarrow> p) in
      \<lparr>ra_run_id = r_run_id (c_run b),
       ra_metrics = run_metrics_of env b,
       ra_coverage = \<lparr>rc_request = coverage_of (map t_request_state (c_turns b)),
         rc_response = coverage_of (map t_response_state (c_turns b)),
         rc_event_stream = (if partial_evidence b lrev then ''partial'' else ''present'')\<rparr>,
       ra_findings =
         coverage_findings b lrev
         @ (if include_tool_outcome_coverage \<and> of_type TOOL_CALL (c_events b) \<noteq> [] \<and>
               \<not> partial_evidence b lrev
            then pairing_findings b else [])
         @ failure_findings b
         @ (if partial_evidence b lrev then [] else map missing_finding (missing_types p b))
         @ prohibited_findings env p b
         @ response_findings env p b lrev\<rparr>)"

end
