(* ===== verification/Analysis_Laws.thy ===== *)
theory Analysis_Laws
  imports Analysis Samples
begin

text \<open>
  What the analysis of \<open>verdict/analysis.py\<close> promises: the pairing test decides a one-to-one
  correspondence, every finding is backed by recorded events of the run, an execution issue is
  reported exactly when an event of the run records it, and partial evidence never turns into a
  claim that something is missing.
\<close>

section \<open>Pairing\<close>

lemma unpaired_Nil_iff:
  "unpaired xs ys = [] \<longleftrightarrow>
     (\<forall>x\<in>set xs. valid_call_id x \<and> id_count x xs = 1 \<and> id_count x ys = 1)"
  by (auto simp: unpaired_def filter_empty_conv all_set_conv_all_nth)

lemma id_count_valid: "valid_call_id x \<Longrightarrow> id_count x xs = count_list xs x"
  by (induction xs) (auto simp: id_count_def)

lemma count_list_one_distinct: "(\<forall>x\<in>set xs. count_list xs x = 1) \<longleftrightarrow> distinct xs"
proof (induction xs)
  case Nil
  then show ?case by simp
next
  case (Cons a xs)
  show ?case
  proof (cases "a \<in> set xs")
    case True
    then have "count_list xs a \<noteq> 0" by (simp add: count_list_0_iff)
    with True show ?thesis by auto
  next
    case False
    then show ?thesis using Cons.IH by (auto simp: count_list_0_iff)
  qed
qed

lemma unpaired_Nil_distinct:
  "unpaired xs ys = [] \<longleftrightarrow>
     list_all valid_call_id xs \<and> distinct xs \<and> (\<forall>x\<in>set xs. count_list ys x = 1)"
  unfolding unpaired_Nil_iff list_all_iff count_list_one_distinct [symmetric]
  by (auto simp: id_count_valid)

lemma count_list_one_mem: "count_list ys x = 1 \<Longrightarrow> x \<in> set ys"
  using count_list_0_iff [of ys x] by force

text \<open>The recorded tool calls count as complete exactly when there are none, or
when calls and results carry bounded call identifiers, none of them twice on either side, and
the same identifiers on both sides.\<close>

theorem pairing_complete_iff:
  "recorded_tool_pairing_complete calls results \<longleftrightarrow>
     calls = [] \<or>
     (list_all valid_call_id (calls @ results) \<and> distinct calls \<and> distinct results \<and>
      set calls = set results)"
proof (cases "calls = []")
  case True
  then show ?thesis
    by (simp add: recorded_tool_pairing_complete_def recorded_tool_pairing_issues_def)
next
  case False
  then have "recorded_tool_pairing_complete calls results \<longleftrightarrow>
      unpaired calls results = [] \<and> unpaired results calls = []"
    by (simp add: recorded_tool_pairing_complete_def recorded_tool_pairing_issues_def)
  moreover have "distinct xs \<Longrightarrow> count_list xs x = 1 \<longleftrightarrow> x \<in> set xs" for xs and x :: "jval option"
    using count_list_one_distinct [of xs] count_list_one_mem [of xs x] by blast
  ultimately show ?thesis
    using False by (auto simp: unpaired_Nil_distinct dest: count_list_one_mem)
qed

section \<open>Findings\<close>

definition backed_by :: "agent_capture \<Rightarrow> finding \<Rightarrow> bool" where
  "backed_by b f \<longleftrightarrow>
     set (f_evidence_event_ids f) \<subseteq> e_event_id ` set (c_events b) \<and>
     length (f_evidence_event_ids f) \<le> 20 \<and> \<not> f_judge_used f"

lemma backed_make_finding:
  "set es \<subseteq> set (c_events b) \<Longrightarrow> backed_by b (make_finding c s m es)"
  by (auto simp: backed_by_def make_finding_def dest: in_set_takeD)

lemma backed_group_finding:
  "set es \<subseteq> set (c_events b) \<Longrightarrow> list_all (backed_by b) (group_finding c s m es)"
  by (simp add: group_finding_def backed_make_finding)

lemmas backed = backed_make_finding backed_group_finding

lemma of_type_sub: "set (of_type t es) \<subseteq> set es"
  by (auto simp: of_type_def)

lemma with_issue_sub: "set (with_issue i (of_type t es)) \<subseteq> set es"
  by (auto simp: of_type_def with_issue_def)

lemma pairing_findings_backed: "list_all (backed_by b) (pairing_findings b)"
proof -
  let ?calls = "of_type TOOL_CALL (c_events b)" and ?results = "of_type TOOL_RESULT (c_events b)"
  obtain cs rs where i: "recorded_tool_pairing_issues (map (\<lambda>e. attr e ''call_id'') ?calls)
      (map (\<lambda>e. attr e ''call_id'') ?results) = (cs, rs)" by (rule prod.exhaust)
  then have "set cs \<subseteq> {0..<length ?calls}" "set rs \<subseteq> {0..<length ?results}"
    by (auto simp: recorded_tool_pairing_issues_def unpaired_def split: if_splits)
  then have "set (map (\<lambda>i. ?calls ! i) cs) \<subseteq> set ?calls" "set (map (\<lambda>i. ?results ! i) rs) \<subseteq> set ?results"
    by (auto simp: subset_iff)
  then have "set (map (\<lambda>i. ?calls ! i) cs @ map (\<lambda>i. ?results ! i) rs) \<subseteq> set (c_events b)"
    using of_type_sub [of TOOL_CALL "c_events b"] of_type_sub [of TOOL_RESULT "c_events b"]
    by (simp del: set_map) blast
  then show ?thesis
    by (simp only: pairing_findings_def Let_def i prod.case backed_group_finding set_sort)
qed


text \<open>The code under which each issue is reported.\<close>

fun issue_code :: "event_issue \<Rightarrow> string" where
  "issue_code ToolError = ''tool_error''"
| "issue_code CommandFailed = ''command_failed''"
| "issue_code TestFailed = ''test_failed''"
| "issue_code BusinessOutcomeFailed = ''business_outcome_failed''"

definition finding_codes :: "finding list \<Rightarrow> string set" where
  "finding_codes fs = f_code ` set fs"

lemma finding_codes_simps [simp]:
  "finding_codes [] = {}"
  "finding_codes (f # fs) = insert (f_code f) (finding_codes fs)"
  "finding_codes (fs @ gs) = finding_codes fs \<union> finding_codes gs"
  "finding_codes (if c then fs else gs) = (if c then finding_codes fs else finding_codes gs)"
  by (auto simp: finding_codes_def)

lemma f_code_make_finding [simp]: "f_code (make_finding c s m es) = c"
  by (simp add: make_finding_def)

lemma finding_codes_group [simp]:
  "finding_codes (group_finding c s m es) = (if es = [] then {} else {c})"
  by (simp add: group_finding_def)

lemma finding_codes_missing [simp]:
  "finding_codes (map missing_finding ts) = (if ts = [] then {} else {''required_step_missing''})"
  by (induction ts) (auto simp: missing_finding_def)

lemma finding_codes_pairing: "finding_codes (pairing_findings b) \<subseteq> {''tool_outcomes_incomplete''}"
  by (simp add: pairing_findings_def Let_def split: prod.split)

lemma issue_type:
  "recorded_event_issue e = Some i \<Longrightarrow>
     e_event_type e = (case i of ToolError \<Rightarrow> TOOL_RESULT | CommandFailed \<Rightarrow> COMMAND
       | TestFailed \<Rightarrow> TEST_RESULT | BusinessOutcomeFailed \<Rightarrow> OUTCOME)"
  by (auto simp: recorded_event_issue_def split: if_splits)

lemma with_issue_Nil:
  "with_issue ToolError (of_type TOOL_RESULT es) = [] \<longleftrightarrow>
     (\<forall>e\<in>set es. recorded_event_issue e \<noteq> Some ToolError)"
  "with_issue CommandFailed (of_type COMMAND es) = [] \<longleftrightarrow>
     (\<forall>e\<in>set es. recorded_event_issue e \<noteq> Some CommandFailed)"
  "with_issue TestFailed (of_type TEST_RESULT es) = [] \<longleftrightarrow>
     (\<forall>e\<in>set es. recorded_event_issue e \<noteq> Some TestFailed)"
  "with_issue BusinessOutcomeFailed (of_type OUTCOME es) = [] \<longleftrightarrow>
     (\<forall>e\<in>set es. recorded_event_issue e \<noteq> Some BusinessOutcomeFailed)"
  by (auto simp: with_issue_def of_type_def filter_empty_conv dest!: bspec dest: issue_type)

lemma other_codes:
  "issue_code i \<notin> finding_codes (pairing_findings b)"
  "issue_code i \<notin> finding_codes (coverage_findings b revision)"
  "issue_code i \<notin> finding_codes (prohibited_findings env p b)"
  "issue_code i \<notin> finding_codes (response_findings env p b revision)"
  using finding_codes_pairing [of b]
  by (cases i; auto simp: coverage_findings_def prohibited_findings_def response_findings_def
      Let_def)+

text \<open>A tool error, a failed command, a failed test or a failed business outcome is
reported exactly when some event of the bundle records it, whatever the policy.\<close>

theorem issue_reported_iff:
  "issue_code i \<in> finding_codes (ra_findings (analyze_agent_run env b policy coverage revision)) \<longleftrightarrow>
     (\<exists>e\<in>set (c_events b). recorded_event_issue e = Some i)"
  using other_codes [of i]
  by (cases i; simp add: analyze_agent_run_def Let_def failure_findings_def with_issue_Nil)

text \<open>When the event stream was cut at its bound, or the local source holds more than
was imported, the analysis says so and does not report a required step as missing or the
pairing of tool calls as incomplete.\<close>

theorem partial_evidence_not_missing:
  assumes "partial_evidence b revision"
    and "a = analyze_agent_run env b policy coverage revision"
  shows "rc_event_stream (ra_coverage a) = ''partial'' \<and>
    finding_codes (ra_findings a) \<inter> {''required_step_missing'', ''tool_outcomes_incomplete''} = {} \<and>
    finding_codes (ra_findings a) \<inter> {''event_capture_partial'', ''source_capture_partial''} \<noteq> {}"
proof -
  from assms(1) consider "capture_markers b \<noteq> []" | "source_partial b revision"
    by (auto simp: partial_evidence_def)
  then show ?thesis
    using assms(1)
    by cases (simp_all add: assms(2) analyze_agent_run_def Let_def failure_findings_def
      coverage_findings_def prohibited_findings_def response_findings_def)
qed

definition codex_capture :: agent_capture where
  "codex_capture = sample_capture\<lparr>c_session := sample_session\<lparr>s_source_kind := ''codex''\<rparr>\<rparr>"

definition plain_env :: analysis_env where
  "plain_env = \<lparr>an_casefold = id, an_json_loads = (\<lambda>s. s \<noteq> []), an_float_sum = (\<lambda>vs. 0)\<rparr>"

lemma partial_evidence_not_missing_witness:
  "rc_event_stream (ra_coverage (analyze_agent_run plain_env codex_capture None True (Revision None)))
     = ''partial''"
  using partial_evidence_not_missing [of codex_capture "Revision None", OF _ refl]
  by (simp add: partial_evidence_def source_partial_def codex_capture_def local_scope_partial_def)

end
