(* ===== verification/Json_Laws.thy ===== *)
theory Json_Laws
  imports Json_Parse
begin

text \<open>
  \<open>json.loads\<close> undoes \<open>json.dumps(..., separators=(",", ":"))\<close>: a printed value is read back,
  whatever follows it, and with \<open>sort_keys=True\<close> it is read back with its keys in order.
\<close>

section \<open>Strings\<close>

lemma hex_val_hex_char: "n < 16 \<Longrightarrow> hex_val (hex_char n) = Some n"
  by (auto simp: hex_val_def hex_char_def is_digit_def)

lemma ord_lt_256: "ord (c :: char) < (256 :: nat)"
  using of_char_mod_256 [of c, where 'a = nat] by (metis mod_less_divisor zero_less_numeral)

lemma scan_unicode_escape:
  "ord c < (128 :: nat) \<Longrightarrow>
     scan_unicode (CHR ''0'' # CHR ''0'' # hex_char (ord c div 16) # hex_char (ord c mod 16) # r)
       = Some ([c], r)"
  by (simp add: scan_unicode_def hex_val_hex_char) (simp add: hex_val_def is_digit_def utf8_encode_def)

lemma small_chars:
  "char_of (8::nat) = CHR 0x08" "char_of (9::nat) = CHR 0x09" "char_of (10::nat) = CHR 0x0A"
  "char_of (12::nat) = CHR 0x0C" "char_of (13::nat) = CHR 0x0D"
  by (simp_all add: char_of_def bit_Suc_0_iff)

lemma scan_string_escape_char:
  "scan_string (escape_char a c @ r) = map_option (apfst ((#) c)) (scan_string r)"
proof -
  have "c = char_of (ord c :: nat)" by simp
  then have "ord c = (8::nat) \<Longrightarrow> c = CHR 0x08" "ord c = (9::nat) \<Longrightarrow> c = CHR 0x09"
      "ord c = (10::nat) \<Longrightarrow> c = CHR 0x0A" "ord c = (12::nat) \<Longrightarrow> c = CHR 0x0C"
      "ord c = (13::nat) \<Longrightarrow> c = CHR 0x0D"
    by (metis (no_types) small_chars)+
  moreover have "ord c = (127::nat) \<Longrightarrow>
      scan_unicode (CHR ''0'' # CHR ''0'' # hex_char 7 # hex_char 15 # r) = Some ([c], r)"
    using scan_unicode_escape [of c r] by simp
  ultimately show ?thesis
    by (subst scan_string.simps) (auto simp: escape_char_def unescape_def scan_unicode_escape
        option.map_comp comp_def apfst_def map_prod_def intro!: map_option_cong)
qed

lemma scan_string_quote:
  "scan_string (concat (map (escape_char a) s) @ CHR 0x22 # r) = Some (s, r)"
proof (induction s)
  case Nil
  show ?case by (simp add: scan_string.simps)
next
  case (Cons c s)
  then show ?case by (simp add: scan_string_escape_char)
qed

lemma scan_json_quote: "scan_string (tl (json_quote a s) @ r) = Some (s, r)"
  by (simp add: json_quote_def scan_string_quote)

section \<open>Integers\<close>

text \<open>What may follow a value inside a list or an object, or at the end of the text.\<close>

definition stops :: "string \<Rightarrow> bool" where
  "stops r \<longleftrightarrow> (case r of [] \<Rightarrow> True | c # _ \<Rightarrow> c \<in> {CHR '','', CHR '']'', CHR ''}''})"

lemma stops_simps [simp]:
  "stops []" "stops (CHR '','' # r)" "stops (CHR '']'' # r)" "stops (CHR ''}'' # r)"
  by (simp_all add: stops_def)

lemma scan_stops:
  "stops r \<Longrightarrow> scan_fraction r = ([], r)" "stops r \<Longrightarrow> scan_exponent r = ([], r)"
  "stops r \<Longrightarrow> takeWhile is_digit r = []" "stops r \<Longrightarrow> dropWhile is_digit r = r"
  by (auto simp: stops_def scan_fraction_def scan_exponent_def is_digit_def split: list.splits)

lemma hd_dec_of_nat: "0 < n \<Longrightarrow> hd (dec_of_nat n) \<noteq> CHR ''0''"
proof (induction n rule: dec_of_nat.induct)
  case (1 n)
  show ?case
  proof (cases "n < 10")
    case True
    with 1 show ?thesis
      using digit_val_digit_char [of n] by (auto simp: dec_of_nat.simps [of n] digit_val_def)
  next
    case False
    with 1 show ?thesis by (simp add: dec_of_nat.simps [of n])
  qed
qed

lemma takeWhile_digits: "stops r \<Longrightarrow> takeWhile is_digit (dec_of_nat n @ r) = dec_of_nat n"
  using dec_of_nat_digits [of n] by (simp add: takeWhile_append2 list_all_iff scan_stops)

lemma int_part_dec_of_nat: "int_part (dec_of_nat n) = dec_of_nat n"
proof (cases "n = 0")
  case True
  then show ?thesis by (simp add: int_part_def dec_of_nat.simps digit_char_def)
next
  case False
  then show ?thesis using hd_dec_of_nat [of n] by (auto simp: int_part_def split: list.split)
qed

lemma scan_number_dec:
  assumes "length (dec_of_nat (nat \<bar>i\<bar>)) \<le> 4300" and "stops r"
  shows "scan_number fl (dec_of_int i @ r) = Some (JInt i, r)"
proof (cases "i < 0")
  case True
  then show ?thesis
    using assms by (simp add: scan_number_def dec_of_int_def takeWhile_digits int_part_dec_of_nat
        scan_stops nat_of_dec_of_nat)
next
  case False
  moreover obtain c cs where d: "dec_of_nat (nat i) = c # cs" "is_digit c"
    using dec_of_nat_digits [of "nat i"] by (cases "dec_of_nat (nat i)") auto
  moreover from this have "c \<noteq> CHR ''-''" by (auto simp: is_digit_def)
  moreover have "takeWhile is_digit (c # cs @ r) = c # cs"
    using takeWhile_digits [OF assms(2), of "nat i"] by (simp add: d(1))
  ultimately show ?thesis
    using assms int_part_dec_of_nat [of "nat i"] nat_of_dec_of_nat [of "nat i"]
    by (simp add: scan_number_def dec_of_int_def scan_stops)
qed

section \<open>Numbers before a stop\<close>

lemma takeWhile_stops: "stops r \<Longrightarrow> takeWhile is_digit (s @ r) = takeWhile is_digit s"
  by (induction s) (auto simp: scan_stops)

lemma dropWhile_stops: "stops r \<Longrightarrow> dropWhile is_digit (s @ r) = dropWhile is_digit s @ r"
  by (induction s) (auto simp: scan_stops)

lemma scan_fraction_stops:
  "stops r \<Longrightarrow> scan_fraction (s @ r) = apsnd (\<lambda>t. t @ r) (scan_fraction s)"
  by (cases s) (simp_all add: scan_stops, simp add: scan_fraction_def takeWhile_stops
      dropWhile_stops Let_def)

lemma scan_exponent_stops:
  assumes "stops r"
  shows "scan_exponent (s @ r) = apsnd (\<lambda>t. t @ r) (scan_exponent s)"
proof (cases s)
  case Nil
  with assms show ?thesis by (simp add: scan_stops)
next
  case (Cons e t)
  show ?thesis
  proof (cases t)
    case Nil
    with assms Cons show ?thesis
      by (auto simp: scan_exponent_def stops_def is_digit_def split: list.split)
  next
    case (Cons c u)
    with assms \<open>s = e # t\<close> show ?thesis
      by (simp add: scan_exponent_def takeWhile_stops dropWhile_stops Let_def
          takeWhile_stops [of r "c # u", simplified] dropWhile_stops [of r "c # u", simplified])
  qed
qed

lemma length_int_part: "length (int_part ds) \<le> length ds"
  by (cases ds) (auto simp: int_part_def)

lemma scan_number_stops:
  assumes "stops r"
  shows "scan_number fl (s @ r) = map_option (apsnd (\<lambda>t. t @ r)) (scan_number fl s)"
proof -
  define neg where "neg x = (case x of c # _ \<Rightarrow> c = CHR ''-'' | [] \<Rightarrow> False)" for x :: string
  define t where "t = (if neg s then tl s else s)"
  have neg: "neg (s @ r) = neg s"
    using assms by (cases s) (auto simp: neg_def stops_def split: list.split)
  have t: "(if neg (s @ r) then tl (s @ r) else s @ r) = t @ r"
    unfolding neg t_def by (cases s) (simp_all add: neg_def)
  define ip where "ip = int_part (takeWhile is_digit t)"
  have ip: "int_part (takeWhile is_digit (t @ r)) = ip"
    using assms by (simp add: takeWhile_stops ip_def)
  have "length ip \<le> length t"
    using length_int_part [of "takeWhile is_digit t"] length_takeWhile_le [of is_digit t]
    by (simp add: ip_def)
  then have u: "drop (length ip) (t @ r) = drop (length ip) t @ r" by simp
  obtain f x where f: "scan_fraction (drop (length ip) t) = (f, x)"
    by (cases "scan_fraction (drop (length ip) t)")
  obtain e w where e: "scan_exponent x = (e, w)" by (cases "scan_exponent x")
  have "scan_fraction (drop (length ip) t @ r) = (f, x @ r)" "scan_exponent (x @ r) = (e, w @ r)"
    using assms f e by (simp_all add: scan_fraction_stops scan_exponent_stops)
  then show ?thesis
    unfolding scan_number_def Let_def neg_def [symmetric] t
    unfolding t_def [symmetric] ip u
    by (simp add: ip_def [symmetric] f e option.map_comp comp_def neg)
qed

section \<open>Values\<close>

text \<open>
  What can be printed and read back: no key occurs twice, integers are within the interpreter's
  limit on decimal text, and the text of a float is a number token that reads as that float.
\<close>

primrec printable :: "loader \<Rightarrow> jval \<Rightarrow> bool" where
  "printable ld JNull = True"
| "printable ld (JBool b) = True"
| "printable ld (JInt i) = (length (dec_of_nat (nat \<bar>i\<bar>)) \<le> 4300)"
| "printable ld (JFloat q r) = (scan_number (ld_float ld) r = Some (JFloat q r, []))"
| "printable ld (JStr s) = True"
| "printable ld (JList vs) = list_all id (map (printable ld) vs)"
| "printable ld (JDict kvs) =
     (distinct (map fst kvs) \<and> list_all snd (map (map_prod id (printable ld)) kvs))"

text \<open>An object hook that builds the dictionary when no key occurs twice.\<close>

definition loader_ok :: "loader \<Rightarrow> bool" where
  "loader_ok ld \<longleftrightarrow> (\<forall>kvs. distinct (map fst kvs) \<longrightarrow> ld_object ld kvs = Some (JDict kvs))"

definition token_start :: "char \<Rightarrow> bool" where
  "token_start c \<longleftrightarrow> \<not> is_ws c \<and> c \<noteq> CHR '']'' \<and> c \<noteq> CHR ''}''"

lemma token_start_digit: "is_digit c \<Longrightarrow> token_start c"
  by (auto simp: token_start_def is_digit_def is_ws_def)

lemma token_start_minus: "token_start (CHR ''-'')"
  by (simp add: token_start_def is_ws_def)

lemma scan_number_start:
  assumes "scan_number fl s = Some (v, r)"
  shows "\<exists>c t. s = c # t \<and> (is_digit c \<or> c = CHR ''-'')"
proof (cases s)
  case Nil
  with assms show ?thesis by (simp add: scan_number_def int_part_def Let_def split: prod.splits)
next
  case (Cons c t)
  show ?thesis
  proof (rule ccontr)
    assume no: "\<not> ?thesis"
    with Cons have "int_part (takeWhile is_digit s) = []" "c \<noteq> CHR ''-''"
      by (auto simp: int_part_def)
    with assms Cons show False by (simp add: scan_number_def Let_def split: prod.splits)
  qed
qed

lemma number_text:
  assumes "printable ld v" and "v = JInt i \<or> v = JFloat q x"
  shows "stops r \<Longrightarrow> scan_number (ld_float ld) (json_text a v @ r) = Some (v, r)"
    and "\<exists>c t. json_text a v = c # t \<and> (is_digit c \<or> c = CHR ''-'')"
proof -
  have num: "scan_number (ld_float ld) (json_text a v) = Some (v, [])"
    using assms scan_number_dec [of i "[]" "ld_float ld"] by auto
  then show "stops r \<Longrightarrow> scan_number (ld_float ld) (json_text a v @ r) = Some (v, r)"
    by (simp add: scan_number_stops)
  from num show "\<exists>c t. json_text a v = c # t \<and> (is_digit c \<or> c = CHR ''-'')"
    by (rule scan_number_start)
qed

lemma text_start:
  assumes "printable ld v"
  shows "\<exists>c t. json_text a v = c # t \<and> token_start c"
proof (cases "\<exists>i q x. v = JInt i \<or> v = JFloat q x")
  case True
  then show ?thesis
    using number_text(2) [OF assms] token_start_digit token_start_minus by metis
next
  case False
  then show ?thesis by (cases v) (auto simp: token_start_def is_ws_def json_quote_def)
qed

lemma skip_ws_token: "token_start c \<Longrightarrow> skip_ws (c # t) = c # t"
  by (simp add: skip_ws_def token_start_def)

lemma skip_ws_text: "printable ld v \<Longrightarrow> skip_ws (json_text a v @ r) = json_text a v @ r"
  using text_start [of ld v a] by (auto simp: skip_ws_token)

lemma skip_ws_simps [simp]:
  "skip_ws [] = []" "skip_ws (CHR '','' # t) = CHR '','' # t"
  "skip_ws (CHR '']'' # t) = CHR '']'' # t" "skip_ws (CHR ''}'' # t) = CHR ''}'' # t"
  "skip_ws (CHR '':'' # t) = CHR '':'' # t" "skip_ws (CHR 0x22 # t) = CHR 0x22 # t"
  by (simp_all add: skip_ws_def is_ws_def)

section \<open>Reading back what was printed\<close>

definition reads_back :: "loader \<Rightarrow> bool \<Rightarrow> jval \<Rightarrow> bool" where
  "reads_back ld a v \<longleftrightarrow> printable ld v \<and>
     (\<forall>n r. 2 * length (json_text a v) + 1 \<le> n \<longrightarrow> stops r \<longrightarrow>
        parse_value ld n (json_text a v @ r) = Some (v, r))"

lemma reads_backI:
  assumes "printable ld v"
    and "\<And>m r. 2 * length (json_text a v) \<le> m \<Longrightarrow> stops r \<Longrightarrow>
       parse_value ld (Suc m) (json_text a v @ r) = Some (v, r)"
  shows "reads_back ld a v"
  unfolding reads_back_def
proof (intro conjI allI impI)
  fix n r assume n: "2 * length (json_text a v) + 1 \<le> n" and r: "stops r"
  then obtain m where "n = Suc m" by (cases n) auto
  with n r assms(2) show "parse_value ld n (json_text a v @ r) = Some (v, r)" by simp
qed (rule assms(1))

lemma reads_backD:
  "reads_back ld a v \<Longrightarrow> 2 * length (json_text a v) + 1 \<le> n \<Longrightarrow> stops r \<Longrightarrow>
     parse_value ld n (json_text a v @ r) = Some (v, r)"
  by (simp add: reads_back_def)

lemma parse_items_text:
  assumes "list_all (reads_back ld a) vs" and "vs \<noteq> []"
    and "2 * length (join_comma (map (json_text a) vs)) + 2 \<le> n"
  shows "parse_items ld n (join_comma (map (json_text a) vs) @ CHR '']'' # r) = Some (vs, r)"
  using assms
proof (induction vs arbitrary: n)
  case Nil
  then show ?case by simp
next
  case (Cons v vs)
  obtain m where n: "n = Suc m" using Cons.prems(3) by (cases n) auto
  show ?case
  proof (cases vs)
    case Nil
    with Cons.prems n have "parse_value ld m (json_text a v @ CHR '']'' # r)
        = Some (v, CHR '']'' # r)"
      by (intro reads_backD) auto
    then show ?thesis by (simp add: n Nil parse_items.simps)
  next
    case (Cons w ws)
    let ?rest = "join_comma (map (json_text a) vs) @ CHR '']'' # r"
    from Cons.prems n Cons have "parse_value ld m (json_text a v @ CHR '','' # ?rest)
        = Some (v, CHR '','' # ?rest)"
      by (intro reads_backD) auto
    moreover have "parse_items ld m ?rest = Some (vs, r)"
      using Cons.prems n Cons by (intro Cons.IH) auto
    moreover have "skip_ws ?rest = ?rest"
      using Cons.prems Cons skip_ws_text [of ld w a] by (cases ws) (auto simp: reads_back_def)
    ultimately show ?thesis using n Cons by (simp add: parse_items.simps)
  qed
qed

definition pair_text :: "bool \<Rightarrow> string \<times> jval \<Rightarrow> string" where
  "pair_text a = (\<lambda>(k, v). json_quote a k @ CHR '':'' # json_text a v)"

lemma json_text_dict:
  "json_text a (JDict kvs) = CHR ''{'' # join_comma (map (pair_text a) kvs) @ ''}''"
  by (simp add: pair_text_def comp_def case_prod_unfold)

lemma parse_pair_text:
  assumes "reads_back ld a v" and "2 * length (json_text a v) + 1 \<le> m"
    and "w = CHR '','' # x \<or> w = CHR ''}'' # x"
  shows "parse_pairs ld (Suc m) (pair_text a (k, v) @ w) =
    (if hd w = CHR '','' then map_option (apfst ((#) (k, v))) (parse_pairs ld m (skip_ws x))
     else Some ([(k, v)], x))"
proof -
  have "parse_value ld m (json_text a v @ w) = Some (v, w)"
    using assms by (intro reads_backD) auto
  moreover have "skip_ws (json_text a v @ w) = json_text a v @ w"
    using assms(1) by (auto simp: reads_back_def skip_ws_text)
  ultimately show ?thesis
    using assms(3) scan_string_quote [of a k "CHR '':'' # json_text a v @ w"]
    by (auto simp: parse_pairs.simps pair_text_def json_quote_def)
qed

lemma parse_pairs_text:
  assumes "list_all (\<lambda>kv. reads_back ld a (snd kv)) kvs" and "kvs \<noteq> []"
    and "2 * length (join_comma (map (pair_text a) kvs)) + 2 \<le> n"
  shows "parse_pairs ld n (join_comma (map (pair_text a) kvs) @ CHR ''}'' # r) = Some (kvs, r)"
  using assms
proof (induction kvs arbitrary: n)
  case Nil
  then show ?case by simp
next
  case (Cons kv kvs)
  obtain k v where kv: "kv = (k, v)" by (cases kv)
  obtain m where n: "n = Suc m" using Cons.prems(3) by (cases n) auto
  show ?case
  proof (cases kvs)
    case Nil
    with Cons.prems n kv have "2 * length (json_text a v) + 1 \<le> m" "reads_back ld a v"
      by (auto simp: pair_text_def)
    with Nil show ?thesis by (simp add: n kv parse_pair_text)
  next
    case (Cons w ws)
    let ?rest = "join_comma (map (pair_text a) kvs) @ CHR ''}'' # r"
    from Cons.prems n Cons kv have "2 * length (json_text a v) + 1 \<le> m" "reads_back ld a v"
      by (auto simp: pair_text_def)
    moreover have "parse_pairs ld m ?rest = Some (kvs, r)"
      using Cons.prems n Cons by (intro Cons.IH) auto
    moreover have "skip_ws ?rest = ?rest"
      using Cons by (cases ws; cases w) (auto simp: pair_text_def json_quote_def)
    ultimately show ?thesis
      using Cons parse_pair_text [of ld a v m "CHR '','' # ?rest" ?rest k]
      by (simp add: n kv)
  qed
qed

lemma parse_word:
  "parse_value ld (Suc m) (CHR ''n'' # CHR ''u'' # CHR ''l'' # CHR ''l'' # r) = Some (JNull, r)"
  "parse_value ld (Suc m) (CHR ''t'' # CHR ''r'' # CHR ''u'' # CHR ''e'' # r) = Some (JBool True, r)"
  "parse_value ld (Suc m) (CHR ''f'' # CHR ''a'' # CHR ''l'' # CHR ''s'' # CHR ''e'' # r)
     = Some (JBool False, r)"
  by (simp_all add: parse_value.simps)

lemma parse_number_text:
  assumes "printable ld v" and "v = JInt i \<or> v = JFloat q x"
  shows "reads_back ld a v"
proof (rule reads_backI [OF assms(1)])
  fix m r assume "stops r"
  then have num: "scan_number (ld_float ld) (json_text a v @ r) = Some (v, r)"
    by (rule number_text(1) [OF assms])
  obtain c t where c: "json_text a v = c # t" "is_digit c \<or> c = CHR ''-''"
    using number_text(2) [OF assms] by blast
  then have "c \<notin> {CHR 0x22, CHR ''{'', CHR ''['', CHR ''n'', CHR ''t'', CHR ''f''}"
    by (auto simp: is_digit_def)
  with num c(1) show "parse_value ld (Suc m) (json_text a v @ r) = Some (v, r)"
    by (simp add: parse_value.simps)
qed

lemma parse_list_text:
  assumes "printable ld (JList vs)" and "list_all (reads_back ld a) vs"
  shows "reads_back ld a (JList vs)"
proof (rule reads_backI [OF assms(1)])
  fix m r assume m: "2 * length (json_text a (JList vs)) \<le> m" and "stops r"
  show "parse_value ld (Suc m) (json_text a (JList vs) @ r) = Some (JList vs, r)"
  proof (cases vs)
    case Nil
    then show ?thesis by (simp add: parse_value.simps)
  next
    case (Cons w ws)
    let ?body = "join_comma (map (json_text a) vs) @ CHR '']'' # r"
    have "parse_items ld m ?body = Some (vs, r)"
      using assms(2) Cons m by (intro parse_items_text) auto
    moreover obtain c t where "?body = c # t" "token_start c"
      using assms(2) Cons text_start [of ld w a] by (cases ws) (auto simp: reads_back_def)
    ultimately show ?thesis
      by (simp add: parse_value.simps skip_ws_token token_start_def)
  qed
qed

lemma parse_dict_text:
  assumes "printable ld (JDict kvs)" and "list_all (\<lambda>kv. reads_back ld a (snd kv)) kvs"
    and "loader_ok ld"
  shows "reads_back ld a (JDict kvs)"
proof (rule reads_backI [OF assms(1)])
  fix m r assume m: "2 * length (json_text a (JDict kvs)) \<le> m" and "stops r"
  show "parse_value ld (Suc m) (json_text a (JDict kvs) @ r) = Some (JDict kvs, r)"
  proof (cases kvs)
    case Nil
    then show ?thesis by (simp add: parse_value.simps)
  next
    case (Cons w ws)
    let ?body = "join_comma (map (pair_text a) kvs) @ CHR ''}'' # r"
    have "parse_pairs ld m ?body = Some (kvs, r)"
      using assms(2) Cons m [unfolded json_text_dict] by (intro parse_pairs_text) auto
    moreover obtain t where "?body = CHR 0x22 # t"
      using Cons by (cases ws; cases w) (auto simp: pair_text_def json_quote_def)
    moreover have "ld_object ld kvs = Some (JDict kvs)"
      using assms(1,3) by (simp add: loader_ok_def)
    ultimately show ?thesis
      by (simp add: parse_value.simps json_text_dict del: json_text.simps(7))
  qed
qed

lemma parse_value_text: "loader_ok ld \<Longrightarrow> printable ld v \<Longrightarrow> reads_back ld a v"
proof (induction v)
  case (JList vs)
  then show ?case by (intro parse_list_text) (auto simp: list_all_iff)
next
  case (JDict kvs)
  then show ?case by (intro parse_dict_text) (fastforce simp: list_all_iff)+
next
  case (JStr s)
  then show ?case
    using scan_string_quote [of a s]
    by (intro reads_backI) (simp_all add: parse_value.simps json_quote_def)
next
  case (JNull)
  then show ?case by (intro reads_backI) (simp_all add: parse_word)
next
  case (JBool b)
  then show ?case by (intro reads_backI) (simp_all add: parse_word)
qed (simp_all add: parse_number_text)

section \<open>The text as a whole\<close>

lemma json_loads_text_text:
  assumes "loader_ok ld" and "printable ld v"
  shows "json_loads_text ld (json_text a v) = Some v"
proof -
  have "parse_value ld (2 * length (json_text a v) + 1) (json_text a v @ []) = Some (v, [])"
    using parse_value_text [OF assms, of a] by (intro reads_backD) auto
  then show ?thesis
    using skip_ws_text [OF assms(2), of a "[]"] by (simp add: json_loads_text_def)
qed

lemma make_dict_distinct: "distinct (map fst kvs) \<Longrightarrow> make_dict kvs = JDict kvs"
proof -
  have "distinct (map fst (d @ kvs)) \<Longrightarrow> dset_all fst snd kvs d = d @ kvs" for d
  proof (induction kvs arbitrary: d)
    case (Cons kv kvs)
    then have "dset (fst kv) (snd kv) d = d @ [kv]"
      by (induction d) auto
    with Cons show ?case by simp
  qed simp
  from this [of "[]"] show "distinct (map fst kvs) \<Longrightarrow> make_dict kvs = JDict kvs"
    by (simp add: make_dict_def)
qed

lemma plain_loader_ok: "loader_ok (plain_loader fl)"
  by (simp add: loader_ok_def plain_loader_def make_dict_distinct)

text \<open>Every string and every key of the value is ASCII.\<close>

primrec ascii_json :: "jval \<Rightarrow> bool" where
  "ascii_json JNull = True"
| "ascii_json (JBool b) = True"
| "ascii_json (JInt i) = True"
| "ascii_json (JFloat q r) = is_ascii r"
| "ascii_json (JStr s) = is_ascii s"
| "ascii_json (JList vs) = list_all id (map ascii_json vs)"
| "ascii_json (JDict kvs) =
     list_all (\<lambda>(k, ok). is_ascii k \<and> ok) (map (map_prod id ascii_json) kvs)"

lemma is_ascii_digits: "list_all is_digit s \<Longrightarrow> is_ascii s"
  by (auto simp: is_ascii_def is_digit_def list_all_iff)

lemma is_ascii_dec_of_int: "is_ascii (dec_of_int i)"
  by (simp add: dec_of_int_def is_ascii_digits dec_of_nat_digits)

lemma ord_hex_char: "n < 16 \<Longrightarrow> ord (hex_char n) < (128 :: nat)"
  by (simp add: hex_char_def)

lemma is_ascii_quote: "is_ascii s \<Longrightarrow> is_ascii (json_quote a s)"
  by (induction s) (auto simp: json_quote_def escape_char_def ord_hex_char)

lemma is_ascii_join: "list_all is_ascii ss \<Longrightarrow> is_ascii (join_comma ss)"
  by (induction ss rule: join_comma.induct) auto

lemma ascii_text: "ascii_json v \<Longrightarrow> is_ascii (json_text a v)"
proof (induction v)
  case (JDict kvs)
  then have "list_all is_ascii (map (pair_text a) kvs)"
    by (fastforce simp: pair_text_def list_all_iff is_ascii_quote)
  then show ?case unfolding json_text_dict by (simp add: is_ascii_join)
qed (auto simp: is_ascii_dec_of_int is_ascii_quote list_all_iff intro!: is_ascii_join)

lemma json_loads_text_ascii:
  assumes "printable (plain_loader fl) v" and "ascii_json v"
  shows "json_loads fl (json_text a v) = Some v"
  using json_loads_text_text [OF plain_loader_ok assms(1), of a] ascii_utf8_valid ascii_text assms(2)
  by (simp add: json_loads_def)

section \<open>Sorted keys\<close>

text \<open>The same value with the entries of every object in the order of their keys.\<close>

primrec sort_keys :: "jval \<Rightarrow> jval" where
  "sort_keys JNull = JNull"
| "sort_keys (JBool b) = JBool b"
| "sort_keys (JInt i) = JInt i"
| "sort_keys (JFloat q r) = JFloat q r"
| "sort_keys (JStr s) = JStr s"
| "sort_keys (JList vs) = JList (map sort_keys vs)"
| "sort_keys (JDict kvs) = JDict (sort_key fst (map (map_prod id sort_keys) kvs))"

lemma sort_key_map_prod:
  fixes f :: "'a \<Rightarrow> 'b" and kvs :: "('k :: linorder \<times> 'a) list"
  shows "sort_key fst (map (map_prod id f) kvs) = map (map_prod id f) (sort_key fst kvs)"
proof -
  have insort: "insort_key fst (k, f v) (map (map_prod id f) xs)
      = map (map_prod id f) (insort_key fst (k, v) xs)"
    for k :: 'k and v and xs :: "('k \<times> 'a) list"
    by (induction xs) auto
  show ?thesis
  proof (induction kvs)
    case (Cons kv kvs)
    then show ?case
      unfolding id_def using insort [of "fst kv" "snd kv" "sort_key fst kvs", unfolded id_def]
      by (cases kv) simp
  qed simp
qed

lemma distinct_sort_key_fst: "distinct (map fst kvs) \<Longrightarrow> distinct (map fst (sort_key fst kvs))"
  by (metis distinct_map distinct_sort set_sort)

lemma json_dumps_text: "json_dumps a v = json_text a (sort_keys v)"
proof (induction v)
  case (JDict kvs)
  then have "map (map_prod id (json_dumps a)) kvs
      = map (map_prod id (json_text a)) (map (map_prod id sort_keys) kvs)"
    by (fastforce simp: list_all_iff)
  then show ?case
    by (simp add: sort_key_map_prod [symmetric] del: map_map)
qed (auto simp: list_all_iff intro: arg_cong [of _ _ join_comma])

lemma printable_sort_keys: "printable ld v \<Longrightarrow> printable ld (sort_keys v)"
proof (induction v)
  case (JDict kvs)
  then show ?case
    by (fastforce simp: list_all_iff sort_key_map_prod comp_def intro: distinct_sort_key_fst)
qed (auto simp: list_all_iff)

lemma ascii_sort_keys: "ascii_json v \<Longrightarrow> ascii_json (sort_keys v)"
  by (induction v) (fastforce simp: list_all_iff)+

lemma json_loads_dumps:
  assumes "printable (plain_loader fl) v" and "ascii_json v"
  shows "json_loads fl (json_dumps a v) = Some (sort_keys v)"
  using json_loads_text_ascii [OF printable_sort_keys [OF assms(1)] ascii_sort_keys [OF assms(2)]]
  by (simp add: json_dumps_text)

lemma sort_keys_idem: "sort_keys (sort_keys v) = sort_keys v"
proof (induction v)
  case (JDict kvs)
  then have "map (map_prod id sort_keys) (map (map_prod id sort_keys) kvs)
      = map (map_prod id sort_keys) kvs"
    by (fastforce simp: list_all_iff)
  then show ?case
    by (simp add: sort_key_map_prod [symmetric] sort_key_id_if_sorted del: map_map)
qed (auto simp: list_all_iff)

lemma json_dumps_sort_keys: "json_dumps a (sort_keys v) = json_dumps a v"
  by (simp add: json_dumps_text sort_keys_idem)

lemma map_of_sort_key:
  assumes "distinct (map fst kvs)"
  shows "map_of (sort_key fst kvs) = map_of kvs"
  using assms distinct_sort_key_fst [OF assms] by (auto intro: map_of_eqI simp: map_of_inject_set)

end
