(* ===== verification/Json_Fuel.thy ===== *)
theory Json_Fuel
  imports Json_Laws
begin

text \<open>
  The fuel of the JSON parser is enough: from \<open>2 * length s + 1\<close> units on its result no longer
  depends on it.
\<close>

lemma skip_ws_length: "length (skip_ws s) \<le> length s"
  by (simp add: skip_ws_def length_dropWhile_le)

lemma scan_string_length: "scan_string s = Some (v, r) \<Longrightarrow> length r < length s"
proof (induction s arbitrary: v r rule: scan_string.induct)
  case (1 s)
  show ?case
  proof (cases s)
    case Nil
    with "1.prems" show ?thesis by (simp add: scan_string.simps)
  next
    case (Cons c t)
    show ?thesis
    proof (cases "c = CHR 0x5C")
      case False
      with "1.prems" Cons "1.IH"(3) [OF Cons] show ?thesis
        by (subst (asm) scan_string.simps) (fastforce split: if_splits)
    next
      case True
      with "1.prems" Cons obtain d u where t: "t = d # u"
        by (subst (asm) scan_string.simps) (auto split: list.splits)
      show ?thesis
      proof (cases "d = CHR ''u''")
        case True
        with \<open>c = _\<close> "1.prems" Cons t obtain e w x where e: "scan_unicode u = Some (e, w)"
          "scan_string w = Some (x, r)"
          by (subst (asm) scan_string.simps) (auto split: option.splits)
        have "length r < length w"
          by (rule "1.IH"(1) [OF Cons _ \<open>c = _\<close> t True e(1) refl e(2)]) (simp add: \<open>c = _\<close>)
        with scan_unicode_length [OF e(1)] show ?thesis by (simp add: Cons t)
      next
        case False
        with \<open>c = _\<close> "1.prems" Cons t obtain e x where e: "unescape d = Some e"
          "scan_string u = Some (x, r)"
          by (subst (asm) scan_string.simps) (auto split: option.splits)
        have "length r < length u"
          by (rule "1.IH"(2) [OF Cons _ \<open>c = _\<close> t False e(1) e(2)]) (simp add: \<open>c = _\<close>)
        then show ?thesis by (simp add: Cons t)
      qed
    qed
  qed
qed

lemma scan_fraction_length: "scan_fraction s = (f, r) \<Longrightarrow> length r \<le> length s"
  by (cases s) (auto simp: scan_fraction_def length_dropWhile_le le_SucI Let_def split: if_splits)

lemma scan_exponent_length: "scan_exponent s = (f, r) \<Longrightarrow> length r \<le> length s"
  by (cases s)
    (auto simp: scan_exponent_def Let_def split: if_splits list.splits
      intro: le_SucI le_trans [OF length_dropWhile_le])

lemma scan_number_length:
  assumes "scan_number fl s = Some (v, r)"
  shows "length r < length s"
proof -
  define t where "t = (if (case s of c # _ \<Rightarrow> c = CHR ''-'' | [] \<Rightarrow> False) then tl s else s)"
  define ip where "ip = int_part (takeWhile is_digit t)"
  obtain f x where f: "scan_fraction (drop (length ip) t) = (f, x)" by (cases "scan_fraction (drop (length ip) t)")
  obtain e w where e: "scan_exponent x = (e, w)" by (cases "scan_exponent x")
  have "ip \<noteq> [] \<and> r = w"
    using assms f e unfolding scan_number_def Let_def t_def [symmetric] ip_def [symmetric]
    by (auto split: if_splits)
  moreover have "length t \<le> length s" by (simp add: t_def)
  moreover from calculation have "t \<noteq> []" by (auto simp: ip_def int_part_def)
  ultimately show ?thesis
    using scan_fraction_length [OF f] scan_exponent_length [OF e] by (cases ip; cases t) auto
qed

lemma skip_ws_Cons: "skip_ws s = c # t \<Longrightarrow> length t < length s"
  using skip_ws_length [of s] by simp

definition shrinks :: "nat \<Rightarrow> loader \<Rightarrow> bool" where
  "shrinks n ld \<longleftrightarrow>
     (\<forall>s v r. parse_value ld n s = Some (v, r) \<longrightarrow> length r < length s) \<and>
     (\<forall>s vs r. parse_items ld n s = Some (vs, r) \<longrightarrow> length r < length s) \<and>
     (\<forall>s kvs r. parse_pairs ld n s = Some (kvs, r) \<longrightarrow> length r < length s)"

lemma shrinks_value:
  assumes "shrinks n ld" and "parse_value ld (Suc n) s = Some (v, r)"
  shows "length r < length s"
proof (cases s)
  case Nil
  with assms(2) show ?thesis by (simp add: parse_value.simps)
next
  case (Cons c t)
  consider "c = CHR 0x22" | "c = CHR ''{''" | "c = CHR ''[''"
    | "c \<notin> {CHR 0x22, CHR ''{'', CHR ''[''}" by blast
  then show ?thesis
  proof cases
    case 1
    with assms(2) Cons show ?thesis
      by (auto simp: parse_value.simps dest: scan_string_length)
  next
    case 2
    with assms(2) Cons obtain d u where d: "skip_ws t = d # u"
      by (auto simp: parse_value.simps split: list.splits)
    consider "d = CHR ''}''" "r = u" | kvs where "parse_pairs ld n (d # u) = Some (kvs, r)"
      using 2 assms(2) Cons d
      by (auto simp: parse_value.simps split: if_splits option.splits)
    then have "length r < Suc (length u)"
      using assms(1) by cases (fastforce simp: shrinks_def)+
    with skip_ws_Cons [OF d] Cons show ?thesis by simp
  next
    case 3
    with assms(2) Cons obtain d u where d: "skip_ws t = d # u"
      by (auto simp: parse_value.simps split: list.splits)
    with 3 assms Cons have "length r < Suc (length u)"
      by (fastforce simp: parse_value.simps shrinks_def split: if_splits)
    with skip_ws_Cons [OF d] Cons show ?thesis by simp
  next
    case 4
    moreover have "take k s \<noteq> [] \<Longrightarrow> k \<noteq> 0 \<Longrightarrow> length (drop k s) < length s" for k by simp
    ultimately show ?thesis
      using assms(2) Cons scan_number_length [of "ld_float ld" s v r]
      by (auto simp: parse_value.simps split: if_splits)
  qed
qed

lemma shrinks_items:
  assumes "shrinks n ld" and "parse_items ld (Suc n) s = Some (vs, r)"
  shows "length r < length s"
proof -
  from assms(2) obtain v w where v: "parse_value ld n s = Some (v, w)"
    by (auto simp: parse_items.simps split: option.splits)
  with assms(2) obtain c u where c: "skip_ws w = c # u"
    by (auto simp: parse_items.simps split: list.splits)
  from v assms(1) have "length w < length s" by (auto simp: shrinks_def)
  moreover have "length r \<le> length u"
    using assms v c skip_ws_length [of u]
    by (fastforce simp: parse_items.simps shrinks_def split: if_splits)
  ultimately show ?thesis using skip_ws_Cons [OF c] by simp
qed

definition pair_start :: "string \<Rightarrow> string \<Rightarrow> string \<Rightarrow> string \<Rightarrow> string \<Rightarrow> bool" where
  "pair_start s t k w u \<longleftrightarrow>
     s = CHR 0x22 # t \<and> scan_string t = Some (k, w) \<and> skip_ws w = CHR '':'' # u"

lemma parse_pairs_start:
  assumes "parse_pairs ld (Suc n) s = Some p"
  obtains t k w u where "pair_start s t k w u"
proof -
  from assms obtain t where t: "s = CHR 0x22 # t"
    by (auto simp: parse_pairs.simps split: list.splits if_splits)
  with assms obtain k w where k: "scan_string t = Some (k, w)"
    by (auto simp: parse_pairs.simps split: option.splits)
  with assms t obtain u where u: "skip_ws w = CHR '':'' # u"
    by (auto simp: parse_pairs.simps split: list.splits if_splits)
  with t k that show ?thesis by (simp add: pair_start_def)
qed

lemma shrinks_pairs:
  assumes "shrinks n ld" and "parse_pairs ld (Suc n) s = Some (kvs, r)"
  shows "length r < length s"
proof -
  obtain t k w u where t: "s = CHR 0x22 # t" and k: "scan_string t = Some (k, w)"
    and u: "skip_ws w = CHR '':'' # u"
    by (rule parse_pairs_start [OF assms(2)]) (auto simp: pair_start_def)
  with assms(2) t k obtain v x where v: "parse_value ld n (skip_ws u) = Some (v, x)"
    by (auto simp: parse_pairs.simps split: option.splits)
  with assms(2) t k u obtain d y where d: "skip_ws x = d # y"
    by (auto simp: parse_pairs.simps split: list.splits)
  have "length r \<le> length y"
    using assms t k u v d skip_ws_length [of y]
    by (fastforce simp: parse_pairs.simps shrinks_def split: if_splits)
  moreover have "length x < length (skip_ws u)" using v assms(1) by (auto simp: shrinks_def)
  ultimately show ?thesis
    using skip_ws_Cons [OF d] skip_ws_length [of u] skip_ws_Cons [OF u] scan_string_length [OF k]
    by (simp add: t)
qed

lemma parse_shrinks: "shrinks n ld"
proof (induction n)
  case 0
  then show ?case
    by (simp add: shrinks_def parse_value.simps parse_items.simps parse_pairs.simps)
next
  case (Suc n)
  with shrinks_value shrinks_items shrinks_pairs show ?case
    unfolding shrinks_def [of "Suc n"] by blast
qed

definition steady :: "nat \<Rightarrow> loader \<Rightarrow> bool" where
  "steady n ld \<longleftrightarrow>
     (\<forall>s. 2 * length s + 1 \<le> n \<longrightarrow> parse_value ld (Suc n) s = parse_value ld n s) \<and>
     (\<forall>s. 2 * length s + 2 \<le> n \<longrightarrow> parse_items ld (Suc n) s = parse_items ld n s) \<and>
     (\<forall>s. 2 * length s + 2 \<le> n \<longrightarrow> parse_pairs ld (Suc n) s = parse_pairs ld n s)"

lemma steadyD:
  "steady n ld \<Longrightarrow> 2 * length s + 1 \<le> n \<Longrightarrow> parse_value ld (Suc n) s = parse_value ld n s"
  "steady n ld \<Longrightarrow> 2 * length s + 2 \<le> n \<Longrightarrow> parse_items ld (Suc n) s = parse_items ld n s"
  "steady n ld \<Longrightarrow> 2 * length s + 2 \<le> n \<Longrightarrow> parse_pairs ld (Suc n) s = parse_pairs ld n s"
  by (simp_all add: steady_def)

lemma steady_value:
  assumes "steady n ld" and "2 * length s + 1 \<le> Suc n"
  shows "parse_value ld (Suc (Suc n)) s = parse_value ld (Suc n) s"
proof (cases s)
  case Nil
  then show ?thesis by (simp add: parse_value.simps)
next
  case (Cons c t)
  have "2 * length (d # u) + 2 \<le> n" if "skip_ws t = d # u" for d u
    using skip_ws_length [of t] that assms(2) Cons by simp
  with Cons assms(1) show ?thesis
    by (simp add: parse_value.simps steadyD(2,3) split: list.split)
qed

lemma steady_items:
  assumes "steady n ld" and "2 * length s + 2 \<le> Suc n"
  shows "parse_items ld (Suc (Suc n)) s = parse_items ld (Suc n) s"
proof -
  have val: "parse_value ld (Suc n) s = parse_value ld n s"
    using assms by (intro steadyD(1)) auto
  show ?thesis
  proof (cases "parse_value ld n s")
    case None
    then show ?thesis by (simp add: parse_items.simps(2) [of ld _ s] val)
  next
    case (Some p)
    then obtain v w where p: "parse_value ld n s = Some (v, w)" by (cases p) auto
    then have "length w < length s" using parse_shrinks [of n ld] by (auto simp: shrinks_def)
    then have "2 * length (skip_ws u) + 2 \<le> n" if "skip_ws w = c # u" for c u
      using skip_ws_Cons [OF that] skip_ws_length [of u] assms(2) by simp
    with assms(1) show ?thesis
      by (simp add: parse_items.simps(2) [of ld _ s] val p steadyD(2) split: list.split)
  qed
qed

lemma steady_pairs:
  assumes "steady n ld" and "2 * length s + 2 \<le> Suc n"
  shows "parse_pairs ld (Suc (Suc n)) s = parse_pairs ld (Suc n) s"
proof (cases "\<exists>t k w u. pair_start s t k w u")
  case False
  then have "parse_pairs ld (Suc m) s = None" for m
    by (cases "parse_pairs ld (Suc m) s") (auto elim: parse_pairs_start)
  then show ?thesis by simp
next
  case True
  then obtain t k w u where u: "s = CHR 0x22 # t" "scan_string t = Some (k, w)"
    "skip_ws w = CHR '':'' # u" by (auto simp: pair_start_def)
  then have short: "length (skip_ws u) < length s"
    using skip_ws_Cons [OF u(3)] skip_ws_length [of u] scan_string_length [OF u(2)] by simp
  have val: "parse_value ld (Suc n) (skip_ws u) = parse_value ld n (skip_ws u)"
    using assms short by (intro steadyD(1)) auto
  show ?thesis
  proof (cases "parse_value ld n (skip_ws u)")
    case None
    with u show ?thesis
      by (simp add: parse_pairs.simps(2) [of ld _ "CHR 0x22 # t"] val)
  next
    case (Some p)
    then obtain v x where p: "parse_value ld n (skip_ws u) = Some (v, x)" by (cases p) auto
    then have "length x < length (skip_ws u)"
      using parse_shrinks [of n ld] by (auto simp: shrinks_def)
    then have "2 * length (skip_ws y) + 2 \<le> n" if "skip_ws x = d # y" for d y
      using skip_ws_Cons [OF that] skip_ws_length [of y] assms(2) short by simp
    with assms(1) u show ?thesis
      by (simp add: parse_pairs.simps(2) [of ld _ "CHR 0x22 # t"] val p steadyD(3) split: list.split)
  qed
qed

lemma parse_steady: "steady n ld"
proof (induction n)
  case 0
  then show ?case by (simp add: steady_def)
next
  case (Suc n)
  with steady_value steady_items steady_pairs show ?case
    unfolding steady_def [of "Suc n"] by blast
qed

lemma parse_fuel:
  "2 * length s + 1 \<le> n \<Longrightarrow> parse_value ld n s = parse_value ld (2 * length s + 1) s"
  by (induction n rule: dec_induct) (simp_all add: steadyD(1) [OF parse_steady])

end
