(* ===== verification/Python_Env.thy ===== *)
theory Python_Env
  imports Json_Laws
begin

text \<open>
  What the source takes from the interpreter's library and is not computed here: the ISO text of
  a datetime and its parser, the conversion of decimal text to a float, \<open>repr\<close> of a float, and
  SHA-256.  The record
  \<open>py_env\<close> is a parameter of the definitions that use them; \<open>py_env_ok\<close> states the documented
  behaviour some theorems rely on, and \<open>plain_py_env\<close> is an environment that has it.
\<close>

record py_env =
  pe_iso :: "int \<Rightarrow> string"
  pe_iso_parse :: "string \<Rightarrow> int option"
  pe_float :: "string \<Rightarrow> jval option"
  pe_repr :: "rat \<Rightarrow> string"
  pe_sha256 :: "string \<Rightarrow> string"

definition py_env_ok :: "py_env \<Rightarrow> bool" where
  "py_env_ok env \<longleftrightarrow>
     (\<forall>t. pe_iso_parse env (pe_iso env t) = Some t) \<and>
     (\<forall>s. is_digest (pe_sha256 env s)) \<and>
     (\<forall>s v. pe_float env s = Some v \<longrightarrow> (\<exists>q r. v = JFloat q r))"

definition plain_py_env :: py_env where
  "plain_py_env = \<lparr>pe_iso = dec_of_int, pe_iso_parse = py_int, pe_float = (\<lambda>s. None),
     pe_repr = (\<lambda>q. dec_of_int (floor q)), pe_sha256 = (\<lambda>s. replicate 64 (CHR ''0''))\<rparr>"

lemma plain_py_env_ok: "py_env_ok plain_py_env"
  by (simp add: py_env_ok_def plain_py_env_def py_int_dec_of_int is_digest_def is_hex_lower_def list_all_iff
    is_digit_def)

end
