(* ===== verification/Evidence_Codec.thy ===== *)
theory Evidence_Codec
  imports Evidence Python_Env "HOL-Library.Product_Lexorder"
begin

text \<open>
  The JSON form of a capture, \<open>_agent_capture_to_json\<close> and \<open>_agent_capture_from_json\<close> of
  \<open>verdict/evidence.py\<close>.  Reading back runs every constructor again, so that the exceptions of
  a malformed payload are values: almost all become \<open>ValueError\<close>, but the \<open>AttributeError\<close> of
  \<open>content.encode\<close> on a content that is not text and the \<open>OverflowError\<close> of \<open>float\<close> on a huge
  latency escape.  Six optional names may hold any false value (\<open>null\<close>, \<open>0\<close>, ...) in the source;
  such a record has no counterpart here and is refused.
\<close>

section \<open>Writing\<close>

definition opt_json :: "('a \<Rightarrow> jval) \<Rightarrow> 'a option \<Rightarrow> jval" where
  "opt_json f v = (case v of None \<Rightarrow> JNull | Some x \<Rightarrow> f x)"

text \<open>An entry that is left out when its value is the empty one.\<close>

definition unless_empty :: "jval \<Rightarrow> string \<times> jval \<Rightarrow> (string \<times> jval) list" where
  "unless_empty blank kv = (if snd kv = blank then [] else [kv])"

definition session_payload :: "py_env \<Rightarrow> source_session \<Rightarrow> (string, jval) dict" where
  "session_payload env s =
     [(''source_session_id'', JStr (s_source_session_id s)),
      (''tenant_id'', JStr (s_tenant_id s)),
      (''source_kind'', JStr (s_source_kind s)),
      (''source_locator_hash'', JStr (s_source_locator_hash s)),
      (''started_at'', JStr (pe_iso env (s_started_at s))),
      (''observed_at'', JStr (pe_iso env (s_observed_at s))),
      (''ended_at'', opt_json (\<lambda>t. JStr (pe_iso env t)) (s_ended_at s))]"

definition run_payload :: "py_env \<Rightarrow> agent_run \<Rightarrow> (string, jval) dict" where
  "run_payload env r =
     [(''run_id'', JStr (r_run_id r)),
      (''source_session_id'', JStr (r_source_session_id r)),
      (''tenant_id'', JStr (r_tenant_id r)),
      (''started_at'', JStr (pe_iso env (r_started_at r))),
      (''status'', JStr (execution_status_value (r_status r))),
      (''ended_at'', opt_json (\<lambda>t. JStr (pe_iso env t)) (r_ended_at r)),
      (''agent_name'', JStr (r_agent_name r)),
      (''agent_version'', JStr (r_agent_version r)),
      (''configuration_fingerprint'', JStr (r_configuration_fingerprint r))]
     @ unless_empty JNull (''session_id'', opt_json JStr (r_session_id r))
     @ unless_empty JNull (''parent_run_id'', opt_json JStr (r_parent_run_id r))
     @ unless_empty (JStr []) (''service_name'', JStr (r_service_name r))
     @ unless_empty (JStr []) (''environment'', JStr (r_environment r))
     @ unless_empty (JStr []) (''instance_id'', JStr (r_instance_id r))"

definition turn_payload :: "py_env \<Rightarrow> agent_turn \<Rightarrow> (string, jval) dict" where
  "turn_payload env t =
     [(''turn_id'', JStr (t_turn_id t)),
      (''run_id'', JStr (t_run_id t)),
      (''sequence'', JInt (t_sequence t)),
      (''started_at'', JStr (pe_iso env (t_started_at t))),
      (''status'', JStr (execution_status_value (t_status t))),
      (''ended_at'', opt_json (\<lambda>u. JStr (pe_iso env u)) (t_ended_at t)),
      (''user_request_redacted'', opt_json JStr (t_user_request_redacted t)),
      (''final_response_redacted'', opt_json JStr (t_final_response_redacted t)),
      (''request_state'', JStr (evidence_state_value (t_request_state t))),
      (''response_state'', JStr (evidence_state_value (t_response_state t)))]
     @ unless_empty JNull (''input_tokens'', opt_json JInt (t_input_tokens t))
     @ unless_empty JNull (''cached_input_tokens'', opt_json JInt (t_cached_input_tokens t))
     @ unless_empty JNull (''cache_write_input_tokens'', opt_json JInt (t_cache_write_input_tokens t))
     @ unless_empty JNull (''output_tokens'', opt_json JInt (t_output_tokens t))
     @ unless_empty JNull (''reasoning_output_tokens'', opt_json JInt (t_reasoning_output_tokens t))
     @ unless_empty JNull (''total_tokens'', opt_json JInt (t_total_tokens t))
     @ unless_empty JNull (''token_usage_basis'', opt_json JStr (t_token_usage_basis t))
     @ unless_empty (JBool False) (''request_truncated'', JBool (t_request_truncated t))
     @ unless_empty (JBool False) (''response_truncated'', JBool (t_response_truncated t))
     @ [(''progress_redacted'', opt_json JStr (t_progress_redacted t))]"

definition event_payload :: "py_env \<Rightarrow> agent_event \<Rightarrow> (string, jval) dict" where
  "event_payload env e =
     [(''event_id'', JStr (e_event_id e)),
      (''turn_id'', JStr (e_turn_id e)),
      (''sequence'', JInt (e_sequence e)),
      (''occurred_at'', JStr (pe_iso env (e_occurred_at e))),
      (''event_type'', JStr (event_type_value (e_event_type e))),
      (''status'', JStr (execution_status_value (e_status e))),
      (''provenance'', JStr (e_provenance e)),
      (''attributes'', JDict (e_attributes e)),
      (''privacy_classification'', JStr (privacy_value (e_privacy e))),
      (''omission_reason'', opt_json JStr (e_omission_reason e)),
      (''trace_id'', opt_json JStr (e_trace_id e))]
     @ unless_empty (JStr []) (''producer_id'', JStr (e_producer_id e))
     @ unless_empty JNull (''producer_sequence'', opt_json JInt (e_producer_sequence e))
     @ unless_empty JNull (''parent_event_id'', opt_json JStr (e_parent_event_id e))"

definition order_turns :: "agent_turn list \<Rightarrow> agent_turn list" where
  "order_turns ts = sort_key (\<lambda>t. (t_sequence t, t_turn_id t)) ts"

definition order_events :: "agent_event list \<Rightarrow> agent_event list" where
  "order_events es = sort_key (\<lambda>e. (e_turn_id e, e_sequence e, e_event_id e)) es"

definition capture_payload :: "py_env \<Rightarrow> agent_capture \<Rightarrow> jval" where
  "capture_payload env c = JDict
     [(''session'', JDict (session_payload env (c_session c))),
      (''run'', JDict (run_payload env (c_run c))),
      (''turns'', JList (map (\<lambda>t. JDict (turn_payload env t)) (order_turns (c_turns c)))),
      (''events'', JList (map (\<lambda>e. JDict (event_payload env e)) (order_events (c_events c))))]"

definition max_bundle_json_bytes :: nat where
  "max_bundle_json_bytes = 4194304"

definition agent_capture_to_json :: "py_env \<Rightarrow> agent_capture \<Rightarrow> string result" where
  "agent_capture_to_json env c =
     (let encoded = json_dumps False (capture_payload env c) in
      if max_bundle_json_bytes < length encoded
      then Inl (ValueError ''agent run bundle exceeds the compatibility serialization limit'')
      else Inr encoded)"

section \<open>Reading fields\<close>

abbreviation ill_typed :: py_error where
  "ill_typed \<equiv> ValueError ''agent run bundle JSON has invalid typed fields''"

definition field :: "(string, jval) dict \<Rightarrow> string \<Rightarrow> jval" where
  "field d name = (case dget d name of None \<Rightarrow> JNull | Some v \<Rightarrow> v)"

definition text_of :: "jval \<Rightarrow> string result" where
  "text_of v = (case v of JStr s \<Rightarrow> Inr s | _ \<Rightarrow> Inl ill_typed)"

definition int_of :: "jval \<Rightarrow> int result" where
  "int_of v = (case v of JInt n \<Rightarrow> Inr n | _ \<Rightarrow> Inl ill_typed)"

definition opt_of :: "(jval \<Rightarrow> 'a result) \<Rightarrow> jval \<Rightarrow> 'a option result" where
  "opt_of f v = (if v = JNull then Inr None else bindr (f v) (\<lambda>x. Inr (Some x)))"

definition default_of :: "(jval \<Rightarrow> 'a result) \<Rightarrow> 'a \<Rightarrow> (string, jval) dict \<Rightarrow> string \<Rightarrow> 'a result" where
  "default_of f blank d name = (case dget d name of None \<Rightarrow> Inr blank | Some v \<Rightarrow> f v)"

definition bool_of :: "jval \<Rightarrow> bool result" where
  "bool_of v = (case v of JBool b \<Rightarrow> Inr b | _ \<Rightarrow> Inl ill_typed)"

definition time_of :: "py_env \<Rightarrow> jval \<Rightarrow> int result" where
  "time_of env v =
     (case v of JStr s \<Rightarrow> (case pe_iso_parse env s of None \<Rightarrow> Inl ill_typed | Some t \<Rightarrow> Inr t)
      | _ \<Rightarrow> Inl ill_typed)"

definition enum_of :: "('a \<Rightarrow> string) \<Rightarrow> 'a list \<Rightarrow> jval \<Rightarrow> 'a result" where
  "enum_of value members v =
     (case v of
        JStr s \<Rightarrow> (case List.find (\<lambda>m. value m = s) members of None \<Rightarrow> Inl ill_typed | Some m \<Rightarrow> Inr m)
      | _ \<Rightarrow> Inl ill_typed)"

definition status_of :: "jval \<Rightarrow> execution_status result" where
  "status_of = enum_of execution_status_value [COMPLETED, FAILED, TIMED_OUT, CANCELLED, UNKNOWN]"

definition state_of :: "jval \<Rightarrow> evidence_state result" where
  "state_of = enum_of evidence_state_value [PRESENT, MISSING, NOT_CAPTURED, NOT_APPLICABLE]"

definition privacy_of :: "jval \<Rightarrow> privacy_classification result" where
  "privacy_of = enum_of privacy_value [METADATA, REDACTED, OMITTED]"

definition event_type_of :: "jval \<Rightarrow> agent_event_type result" where
  "event_type_of = enum_of event_type_value
     [INSTRUCTION, CONTEXT, MODEL_CALL, TOOL_CALL, TOOL_RESULT, COMMAND, TEST_RESULT, ARTIFACT,
      SUBAGENT, RETRY, FEEDBACK, OUTCOME]"

text \<open>The checks of \<open>AgentTurn\<close> on one content, which calls \<open>content.encode\<close> whatever it is.\<close>

definition content_of :: "evidence_state \<Rightarrow> jval \<Rightarrow> string option result" where
  "content_of state v =
     (if v = JNull
      then (if state = PRESENT then Inl ill_typed else Inr None)
      else if state \<noteq> PRESENT then Inl ill_typed
      else (case v of
          JStr s \<Rightarrow> (if 65536 < length s then Inl ill_typed else Inr (Some s))
        | _ \<Rightarrow> Inl (AttributeError ''content has no attribute encode'')))"

section \<open>Reading records\<close>

definition required_text :: "string \<Rightarrow> jval \<Rightarrow> string result" where
  "required_text name v =
     bindr (text_of v) (\<lambda>s. bindr (validate_text s name 256) (\<lambda>_. Inr s))"

definition sequence_of :: "jval \<Rightarrow> int result" where
  "sequence_of v =
     bindr (int_of v) (\<lambda>n. bindr (require (0 \<le> n) ill_typed) (\<lambda>_. Inr n))"

definition read_session :: "py_env \<Rightarrow> (string, jval) dict \<Rightarrow> source_session result" where
  "read_session env d =
     bindr (time_of env (field d ''started_at'')) (\<lambda>started.
     bindr (time_of env (field d ''observed_at'')) (\<lambda>observed.
     bindr (opt_of (time_of env) (field d ''ended_at'')) (\<lambda>ended.
     bindr (text_of (field d ''source_session_id'')) (\<lambda>source_session_id.
     bindr (text_of (field d ''tenant_id'')) (\<lambda>tenant_id.
     bindr (text_of (field d ''source_kind'')) (\<lambda>source_kind.
     bindr (text_of (field d ''source_locator_hash'')) (\<lambda>locator.
     post_init source_session_checks
       \<lparr>s_source_session_id = source_session_id, s_tenant_id = tenant_id,
        s_source_kind = source_kind, s_source_locator_hash = locator,
        s_started_at = started, s_observed_at = observed, s_ended_at = ended\<rparr>)))))))"

definition read_run :: "py_env \<Rightarrow> (string, jval) dict \<Rightarrow> agent_run result" where
  "read_run env d =
     bindr (time_of env (field d ''started_at'')) (\<lambda>started.
     bindr (status_of (field d ''status'')) (\<lambda>status.
     bindr (opt_of (time_of env) (field d ''ended_at'')) (\<lambda>ended.
     bindr (text_of (field d ''run_id'')) (\<lambda>run_id.
     bindr (text_of (field d ''source_session_id'')) (\<lambda>source_session_id.
     bindr (text_of (field d ''tenant_id'')) (\<lambda>tenant_id.
     bindr (default_of text_of [] d ''agent_name'') (\<lambda>agent_name.
     bindr (default_of text_of [] d ''agent_version'') (\<lambda>agent_version.
     bindr (default_of text_of [] d ''configuration_fingerprint'') (\<lambda>fingerprint.
     bindr (opt_of text_of (field d ''session_id'')) (\<lambda>session_id.
     bindr (opt_of text_of (field d ''parent_run_id'')) (\<lambda>parent_run_id.
     bindr (default_of text_of [] d ''service_name'') (\<lambda>service_name.
     bindr (default_of text_of [] d ''environment'') (\<lambda>environment.
     bindr (default_of text_of [] d ''instance_id'') (\<lambda>instance_id.
     post_init agent_run_checks
       \<lparr>r_run_id = run_id, r_source_session_id = source_session_id, r_tenant_id = tenant_id,
        r_started_at = started, r_status = status, r_ended_at = ended,
        r_agent_name = agent_name, r_agent_version = agent_version,
        r_configuration_fingerprint = fingerprint, r_session_id = session_id,
        r_parent_run_id = parent_run_id, r_service_name = service_name,
        r_environment = environment, r_instance_id = instance_id\<rparr>))))))))))))))"

definition read_turn :: "py_env \<Rightarrow> (string, jval) dict \<Rightarrow> agent_turn result" where
  "read_turn env d =
     bindr (time_of env (field d ''started_at'')) (\<lambda>started.
     bindr (status_of (field d ''status'')) (\<lambda>status.
     bindr (opt_of (time_of env) (field d ''ended_at'')) (\<lambda>ended.
     bindr (state_of (field d ''request_state'')) (\<lambda>request_state.
     bindr (state_of (field d ''response_state'')) (\<lambda>response_state.
     bindr (required_text ''turn_id'' (field d ''turn_id'')) (\<lambda>turn_id.
     bindr (required_text ''run_id'' (field d ''run_id'')) (\<lambda>run_id.
     bindr (sequence_of (field d ''sequence'')) (\<lambda>sequence.
     bindr (content_of request_state (field d ''user_request_redacted'')) (\<lambda>request.
     bindr (content_of response_state (field d ''final_response_redacted'')) (\<lambda>response.
     bindr (opt_of text_of (field d ''progress_redacted'')) (\<lambda>progress.
     bindr (opt_of int_of (field d ''input_tokens'')) (\<lambda>input_tokens.
     bindr (opt_of int_of (field d ''cached_input_tokens'')) (\<lambda>cached.
     bindr (opt_of int_of (field d ''cache_write_input_tokens'')) (\<lambda>cache_write.
     bindr (opt_of int_of (field d ''output_tokens'')) (\<lambda>output_tokens.
     bindr (opt_of int_of (field d ''reasoning_output_tokens'')) (\<lambda>reasoning.
     bindr (opt_of int_of (field d ''total_tokens'')) (\<lambda>total.
     bindr (opt_of text_of (field d ''token_usage_basis'')) (\<lambda>basis.
     bindr (default_of bool_of False d ''request_truncated'') (\<lambda>request_truncated.
     bindr (default_of bool_of False d ''response_truncated'') (\<lambda>response_truncated.
     post_init agent_turn_checks
       \<lparr>t_turn_id = turn_id, t_run_id = run_id, t_sequence = sequence, t_started_at = started,
        t_status = status, t_ended_at = ended, t_user_request_redacted = request,
        t_final_response_redacted = response, t_request_state = request_state,
        t_response_state = response_state, t_input_tokens = input_tokens,
        t_cached_input_tokens = cached, t_cache_write_input_tokens = cache_write,
        t_output_tokens = output_tokens, t_reasoning_output_tokens = reasoning,
        t_total_tokens = total, t_token_usage_basis = basis,
        t_request_truncated = request_truncated, t_response_truncated = response_truncated,
        t_progress_redacted = progress\<rparr>))))))))))))))))))))"

text \<open>\<open>AgentEvent\<close> checks its attributes before the types of the fields that follow them.\<close>

definition attributes_of :: "agent_event_type \<Rightarrow> jval \<Rightarrow> (string, jval) dict result" where
  "attributes_of event_type v =
     (case v of
        JDict kvs \<Rightarrow> bindr (validate_attributes event_type kvs) (\<lambda>_. Inr kvs)
      | _ \<Rightarrow> Inl ill_typed)"

definition read_event :: "py_env \<Rightarrow> (string, jval) dict \<Rightarrow> agent_event result" where
  "read_event env d =
     bindr (time_of env (field d ''occurred_at'')) (\<lambda>occurred.
     bindr (event_type_of (field d ''event_type'')) (\<lambda>event_type.
     bindr (status_of (field d ''status'')) (\<lambda>status.
     bindr (privacy_of (field d ''privacy_classification'')) (\<lambda>privacy.
     bindr (required_text ''event_id'' (field d ''event_id'')) (\<lambda>event_id.
     bindr (required_text ''turn_id'' (field d ''turn_id'')) (\<lambda>turn_id.
     bindr (sequence_of (field d ''sequence'')) (\<lambda>sequence.
     bindr (text_of (field d ''provenance'')) (\<lambda>provenance.
     bindr (validate_text provenance ''provenance'' 512) (\<lambda>_.
     bindr (attributes_of event_type (field d ''attributes'')) (\<lambda>attributes.
     bindr (opt_of text_of (field d ''omission_reason'')) (\<lambda>omission_reason.
     bindr (opt_of text_of (field d ''trace_id'')) (\<lambda>trace_id.
     bindr (default_of text_of [] d ''producer_id'') (\<lambda>producer_id.
     bindr (opt_of int_of (field d ''producer_sequence'')) (\<lambda>producer_sequence.
     bindr (opt_of text_of (field d ''parent_event_id'')) (\<lambda>parent_event_id.
     post_init agent_event_checks
       \<lparr>e_event_id = event_id, e_turn_id = turn_id, e_sequence = sequence,
        e_occurred_at = occurred, e_event_type = event_type, e_status = status,
        e_provenance = provenance, e_attributes = attributes, e_privacy = privacy,
        e_omission_reason = omission_reason, e_trace_id = trace_id, e_producer_id = producer_id,
        e_producer_sequence = producer_sequence, e_parent_event_id = parent_event_id\<rparr>)))))))))))))))"

section \<open>Shapes\<close>

definition session_fields :: "string list" where
  "session_fields =
     [''source_session_id'', ''tenant_id'', ''source_kind'', ''source_locator_hash'',
      ''started_at'', ''observed_at'', ''ended_at'']"

definition run_fields :: "string list" where
  "run_fields =
     [''run_id'', ''source_session_id'', ''tenant_id'', ''started_at'', ''status'', ''ended_at'',
      ''agent_name'', ''agent_version'', ''configuration_fingerprint'']"

definition run_optional :: "string list" where
  "run_optional =
     [''session_id'', ''parent_run_id'', ''service_name'', ''environment'', ''instance_id'']"

definition turn_fields :: "string list" where
  "turn_fields =
     [''turn_id'', ''run_id'', ''sequence'', ''started_at'', ''status'', ''ended_at'',
      ''user_request_redacted'', ''final_response_redacted'', ''request_state'',
      ''response_state'']"

definition turn_optional :: "string list" where
  "turn_optional =
     [''input_tokens'', ''cached_input_tokens'', ''cache_write_input_tokens'', ''output_tokens'',
      ''reasoning_output_tokens'', ''total_tokens'', ''token_usage_basis'', ''request_truncated'',
      ''response_truncated'', ''progress_redacted'']"

definition event_payload_fields :: "string list" where
  "event_payload_fields =
     [''event_id'', ''turn_id'', ''sequence'', ''occurred_at'', ''event_type'', ''status'',
      ''provenance'', ''attributes'', ''privacy_classification'', ''omission_reason'',
      ''trace_id'']"

definition event_optional :: "string list" where
  "event_optional = [''producer_id'', ''producer_sequence'', ''parent_event_id'']"

definition has_shape :: "string list \<Rightarrow> string list \<Rightarrow> (string, jval) dict \<Rightarrow> bool" where
  "has_shape required optional d \<longleftrightarrow>
     list_all (\<lambda>k. k \<in> set (dkeys d)) required \<and>
     list_all (\<lambda>k. k \<in> set required \<or> k \<in> set optional) (dkeys d)"

definition shaped :: "string list \<Rightarrow> string list \<Rightarrow> jval \<Rightarrow> bool" where
  "shaped required optional v =
     (case v of JDict d \<Rightarrow> has_shape required optional d | _ \<Rightarrow> False)"

section \<open>Reading a capture\<close>

text \<open>\<open>_tool_origin_safe_object\<close>: two \<open>tool_origin\<close> keys in one object are refused.\<close>

definition tool_origin_safe_object :: "(string \<times> jval) list \<Rightarrow> jval option" where
  "tool_origin_safe_object kvs =
     (if 1 < length (filter (\<lambda>(k, v). k = ''tool_origin'') kvs) then None
      else Some (make_dict kvs))"

definition capture_loader :: "py_env \<Rightarrow> loader" where
  "capture_loader env = \<lparr>ld_float = pe_float env, ld_object = tool_origin_safe_object\<rparr>"

text \<open>\<open>except (KeyError, TypeError, ValueError): raise ValueError\<close>.\<close>

definition as_ill_typed :: "'a result \<Rightarrow> 'a result" where
  "as_ill_typed r =
     (case r of
        Inr x \<Rightarrow> Inr x
      | Inl e \<Rightarrow> (case e of
            KeyError _ \<Rightarrow> Inl ill_typed | TypeError _ \<Rightarrow> Inl ill_typed | ValueError _ \<Rightarrow> Inl ill_typed
          | _ \<Rightarrow> Inl e))"

definition dict_items :: "jval list \<Rightarrow> (string, jval) dict list" where
  "dict_items vs = List.map_filter (\<lambda>v. case v of JDict d \<Rightarrow> Some d | _ \<Rightarrow> None) vs"

definition read_parts ::
  "py_env \<Rightarrow> (string, jval) dict \<Rightarrow> (string, jval) dict \<Rightarrow> jval list \<Rightarrow> jval list
     \<Rightarrow> agent_capture result" where
  "read_parts env sd rd td ed =
     as_ill_typed
       (bindr (read_session env sd) (\<lambda>session.
        bindr (read_run env rd) (\<lambda>run.
        bindr (traverse (read_turn env) (dict_items td)) (\<lambda>turns.
        bindr (traverse (read_event env) (dict_items ed)) (\<lambda>events.
        Inr \<lparr>c_session = session, c_run = run, c_turns = turns, c_events = events\<rparr>)))))"

definition bad_shape :: py_error where
  "bad_shape = ValueError ''agent run bundle JSON has an invalid shape''"

definition read_payload ::
  "py_env \<Rightarrow> (agent_capture \<Rightarrow> (py_error + unit) list) \<Rightarrow> jval \<Rightarrow> agent_capture result" where
  "read_payload env capture_checks v =
     (case v of
        JDict p \<Rightarrow>
          if set (dkeys p) \<noteq> {''session'', ''run'', ''turns'', ''events''} then Inl bad_shape
          else (case (field p ''session'', field p ''run'', field p ''turns'', field p ''events'') of
              (JDict sd, JDict rd, JList td, JList ed) \<Rightarrow>
                if \<not> (has_shape session_fields [] sd \<and> has_shape run_fields run_optional rd \<and>
                      list_all (shaped turn_fields turn_optional) td \<and>
                      list_all (shaped event_payload_fields event_optional) ed)
                then Inl ill_typed
                else bindr (read_parts env sd rd td ed) (post_init capture_checks)
            | _ \<Rightarrow> Inl bad_shape)
      | _ \<Rightarrow> Inl bad_shape)"

definition agent_capture_from_json ::
  "py_env \<Rightarrow> (agent_capture \<Rightarrow> (py_error + unit) list) \<Rightarrow> string \<Rightarrow> agent_capture result" where
  "agent_capture_from_json env capture_checks s =
     (if max_bundle_json_bytes < length s
      then Inl (ValueError ''agent run bundle JSON must be bounded text'')
      else case json_loads_text (capture_loader env) s of
          None \<Rightarrow> Inl (ValueError ''agent run bundle JSON is malformed'')
        | Some v \<Rightarrow> read_payload env capture_checks v)"

definition agent_capture_batch_from_json :: "py_env \<Rightarrow> string \<Rightarrow> agent_capture result" where
  "agent_capture_batch_from_json env = agent_capture_from_json env agent_capture_batch_checks"

definition agent_run_bundle_from_json :: "py_env \<Rightarrow> string \<Rightarrow> agent_capture result" where
  "agent_run_bundle_from_json env = agent_capture_from_json env agent_run_bundle_checks"

end
