(* ===== verification/Transport.thy ===== *)
theory Transport
  imports Evidence_Codec Evidence_Store Text
begin

text \<open>
  The records of the local transport, \<open>verdict/agent_transport.py\<close>: their envelope, the payloads
  of traces and spans, \<open>decode_capture_record\<close>, and the sink that stores a decoded record.

  \<open>SpanRecord\<close> values are checked field by field after construction.  \<open>Trace\<close> checks only its
  numbers and its operation, so that a payload whose other fields have unexpected types still
  builds an object; \<open>dc_untyped\<close> is what such a payload becomes for the rest of the program.
\<close>

section \<open>Payload fields\<close>

definition capture_schema :: string where
  "capture_schema = ''verdict-capture-v1''"

definition agent_capture_schema :: string where
  "agent_capture_schema = ''verdict-capture-v2''"

definition max_record_bytes :: nat where
  "max_record_bytes = 4194304"

definition trace_transport_v1_fields :: "string list" where
  "trace_transport_v1_fields =
     [''trace_id'', ''parent_span_id'', ''started_at'', ''ended_at'', ''provider'', ''operation'',
      ''request_model'', ''response_model'', ''input_tokens'', ''output_tokens'', ''temperature'',
      ''max_tokens'', ''finish_reason'', ''error'', ''latency_ms'', ''prompt_redacted'',
      ''response_redacted'', ''raw_messages'', ''tenant_id'', ''session_id'', ''user_id_hash'',
      ''cluster_id'', ''tags'', ''cost_usd'']"

definition trace_transport_fields :: "string list" where
  "trace_transport_fields = trace_transport_v1_fields @ [''service_name'', ''environment'']"

definition span_transport_v1_fields :: "string list" where
  "span_transport_v1_fields =
     [''span_id'', ''name'', ''trace_id'', ''parent_name'', ''started_at'', ''ended_at'',
      ''duration_ms'', ''attributes'', ''error'']"

definition span_transport_fields :: "string list" where
  "span_transport_fields = span_transport_v1_fields @ [''tenant_id'']"

definition require_transport_text ::
  "string \<Rightarrow> nat \<Rightarrow> bool \<Rightarrow> bool \<Rightarrow> jval \<Rightarrow> py_error + unit" where
  "require_transport_text label maximum optional allow_empty v =
     require (optional \<and> v = JNull \<or>
       (case v of
          JStr s \<Rightarrow> (s \<noteq> [] \<or> allow_empty) \<and> CHR 0x00 \<notin> set s \<and> length s \<le> maximum
        | _ \<Rightarrow> False))
     (ValueError (''capture '' @ label @ '' must be bounded text''))"

section \<open>Traces\<close>

definition float_json :: "py_env \<Rightarrow> rat \<Rightarrow> jval" where
  "float_json env q = JFloat q (pe_repr env q)"

definition trace_to_payload :: "py_env \<Rightarrow> trace \<Rightarrow> (string, jval) dict" where
  "trace_to_payload env t =
     [(''trace_id'', JStr (tr_trace_id t)),
      (''started_at'', JStr (pe_iso env (tr_started_at t))),
      (''ended_at'', opt_json (\<lambda>u. JStr (pe_iso env u)) (tr_ended_at t)),
      (''provider'', JStr (tr_provider t)),
      (''operation'', JStr (operation_value (tr_operation t))),
      (''request_model'', JStr (tr_request_model t)),
      (''response_model'', JStr (tr_response_model t)),
      (''input_tokens'', opt_json JInt (tr_input_tokens t)),
      (''output_tokens'', opt_json JInt (tr_output_tokens t)),
      (''temperature'', opt_json (float_json env) (tr_temperature t)),
      (''max_tokens'', opt_json JInt (tr_max_tokens t)),
      (''finish_reason'', opt_json JStr (tr_finish_reason t)),
      (''error'', opt_json JStr (tr_error t)),
      (''latency_ms'', opt_json (float_json env) (tr_latency_ms t)),
      (''prompt_redacted'', opt_json JStr (tr_prompt_redacted t)),
      (''response_redacted'', opt_json JStr (tr_response_redacted t)),
      (''raw_messages'', opt_json JList (tr_raw_messages t)),
      (''tenant_id'', opt_json JStr (tr_tenant_id t)),
      (''session_id'', opt_json JStr (tr_session_id t)),
      (''user_id_hash'', opt_json JStr (tr_user_id_hash t)),
      (''cluster_id'', opt_json JStr (tr_cluster_id t)),
      (''tags'', JDict (map (map_prod id JStr) (tr_tags t))),
      (''cost_usd'', opt_json (float_json env) (tr_cost_usd t)),
      (''parent_span_id'', opt_json JStr (tr_parent_span_id t)),
      (''service_name'', JStr (tr_service_name t)),
      (''environment'', JStr (tr_environment t))]"

text \<open>\<open>None\<close> when a field does not have the type that \<open>Trace\<close> declares.\<close>

definition str_field :: "(string, jval) dict \<Rightarrow> string \<Rightarrow> string option" where
  "str_field d name = (case field d name of JStr s \<Rightarrow> Some s | _ \<Rightarrow> None)"

definition opt_str_field :: "(string, jval) dict \<Rightarrow> string \<Rightarrow> string option option" where
  "opt_str_field d name =
     (case field d name of JStr s \<Rightarrow> Some (Some s) | JNull \<Rightarrow> Some None | _ \<Rightarrow> None)"

definition messages_field :: "(string, jval) dict \<Rightarrow> jval list option option" where
  "messages_field d =
     (case field d ''raw_messages'' of
        JList vs \<Rightarrow> Some (Some vs) | JNull \<Rightarrow> Some None | _ \<Rightarrow> None)"

definition tags_field :: "(string, jval) dict \<Rightarrow> (string, string) dict option" where
  "tags_field d =
     (case field d ''tags'' of
        JDict kvs \<Rightarrow>
          if list_all (\<lambda>(k, v). is_jstr v) kvs
          then Some (map (\<lambda>(k, v). (k, case v of JStr s \<Rightarrow> s | _ \<Rightarrow> [])) kvs) else None
      | _ \<Rightarrow> None)"

definition count_field :: "(string, jval) dict \<Rightarrow> string \<Rightarrow> int option" where
  "count_field d name = normalize_optional_integer (field d name) 0 max_trace_integer"

definition float_field :: "(string, jval) dict \<Rightarrow> string \<Rightarrow> rat option \<Rightarrow> rat option result" where
  "float_field d name minimum =
     (case field d name of
        JInt n \<Rightarrow>
          if float_overflows n then Inl (OverflowError ''int too large to convert to float'')
          else Inr (normalize_optional_float (JInt n) minimum)
      | v \<Rightarrow> Inr (normalize_optional_float v minimum))"

definition text_fields :: "(string, jval) dict \<Rightarrow> trace \<Rightarrow> trace option" where
  "text_fields d t =
     Option.bind (str_field d ''trace_id'') (\<lambda>trace_id.
     Option.bind (str_field d ''provider'') (\<lambda>provider.
     Option.bind (str_field d ''request_model'') (\<lambda>request_model.
     Option.bind (str_field d ''response_model'') (\<lambda>response_model.
     Option.bind (str_field d ''service_name'') (\<lambda>service_name.
     Option.bind (str_field d ''environment'') (\<lambda>environment.
     Option.bind (opt_str_field d ''finish_reason'') (\<lambda>finish_reason.
     Option.bind (opt_str_field d ''error'') (\<lambda>error.
     Option.bind (opt_str_field d ''prompt_redacted'') (\<lambda>prompt.
     Option.bind (opt_str_field d ''response_redacted'') (\<lambda>response.
     Option.bind (opt_str_field d ''tenant_id'') (\<lambda>tenant_id.
     Option.bind (opt_str_field d ''session_id'') (\<lambda>session_id.
     Option.bind (opt_str_field d ''user_id_hash'') (\<lambda>user_id_hash.
     Option.bind (opt_str_field d ''cluster_id'') (\<lambda>cluster_id.
     Option.bind (opt_str_field d ''parent_span_id'') (\<lambda>parent_span_id.
     Option.bind (messages_field d) (\<lambda>messages.
     Option.bind (tags_field d) (\<lambda>tags.
     Some (t\<lparr>tr_trace_id := trace_id, tr_provider := provider,
             tr_request_model := request_model, tr_response_model := response_model,
             tr_service_name := service_name, tr_environment := environment,
             tr_finish_reason := finish_reason, tr_error := error,
             tr_prompt_redacted := prompt, tr_response_redacted := response,
             tr_tenant_id := tenant_id, tr_session_id := session_id,
             tr_user_id_hash := user_id_hash, tr_cluster_id := cluster_id,
             tr_parent_span_id := parent_span_id, tr_raw_messages := messages,
             tr_tags := tags\<rparr>))))))))))))))))))"

text \<open>\<open>Trace(...)\<close> on the numbers, with the defaults of the other fields.\<close>

definition number_fields ::
  "int \<Rightarrow> int option \<Rightarrow> operation \<Rightarrow> (string, jval) dict \<Rightarrow> trace result" where
  "number_fields started ended op d =
     bindr (float_field d ''temperature'' None) (\<lambda>temperature.
     bindr (float_field d ''latency_ms'' (Some 0)) (\<lambda>latency.
     bindr (float_field d ''cost_usd'' (Some 0)) (\<lambda>cost.
     Inr \<lparr>tr_trace_id = [], tr_started_at = started, tr_ended_at = ended, tr_provider = [],
          tr_operation = op, tr_request_model = [], tr_response_model = [],
          tr_input_tokens = count_field d ''input_tokens'',
          tr_output_tokens = count_field d ''output_tokens'',
          tr_temperature = temperature, tr_max_tokens = count_field d ''max_tokens'',
          tr_finish_reason = None, tr_error = None, tr_latency_ms = latency,
          tr_prompt_redacted = None, tr_response_redacted = None, tr_raw_messages = None,
          tr_tenant_id = None, tr_session_id = None, tr_user_id_hash = None,
          tr_cluster_id = None, tr_tags = [], tr_cost_usd = cost, tr_parent_span_id = None,
          tr_analysis_started_at_us = None, tr_analysis_started_at_state = ''pending'',
          tr_analysis_raw_messages_utf8_bytes = None,
          tr_analysis_raw_messages_state = ''pending'',
          tr_service_name = [], tr_environment = []\<rparr>)))"

record decoder =
  dc_env :: py_env
  dc_redactor :: redactor
  dc_untyped :: "(string, jval) dict \<Rightarrow> trace result"

definition trace_ill_typed :: py_error where
  "trace_ill_typed = ValueError ''agent capture Trace has invalid typed fields''"

definition transport_time :: "py_env \<Rightarrow> py_error \<Rightarrow> jval \<Rightarrow> int result" where
  "transport_time env e v =
     (case v of JStr s \<Rightarrow> (case pe_iso_parse env s of None \<Rightarrow> Inl e | Some t \<Rightarrow> Inr t) | _ \<Rightarrow> Inl e)"

definition transport_operation :: "jval \<Rightarrow> operation result" where
  "transport_operation v =
     (case v of
        JStr s \<Rightarrow>
          (case List.find (\<lambda>op. operation_value op = s) [CHAT, TEXT_COMPLETION, EMBEDDING] of
             None \<Rightarrow> Inl trace_ill_typed | Some op \<Rightarrow> Inr op)
      | _ \<Rightarrow> Inl trace_ill_typed)"

definition trace_of_values :: "decoder \<Rightarrow> (string, jval) dict \<Rightarrow> trace result" where
  "trace_of_values dc d =
     bindr (transport_time (dc_env dc) trace_ill_typed (field d ''started_at'')) (\<lambda>started.
     bindr (opt_of (transport_time (dc_env dc) trace_ill_typed) (field d ''ended_at'')) (\<lambda>ended.
     bindr (transport_operation (field d ''operation'')) (\<lambda>op.
     bindr (number_fields started ended op d) (\<lambda>t.
     case text_fields d t of None \<Rightarrow> dc_untyped dc d | Some u \<Rightarrow> Inr u))))"

definition trace_from_payload :: "decoder \<Rightarrow> jval \<Rightarrow> trace result" where
  "trace_from_payload dc v =
     (case v of
        JDict d \<Rightarrow>
          if set trace_transport_v1_fields \<subseteq> set (dkeys d) \<and>
             set (dkeys d) \<subseteq> set trace_transport_fields
          then trace_of_values dc (dsetdefault ''environment'' (JStr [])
                 (dsetdefault ''service_name'' (JStr []) d))
          else Inl (ValueError ''agent capture Trace has an invalid shape'')
      | _ \<Rightarrow> Inl (ValueError ''agent capture Trace has an invalid shape''))"

section \<open>Spans\<close>

definition span_to_payload :: "py_env \<Rightarrow> span_record \<Rightarrow> (string, jval) dict" where
  "span_to_payload env s =
     [(''span_id'', JStr (sp_span_id s)),
      (''name'', JStr (sp_name s)),
      (''trace_id'', opt_json JStr (sp_trace_id s)),
      (''parent_name'', opt_json JStr (sp_parent_name s)),
      (''started_at'', JStr (pe_iso env (sp_started_at s))),
      (''ended_at'', opt_json (\<lambda>u. JStr (pe_iso env u)) (sp_ended_at s)),
      (''duration_ms'', opt_json (float_json env) (sp_duration_ms s)),
      (''attributes'', JDict (sp_attributes s)),
      (''error'', opt_json JStr (sp_error s)),
      (''tenant_id'', opt_json JStr (sp_tenant_id s))]"

definition span_ill_typed :: py_error where
  "span_ill_typed = ValueError ''capture Span has invalid typed fields''"

definition opt_text :: "jval \<Rightarrow> string option" where
  "opt_text v = (case v of JStr s \<Rightarrow> Some s | _ \<Rightarrow> None)"

definition duration_of :: "jval \<Rightarrow> rat option result" where
  "duration_of v =
     (let bad = ValueError ''capture Span duration must be a non-negative number'' in
      case v of
        JNull \<Rightarrow> Inr None
      | JInt n \<Rightarrow>
          if float_overflows n then Inl (OverflowError ''int too large to convert to float'')
          else if n < 0 then Inl bad else Inr (Some (of_int n))
      | JFloat q r \<Rightarrow> if q < 0 then Inl bad else Inr (Some q)
      | _ \<Rightarrow> Inl bad)"

definition span_of_values :: "py_env \<Rightarrow> (string, jval) dict \<Rightarrow> span_record result" where
  "span_of_values env d =
     bindr (transport_time env span_ill_typed (field d ''started_at'')) (\<lambda>started.
     bindr (opt_of (transport_time env span_ill_typed) (field d ''ended_at'')) (\<lambda>ended.
     bindr (checks
       [require_transport_text ''span_id'' 256 False False (field d ''span_id''),
        require_transport_text ''span name'' 4096 False True (field d ''name''),
        require_transport_text ''span trace_id'' 256 True False (field d ''trace_id''),
        require_transport_text ''span tenant_id'' 256 True False (field d ''tenant_id''),
        require_transport_text ''span parent name'' 4096 True True (field d ''parent_name''),
        require_transport_text ''span error'' 4096 True True (field d ''error'')]) (\<lambda>_.
     case field d ''attributes'' of
       JDict attributes \<Rightarrow>
         bindr (duration_of (field d ''duration_ms'')) (\<lambda>duration.
         Inr \<lparr>sp_span_id = the (opt_text (field d ''span_id'')),
              sp_name = the (opt_text (field d ''name'')),
              sp_trace_id = opt_text (field d ''trace_id''),
              sp_parent_name = opt_text (field d ''parent_name''),
              sp_started_at = started, sp_ended_at = ended, sp_duration_ms = duration,
              sp_attributes = attributes, sp_error = opt_text (field d ''error''),
              sp_tenant_id = opt_text (field d ''tenant_id'')\<rparr>)
     | _ \<Rightarrow> Inl (ValueError ''capture Span attributes must be an object''))))"

definition span_from_payload :: "py_env \<Rightarrow> jval \<Rightarrow> span_record result" where
  "span_from_payload env v =
     (case v of
        JDict d \<Rightarrow>
          if set (dkeys d) = set span_transport_v1_fields \<or> set (dkeys d) = set span_transport_fields
          then span_of_values env (dsetdefault ''tenant_id'' JNull d)
          else Inl (ValueError ''capture Span has an invalid shape'')
      | _ \<Rightarrow> Inl (ValueError ''capture Span has an invalid shape''))"

section \<open>Envelopes\<close>

datatype capture_record =
    TraceRecord trace
  | AgentRecord agent_capture "trace list"
  | SpanRecord span_record

definition record_bytes :: "string \<Rightarrow> jval \<Rightarrow> string result" where
  "record_bytes kind record =
     (let encoded = json_dumps False (JDict
        [(''schema'', JStr (if kind = ''agent'' then agent_capture_schema else capture_schema)),
         (''kind'', JStr kind), (''record'', record)])
      in if max_record_bytes < length encoded
         then Inl (ValueError ''agent capture record exceeds the local transport limit'')
         else Inr (encoded @ newline))"

text \<open>A record of the retired kind \<open>signal\<close> decodes to nothing.\<close>

definition decode_agent_record :: "decoder \<Rightarrow> jval \<Rightarrow> capture_record result" where
  "decode_agent_record dc record =
     (case record of
        JDict d \<Rightarrow>
          if set (dkeys d) \<noteq> {''batch'', ''traces''}
          then Inl (ValueError ''agent evidence capture record is invalid'')
          else (case field d ''traces'' of
              JList items \<Rightarrow>
                if 1 < length items
                then Inl (ValueError ''agent capture record has an invalid Trace list'')
                else bindr (traverse (trace_from_payload dc) items) (\<lambda>traces.
                  case field d ''batch'' of
                    JDict b \<Rightarrow>
                      bindr (agent_capture_batch_from_json (dc_env dc) (json_text False (JDict b)))
                        (\<lambda>batch.
                      bindr (prepare_agent_capture (dc_redactor dc) agent_capture_batch_checks batch
                               traces) (\<lambda>_.
                      Inr (AgentRecord batch traces)))
                  | _ \<Rightarrow> Inl (ValueError ''agent evidence capture record is invalid''))
            | _ \<Rightarrow> Inl (ValueError ''agent capture record has an invalid Trace list''))
      | _ \<Rightarrow> Inl (ValueError ''agent evidence capture record is invalid''))"

definition decode_envelope :: "decoder \<Rightarrow> jval \<Rightarrow> jval \<Rightarrow> jval \<Rightarrow> capture_record option result" where
  "decode_envelope dc schema kind record =
     (if \<not> (schema = JStr capture_schema \<or> schema = JStr agent_capture_schema) \<or>
         schema = JStr agent_capture_schema \<and> kind \<noteq> JStr ''agent''
      then Inl (ValueError ''capture record has an unsupported schema'')
      else if kind = JStr ''signal'' then Inr None
      else if kind = JStr ''trace''
        then bindr (trace_from_payload dc record) (\<lambda>t. Inr (Some (TraceRecord t)))
      else if kind = JStr ''span''
        then bindr (span_from_payload (dc_env dc) record) (\<lambda>s. Inr (Some (SpanRecord s)))
      else if kind = JStr ''agent''
        then bindr (decode_agent_record dc record) (\<lambda>r. Inr (Some r))
      else Inl (ValueError ''capture record has an unsupported schema''))"

definition decode_capture_record :: "decoder \<Rightarrow> string \<Rightarrow> capture_record option result" where
  "decode_capture_record dc raw =
     (if max_record_bytes < length raw
      then Inl (ValueError ''agent capture record exceeds the local transport limit'')
      else case json_loads (pe_float (dc_env dc)) raw of
          None \<Rightarrow> Inl (ValueError ''agent capture record is malformed'')
        | Some (JDict p) \<Rightarrow>
            if set (dkeys p) = {''schema'', ''kind'', ''record''}
            then decode_envelope dc (field p ''schema'') (field p ''kind'') (field p ''record'')
            else Inl (ValueError ''capture record has an invalid shape'')
        | Some _ \<Rightarrow> Inl (ValueError ''capture record has an invalid shape''))"

section \<open>Encoding\<close>

definition encode_trace :: "py_env \<Rightarrow> trace \<Rightarrow> string result" where
  "encode_trace env t = record_bytes ''trace'' (JDict (trace_to_payload env t))"

definition encode_span :: "py_env \<Rightarrow> span_record \<Rightarrow> string result" where
  "encode_span env s = record_bytes ''span'' (JDict (span_to_payload env s))"

text \<open>The batch is written as JSON text, read back and nested in the record.\<close>

definition encode_agent :: "py_env \<Rightarrow> agent_capture \<Rightarrow> trace list \<Rightarrow> string result" where
  "encode_agent env batch traces =
     bindr (agent_capture_to_json env batch) (\<lambda>text.
     case json_loads_text (plain_loader (pe_float env)) text of
       None \<Rightarrow> Inl (ValueError ''malformed'')
     | Some b \<Rightarrow>
         record_bytes ''agent'' (JDict
           [(''batch'', b), (''traces'', JList (map (\<lambda>t. JDict (trace_to_payload env t)) traces))]))"

section \<open>The sink on the evidence store\<close>

text \<open>\<open>dict.setdefault\<close> twice: the first reason given is kept.\<close>

definition link_span :: "evidence_store \<Rightarrow> span_record \<Rightarrow> span_record" where
  "link_span st s =
     (case sp_trace_id s of
        None \<Rightarrow> s
      | Some trace_id \<Rightarrow>
          (let owner = trace_owner st trace_id;
               mismatch = (owner \<noteq> None \<and> sp_tenant_id s \<noteq> None \<and> sp_tenant_id s \<noteq> owner);
               attributes = (if mismatch
                 then dsetdefault ''verdict.link_status'' (JStr ''tenant_mismatch'') (sp_attributes s)
                 else sp_attributes s)
           in if owner = None \<or> mismatch
              then s\<lparr>sp_trace_id := None, sp_attributes :=
                     dsetdefault ''verdict.link_status'' (JStr ''trace_not_found'') attributes\<rparr>
              else s))"

definition capture_span ::
  "redactor \<Rightarrow> span_record \<Rightarrow> evidence_store \<Rightarrow> (span_record \<times> evidence_store) result" where
  "capture_span rd s st =
     (let prepared = link_span st s in
      bindr (insert_span rd prepared st) (\<lambda>st'. Inr (prepared, st')))"

definition capture_record_into ::
  "redactor \<Rightarrow> capture_record \<Rightarrow> evidence_store \<Rightarrow> evidence_store result" where
  "capture_record_into rd r st =
     (case r of
        TraceRecord t \<Rightarrow> insert_trace rd t st
      | AgentRecord batch traces \<Rightarrow> append_agent_capture rd batch traces st
      | SpanRecord s \<Rightarrow> bindr (capture_span rd s st) (\<lambda>(_, st'). Inr st'))"

section \<open>Replaying files\<close>

text \<open>
  The complete lines of a file and how the reading ends: at the end of the file, at a last line
  without its newline, or at a line that is longer than a record can be.
\<close>

datatype reading_end = EndOfFile | IncompleteLine | LineTooLong

function file_lines :: "string \<Rightarrow> string list \<times> reading_end" where
  "file_lines s =
     (if s = [] then ([], EndOfFile)
      else (let line = takeWhile (\<lambda>c. c \<noteq> CHR 0x0A) s;
                rest = drop (length line) s
            in if max_record_bytes + 1 < length line + (if rest = [] then 0 else 1)
               then ([], LineTooLong)
               else if rest = [] then ([], IncompleteLine)
               else apfst ((#) line) (file_lines (tl rest))))"
  by pat_completeness auto
termination
  by (relation "measure length") (auto simp: neq_Nil_conv)

declare file_lines.simps [simp del]

record import_summary =
  im_seen :: nat
  im_stored :: nat
  im_incomplete :: nat

text \<open>An exception ends the replay; what was stored before it stays.\<close>

fun import_lines ::
  "decoder \<Rightarrow> redactor \<Rightarrow> string list \<Rightarrow> import_summary \<Rightarrow> evidence_store
     \<Rightarrow> import_summary result \<times> evidence_store" where
  "import_lines dc rd [] sm st = (Inr sm, st)"
| "import_lines dc rd (raw # lines) sm st =
     (case decode_capture_record dc raw of
        Inl e \<Rightarrow> (Inl e, st)
      | Inr None \<Rightarrow> import_lines dc rd lines (sm\<lparr>im_seen := im_seen sm + 1\<rparr>) st
      | Inr (Some r) \<Rightarrow>
          (case capture_record_into rd r st of
             Inl e \<Rightarrow> (Inl e, st)
           | Inr st' \<Rightarrow> import_lines dc rd lines
               (sm\<lparr>im_seen := im_seen sm + 1, im_stored := im_stored sm + 1\<rparr>) st'))"

definition import_file ::
  "decoder \<Rightarrow> redactor \<Rightarrow> string \<Rightarrow> import_summary \<Rightarrow> evidence_store
     \<Rightarrow> import_summary result \<times> evidence_store" where
  "import_file dc rd content sm st =
     (let (lines, ending) = file_lines content;
          (result, st') = import_lines dc rd lines sm st
      in case result of
           Inl e \<Rightarrow> (Inl e, st')
         | Inr sm' \<Rightarrow>
             (case ending of
                EndOfFile \<Rightarrow> (Inr sm', st')
              | IncompleteLine \<Rightarrow> (Inr (sm'\<lparr>im_incomplete := im_incomplete sm' + 1\<rparr>), st')
              | LineTooLong \<Rightarrow>
                  (Inl (ValueError ''agent capture record exceeds the local transport limit''), st')))"

fun import_files ::
  "decoder \<Rightarrow> redactor \<Rightarrow> string list \<Rightarrow> import_summary \<Rightarrow> evidence_store
     \<Rightarrow> import_summary result \<times> evidence_store" where
  "import_files dc rd [] sm st = (Inr sm, st)"
| "import_files dc rd (content # files) sm st =
     (case import_file dc rd content sm st of
        (Inl e, st') \<Rightarrow> (Inl e, st')
      | (Inr sm', st') \<Rightarrow> import_files dc rd files sm' st')"

definition import_capture_records ::
  "decoder \<Rightarrow> redactor \<Rightarrow> string list \<Rightarrow> evidence_store \<Rightarrow> import_summary result \<times> evidence_store" where
  "import_capture_records dc rd files st =
     (if files = []
      then (Inl (ValueError ''agent capture path contains no Verdict JSONL files''), st)
      else import_files dc rd files \<lparr>im_seen = 0, im_stored = 0, im_incomplete = 0\<rparr> st)"

end
