(* ===== verification/Codec_Laws.thy ===== *)
theory Codec_Laws
  imports Evidence_Codec "HOL-Library.Multiset"
begin

text \<open>
  The checks on event attributes do not depend on the order of dictionary keys: the node count of
  \<open>_bounded_json_value\<close> is the size of the value, and its other bounds hold entry by entry.
\<close>

section \<open>The bounds on a nested value\<close>

primrec nodes :: "jval \<Rightarrow> nat" where
  "nodes JNull = 1"
| "nodes (JBool b) = 1"
| "nodes (JInt i) = 1"
| "nodes (JFloat q r) = 1"
| "nodes (JStr s) = 1"
| "nodes (JList vs) = Suc (sum_list (map nodes vs))"
| "nodes (JDict kvs) = Suc (sum_list (map snd (map (map_prod id nodes) kvs)))"

primrec tree_ok :: "jval \<Rightarrow> nat \<Rightarrow> bool" where
  "tree_ok JNull d = (d \<le> 4)"
| "tree_ok (JBool b) d = (d \<le> 4)"
| "tree_ok (JInt i) d = (d \<le> 4)"
| "tree_ok (JFloat q r) d = (d \<le> 4)"
| "tree_ok (JStr s) d = (d \<le> 4 \<and> length s \<le> 4096 \<and> CHR 0x00 \<notin> set s)"
| "tree_ok (JList vs) d = (d \<le> 4 \<and> length vs \<le> 24 \<and> list_all (\<lambda>p. p (Suc d)) (map tree_ok vs))"
| "tree_ok (JDict kvs) d =
     (d \<le> 4 \<and> length kvs \<le> 24 \<and>
      list_all (\<lambda>(k, p). validate_text k ''attribute key'' 64 = Inr () \<and> p (Suc d))
        (map (map_prod id tree_ok) kvs))"

definition counts :: "jval \<Rightarrow> bool" where
  "counts v \<longleftrightarrow> (\<forall>d n m. bounded_json_value v d n = Inr m \<longleftrightarrow>
     tree_ok v d \<and> n + nodes v \<le> 128 \<and> m = n + nodes v)"

lemma enter_node_eq_Inr [simp]:
  "enter_node d n f = Inr m \<longleftrightarrow> n < 128 \<and> d \<le> 4 \<and> f (Suc n) = Inr m"
  by (auto simp: enter_node_def bounded_def)

lemma nodes_pos: "0 < nodes v"
  by (cases v) auto

lemma count_items:
  assumes "list_all counts vs"
  shows "n \<le> 128 \<Longrightarrow> foldr_res (\<lambda>f k. f d k) (map bounded_json_value vs) n = Inr m \<longleftrightarrow>
     list_all (\<lambda>v. tree_ok v d) vs \<and> n + sum_list (map nodes vs) \<le> 128 \<and>
     m = n + sum_list (map nodes vs)"
  using assms
proof (induction vs arbitrary: n)
  case Nil
  then show ?case by auto
next
  case (Cons v vs)
  then show ?case by (auto simp: bindr_eq_Inr counts_def)
qed

lemma count_pairs:
  assumes "list_all (\<lambda>kv. counts (snd kv)) kvs"
  shows "n \<le> 128 \<Longrightarrow>
     foldr_res (\<lambda>(key, f) k. bindr (validate_text key ''attribute key'' 64) (\<lambda>_. f d k))
        (map (map_prod id bounded_json_value) kvs) n = Inr m \<longleftrightarrow>
     list_all (\<lambda>(k, v). validate_text k ''attribute key'' 64 = Inr () \<and> tree_ok v d) kvs \<and>
     n + sum_list (map (nodes \<circ> snd) kvs) \<le> 128 \<and> m = n + sum_list (map (nodes \<circ> snd) kvs)"
  using assms
proof (induction kvs arbitrary: n)
  case Nil
  then show ?case by auto
next
  case (Cons kv kvs)
  then show ?case by (cases kv) (auto simp: bindr_eq_Inr counts_def)
qed

lemma nodes_dict: "nodes (JDict kvs) = Suc (sum_list (map (nodes \<circ> snd) kvs))"
  by (simp add: comp_def)

lemma tree_ok_dict:
  "tree_ok (JDict kvs) d \<longleftrightarrow> d \<le> 4 \<and> length kvs \<le> 24 \<and>
     list_all (\<lambda>(k, v). validate_text k ''attribute key'' 64 = Inr () \<and> tree_ok v (Suc d)) kvs"
  by (simp add: list.pred_map comp_def case_prod_unfold)

lemma bounded_json_value_counts: "counts v"
proof (induction v)
  case (JList vs)
  then have "list_all counts vs" by (simp add: list_all_iff)
  then show ?case
    by (auto simp: counts_def [of "JList vs"] count_items list_all_iff bounded_def split: if_splits)
next
  case (JDict kvs)
  then have "list_all (\<lambda>kv. counts (snd kv)) kvs" by (fastforce simp: list_all_iff)
  then have fold: "n < 128 \<Longrightarrow>
     foldr_res (\<lambda>(key, f) k. bindr (validate_text key ''attribute key'' 64) (\<lambda>_. f (Suc d) k))
        (map (map_prod id bounded_json_value) kvs) (Suc n) = Inr m \<longleftrightarrow>
     list_all (\<lambda>(k, v). validate_text k ''attribute key'' 64 = Inr () \<and> tree_ok v (Suc d)) kvs \<and>
     Suc n + sum_list (map (nodes \<circ> snd) kvs) \<le> 128 \<and>
     m = Suc n + sum_list (map (nodes \<circ> snd) kvs)" for d n m
    using count_pairs [of kvs "Suc n" "Suc d" m] by simp
  then show ?case
    by (simp add: counts_def [of "JDict kvs"] nodes_dict tree_ok_dict bounded_def
        del: nodes.simps(7) tree_ok.simps(7) map_map) auto
qed (auto simp: counts_def bounded_def split: if_splits)

lemma sum_list_sort_key: "sum_list (map f (sort_key g xs)) = (sum_list (map f xs) :: nat)"
proof -
  have "mset (map f (sort_key g xs)) = mset (map f xs)" by simp
  then show ?thesis using sum_mset_sum_list by metis
qed

definition sorted_dict :: "(string, jval) dict \<Rightarrow> (string, jval) dict" where
  "sorted_dict d = sort_key fst (map (map_prod id sort_keys) d)"

lemma sort_keys_dict: "sort_keys (JDict d) = JDict (sorted_dict d)"
  by (simp add: sorted_dict_def)

lemma set_sorted_dict: "set (sorted_dict d) = map_prod id sort_keys ` set d"
  by (simp add: sorted_dict_def)

lemma dkeys_sorted_dict: "set (dkeys (sorted_dict d)) = set (dkeys d)"
  by (simp add: set_sorted_dict image_image)

lemma nodes_sort_keys: "nodes (sort_keys v) = nodes v"
proof (induction v)
  case (JList vs)
  then have "map nodes (map sort_keys vs) = map nodes vs" by simp
  then show ?case by (simp only: sort_keys.simps nodes.simps)
next
  case (JDict kvs)
  have "map (nodes \<circ> snd) (map (map_prod id sort_keys) kvs) = map (nodes \<circ> snd) kvs"
    using JDict by fastforce
  then show ?case
    by (simp only: sort_keys.simps nodes_dict sum_list_sort_key)
qed simp_all

lemma tree_ok_sort_keys: "tree_ok (sort_keys v) d = tree_ok v d"
proof (induction v arbitrary: d)
  case (JDict kvs)
  then show ?case by (fastforce simp: list_all_iff)
qed (auto simp: list_all_iff)

lemma bounded_json_value_sort_keys:
  "bounded_json_value (sort_keys v) d n = Inr m \<longleftrightarrow> bounded_json_value v d n = Inr m"
  using bounded_json_value_counts [of v] bounded_json_value_counts [of "sort_keys v"]
  by (simp add: counts_def nodes_sort_keys tree_ok_sort_keys)

section \<open>Attributes\<close>

lemma validate_attribute_sort_keys: "validate_attribute (k, sort_keys v) = validate_attribute (k, v)"
  by (cases v) (auto simp: validate_attribute_def validate_tool_origin_def validate_latency_def
    is_jstr_def is_jbool_def is_int_in_def)

lemma validate_attributes_sorted:
  "validate_attributes t (sorted_dict d) = Inr () \<longleftrightarrow> validate_attributes t d = Inr ()"
proof -
  have 1: "list_all (\<lambda>kv. P (fst kv)) (sorted_dict d) \<longleftrightarrow> list_all (\<lambda>kv. P (fst kv)) d" for P
    by (auto simp: list_all_iff set_sorted_dict)
  have 2: "list_all (\<lambda>kv. validate_attribute kv = Inr ()) (sorted_dict d) \<longleftrightarrow>
      list_all (\<lambda>kv. validate_attribute kv = Inr ()) d"
    by (auto simp: list_all_iff set_sorted_dict validate_attribute_sort_keys split: prod.splits)
  have 3: "bounded_json_value (JDict (sorted_dict d)) 0 0 = Inr m \<longleftrightarrow>
      bounded_json_value (JDict d) 0 0 = Inr m" for m
    using bounded_json_value_sort_keys [of "JDict d"] by (simp only: sort_keys_dict)
  have 4: "json_dumps False (JDict (sorted_dict d)) = json_dumps False (JDict d)"
    using json_dumps_sort_keys [of False "JDict d"] by (simp only: sort_keys_dict)
  show ?thesis
    unfolding validate_attributes_def checks_eq_Inr
    by (simp add: 1 [of "\<lambda>k. k \<in> set (event_fields t)"] 2 3 4 list_all_append bindr_eq_Inr list.pred_map comp_def
      del: bounded_json_value.simps json_dumps.simps map_map)
qed

lemma has_content_field_sorted: "has_content_field (sorted_dict d) = has_content_field d"
  by (simp only: has_content_field_def list_ex_iff dkeys_sorted_dict)

definition canonical_event :: "agent_event \<Rightarrow> agent_event" where
  "canonical_event e = e\<lparr>e_attributes := sorted_dict (e_attributes e)\<rparr>"

lemma canonical_event_ok:
  "passes agent_event_checks e \<Longrightarrow> passes agent_event_checks (canonical_event e)"
  by (simp add: passes_def agent_event_checks_def canonical_event_def validate_attributes_sorted
    has_content_field_sorted)


text \<open>
  The JSON codec of captures is a round trip: what \<open>_agent_capture_to_json\<close> writes,
  \<open>_agent_capture_from_json\<close> reads back as the same capture, its turns and events in their
  canonical order and the keys of every attribute dictionary sorted.
\<close>

section \<open>Fields of a payload\<close>

lemma dget_sorted_dict:
  assumes "distinct (map fst d)"
  shows "dget (sorted_dict d) k = map_option sort_keys (dget d k)"
proof -
  have "map_of (map (map_prod id sort_keys) d) k = map_option sort_keys (map_of d k)"
    by (induction d) auto
  with assms show ?thesis
    by (simp add: sorted_dict_def map_of_sort_key comp_def)
qed

lemma field_sorted_dict:
  "distinct (map fst d) \<Longrightarrow> field (sorted_dict d) k = sort_keys (field d k)"
  by (simp add: field_def dget_sorted_dict split: option.split)

lemma default_of_sorted_dict:
  "distinct (map fst d) \<Longrightarrow> default_of f b (sorted_dict d) k =
     (case dget d k of None \<Rightarrow> Inr b | Some v \<Rightarrow> f (sort_keys v))"
  by (simp add: default_of_def dget_sorted_dict split: option.split)

definition or_else :: "bool \<Rightarrow> 'a \<Rightarrow> 'a option \<Rightarrow> 'a option" where
  "or_else c v rest = (if c then Some v else rest)"

lemma or_else_False [simp]: "or_else False v rest = rest"
  by (simp add: or_else_def)

lemma dget_unless_empty:
  "dget (unless_empty b (k, v) @ d) k' = or_else (k' = k \<and> v \<noteq> b) v (dget d k')"
  by (auto simp: unless_empty_def or_else_def)

lemma dget_unless_empty_last:
  "dget (unless_empty b (k, v)) k' = or_else (k' = k \<and> v \<noteq> b) v None"
  by (auto simp: unless_empty_def or_else_def)

text \<open>The keys of a payload, a subsequence of the full list of its keys.\<close>

lemma keys_unless_empty:
  "subseq xs ks \<Longrightarrow> subseq (map fst (unless_empty b (k, v)) @ xs) (k # ks)"
  "subseq (map fst (unless_empty b (k, v))) (k # ks)"
  by (auto simp: unless_empty_def)

lemma subseq_keys: "subseq xs ys \<Longrightarrow> set xs \<subseteq> set ys \<and> (distinct ys \<longrightarrow> distinct xs)"
  by (induction rule: list_emb.induct) auto

lemma keys_distinct: "subseq (map fst d) ks \<Longrightarrow> distinct ks \<Longrightarrow> distinct (map fst d)"
  using subseq_keys by blast

lemma session_keys: "map fst (session_payload env s) = session_fields"
  by (simp add: session_payload_def session_fields_def)

lemma run_keys: "subseq (map fst (run_payload env r)) (run_fields @ run_optional)"
  unfolding run_payload_def run_fields_def run_optional_def
  by (simp only: append.simps list.map fst_conv append_assoc) (simp add: keys_unless_empty)

lemma turn_keys:
  "subseq (map fst (turn_payload env t)) (turn_fields @ turn_optional)"
  unfolding turn_payload_def turn_fields_def turn_optional_def
  by (simp only: append.simps list.map fst_conv append_assoc) (simp add: keys_unless_empty)

lemma event_keys:
  "subseq (map fst (event_payload env e)) (event_payload_fields @ event_optional)"
  unfolding event_payload_def event_payload_fields_def event_optional_def
  by (simp only: append.simps list.map fst_conv append_assoc) (simp add: keys_unless_empty)

lemma payload_distinct:
  "distinct (map fst (session_payload env s))" "distinct (map fst (run_payload env r))"
  "distinct (map fst (turn_payload env t))" "distinct (map fst (event_payload env e))"
proof -
  show "distinct (map fst (session_payload env s))"
    by (simp add: session_keys) (simp add: session_fields_def)
  show "distinct (map fst (run_payload env r))"
    by (rule keys_distinct [OF run_keys]) (simp add: run_fields_def run_optional_def)
  show "distinct (map fst (turn_payload env t))"
    by (rule keys_distinct [OF turn_keys]) (simp add: turn_fields_def turn_optional_def)
  show "distinct (map fst (event_payload env e))"
    by (rule keys_distinct [OF event_keys]) (simp add: event_payload_fields_def event_optional_def)
qed

lemma has_shape_sorted_dict: "has_shape req opt (sorted_dict d) = has_shape req opt d"
  by (simp only: has_shape_def list_all_iff dkeys_sorted_dict)

lemma has_shapeI:
  "subseq (map fst d) (req @ opt) \<Longrightarrow> set req \<subseteq> set (map fst d) \<Longrightarrow> has_shape req opt d"
  using subseq_keys [of "map fst d" "req @ opt"] by (auto simp: has_shape_def list_all_iff)

lemma payload_shapes:
  "has_shape session_fields [] (session_payload env s)"
  "has_shape run_fields run_optional (run_payload env r)"
  "has_shape turn_fields turn_optional (turn_payload env t)"
  "has_shape event_payload_fields event_optional (event_payload env e)"
proof -
  show "has_shape session_fields [] (session_payload env s)"
    by (simp add: has_shape_def session_keys list_all_iff)
  show "has_shape run_fields run_optional (run_payload env r)"
    by (rule has_shapeI [OF run_keys]) (simp add: run_fields_def run_payload_def)
  show "has_shape turn_fields turn_optional (turn_payload env t)"
    by (rule has_shapeI [OF turn_keys]) (simp add: turn_fields_def turn_payload_def)
  show "has_shape event_payload_fields event_optional (event_payload env e)"
    by (rule has_shapeI [OF event_keys]) (simp add: event_payload_fields_def event_payload_def)
qed

section \<open>Reading one value\<close>

named_theorems read_simps \<open>reading back a value that was written\<close>

lemma opt_json_simps [read_simps]:
  "opt_json f None = JNull" "opt_json f (Some x) = f x"
  by (simp_all add: opt_json_def)

lemma opt_of_opt_json [read_simps]:
  "(\<And>x. f (g x) = Inr x) \<Longrightarrow> (\<And>x. g x \<noteq> JNull) \<Longrightarrow> opt_of f (opt_json g v) = Inr v"
  by (cases v) (simp_all add: opt_of_def opt_json_def)

lemma scalar_of [read_simps]:
  "text_of (JStr s) = Inr s" "int_of (JInt n) = Inr n" "bool_of (JBool b) = Inr b"
  by (simp_all add: text_of_def int_of_def bool_of_def)

lemma time_of_iso [read_simps]: "py_env_ok env \<Longrightarrow> time_of env (JStr (pe_iso env t)) = Inr t"
  by (simp add: time_of_def py_env_ok_def)

lemma enum_of_value [read_simps]:
  "status_of (JStr (execution_status_value x)) = Inr x"
  "state_of (JStr (evidence_state_value y)) = Inr y"
  "privacy_of (JStr (privacy_value z)) = Inr z"
  "event_type_of (JStr (event_type_value w)) = Inr w"
proof -
  show "status_of (JStr (execution_status_value x)) = Inr x"
    by (cases x) (simp_all add: status_of_def enum_of_def)
  show "state_of (JStr (evidence_state_value y)) = Inr y"
    by (cases y) (simp_all add: state_of_def enum_of_def)
  show "privacy_of (JStr (privacy_value z)) = Inr z"
    by (cases z) (simp_all add: privacy_of_def enum_of_def)
  show "event_type_of (JStr (event_type_value w)) = Inr w"
    by (cases w) (simp_all add: event_type_of_def enum_of_def)
qed

lemma sort_keys_opt [read_simps]:
  "(\<And>x. sort_keys (g x) = g x) \<Longrightarrow> sort_keys (opt_json g v) = opt_json g v"
  by (cases v) (simp_all add: opt_json_def)

text \<open>An entry left out when it is blank reads as the blank value.\<close>

lemma blank_field [read_simps]:
  "(case or_else (v \<noteq> b) v None of None \<Rightarrow> b | Some w \<Rightarrow> w) = v"
  by (simp add: or_else_def)

lemma blank_text [read_simps]:
  "(case or_else (s \<noteq> []) (JStr s) None of None \<Rightarrow> Inr [] | Some w \<Rightarrow> text_of (sort_keys w)) = Inr s"
  by (simp add: or_else_def text_of_def)

lemma blank_bool [read_simps]:
  "(case or_else b (JBool b) None of None \<Rightarrow> Inr False | Some w \<Rightarrow> bool_of (sort_keys w)) = Inr b"
  by (simp add: or_else_def bool_of_def)

section \<open>Reading back the session and the run\<close>

lemma read_session_payload:
  assumes "py_env_ok env" and "passes source_session_checks s"
  shows "read_session env (sorted_dict (session_payload env s)) = Inr s"
proof -
  have "read_session env (sorted_dict (session_payload env s)) = post_init source_session_checks s"
    unfolding read_session_def field_sorted_dict [OF payload_distinct(1)]
    by (cases s) (simp add: field_def session_payload_def read_simps assms(1))
  with assms(2) show ?thesis by (simp add: res_simps)
qed

lemma read_run_payload:
  assumes "py_env_ok env" and "passes agent_run_checks r"
  shows "read_run env (sorted_dict (run_payload env r)) = Inr r"
proof -
  have "read_run env (sorted_dict (run_payload env r)) = post_init agent_run_checks r"
    unfolding read_run_def field_sorted_dict [OF payload_distinct(2)]
      default_of_sorted_dict [OF payload_distinct(2)]
    by (cases r) (simp add: field_def run_payload_def read_simps assms(1) dget_unless_empty
        dget_unless_empty_last del: map_of_append)
  with assms(2) show ?thesis by (simp add: res_simps)
qed

section \<open>Reading back turns and events\<close>

lemma required_text_ok: "validate_text s name 256 = Inr () \<Longrightarrow> required_text name (JStr s) = Inr s"
  by (simp add: required_text_def text_of_def)

lemma sequence_of_ok: "0 \<le> n \<Longrightarrow> sequence_of (JInt n) = Inr n"
  by (simp add: sequence_of_def int_of_def)

lemma content_of_ok:
  "list_all (\<lambda>c. c = Inr ()) (content_checks state content) \<Longrightarrow>
     content_of state (opt_json JStr content) = Inr content"
  by (cases content) (auto simp: content_checks_def content_of_def opt_json_def)

lemma agent_turn_checksD:
  assumes "passes agent_turn_checks t"
  shows "validate_text (t_turn_id t) ''turn_id'' 256 = Inr ()"
    "validate_text (t_run_id t) ''run_id'' 256 = Inr ()" "0 \<le> t_sequence t"
    "list_all (\<lambda>c. c = Inr ()) (content_checks (t_request_state t) (t_user_request_redacted t))"
    "list_all (\<lambda>c. c = Inr ()) (content_checks (t_response_state t) (t_final_response_redacted t))"
  using assms by (simp_all add: passes_def agent_turn_checks_def)

lemma read_turn_payload:
  assumes "py_env_ok env" and "passes agent_turn_checks t"
  shows "read_turn env (sorted_dict (turn_payload env t)) = Inr t"
proof -
  note checked = agent_turn_checksD [OF assms(2)]
  have "read_turn env (sorted_dict (turn_payload env t)) = post_init agent_turn_checks t"
    unfolding read_turn_def field_sorted_dict [OF payload_distinct(3)]
      default_of_sorted_dict [OF payload_distinct(3)]
    using checked
    by (cases t) (simp add: field_def turn_payload_def read_simps assms(1) dget_unless_empty
        dget_unless_empty_last required_text_ok sequence_of_ok content_of_ok del: map_of_append)
  with assms(2) show ?thesis by (simp add: res_simps)
qed

lemma agent_event_checksD:
  assumes "passes agent_event_checks e"
  shows "validate_text (e_event_id e) ''event_id'' 256 = Inr ()"
    "validate_text (e_turn_id e) ''turn_id'' 256 = Inr ()" "0 \<le> e_sequence e"
    "validate_text (e_provenance e) ''provenance'' 512 = Inr ()"
    "validate_attributes (e_event_type e) (e_attributes e) = Inr ()"
  using assms by (simp_all add: passes_def agent_event_checks_def)

lemma read_event_payload:
  assumes "py_env_ok env" and "passes agent_event_checks e"
  shows "read_event env (sorted_dict (event_payload env e)) = Inr (canonical_event e)"
proof -
  note checked = agent_event_checksD [OF assms(2)]
  have attrs: "attributes_of (e_event_type e) (sort_keys (JDict (e_attributes e)))
      = Inr (sorted_dict (e_attributes e))"
    unfolding sort_keys_dict attributes_of_def
    by (simp add: validate_attributes_sorted [THEN iffD2, OF checked(5)])
  have "read_event env (sorted_dict (event_payload env e))
      = post_init agent_event_checks (canonical_event e)"
    unfolding read_event_def field_sorted_dict [OF payload_distinct(4)]
      default_of_sorted_dict [OF payload_distinct(4)]
    using checked attrs
    by (cases e) (simp add: field_def event_payload_def read_simps assms(1) dget_unless_empty
        dget_unless_empty_last required_text_ok sequence_of_ok canonical_event_def
        del: map_of_append sort_keys.simps(7))
  with canonical_event_ok [OF assms(2)] show ?thesis by (simp add: res_simps)
qed

section \<open>Reading back a capture\<close>

definition canonical_capture :: "agent_capture \<Rightarrow> agent_capture" where
  "canonical_capture c = c\<lparr>c_turns := order_turns (c_turns c),
     c_events := map canonical_event (order_events (c_events c))\<rparr>"

text \<open>Every constructor accepted its record.\<close>

definition records_built :: "agent_capture \<Rightarrow> bool" where
  "records_built c \<longleftrightarrow>
     passes source_session_checks (c_session c) \<and> passes agent_run_checks (c_run c) \<and>
     list_all (passes agent_turn_checks) (c_turns c) \<and>
     list_all (passes agent_event_checks) (c_events c)"

lemma set_order [simp]:
  "set (order_turns ts) = set ts" "set (order_events es) = set es"
  by (simp_all add: order_turns_def order_events_def)

lemma distinct_map_order:
  "distinct (map f (order_turns ts)) \<longleftrightarrow> distinct (map f ts)"
  "distinct (map g (order_events es)) \<longleftrightarrow> distinct (map g es)"
  by (simp_all add: distinct_map order_turns_def order_events_def)

lemma canonical_event_simps [simp]:
  "e_event_id (canonical_event e) = e_event_id e" "e_turn_id (canonical_event e) = e_turn_id e"
  "e_sequence (canonical_event e) = e_sequence e"
  by (simp_all add: canonical_event_def)

lemma capture_refs_ok_canonical: "capture_refs_ok (canonical_capture c) = capture_refs_ok c"
proof -
  have "map f (map canonical_event es) = map f es"
    if "\<And>e. f (canonical_event e) = f e" for f :: "agent_event \<Rightarrow> 'a" and es
    using that by simp
  then show ?thesis
    unfolding capture_refs_ok_def canonical_capture_def
    by (simp add: distinct_map_order comp_def)
qed

lemma capture_contiguous_canonical:
  "capture_contiguous (canonical_capture c) = capture_contiguous c"
proof -
  have len: "length (filter ((\<lambda>e. e_turn_id e = i) \<circ> canonical_event) (order_events es))
      = length (filter (\<lambda>e. e_turn_id e = i) es)" for i es
  proof -
    have "mset (filter (\<lambda>e. e_turn_id e = i) (order_events es))
        = mset (filter (\<lambda>e. e_turn_id e = i) es)"
      by (simp add: order_events_def)
    then show ?thesis by (simp add: comp_def flip: size_mset)
  qed
  have seqs: "e_sequence ` {e \<in> canonical_event ` S. e_turn_id e = i}
      = e_sequence ` {e \<in> S. e_turn_id e = i}" for S i
  proof -
    have "{e \<in> canonical_event ` S. e_turn_id e = i} = canonical_event ` {e \<in> S. e_turn_id e = i}"
      by auto
    then show ?thesis by (simp add: image_image)
  qed
  show ?thesis
    by (simp add: capture_contiguous_def canonical_capture_def len seqs)
       (simp add: order_turns_def)
qed

lemma capture_checks_canonical:
  "post_init agent_capture_batch_checks c = Inr c \<Longrightarrow>
     post_init agent_capture_batch_checks (canonical_capture c) = Inr (canonical_capture c)"
  "post_init agent_run_bundle_checks c = Inr c \<Longrightarrow>
     post_init agent_run_bundle_checks (canonical_capture c) = Inr (canonical_capture c)"
  by (simp_all add: res_simps passes_def agent_capture_batch_checks_def agent_run_bundle_checks_def
    validate_agent_capture_parts_iff capture_refs_ok_canonical capture_contiguous_canonical)

lemma capture_loader_ok: "loader_ok (capture_loader env)"
proof -
  have "length (filter (\<lambda>(k, v). k = x) kvs) \<le> 1" if "distinct (map fst kvs)"
    for x and kvs :: "(string \<times> jval) list"
    using that by (induction kvs) (auto simp: filter_empty_conv image_iff)
  then show ?thesis
    by (simp add: loader_ok_def capture_loader_def tool_origin_safe_object_def
      make_dict_distinct not_less [symmetric])
qed

lemma dict_items_map: "dict_items (map (\<lambda>x. JDict (f x)) xs) = map f xs"
  by (induction xs) (simp_all add: dict_items_def List.map_filter_simps)

lemma traverse_map: "(\<And>x. x \<in> set xs \<Longrightarrow> f (g x) = Inr (h x)) \<Longrightarrow> traverse f (map g xs) = Inr (map h xs)"
  by (induction xs) simp_all

lemma read_capture_payload:
  assumes "py_env_ok env" and "records_built c" and "capture_checks = agent_capture_batch_checks \<or>
      capture_checks = agent_run_bundle_checks" and "post_init capture_checks c = Inr c"
  shows "read_payload env capture_checks (sort_keys (capture_payload env c))
    = Inr (canonical_capture c)"
proof -
  let ?td = "map (\<lambda>t. JDict (sorted_dict (turn_payload env t))) (order_turns (c_turns c))"
  let ?ed = "map (\<lambda>e. JDict (sorted_dict (event_payload env e))) (order_events (c_events c))"
  let ?d = "[(''session'', JDict (session_payload env (c_session c))),
      (''run'', JDict (run_payload env (c_run c))),
      (''turns'', JList (map (\<lambda>t. JDict (turn_payload env t)) (order_turns (c_turns c)))),
      (''events'', JList (map (\<lambda>e. JDict (event_payload env e)) (order_events (c_events c))))]"
  have payload: "sort_keys (capture_payload env c) = JDict (sorted_dict ?d)"
    unfolding capture_payload_def by (rule sort_keys_dict)
  have keys: "distinct (map fst ?d)" by simp
  have fields: "field (sorted_dict ?d) ''session'' = JDict (sorted_dict (session_payload env (c_session c)))"
    "field (sorted_dict ?d) ''run'' = JDict (sorted_dict (run_payload env (c_run c)))"
    "field (sorted_dict ?d) ''turns'' = JList ?td"
    "field (sorted_dict ?d) ''events'' = JList ?ed"
    unfolding field_sorted_dict [OF keys]
    by (simp_all add: field_def sort_keys_dict comp_def del: sort_keys.simps(7))
  have "list_all (passes agent_turn_checks) (order_turns (c_turns c))"
    "list_all (passes agent_event_checks) (order_events (c_events c))"
    using assms(2) by (simp_all add: records_built_def list_all_iff)
  then have "traverse (read_turn env) (dict_items ?td) = Inr (order_turns (c_turns c))"
    "traverse (read_event env) (dict_items ?ed) = Inr (map canonical_event (order_events (c_events c)))"
    using read_turn_payload [OF assms(1)] read_event_payload [OF assms(1)]
      traverse_map [of "order_turns (c_turns c)" "read_turn env" _ "\<lambda>t. t"]
      traverse_map [of "order_events (c_events c)" "read_event env" _ canonical_event]
    by (simp_all add: dict_items_map list_all_iff)
  then have parts: "read_parts env (sorted_dict (session_payload env (c_session c)))
      (sorted_dict (run_payload env (c_run c))) ?td ?ed = Inr (canonical_capture c)"
    using assms(2) read_session_payload [OF assms(1)] read_run_payload [OF assms(1)]
    by (simp add: read_parts_def records_built_def as_ill_typed_def canonical_capture_def)
  have shapes: "list_all (shaped turn_fields turn_optional) ?td"
    "list_all (shaped event_payload_fields event_optional) ?ed"
    by (simp_all add: list_all_iff shaped_def has_shape_sorted_dict payload_shapes)
  have "set (dkeys (sorted_dict ?d)) = {''session'', ''run'', ''turns'', ''events''}"
    unfolding dkeys_sorted_dict by simp
  with fields parts shapes show ?thesis
    using capture_checks_canonical [of c] assms(3,4)
    by (auto simp: payload read_payload_def has_shape_sorted_dict payload_shapes)
qed

section \<open>Printing a payload\<close>

text \<open>
  The numbers of the capture within the interpreter's limit on decimal text, the attributes such
  that \<open>json\<close> prints and reads them.
\<close>

definition capture_printable :: "py_env \<Rightarrow> agent_capture \<Rightarrow> bool" where
  "capture_printable env c \<longleftrightarrow>
     list_all (\<lambda>t. printable (capture_loader env) (JInt (t_sequence t))) (c_turns c) \<and>
     list_all (\<lambda>e. printable (capture_loader env) (JInt (e_sequence e)) \<and>
       printable (capture_loader env) (JDict (e_attributes e))) (c_events c)"

lemma token_printable: "token_count_ok v \<Longrightarrow> printable ld (opt_json JInt v)"
proof (cases v)
  case (Some n)
  assume "token_count_ok v"
  with Some have "nat \<bar>n\<bar> < 10 ^ 19" by (simp add: token_count_ok_def nat_less_iff)
  then have "length (dec_of_nat (nat \<bar>n\<bar>)) \<le> 19" by (rule length_dec_of_nat) simp
  then show ?thesis using Some by (simp add: opt_json_def)
qed (simp add: opt_json_def)

lemma opt_text_printable: "printable ld (opt_json (\<lambda>x. JStr (f x)) v)" "printable ld (opt_json JStr w)"
  by (cases v; simp add: opt_json_def) (cases w; simp add: opt_json_def)

lemma unless_empty_printable:
  "list_all (\<lambda>kv. printable ld (snd kv)) (unless_empty b kv) \<longleftrightarrow> snd kv = b \<or> printable ld (snd kv)"
  by (auto simp: unless_empty_def)

lemma printable_dict:
  "printable ld (JDict d) \<longleftrightarrow> distinct (map fst d) \<and> list_all (\<lambda>kv. printable ld (snd kv)) d"
  by (auto simp: list_all_iff)

lemma session_payload_printable: "printable ld (JDict (session_payload env s))"
  unfolding printable_dict using payload_distinct(1)
  by (simp add: session_payload_def opt_text_printable)

lemma run_payload_printable: "printable ld (JDict (run_payload env r))"
  unfolding printable_dict using payload_distinct(2)
  by (simp add: run_payload_def opt_text_printable unless_empty_printable)

lemma turn_payload_printable:
  assumes "passes agent_turn_checks t" and "printable ld (JInt (t_sequence t))"
  shows "printable ld (JDict (turn_payload env t))"
proof -
  have "list_all token_count_ok (turn_token_fields t)"
    using assms(1) by (simp add: passes_def agent_turn_checks_def list.pred_map comp_def)
  with assms(2) show ?thesis
    unfolding printable_dict using payload_distinct(3)
    by (simp add: turn_payload_def opt_text_printable unless_empty_printable token_printable
      turn_token_fields_def del: printable.simps(3))
qed

lemma event_payload_printable:
  assumes "passes agent_event_checks e" and "printable ld (JInt (e_sequence e))"
    and "printable ld (JDict (e_attributes e))"
  shows "printable ld (JDict (event_payload env e))"
proof -
  have "token_count_ok (e_producer_sequence e)"
    using assms(1) by (simp add: passes_def agent_event_checks_def)
  with assms(2,3) show ?thesis
    unfolding printable_dict [of _ "event_payload env e"] using payload_distinct(4)
    by (simp add: event_payload_def opt_text_printable unless_empty_printable token_printable
      del: printable.simps(3,7))
qed

lemma capture_payload_printable:
  assumes "records_built c" and "capture_printable env c"
  shows "printable (capture_loader env) (capture_payload env c)"
  unfolding capture_payload_def printable_dict
  using assms session_payload_printable run_payload_printable
  by (simp add: list_all_iff records_built_def capture_printable_def turn_payload_printable
    event_payload_printable del: printable.simps(3,7))

lemma capture_text_reads_back:
  assumes "py_env_ok env" and "records_built c" and "capture_printable env c"
    and "capture_checks = agent_capture_batch_checks \<or> capture_checks = agent_run_bundle_checks"
    and "post_init capture_checks c = Inr c" and "agent_capture_to_json env c = Inr s"
  shows "agent_capture_from_json env capture_checks s = Inr (canonical_capture c)"
proof -
  from assms(6) have s: "s = json_dumps False (capture_payload env c)"
    "length s \<le> max_bundle_json_bytes"
    by (auto simp: agent_capture_to_json_def Let_def split: if_splits)
  have "json_loads_text (capture_loader env) s = Some (sort_keys (capture_payload env c))"
    unfolding s(1) json_dumps_text
    by (rule json_loads_text_text [OF capture_loader_ok
        printable_sort_keys [OF capture_payload_printable [OF assms(2,3)]]])
  with s(2) read_capture_payload [OF assms(1,2,4,5)] show ?thesis
    by (simp add: agent_capture_from_json_def)
qed

text \<open>C22 (roundtrip). A batch whose constructors succeeded and whose JSON text is within the limit is
read back from that text as the same batch, its turns and events in canonical order and the keys
of its attributes sorted.\<close>

theorem batch_json_roundtrip:
  assumes "py_env_ok env" and "records_built c" and "capture_printable env c"
    and "post_init agent_capture_batch_checks c = Inr c" and "agent_capture_to_json env c = Inr s"
  shows "agent_capture_batch_from_json env s = Inr (canonical_capture c)"
  unfolding agent_capture_batch_from_json_def
  by (rule capture_text_reads_back [OF assms(1-3) _ assms(4,5)]) simp

text \<open>C36 (roundtrip). The same of a complete bundle: it is read back as a complete bundle.\<close>

theorem bundle_json_roundtrip:
  assumes "py_env_ok env" and "records_built c" and "capture_printable env c"
    and "post_init agent_run_bundle_checks c = Inr c" and "agent_capture_to_json env c = Inr s"
  shows "agent_run_bundle_from_json env s = Inr (canonical_capture c)"
  unfolding agent_run_bundle_from_json_def
  by (rule capture_text_reads_back [OF assms(1-3) _ assms(4,5)]) simp

section \<open>A content that is not text\<close>

lemma field_dset: "field (dset k v d) k' = (if k' = k then v else field d k')"
  by (simp add: field_def dget_dset)

lemma state_value_PRESENT: "state_of (JStr (evidence_state_value PRESENT)) = Inr PRESENT"
  by (rule enum_of_value)

text \<open>A turn whose request is recorded as present but is not text, and which is
otherwise valid, is not refused as ill-typed: the attribute error of the constructor escapes.\<close>

theorem non_text_content_escapes:
  assumes "py_env_ok env" and "passes agent_turn_checks t" and "t_request_state t = PRESENT"
    and "v \<noteq> JNull" and "\<not> is_jstr v"
  shows "as_ill_typed (read_turn env (dset ''user_request_redacted'' v (turn_payload env t)))
    = Inl (AttributeError ''content has no attribute encode'')"
proof -
  note checked = agent_turn_checksD [OF assms(2)]
  have "content_of PRESENT v = Inl (AttributeError ''content has no attribute encode'')"
    using assms(4,5) by (auto simp: content_of_def is_jstr_def split: jval.splits)
  then have "read_turn env (dset ''user_request_redacted'' v (turn_payload env t))
      = Inl (AttributeError ''content has no attribute encode'')"
    unfolding read_turn_def field_dset
    using checked assms(3) state_value_PRESENT
    by (cases t) (simp add: field_def turn_payload_def read_simps assms(1) required_text_ok
      sequence_of_ok del: evidence_state_value.simps map_of_append)
  then show ?thesis by (simp add: as_ill_typed_def)
qed

end
