(* ===== verification/Transport_Laws.thy ===== *)
theory Transport_Laws
  imports Transport Codec_Laws Store_Laws
begin

text \<open>
  A record that is written to the transport is read back: traces and spans with the entries of
  their objects in the order of their keys, captures in their canonical order.
\<close>

section \<open>UTF-8 of printed text\<close>

lemma utf8_valid_append: "utf8_valid s \<Longrightarrow> utf8_valid t \<Longrightarrow> utf8_valid (s @ t)"
proof (induction s rule: utf8_valid.induct)
  case (2 a s)
  show ?case
  proof (cases "ord a < (128 :: nat)")
    case True
    with 2 show ?thesis by simp
  next
    case False
    from "2.prems"(1) False
    consider b r where "s = b # r" "194 \<le> ord a" "ord a < 224"
      | b c r where "s = b # c # r" "224 \<le> ord a" "ord a < 240"
      | b c d r where "s = b # c # d # r" "240 \<le> ord a" "ord a < 245"
      by (auto simp: not_less split: if_splits list.splits)
    then show ?thesis using "2.prems" False by cases (simp_all add: "2.IH")
  qed
qed simp

lemma escape_ascii: "ord c < (128 :: nat) \<Longrightarrow> is_ascii (escape_char a c)"
  by (auto simp: escape_char_def hex_char_def)

lemma escape_other: "128 \<le> ord c \<Longrightarrow> escape_char a c = [c]"
  by (auto simp: escape_char_def)

lemma utf8_valid_escaped: "utf8_valid s \<Longrightarrow> utf8_valid (concat (map (escape_char a) s))"
proof (induction s rule: utf8_valid.induct)
  case (2 c s)
  show ?case
  proof (cases "ord c < (128 :: nat)")
    case True
    with 2 show ?thesis
      by (simp add: utf8_valid_append ascii_utf8_valid escape_ascii)
  next
    case False
    with 2 show ?thesis
      by (auto simp: escape_other is_cont_def split: if_splits list.splits)
  qed
qed simp

primrec utf8_json :: "jval \<Rightarrow> bool" where
  "utf8_json JNull = True"
| "utf8_json (JBool b) = True"
| "utf8_json (JInt i) = True"
| "utf8_json (JFloat q r) = (is_ascii r \<and> one_line r)"
| "utf8_json (JStr s) = utf8_valid s"
| "utf8_json (JList vs) = list_all id (map utf8_json vs)"
| "utf8_json (JDict kvs) =
     list_all (\<lambda>(k, ok). utf8_valid k \<and> ok) (map (map_prod id utf8_json) kvs)"

lemma utf8_quote: "utf8_valid s \<Longrightarrow> utf8_valid (json_quote a s)"
  by (simp add: json_quote_def utf8_valid_append utf8_valid_escaped del: length_concat)

lemma utf8_join: "list_all utf8_valid ss \<Longrightarrow> utf8_valid (join_comma ss)"
  by (induction ss rule: join_comma.induct) (auto intro: utf8_valid_append)

lemma utf8_pair: "utf8_valid k \<Longrightarrow> utf8_valid (json_text a v) \<Longrightarrow> utf8_valid (pair_text a (k, v))"
  by (simp add: pair_text_def utf8_valid_append utf8_quote)

lemma utf8_text: "utf8_json v \<Longrightarrow> utf8_valid (json_text a v)"
proof (induction v)
  case (JList vs)
  then show ?case by (auto simp: list_all_iff intro!: utf8_valid_append utf8_join)
next
  case (JDict kvs)
  then have "list_all utf8_valid (map (pair_text a) kvs)"
    by (fastforce simp: list_all_iff intro: utf8_pair)
  then show ?case unfolding json_text_dict by (auto intro!: utf8_valid_append utf8_join)
qed (auto simp: ascii_utf8_valid is_ascii_dec_of_int utf8_quote)

lemma utf8_sort_keys: "utf8_json v \<Longrightarrow> utf8_json (sort_keys v)"
  by (induction v) (fastforce simp: list_all_iff)+

text \<open>Printed text has no line break: the one in a string is escaped.\<close>

lemma one_line_append [simp]: "one_line (s @ t) \<longleftrightarrow> one_line s \<and> one_line t"
  by (auto simp: one_line_def)

lemma one_line_chars [simp]:
  "one_line []" "one_line (c # s) \<longleftrightarrow> c \<noteq> CHR 0x0A \<and> one_line s"
  by (auto simp: one_line_def)

lemma one_line_digits: "list_all is_digit s \<Longrightarrow> one_line s"
  by (auto simp: one_line_def is_digit_def list_all_iff)

lemma hex_not_newline: "n < 16 \<Longrightarrow> hex_char n \<noteq> CHR 0x0A"
proof
  assume n: "n < 16" and "hex_char n = CHR 0x0A"
  then have "ord (hex_char n) = (10 :: nat)" by simp
  with n show False by (simp add: hex_char_def split: if_splits)
qed

lemma one_line_quote [simp]: "one_line (json_quote a s)"
proof -
  have "one_line (escape_char a c)" for c
    by (auto simp: escape_char_def hex_not_newline dest: hex_not_newline [rotated])
  then have "one_line (concat (map (escape_char a) s))"
    by (induction s) auto
  then show ?thesis by (simp add: json_quote_def del: length_concat)
qed

lemma one_line_join: "list_all one_line ss \<Longrightarrow> one_line (join_comma ss)"
  by (induction ss rule: join_comma.induct) auto

lemma one_line_text: "utf8_json v \<Longrightarrow> one_line (json_text a v)"
proof (induction v)
  case (JInt i)
  then show ?case by (simp add: dec_of_int_def one_line_digits dec_of_nat_digits)
next
  case (JList vs)
  then show ?case by (auto simp: list_all_iff intro!: one_line_join)
next
  case (JDict kvs)
  then have "list_all one_line (map (pair_text a) kvs)"
    by (fastforce simp: list_all_iff pair_text_def one_line_quote)
  then show ?case unfolding json_text_dict by (simp add: one_line_join)
qed (simp_all add: one_line_quote)

text \<open>A value that survives being written as UTF-8 text.\<close>

definition transportable :: "py_env \<Rightarrow> jval \<Rightarrow> bool" where
  "transportable env v \<longleftrightarrow> printable (plain_loader (pe_float env)) v \<and> utf8_json v"

lemma transportable_loads:
  assumes "transportable env v"
  shows "json_loads (pe_float env) (json_dumps a v) = Some (sort_keys v)"
proof -
  have "utf8_valid (json_dumps a v)"
    using assms by (simp add: transportable_def json_dumps_text utf8_text utf8_sort_keys)
  moreover have "json_loads_text (plain_loader (pe_float env)) (json_text a (sort_keys v))
      = Some (sort_keys v)"
    using assms by (intro json_loads_text_text plain_loader_ok) (simp add: transportable_def printable_sort_keys)
  ultimately show ?thesis by (simp add: json_loads_def json_dumps_text)
qed

section \<open>Envelopes\<close>

lemma record_reads_back:
  assumes "record_bytes kind v = Inr bytes" and "transportable env v"
    and "kind = ''trace'' \<or> kind = ''span'' \<or> kind = ''agent''" and "dc_env dc = env"
  obtains raw where "bytes = raw @ newline" and "one_line raw"
    and "decode_capture_record dc raw = decode_envelope dc
      (JStr (if kind = ''agent'' then agent_capture_schema else capture_schema)) (JStr kind)
      (sort_keys v)"
proof -
  let ?d = "[(''schema'', JStr (if kind = ''agent'' then agent_capture_schema else capture_schema)),
     (''kind'', JStr kind), (''record'', v)]"
  let ?raw = "json_dumps False (JDict ?d)"
  from assms(1) have bytes: "bytes = ?raw @ newline" "length ?raw \<le> max_record_bytes"
    by (simp_all add: record_bytes_def Let_def split: if_splits)
  have ok: "transportable env (JDict ?d)"
    using assms(2,3) by (auto simp: transportable_def agent_capture_schema_def capture_schema_def)
  note loads = transportable_loads [OF ok, of False]
  have d: "distinct (map fst ?d)" by simp
  have keys: "set (dkeys (sorted_dict ?d)) = {''schema'', ''kind'', ''record''}"
    unfolding dkeys_sorted_dict by simp
  have "decode_capture_record dc ?raw = decode_envelope dc
      (JStr (if kind = ''agent'' then agent_capture_schema else capture_schema)) (JStr kind)
      (sort_keys v)"
    using bytes(2) keys loads
    unfolding decode_capture_record_def assms(4) sort_keys_dict
    by (simp only: option.case jval.case if_False if_True not_less [symmetric] field_sorted_dict [OF d])
      (simp add: field_def)
  moreover have "one_line ?raw"
    using ok
    by (simp add: json_dumps_text one_line_text utf8_sort_keys transportable_def)
  ultimately show thesis using bytes(1) that by blast
qed

section \<open>Spans\<close>

definition float_text_ok :: "py_env \<Rightarrow> rat option \<Rightarrow> bool" where
  "float_text_ok env v \<longleftrightarrow> (case v of None \<Rightarrow> True
     | Some q \<Rightarrow> transportable env (float_json env q))"

lemma float_text_transportable:
  "float_text_ok env v \<Longrightarrow> transportable env (opt_json (float_json env) v)"
  by (auto simp: float_text_ok_def opt_json_def transportable_def split: option.splits)

definition bounded_text :: "nat \<Rightarrow> bool \<Rightarrow> string \<Rightarrow> bool" where
  "bounded_text maximum allow_empty s \<longleftrightarrow>
     (s \<noteq> [] \<or> allow_empty) \<and> CHR 0x00 \<notin> set s \<and> length s \<le> maximum"

text \<open>What the reader demands of a span, and that its strings and numbers can be written.\<close>

definition span_ok :: "py_env \<Rightarrow> span_record \<Rightarrow> bool" where
  "span_ok env s \<longleftrightarrow>
     bounded_text 256 False (sp_span_id s) \<and> bounded_text 4096 True (sp_name s) \<and>
     pred_option (bounded_text 256 False) (sp_trace_id s) \<and>
     pred_option (bounded_text 256 False) (sp_tenant_id s) \<and>
     pred_option (bounded_text 4096 True) (sp_parent_name s) \<and>
     pred_option (bounded_text 4096 True) (sp_error s) \<and>
     pred_option (\<lambda>q. 0 \<le> q) (sp_duration_ms s) \<and>
     transportable env (JDict (span_to_payload env s))"

definition canonical_span :: "span_record \<Rightarrow> span_record" where
  "canonical_span s = s\<lparr>sp_attributes := sorted_dict (sp_attributes s)\<rparr>"

lemma transport_time_iso: "py_env_ok env \<Longrightarrow> transport_time env e (JStr (pe_iso env t)) = Inr t"
  by (simp add: transport_time_def py_env_ok_def)

lemma opt_transport_time:
  "py_env_ok env \<Longrightarrow> opt_of (transport_time env e) (opt_json (\<lambda>u. JStr (pe_iso env u)) v) = Inr v"
  by (cases v) (simp_all add: opt_of_def opt_json_def transport_time_iso)

lemma sort_keys_optional [simp]:
  "sort_keys (opt_json JStr v) = opt_json JStr v" "sort_keys (opt_json JInt n) = opt_json JInt n"
  "sort_keys (opt_json (float_json env) q) = opt_json (float_json env) q"
  "sort_keys (opt_json (\<lambda>u. JStr (pe_iso env u)) t) = opt_json (\<lambda>u. JStr (pe_iso env u)) t"
  by (simp_all add: opt_json_def float_json_def split: option.splits)

lemma opt_text_json [simp]: "opt_text (opt_json JStr v) = v" "opt_text (JStr s) = Some s"
  by (simp_all add: opt_text_def opt_json_def split: option.splits)

lemma require_text_json:
  "bounded_text m e s \<Longrightarrow> require_transport_text l m optional e (JStr s) = Inr ()"
  "pred_option (bounded_text m e) v \<Longrightarrow> require_transport_text l m True e (opt_json JStr v) = Inr ()"
  by (auto simp: require_transport_text_def bounded_text_def opt_json_def split: option.splits)

lemma duration_json:
  "pred_option ((\<le>) 0) v \<Longrightarrow> duration_of (opt_json (float_json env) v) = Inr v"
  by (cases v) (simp_all add: duration_of_def opt_json_def float_json_def)

lemma span_payload_distinct: "distinct (map fst (span_to_payload env s))"
  by (simp add: span_to_payload_def)

lemma span_payload_reads_back:
  assumes "py_env_ok env" and "span_ok env s"
  shows "span_from_payload env (sort_keys (JDict (span_to_payload env s))) = Inr (canonical_span s)"
proof -
  let ?d = "sorted_dict (span_to_payload env s)"
  have keys: "set (dkeys ?d) = set span_transport_fields"
    unfolding dkeys_sorted_dict
    by (auto simp: span_to_payload_def span_transport_fields_def span_transport_v1_fields_def)
  have "dget ?d ''tenant_id'' \<noteq> None"
    unfolding dget_sorted_dict [OF span_payload_distinct] by (simp add: span_to_payload_def)
  then have same: "dsetdefault ''tenant_id'' JNull ?d = ?d" by (auto simp: dsetdefault_def)
  have field: "field ?d k = sort_keys (field (span_to_payload env s) k)" for k
    by (rule field_sorted_dict [OF span_payload_distinct])
  have "span_of_values env ?d = Inr (canonical_span s)"
    unfolding span_of_values_def field using assms
    by (cases s) (simp add: field_def span_to_payload_def transport_time_iso opt_transport_time
        span_ok_def require_text_json checks.simps(2) duration_json canonical_span_def
        sort_keys_dict del: sort_keys.simps(7))
  with keys same show ?thesis by (simp add: span_from_payload_def sort_keys_dict del: sort_keys.simps(7))
qed

section \<open>Traces\<close>

definition canonical_trace :: "trace \<Rightarrow> trace" where
  "canonical_trace t = t\<lparr>
     tr_raw_messages := map_option (map sort_keys) (tr_raw_messages t),
     tr_tags := sort_key fst (tr_tags t),
     tr_analysis_started_at_us := None, tr_analysis_started_at_state := ''pending'',
     tr_analysis_raw_messages_utf8_bytes := None, tr_analysis_raw_messages_state := ''pending''\<rparr>"

definition trace_ok :: "py_env \<Rightarrow> trace \<Rightarrow> bool" where
  "trace_ok env t \<longleftrightarrow> normalize_scalars t = t \<and> transportable env (JDict (trace_to_payload env t))"

lemma trace_payload_distinct: "distinct (map fst (trace_to_payload env t))"
  by (simp add: trace_to_payload_def)

lemma trace_payload_dget [simp]:
  "dget (trace_to_payload env t) ''service_name'' \<noteq> None"
  "dget (trace_to_payload env t) ''environment'' \<noteq> None"
  by (simp_all add: trace_to_payload_def)

lemma trace_payload_keys: "dkeys (trace_to_payload env t) =
    [''trace_id'', ''started_at'', ''ended_at'', ''provider'', ''operation'', ''request_model'',
     ''response_model'', ''input_tokens'', ''output_tokens'', ''temperature'', ''max_tokens'',
     ''finish_reason'', ''error'', ''latency_ms'', ''prompt_redacted'', ''response_redacted'',
     ''raw_messages'', ''tenant_id'', ''session_id'', ''user_id_hash'', ''cluster_id'', ''tags'',
     ''cost_usd'', ''parent_span_id'', ''service_name'', ''environment'']"
  by (simp add: trace_to_payload_def)

lemma sorted_field:
  "field (sorted_dict (trace_to_payload env t)) k = sort_keys (field (trace_to_payload env t) k)"
  by (rule field_sorted_dict [OF trace_payload_distinct])

lemma count_field_trace:
  assumes "normalize_scalars t = t"
  shows "count_field (sorted_dict (trace_to_payload env t)) ''input_tokens'' = tr_input_tokens t"
    and "count_field (sorted_dict (trace_to_payload env t)) ''output_tokens'' = tr_output_tokens t"
    and "count_field (sorted_dict (trace_to_payload env t)) ''max_tokens'' = tr_max_tokens t"
proof -
  have n: "normalize_optional_integer (opt_json JInt v) 0 max_trace_integer = v"
    if "norm_count v = v" for v
    using that by (cases v) (simp_all add: norm_count_def opt_json_def normalize_optional_integer_def)
  have "norm_count (tr_input_tokens t) = tr_input_tokens t"
    "norm_count (tr_output_tokens t) = tr_output_tokens t"
    "norm_count (tr_max_tokens t) = tr_max_tokens t"
    using assms by (simp_all add: normal_fields)
  then show "count_field (sorted_dict (trace_to_payload env t)) ''input_tokens'' = tr_input_tokens t"
    and "count_field (sorted_dict (trace_to_payload env t)) ''output_tokens'' = tr_output_tokens t"
    and "count_field (sorted_dict (trace_to_payload env t)) ''max_tokens'' = tr_max_tokens t"
    unfolding count_field_def sorted_field
    by (simp_all add: field_def trace_to_payload_def n)
qed

lemma float_field_trace:
  assumes "normalize_scalars t = t"
  shows "float_field (sorted_dict (trace_to_payload env t)) ''temperature'' None
      = Inr (tr_temperature t)"
    and "float_field (sorted_dict (trace_to_payload env t)) ''latency_ms'' (Some 0)
      = Inr (tr_latency_ms t)"
    and "float_field (sorted_dict (trace_to_payload env t)) ''cost_usd'' (Some 0)
      = Inr (tr_cost_usd t)"
proof -
  have n: "normalize_optional_float (opt_json (float_json env) v) (Some 0) = v"
    if "norm_amount v = v" for v
    using that by (cases v) (simp_all add: norm_amount_def opt_json_def normalize_optional_float_def
        float_json_def)
  have m: "normalize_optional_float (opt_json (float_json env) v) None = v" for v
    by (cases v) (simp_all add: opt_json_def normalize_optional_float_def float_json_def)
  have f: "float_field d k lo = Inr (normalize_optional_float (field d k) lo)"
    if "field d k = opt_json (float_json env) v" for d k lo v
    using that by (cases v) (simp_all add: float_field_def opt_json_def float_json_def)
  have "norm_amount (tr_latency_ms t) = tr_latency_ms t" "norm_amount (tr_cost_usd t) = tr_cost_usd t"
    using assms by (simp_all add: normal_fields)
  moreover have
    "field (sorted_dict (trace_to_payload env t)) ''temperature'' = opt_json (float_json env) (tr_temperature t)"
    "field (sorted_dict (trace_to_payload env t)) ''latency_ms'' = opt_json (float_json env) (tr_latency_ms t)"
    "field (sorted_dict (trace_to_payload env t)) ''cost_usd'' = opt_json (float_json env) (tr_cost_usd t)"
    unfolding sorted_field by (simp_all add: field_def trace_to_payload_def)
  ultimately show "float_field (sorted_dict (trace_to_payload env t)) ''temperature'' None
      = Inr (tr_temperature t)"
    and "float_field (sorted_dict (trace_to_payload env t)) ''latency_ms'' (Some 0)
      = Inr (tr_latency_ms t)"
    and "float_field (sorted_dict (trace_to_payload env t)) ''cost_usd'' (Some 0)
      = Inr (tr_cost_usd t)"
    using f n m by simp_all
qed

lemma str_fields_trace:
  "str_field (sorted_dict (trace_to_payload env t)) ''trace_id'' = Some (tr_trace_id t)"
  "str_field (sorted_dict (trace_to_payload env t)) ''provider'' = Some (tr_provider t)"
  "str_field (sorted_dict (trace_to_payload env t)) ''request_model'' = Some (tr_request_model t)"
  "str_field (sorted_dict (trace_to_payload env t)) ''response_model'' = Some (tr_response_model t)"
  "str_field (sorted_dict (trace_to_payload env t)) ''service_name'' = Some (tr_service_name t)"
  "str_field (sorted_dict (trace_to_payload env t)) ''environment'' = Some (tr_environment t)"
  unfolding str_field_def sorted_field by (simp_all add: field_def trace_to_payload_def)

lemma opt_str_fields_trace:
  "opt_str_field (sorted_dict (trace_to_payload env t)) ''finish_reason'' = Some (tr_finish_reason t)"
  "opt_str_field (sorted_dict (trace_to_payload env t)) ''error'' = Some (tr_error t)"
  "opt_str_field (sorted_dict (trace_to_payload env t)) ''prompt_redacted'' = Some (tr_prompt_redacted t)"
  "opt_str_field (sorted_dict (trace_to_payload env t)) ''response_redacted'' = Some (tr_response_redacted t)"
  "opt_str_field (sorted_dict (trace_to_payload env t)) ''tenant_id'' = Some (tr_tenant_id t)"
  "opt_str_field (sorted_dict (trace_to_payload env t)) ''session_id'' = Some (tr_session_id t)"
  "opt_str_field (sorted_dict (trace_to_payload env t)) ''user_id_hash'' = Some (tr_user_id_hash t)"
  "opt_str_field (sorted_dict (trace_to_payload env t)) ''cluster_id'' = Some (tr_cluster_id t)"
  "opt_str_field (sorted_dict (trace_to_payload env t)) ''parent_span_id'' = Some (tr_parent_span_id t)"
proof -
  have o: "(case opt_json JStr v of JStr s \<Rightarrow> Some (Some s) | JNull \<Rightarrow> Some None | _ \<Rightarrow> None) = Some v" for v
    by (cases v) (simp_all add: opt_json_def)
  show "opt_str_field (sorted_dict (trace_to_payload env t)) ''finish_reason'' = Some (tr_finish_reason t)"
    "opt_str_field (sorted_dict (trace_to_payload env t)) ''error'' = Some (tr_error t)"
    "opt_str_field (sorted_dict (trace_to_payload env t)) ''prompt_redacted'' = Some (tr_prompt_redacted t)"
    "opt_str_field (sorted_dict (trace_to_payload env t)) ''response_redacted'' = Some (tr_response_redacted t)"
    "opt_str_field (sorted_dict (trace_to_payload env t)) ''tenant_id'' = Some (tr_tenant_id t)"
    "opt_str_field (sorted_dict (trace_to_payload env t)) ''session_id'' = Some (tr_session_id t)"
    "opt_str_field (sorted_dict (trace_to_payload env t)) ''user_id_hash'' = Some (tr_user_id_hash t)"
    "opt_str_field (sorted_dict (trace_to_payload env t)) ''cluster_id'' = Some (tr_cluster_id t)"
    "opt_str_field (sorted_dict (trace_to_payload env t)) ''parent_span_id'' = Some (tr_parent_span_id t)"
    unfolding opt_str_field_def sorted_field by (simp_all add: field_def trace_to_payload_def o)
qed

lemma messages_field_trace: "messages_field (sorted_dict (trace_to_payload env t))
    = Some (map_option (map sort_keys) (tr_raw_messages t))"
  unfolding messages_field_def sorted_field
  by (simp add: field_def trace_to_payload_def opt_json_def split: option.split)

lemma tags_field_trace:
  "tags_field (sorted_dict (trace_to_payload env t)) = Some (sort_key fst (tr_tags t))"
proof -
  have "field (sorted_dict (trace_to_payload env t)) ''tags''
      = JDict (map (map_prod id JStr) (sort_key fst (tr_tags t)))"
  proof -
    have "map (map_prod id sort_keys) (map (map_prod id JStr) (tr_tags t))
        = map (map_prod id JStr) (tr_tags t)" by auto
    then show ?thesis
      unfolding sorted_field
      by (simp add: field_def trace_to_payload_def sort_key_map_prod del: map_map)
  qed
  then show ?thesis
    by (simp add: tags_field_def is_jstr_def comp_def case_prod_unfold list_all_iff)
qed

lemma transport_operation_value: "transport_operation (JStr (operation_value op)) = Inr op"
  by (cases op) (simp_all add: transport_operation_def)

lemma trace_payload_reads_back:
  assumes "py_env_ok (dc_env dc)" and "trace_ok (dc_env dc) t"
  shows "trace_from_payload dc (sort_keys (JDict (trace_to_payload (dc_env dc) t)))
    = Inr (canonical_trace t)"
proof -
  let ?d = "sorted_dict (trace_to_payload (dc_env dc) t)"
  have normal: "normalize_scalars t = t" using assms(2) by (simp add: trace_ok_def)
  have keys: "set (dkeys ?d) = set trace_transport_fields"
    unfolding dkeys_sorted_dict trace_payload_keys
    by (auto simp: trace_transport_fields_def trace_transport_v1_fields_def)
  have "dget ?d ''service_name'' \<noteq> None" "dget ?d ''environment'' \<noteq> None"
    unfolding dget_sorted_dict [OF trace_payload_distinct] by (auto simp: trace_to_payload_def)
  then have same: "dsetdefault ''environment'' (JStr []) (dsetdefault ''service_name'' (JStr []) ?d) = ?d"
    by (auto simp: dsetdefault_def)
  have "field ?d ''started_at'' = JStr (pe_iso (dc_env dc) (tr_started_at t))"
    "field ?d ''ended_at'' = opt_json (\<lambda>u. JStr (pe_iso (dc_env dc) u)) (tr_ended_at t)"
    "field ?d ''operation'' = JStr (operation_value (tr_operation t))"
    unfolding sorted_field by (simp_all add: field_def trace_to_payload_def)
  then have "trace_of_values dc ?d = Inr (canonical_trace t)"
    by (simp add: trace_of_values_def number_fields_def text_fields_def str_fields_trace
        opt_str_fields_trace messages_field_trace tags_field_trace transport_time_iso assms(1)
        opt_transport_time transport_operation_value canonical_trace_def trace.equality
        count_field_trace [OF normal] float_field_trace [OF normal])
  moreover have "set trace_transport_v1_fields \<subseteq> set trace_transport_fields"
    by (auto simp: trace_transport_fields_def)
  ultimately show ?thesis
    unfolding trace_from_payload_def sort_keys_dict jval.simps keys by (simp add: same)
qed

section \<open>Records\<close>

text \<open>A trace or a span that the file sink writes is one line, decoded to the same record,
with the entries of its objects in the order of their keys and the derived analysis fields of a
trace left to be computed again.\<close>

theorem trace_and_span_roundtrip:
  assumes "py_env_ok (dc_env dc)" and "trace_ok (dc_env dc) t" and "span_ok (dc_env dc) s"
    and "encode_trace (dc_env dc) t = Inr tbytes" and "encode_span (dc_env dc) s = Inr sbytes"
  shows "\<exists>traw sraw. tbytes = traw @ newline \<and> sbytes = sraw @ newline \<and>
    one_line traw \<and> one_line sraw \<and>
    decode_capture_record dc traw = Inr (Some (TraceRecord (canonical_trace t))) \<and>
    decode_capture_record dc sraw = Inr (Some (SpanRecord (canonical_span s)))"
proof -
  obtain traw where t: "tbytes = traw @ newline" "one_line traw"
    "decode_capture_record dc traw = decode_envelope dc (JStr capture_schema) (JStr ''trace'')
       (sort_keys (JDict (trace_to_payload (dc_env dc) t)))"
    using record_reads_back [OF assms(4) [unfolded encode_trace_def] _ _ refl] assms(2)
    by (auto simp: trace_ok_def simp del: sort_keys.simps(7))
  obtain sraw where s: "sbytes = sraw @ newline" "one_line sraw"
    "decode_capture_record dc sraw = decode_envelope dc (JStr capture_schema) (JStr ''span'')
       (sort_keys (JDict (span_to_payload (dc_env dc) s)))"
    using record_reads_back [OF assms(5) [unfolded encode_span_def] _ _ refl] assms(3)
    by (auto simp: span_ok_def simp del: sort_keys.simps(7))
  have "capture_schema \<noteq> agent_capture_schema"
    by (simp add: capture_schema_def agent_capture_schema_def)
  then show ?thesis
    using t s trace_payload_reads_back [OF assms(1,2)] span_payload_reads_back [OF assms(1,3)]
    by (simp add: decode_envelope_def del: sort_keys.simps(7))
qed

lemma utf8_dict: "utf8_json (JDict kvs) \<longleftrightarrow> list_all (\<lambda>(k, v). utf8_valid k \<and> utf8_json v) kvs"
  by (auto simp: list_all_iff)

lemma transportable_dict:
  "distinct (map fst kvs) \<Longrightarrow> list_all (\<lambda>(k, v). is_ascii k \<and> transportable env v) kvs \<Longrightarrow>
   transportable env (JDict kvs)"
  unfolding transportable_def printable_dict utf8_dict
  by (fastforce simp: list_all_iff ascii_utf8_valid)

lemma transportable_list: "list_all (transportable env) vs \<Longrightarrow> transportable env (JList vs)"
  by (auto simp: transportable_def list_all_iff)

lemma transportable_sort_keys: "transportable env v \<Longrightarrow> transportable env (sort_keys v)"
  by (simp add: transportable_def printable_sort_keys utf8_sort_keys)

lemma traverse_traces:
  assumes "py_env_ok (dc_env dc)" and "list_all (trace_ok (dc_env dc)) ts"
  shows "traverse (trace_from_payload dc)
      (map sort_keys (map (\<lambda>t. JDict (trace_to_payload (dc_env dc) t)) ts))
    = Inr (map canonical_trace ts)"
  using assms(2)
  by (induction ts) (simp_all add: trace_payload_reads_back [OF assms(1)] del: sort_keys.simps(7))


end
