(* ===== verification/Codec_Samples.thy ===== *)
theory Codec_Samples
  imports Codec_Laws Samples
begin

text \<open>
  The codec applied to the sample capture, and a bound on the length of JSON text that spares the
  evaluation of the text itself.
\<close>

primrec weight :: "jval \<Rightarrow> nat" where
  "weight JNull = 4"
| "weight (JBool b) = 5"
| "weight (JInt i) = length (dec_of_int i)"
| "weight (JFloat q r) = length r"
| "weight (JStr s) = 6 * length s + 2"
| "weight (JList vs) = sum_list (map (\<lambda>n. n + 1) (map weight vs)) + 2"
| "weight (JDict kvs) =
     sum_list (map (\<lambda>(k, n). 6 * length k + 4 + n) (map (map_prod id weight) kvs)) + 2"

lemma length_escape_char: "length (escape_char a c) \<le> 6"
  by (simp add: escape_char_def)

lemma length_quote: "length (json_quote a s) \<le> 6 * length s + 2"
proof -
  have "length (concat (map (escape_char a) s)) \<le> 6 * length s"
  proof (induction s)
    case (Cons c s)
    then show ?case using length_escape_char [of a c] by (simp del: length_concat)
  qed simp
  then show ?thesis by (simp add: json_quote_def del: length_concat)
qed

lemma length_join: "length (join_comma ss) \<le> sum_list (map (\<lambda>s. length s + 1) ss)"
  by (induction ss rule: join_comma.induct) auto

lemma sum_list_le: "(\<And>x. x \<in> set xs \<Longrightarrow> f x \<le> g x) \<Longrightarrow> sum_list (map f xs) \<le> (sum_list (map g xs) :: nat)"
  by (induction xs) (auto intro: add_mono)

lemma length_text: "length (json_text a v) \<le> weight v"
proof (induction v)
  case (JStr s)
  then show ?case using length_quote [of a s] by simp
next
  case (JList vs)
  then have "sum_list (map (\<lambda>v. length (json_text a v) + 1) vs)
      \<le> sum_list (map (\<lambda>v. weight v + 1) vs)"
    by (intro sum_list_le) simp
  then show ?case
    using length_join [of "map (json_text a) vs"] by (simp add: comp_def)
next
  case (JDict kvs)
  have "length (pair_text a kv) + 1 \<le> 6 * length (fst kv) + 4 + weight (snd kv)"
    if "kv \<in> set kvs" for kv
    using JDict [of kv "snd kv"] that length_quote [of a "fst kv"]
    by (cases kv) (simp add: pair_text_def)
  then have "sum_list (map (\<lambda>kv. length (pair_text a kv) + 1) kvs)
      \<le> sum_list (map (\<lambda>kv. 6 * length (fst kv) + 4 + weight (snd kv)) kvs)"
    by (rule sum_list_le)
  then show ?case
    unfolding json_text_dict using length_join [of "map (pair_text a) kvs"]
    by (simp add: comp_def case_prod_unfold)
qed simp_all

lemma weight_sort_keys: "weight (sort_keys v) = weight v"
proof (induction v)
  case (JList vs)
  then have "map weight (map sort_keys vs) = map weight vs" by simp
  then show ?case by (simp only: sort_keys.simps weight.simps)
next
  case (JDict kvs)
  have "map (map_prod id weight) (map (map_prod id sort_keys) kvs) = map (map_prod id weight) kvs"
    using JDict by fastforce
  then show ?case
    by (simp only: sort_keys.simps weight.simps sort_key_map_prod [symmetric] sum_list_sort_key)
qed simp_all

lemma length_dumps: "length (json_dumps a v) \<le> weight v"
  using length_text [of a "sort_keys v"] by (simp add: json_dumps_text weight_sort_keys)

section \<open>The sample capture\<close>

definition sample_text :: string where
  "sample_text = json_dumps False (capture_payload plain_py_env sample_capture)"

lemma sample_records:
  "records_built sample_capture" "capture_printable plain_py_env sample_capture"
  "post_init agent_capture_batch_checks sample_capture = Inr sample_capture"
  "post_init agent_run_bundle_checks sample_capture = Inr sample_capture"
proof -
  show "records_built sample_capture"
    using sample_session_ok sample_run_ok sample_turn_ok sample_event_ok
    by (simp add: records_built_def sample_capture_def)
  show "capture_printable plain_py_env sample_capture"
    by (simp add: capture_printable_def sample_capture_def sample_turn_def sample_event_def
      dec_of_nat.simps)
  from sample_capture_ok
  show "post_init agent_capture_batch_checks sample_capture = Inr sample_capture"
    "post_init agent_run_bundle_checks sample_capture = Inr sample_capture"
    by (simp_all add: res_simps)
qed

lemma small_dec: "length (dec_of_int 0) = 1" "length (dec_of_int 1) = 1" "length (dec_of_int 2) = 1"
  by (simp_all add: dec_of_int_def dec_of_nat.simps)

lemma sample_payload_weight: "weight (capture_payload plain_py_env sample_capture) \<le> 9999"
  by (simp add: capture_payload_def sample_capture_def sample_session_def sample_run_def
    sample_turn_def sample_event_def session_payload_def run_payload_def turn_payload_def
    event_payload_def order_turns_def order_events_def unless_empty_def opt_json_def
    plain_py_env_def sample_digest_def small_dec)

lemma sample_to_json: "agent_capture_to_json plain_py_env sample_capture = Inr sample_text"
  using length_dumps [of False "capture_payload plain_py_env sample_capture"] sample_payload_weight
  by (simp add: agent_capture_to_json_def sample_text_def max_bundle_json_bytes_def)

theorem batch_json_roundtrip_witness:
  "agent_capture_batch_from_json plain_py_env sample_text = Inr (canonical_capture sample_capture)"
  by (rule batch_json_roundtrip [OF plain_py_env_ok sample_records(1-3) sample_to_json])

theorem bundle_json_roundtrip_witness:
  "agent_run_bundle_from_json plain_py_env sample_text = Inr (canonical_capture sample_capture)"
  by (rule bundle_json_roundtrip [OF plain_py_env_ok sample_records(1,2,4) sample_to_json])

theorem non_text_content_escapes_witness:
  "as_ill_typed (read_turn plain_py_env
      (dset ''user_request_redacted'' (JInt 5) (turn_payload plain_py_env sample_turn)))
    = Inl (AttributeError ''content has no attribute encode'')"
  by (rule non_text_content_escapes [OF plain_py_env_ok sample_turn_ok])
    (simp_all add: sample_turn_def is_jstr_def)

end
