(* ===== verification/Receipts.thy ===== *)
theory Receipts
  imports Python_Env
begin

text \<open>
  Delivery receipts of the remote collector, \<open>verdict/collector_receipts.py\<close>: the acknowledgement
  a batch is answered with, the receipt rows, and \<open>PostgresReceiptStore.process\<close>, which runs a
  batch at most once to completion.  The table is a dictionary; a database transaction is one
  step on it; \<open>receipt_fault\<close> says which of the transactions the database refuses.  The times are
  the transactions' \<open>now()\<close>.
\<close>

datatype delivery_error =
    ReceiptConflict
  | ReceiptBusy
  | ReceiptCorrupt string
  | BatchBoundary string nat
  | Failed py_error

section \<open>Acknowledgements\<close>

definition ingest_ack_schema :: string where
  "ingest_ack_schema = ''verdict-ingest-ack-v1''"

definition max_ack_bytes :: nat where
  "max_ack_bytes = 262144"

definition max_ack_results :: nat where
  "max_ack_results = 500"

definition record_errors :: "string list" where
  "record_errors = [''invalid_record'', ''unsupported_record_kind'', ''evidence_conflict'']"

definition validate_transport_id :: "string \<Rightarrow> string \<Rightarrow> py_error + unit" where
  "validate_transport_id v name =
     require (is_transport_id v) (ValueError (name @ '' must be a bounded ASCII identifier''))"

definition valid_result :: "jval \<Rightarrow> nat \<Rightarrow> bool" where
  "valid_result r index =
     (case r of
        JDict d \<Rightarrow>
          set (dkeys d) = {''index'', ''recordDigest'', ''status'', ''error''} \<and>
          dget d ''index'' = Some (JInt (int index)) \<and>
          (case dget d ''recordDigest'' of Some (JStr s) \<Rightarrow> is_digest s | _ \<Rightarrow> False) \<and>
          (dget d ''status'' = Some (JStr ''accepted'') \<and> dget d ''error'' = Some JNull \<or>
           dget d ''status'' = Some (JStr ''rejected'') \<and>
             (case dget d ''error'' of Some (JStr e) \<Rightarrow> e \<in> set record_errors | _ \<Rightarrow> False))
      | _ \<Rightarrow> False)"

definition is_accepted :: "jval \<Rightarrow> bool" where
  "is_accepted r = (case r of JDict d \<Rightarrow> dget d ''status'' = Some (JStr ''accepted'') | _ \<Rightarrow> False)"

definition ack_counts_ok :: "jval option \<Rightarrow> jval option \<Rightarrow> jval list \<Rightarrow> bool" where
  "ack_counts_ok accepted rejected results =
     (case (accepted, rejected) of
        (Some (JInt a), Some (JInt r)) \<Rightarrow>
          0 \<le> a \<and> 0 \<le> r \<and> results \<noteq> [] \<and> length results \<le> max_ack_results \<and>
          a + r = int (length results)
      | _ \<Rightarrow> False)"

definition validate_ack_dict ::
  "(string, jval) dict \<Rightarrow> string \<Rightarrow> delivery_error + (string, jval) dict" where
  "validate_ack_dict p batch_id =
     (if set (dkeys p) \<noteq> {''schema'', ''batchId'', ''accepted'', ''rejected'', ''results''}
      then Inl (ReceiptCorrupt ''collector acknowledgement shape is invalid'')
      else case dget p ''results'' of
          Some (JList results) \<Rightarrow>
            if \<not> (dget p ''schema'' = Some (JStr ingest_ack_schema) \<and>
                  dget p ''batchId'' = Some (JStr batch_id) \<and>
                  ack_counts_ok (dget p ''accepted'') (dget p ''rejected'') results)
            then Inl (ReceiptCorrupt ''collector acknowledgement values are invalid'')
            else if \<not> list_all (\<lambda>(i, r). valid_result r i) (enumerate 0 results)
            then Inl (ReceiptCorrupt ''collector acknowledgement result is invalid'')
            else if dget p ''accepted'' \<noteq> Some (JInt (int (length (filter is_accepted results))))
            then Inl (ReceiptCorrupt ''collector acknowledgement counts are invalid'')
            else Inr p
        | _ \<Rightarrow> Inl (ReceiptCorrupt ''collector acknowledgement values are invalid''))"

definition validate_acknowledgement ::
  "py_env \<Rightarrow> string \<Rightarrow> string \<Rightarrow> delivery_error + (string, jval) dict" where
  "validate_acknowledgement env response batch_id =
     (case json_loads (pe_float env) response of
        None \<Rightarrow> Inl (ReceiptCorrupt ''collector acknowledgement is invalid'')
      | Some payload \<Rightarrow>
          if json_dumps True payload \<noteq> response
          then Inl (ReceiptCorrupt ''collector acknowledgement shape is invalid'')
          else case payload of
              JDict p \<Rightarrow> validate_ack_dict p batch_id
            | _ \<Rightarrow> Inl (ReceiptCorrupt ''collector acknowledgement shape is invalid''))"

definition parse_acknowledgement ::
  "py_env \<Rightarrow> string \<Rightarrow> string \<Rightarrow> delivery_error + (string, jval) dict" where
  "parse_acknowledgement env response batch_id = validate_acknowledgement env response batch_id"

section \<open>Receipts\<close>

record collector_receipt =
  cr_tenant_id :: string
  cr_batch_id :: string
  cr_producer_id :: string
  cr_payload_sha256 :: string
  cr_state :: string
  cr_first_received_at :: int
  cr_last_attempt_at :: int
  cr_attempt_count :: int
  cr_completed_at :: "int option"
  cr_response_body :: "string option"

definition require_identity ::
  "collector_receipt \<Rightarrow> string \<Rightarrow> string \<Rightarrow> delivery_error + unit" where
  "require_identity r producer_id payload_sha256 =
     require (cr_producer_id r = producer_id \<and> cr_payload_sha256 r = payload_sha256) ReceiptConflict"

definition validate_receipt :: "py_env \<Rightarrow> collector_receipt \<Rightarrow> (delivery_error + unit) list" where
  "validate_receipt env r =
     (let completed = (cr_state r = ''completed'') in
     [require (is_transport_id (cr_batch_id r) \<and> is_transport_id (cr_producer_id r))
        (ReceiptCorrupt ''collector receipt identity is invalid''),
      require (cr_tenant_id r \<noteq> [] \<and> length (cr_tenant_id r) \<le> 256)
        (ReceiptCorrupt ''collector receipt tenant is invalid''),
      require (is_digest (cr_payload_sha256 r))
        (ReceiptCorrupt ''collector receipt digest is invalid''),
      require (0 \<le> cr_attempt_count r \<and> \<not> (completed \<and> cr_attempt_count r = 0))
        (ReceiptCorrupt ''collector receipt attempt count is invalid''),
      require (cr_first_received_at r \<le> cr_last_attempt_at r)
        (ReceiptCorrupt ''collector receipt timestamps are invalid''),
      require (completed = (cr_completed_at r \<noteq> None \<and> cr_response_body r \<noteq> None))
        (ReceiptCorrupt ''collector receipt state is inconsistent''),
      require (cr_state r \<in> {''pending'', ''completed''})
        (ReceiptCorrupt ''collector receipt state is invalid''),
      require (completed \<longrightarrow> cr_completed_at r = Some (cr_last_attempt_at r))
        (ReceiptCorrupt ''collector receipt completion time is invalid''),
      require (case cr_response_body r of None \<Rightarrow> True
               | Some b \<Rightarrow> b \<noteq> [] \<and> length b \<le> max_ack_bytes)
        (ReceiptCorrupt ''collector receipt response is invalid''),
      (case cr_response_body r of None \<Rightarrow> Inr ()
       | Some b \<Rightarrow> bindr (validate_acknowledgement env b (cr_batch_id r)) (\<lambda>_. Inr ()))])"

section \<open>The receipt table\<close>

type_synonym receipt_table = "(string \<times> string, collector_receipt) dict"

datatype receipt_fault = NoFault | PendingBusy | RowBusy | CommitBusy

definition pending_receipt :: "string \<Rightarrow> string \<Rightarrow> string \<Rightarrow> string \<Rightarrow> int \<Rightarrow> collector_receipt" where
  "pending_receipt tenant_id batch_id producer_id payload_sha256 now =
     \<lparr>cr_tenant_id = tenant_id, cr_batch_id = batch_id, cr_producer_id = producer_id,
      cr_payload_sha256 = payload_sha256, cr_state = ''pending'', cr_first_received_at = now,
      cr_last_attempt_at = now, cr_attempt_count = 0, cr_completed_at = None,
      cr_response_body = None\<rparr>"

definition ensure_pending ::
  "string \<Rightarrow> string \<Rightarrow> string \<Rightarrow> string \<Rightarrow> int \<Rightarrow> receipt_table \<Rightarrow> receipt_table" where
  "ensure_pending tenant_id batch_id producer_id payload_sha256 now table =
     (if dget table (tenant_id, batch_id) \<noteq> None then table
      else dset (tenant_id, batch_id)
             (pending_receipt tenant_id batch_id producer_id payload_sha256 now) table)"

definition from_row :: "py_env \<Rightarrow> collector_receipt \<Rightarrow> delivery_error + collector_receipt" where
  "from_row env r = bindr (checks (validate_receipt env r)) (\<lambda>_. Inr r)"

text \<open>
  The second transaction: the row is read and checked; a completed one is answered from the row;
  otherwise the processor runs, in its own transactions on the evidence \<open>w\<close>, and the row records
  the attempt and, if it succeeded with a valid acknowledgement, the answer.
\<close>

definition attempt_batch ::
  "py_env \<Rightarrow> ('w \<Rightarrow> (delivery_error + string) \<times> 'w) \<Rightarrow> int \<Rightarrow> bool \<Rightarrow> collector_receipt
     \<Rightarrow> receipt_table \<Rightarrow> 'w \<Rightarrow> (delivery_error + string) \<times> receipt_table \<times> 'w" where
  "attempt_batch env processor now commit_fails r table w =
     (let key = (cr_tenant_id r, cr_batch_id r);
          attempted = r\<lparr>cr_last_attempt_at := now, cr_attempt_count := cr_attempt_count r + 1\<rparr>;
          (candidate, w') = processor w;
          outcome = bindr candidate (\<lambda>c.
            bindr (validate_acknowledgement env c (cr_batch_id r)) (\<lambda>_. Inr c))
      in if commit_fails then (Inl ReceiptBusy, table, w')
         else case outcome of
             Inl e \<Rightarrow> (Inl e, dset key attempted table, w')
           | Inr response \<Rightarrow>
               (Inr response,
                dset key (attempted\<lparr>cr_state := ''completed'', cr_completed_at := Some now,
                            cr_response_body := Some response\<rparr>) table, w'))"

definition process_receipt ::
  "py_env \<Rightarrow> string \<Rightarrow> string \<Rightarrow> string \<Rightarrow> string \<Rightarrow> ('w \<Rightarrow> (delivery_error + string) \<times> 'w)
     \<Rightarrow> int \<times> int \<Rightarrow> receipt_fault \<Rightarrow> receipt_table \<Rightarrow> 'w
     \<Rightarrow> (delivery_error + string) \<times> receipt_table \<times> 'w" where
  "process_receipt env tenant_id batch_id producer_id payload_sha256 processor clock fault table w =
     (if fault = PendingBusy then (Inl ReceiptBusy, table, w)
      else
        (let table1 = ensure_pending tenant_id batch_id producer_id payload_sha256 (fst clock) table in
         if fault = RowBusy then (Inl ReceiptBusy, table1, w)
         else case dget table1 (tenant_id, batch_id) of
             None \<Rightarrow> (Inl (ReceiptCorrupt ''collector receipt disappeared''), table1, w)
           | Some row \<Rightarrow>
               (case bindr (from_row env row) (\<lambda>r.
                   bindr (require_identity r producer_id payload_sha256) (\<lambda>_. Inr r)) of
                  Inl e \<Rightarrow> (Inl e, table1, w)
                | Inr r \<Rightarrow>
                    (case (cr_state r = ''completed'', cr_response_body r) of
                       (True, Some response) \<Rightarrow> (Inr response, table1, w)
                     | _ \<Rightarrow> attempt_batch env processor (snd clock) (fault = CommitBusy) r table1 w))))"

definition get_receipt ::
  "py_env \<Rightarrow> string \<Rightarrow> string \<Rightarrow> receipt_table \<Rightarrow> delivery_error + collector_receipt option" where
  "get_receipt env tenant_id batch_id table =
     (case dget table (tenant_id, batch_id) of
        None \<Rightarrow> Inr None
      | Some row \<Rightarrow> bindr (from_row env row) (\<lambda>r. Inr (Some r)))"

end
