(* ===== verification/Collector.thy ===== *)
theory Collector
  imports Transport Receipts
begin

text \<open>
  The remote collector, \<open>verdict/collector.py\<close>: a delivered batch is applied line by line to the
  evidence of one tenant, through the receipt store, and answered with an acknowledgement; the
  HTTP handlers around it.  \<open>late n\<close> is the answer of the \<open>n\<close>-th comparison of the monotonic clock
  with the deadline of the batch.
\<close>

section \<open>Batches\<close>

definition max_batch_bytes :: nat where
  "max_batch_bytes = 8388608"

definition batch_lines :: "string \<Rightarrow> delivery_error + string list" where
  "batch_lines body =
     (if body = [] then Inl (BatchBoundary ''empty_batch'' 400)
      else if max_batch_bytes < length body then Inl (BatchBoundary ''batch_too_large'' 413)
      else (let parts = split_on (CHR 0x0A) body;
                lines = (if last parts = [] then butlast parts else parts)
            in if lines = [] then Inl (BatchBoundary ''empty_batch'' 400)
               else if max_ack_results < length lines
               then Inl (BatchBoundary ''too_many_records'' 413)
               else Inr lines))"

text \<open>\<open>dataclasses.replace\<close> runs the constructors again.\<close>

definition scope_agent_record ::
  "string \<Rightarrow> agent_capture \<Rightarrow> trace list \<Rightarrow> (agent_capture \<times> trace list) result" where
  "scope_agent_record tenant batch traces =
     bindr (post_init source_session_checks ((c_session batch)\<lparr>s_tenant_id := tenant\<rparr>)) (\<lambda>session.
     bindr (post_init agent_run_checks ((c_run batch)\<lparr>r_tenant_id := tenant\<rparr>)) (\<lambda>run.
     bindr (post_init agent_capture_batch_checks (batch\<lparr>c_session := session, c_run := run\<rparr>))
       (\<lambda>scoped.
     Inr (scoped, map (\<lambda>t. normalize_scalars (t\<lparr>tr_tenant_id := Some tenant\<rparr>)) traces))))"

definition scope_record :: "string \<Rightarrow> capture_record \<Rightarrow> capture_record result" where
  "scope_record tenant r =
     (case r of
        TraceRecord t \<Rightarrow> Inr (TraceRecord (normalize_scalars (t\<lparr>tr_tenant_id := Some tenant\<rparr>)))
      | AgentRecord batch traces \<Rightarrow>
          bindr (scope_agent_record tenant batch traces) (\<lambda>(b, ts). Inr (AgentRecord b ts))
      | SpanRecord s \<Rightarrow> Inr (SpanRecord (s\<lparr>sp_tenant_id := Some tenant\<rparr>)))"

definition is_value_error :: "py_error \<Rightarrow> bool" where
  "is_value_error e = (case e of ValueError _ \<Rightarrow> True | _ \<Rightarrow> False)"

record collector =
  co_decoder :: decoder
  co_redactor :: redactor
  co_tenant :: string

text \<open>
  One line: the error code of its result and the evidence after it.  An exception that is not a
  \<open>ValueError\<close> leaves the loop.
\<close>

definition apply_line ::
  "collector \<Rightarrow> string \<Rightarrow> evidence_store \<Rightarrow> string option result \<times> evidence_store" where
  "apply_line co raw st =
     (if raw = [] \<or> max_record_bytes < length raw then (Inr (Some ''invalid_record''), st)
      else case decode_capture_record (co_decoder co) raw of
          Inl e \<Rightarrow> (if is_value_error e then Inr (Some ''invalid_record'') else Inl e, st)
        | Inr None \<Rightarrow> (Inr (Some ''unsupported_record_kind''), st)
        | Inr (Some r) \<Rightarrow>
            (case bindr (scope_record (co_tenant co) r)
                (\<lambda>scoped. capture_record_into (co_redactor co) scoped st) of
               Inl e \<Rightarrow> (if is_value_error e then Inr (Some ''evidence_conflict'') else Inl e, st)
             | Inr st' \<Rightarrow> (Inr None, st')))"

text \<open>The results are the digest of each line and its error.\<close>

fun apply_lines ::
  "collector \<Rightarrow> (nat \<Rightarrow> bool) \<Rightarrow> nat \<Rightarrow> string list \<Rightarrow> evidence_store
     \<Rightarrow> (delivery_error + (string \<times> string option) list) \<times> evidence_store" where
  "apply_lines co late index [] st = (Inr [], st)"
| "apply_lines co late index (raw # lines) st =
     (if late (2 * index)
      then (Inl (Failed (TimeoutError ''collector batch processing deadline exceeded'')), st)
      else case apply_line co raw st of
          (Inl e, st') \<Rightarrow> (Inl (Failed e), st')
        | (Inr error, st') \<Rightarrow>
            if late (2 * index + 1)
            then (Inl (Failed (TimeoutError ''collector batch processing deadline exceeded'')), st')
            else (case apply_lines co late (index + 1) lines st' of
                (Inl e, st'') \<Rightarrow> (Inl e, st'')
              | (Inr results, st'') \<Rightarrow>
                  (Inr ((pe_sha256 (dc_env (co_decoder co)) raw, error) # results), st'')))"

definition ack_result :: "nat \<Rightarrow> string \<times> string option \<Rightarrow> jval" where
  "ack_result index r = JDict
     [(''index'', JInt (int index)), (''recordDigest'', JStr (fst r)),
      (''status'', JStr (if snd r = None then ''accepted'' else ''rejected'')),
      (''error'', opt_json JStr (snd r))]"

definition ack_payload :: "string \<Rightarrow> (string \<times> string option) list \<Rightarrow> jval" where
  "ack_payload batch_id results =
     (let accepted = length (filter (\<lambda>r. snd r = None) results) in JDict
     [(''schema'', JStr ingest_ack_schema), (''batchId'', JStr batch_id),
      (''accepted'', JInt (int accepted)),
      (''rejected'', JInt (int (length results) - int accepted)),
      (''results'', JList (map (\<lambda>(i, r). ack_result i r) (enumerate 0 results)))])"

definition apply_batch ::
  "collector \<Rightarrow> (nat \<Rightarrow> bool) \<Rightarrow> string \<Rightarrow> string list \<Rightarrow> evidence_store
     \<Rightarrow> (delivery_error + string) \<times> evidence_store" where
  "apply_batch co late batch_id lines st =
     (case apply_lines co late 0 lines st of
        (Inl e, st') \<Rightarrow> (Inl e, st')
      | (Inr results, st') \<Rightarrow>
          (let encoded = json_dumps True (ack_payload batch_id results) in
           if late (2 * length lines)
           then (Inl (Failed (TimeoutError ''collector batch processing deadline exceeded'')), st')
           else if max_ack_bytes < length encoded
           then (Inl (ReceiptCorrupt ''collector acknowledgement exceeds its bound''), st')
           else (Inr encoded, st')))"

definition validate_ids :: "string \<Rightarrow> string \<Rightarrow> delivery_error + unit" where
  "validate_ids batch_id producer_id =
     (case bindr (validate_transport_id batch_id ''batch_id'')
         (\<lambda>_. validate_transport_id producer_id ''producer_id'') of
        Inl e \<Rightarrow> Inl (Failed e) | Inr u \<Rightarrow> Inr u)"

definition ingest_batch ::
  "collector \<Rightarrow> (nat \<Rightarrow> bool) \<Rightarrow> string \<Rightarrow> string \<Rightarrow> string \<Rightarrow> int \<times> int \<Rightarrow> receipt_fault
     \<Rightarrow> receipt_table \<Rightarrow> evidence_store
     \<Rightarrow> (delivery_error + string) \<times> receipt_table \<times> evidence_store" where
  "ingest_batch co late batch_id producer_id body clock fault table st =
     (case bindr (validate_ids batch_id producer_id) (\<lambda>_. batch_lines body) of
        Inl e \<Rightarrow> (Inl e, table, st)
      | Inr lines \<Rightarrow>
          (let env = dc_env (co_decoder co) in
           process_receipt env (co_tenant co) batch_id producer_id (pe_sha256 env body)
             (apply_batch co late batch_id lines) clock fault table st))"

section \<open>Admission\<close>

record admission_gate =
  ag_maximum :: nat
  ag_active :: nat
  ag_accepting :: bool

definition validate_in_flight :: "int \<Rightarrow> py_error + unit" where
  "validate_in_flight maximum =
     require (1 \<le> maximum \<and> maximum \<le> 256) (ValueError ''collector in-flight limit is invalid'')"

definition new_gate :: "int \<Rightarrow> admission_gate result" where
  "new_gate maximum =
     bindr (validate_in_flight maximum) (\<lambda>_.
     Inr \<lparr>ag_maximum = nat maximum, ag_active = 0, ag_accepting = True\<rparr>)"

definition gate_enter :: "admission_gate \<Rightarrow> bool \<times> admission_gate" where
  "gate_enter g =
     (if \<not> ag_accepting g \<or> ag_maximum g \<le> ag_active g then (False, g)
      else (True, g\<lparr>ag_active := ag_active g + 1\<rparr>))"

definition gate_leave :: "admission_gate \<Rightarrow> admission_gate" where
  "gate_leave g = g\<lparr>ag_active := ag_active g - 1\<rparr>"

text \<open>\<open>close_and_wait\<close> stops the admission and returns once no request is active.\<close>

definition gate_close :: "admission_gate \<Rightarrow> admission_gate" where
  "gate_close g = g\<lparr>ag_accepting := False\<rparr>"

definition gate_drained :: "admission_gate \<Rightarrow> bool" where
  "gate_drained g \<longleftrightarrow> \<not> ag_accepting g \<and> ag_active g = 0"

section \<open>Request checks\<close>

definition validate_tenant_id :: "string \<Rightarrow> py_error + unit" where
  "validate_tenant_id tenant =
     require (tenant \<noteq> [] \<and> CHR 0x00 \<notin> set tenant \<and> length tenant \<le> 256)
       (ValueError ''collector tenant_id must be bounded text'')"

definition lower :: "string \<Rightarrow> string" where
  "lower s = map lower_char s"

definition raw_header_values :: "(string \<times> string) list \<Rightarrow> string \<Rightarrow> string list" where
  "raw_header_values headers name =
     map snd (filter (\<lambda>(k, v). lower k = lower name) headers)"

definition one_header ::
  "(string \<times> string) list \<Rightarrow> string \<Rightarrow> nat \<Rightarrow> delivery_error + string option" where
  "one_header headers name maximum =
     (case raw_header_values headers name of
        [] \<Rightarrow> Inr None
      | [v] \<Rightarrow>
          if maximum < length v \<or> \<not> is_ascii v then Inl (BatchBoundary ''invalid_header'' 400)
          else Inr (Some v)
      | _ \<Rightarrow> Inl (BatchBoundary ''duplicate_header'' 400))"

definition max_secret_bytes :: nat where
  "max_secret_bytes = 512"

definition valid_secret :: "string \<Rightarrow> string result" where
  "valid_secret secret =
     bindr (checks
       [require (list_all (\<lambda>c. 33 \<le> ord c \<and> ord c \<le> (126 :: nat)) secret)
          (ValueError ''collector API key must be bounded printable ASCII''),
        require (16 \<le> length secret \<and> length secret \<le> max_secret_bytes)
          (ValueError ''collector API key must be 16-512 ASCII bytes'')]) (\<lambda>_. Inr secret)"

definition authorized :: "py_env \<Rightarrow> (string \<times> string) list \<Rightarrow> string \<Rightarrow> bool" where
  "authorized env headers secret_digest =
     (case raw_header_values headers ''authorization'' of
        [v] \<Rightarrow>
          take 7 v = ''Bearer '' \<and> count_list v (CHR '' '') = 1 \<and> drop 7 v \<noteq> [] \<and>
          length (drop 7 v) \<le> max_secret_bytes \<and> pe_sha256 env (drop 7 v) = secret_digest
      | _ \<Rightarrow> False)"

definition media_type_allowed :: "string option \<Rightarrow> bool" where
  "media_type_allowed value =
     (case value of
        None \<Rightarrow> False
      | Some v \<Rightarrow>
          (case map (\<lambda>p. lower (strip p)) (split_on (CHR '';'') v) of
             [t] \<Rightarrow> t = ''application/x-ndjson''
           | [t, charset] \<Rightarrow> t = ''application/x-ndjson'' \<and> charset = ''charset=utf-8''
           | _ \<Rightarrow> False))"

section \<open>The handlers\<close>

datatype http_response =
    JsonError string nat bool
  | Answer string
  | PendingAnswer string

definition error_response :: "delivery_error \<Rightarrow> http_response" where
  "error_response e =
     (case e of
        BatchBoundary code status \<Rightarrow> JsonError code status False
      | ReceiptConflict \<Rightarrow> JsonError ''batch_conflict'' 409 False
      | ReceiptBusy \<Rightarrow> JsonError ''busy'' 503 True
      | ReceiptCorrupt _ \<Rightarrow> JsonError ''unavailable'' 503 True
      | Failed _ \<Rightarrow> JsonError ''unavailable'' 503 True)"

text \<open>The checks before admission: the response that refuses the request, or its identifiers.\<close>

definition request_headers ::
  "(string \<times> string) list \<Rightarrow> delivery_error +
     (string option \<times> string option \<times> string option \<times> string option \<times> string option)" where
  "request_headers headers =
     bindr (one_header headers ''content-type'' 512) (\<lambda>content_type.
     bindr (one_header headers ''content-encoding'' 512) (\<lambda>content_encoding.
     bindr (one_header headers ''x-verdict-batch-id'' 512) (\<lambda>batch_id.
     bindr (one_header headers ''x-verdict-producer-id'' 512) (\<lambda>producer_id.
     bindr (one_header headers ''content-length'' 20) (\<lambda>content_length.
     Inr (content_type, content_encoding, batch_id, producer_id, content_length))))))"

definition check_request ::
  "py_env \<Rightarrow> string \<Rightarrow> (string \<times> string) list \<Rightarrow> http_response + string \<times> string" where
  "check_request env secret_digest headers =
     (if \<not> authorized env headers secret_digest then Inl (JsonError ''unauthorized'' 401 False)
      else case request_headers headers of
          Inl e \<Rightarrow> Inl (error_response e)
        | Inr (content_type, content_encoding, batch_id, producer_id, content_length) \<Rightarrow>
            if \<not> media_type_allowed content_type
            then Inl (JsonError ''unsupported_media_type'' 415 False)
            else if map_option (\<lambda>v. lower (strip v)) content_encoding \<notin> {None, Some ''identity''}
            then Inl (JsonError ''unsupported_content_encoding'' 415 False)
            else (case (batch_id, producer_id) of
                (Some b, Some p) \<Rightarrow>
                  if \<not> is_transport_id b \<or> \<not> is_transport_id p
                  then Inl (JsonError ''invalid_identifier'' 400 False)
                  else (case content_length of
                      None \<Rightarrow> Inr (b, p)
                    | Some n \<Rightarrow>
                        if n = [] \<or> \<not> list_all is_digit n
                        then Inl (JsonError ''invalid_content_length'' 400 False)
                        else if max_batch_bytes < nat_of_dec n
                        then Inl (JsonError ''batch_too_large'' 413 False)
                        else Inr (b, p))
              | _ \<Rightarrow> Inl (JsonError ''invalid_identifier'' 400 False)))"

text \<open>The body, chunk by chunk, within its bound.\<close>

fun read_body :: "string list \<Rightarrow> string \<Rightarrow> string option" where
  "read_body [] body = Some body"
| "read_body (chunk # chunks) body =
     (if max_batch_bytes - length body < length chunk then None
      else read_body chunks (body @ chunk))"

definition handle_ingest ::
  "collector \<Rightarrow> string \<Rightarrow> (nat \<Rightarrow> bool) \<Rightarrow> (string \<times> string) list \<Rightarrow> string list
     \<Rightarrow> int \<times> int \<Rightarrow> receipt_fault \<Rightarrow> admission_gate \<Rightarrow> receipt_table \<Rightarrow> evidence_store
     \<Rightarrow> http_response \<times> admission_gate \<times> receipt_table \<times> evidence_store" where
  "handle_ingest co secret_digest late headers chunks clock fault gate table st =
     (case check_request (dc_env (co_decoder co)) secret_digest headers of
        Inl response \<Rightarrow> (response, gate, table, st)
      | Inr (batch_id, producer_id) \<Rightarrow>
          (case gate_enter gate of
             (False, _) \<Rightarrow> (JsonError ''busy'' 503 True, gate, table, st)
           | (True, entered) \<Rightarrow>
               (case read_body chunks [] of
                  None \<Rightarrow> (JsonError ''batch_too_large'' 413 False, gate_leave entered, table, st)
                | Some body \<Rightarrow>
                    (case ingest_batch co late batch_id producer_id body clock fault table st of
                       (Inl e, table', st') \<Rightarrow> (error_response e, gate_leave entered, table', st')
                     | (Inr response, table', st') \<Rightarrow>
                         (Answer response, gate_leave entered, table', st')))))"

definition pending_answer :: "string \<Rightarrow> jval" where
  "pending_answer batch_id = JDict
     [(''schema'', JStr ingest_ack_schema), (''batchId'', JStr batch_id),
      (''state'', JStr ''pending'')]"

definition handle_receipt ::
  "collector \<Rightarrow> string \<Rightarrow> (string \<times> string) list \<Rightarrow> string \<Rightarrow> bool \<Rightarrow> receipt_table
     \<Rightarrow> http_response" where
  "handle_receipt co secret_digest headers batch_id busy table =
     (let env = dc_env (co_decoder co) in
      if \<not> authorized env headers secret_digest then JsonError ''unauthorized'' 401 False
      else if \<not> is_transport_id batch_id then JsonError ''invalid_identifier'' 400 False
      else if busy then JsonError ''busy'' 503 True
      else case get_receipt env (co_tenant co) batch_id table of
          Inl e \<Rightarrow> error_response e
        | Inr None \<Rightarrow> JsonError ''not_found'' 404 False
        | Inr (Some r) \<Rightarrow>
            (case (cr_state r = ''pending'', cr_response_body r) of
               (False, Some response) \<Rightarrow> Answer response
             | _ \<Rightarrow> PendingAnswer (json_text False (pending_answer batch_id))))"

end
