(* ===== verification/Acknowledgement_Laws.thy ===== *)
theory Acknowledgement_Laws
  imports Collector Codec_Samples
begin

text \<open>
  The acknowledgement that the collector writes is one that the receipt store and the shipper
  accept, and it fits its bound.
\<close>

section \<open>Plain text\<close>

definition plain_char :: "char \<Rightarrow> bool" where
  "plain_char c \<longleftrightarrow> 32 \<le> ord c \<and> ord c < (127 :: nat) \<and> ord c \<noteq> (34 :: nat) \<and> ord c \<noteq> (92 :: nat)"

abbreviation plain_text :: "string \<Rightarrow> bool" where
  "plain_text s \<equiv> list_all plain_char s"

lemma plain_ident: "is_ident_char c \<Longrightarrow> plain_char c"
  unfolding is_ident_char_def is_alnum_def is_digit_def plain_char_def
  by (elim disjE) auto

lemma plain_transport_id: "is_transport_id s \<Longrightarrow> plain_text s"
  using is_transport_id_chars [of s] plain_ident by (auto simp: list_all_iff)

lemma plain_digest: "is_digest s \<Longrightarrow> plain_text s"
  using plain_ident is_hex_lower_ident by (auto simp: is_digest_def list_all_iff)

lemma plain_ascii: "plain_text s \<Longrightarrow> is_ascii s"
  by (auto simp: is_ascii_def plain_char_def list_all_iff)

lemma quote_plain: "plain_text s \<Longrightarrow> json_quote a s = CHR 0x22 # s @ [CHR 0x22]"
proof -
  assume "plain_text s"
  then have "concat (map (escape_char a) s) = s"
    by (induction s) (auto simp: escape_char_def plain_char_def)
  then show ?thesis by (simp add: json_quote_def)
qed

section \<open>Reading an acknowledgement back\<close>

definition results_ok :: "(string \<times> string option) list \<Rightarrow> bool" where
  "results_ok results \<longleftrightarrow> results \<noteq> [] \<and> length results \<le> max_ack_results \<and>
     list_all (\<lambda>(digest, error). is_digest digest \<and>
       (case error of None \<Rightarrow> True | Some e \<Rightarrow> e \<in> set record_errors)) results"

lemma record_errors_plain: "e \<in> set record_errors \<Longrightarrow> plain_text e \<and> length e \<le> 23"
  by (auto simp: record_errors_def plain_char_def)

lemma valid_ack_result:
  assumes "is_digest (fst r)" and "case snd r of None \<Rightarrow> True | Some e \<Rightarrow> e \<in> set record_errors"
  shows "valid_result (sort_keys (ack_result i r)) i"
    and "is_accepted (sort_keys (ack_result i r)) \<longleftrightarrow> snd r = None"
proof -
  let ?d = "[(''index'', JInt (int i)), (''recordDigest'', JStr (fst r)),
     (''status'', JStr (if snd r = None then ''accepted'' else ''rejected'')),
     (''error'', opt_json JStr (snd r))]"
  have s: "sort_keys (ack_result i r) = JDict (sort_key fst ?d)"
    by (simp add: ack_result_def opt_json_def split: option.split)
  have d: "dget (sort_key fst ?d) = dget ?d" by (rule map_of_sort_key) simp
  have k: "set (dkeys (sort_key fst ?d)) = {''index'', ''recordDigest'', ''status'', ''error''}"
    by auto
  show "valid_result (sort_keys (ack_result i r)) i"
    unfolding s valid_result_def jval.case d k using assms
    by (simp add: opt_json_def split: option.splits)
  show "is_accepted (sort_keys (ack_result i r)) \<longleftrightarrow> snd r = None"
    unfolding s is_accepted_def jval.case d by simp
qed

definition ack_results :: "(string \<times> string option) list \<Rightarrow> jval list" where
  "ack_results results = map (\<lambda>(i, r). sort_keys (ack_result i r)) (enumerate 0 results)"

lemma ack_results_valid:
  assumes "results_ok results"
  shows "list_all (\<lambda>(i, r). valid_result r i) (enumerate 0 (ack_results results))"
    and "length (filter is_accepted (ack_results results))
      = length (filter (\<lambda>r. snd r = None) results)"
proof -
  have r: "is_digest (fst r)" "case snd r of None \<Rightarrow> True | Some e \<Rightarrow> e \<in> set record_errors"
    if "r \<in> set results" for r
    using assms that by (auto simp: results_ok_def list_all_iff)
  show "list_all (\<lambda>(i, r). valid_result r i) (enumerate 0 (ack_results results))"
    using valid_ack_result(1) [OF r]
    by (auto simp: ack_results_def list_all_length nth_enumerate_eq)
  have "length (filter is_accepted (map (\<lambda>(i, r). sort_keys (ack_result i r)) (enumerate n results)))
      = length (filter (\<lambda>r. snd r = None) results)" for n
    using r by (induction results arbitrary: n) (simp_all add: valid_ack_result(2))
  then show "length (filter is_accepted (ack_results results))
      = length (filter (\<lambda>r. snd r = None) results)" by (simp add: ack_results_def)
qed

lemma ack_payload_sorted:
  "\<exists>p. sort_keys (ack_payload batch_id results) = JDict p \<and>
     set (dkeys p) = {''schema'', ''batchId'', ''accepted'', ''rejected'', ''results''} \<and>
     dget p ''schema'' = Some (JStr ingest_ack_schema) \<and> dget p ''batchId'' = Some (JStr batch_id) \<and>
     dget p ''accepted'' = Some (JInt (int (length (filter (\<lambda>r. snd r = None) results)))) \<and>
     dget p ''rejected'' =
       Some (JInt (int (length results) - int (length (filter (\<lambda>r. snd r = None) results)))) \<and>
     dget p ''results'' = Some (JList (ack_results results))"
proof -
  let ?d = "[(''schema'', JStr ingest_ack_schema), (''batchId'', JStr batch_id),
     (''accepted'', JInt (int (length (filter (\<lambda>r. snd r = None) results)))),
     (''rejected'', JInt (int (length results) - int (length (filter (\<lambda>r. snd r = None) results)))),
     (''results'', JList (ack_results results))]"
  have "sort_keys (ack_payload batch_id results) = JDict (sort_key fst ?d)"
    by (simp add: ack_payload_def Let_def ack_results_def comp_def case_prod_unfold)
  moreover have "dget (sort_key fst ?d) = dget ?d" by (rule map_of_sort_key) simp
  moreover have "set (dkeys (sort_key fst ?d))
      = {''schema'', ''batchId'', ''accepted'', ''rejected'', ''results''}" by auto
  ultimately show ?thesis by (intro exI [of _ "sort_key fst ?d"]) simp
qed

lemma short_number: "n \<le> 500 \<Longrightarrow> length (dec_of_nat n) \<le> 3"
  by (rule length_dec_of_nat) auto

lemma ack_result_printable:
  assumes "is_digest (fst r)" and "case snd r of None \<Rightarrow> True | Some e \<Rightarrow> e \<in> set record_errors"
    and "i \<le> 500"
  shows "printable ld (ack_result i r)" and "ascii_json (ack_result i r)"
  using assms plain_ascii [OF plain_digest [OF assms(1)]] short_number [OF assms(3)]
  by (auto simp: ack_result_def opt_json_def is_ascii_def record_errors_def split: option.splits)

lemma ack_payload_printable:
  assumes "results_ok results" and "is_transport_id batch_id"
  shows "printable ld (ack_payload batch_id results)" and "ascii_json (ack_payload batch_id results)"
proof -
  let ?a = "length (filter (\<lambda>r. snd r = None) results)"
  have n: "length results \<le> 500" "?a \<le> length results"
    using assms(1) by (simp_all add: results_ok_def max_ack_results_def)
  then have num: "length (dec_of_nat ?a) \<le> 4300" "length (dec_of_nat (nat \<bar>int (length results) - int ?a\<bar>)) \<le> 4300"
    using short_number [of ?a] short_number [of "nat \<bar>int (length results) - int ?a\<bar>"] by linarith+
  have r: "printable ld (ack_result i r)" "ascii_json (ack_result i r)"
    if "(i, r) \<in> set (enumerate 0 results)" for i r
  proof -
    from that have "i < length results" "r = results ! i" by (auto simp: in_set_enumerate_eq)
    with assms(1) n show "printable ld (ack_result i r)" "ascii_json (ack_result i r)"
      by (auto simp: results_ok_def list_all_length intro!: ack_result_printable)
  qed
  have b: "is_ascii batch_id" by (rule plain_ascii [OF plain_transport_id [OF assms(2)]])
  show "printable ld (ack_payload batch_id results)"
    using num r(1) by (auto simp: ack_payload_def Let_def list_all_iff)
  show "ascii_json (ack_payload batch_id results)"
    using r(2) b by (auto simp: ack_payload_def Let_def list_all_iff ingest_ack_schema_def is_ascii_def)
qed

lemma ack_reads_back:
  assumes "results_ok results" and "is_transport_id batch_id"
  shows "\<exists>p. validate_acknowledgement env (json_dumps True (ack_payload batch_id results)) batch_id
      = Inr p \<and> dget p ''results'' = Some (JList (ack_results results))"
proof -
  obtain p where p: "sort_keys (ack_payload batch_id results) = JDict p"
    "set (dkeys p) = {''schema'', ''batchId'', ''accepted'', ''rejected'', ''results''}"
    "dget p ''schema'' = Some (JStr ingest_ack_schema)" "dget p ''batchId'' = Some (JStr batch_id)"
    "dget p ''accepted'' = Some (JInt (int (length (filter (\<lambda>r. snd r = None) results))))"
    "dget p ''rejected'' =
       Some (JInt (int (length results) - int (length (filter (\<lambda>r. snd r = None) results))))"
    "dget p ''results'' = Some (JList (ack_results results))"
    using ack_payload_sorted [of batch_id results] by blast
  have loads: "json_loads (pe_float env) (json_dumps True (ack_payload batch_id results))
      = Some (JDict p)"
    using json_loads_dumps [OF ack_payload_printable [OF assms]] p(1) by simp
  have again: "json_dumps True (JDict p) = json_dumps True (ack_payload batch_id results)"
    unfolding p(1) [symmetric] by (rule json_dumps_sort_keys)
  have n: "length (ack_results results) = length results" "ack_results results \<noteq> []"
    "length results \<le> max_ack_results"
    "length (filter (\<lambda>r. snd r = None) results) \<le> length results"
    using assms(1) by (auto simp: results_ok_def ack_results_def enumerate_eq_zip)
  have "validate_ack_dict p batch_id = Inr p"
    using n ack_results_valid [OF assms(1)]
    unfolding validate_ack_dict_def p(2) by (simp add: p(3-) ack_counts_ok_def)
  then show ?thesis
    unfolding validate_acknowledgement_def loads using again p(7) by simp
qed

section \<open>The bound\<close>

lemma dumps_dict_length:
  "length (json_dumps a (JDict kvs))
     \<le> sum_list (map (\<lambda>(k, v). length (json_quote a k) + length (json_dumps a v) + 2) kvs) + 2"
proof -
  let ?m = "map (map_prod id (json_dumps a)) kvs"
  have "length (join_comma (map (\<lambda>(k, t). json_quote a k @ CHR '':'' # t) (sort_key fst ?m)))
      \<le> sum_list (map (\<lambda>(k, t). length (json_quote a k) + length t + 2) (sort_key fst ?m))"
    using length_join [of "map (\<lambda>(k, t). json_quote a k @ CHR '':'' # t) (sort_key fst ?m)"]
    by (simp add: comp_def case_prod_unfold)
  also have "\<dots> = sum_list (map (\<lambda>(k, t). length (json_quote a k) + length t + 2) ?m)"
    by (rule sum_list_sort_key)
  finally show ?thesis by (simp add: comp_def case_prod_unfold)
qed

lemma dumps_list_length:
  assumes "\<And>v. v \<in> set vs \<Longrightarrow> length (json_dumps a v) \<le> b"
  shows "length (json_dumps a (JList vs)) \<le> length vs * (b + 1) + 2"
proof -
  have "sum_list (map (\<lambda>t. length t + 1) (map (json_dumps a) vs)) \<le> length vs * (b + 1)"
    using assms by (induction vs) fastforce+
  with length_join [of "map (json_dumps a) vs"] show ?thesis by simp
qed

lemma ack_result_length:
  assumes "is_digest (fst r)" and "case snd r of None \<Rightarrow> True | Some e \<Rightarrow> e \<in> set record_errors"
    and "i \<le> 500"
  shows "length (json_dumps True (ack_result i r)) \<le> 152"
proof -
  have d: "length (json_quote True (fst r)) = 66"
    using plain_digest [OF assms(1)] assms(1) by (simp add: quote_plain is_digest_def)
  have e: "length (json_dumps True (opt_json JStr (snd r))) \<le> 25"
    using assms(2) record_errors_plain
    by (auto simp: opt_json_def quote_plain split: option.splits)
  have q: "length (json_quote True ''index'') = 7" "length (json_quote True ''recordDigest'') = 14"
    "length (json_quote True ''status'') = 8" "length (json_quote True ''error'') = 7"
    "length (json_quote True ''accepted'') = 10" "length (json_quote True ''rejected'') = 10"
    by (simp_all add: quote_plain plain_char_def)
  have "length (json_dumps True (JStr (if snd r = None then ''accepted'' else ''rejected''))) = 10"
    by (simp add: q)
  moreover have "length (json_dumps True (JInt (int i))) \<le> 3"
    using short_number [OF assms(3)] by (simp add: dec_of_int_def)
  ultimately show ?thesis
    unfolding ack_result_def
    using d e by (intro order_trans [OF dumps_dict_length]) (simp add: q)
qed

lemma ack_length:
  assumes "results_ok results" and "is_transport_id batch_id"
  shows "length (json_dumps True (ack_payload batch_id results)) \<le> max_ack_bytes"
proof -
  let ?a = "length (filter (\<lambda>r. snd r = None) results)"
  have n: "length results \<le> 500" "?a \<le> length results"
    using assms(1) by (simp_all add: results_ok_def max_ack_results_def)
  have r: "length (json_dumps True (ack_result i r)) \<le> 152"
    if "(i, r) \<in> set (enumerate 0 results)" for i r
  proof -
    from that have "i < length results" "r = results ! i" by (auto simp: in_set_enumerate_eq)
    with assms(1) n show ?thesis
      by (auto simp: results_ok_def list_all_length intro!: ack_result_length)
  qed
  then have list: "length (json_dumps True (JList (map (\<lambda>(i, r). ack_result i r) (enumerate 0 results))))
      \<le> length (enumerate 0 results) * 153 + 2"
    using dumps_list_length [of "map (\<lambda>(i, r). ack_result i r) (enumerate 0 results)" True 152]
    by fastforce
  have b: "length (json_quote True batch_id) \<le> 130"
    using quote_plain [OF plain_transport_id [OF assms(2)]] is_transport_id_length [OF assms(2)] by simp
  have num: "length (dec_of_int (int ?a)) \<le> 3"
    "length (dec_of_int (int (length results) - int ?a)) \<le> 3"
  proof -
    have "?a \<le> 500" "length results - ?a \<le> 500" using n by linarith+
    moreover have "int (length results) - int ?a = int (length results - ?a)" using n by simp
    ultimately show "length (dec_of_int (int ?a)) \<le> 3"
      "length (dec_of_int (int (length results) - int ?a)) \<le> 3"
      using short_number by (simp_all del: of_nat_diff add: dec_of_int_def)
  qed
  have q: "length (json_quote True ''schema'') = 8" "length (json_quote True ''batchId'') = 9"
    "length (json_quote True ''accepted'') = 10" "length (json_quote True ''rejected'') = 10"
    "length (json_quote True ''results'') = 9" "length (json_quote True ingest_ack_schema) = 23"
    by (simp_all add: quote_plain plain_char_def ingest_ack_schema_def)
  show ?thesis
    unfolding ack_payload_def Let_def
    using list b num n
    by (intro order_trans [OF dumps_dict_length])
      (simp add: q max_ack_bytes_def del: json_dumps.simps(6,7))
qed

end
