(* ===== verification/Json_Wf.thy ===== *)
theory Json_Wf
  imports Evidence_Codec Capture_Laws
begin

text \<open>
  Every object that a parsed text contains has each of its keys once, and what follows for the
  records built from parsed payloads.
\<close>

primrec jwf :: "jval \<Rightarrow> bool" where
  "jwf JNull = True"
| "jwf (JBool b) = True"
| "jwf (JInt i) = True"
| "jwf (JFloat q r) = True"
| "jwf (JStr s) = True"
| "jwf (JList vs) = list_all id (map jwf vs)"
| "jwf (JDict kvs) = (dwf kvs \<and> list_all snd (map (map_prod id jwf) kvs))"

definition pairs_wf :: "(string, jval) dict \<Rightarrow> bool" where
  "pairs_wf kvs \<longleftrightarrow> list_all (\<lambda>kv. jwf (snd kv)) kvs"

lemma jwf_dict [simp]: "jwf (JDict kvs) \<longleftrightarrow> dwf kvs \<and> pairs_wf kvs"
  by (auto simp: pairs_wf_def list_all_iff)

lemma jwf_list [simp]: "jwf (JList vs) \<longleftrightarrow> list_all jwf vs"
  by (auto simp: list_all_iff)

declare jwf.simps(6,7) [simp del]

lemma jwf_bool [simp]: "jwf (JBool b)" and jwf_null [simp]: "jwf JNull"
  by simp_all

lemma pairs_wf_simps [simp]:
  "pairs_wf []" "pairs_wf (kv # kvs) \<longleftrightarrow> jwf (snd kv) \<and> pairs_wf kvs"
  by (simp_all add: pairs_wf_def)

lemma pairs_wf_get: "pairs_wf d \<Longrightarrow> dget d k = Some v \<Longrightarrow> jwf v"
  by (induction d) (auto split: if_splits)

lemma field_wf: "pairs_wf d \<Longrightarrow> jwf (field d k)"
  by (auto simp: field_def pairs_wf_get split: option.split)

lemma pairs_wf_dset: "pairs_wf d \<Longrightarrow> jwf v \<Longrightarrow> pairs_wf (dset k v d)"
  by (induction d) auto

lemma make_dict_wf: "pairs_wf kvs \<Longrightarrow> jwf (make_dict kvs)"
proof -
  have "pairs_wf kvs \<Longrightarrow> pairs_wf d \<Longrightarrow> dwf d \<Longrightarrow>
      dwf (dset_all fst snd kvs d) \<and> pairs_wf (dset_all fst snd kvs d)" for d
    by (induction kvs arbitrary: d) (auto simp: pairs_wf_dset)
  then show "pairs_wf kvs \<Longrightarrow> jwf (make_dict kvs)"
    by (simp add: make_dict_def)
qed

section \<open>The parser\<close>

definition loader_wf :: "loader \<Rightarrow> bool" where
  "loader_wf ld \<longleftrightarrow>
     (\<forall>s v. ld_float ld s = Some v \<longrightarrow> jwf v) \<and>
     (\<forall>kvs v. pairs_wf kvs \<longrightarrow> ld_object ld kvs = Some v \<longrightarrow> jwf v)"

definition parses_wf :: "nat \<Rightarrow> loader \<Rightarrow> bool" where
  "parses_wf n ld \<longleftrightarrow>
     (\<forall>s v r. parse_value ld n s = Some (v, r) \<longrightarrow> jwf v) \<and>
     (\<forall>s vs r. parse_items ld n s = Some (vs, r) \<longrightarrow> list_all jwf vs) \<and>
     (\<forall>s kvs r. parse_pairs ld n s = Some (kvs, r) \<longrightarrow> pairs_wf kvs)"

lemma scan_number_wf:
  assumes "loader_wf ld" and "scan_number (ld_float ld) s = Some (v, r)"
  shows "jwf v"
  using assms by (auto simp: scan_number_def loader_wf_def Let_def split: prod.splits if_splits)

lemma parse_value_wf:
  assumes "loader_wf ld" and "parses_wf n ld" and "parse_value ld (Suc n) s = Some (v, r)"
  shows "jwf v"
proof -
  obtain c t where s: "s = c # t" using assms(3) by (cases s) (auto simp: parse_value.simps)
  consider "c = CHR 0x22" | "c = CHR ''{''" | "c = CHR ''[''"
    | "c \<notin> {CHR 0x22, CHR ''{'', CHR ''[''}" by blast
  then show ?thesis
  proof cases
    case 1
    with assms(3) s show ?thesis by (auto simp: parse_value.simps)
  next
    case 2
    with assms s show ?thesis
      by (fastforce simp: parse_value.simps loader_wf_def parses_wf_def
          split: list.splits if_splits option.splits)
  next
    case 3
    with assms s show ?thesis
      by (fastforce simp: parse_value.simps parses_wf_def split: list.splits if_splits)
  next
    case 4
    with assms s scan_number_wf [OF assms(1)] show ?thesis
      by (auto simp: parse_value.simps split: if_splits)
  qed
qed

lemma parse_items_wf:
  assumes "parses_wf n ld" and "parse_items ld (Suc n) s = Some (vs, r)"
  shows "list_all jwf vs"
  using assms by (fastforce simp: parse_items.simps parses_wf_def
    split: option.splits list.splits if_splits)

lemma parse_pairs_wf:
  assumes "parses_wf n ld" and "parse_pairs ld (Suc n) s = Some (kvs, r)"
  shows "pairs_wf kvs"
  using assms by (fastforce simp: parse_pairs.simps parses_wf_def
    split: option.splits list.splits if_splits)

lemma parse_wf: "loader_wf ld \<Longrightarrow> parses_wf n ld"
proof (induction n)
  case 0
  then show ?case by (simp add: parses_wf_def parse_value.simps parse_items.simps parse_pairs.simps)
next
  case (Suc n)
  with parse_value_wf parse_items_wf parse_pairs_wf show ?case
    unfolding parses_wf_def [of "Suc n"] by blast
qed

lemma json_loads_text_wf: "loader_wf ld \<Longrightarrow> json_loads_text ld s = Some v \<Longrightarrow> jwf v"
  using parse_wf [of ld] by (fastforce simp: json_loads_text_def parses_wf_def split: option.splits
    if_splits)

lemma loaders_wf:
  assumes "py_env_ok env"
  shows "loader_wf (plain_loader (pe_float env))" "loader_wf (capture_loader env)"
  using assms
  by (fastforce simp: py_env_ok_def loader_wf_def plain_loader_def capture_loader_def
      tool_origin_safe_object_def make_dict_wf split: if_splits)+

lemma json_loads_wf: "py_env_ok env \<Longrightarrow> json_loads (pe_float env) s = Some v \<Longrightarrow> jwf v"
  by (auto simp: json_loads_def dest: json_loads_text_wf [OF loaders_wf(1)] split: if_splits)

section \<open>Captures\<close>

lemma read_event_attributes:
  "read_event env d = Inr e \<Longrightarrow> field d ''attributes'' = JDict (e_attributes e)"
  unfolding read_event_def bindr_eq_Inr post_init_eq_Inr
  by (elim exE conjE) (simp add: attributes_of_def bindr_eq_Inr split: jval.splits)

lemma read_event_wf: "read_event env d = Inr e \<Longrightarrow> pairs_wf d \<Longrightarrow> dwf (e_attributes e)"
  using field_wf [of d "''attributes''"] by (simp add: read_event_attributes)

lemma read_payload_wf:
  assumes "read_payload env cc v = Inr c" and "jwf v"
  shows "capture_built c"
proof -
  obtain p sd rd td ed where v: "v = JDict p" "field p ''events'' = JList ed"
    and r: "read_parts env sd rd td ed = Inr c"
    using assms(1)
    by (auto simp: read_payload_def res_simps split: jval.splits if_splits)
  from v assms(2) have ed: "list_all jwf ed"
    using field_wf [of p "''events''"] by simp
  from r obtain es where s: "read_session env sd = Inr (c_session c)"
    and e: "list_all2 (\<lambda>d e. read_event env d = Inr e) (dict_items ed) (c_events c)"
    by (auto simp: read_parts_def as_ill_typed_def res_simps split: sum.splits py_error.splits)
  have "list_all pairs_wf (dict_items ed)"
    using ed by (induction ed) (auto simp: dict_items_def map_filter_simps split: jval.splits)
  with e have "list_all (\<lambda>e. dwf (e_attributes e)) (c_events c)"
    by (induction rule: list_all2_induct) (auto simp: read_event_wf)
  moreover have "passes source_session_checks (c_session c)"
    using s by (auto simp: read_session_def res_simps)
  ultimately show ?thesis by (simp add: capture_built_def)
qed

lemma batch_from_json_built:
  "py_env_ok env \<Longrightarrow> agent_capture_batch_from_json env s = Inr c \<Longrightarrow> capture_built c"
  using json_loads_text_wf [OF loaders_wf(2), of env s]
  by (auto simp: agent_capture_batch_from_json_def agent_capture_from_json_def
    intro: read_payload_wf split: if_splits option.splits)

end
