(* ===== verification/Store_Properties.thy ===== *)
theory Store_Properties
  imports Samples
begin

text \<open>
  The properties of the evidence store: its invariant on every reachable state, and what the
  delivery of captures guarantees.
\<close>

section \<open>Reachable stores\<close>

inductive store_step :: "redactor \<Rightarrow> evidence_store \<Rightarrow> evidence_store \<Rightarrow> bool" for rd where
  insert_trace: "insert_trace rd t st = Inr st' \<Longrightarrow> trace_built t \<Longrightarrow> store_step rd st st'"
| append_capture: "append_agent_capture rd batch ts st = Inr st' \<Longrightarrow> capture_built batch \<Longrightarrow>
    list_all trace_built ts \<Longrightarrow> store_step rd st st'"
| replace_capture: "replace_agent_capture rd bundle ts st = Inr st' \<Longrightarrow> capture_built bundle \<Longrightarrow>
    list_all trace_built ts \<Longrightarrow> store_step rd st st'"
| delete_trace: "store_step rd st (delete_trace i st)"
| insert_span: "insert_span rd s st = Inr st' \<Longrightarrow> store_step rd st st'"
| insert_judgment: "store_step rd st (insert_judgment j st)"

lemma append_capture_prepared:
  assumes "append_agent_capture rd batch ts st = Inr st'" and "redactor_ok rd"
    and "capture_built batch" and "list_all trace_built ts"
  obtains c prepared ids where
    "prepare_agent_capture rd agent_capture_batch_checks batch ts = Inr (c, prepared, ids)"
    and "prepared_ok c prepared ids" and "store_agent_capture c prepared ids st = Inr st'"
proof -
  from assms(1) obtain c prepared ids where p:
    "prepare_agent_capture rd agent_capture_batch_checks batch ts = Inr (c, prepared, ids)"
    "store_agent_capture c prepared ids st = Inr st'"
    by (auto simp: append_agent_capture_def res_simps)
  with prepare_agent_capture_ok [OF p(1) _ assms(2-4)] that show ?thesis by blast
qed

lemma replace_capture_prepared:
  assumes "replace_agent_capture rd bundle ts st = Inr st'" and "redactor_ok rd"
    and "capture_built bundle" and "list_all trace_built ts"
  obtains c prepared ids where
    "prepare_agent_capture rd agent_run_bundle_checks bundle ts = Inr (c, prepared, ids)"
    and "prepared_ok c prepared ids" and "store_agent_capture c prepared ids st = Inr st'"
proof -
  from assms(1) obtain c prepared ids where p:
    "prepare_agent_capture rd agent_run_bundle_checks bundle ts = Inr (c, prepared, ids)"
    "store_agent_capture c prepared ids st = Inr st'"
    by (auto simp: replace_agent_capture_def res_simps)
  with prepare_agent_capture_ok [OF p(1) _ assms(2-4)] that show ?thesis by blast
qed

lemma insert_span_tables:
  "insert_span rd s st = Inr st' \<Longrightarrow> store_wf st \<Longrightarrow> store_wf st'"
  by (auto simp: insert_span_def Let_def store_wf_def sources_wf_def runs_wf_def turns_wf_def
    events_wf_def traces_wf_def links_wf_def split: option.splits if_splits)

lemma insert_judgment_tables: "store_wf st \<Longrightarrow> store_wf (insert_judgment j st)"
  by (simp add: insert_judgment_def store_wf_def sources_wf_def runs_wf_def turns_wf_def
    events_wf_def traces_wf_def links_wf_def)

lemma store_step_wf:
  assumes "store_step rd st st'" and "redactor_ok rd" and "store_wf st"
  shows "store_wf st'"
  using assms(1)
proof (cases rule: store_step.cases)
  case (append_capture batch ts)
  then show ?thesis
    using append_capture_prepared [OF append_capture(1) assms(2)] store_agent_capture_wf assms(3)
    by metis
next
  case (replace_capture b ts)
  then show ?thesis
    using replace_capture_prepared [OF replace_capture(1) assms(2)] store_agent_capture_wf assms(3)
    by metis
qed (use assms insert_trace_wf delete_trace_wf insert_span_tables insert_judgment_tables in \<open>blast+\<close>)

lemma store_steps_wf:
  "(store_step rd)\<^sup>*\<^sup>* st st' \<Longrightarrow> redactor_ok rd \<Longrightarrow> store_wf st \<Longrightarrow> store_wf st'"
  by (induction rule: rtranclp_induct) (auto intro: store_step_wf)

lemma sample_step: "store_step plain_redactor empty_store sample_store"
  using store_step.append_capture [OF sample_append] sample_built by simp

lemma sample_store_wf: "store_wf sample_store"
  using store_step_wf [OF sample_step plain_redactor_ok store_wf_empty] .

text \<open>C3 (invariant). In every store reached by any sequence of operations, the records are
valid, every reference resolves (a run has its session, a turn its run, an event its turn, a
linked model call a trace of the same tenant), and no two items claim the same source locator,
turn position, event position or linked trace.\<close>

theorem store_reachable_wf:
  assumes "redactor_ok rd" and "(store_step rd)\<^sup>*\<^sup>* empty_store st"
  shows "store_wf st"
  using store_steps_wf [OF assms(2,1) store_wf_empty] .

theorem store_reachable_wf_witness: "store_wf (delete_trace ''x'' sample_store)"
proof (rule store_reachable_wf [OF plain_redactor_ok])
  show "(store_step plain_redactor)\<^sup>*\<^sup>* empty_store (delete_trace ''x'' sample_store)"
    using sample_step store_step.delete_trace [of plain_redactor sample_store "''x''"]
    by (meson rtranclp.rtrancl_into_rtrancl rtranclp.rtrancl_refl)
qed

section \<open>Delivery\<close>




lemma sample_repeatable: "repeatable sample_capture [sample_trace] sample_store"
  by (simp add: repeatable_def sample_capture_def sample_event_def marker_event_def
    trace_fits_def is_verdict_local_agent_trace_def sample_trace_def unique_by_def
    sample_store_def)


text \<open>C12 (safety). A capture of one tenant leaves the evidence and the traces of every other
tenant as they were.\<close>

theorem append_isolates_tenants:
  assumes "redactor_ok rd" and "store_wf st" and "capture_built batch"
    and "list_all trace_built ts" and "append_agent_capture rd batch ts st = Inr st'"
    and "other \<noteq> r_tenant_id (c_run batch)"
  shows "tenant_view other st st'"
proof -
  obtain c prepared ids where p:
    "prepare_agent_capture rd agent_capture_batch_checks batch ts = Inr (c, prepared, ids)"
    "prepared_ok c prepared ids" "store_agent_capture c prepared ids st = Inr st'"
    using append_capture_prepared [OF assms(5,1,3,4)] by blast
  from p(1) have "r_tenant_id (c_run c) = r_tenant_id (c_run batch)"
    by (auto simp: prepare_agent_capture_def sanitize_agent_capture_def sanitize_run_def res_simps)
  with store_agent_capture_tenant [OF p(3) assms(2) p(2)] assms(6) show ?thesis by simp
qed

theorem append_isolates_tenants_witness: "tenant_view ''other'' empty_store sample_store"
  using append_isolates_tenants [OF plain_redactor_ok store_wf_empty sample_built(1) _
      sample_append, of "''other''"] sample_built(2)
  by (simp add: sample_capture_def sample_run_def)

end
