(* ===== verification/Receipt_Laws.thy ===== *)
theory Receipt_Laws
  imports Receipts
begin

text \<open>
  The receipt table implements a ledger of answered batches: an answered batch keeps its answer
  for ever, is never processed again and refuses another producer or payload.
\<close>

section \<open>The invariant of the table\<close>

definition receipts_wf :: "py_env \<Rightarrow> int \<Rightarrow> receipt_table \<Rightarrow> bool" where
  "receipts_wf env now table \<longleftrightarrow> dwf table \<and>
     (\<forall>k r. dget table k = Some r \<longrightarrow>
        k = (cr_tenant_id r, cr_batch_id r) \<and> passes (validate_receipt env) r \<and>
        cr_last_attempt_at r \<le> now)"

definition request_ok :: "string \<Rightarrow> string \<Rightarrow> string \<Rightarrow> string \<Rightarrow> bool" where
  "request_ok tenant_id batch_id producer_id payload_sha256 \<longleftrightarrow>
     tenant_id \<noteq> [] \<and> length tenant_id \<le> 256 \<and> is_transport_id batch_id \<and>
     is_transport_id producer_id \<and> is_digest payload_sha256"

lemma receipts_wfD:
  assumes "receipts_wf env now table" and "dget table k = Some r"
  shows "k = (cr_tenant_id r, cr_batch_id r)" "passes (validate_receipt env) r"
    "cr_last_attempt_at r \<le> now"
  using assms unfolding receipts_wf_def by blast+

lemma receipts_wf_empty: "receipts_wf env now []"
  by (simp add: receipts_wf_def)

lemma receipts_wf_later: "receipts_wf env now table \<Longrightarrow> now \<le> later \<Longrightarrow> receipts_wf env later table"
  by (fastforce simp: receipts_wf_def)

lemma receipts_wf_dset:
  assumes "receipts_wf env now table" and "k = (cr_tenant_id r, cr_batch_id r)"
    and "passes (validate_receipt env) r" and "cr_last_attempt_at r \<le> now"
  shows "receipts_wf env now (dset k r table)"
  using assms by (simp add: receipts_wf_def dict_simps)

text \<open>What a valid receipt is, without the order of its checks.\<close>

lemma validate_receipt_iff:
  "passes (validate_receipt env) r \<longleftrightarrow>
     is_transport_id (cr_batch_id r) \<and> is_transport_id (cr_producer_id r) \<and>
     cr_tenant_id r \<noteq> [] \<and> length (cr_tenant_id r) \<le> 256 \<and> is_digest (cr_payload_sha256 r) \<and>
     0 \<le> cr_attempt_count r \<and> cr_first_received_at r \<le> cr_last_attempt_at r \<and>
     (if cr_state r = ''completed''
      then cr_attempt_count r \<noteq> 0 \<and> cr_completed_at r = Some (cr_last_attempt_at r) \<and>
        (\<exists>b p. cr_response_body r = Some b \<and> b \<noteq> [] \<and> length b \<le> max_ack_bytes \<and>
           validate_acknowledgement env b (cr_batch_id r) = Inr p)
      else cr_state r = ''pending'' \<and> (cr_completed_at r = None \<or> cr_response_body r = None) \<and>
        (case cr_response_body r of None \<Rightarrow> True
         | Some b \<Rightarrow> b \<noteq> [] \<and> length b \<le> max_ack_bytes \<and>
             (\<exists>p. validate_acknowledgement env b (cr_batch_id r) = Inr p)))"
  by (auto simp: passes_def validate_receipt_def Let_def bindr_eq_Inr split: option.splits if_splits)

lemma from_row_eq: "passes (validate_receipt env) r \<Longrightarrow> from_row env r = Inr r"
  by (auto simp: from_row_def passes_def bindr_eq_Inr checks_eq_Inr)

lemma ensure_pending_wf:
  assumes "receipts_wf env now table" and "now \<le> t" and "request_ok tenant batch producer digest"
  shows "receipts_wf env t (ensure_pending tenant batch producer digest t table)"
proof -
  have "passes (validate_receipt env) (pending_receipt tenant batch producer digest t)"
    using assms(3) by (simp add: validate_receipt_iff pending_receipt_def request_ok_def)
  with receipts_wf_later [OF assms(1,2)] show ?thesis
    by (auto simp: ensure_pending_def pending_receipt_def intro!: receipts_wf_dset)
qed

section \<open>The ledger\<close>

type_synonym ledger = "string \<times> string \<Rightarrow> (string \<times> string \<times> string) option"

definition ledger_of :: "receipt_table \<Rightarrow> ledger" where
  "ledger_of table k =
     (case dget table k of
        None \<Rightarrow> None
      | Some r \<Rightarrow>
          (if cr_state r = ''completed''
           then map_option (\<lambda>b. (cr_producer_id r, cr_payload_sha256 r, b)) (cr_response_body r)
           else None))"

lemma ledger_ensure_pending:
  "ledger_of (ensure_pending tenant batch producer digest t table) = ledger_of table"
  by (auto simp: fun_eq_iff ledger_of_def ensure_pending_def pending_receipt_def dict_simps
    split: option.splits)

text \<open>
  The contract of the ledger: an answered request is answered again without processing, or the
  database is busy; another producer or payload conflicts; only the success of a processed
  request adds an answer.
\<close>

definition ledger_step ::
  "ledger \<Rightarrow> string \<times> string \<Rightarrow> string \<times> string \<Rightarrow> ('w \<Rightarrow> (delivery_error + string) \<times> 'w) \<Rightarrow> 'w
     \<Rightarrow> delivery_error + string \<Rightarrow> ledger \<Rightarrow> 'w \<Rightarrow> bool" where
  "ledger_step l k identity processor w result l' w' \<longleftrightarrow>
     (case l k of
        Some (producer, digest, answer) \<Rightarrow>
          l' = l \<and> w' = w \<and>
          (result = Inl ReceiptBusy \<or>
           (if identity = (producer, digest) then result = Inr answer
            else result = Inl ReceiptConflict))
      | None \<Rightarrow>
          (case result of
             Inr answer \<Rightarrow>
               processor w = (Inr answer, w') \<and> l' = l(k \<mapsto> (fst identity, snd identity, answer))
           | Inl _ \<Rightarrow> l' = l \<and> (w' = w \<or> w' = snd (processor w))))"

lemma attempt_batch_ledger:
  assumes "attempt_batch env processor now busy r table w = (result, table', w')"
    and "dget table (cr_tenant_id r, cr_batch_id r) = Some r" and "cr_state r = ''pending''"
    and "k = (cr_tenant_id r, cr_batch_id r)"
  shows "ledger_step (ledger_of table) k (cr_producer_id r, cr_payload_sha256 r) processor w
     result (ledger_of table') w'"
proof -
  obtain candidate v where p: "processor w = (candidate, v)" by (cases "processor w")
  have none: "ledger_of table k = None" using assms(2,3,4) by (simp add: ledger_of_def)
  show ?thesis
  proof (cases "busy")
    case True
    with assms(1) p none show ?thesis
      by (auto simp: attempt_batch_def ledger_step_def)
  next
    case False
    with assms none p show ?thesis
      by (auto simp: attempt_batch_def ledger_step_def Let_def bindr_eq_Inr fun_eq_iff ledger_of_def
          dict_simps split: sum.splits)
  qed
qed

lemma process_receipt_cases:
  assumes "process_receipt env tenant batch producer digest processor (t0, t1) fault table w
      = (result, table', w')"
    and "receipts_wf env now table" and "now \<le> t0" and "request_ok tenant batch producer digest"
  defines "table1 \<equiv> ensure_pending tenant batch producer digest t0 table"
  obtains (busy) "result = Inl ReceiptBusy" "table' = table \<or> table' = table1" "w' = w"
  | (answered) r where "dget table1 (tenant, batch) = Some r" "cr_state r = ''completed''"
      "table' = table1" "w' = w"
      "if (cr_producer_id r, cr_payload_sha256 r) = (producer, digest)
       then Some result = map_option Inr (cr_response_body r) else result = Inl ReceiptConflict"
  | (conflict) r where "dget table1 (tenant, batch) = Some r" "cr_state r = ''pending''"
      "result = Inl ReceiptConflict" "table' = table1" "w' = w"
  | (attempt) r where "dget table1 (tenant, batch) = Some r" "cr_state r = ''pending''"
      "cr_producer_id r = producer" "cr_payload_sha256 r = digest"
      "attempt_batch env processor t1 (fault = CommitBusy) r table1 w = (result, table', w')"
proof -
  have wf: "receipts_wf env t0 table1"
    unfolding table1_def by (rule ensure_pending_wf [OF assms(2-4)])
  obtain r where r: "dget table1 (tenant, batch) = Some r"
    by (cases "dget table (tenant, batch)") (auto simp: table1_def ensure_pending_def dict_simps)
  note valid = receipts_wfD(2) [OF wf r]
  from valid have state: "cr_state r = ''completed'' \<and> cr_response_body r \<noteq> None \<or> cr_state r = ''pending''"
    by (auto simp: validate_receipt_iff split: if_splits)
  show thesis
    using assms(1) r state valid that
    by (auto simp: process_receipt_def table1_def [symmetric] Let_def from_row_eq require_identity_def
        require_def split: if_splits)
qed

section \<open>The table keeps its invariant and refines the ledger\<close>

lemma attempt_batch_wf:
  assumes "attempt_batch env processor now busy r table w = (result, table', w')"
    and "receipts_wf env t table" and "t \<le> now"
    and "dget table (cr_tenant_id r, cr_batch_id r) = Some r" and "cr_state r = ''pending''"
    and "\<And>c. fst (processor w) = Inr c \<Longrightarrow> c \<noteq> [] \<and> length c \<le> max_ack_bytes"
  shows "receipts_wf env now table'"
proof -
  note wf = receipts_wf_later [OF assms(2,3)]
  note valid = receipts_wfD(2) [OF assms(2,4)]
  have first: "cr_first_received_at r \<le> now"
    using valid receipts_wfD(3) [OF assms(2,4)] assms(3) by (simp add: validate_receipt_iff)
  obtain candidate v where p: "processor w = (candidate, v)" by (cases "processor w")
  have attempted: "passes (validate_receipt env)
      (r\<lparr>cr_last_attempt_at := now, cr_attempt_count := cr_attempt_count r + 1\<rparr>)"
    using valid first assms(5) by (auto simp: validate_receipt_iff split: option.splits)
  have completed: "passes (validate_receipt env)
      (r\<lparr>cr_last_attempt_at := now, cr_attempt_count := cr_attempt_count r + 1,
         cr_state := ''completed'', cr_completed_at := Some now, cr_response_body := Some c\<rparr>)"
    if "candidate = Inr c" "validate_acknowledgement env c (cr_batch_id r) = Inr d" for c d
    using valid first that assms(6) [of c] p by (simp add: validate_receipt_iff)
  show ?thesis
    using assms(1) p wf attempted completed
    by (auto simp: attempt_batch_def Let_def bindr_eq_Inr intro!: receipts_wf_dset
        split: if_splits sum.splits)
qed

lemma process_receipt_wf:
  assumes "process_receipt env tenant batch producer digest processor (t0, t1) fault table w
      = (result, table', w')"
    and "receipts_wf env now table" and "now \<le> t0" and "t0 \<le> t1"
    and "request_ok tenant batch producer digest"
    and "\<And>c. fst (processor w) = Inr c \<Longrightarrow> c \<noteq> [] \<and> length c \<le> max_ack_bytes"
  shows "receipts_wf env t1 table'"
proof -
  have pending: "receipts_wf env t0 (ensure_pending tenant batch producer digest t0 table)"
    by (rule ensure_pending_wf [OF assms(2,3,5)])
  then have "receipts_wf env t1 (ensure_pending tenant batch producer digest t0 table)"
    "receipts_wf env t1 table"
    using assms(2,3,4) receipts_wf_later by fastforce+
  with assms(1-3,5) show ?thesis
  proof (cases rule: process_receipt_cases)
    case (attempt r)
    have "(tenant, batch) = (cr_tenant_id r, cr_batch_id r)"
      by (rule receipts_wfD(1) [OF pending attempt(1)])
    with attempt show ?thesis
      using attempt_batch_wf [OF attempt(5) pending assms(4) _ attempt(2) assms(6)] by simp
  qed auto
qed

lemma process_receipt_ledger:
  assumes "process_receipt env tenant batch producer digest processor (t0, t1) fault table w
      = (result, table', w')"
    and "receipts_wf env now table" and "now \<le> t0" and "request_ok tenant batch producer digest"
  shows "ledger_step (ledger_of table) (tenant, batch) (producer, digest) processor w result
    (ledger_of table') w'"
proof -
  let ?table1 = "ensure_pending tenant batch producer digest t0 table"
  have pending: "receipts_wf env t0 ?table1" by (rule ensure_pending_wf [OF assms(2-4)])
  have same: "ledger_of table = ledger_of ?table1" by (simp add: ledger_ensure_pending)
  from assms show ?thesis
  proof (cases rule: process_receipt_cases)
    case busy
    then have "ledger_of table' = ledger_of table" by (auto simp: same)
    with busy show ?thesis by (simp add: ledger_step_def split: option.split)
  next
    case (answered r)
    then show ?thesis
      by (auto simp: same ledger_step_def ledger_of_def split: if_splits option.splits)
  next
    case (conflict r)
    then show ?thesis by (simp add: same ledger_step_def ledger_of_def)
  next
    case (attempt r)
    have "(tenant, batch) = (cr_tenant_id r, cr_batch_id r)"
      by (rule receipts_wfD(1) [OF pending attempt(1)])
    with attempt show ?thesis
      using attempt_batch_ledger [OF attempt(5)] by (simp add: same)
  qed
qed

end
