(* ===== verification/Collector_Laws.thy ===== *)
theory Collector_Laws
  imports Acknowledgement_Laws Json_Wf Store_Properties Receipt_Laws
begin

text \<open>
  What the collector guarantees about the evidence: the store keeps its invariant, only rows of
  the collector's tenant change, and a batch is applied through its receipt.
\<close>

section \<open>Decoded records are built\<close>

definition record_built :: "capture_record \<Rightarrow> bool" where
  "record_built r =
     (case r of
        TraceRecord t \<Rightarrow> trace_built t
      | AgentRecord batch traces \<Rightarrow> capture_built batch \<and> list_all trace_built traces
      | SpanRecord s \<Rightarrow> True)"

text \<open>What the decoder relies on: the interpreter's library and ill-typed traces.\<close>

definition decoder_ok :: "decoder \<Rightarrow> bool" where
  "decoder_ok dc \<longleftrightarrow> py_env_ok (dc_env dc) \<and> redactor_ok (dc_redactor dc) \<and>
     (\<forall>d t. dc_untyped dc d = Inr t \<longrightarrow> trace_built t)"

lemma norm_count_normal: "norm_count (normalize_optional_integer v 0 max_trace_integer)
    = normalize_optional_integer v 0 max_trace_integer"
  by (cases v) (auto simp: norm_count_def normalize_optional_integer_def)

lemma float_field_normal:
  "float_field d name (Some 0) = Inr q \<Longrightarrow> norm_amount q = q"
  by (auto simp: float_field_def normalize_optional_float_def norm_amount_def Let_def
    split: jval.splits if_splits)

lemma number_fields_normal:
  "number_fields started ended op d = Inr t \<Longrightarrow> normalize_scalars t = t"
  by (auto simp: number_fields_def res_simps normalize_scalars_def count_field_def norm_count_normal
    float_field_normal)

lemma text_fields_normal:
  assumes "text_fields d t = Some u" and "normalize_scalars t = t"
  shows "normalize_scalars u = u"
  using assms unfolding text_fields_def Option.bind_eq_Some_conv option.inject
  by (elim exE conjE) (erule subst, simp add: normal_fields)

lemma text_fields_tags: "text_fields d t = Some u \<Longrightarrow> tags_field d = Some (tr_tags u)"
  unfolding text_fields_def Option.bind_eq_Some_conv option.inject
  by (elim exE conjE) (erule subst, simp)

lemma tags_field_wf: "tags_field d = Some tags \<Longrightarrow> pairs_wf d \<Longrightarrow> dwf tags"
proof -
  assume t: "tags_field d = Some tags" "pairs_wf d"
  then obtain kvs where kvs: "field d ''tags'' = JDict kvs"
    and tags: "tags = map (\<lambda>(k, v). (k, case v of JStr s \<Rightarrow> s | _ \<Rightarrow> [])) kvs"
    by (auto simp: tags_field_def split: jval.splits if_splits)
  from kvs field_wf [OF t(2), of "''tags''"] have "dwf kvs" by simp
  then show "dwf tags" by (simp add: tags comp_def case_prod_unfold)
qed

lemma trace_from_payload_built:
  assumes "trace_from_payload dc v = Inr t" and "jwf v" and "decoder_ok dc"
  shows "trace_built t"
proof -
  obtain d where d: "v = JDict d" and t: "trace_of_values dc (dsetdefault ''environment'' (JStr [])
      (dsetdefault ''service_name'' (JStr []) d)) = Inr t" (is "trace_of_values dc ?d = _")
    using assms(1) by (auto simp: trace_from_payload_def split: jval.splits if_splits)
  have "pairs_wf ?d" using assms(2) d by (auto simp: dsetdefault_def intro!: pairs_wf_dset)
  with t assms(3) text_fields_normal text_fields_tags number_fields_normal show ?thesis
    by (fastforce simp: trace_of_values_def res_simps decoder_ok_def trace_built_def
        intro: tags_field_wf split: option.splits)
qed

lemma decode_agent_record_built:
  assumes "decode_agent_record dc v = Inr r" and "jwf v" and "decoder_ok dc"
  shows "record_built r"
proof -
  obtain d where d: "v = JDict d"
    using assms(1) by (cases v) (simp_all add: decode_agent_record_def)
  with assms(1) obtain items where items: "field d ''traces'' = JList items"
    by (cases "field d ''traces''") (simp_all add: decode_agent_record_def split: if_splits)
  note r = assms(1) [unfolded decode_agent_record_def d items jval.simps]
  from r obtain traces where traces: "traverse (trace_from_payload dc) items = Inr traces"
    by (cases "traverse (trace_from_payload dc) items") (simp_all split: if_splits)
  with r obtain b batch where batch: "agent_capture_batch_from_json (dc_env dc) b = Inr batch"
    and r: "r = AgentRecord batch traces"
    by (cases "field d ''batch''") (auto simp: bindr_eq_Inr split: if_splits)
  have "list_all jwf items" using assms(2) d items field_wf [of d "''traces''"] by simp
  with traces assms(3) have "list_all trace_built traces"
    unfolding traverse_eq_Inr
    by (induction items arbitrary: traces) (auto simp: list_all2_Cons1 trace_from_payload_built)
  with r batch assms(3) show ?thesis
    using batch_from_json_built [OF _ batch] by (simp add: record_built_def decoder_ok_def)
qed

lemma decoded_record_built:
  assumes "decode_capture_record dc raw = Inr (Some r)" and "decoder_ok dc"
  shows "record_built r"
proof -
  obtain p where p: "json_loads (pe_float (dc_env dc)) raw = Some (JDict p)"
    and r: "decode_envelope dc (field p ''schema'') (field p ''kind'') (field p ''record'')
      = Inr (Some r)"
    using assms(1)
    by (auto simp: decode_capture_record_def split: if_splits option.splits jval.splits)
  have "jwf (field p ''record'')"
    using json_loads_wf [OF _ p] assms(2) by (auto simp: decoder_ok_def intro: field_wf)
  with r assms(2) trace_from_payload_built decode_agent_record_built show ?thesis
    by (fastforce simp: decode_envelope_def res_simps record_built_def split: if_splits)
qed

section \<open>Scoping\<close>

definition in_tenant :: "string \<Rightarrow> capture_record \<Rightarrow> bool" where
  "in_tenant tenant r =
     (case r of
        TraceRecord t \<Rightarrow> tr_tenant_id t = Some tenant
      | AgentRecord batch traces \<Rightarrow> r_tenant_id (c_run batch) = tenant
      | SpanRecord s \<Rightarrow> sp_tenant_id s = Some tenant)"

lemma normalized_built: "trace_built t \<Longrightarrow>
    trace_built (normalize_scalars (t\<lparr>tr_tenant_id := Some tenant\<rparr>)) \<and>
    tr_tenant_id (normalize_scalars (t\<lparr>tr_tenant_id := Some tenant\<rparr>)) = Some tenant"
  by (simp add: trace_built_def normalize_scalars_def)

lemma scope_record_ok:
  assumes "scope_record tenant r = Inr r'" and "record_built r"
  shows "record_built r'" and "in_tenant tenant r'"
proof (atomize (full), cases r)
  case (AgentRecord batch traces)
  with assms obtain session run where
    "passes source_session_checks session"
    "r' = AgentRecord (batch\<lparr>c_session := session, c_run := run\<rparr>)
       (map (\<lambda>t. normalize_scalars (t\<lparr>tr_tenant_id := Some tenant\<rparr>)) traces)"
    "r_tenant_id run = tenant" "capture_built batch" "list_all trace_built traces"
    by (auto simp: scope_record_def scope_agent_record_def res_simps record_built_def)
  then show "record_built r' \<and> in_tenant tenant r'"
    by (auto simp: record_built_def in_tenant_def capture_built_def list_all_iff normalized_built)
qed (use assms normalized_built in \<open>auto simp: scope_record_def record_built_def in_tenant_def\<close>)

section \<open>Storing a record of one tenant\<close>

definition tenant_rows :: "string \<Rightarrow> evidence_store \<Rightarrow> evidence_store \<Rightarrow> bool" where
  "tenant_rows ten a b \<longleftrightarrow> tenant_view ten a b \<and>
     (\<forall>i s. dget (st_spans a) i = Some s \<and> sp_tenant_id s = Some ten \<longrightarrow>
        dget (st_spans b) i = Some s)"

lemma tenant_rows_refl: "tenant_rows ten a a"
  by (simp add: tenant_rows_def tenant_view_def)

lemma tenant_rows_trans: "tenant_rows ten a b \<Longrightarrow> tenant_rows ten b c \<Longrightarrow> tenant_rows ten a c"
  unfolding tenant_rows_def tenant_view_def by metis

lemma other_tenant: "tenant \<noteq> [] \<Longrightarrow> other \<noteq> [] \<Longrightarrow> other \<noteq> tenant \<Longrightarrow>
    tenant_or_local (Some other) \<noteq> tenant_or_local (Some tenant)"
  by (simp add: tenant_or_local_def Capture_Prepare.or_else_def)

lemma insert_trace_tenant:
  assumes "insert_trace rd t st = Inr st'" and "tr_tenant_id t = Some tenant"
    and "tenant \<noteq> []" and "other \<noteq> []" and "other \<noteq> tenant"
  shows "tenant_rows other st st'"
proof -
  let ?t = "populate_trace_analysis_fields (sanitize_trace rd t)"
  have ten: "tr_tenant_id ?t = Some tenant"
    using assms(2) by (simp add: populate_trace_analysis_fields_def sanitize_trace_def Let_def
      split: option.split)
  obtain u where u: "st' = st\<lparr>st_traces := dset (tr_trace_id ?t) u (st_traces st)\<rparr>"
    "\<And>e. dget (st_traces st) (tr_trace_id ?t) = Some e \<Longrightarrow> tr_tenant_id e \<noteq> Some other"
  proof (cases "dget (st_traces st) (tr_trace_id ?t)")
    case None
    with assms(1) that [of ?t] show ?thesis by (simp add: insert_trace_def Let_def)
  next
    case (Some e)
    with assms(1) have "tenant_or_local (tr_tenant_id e) = tenant_or_local (tr_tenant_id ?t)"
      and st': "st' = st\<lparr>st_traces := dset (tr_trace_id ?t) (keep_request_facts e ?t) (st_traces st)\<rparr>"
      by (simp_all add: insert_trace_def Let_def split: if_splits)
    with ten other_tenant [OF assms(3-5)] have "tr_tenant_id e \<noteq> Some other" by auto
    with Some show ?thesis by (intro that [OF st']) simp
  qed
  then show ?thesis
    by (auto simp: tenant_rows_def tenant_view_def dict_simps)
qed

lemma insert_span_tenant:
  assumes "insert_span rd s st = Inr st'" and "sp_tenant_id s = Some tenant"
    and "tenant \<noteq> []" and "other \<noteq> []" and "other \<noteq> tenant"
  shows "tenant_rows other st st'"
proof -
  have "tenant_or_local (sp_tenant_id (sanitize_span rd s)) = tenant_or_local (Some tenant)"
    by (simp add: sanitize_span_def assms(2))
  with assms(1) other_tenant [OF assms(3-5)] show ?thesis
    by (auto simp: insert_span_def Let_def tenant_rows_def tenant_view_def dict_simps
        split: option.splits if_splits)
qed

lemma append_spans: "append_agent_capture rd b ts st = Inr st' \<Longrightarrow> st_spans st' = st_spans st"
  by (auto simp: append_agent_capture_def store_agent_capture_def write_merged_def Let_def res_simps)

lemma capture_record_tenant:
  assumes "capture_record_into rd r st = Inr st'" and "in_tenant tenant r" and "record_built r"
    and "redactor_ok rd" and "store_wf st" and "tenant \<noteq> []" and "other \<noteq> []" and "other \<noteq> tenant"
  shows "tenant_rows other st st'"
proof (cases r)
  case (TraceRecord t)
  with assms insert_trace_tenant [of rd t st st' tenant other] show ?thesis
    by (simp add: capture_record_into_def in_tenant_def)
next
  case (AgentRecord b ts)
  with assms obtain c prepared ids where
    "prepare_agent_capture rd agent_capture_batch_checks b ts = Inr (c, prepared, ids)"
    "prepared_ok c prepared ids" and st: "store_agent_capture c prepared ids st = Inr st'"
    by (metis append_capture_prepared capture_record.simps(11) capture_record_into_def
        record_built_def)
  then have "r_tenant_id (c_run c) = tenant"
    using assms(2) AgentRecord
    by (auto simp: prepare_agent_capture_def sanitize_agent_capture_def sanitize_run_def res_simps
        in_tenant_def)
  then have "tenant_view other st st'"
    using store_agent_capture_tenant [OF st assms(5) \<open>prepared_ok c prepared ids\<close>] assms(8) by simp
  moreover have "st_spans st' = st_spans st"
    using assms(1) AgentRecord by (auto simp: capture_record_into_def dest: append_spans)
  ultimately show ?thesis by (simp add: tenant_rows_def)
next
  case (SpanRecord s)
  have "sp_tenant_id (link_span st s) = sp_tenant_id s"
    by (simp add: link_span_def Let_def split: option.split)
  with SpanRecord assms insert_span_tenant [of rd "link_span st s" st st' tenant other] show ?thesis
    by (auto simp: capture_record_into_def in_tenant_def capture_span_def Let_def bindr_eq_Inr)
qed

lemma capture_record_wf:
  assumes "capture_record_into rd r st = Inr st'" and "record_built r" and "redactor_ok rd"
    and "store_wf st"
  shows "store_wf st'"
proof -
  have "store_step rd st st'"
    using assms(1,2) store_step.intros(1,2,5)
    by (cases r) (auto simp: capture_record_into_def record_built_def capture_span_def Let_def
        res_simps)
  with assms(3,4) show ?thesis by (metis store_step_wf)
qed

end
