(* ===== verification/Collector_Properties.thy ===== *)
theory Collector_Properties
  imports Collector_Laws
begin

text \<open>
  The properties of the collector on every sequence of deliveries.
\<close>

section \<open>Receipts\<close>

text \<open>C33 (invariant). Processing a batch keeps every receipt valid: identifiers and digests well
formed, the completion time the time of the last attempt, a completed receipt with an
acknowledgement that parses for its batch, no receipt under the key of another.\<close>

theorem receipts_stay_valid:
  assumes "process_receipt env tenant batch producer digest processor (t0, t1) fault table w
      = (result, table', w')"
    and "receipts_wf env now table" and "now \<le> t0" and "t0 \<le> t1"
    and "request_ok tenant batch producer digest"
    and "\<And>c. fst (processor w) = Inr c \<Longrightarrow> c \<noteq> [] \<and> length c \<le> max_ack_bytes"
  shows "receipts_wf env t1 table'"
  using process_receipt_wf [OF assms] .

text \<open>C9 (refinement). The receipt table implements a ledger of answers: a request whose batch has
an answer is answered from the ledger without processing, under another producer or payload it
conflicts, and only a successful processing adds an answer, its own.\<close>

theorem receipts_refine_ledger:
  assumes "process_receipt env tenant batch producer digest processor (t0, t1) fault table w
      = (result, table', w')"
    and "receipts_wf env now table" and "now \<le> t0" and "request_ok tenant batch producer digest"
  shows "ledger_step (ledger_of table) (tenant, batch) (producer, digest) processor w result
    (ledger_of table') w'"
  using process_receipt_ledger [OF assms] .

section \<open>Applying a batch\<close>

definition collector_ok :: "collector \<Rightarrow> bool" where
  "collector_ok co \<longleftrightarrow> decoder_ok (co_decoder co) \<and> redactor_ok (co_redactor co) \<and>
     validate_tenant_id (co_tenant co) = Inr ()"

lemma collector_okD:
  assumes "collector_ok co"
  shows "decoder_ok (co_decoder co)" "redactor_ok (co_redactor co)"
    "py_env_ok (dc_env (co_decoder co))" "co_tenant co \<noteq> []" "length (co_tenant co) \<le> 256"
  using assms by (auto simp: collector_ok_def decoder_ok_def validate_tenant_id_def)

text \<open>What a step of the collector may do to the evidence.\<close>

definition tenant_step :: "string \<Rightarrow> evidence_store \<Rightarrow> evidence_store \<Rightarrow> bool" where
  "tenant_step tenant st st' \<longleftrightarrow> (store_wf st \<longrightarrow> store_wf st' \<and>
     (\<forall>other. other \<noteq> [] \<and> other \<noteq> tenant \<longrightarrow> tenant_rows other st st'))"

lemma tenant_step_refl [simp]: "tenant_step tenant st st"
  by (simp add: tenant_step_def tenant_rows_refl)

lemma tenant_step_trans:
  "tenant_step tenant a b \<Longrightarrow> tenant_step tenant b c \<Longrightarrow> tenant_step tenant a c"
  unfolding tenant_step_def using tenant_rows_trans by blast

lemma apply_line_step:
  assumes "apply_line co raw st = (r, st')" and "collector_ok co"
  shows "tenant_step (co_tenant co) st st'"
proof (cases "st' = st")
  case False
  with assms(1) obtain rec scoped where
    "decode_capture_record (co_decoder co) raw = Inr (Some rec)"
    and scoped: "scope_record (co_tenant co) rec = Inr scoped"
    and stored: "capture_record_into (co_redactor co) scoped st = Inr st'"
    by (auto simp: apply_line_def bindr_def split: if_splits sum.splits option.splits)
  then have "record_built scoped" "in_tenant (co_tenant co) scoped"
    using scope_record_ok [OF scoped] decoded_record_built collector_okD(1) [OF assms(2)] by blast+
  then show ?thesis
    using capture_record_wf [OF stored] capture_record_tenant [OF stored] collector_okD [OF assms(2)]
    by (simp add: tenant_step_def)
qed simp

lemma apply_line_error:
  "apply_line co raw st = (Inr (Some e), st') \<Longrightarrow> e \<in> set record_errors"
  by (auto simp: apply_line_def record_errors_def bindr_def split: if_splits sum.splits option.splits)

lemma apply_lines_step:
  assumes "apply_lines co late i lines st = (r, st')" and "collector_ok co"
  shows "tenant_step (co_tenant co) st st'"
  using assms(1)
proof (induction lines arbitrary: i st r st')
  case (Cons raw lines)
  then show ?case
    using apply_line_step [OF _ assms(2)] tenant_step_trans
    by (fastforce split: if_splits prod.splits sum.splits)
qed simp

lemma apply_lines_Cons:
  assumes "apply_lines co late i (raw # lines) st = (Inr results, st')"
  obtains error st1 rest where "apply_line co raw st = (Inr error, st1)"
    and "apply_lines co late (i + 1) lines st1 = (Inr rest, st')"
    and "results = (pe_sha256 (dc_env (co_decoder co)) raw, error) # rest"
  using assms by (auto split: if_splits prod.splits sum.splits)

lemma apply_lines_results:
  assumes "apply_lines co late i lines st = (Inr results, st')"
    and "py_env_ok (dc_env (co_decoder co))"
  shows "length results = length lines \<and>
    list_all (\<lambda>(digest, error). is_digest digest \<and>
      (case error of None \<Rightarrow> True | Some e \<Rightarrow> e \<in> set record_errors)) results"
  using assms(1)
proof (induction lines arbitrary: i st results)
  case (Cons raw lines)
  from Cons.prems obtain error st1 rest where line: "apply_line co raw st = (Inr error, st1)"
    and rest: "apply_lines co late (i + 1) lines st1 = (Inr rest, st')"
    and results: "results = (pe_sha256 (dc_env (co_decoder co)) raw, error) # rest"
    by (rule apply_lines_Cons)
  from line have "case error of None \<Rightarrow> True | Some e \<Rightarrow> e \<in> set record_errors"
    by (auto dest: apply_line_error split: option.split)
  with Cons.IH [OF rest] assms(2) show ?case by (simp add: results py_env_ok_def)
qed simp

lemma apply_lines_failed:
  "apply_lines co late i lines st = (Inl e, st') \<Longrightarrow> \<exists>f. e = Failed f"
  by (induction lines arbitrary: i st st')
    (auto split: if_splits prod.splits sum.splits)

lemma apply_batch_step:
  "apply_batch co late b lines st = (r, st') \<Longrightarrow> collector_ok co \<Longrightarrow> tenant_step (co_tenant co) st st'"
  using apply_lines_step
  by (fastforce simp: apply_batch_def Let_def split: if_splits prod.splits sum.splits)

lemma batch_lines_ok:
  "batch_lines body = Inr lines \<Longrightarrow> lines \<noteq> [] \<and> length lines \<le> max_ack_results"
  by (auto simp: batch_lines_def Let_def split: if_splits)

lemma apply_batch_results:
  assumes "apply_lines co late 0 lines st = (Inr results, st')" and "collector_ok co"
    and "batch_lines body = Inr lines"
  shows "results_ok results"
  using apply_lines_results [OF assms(1) collector_okD(3) [OF assms(2)]] batch_lines_ok [OF assms(3)]
  by (auto simp: results_ok_def)

text \<open>C11 (roundtrip). The acknowledgement of a batch is accepted by the parser that the receipt
store and the shipper run on it, and its results are, line by line and in order, the digest of the
line and whether the line was stored.\<close>

theorem acknowledgement_accepted:
  assumes "collector_ok co" and "is_transport_id batch_id" and "batch_lines body = Inr lines"
    and "apply_batch co late batch_id lines st = (Inr answer, st')"
  shows "\<exists>p results.
    parse_acknowledgement (dc_env (co_decoder co)) answer batch_id = Inr p \<and>
    apply_lines co late 0 lines st = (Inr results, st') \<and> length results = length lines \<and>
    dget p ''results'' = Some (JList (ack_results results))"
proof -
  obtain results where r: "apply_lines co late 0 lines st = (Inr results, st')"
    and answer: "answer = json_dumps True (ack_payload batch_id results)"
    using assms(4) by (auto simp: apply_batch_def Let_def split: prod.splits sum.splits if_splits)
  with ack_reads_back [OF apply_batch_results [OF r assms(1,3)] assms(2)]
    apply_lines_results [OF r collector_okD(3) [OF assms(1)]]
  show ?thesis unfolding parse_acknowledgement_def answer by blast
qed

lemma apply_batch_fits:
  assumes "collector_ok co" and "is_transport_id batch_id" and "batch_lines body = Inr lines"
  shows "case fst (apply_batch co late batch_id lines st) of
      Inr answer \<Rightarrow> answer \<noteq> [] \<and> length answer \<le> max_ack_bytes
    | Inl e \<Rightarrow> \<exists>f. e = Failed f"
proof (cases "apply_lines co late 0 lines st")
  case (Pair r st')
  show ?thesis
  proof (cases r)
    case (Inl e)
    with Pair apply_lines_failed [of co late 0 lines st] show ?thesis
      by (auto simp: apply_batch_def)
  next
    case (Inr results)
    note ok = apply_batch_results [OF Pair [unfolded Inr] assms(1,3)]
    with Pair Inr ack_length [OF ok assms(2)] show ?thesis
      by (simp add: apply_batch_def Let_def ack_payload_def)
  qed
qed

text \<open>An acknowledgement always fits its bound: the collector never reports that it
exceeds it, so that applying a batch fails only at its deadline or with an exception of a record.\<close>

theorem acknowledgement_fits:
  assumes "collector_ok co" and "is_transport_id batch_id" and "batch_lines body = Inr lines"
  shows "case fst (apply_batch co late batch_id lines st) of
      Inr answer \<Rightarrow> answer \<noteq> [] \<and> length answer \<le> max_ack_bytes
    | Inl e \<Rightarrow> \<exists>f. e = Failed f"
  using apply_batch_fits [OF assms] .

section \<open>Deliveries\<close>

inductive collector_step ::
  "collector \<Rightarrow> int \<times> receipt_table \<times> evidence_store \<Rightarrow> int \<times> receipt_table \<times> evidence_store
     \<Rightarrow> bool" for co where
  "ingest_batch co late batch_id producer_id body (t0, t1) fault table st = (result, table', st')
     \<Longrightarrow> now \<le> t0 \<Longrightarrow> t0 \<le> t1 \<Longrightarrow> collector_step co (now, table, st) (t1, table', st')"

lemma ingest_batch_cases:
  assumes "ingest_batch co late batch_id producer_id body clock fault table st = (result, table', st')"
  obtains (refused) e where "result = Inl e" "table' = table" "st' = st"
      "bindr (validate_ids batch_id producer_id) (\<lambda>_. batch_lines body) = Inl e"
  | (processed) lines where "is_transport_id batch_id" "is_transport_id producer_id"
      "batch_lines body = Inr lines"
      "process_receipt (dc_env (co_decoder co)) (co_tenant co) batch_id producer_id
         (pe_sha256 (dc_env (co_decoder co)) body) (apply_batch co late batch_id lines) clock fault
         table st = (result, table', st')"
proof (cases "bindr (validate_ids batch_id producer_id) (\<lambda>_. batch_lines body)")
  case (Inl e)
  with assms refused show thesis by (auto simp: ingest_batch_def)
next
  case (Inr lines)
  then have "is_transport_id batch_id" "is_transport_id producer_id" "batch_lines body = Inr lines"
    by (auto simp: bindr_eq_Inr validate_ids_def validate_transport_id_def split: sum.splits)
  with Inr assms processed show thesis by (simp add: ingest_batch_def Let_def)
qed

lemma request_ok_collector:
  "collector_ok co \<Longrightarrow> is_transport_id batch_id \<Longrightarrow> is_transport_id producer_id \<Longrightarrow>
   request_ok (co_tenant co) batch_id producer_id (pe_sha256 (dc_env (co_decoder co)) body)"
  using collector_okD [of co] by (simp add: request_ok_def py_env_ok_def)

lemma process_receipt_world:
  "process_receipt env tenant batch producer digest processor clock fault table w = (r, table', w')
     \<Longrightarrow> w' = w \<or> w' = snd (processor w)"
  by (auto simp: process_receipt_def attempt_batch_def Let_def
    split: if_splits option.splits sum.splits prod.splits bool.splits)

lemma ingest_step:
  assumes "ingest_batch co late batch_id producer_id body (t0, t1) fault table st = (result, table', st')"
    and "collector_ok co" and "receipts_wf (dc_env (co_decoder co)) now table" and "now \<le> t0" and "t0 \<le> t1"
  shows "receipts_wf (dc_env (co_decoder co)) t1 table'" and "tenant_step (co_tenant co) st st'"
proof -
  let ?env = "dc_env (co_decoder co)"
  from assms(1) have "receipts_wf ?env t1 table' \<and> tenant_step (co_tenant co) st st'"
  proof (cases rule: ingest_batch_cases)
    case (refused e)
    with receipts_wf_later [OF assms(3), of t1] assms(4,5) show ?thesis by simp
  next
    case (processed lines)
    note fits = apply_batch_fits [OF assms(2) processed(1,3), of late st]
    have "receipts_wf ?env t1 table'"
      by (rule process_receipt_wf [OF processed(4) assms(3-5)
            request_ok_collector [OF assms(2) processed(1,2)]]) (use fits in simp)
    moreover have "tenant_step (co_tenant co) st st'"
      using process_receipt_world [OF processed(4)] apply_batch_step [OF surjective_pairing assms(2)]
      by auto
    ultimately show ?thesis by simp
  qed
  then show "receipts_wf ?env t1 table'" and "tenant_step (co_tenant co) st st'" by simp_all
qed

lemma tenant_step_wf: "tenant_step tenant st st' \<Longrightarrow> store_wf st \<Longrightarrow> store_wf st'"
  by (simp add: tenant_step_def)

lemma collector_run:
  assumes "(collector_step co)\<^sup>*\<^sup>* (now, table, st) (now', table', st')" and "collector_ok co"
    and "receipts_wf (dc_env (co_decoder co)) now table"
  shows "now \<le> now' \<and> receipts_wf (dc_env (co_decoder co)) now' table' \<and>
    tenant_step (co_tenant co) st st'"
  using assms(1)
proof (induction "(now', table', st')" arbitrary: now' table' st' rule: rtranclp_induct)
  case base
  with assms(3) show ?case by simp
next
  case (step y)
  obtain n ta s where y: "y = (n, ta, s)" by (cases y) auto
  from step(2) [unfolded y] show ?case
  proof cases
    case (1 late batch_id producer_id body t0 fault result)
    with step(3) [OF y] ingest_step [OF 1(1) assms(2)] tenant_step_trans show ?thesis
      by fastforce
  qed
qed

text \<open>C2 (invariant). Whatever is delivered, and however the database and the deadlines fail, the
receipts stay valid, the evidence keeps its invariant, and no row of another tenant changes.\<close>

theorem collector_run_safe:
  assumes "(collector_step co)\<^sup>*\<^sup>* (now, table, st) (now', table', st')" and "collector_ok co"
    and "receipts_wf (dc_env (co_decoder co)) now table" and "store_wf st"
    and "other \<noteq> []" and "other \<noteq> co_tenant co"
  shows "receipts_wf (dc_env (co_decoder co)) now' table' \<and> store_wf st' \<and> tenant_rows other st st'"
  using collector_run [OF assms(1-3)] assms(4-6) by (auto simp: tenant_step_def)

section \<open>At most once\<close>

lemma ledger_step_keeps:
  "ledger_step l k identity processor w result l' w' \<Longrightarrow> l j = Some a \<Longrightarrow> l' j = Some a"
  by (auto simp: ledger_step_def split: option.splits sum.splits if_splits)

lemma ingest_ledger:
  assumes "ingest_batch co late batch_id producer_id body (t0, t1) fault table st = (result, table', st')"
    and "collector_ok co" and "receipts_wf (dc_env (co_decoder co)) now table" and "now \<le> t0"
    and "ledger_of table j = Some a"
  shows "ledger_of table' j = Some a"
  using assms(1)
proof (cases rule: ingest_batch_cases)
  case (processed lines)
  show ?thesis
    using process_receipt_ledger [OF processed(4) assms(3,4)
        request_ok_collector [OF assms(2) processed(1,2)]] assms(5)
    by (rule ledger_step_keeps)
qed (use assms in simp)

lemma collector_run_ledger:
  assumes "(collector_step co)\<^sup>*\<^sup>* (now, table, st) (now', table', st')" and "collector_ok co"
    and "receipts_wf (dc_env (co_decoder co)) now table" and "ledger_of table k = Some a"
  shows "ledger_of table' k = Some a"
  using assms(1)
proof (induction "(now', table', st')" arbitrary: now' table' st' rule: rtranclp_induct)
  case base
  with assms(4) show ?case by simp
next
  case (step y)
  obtain n ta s where y: "y = (n, ta, s)" by (cases y) auto
  have wf: "receipts_wf (dc_env (co_decoder co)) n ta"
    using collector_run [OF step(1) [unfolded y] assms(2,3)] by simp
  from step(2) [unfolded y] show ?case
    by cases (use ingest_ledger [OF _ assms(2) wf _ step(3) [OF y]] in blast)
qed

lemma answered_in_ledger:
  assumes "ingest_batch co late batch_id producer_id body (t0, t1) fault table st = (Inr answer, table', st')"
    and "collector_ok co" and "receipts_wf (dc_env (co_decoder co)) now table" and "now \<le> t0"
  shows "ledger_of table' (co_tenant co, batch_id)
    = Some (producer_id, pe_sha256 (dc_env (co_decoder co)) body, answer)"
  using assms(1)
proof (cases rule: ingest_batch_cases)
  case (processed lines)
  show ?thesis
    using process_receipt_ledger [OF processed(4) assms(3,4)
        request_ok_collector [OF assms(2) processed(1,2)]]
    by (auto simp: ledger_step_def split: option.splits if_splits)
qed simp

text \<open>C4 (safety). A batch that was answered is applied at most once: after any other deliveries,
sending it again leaves the evidence as it is and is answered with the same bytes, unless the
database is busy; other bytes under its identifier, or another producer, are refused.\<close>

theorem batch_applied_once:
  assumes "ingest_batch co late batch_id producer_id body (t0, t1) fault table st
      = (Inr answer, table1, st1)"
    and "collector_ok co" and "receipts_wf (dc_env (co_decoder co)) now table" and "now \<le> t0"
    and "t0 \<le> t1"
    and "(collector_step co)\<^sup>*\<^sup>* (t1, table1, st1) (now2, table2, st2)" and "now2 \<le> t2"
    and "is_transport_id producer'" and "batch_lines body' = Inr lines'"
    and "ingest_batch co late' batch_id producer' body' (t2, t3) fault' table2 st2
      = (result, table3, st3)"
  shows "st3 = st2 \<and>
    (result = Inl ReceiptBusy \<or>
     (if producer' = producer_id \<and>
         pe_sha256 (dc_env (co_decoder co)) body' = pe_sha256 (dc_env (co_decoder co)) body
      then result = Inr answer else result = Inl ReceiptConflict))"
proof -
  have wf1: "receipts_wf (dc_env (co_decoder co)) t1 table1"
    by (rule ingest_step(1) [OF assms(1-5)])
  have wf2: "receipts_wf (dc_env (co_decoder co)) now2 table2"
    using collector_run [OF assms(6,2) wf1] by simp
  note known = collector_run_ledger [OF assms(6,2) wf1 answered_in_ledger [OF assms(1-4)]]
  from assms(1) have id: "is_transport_id batch_id" by (cases rule: ingest_batch_cases) simp_all
  from assms(10) show ?thesis
  proof (cases rule: ingest_batch_cases)
    case (refused e)
    with id assms(8,9) show ?thesis
      by (simp add: validate_ids_def validate_transport_id_def)
  next
    case (processed lines)
    show ?thesis
      using process_receipt_ledger [OF processed(4) wf2 assms(7)
          request_ok_collector [OF assms(2) processed(1,2)]] known
      by (auto simp: ledger_step_def)
  qed
qed

section \<open>Handlers\<close>

lemma validate_acknowledgement_corrupt:
  "validate_acknowledgement env response batch_id = Inl e \<Longrightarrow> \<exists>m. e = ReceiptCorrupt m"
  by (auto simp: validate_acknowledgement_def validate_ack_dict_def
    split: if_splits option.splits jval.splits)

lemma attempt_batch_error:
  assumes "attempt_batch env processor now busy r table w = (Inl e, table', w')"
  shows "e = ReceiptBusy \<or> (\<exists>m. e = ReceiptCorrupt m) \<or> fst (processor w) = Inl e"
  using assms validate_acknowledgement_corrupt
  by (cases "processor w") (fastforce simp: attempt_batch_def Let_def bindr_eq_Inl split: if_splits sum.splits)

lemma process_receipt_error:
  assumes "process_receipt env tenant batch producer digest processor clock fault table w
      = (Inl e, table', w')"
  shows "w' = w \<or> e = ReceiptBusy \<or> (\<exists>m. e = ReceiptCorrupt m) \<or> fst (processor w) = Inl e"
  using assms attempt_batch_error
  by (fastforce simp: process_receipt_def Let_def
      split: if_splits option.splits sum.splits bool.splits)

lemma ingest_error:
  assumes "ingest_batch co late b p body clock fault table st = (Inl e, table', st')"
    and "error_response e = JsonError code status False"
  shows "st' = st"
  using assms(1)
proof (cases rule: ingest_batch_cases)
  case (processed lines)
  have "e \<noteq> ReceiptBusy" "\<And>m. e \<noteq> ReceiptCorrupt m" "\<And>f. e \<noteq> Failed f"
    using assms(2) by (auto simp: error_response_def)
  moreover have "\<exists>f. e = Failed f \<or> (\<exists>m. e = ReceiptCorrupt m)"
    if "fst (apply_batch co late b lines st) = Inl e"
    using that apply_lines_failed
    by (fastforce simp: apply_batch_def Let_def split: if_splits prod.splits sum.splits)
  ultimately show ?thesis using process_receipt_error [OF processed(4)] by blast
qed simp

text \<open>C39 (error). A request that is refused for good (a response that does not ask to be tried
again) leaves the evidence as it was, and every response gives its place in the gate back.\<close>

theorem refused_request_changes_nothing:
  assumes "handle_ingest co secret late headers chunks clock fault gate table st
      = (response, gate', table', st')" and "gate_enter gate = (entered, gate1)"
  shows "gate' = gate \<and> (\<forall>code status. response = JsonError code status False \<longrightarrow> st' = st)"
proof -
  have gate: "gate_leave gate1 = gate \<and> gate1 = gate\<lparr>ag_active := ag_active gate + 1\<rparr>" if "entered"
    using assms(2) that by (auto simp: gate_enter_def gate_leave_def split: if_splits)
  show ?thesis
  proof (cases "check_request (dc_env (co_decoder co)) secret headers")
    case (Inl r)
    with assms(1) show ?thesis by (simp add: handle_ingest_def)
  next
    case (Inr ids)
    obtain b p where ids: "ids = (b, p)" by (cases ids)
    note run = assms(1) [unfolded handle_ingest_def Inr ids assms(2) sum.simps prod.simps]
    show ?thesis
    proof (cases "entered \<and> read_body chunks [] \<noteq> None")
      case False
      with run gate show ?thesis by (cases entered) (auto split: option.splits)
    next
      case True
      then obtain body where "entered" "read_body chunks [] = Some body" by blast
      with run gate obtain result where
        "ingest_batch co late b p body clock fault table st = (result, table', st')"
        and "gate' = gate"
        and "response = (case result of Inl e \<Rightarrow> error_response e | Inr a \<Rightarrow> Answer a)"
        by (auto split: prod.splits sum.splits)
      with ingest_error [of co late b p body clock fault table st] show ?thesis by (auto split: sum.splits)
    qed
  qed
qed


end
