(* ===== verification/Transport_Samples.thy ===== *)
theory Transport_Samples
  imports Transport_Laws Codec_Samples Collector_Properties
begin

text \<open>The sample capture, its trace and a span, written, read back and delivered.\<close>

section \<open>Records\<close>

definition sample_decoder :: decoder where
  "sample_decoder = \<lparr>dc_env = plain_py_env, dc_redactor = plain_redactor,
     dc_untyped = (\<lambda>d. Inl trace_ill_typed)\<rparr>"

definition sample_span :: span_record where
  "sample_span = \<lparr>sp_span_id = ''sp'', sp_name = ''n'', sp_trace_id = Some ''x'',
     sp_parent_name = None, sp_started_at = 1, sp_ended_at = None, sp_duration_ms = None,
     sp_attributes = [(''k'', JInt 1)], sp_error = None, sp_tenant_id = Some ''t''\<rparr>"

lemma sample_decoder_simps [simp]:
  "dc_env sample_decoder = plain_py_env" "dc_redactor sample_decoder = plain_redactor"
  by (simp_all add: sample_decoder_def)

lemma plain_iso [simp]: "pe_iso plain_py_env t = dec_of_int t"
  by (simp add: plain_py_env_def)

lemma utf8_dec [simp]: "utf8_valid (dec_of_int i)"
  by (rule ascii_utf8_valid [OF is_ascii_dec_of_int])

lemma utf8_sample_digest: "utf8_valid sample_digest"
  by (rule ascii_utf8_valid [OF plain_ascii [OF plain_digest [OF sample_digest_ok]]])

lemma sample_trace_ok: "trace_ok plain_py_env sample_trace"
proof -
  have "transportable plain_py_env (JDict (trace_to_payload plain_py_env sample_trace))"
    by (rule transportable_dict) (simp_all add: trace_to_payload_def sample_trace_def
      populate_trace_analysis_fields_def Let_def transportable_def opt_json_def dec_of_nat.simps)
  with sample_built(2) show ?thesis by (simp add: trace_ok_def trace_built_def)
qed

lemma sample_span_ok: "span_ok plain_py_env sample_span"
proof -
  have "transportable plain_py_env (JDict (span_to_payload plain_py_env sample_span))"
    by (rule transportable_dict) (simp_all add: span_to_payload_def sample_span_def
      transportable_def opt_json_def dec_of_nat.simps)
  then show ?thesis by (simp add: span_ok_def sample_span_def bounded_text_def)
qed

definition record_raw :: "string \<Rightarrow> jval \<Rightarrow> string" where
  "record_raw kind v = json_dumps False (JDict
     [(''schema'', JStr (if kind = ''agent'' then agent_capture_schema else capture_schema)),
      (''kind'', JStr kind), (''record'', v)])"

lemma record_bytes_small:
  assumes "weight v \<le> 4000000" and "length kind \<le> 10"
  shows "record_bytes kind v = Inr (record_raw kind v @ newline)"
proof -
  have "length (record_raw kind v) \<le> max_record_bytes"
    unfolding record_raw_def using assms
    by (intro order_trans [OF length_dumps]) (simp add: max_record_bytes_def
        agent_capture_schema_def capture_schema_def)
  then show ?thesis by (simp add: record_bytes_def record_raw_def Let_def)
qed

lemma sample_bytes:
  "encode_trace plain_py_env sample_trace
     = Inr (record_raw ''trace'' (JDict (trace_to_payload plain_py_env sample_trace)) @ newline)"
  "encode_span plain_py_env sample_span
     = Inr (record_raw ''span'' (JDict (span_to_payload plain_py_env sample_span)) @ newline)"
proof -
  have "weight (JDict (trace_to_payload plain_py_env sample_trace)) \<le> 4000000"
    by (simp add: trace_to_payload_def sample_trace_def populate_trace_analysis_fields_def Let_def
      opt_json_def plain_py_env_def small_dec dec_of_int_def dec_of_nat.simps)
  then show "encode_trace plain_py_env sample_trace
     = Inr (record_raw ''trace'' (JDict (trace_to_payload plain_py_env sample_trace)) @ newline)"
    unfolding encode_trace_def by (rule record_bytes_small) simp
  have "weight (JDict (span_to_payload plain_py_env sample_span)) \<le> 4000000"
    by (simp add: span_to_payload_def sample_span_def opt_json_def plain_py_env_def small_dec)
  then show "encode_span plain_py_env sample_span
     = Inr (record_raw ''span'' (JDict (span_to_payload plain_py_env sample_span)) @ newline)"
    unfolding encode_span_def by (rule record_bytes_small) simp
qed

theorem trace_and_span_roundtrip_witness:
  "\<exists>traw sraw.
     record_raw ''trace'' (JDict (trace_to_payload plain_py_env sample_trace)) @ newline = traw @ newline \<and>
     record_raw ''span'' (JDict (span_to_payload plain_py_env sample_span)) @ newline = sraw @ newline \<and>
     one_line traw \<and> one_line sraw \<and>
     decode_capture_record sample_decoder traw = Inr (Some (TraceRecord (canonical_trace sample_trace))) \<and>
     decode_capture_record sample_decoder sraw = Inr (Some (SpanRecord (canonical_span sample_span)))"
  by (rule trace_and_span_roundtrip [of sample_decoder, unfolded sample_decoder_simps,
        OF plain_py_env_ok sample_trace_ok sample_span_ok sample_bytes])

section \<open>A capture\<close>

lemma canonical_sample: "canonical_capture sample_capture = sample_capture"
proof -
  have "canonical_event sample_event = sample_event"
    by (simp add: canonical_event_def sorted_dict_def sample_event_def)
  then show ?thesis
    by (simp add: canonical_capture_def sample_capture_def order_turns_def order_events_def)
qed

lemma canonical_sample_trace:
  "populate_trace_analysis_fields (sanitize_trace plain_redactor (canonical_trace sample_trace))
     = sample_trace"
  "normalize_scalars (canonical_trace sample_trace) = canonical_trace sample_trace"
  "tr_tenant_id (canonical_trace sample_trace) = Some ''t''"
  by (simp_all add: sample_trace_def canonical_trace_def populate_trace_analysis_fields_def
    sanitize_trace_def plain_redactor_def sanitize_label_def sanitize_tags_def Let_def
    normal_fields norm_count_def norm_amount_def normalize_optional_integer_def
    max_trace_integer_def)

lemma sample_linked_canonical:
  "prepare_linked_traces plain_redactor (c_events sample_capture) [canonical_trace sample_trace] =
     Inr ([sample_trace], [''x''])"
  by (simp add: prepare_linked_traces_def prepare_trace_def canonical_sample_trace Let_def
    sample_trace_id event_links_def sample_capture_def sample_event_def map_filter_simps
    checks.simps(2))

lemma sample_prepared_canonical:
  "prepare_agent_capture plain_redactor agent_capture_batch_checks sample_capture
     [canonical_trace sample_trace] = Inr (sample_capture, [sample_trace], [''x''])"
  by (simp add: prepare_agent_capture_def sample_capture_sanitized sample_linked_canonical)

lemma sample_payload_transportable:
  "transportable plain_py_env (capture_payload plain_py_env sample_capture)"
proof -
  have "utf8_json (capture_payload plain_py_env sample_capture)"
    by (simp add: capture_payload_def sample_capture_def sample_session_def sample_run_def
      sample_turn_def sample_event_def session_payload_def run_payload_def turn_payload_def
      event_payload_def order_turns_def order_events_def unless_empty_def opt_json_def
      utf8_sample_digest)
  moreover have "printable (plain_loader (pe_float plain_py_env))
      (capture_payload plain_py_env sample_capture)"
    by (simp add: capture_payload_def sample_capture_def sample_session_def sample_run_def
      sample_turn_def sample_event_def session_payload_def run_payload_def turn_payload_def
      event_payload_def order_turns_def order_events_def unless_empty_def opt_json_def
      plain_py_env_def dec_of_nat.simps)
  ultimately show ?thesis by (simp add: transportable_def)
qed

definition sample_record :: jval where
  "sample_record = JDict
     [(''batch'', sort_keys (capture_payload plain_py_env sample_capture)),
      (''traces'', JList [JDict (trace_to_payload plain_py_env sample_trace)])]"

definition sample_raw :: string where
  "sample_raw = record_raw ''agent'' sample_record"

lemma sample_record_bytes: "record_bytes ''agent'' sample_record = Inr (sample_raw @ newline)"
proof -
  have "weight (JDict (trace_to_payload plain_py_env sample_trace)) \<le> 99999"
    by (simp add: trace_to_payload_def sample_trace_def populate_trace_analysis_fields_def Let_def
      opt_json_def plain_py_env_def small_dec dec_of_int_def dec_of_nat.simps)
  moreover have "weight (sort_keys (capture_payload plain_py_env sample_capture)) \<le> 9999"
    using sample_payload_weight by (simp only: weight_sort_keys)
  ultimately have "weight sample_record \<le> 4000000"
    unfolding sample_record_def by (simp del: weight.simps add: weight.simps(6,7))
  then show ?thesis unfolding sample_raw_def by (rule record_bytes_small) simp
qed

lemma sample_encoded: "encode_agent plain_py_env sample_capture [sample_trace] = Inr (sample_raw @ newline)"
proof -
  have "json_loads_text (plain_loader (pe_float plain_py_env)) sample_text
      = Some (sort_keys (capture_payload plain_py_env sample_capture))"
    unfolding sample_text_def json_dumps_text using sample_payload_transportable
    by (intro json_loads_text_text plain_loader_ok) (simp add: transportable_def printable_sort_keys)
  then show ?thesis
    using sample_record_bytes by (simp add: encode_agent_def sample_to_json sample_record_def)
qed


end
