(* ===== verification/Collector_Samples.thy ===== *)
theory Collector_Samples
  imports Transport_Samples
begin

text \<open>The sample capture delivered to a collector, and delivered again.\<close>

definition sample_collector :: collector where
  "sample_collector = \<lparr>co_decoder = sample_decoder, co_redactor = plain_redactor, co_tenant = ''t''\<rparr>"

lemma sample_collector_simps [simp]:
  "co_decoder sample_collector = sample_decoder" "co_redactor sample_collector = plain_redactor"
  "co_tenant sample_collector = ''t''"
  by (simp_all add: sample_collector_def)

lemma sample_collector_ok: "collector_ok sample_collector"
  by (simp add: collector_ok_def decoder_ok_def plain_py_env_ok plain_redactor_ok
    validate_tenant_id_def) (simp add: sample_decoder_def)

lemma sample_decoded:
  "one_line sample_raw"
  "decode_capture_record sample_decoder sample_raw
     = Inr (Some (AgentRecord sample_capture [canonical_trace sample_trace]))"
  "sample_raw \<noteq> [] \<and> length sample_raw \<le> max_record_bytes"
proof -
  note bytes = sample_record_bytes
  have ok: "transportable plain_py_env sample_record"
    unfolding sample_record_def
    using sample_payload_transportable sample_trace_ok
    by (intro transportable_dict) (simp_all add: transportable_sort_keys trace_ok_def transportable_list)
  then show "one_line sample_raw"
    using record_reads_back [OF bytes ok, of sample_decoder] by simp
  have d: "distinct (map fst [(''batch'', sort_keys (capture_payload plain_py_env sample_capture)),
      (''traces'', JList [JDict (trace_to_payload plain_py_env sample_trace)])])"
    (is "distinct (map fst ?r)") by simp
  have keys: "set (dkeys (sorted_dict ?r)) = {''batch'', ''traces''}"
    unfolding dkeys_sorted_dict by simp
  have fields: "field (sorted_dict ?r) ''batch'' = sort_keys (capture_payload plain_py_env sample_capture)"
    "field (sorted_dict ?r) ''traces''
       = JList (map sort_keys (map (\<lambda>t. JDict (trace_to_payload plain_py_env t)) [sample_trace]))"
    unfolding field_sorted_dict [OF d] by (simp_all add: field_def sort_keys_idem)
  obtain b where b: "sort_keys (capture_payload plain_py_env sample_capture) = JDict b"
    by (simp add: capture_payload_def)
  have batch: "agent_capture_batch_from_json plain_py_env (json_text False (JDict b)) = Inr sample_capture"
    using capture_text_reads_back [OF plain_py_env_ok sample_records(1,2) _ sample_records(3)
        sample_to_json] b
    by (simp add: sample_text_def json_dumps_text agent_capture_batch_from_json_def canonical_sample)
  have "decode_agent_record sample_decoder (JDict (sorted_dict ?r))
      = Inr (AgentRecord sample_capture [canonical_trace sample_trace])"
    using keys fields traverse_traces [of sample_decoder "[sample_trace]"] b batch
    by (simp add: decode_agent_record_def plain_py_env_ok sample_trace_ok sample_prepared_canonical
        del: sort_keys.simps(7))
  then show "decode_capture_record sample_decoder sample_raw
      = Inr (Some (AgentRecord sample_capture [canonical_trace sample_trace]))"
    using record_reads_back [OF bytes ok, of sample_decoder]
    by (simp add: decode_envelope_def agent_capture_schema_def sample_record_def sort_keys_dict
        del: sort_keys.simps(7))
  show "sample_raw \<noteq> [] \<and> length sample_raw \<le> max_record_bytes"
    using bytes by (auto simp: record_bytes_def Let_def sample_raw_def record_raw_def split: if_splits)
qed

definition sample_body :: string where
  "sample_body = unlines [sample_raw]"

lemma sample_lines: "batch_lines sample_body = Inr [sample_raw]"
  using sample_decoded(1,3) split_on_unlines [of "[sample_raw]"]
  by (simp add: batch_lines_def sample_body_def Let_def newline_def max_batch_bytes_def
    max_record_bytes_def max_ack_results_def)

lemma sample_scoped: "scope_record ''t'' (AgentRecord sample_capture [canonical_trace sample_trace])
    = Inr (AgentRecord sample_capture [canonical_trace sample_trace])"
proof -
  have "(c_session sample_capture)\<lparr>s_tenant_id := ''t''\<rparr> = sample_session"
    "(c_run sample_capture)\<lparr>r_tenant_id := ''t''\<rparr> = sample_run"
    "sample_capture\<lparr>c_session := sample_session, c_run := sample_run\<rparr> = sample_capture"
    "(canonical_trace sample_trace)\<lparr>tr_tenant_id := Some ''t''\<rparr> = canonical_trace sample_trace"
    by (simp_all add: sample_capture_def sample_session_def sample_run_def canonical_trace_def
      sample_trace_def populate_trace_analysis_fields_def Let_def)
  then show ?thesis
    using sample_capture_ok(1) sample_session_ok sample_run_ok canonical_sample_trace(2)
    by (simp add: scope_record_def scope_agent_record_def post_init_eq_Inr
      post_init_eq_Inr [THEN iffD2])
qed

lemma sample_applied: "apply_line sample_collector sample_raw empty_store = (Inr None, sample_store)"
proof -
  have "append_agent_capture plain_redactor sample_capture [canonical_trace sample_trace] empty_store
      = Inr sample_store"
    by (simp add: append_agent_capture_def sample_prepared_canonical sample_stored)
  with sample_decoded(2,3) sample_scoped show ?thesis
    by (simp add: apply_line_def capture_record_into_def)
qed

definition sample_results :: "(string \<times> string option) list" where
  "sample_results = [(pe_sha256 plain_py_env sample_raw, None)]"

definition sample_answer :: string where
  "sample_answer = json_dumps True (ack_payload ''b'' sample_results)"

abbreviation in_time :: "nat \<Rightarrow> bool" where
  "in_time \<equiv> \<lambda>n. False"

lemma sample_id: "is_transport_id ''b''" "is_transport_id ''p''"
  by (simp_all add: is_transport_id_def is_alnum_def is_digit_def)

lemma sample_apply_lines:
  "apply_lines sample_collector in_time 0 [sample_raw] empty_store = (Inr sample_results, sample_store)"
  by (simp add: sample_applied sample_results_def)

lemma sample_results_ok: "results_ok sample_results"
  using apply_batch_results [OF sample_apply_lines sample_collector_ok sample_lines] .

lemma sample_apply_batch:
  "apply_batch sample_collector in_time ''b'' [sample_raw] empty_store = (Inr sample_answer, sample_store)"
  using ack_length [OF sample_results_ok sample_id(1)]
  by (simp add: apply_batch_def sample_apply_lines sample_answer_def Let_def del: apply_lines.simps)

text \<open>The first delivery.\<close>

definition sample_table :: receipt_table where
  "sample_table = [((''t'', ''b''),
     (pending_receipt ''t'' ''b'' ''p'' (pe_sha256 plain_py_env sample_body) 1)
       \<lparr>cr_last_attempt_at := 2, cr_attempt_count := 1, cr_state := ''completed'',
        cr_completed_at := Some 2, cr_response_body := Some sample_answer\<rparr>)]"

lemma sample_request: "request_ok ''t'' ''b'' ''p'' (pe_sha256 plain_py_env sample_body)"
  using request_ok_collector [OF sample_collector_ok sample_id, of sample_body] by simp

lemma sample_processed:
  "process_receipt plain_py_env ''t'' ''b'' ''p'' (pe_sha256 plain_py_env sample_body)
     (apply_batch sample_collector in_time ''b'' [sample_raw]) (1, 2) NoFault [] empty_store
   = (Inr sample_answer, sample_table, sample_store)"
proof -
  let ?r = "pending_receipt ''t'' ''b'' ''p'' (pe_sha256 plain_py_env sample_body) 1"
  have "passes (validate_receipt plain_py_env) ?r"
    using sample_request by (simp add: validate_receipt_iff pending_receipt_def request_ok_def)
  then have row: "from_row plain_py_env ?r = Inr ?r" by (rule from_row_eq)
  obtain p where "validate_acknowledgement plain_py_env sample_answer ''b'' = Inr p"
    using ack_reads_back [OF sample_results_ok sample_id(1), of plain_py_env]
    by (auto simp: sample_answer_def)
  then show ?thesis
    using row
    by (simp add: process_receipt_def ensure_pending_def Let_def attempt_batch_def
        sample_apply_batch require_identity_def sample_table_def pending_receipt_def)
qed

lemma sample_ingest:
  "ingest_batch sample_collector in_time ''b'' ''p'' sample_body (1, 2) NoFault [] empty_store
   = (Inr sample_answer, sample_table, sample_store)"
  using sample_processed sample_id
  by (simp add: ingest_batch_def validate_ids_def validate_transport_id_def sample_lines)

lemma sample_run: "(collector_step sample_collector)\<^sup>*\<^sup>* (0, [], empty_store) (2, sample_table, sample_store)"
  using collector_step.intros [OF sample_ingest, of 0] by (intro r_into_rtranclp) simp

section \<open>Witnesses\<close>

theorem acknowledgement_accepted_witness:
  "\<exists>p results. parse_acknowledgement plain_py_env sample_answer ''b'' = Inr p \<and>
     apply_lines sample_collector in_time 0 [sample_raw] empty_store = (Inr results, sample_store) \<and>
     length results = length [sample_raw] \<and> dget p ''results'' = Some (JList (ack_results results))"
  using acknowledgement_accepted [OF sample_collector_ok sample_id(1) sample_lines sample_apply_batch]
  by simp

theorem acknowledgement_fits_witness:
  "sample_answer \<noteq> [] \<and> length sample_answer \<le> max_ack_bytes"
  using acknowledgement_fits [OF sample_collector_ok sample_id(1) sample_lines, of in_time empty_store]
  by (simp add: sample_apply_batch)

theorem receipts_stay_valid_witness: "receipts_wf plain_py_env 2 sample_table"
  by (rule receipts_stay_valid [OF sample_processed receipts_wf_empty, of 0])
    (use sample_request apply_batch_fits [OF sample_collector_ok sample_id(1) sample_lines,
      of in_time empty_store] in \<open>simp_all\<close>)

theorem receipts_refine_ledger_witness:
  "ledger_step (ledger_of []) (''t'', ''b'') (''p'', pe_sha256 plain_py_env sample_body)
     (apply_batch sample_collector in_time ''b'' [sample_raw]) empty_store (Inr sample_answer)
     (ledger_of sample_table) sample_store"
  by (rule receipts_refine_ledger [OF sample_processed receipts_wf_empty, of 0])
    (use sample_request in simp_all)

theorem collector_run_safe_witness:
  "receipts_wf plain_py_env 2 sample_table \<and> store_wf sample_store \<and>
   tenant_rows ''other'' empty_store sample_store"
  using collector_run_safe [OF sample_run sample_collector_ok, of "''other''"]
    receipts_wf_empty store_wf_empty by simp

theorem batch_applied_once_witness:
  "\<exists>table3. ingest_batch sample_collector in_time ''b'' ''p'' sample_body (3, 4) NoFault sample_table
       sample_store = (Inr sample_answer, table3, sample_store)"
proof -
  obtain result table3 st3 where again: "ingest_batch sample_collector in_time ''b'' ''p'' sample_body
      (3, 4) NoFault sample_table sample_store = (result, table3, st3)"
    by (metis prod_cases3)
  have "st3 = sample_store \<and> (result = Inl ReceiptBusy \<or> result = Inr sample_answer)"
    using batch_applied_once [OF sample_ingest sample_collector_ok, of 0 2 sample_table sample_store 3
        "''p''" sample_body "[sample_raw]" in_time 4 NoFault result table3 st3]
      again receipts_wf_empty sample_id sample_lines by simp
  moreover have "result \<noteq> Inl ReceiptBusy"
  proof -
    have wf: "receipts_wf plain_py_env 2 sample_table"
      using ingest_step(1) [OF sample_ingest sample_collector_ok, of 0] receipts_wf_empty by simp
    obtain row where row: "dget sample_table (''t'', ''b'') = Some row" "cr_state row = ''completed''"
      "cr_response_body row = Some sample_answer"
      by (simp add: sample_table_def)
    note valid = from_row_eq [OF receipts_wfD(2) [OF wf row(1)]]
    show ?thesis
      using again row valid
      by (auto simp: ingest_batch_def validate_ids_def validate_transport_id_def sample_id
          sample_lines process_receipt_def ensure_pending_def Let_def require_identity_def
          require_def split: if_splits)
  qed
  ultimately show ?thesis using again by blast
qed

theorem refused_request_witness:
  "handle_ingest sample_collector [] in_time [] [] (1, 2) NoFault
     \<lparr>ag_maximum = 1, ag_active = 0, ag_accepting = True\<rparr> [] empty_store
   = (JsonError ''unauthorized'' 401 False,
      \<lparr>ag_maximum = 1, ag_active = 0, ag_accepting = True\<rparr>, [], empty_store)"
proof -
  obtain response gate' table' st' where h: "handle_ingest sample_collector [] in_time [] [] (1, 2)
      NoFault \<lparr>ag_maximum = 1, ag_active = 0, ag_accepting = True\<rparr> [] empty_store
      = (response, gate', table', st')" by (metis prod_cases4)
  then have "response = JsonError ''unauthorized'' 401 False" "table' = []"
    by (auto simp: handle_ingest_def check_request_def authorized_def raw_header_values_def)
  with h refused_request_changes_nothing [OF h] show ?thesis by (auto simp: gate_enter_def)
qed


end
