(* ===== verification/File_Sink.thy ===== *)
theory File_Sink
  imports Transport
begin

text \<open>
  \<open>FileCaptureSink\<close> of \<open>verdict/agent_transport.py\<close>: records are appended to a segment that the
  process owns (\<open>.open\<close>), a full segment is sealed (\<open>.jsonl\<close>), and the directory has a quota.

  The directory is a dictionary from file names to contents.  A call is given the process that
  makes it and a fresh producer identifier for the case that the process was forked
  (\<open>process_call\<close>), and the outcomes of its writes: the count a write returns, or an exception;
  once the outcomes are used up a write takes all that is left.  A write that returns a count
  accepted so many bytes, one that raises or returns no usable count accepted none.
\<close>

section \<open>Segment names\<close>

definition segment_prefix :: string where
  "segment_prefix = ''verdict-agent-''"

definition segment_name :: "string \<Rightarrow> nat \<Rightarrow> string \<Rightarrow> string" where
  "segment_name producer n state = segment_prefix @ producer @ ''-'' @ zero_pad 6 n @ ''.'' @ state"

text \<open>
  The regular expression of a segment name: the state has no dot and the sequence no dash, so
  that the last dot and the last dash before it are the separators.
\<close>

definition segment_identity :: "string \<Rightarrow> (string \<times> nat \<times> string) option" where
  "segment_identity name =
     (if take (length segment_prefix) name \<noteq> segment_prefix then None
      else case rpartition (CHR ''.'') (drop (length segment_prefix) name) of
          None \<Rightarrow> None
        | Some (stem, state) \<Rightarrow>
            (case rpartition (CHR ''-'') stem of
               None \<Rightarrow> None
             | Some (producer, sequence) \<Rightarrow>
                 if is_transport_id producer \<and> list_all is_digit sequence \<and>
                    6 \<le> length sequence \<and> length sequence \<le> 12 \<and>
                    state \<in> {''open'', ''jsonl'', ''rejected''}
                 then Some (producer, nat_of_dec sequence, state) else None))"

type_synonym spool = "(string, string) dict"

text \<open>\<open>capture_segment_paths\<close>: the names in their order; every entry is a regular file.\<close>

definition segment_paths :: "spool \<Rightarrow> string list" where
  "segment_paths disk = sort (filter (\<lambda>n. segment_identity n \<noteq> None) (dkeys disk))"

section \<open>The sink\<close>

definition default_segment_bytes :: nat where
  "default_segment_bytes = 8388608"

definition default_directory_bytes :: nat where
  "default_directory_bytes = 134217728"

record file_sink =
  fs_segment_bytes :: nat
  fs_directory_bytes :: nat
  fs_pid :: int
  fs_producer :: string
  fs_segment :: nat
  fs_path :: "string option"
  fs_size :: nat
  fs_directory_size :: nat

record process_call =
  pc_pid :: int
  pc_fresh :: string

definition size_of :: "spool \<Rightarrow> string \<Rightarrow> nat" where
  "size_of disk name = (case dget disk name of None \<Rightarrow> 0 | Some c \<Rightarrow> length c)"

definition current_directory_size :: "spool \<Rightarrow> nat" where
  "current_directory_size disk = sum_list (map (size_of disk) (segment_paths disk))"

definition reset_process_file :: "process_call \<Rightarrow> spool \<Rightarrow> file_sink \<Rightarrow> file_sink" where
  "reset_process_file pc disk fs = fs\<lparr>fs_path := None, fs_pid := pc_pid pc,
     fs_producer := pc_fresh pc, fs_segment := 0, fs_directory_size := current_directory_size disk\<rparr>"

definition new_sink ::
  "process_call \<Rightarrow> nat option \<Rightarrow> nat option \<Rightarrow> spool \<Rightarrow> file_sink result" where
  "new_sink pc segment_bytes directory_bytes disk =
     (let sb = (case segment_bytes of None \<Rightarrow> default_segment_bytes | Some b \<Rightarrow> b);
          db = (case directory_bytes of None \<Rightarrow> default_directory_bytes | Some b \<Rightarrow> b)
      in bindr (require (max_record_bytes < sb \<and> sb \<le> db)
           (ValueError ''file transport byte limits are invalid'')) (\<lambda>_.
         Inr (reset_process_file pc disk
           \<lparr>fs_segment_bytes = sb, fs_directory_bytes = db, fs_pid = -1, fs_producer = [],
            fs_segment = 0, fs_path = None, fs_size = 0, fs_directory_size = 0\<rparr>)))"

text \<open>The first number from \<open>n\<close> on whose open segment does not exist.\<close>

lemma segment_name_inj: "segment_name p m s = segment_name p n s \<Longrightarrow> m = n"
  by (auto simp: segment_name_def dest: zero_pad_inj)

function free_segment :: "string \<Rightarrow> spool \<Rightarrow> nat \<Rightarrow> nat" where
  "free_segment producer disk n =
     (if dget disk (segment_name producer n ''open'') = None then n
      else free_segment producer disk (n + 1))"
  by pat_completeness auto

text \<open>The numbers from \<open>n\<close> on that are taken, one of which every iteration leaves behind.\<close>

definition taken_segments :: "string \<Rightarrow> spool \<Rightarrow> nat \<Rightarrow> nat set" where
  "taken_segments producer disk n =
     {m. n \<le> m \<and> dget disk (segment_name producer m ''open'') \<noteq> None}"

lemma finite_taken: "finite (taken_segments producer disk n)"
proof (rule finite_imageD)
  show "inj_on (\<lambda>m. segment_name producer m ''open'') (taken_segments producer disk n)"
    by (auto intro: inj_onI segment_name_inj)
  have "(\<lambda>m. segment_name producer m ''open'') ` taken_segments producer disk n \<subseteq> set (dkeys disk)"
    by (auto simp: taken_segments_def dest!: map_of_SomeD intro!: rev_image_eqI)
  then show "finite ((\<lambda>m. segment_name producer m ''open'') ` taken_segments producer disk n)"
    by (rule finite_subset) simp
qed

termination free_segment
proof (relation "measure (\<lambda>(producer, disk, n). card (taken_segments producer disk n))")
  fix producer :: string and disk :: spool and n
  assume "dget disk (segment_name producer n ''open'') \<noteq> None"
  then have "n \<in> taken_segments producer disk n" by (auto simp: taken_segments_def)
  moreover have "taken_segments producer disk (n + 1) \<subseteq> taken_segments producer disk n - {n}"
    by (auto simp: taken_segments_def)
  ultimately have "card (taken_segments producer disk (n + 1)) < card (taken_segments producer disk n)"
    by (metis card_Diff1_less card_mono finite_Diff finite_taken le_less_trans)
  then show "((producer, disk, n + 1), producer, disk, n)
      \<in> measure (\<lambda>(producer, disk, n). card (taken_segments producer disk n))" by simp
qed simp

declare free_segment.simps [simp del]

definition open_segment :: "spool \<Rightarrow> file_sink \<Rightarrow> spool \<times> file_sink" where
  "open_segment disk fs =
     (let n = free_segment (fs_producer fs) disk (fs_segment fs);
          path = segment_name (fs_producer fs) n ''open''
      in (dset path [] disk, fs\<lparr>fs_path := Some path, fs_size := 0, fs_segment := n + 1\<rparr>))"

definition with_suffix :: "string \<Rightarrow> string \<Rightarrow> string" where
  "with_suffix path ext =
     (case rpartition (CHR ''.'') path of None \<Rightarrow> path @ ext | Some (stem, _) \<Rightarrow> stem @ ext)"

text \<open>The file is closed first, so that a failure leaves the sink without one.\<close>

definition seal_segment :: "spool \<Rightarrow> file_sink \<Rightarrow> unit result \<times> spool \<times> file_sink" where
  "seal_segment disk fs =
     (case fs_path fs of
        None \<Rightarrow> (Inr (), disk, fs)
      | Some path \<Rightarrow>
          (let closed = fs\<lparr>fs_path := None\<rparr>; target = with_suffix path ''.jsonl'' in
           if fs_size fs = 0 then (Inr (), dpop path disk, closed)
           else if dget disk target \<noteq> None
           then (Inl (OSError ''agent capture sealed segment already exists''), disk, closed)
           else (case dget disk path of
               None \<Rightarrow> (Inl (OSError ''no such file''), disk, closed)
             | Some c \<Rightarrow> (Inr (), dset target c (dpop path disk), closed))))"

section \<open>Appending\<close>

datatype write_outcome = Wrote int | WriteRaises

text \<open>How much of a record of \<open>len\<close> bytes was written, and whether all of it was accepted.\<close>

fun write_loop :: "write_outcome list \<Rightarrow> nat \<Rightarrow> nat \<Rightarrow> nat \<times> bool" where
  "write_loop [] written len = (len, True)"
| "write_loop (out # outs) written len =
     (if len \<le> written then (written, True)
      else case out of
          WriteRaises \<Rightarrow> (written, False)
        | Wrote count \<Rightarrow>
            if count \<le> 0 \<or> int (len - written) < count then (written, False)
            else write_loop outs (written + nat count) len)"

definition disk_append :: "string \<Rightarrow> string \<Rightarrow> spool \<Rightarrow> spool" where
  "disk_append path bytes disk =
     (case dget disk path of None \<Rightarrow> disk | Some c \<Rightarrow> dset path (c @ bytes) disk)"

definition write_record ::
  "write_outcome list \<Rightarrow> string \<Rightarrow> spool \<Rightarrow> file_sink \<Rightarrow> unit result \<times> spool \<times> file_sink" where
  "write_record outs bytes disk fs =
     (case fs_path fs of
        None \<Rightarrow> (Inl (RuntimeError ''no segment is open''), disk, fs)
      | Some path \<Rightarrow>
          (let (written, complete) = write_loop outs 0 (length bytes);
               disk' = disk_append path (take written bytes) disk;
               fs' = fs\<lparr>fs_size := fs_size fs + written,
                        fs_directory_size := fs_directory_size fs + written\<rparr>
           in if complete then (Inr (), disk', fs')
              else (Inl (OSError ''agent capture file did not accept the complete record''),
                    if fs_size fs' = 0 then dpop path disk' else disk', fs'\<lparr>fs_path := None\<rparr>)))"

definition owned_by_process :: "process_call \<Rightarrow> spool \<Rightarrow> file_sink \<Rightarrow> file_sink" where
  "owned_by_process pc disk fs =
     (if fs_pid fs \<noteq> pc_pid pc then reset_process_file pc disk fs else fs)"

text \<open>The quota is tested on the cached size first, and on the directory when that one is too big.\<close>

definition check_quota :: "nat \<Rightarrow> spool \<Rightarrow> file_sink \<Rightarrow> unit result \<times> file_sink" where
  "check_quota n disk fs =
     (if fs_directory_size fs + n \<le> fs_directory_bytes fs then (Inr (), fs)
      else (let fs' = fs\<lparr>fs_directory_size := current_directory_size disk\<rparr> in
        (require (fs_directory_size fs' + n \<le> fs_directory_bytes fs)
           (RuntimeError ''agent capture directory quota exceeded''), fs')))"

text \<open>An open segment in which the record fits.\<close>

definition room_for :: "nat \<Rightarrow> spool \<Rightarrow> file_sink \<Rightarrow> unit result \<times> spool \<times> file_sink" where
  "room_for n disk fs =
     (let (disk1, fs1) = (if fs_path fs = None then open_segment disk fs else (disk, fs)) in
      if fs_size fs1 \<noteq> 0 \<and> fs_segment_bytes fs1 < fs_size fs1 + n
      then (case seal_segment disk1 fs1 of
          (Inl e, disk2, fs2) \<Rightarrow> (Inl e, disk2, fs2)
        | (Inr _, disk2, fs2) \<Rightarrow> (Inr (), open_segment disk2 fs2))
      else (Inr (), disk1, fs1))"

definition append_record ::
  "process_call \<Rightarrow> write_outcome list \<Rightarrow> string \<Rightarrow> spool \<Rightarrow> file_sink
     \<Rightarrow> unit result \<times> spool \<times> file_sink" where
  "append_record pc outs bytes disk fs =
     (case check_quota (length bytes) disk (owned_by_process pc disk fs) of
        (Inl e, fs1) \<Rightarrow> (Inl e, disk, fs1)
      | (Inr _, fs1) \<Rightarrow>
          (case room_for (length bytes) disk fs1 of
             (Inl e, disk2, fs2) \<Rightarrow> (Inl e, disk2, fs2)
           | (Inr _, disk2, fs2) \<Rightarrow> write_record outs bytes disk2 fs2))"

section \<open>Captures\<close>

definition append_encoded ::
  "process_call \<Rightarrow> write_outcome list \<Rightarrow> string result \<Rightarrow> spool \<Rightarrow> file_sink
     \<Rightarrow> unit result \<times> spool \<times> file_sink" where
  "append_encoded pc outs encoded disk fs =
     (case encoded of Inl e \<Rightarrow> (Inl e, disk, fs) | Inr bytes \<Rightarrow> append_record pc outs bytes disk fs)"

definition sink_capture_trace ::
  "py_env \<Rightarrow> redactor \<Rightarrow> process_call \<Rightarrow> write_outcome list \<Rightarrow> trace \<Rightarrow> spool \<Rightarrow> file_sink
     \<Rightarrow> unit result \<times> spool \<times> file_sink" where
  "sink_capture_trace env rd pc outs t disk fs =
     append_encoded pc outs
       (encode_trace env (populate_trace_analysis_fields (sanitize_trace rd t))) disk fs"

definition sink_capture_agent ::
  "py_env \<Rightarrow> redactor \<Rightarrow> process_call \<Rightarrow> write_outcome list \<Rightarrow> agent_capture \<Rightarrow> trace list \<Rightarrow> spool
     \<Rightarrow> file_sink \<Rightarrow> unit result \<times> spool \<times> file_sink" where
  "sink_capture_agent env rd pc outs batch traces disk fs =
     append_encoded pc outs
       (bindr (prepare_agent_capture rd agent_capture_batch_checks batch traces)
         (\<lambda>(prepared, ts, links). encode_agent env prepared ts)) disk fs"

definition sink_capture_span ::
  "py_env \<Rightarrow> redactor \<Rightarrow> process_call \<Rightarrow> write_outcome list \<Rightarrow> span_record \<Rightarrow> spool \<Rightarrow> file_sink
     \<Rightarrow> unit result \<times> spool \<times> file_sink" where
  "sink_capture_span env rd pc outs s disk fs =
     append_encoded pc outs (encode_span env (sanitize_span rd s)) disk fs"

definition close_sink :: "process_call \<Rightarrow> spool \<Rightarrow> file_sink \<Rightarrow> unit result \<times> spool \<times> file_sink" where
  "close_sink pc disk fs =
     (if fs_pid fs \<noteq> pc_pid pc then (Inr (), disk, reset_process_file pc disk fs)
      else seal_segment disk fs)"

end
