(* ===== verification/File_Sink_Laws.thy ===== *)
theory File_Sink_Laws
  imports File_Sink Transport_Laws
begin

text \<open>
  The segments of one sink and of many processes in one directory: what is sealed consists of
  complete records, and nobody writes to the segment of another.
\<close>

section \<open>Names\<close>

lemma digits_no_dash: "list_all is_digit s \<Longrightarrow> CHR ''-'' \<notin> set s \<and> CHR ''.'' \<notin> set s"
  by (auto simp: list_all_iff is_digit_def)

lemma zero_pad_no_dash: "CHR ''-'' \<notin> set (zero_pad w n)"
  using digits_no_dash [OF zero_pad_digits] by blast

lemma segment_name_split:
  assumes "CHR ''.'' \<notin> set state"
  shows "rpartition (CHR ''.'') (segment_name p n state) = Some (segment_prefix @ p @ ''-'' @ zero_pad 6 n, state)"
    and "rpartition (CHR ''-'') (segment_prefix @ p @ ''-'' @ zero_pad 6 n) = Some (segment_prefix @ p, zero_pad 6 n)"
proof -
  have "segment_name p n state = (segment_prefix @ p @ ''-'' @ zero_pad 6 n) @ CHR ''.'' # state"
    by (simp add: segment_name_def)
  then show "rpartition (CHR ''.'') (segment_name p n state) = Some (segment_prefix @ p @ ''-'' @ zero_pad 6 n, state)"
    by (simp only: rpartition_append [OF assms])
  have "segment_prefix @ p @ ''-'' @ zero_pad 6 n = (segment_prefix @ p) @ CHR ''-'' # zero_pad 6 n"
    by simp
  then show "rpartition (CHR ''-'') (segment_prefix @ p @ ''-'' @ zero_pad 6 n) = Some (segment_prefix @ p, zero_pad 6 n)"
    by (simp only: rpartition_append [OF zero_pad_no_dash])
qed

lemma segment_name_eq:
  assumes "segment_name p m s = segment_name q n t" and "CHR ''.'' \<notin> set s" and "CHR ''.'' \<notin> set t"
  shows "p = q \<and> m = n \<and> s = t"
proof -
  note stem = segment_name_split(1) [OF assms(2), of p m, unfolded assms(1)
      segment_name_split(1) [OF assms(3), of q n] option.inject prod.inject]
  then have "rpartition (CHR ''-'') (segment_prefix @ q @ ''-'' @ zero_pad 6 n)
      = rpartition (CHR ''-'') (segment_prefix @ p @ ''-'' @ zero_pad 6 m)" by simp
  then have "segment_prefix @ q = segment_prefix @ p \<and> zero_pad 6 n = zero_pad 6 m"
    unfolding segment_name_split(2) [OF assms(2)] by simp
  with stem show ?thesis by (auto dest: zero_pad_inj)
qed

lemma states_no_dot [simp]:
  "CHR ''.'' \<notin> set ''open''" "CHR ''.'' \<notin> set ''jsonl''" "CHR ''.'' \<notin> set ''rejected''"
  by simp_all

lemma open_not_sealed [simp]:
  "segment_name p m ''open'' \<noteq> segment_name q n ''jsonl''"
  "segment_name q n ''jsonl'' \<noteq> segment_name p m ''open''"
  using segment_name_eq [of p m "''open''" q n "''jsonl''"] by auto

lemma same_names [simp]:
  "segment_name p m ''open'' = segment_name q n ''open'' \<longleftrightarrow> p = q \<and> m = n"
  "segment_name p m ''jsonl'' = segment_name q n ''jsonl'' \<longleftrightarrow> p = q \<and> m = n"
  using segment_name_eq [of p m "''open''" q n "''open''"]
    segment_name_eq [of p m "''jsonl''" q n "''jsonl''"] by auto

lemma sealed_name: "with_suffix (segment_name p n ''open'') ''.jsonl'' = segment_name p n ''jsonl''"
  by (simp add: with_suffix_def segment_name_split) (simp add: segment_name_def)

lemma segment_name_parses:
  assumes "is_transport_id producer" and "n < 10 ^ 12" and "state \<in> {''open'', ''jsonl'', ''rejected''}"
  shows "segment_identity (segment_name producer n state) = Some (producer, n, state)"
proof -
  have dot: "CHR ''.'' \<notin> set state" using assms(3) by auto
  have "drop (length segment_prefix) (segment_name producer n state)
      = (producer @ ''-'' @ zero_pad 6 n) @ CHR ''.'' # state"
    by (simp add: segment_name_def)
  then have 1: "rpartition (CHR ''.'') (drop (length segment_prefix) (segment_name producer n state))
      = Some (producer @ ''-'' @ zero_pad 6 n, state)"
    by (simp only: rpartition_append [OF dot])
  have 2: "rpartition (CHR ''-'') (producer @ ''-'' @ zero_pad 6 n) = Some (producer, zero_pad 6 n)"
    using rpartition_append [OF zero_pad_no_dash, of producer 6 n] by simp
  have 3: "length (zero_pad 6 n) \<le> 12" by (rule length_zero_pad_le [OF assms(2)]) simp_all
  show ?thesis
    using assms(1,3) length_zero_pad [of 6 n] 3
    unfolding segment_identity_def 1 option.case prod.case 2
    by (simp add: zero_pad_digits nat_of_dec_zero_pad) (simp add: segment_name_def)
qed

text \<open>The name a sink gives to a segment is parsed back to the producer, the
number and the state of the segment, whatever the producer identifier contains.\<close>

theorem segment_name_roundtrip:
  assumes "is_transport_id producer" and "n < 10 ^ 12" and "state \<in> {''open'', ''jsonl'', ''rejected''}"
  shows "segment_identity (segment_name producer n state) = Some (producer, n, state)"
  using segment_name_parses [OF assms] .

theorem segment_name_roundtrip_witness:
  "segment_identity (segment_name ''a-1.b'' 7 ''jsonl'') = Some (''a-1.b'', 7, ''jsonl'')"
  by (rule segment_name_roundtrip)
    (simp_all add: is_transport_id_def is_alnum_def is_ident_char_def is_digit_def)

section \<open>Complete records\<close>

definition complete_lines :: "string \<Rightarrow> bool" where
  "complete_lines c \<longleftrightarrow> (\<exists>ls. list_all one_line ls \<and> c = unlines ls)"

definition is_record :: "string \<Rightarrow> bool" where
  "is_record bytes \<longleftrightarrow>
     (\<exists>raw. bytes = raw @ newline \<and> one_line raw \<and> length raw \<le> max_record_bytes)"

lemma complete_lines_simps [simp]:
  "complete_lines []" "complete_lines c \<Longrightarrow> is_record bytes \<Longrightarrow> complete_lines (c @ bytes)"
proof -
  show "complete_lines []" unfolding complete_lines_def by (intro exI [of _ "[]"]) simp
  assume "complete_lines c" "is_record bytes"
  then obtain ls raw where "list_all one_line ls" "c = unlines ls" "bytes = raw @ newline" "one_line raw"
    by (auto simp: complete_lines_def is_record_def)
  then show "complete_lines (c @ bytes)"
    unfolding complete_lines_def by (intro exI [of _ "ls @ [raw]"]) simp
qed

lemma is_record_length: "is_record bytes \<Longrightarrow> 0 < length bytes \<and> length bytes \<le> max_record_bytes + 1"
  by (auto simp: is_record_def newline_def)

section \<open>One sink\<close>

definition sink_ok :: "nat \<Rightarrow> spool \<Rightarrow> file_sink \<Rightarrow> bool" where
  "sink_ok sb disk fs \<longleftrightarrow> fs_segment_bytes fs = sb \<and>
     (\<forall>path. fs_path fs = Some path \<longrightarrow>
        (\<exists>n c. path = segment_name (fs_producer fs) n ''open'' \<and> dget disk path = Some c \<and>
           complete_lines c \<and> length c = fs_size fs \<and> length c \<le> sb))"

definition sealed_ok :: "nat \<Rightarrow> spool \<Rightarrow> bool" where
  "sealed_ok sb disk \<longleftrightarrow>
     (\<forall>p n c. dget disk (segment_name p n ''jsonl'') = Some c \<longrightarrow> complete_lines c \<and> length c \<le> sb)"

text \<open>Only files of the producer change.\<close>

definition only_producer :: "string \<Rightarrow> spool \<Rightarrow> spool \<Rightarrow> bool" where
  "only_producer p disk disk' \<longleftrightarrow>
     (\<forall>q n. q \<noteq> p \<longrightarrow> dget disk' (segment_name q n ''open'') = dget disk (segment_name q n ''open''))"

definition advances :: "nat \<Rightarrow> spool \<Rightarrow> file_sink \<Rightarrow> spool \<Rightarrow> file_sink \<Rightarrow> bool" where
  "advances sb disk fs disk' fs' \<longleftrightarrow> sink_ok sb disk' fs' \<and> sealed_ok sb disk' \<and>
     fs_producer fs' = fs_producer fs \<and> fs_pid fs' = fs_pid fs \<and>
     only_producer (fs_producer fs) disk disk'"

lemma only_producer_trans: "only_producer p a b \<Longrightarrow> only_producer p b c \<Longrightarrow> only_producer p a c"
  by (simp add: only_producer_def)

lemma advances_trans:
  "advances sb a f b g \<Longrightarrow> advances sb b g c h \<Longrightarrow> advances sb a f c h"
  by (auto simp: advances_def intro: only_producer_trans)

lemma advances_refl: "sink_ok sb disk fs \<Longrightarrow> sealed_ok sb disk \<Longrightarrow> advances sb disk fs disk fs"
  by (simp add: advances_def only_producer_def)

lemma free_segment_free: "dget disk (segment_name p (free_segment p disk n) ''open'') = None"
  by (induction p disk n rule: free_segment.induct) (subst free_segment.simps, simp)

lemma open_segment_advances:
  assumes "open_segment disk fs = (disk', fs')" and "fs_segment_bytes fs = sb" and "sealed_ok sb disk"
  shows "advances sb disk fs disk' fs'" and "fs_path fs' \<noteq> None" and "fs_size fs' = 0"
proof -
  let ?n = "free_segment (fs_producer fs) disk (fs_segment fs)"
  let ?p = "segment_name (fs_producer fs) ?n ''open''"
  from assms(1) have e: "disk' = dset ?p [] disk"
    "fs' = fs\<lparr>fs_path := Some ?p, fs_size := 0, fs_segment := ?n + 1\<rparr>"
    by (simp_all add: open_segment_def Let_def)
  show "fs_path fs' \<noteq> None" "fs_size fs' = 0" by (simp_all add: e)
  show "advances sb disk fs disk' fs'"
    using assms(2,3) by (auto simp: e advances_def sink_ok_def sealed_ok_def only_producer_def dict_simps)
qed

lemma seal_segment_advances:
  assumes "seal_segment disk fs = (r, disk', fs')" and "sink_ok sb disk fs" and "sealed_ok sb disk"
  shows "advances sb disk fs disk' fs'" and "r = Inr () \<Longrightarrow> fs_path fs' = None"
proof -
  have "advances sb disk fs disk' fs' \<and> (r = Inr () \<longrightarrow> fs_path fs' = None)"
  proof (cases "fs_path fs")
    case None
    with assms show ?thesis by (auto simp: seal_segment_def intro: advances_refl)
  next
    case (Some path)
    with assms(2) obtain n c where path: "path = segment_name (fs_producer fs) n ''open''"
      and c: "dget disk path = Some c" "complete_lines c" "length c = fs_size fs" "length c \<le> sb"
      by (auto simp: sink_ok_def)
    then show ?thesis
      using assms Some
      by (auto simp: seal_segment_def Let_def sealed_name advances_def sink_ok_def sealed_ok_def
          only_producer_def dict_simps split: if_splits)
  qed
  then show "advances sb disk fs disk' fs'" and "r = Inr () \<Longrightarrow> fs_path fs' = None" by blast+
qed

lemma write_loop_le:
  "write_loop outs written len = (k, done) \<Longrightarrow> written \<le> len \<Longrightarrow> k \<le> len \<and> (done \<longrightarrow> k = len)"
  by (induction outs written len rule: write_loop.induct)
    (auto split: if_splits write_outcome.splits)

lemma write_record_advances:
  assumes "write_record outs bytes disk fs = (r, disk', fs')" and "sink_ok sb disk fs"
    and "sealed_ok sb disk" and "is_record bytes" and "fs_size fs + length bytes \<le> sb"
  shows "advances sb disk fs disk' fs'"
proof (cases "fs_path fs")
  case None
  with assms show ?thesis by (auto simp: write_record_def intro: advances_refl)
next
  case (Some path)
  with assms(2) obtain n c where path: "path = segment_name (fs_producer fs) n ''open''"
    and c: "dget disk path = Some c" "complete_lines c" "length c = fs_size fs" "length c \<le> sb"
    by (auto simp: sink_ok_def)
  obtain k ok where w: "write_loop outs 0 (length bytes) = (k, ok)" by (cases "write_loop outs 0 (length bytes)")
  with write_loop_le [OF w] have "ok \<Longrightarrow> k = length bytes" by simp
  then show ?thesis
    using assms Some path c w
    by (auto simp: write_record_def Let_def disk_append_def advances_def sink_ok_def sealed_ok_def
        only_producer_def dict_simps split: if_splits)
qed

lemma room_for_advances:
  assumes "room_for n disk fs = (r, disk', fs')" and "sink_ok sb disk fs" and "sealed_ok sb disk"
    and "n \<le> sb"
  shows "advances sb disk fs disk' fs'" and "r = Inr () \<Longrightarrow> fs_size fs' + n \<le> sb \<and> fs_path fs' \<noteq> None"
proof -
  obtain disk1 fs1 where o: "(if fs_path fs = None then open_segment disk fs else (disk, fs)) = (disk1, fs1)"
    by fastforce
  have sb: "fs_segment_bytes fs = sb" using assms(2) by (simp add: sink_ok_def)
  have a1: "advances sb disk fs disk1 fs1" and p1: "fs_path fs1 \<noteq> None"
    using o open_segment_advances [OF _ sb assms(3)] advances_refl [OF assms(2,3)]
    by (auto split: if_splits)
  then have ok1: "sink_ok sb disk1 fs1" "sealed_ok sb disk1" by (simp_all add: advances_def)
  then have sb1: "fs_segment_bytes fs1 = sb" by (simp add: sink_ok_def)
  have "advances sb disk fs disk' fs' \<and> (r = Inr () \<longrightarrow> fs_size fs' + n \<le> sb \<and> fs_path fs' \<noteq> None)"
  proof (cases "fs_size fs1 \<noteq> 0 \<and> sb < fs_size fs1 + n")
    case False
    with assms(1,4) o a1 p1 sb1 show ?thesis by (auto simp: room_for_def)
  next
    case True
    obtain r2 disk2 fs2 where s: "seal_segment disk1 fs1 = (r2, disk2, fs2)"
      by (metis prod_cases3)
    note a2 = advances_trans [OF a1 seal_segment_advances(1) [OF s ok1]]
    then have ok2: "sealed_ok sb disk2" "fs_segment_bytes fs2 = sb"
      by (simp_all add: advances_def sink_ok_def)
    show ?thesis
    proof (cases r2)
      case (Inl e)
      with assms(1) o s True a2 sb1 show ?thesis by (auto simp: room_for_def)
    next
      case (Inr u)
      with assms(1) o s True sb1 have "open_segment disk2 fs2 = (disk', fs')" "r = Inr ()"
        by (auto simp: room_for_def)
      with open_segment_advances [OF this(1) ok2(2,1)] advances_trans [OF a2] assms(4) show ?thesis
        by auto
    qed
  qed
  then show "advances sb disk fs disk' fs'" and "r = Inr () \<Longrightarrow> fs_size fs' + n \<le> sb \<and> fs_path fs' \<noteq> None"
    by blast+
qed

lemma check_quota_same:
  assumes "check_quota n disk fs = (r, fs')"
  shows "sink_ok sb disk fs' = sink_ok sb disk fs" "fs_producer fs' = fs_producer fs"
    "fs_pid fs' = fs_pid fs"
  using assms by (auto simp: check_quota_def Let_def sink_ok_def split: if_splits)

text \<open>Appending, by the process that owns the sink.\<close>

lemma append_record_advances:
  assumes "append_record pc outs bytes disk fs = (r, disk', fs')" and "fs_pid fs = pc_pid pc"
    and "sink_ok sb disk fs" and "sealed_ok sb disk" and "is_record bytes" and "max_record_bytes < sb"
  shows "advances sb disk fs disk' fs'"
proof -
  have own: "owned_by_process pc disk fs = fs" using assms(2) by (simp add: owned_by_process_def)
  obtain r1 fs1 where q: "check_quota (length bytes) disk fs = (r1, fs1)" by fastforce
  note same = check_quota_same [OF q]
  then have a1: "advances sb disk fs disk fs1"
    using assms(3,4) by (simp add: advances_def only_producer_def)
  have len: "length bytes \<le> sb" using is_record_length [OF assms(5)] assms(6) by linarith
  obtain r2 disk2 fs2 where room: "room_for (length bytes) disk fs1 = (r2, disk2, fs2)"
    by (metis prod_cases3)
  have ok1: "sink_ok sb disk fs1" using same assms(3) by simp
  note a2 = advances_trans [OF a1 room_for_advances(1) [OF room ok1 assms(4) len]]
  then have ok2: "sink_ok sb disk2 fs2" "sealed_ok sb disk2" by (simp_all add: advances_def)
  show ?thesis
  proof (cases "r1 = Inr () \<and> r2 = Inr ()")
    case True
    then have "write_record outs bytes disk2 fs2 = (r, disk', fs')"
      using assms(1) own q room by (simp add: append_record_def)
    from write_record_advances [OF this ok2 assms(5)] room_for_advances(2) [OF room ok1 assms(4) len]
      True advances_trans [OF a2] show ?thesis by blast
  next
    case False
    with assms(1) own q room a1 a2 show ?thesis
      by (auto simp: append_record_def split: sum.splits)
  qed
qed

section \<open>Many processes\<close>

text \<open>
  Every process has its sink, a forked one a copy of its parent's.  Process identifiers are not
  reused, and the producer identifier drawn when a sink is made or found to be inherited is new.
  A shipper may remove or quarantine a sealed segment at any time.
\<close>

type_synonym processes = "int \<Rightarrow> file_sink option"

definition fresh_producer :: "string \<Rightarrow> spool \<Rightarrow> processes \<Rightarrow> bool" where
  "fresh_producer f disk ps \<longleftrightarrow>
     (\<forall>n. dget disk (segment_name f n ''open'') = None) \<and>
     (\<forall>q fs. ps q = Some fs \<longrightarrow> fs_producer fs \<noteq> f)"

inductive spool_step :: "nat \<Rightarrow> spool \<times> processes \<Rightarrow> spool \<times> processes \<Rightarrow> bool" for sb where
  start: "new_sink pc (Some sb) db disk = Inr fs \<Longrightarrow> fresh_producer (pc_fresh pc) disk ps \<Longrightarrow>
    spool_step sb (disk, ps) (disk, ps(pc_pid pc \<mapsto> fs))"
| fork: "ps parent = Some fs \<Longrightarrow> ps child = None \<Longrightarrow> (\<And>q gs. ps q = Some gs \<Longrightarrow> fs_pid gs \<noteq> child) \<Longrightarrow>
    spool_step sb (disk, ps) (disk, ps(child \<mapsto> fs))"
| append: "ps (pc_pid pc) = Some fs \<Longrightarrow> fresh_producer (pc_fresh pc) disk ps \<Longrightarrow> is_record bytes \<Longrightarrow>
    append_record pc outs bytes disk fs = (r, disk', fs') \<Longrightarrow>
    spool_step sb (disk, ps) (disk', ps(pc_pid pc \<mapsto> fs'))"
| close: "ps (pc_pid pc) = Some fs \<Longrightarrow> fresh_producer (pc_fresh pc) disk ps \<Longrightarrow>
    close_sink pc disk fs = (r, disk', fs') \<Longrightarrow>
    spool_step sb (disk, ps) (disk', ps(pc_pid pc \<mapsto> fs'))"
| removed: "spool_step sb (disk, ps) (dpop (segment_name p n ''jsonl'') disk, ps)"
| quarantined: "dget disk (segment_name p n ''jsonl'') = Some c \<Longrightarrow>
    spool_step sb (disk, ps)
      (dset (segment_name p n ''rejected'') c (dpop (segment_name p n ''jsonl'') disk), ps)"

definition spool_ok :: "nat \<Rightarrow> spool \<times> processes \<Rightarrow> bool" where
  "spool_ok sb s \<longleftrightarrow> max_record_bytes < sb \<and> sealed_ok sb (fst s) \<and>
     (\<forall>pid fs. snd s pid = Some fs \<longrightarrow> fs_segment_bytes fs = sb \<and>
        (fs_pid fs = pid \<longrightarrow> sink_ok sb (fst s) fs)) \<and>
     (\<forall>p q f g. snd s p = Some f \<and> snd s q = Some g \<and> p \<noteq> q \<and> fs_pid f = p \<and> fs_pid g = q \<longrightarrow>
        fs_producer f \<noteq> fs_producer g)"

lemma sink_ok_other:
  assumes "sink_ok sb disk g" and "only_producer p disk disk'" and "fs_producer g \<noteq> p"
  shows "sink_ok sb disk' g"
  using assms unfolding sink_ok_def only_producer_def by metis

text \<open>What one process does to its own sink keeps the whole spool in order.\<close>

lemma spool_ok_advance:
  assumes "spool_ok sb (disk, ps)" and "advances sb disk fs disk' fs'" and "fs_pid fs = pid"
    and "\<And>q g. ps q = Some g \<Longrightarrow> q \<noteq> pid \<Longrightarrow> fs_pid g = q \<Longrightarrow> fs_producer g \<noteq> fs_producer fs"
  shows "spool_ok sb (disk', ps(pid \<mapsto> fs'))"
proof -
  have adv: "sink_ok sb disk' fs'" "sealed_ok sb disk'" "fs_producer fs' = fs_producer fs"
    "fs_pid fs' = pid" "only_producer (fs_producer fs) disk disk'" "fs_segment_bytes fs' = sb"
    using assms(2,3) by (auto simp: advances_def sink_ok_def)
  have others: "sink_ok sb disk' g" if "ps q = Some g" "q \<noteq> pid" "fs_pid g = q" for q g
    using sink_ok_other [OF _ adv(5) assms(4) [OF that]] assms(1) that by (simp add: spool_ok_def)
  have old: "max_record_bytes < sb"
    "\<And>q g. ps q = Some g \<Longrightarrow> fs_segment_bytes g = sb"
    "\<And>p q f g. ps p = Some f \<Longrightarrow> ps q = Some g \<Longrightarrow> p \<noteq> q \<Longrightarrow> fs_pid f = p \<Longrightarrow> fs_pid g = q \<Longrightarrow>
       fs_producer f \<noteq> fs_producer g"
    using assms(1) by (simp_all add: spool_ok_def)
  show ?thesis
    unfolding spool_ok_def fst_conv snd_conv
  proof (intro conjI allI impI)
    show "max_record_bytes < sb" "sealed_ok sb disk'" by (rule old(1)) (rule adv(2))
    show "fs_segment_bytes g = sb" if "(ps(pid \<mapsto> fs')) q = Some g" for q g
      using that adv(6) old(2) by (auto split: if_splits)
    show "sink_ok sb disk' g" if "(ps(pid \<mapsto> fs')) q = Some g" "fs_pid g = q" for q g
      using that adv(1) others by (auto split: if_splits)
    fix p q f g
    assume "(ps(pid \<mapsto> fs')) p = Some f \<and> (ps(pid \<mapsto> fs')) q = Some g \<and> p \<noteq> q \<and> fs_pid f = p \<and>
      fs_pid g = q"
    then show "fs_producer f \<noteq> fs_producer g"
      using adv(3) assms(4) old(3) by (cases "p = pid"; cases "q = pid") fastforce+
  qed
qed

lemma reset_sink_ok:
  "fs_segment_bytes fs = sb \<Longrightarrow> sink_ok sb disk (reset_process_file pc disk fs)"
  by (simp add: sink_ok_def reset_process_file_def)

lemma owned_sink:
  assumes "spool_ok sb (disk, ps)" and "ps (pc_pid pc) = Some fs"
    and "fresh_producer (pc_fresh pc) disk ps"
  defines "own \<equiv> owned_by_process pc disk fs"
  shows "sink_ok sb disk own" and "fs_pid own = pc_pid pc" and "sealed_ok sb disk"
    and "max_record_bytes < sb"
    and "\<And>q g. ps q = Some g \<Longrightarrow> q \<noteq> pc_pid pc \<Longrightarrow> fs_pid g = q \<Longrightarrow> fs_producer g \<noteq> fs_producer own"
  using assms(1-3)
  by (auto simp: own_def owned_by_process_def spool_ok_def reset_sink_ok fresh_producer_def)
    (simp_all add: reset_process_file_def)

lemma append_owned: "append_record pc outs bytes disk (owned_by_process pc disk fs)
    = append_record pc outs bytes disk fs"
proof -
  have "owned_by_process pc disk (owned_by_process pc disk fs) = owned_by_process pc disk fs"
    by (simp add: owned_by_process_def reset_process_file_def)
  then show ?thesis by (simp add: append_record_def)
qed

lemma sealed_ok_removed: "sealed_ok sb disk \<Longrightarrow> sealed_ok sb (dpop k disk)"
  by (simp add: sealed_ok_def dict_simps)

lemma rejected_not_sealed: "segment_name p m ''rejected'' \<noteq> segment_name q n ''jsonl''"
  "segment_name p m ''rejected'' \<noteq> segment_name q n ''open''"
  using segment_name_eq [of p m "''rejected''" q n "''jsonl''"]
    segment_name_eq [of p m "''rejected''" q n "''open''"] by auto

lemma spool_step_ok:
  assumes "spool_step sb s s'" and "spool_ok sb s"
  shows "spool_ok sb s'"
  using assms(1)
proof cases
  case (start pc db disk fs ps)
  then have new: "fs = reset_process_file pc disk fs" "fs_segment_bytes fs = sb" "fs_path fs = None"
    "fs_pid fs = pc_pid pc" "fs_producer fs = pc_fresh pc"
    by (auto simp: new_sink_def Let_def bindr_eq_Inr reset_process_file_def)
  then have "advances sb disk fs disk fs"
    using assms(2) start(1) by (intro advances_refl) (auto simp: sink_ok_def spool_ok_def)
  with start assms(2) new show ?thesis
    using spool_ok_advance [of sb disk ps fs disk fs "pc_pid pc"] by (auto simp: fresh_producer_def)
next
  case (fork ps parent fs child disk)
  from fork(3-5) have "fs_pid fs \<noteq> child" by blast
  with assms(2) fork show ?thesis
    by (auto simp: spool_ok_def fun_upd_def split: if_splits)
next
  case (append ps pc fs disk bytes outs r disk' fs')
  note own = owned_sink [OF assms(2) [unfolded append(1)] append(3,4)]
  have "append_record pc outs bytes disk (owned_by_process pc disk fs) = (r, disk', fs')"
    using append(6) by (simp add: append_owned)
  from append_record_advances [OF this own(2,1,3) append(5) own(4)]
  show ?thesis
    unfolding append(2) using assms(2) append(1) own(2,5) by (intro spool_ok_advance) auto
next
  case (close ps pc fs disk r disk' fs')
  note own = owned_sink [OF assms(2) [unfolded close(1)] close(3,4)]
  have "advances sb disk (owned_by_process pc disk fs) disk' fs'"
  proof (cases "fs_pid fs = pc_pid pc")
    case True
    with close(5) own seal_segment_advances(1) [of disk fs r disk' fs' sb] show ?thesis
      by (simp add: close_sink_def owned_by_process_def)
  next
    case False
    with close(5) own advances_refl [OF own(1,3)] show ?thesis
      by (auto simp: close_sink_def owned_by_process_def)
  qed
  then show ?thesis
    unfolding close(2) using assms(2) close(1) own(2,5) by (intro spool_ok_advance) auto
next
  case (removed disk ps p n)
  with assms(2) show ?thesis
    by (fastforce simp: spool_ok_def sealed_ok_removed sink_ok_def dict_simps)
next
  case (quarantined disk p n c ps)
  with assms(2) show ?thesis
    by (fastforce simp: spool_ok_def sealed_ok_def sink_ok_def dict_simps rejected_not_sealed
        rejected_not_sealed [symmetric])
qed

lemma spool_steps_ok: "(spool_step sb)\<^sup>*\<^sup>* s s' \<Longrightarrow> spool_ok sb s \<Longrightarrow> spool_ok sb s'"
  by (induction rule: rtranclp_induct) (auto intro: spool_step_ok)


lemma free_segment_least:
  "n \<le> free_segment p disk n \<and> dget disk (segment_name p (free_segment p disk n) ''open'') = None \<and>
   (\<forall>m. n \<le> m \<and> m < free_segment p disk n \<longrightarrow> dget disk (segment_name p m ''open'') \<noteq> None)"
proof (induction p disk n rule: free_segment.induct)
  case (1 p disk n)
  show ?case
  proof (cases "dget disk (segment_name p n ''open'') = None")
    case True
    then have "free_segment p disk n = n" by (simp add: free_segment.simps [of p disk n])
    with True show ?thesis by auto
  next
    case False
    then have f: "free_segment p disk n = free_segment p disk (n + 1)"
      unfolding free_segment.simps [of p disk n] by (rule if_not_P)
    note ih = 1 [OF False]
    show ?thesis unfolding f
    proof (intro conjI allI impI)
      show "n \<le> free_segment p disk (n + 1)" using ih by simp
      show "dget disk (segment_name p (free_segment p disk (n + 1)) ''open'') = None" using ih by blast
      fix m
      assume m: "n \<le> m \<and> m < free_segment p disk (n + 1)"
      show "dget disk (segment_name p m ''open'') \<noteq> None"
      proof (cases "m = n")
        case False
        with m have "n + 1 \<le> m \<and> m < free_segment p disk (n + 1)" by simp
        with ih show ?thesis by blast
      qed (use False in simp)
    qed
  qed
qed

text \<open>The search for a segment number ends for every directory and returns the least
  number from the start on whose open segment does not exist: no free number is passed over.\<close>

theorem free_segment_is_least:
  "n \<le> free_segment p disk n \<and> dget disk (segment_name p (free_segment p disk n) ''open'') = None \<and>
   free_segment p disk n = (LEAST m. n \<le> m \<and> dget disk (segment_name p m ''open'') = None)"
proof -
  note least = free_segment_least [of n p disk]
  have "(LEAST m. n \<le> m \<and> dget disk (segment_name p m ''open'') = None) = free_segment p disk n"
    by (rule Least_equality) (use least in \<open>auto simp: not_le [symmetric]\<close>)
  with least show ?thesis by simp
qed

end
