(* ===== verification/Quota_Laws.thy ===== *)
theory Quota_Laws
  imports File_Sink_Laws
begin

text \<open>
  The quota of the capture directory: it holds for a process that is alone in the directory, and
  every process tests it against its own count only.
\<close>

section \<open>What a directory holds\<close>

definition weigh :: "string \<Rightarrow> string \<Rightarrow> nat" where
  "weigh name c = (if segment_identity name \<noteq> None then length c else 0)"

definition usage :: "spool \<Rightarrow> nat" where
  "usage disk = sum_list (map (\<lambda>(name, c). weigh name c) disk)"

lemma sum_list_filter: "sum_list (map f (filter P xs)) = sum_list (map (\<lambda>x. if P x then f x else (0 :: nat)) xs)"
  by (induction xs) auto

lemma usage_eq:
  assumes "dwf disk"
  shows "current_directory_size disk = usage disk"
proof -
  have "mset (segment_paths disk) = mset (filter (\<lambda>n. segment_identity n \<noteq> None) (dkeys disk))"
    by (simp add: segment_paths_def)
  then have "current_directory_size disk
      = sum_list (map (size_of disk) (filter (\<lambda>n. segment_identity n \<noteq> None) (dkeys disk)))"
    unfolding current_directory_size_def
    by (simp only: sum_mset_sum_list [symmetric] mset_map)
  also have "\<dots> = sum_list (map (\<lambda>(name, c). if segment_identity name \<noteq> None then size_of disk name else 0) disk)"
    by (simp add: sum_list_filter comp_def case_prod_unfold)
  also have "\<dots> = usage disk"
    unfolding usage_def using assms
    by (intro arg_cong [of _ _ sum_list] map_cong) (auto simp: weigh_def size_of_def)
  finally show ?thesis .
qed

lemma usage_dset: "usage (dset k v d) + (case dget d k of None \<Rightarrow> 0 | Some c \<Rightarrow> weigh k c) = usage d + weigh k v"
  by (induction d) (auto simp: usage_def)

lemma usage_dpop: "dwf d \<Longrightarrow> usage (dpop k d) + (case dget d k of None \<Rightarrow> 0 | Some c \<Rightarrow> weigh k c) = usage d"
proof (induction d)
  case (Cons kv d)
  have "dget d k = None \<Longrightarrow> dpop k d = d"
    by (simp add: delete_id map_of_eq_None_iff)
  with Cons show ?case
    by (cases kv) (auto simp: usage_def map_of_eq_None_iff delete_id)
qed (simp add: usage_def)

lemma weigh_sealed: "weigh (segment_name p n ''jsonl'') c = weigh (segment_name p n ''open'') c"
proof -
  have "segment_identity (segment_name p n ''jsonl'') \<noteq> None \<longleftrightarrow>
      segment_identity (segment_name p n ''open'') \<noteq> None"
  proof -
    have d: "drop (length segment_prefix) (segment_name p n s) = (p @ ''-'' @ zero_pad 6 n) @ CHR ''.'' # s" for s
      by (simp add: segment_name_def)
    show ?thesis
      unfolding segment_identity_def d
      by (simp add: rpartition_append [of "CHR ''.''" _ "p @ ''-'' @ zero_pad 6 n", simplified]
          segment_name_def split: option.split)
  qed
  then show ?thesis by (simp add: weigh_def)
qed

section \<open>One process\<close>

definition quota_ok :: "spool \<Rightarrow> file_sink \<Rightarrow> bool" where
  "quota_ok disk fs \<longleftrightarrow> dwf disk \<and> usage disk \<le> fs_directory_size fs"

definition grows_by :: "spool \<Rightarrow> file_sink \<Rightarrow> spool \<Rightarrow> file_sink \<Rightarrow> nat \<Rightarrow> bool" where
  "grows_by disk fs disk' fs' n \<longleftrightarrow> dwf disk' \<and> usage disk' \<le> usage disk + n \<and>
     fs_directory_bytes fs' = fs_directory_bytes fs \<and>
     usage disk' + fs_directory_size fs \<le> usage disk + fs_directory_size fs'"

lemma open_segment_within:
  assumes "open_segment disk fs = (disk', fs')" and "dwf disk"
  shows "grows_by disk fs disk' fs' 0"
proof -
  let ?p = "segment_name (fs_producer fs) (free_segment (fs_producer fs) disk (fs_segment fs)) ''open''"
  have "usage (dset ?p [] disk) = usage disk"
    using usage_dset [of ?p "[]" disk] by (simp add: free_segment_free weigh_def)
  with assms show ?thesis by (auto simp: open_segment_def Let_def grows_by_def)
qed

lemma seal_segment_within:
  assumes "seal_segment disk fs = (r, disk', fs')" and "dwf disk" and "sink_ok sb disk fs"
  shows "grows_by disk fs disk' fs' 0"
proof (cases "fs_path fs")
  case None
  with assms show ?thesis by (simp add: seal_segment_def grows_by_def)
next
  case (Some path)
  with assms(3) obtain n c where path: "path = segment_name (fs_producer fs) n ''open''"
    "dget disk path = Some c" by (auto simp: sink_ok_def)
  let ?t = "segment_name (fs_producer fs) n ''jsonl''"
  have pop: "usage (dpop path disk) + weigh path c = usage disk"
    using usage_dpop [OF assms(2), of path] path(2) by simp
  moreover have "usage (dset ?t c (dpop path disk)) = usage (dpop path disk) + weigh path c"
    if "dget disk ?t = None"
    using usage_dset [of ?t c "dpop path disk"] that path(1) by (simp add: dict_simps weigh_sealed)
  ultimately show ?thesis
    using assms(1,2) Some path
    by (cases "dget disk ?t"; cases "fs_size fs = 0")
      (auto simp: seal_segment_def Let_def sealed_name grows_by_def simp del: Some_eq_map_of_iff
        map_of_eq_Some_iff map_of_eq_None_iff)
qed

lemma room_for_within:
  assumes "room_for n disk fs = (r, disk', fs')" and "dwf disk" and "sink_ok sb disk fs"
    and "sealed_ok sb disk"
  shows "grows_by disk fs disk' fs' 0"
proof -
  obtain disk1 fs1 where o: "(if fs_path fs = None then open_segment disk fs else (disk, fs)) = (disk1, fs1)"
    by fastforce
  have w1: "grows_by disk fs disk1 fs1 0"
    using o open_segment_within [OF _ assms(2)] assms(2) by (auto simp: grows_by_def split: if_splits)
  have ok1: "sink_ok sb disk1 fs1"
  proof (cases "fs_path fs = None")
    case True
    with o have "open_segment disk fs = (disk1, fs1)" by simp
    moreover have "fs_segment_bytes fs = sb" using assms(3) by (simp add: sink_ok_def)
    ultimately show ?thesis using open_segment_advances(1) [OF _ _ assms(4)] by (simp add: advances_def)
  next
    case False
    with o assms(3) show ?thesis by simp
  qed
  show ?thesis
  proof (cases "fs_size fs1 \<noteq> 0 \<and> fs_segment_bytes fs1 < fs_size fs1 + n")
    case False
    with assms(1) o w1 show ?thesis by (auto simp: room_for_def)
  next
    case True
    obtain r2 disk2 fs2 where s: "seal_segment disk1 fs1 = (r2, disk2, fs2)"
      by (metis prod_cases3)
    have w2: "grows_by disk1 fs1 disk2 fs2 0"
      using seal_segment_within [OF s _ ok1] w1 by (simp add: grows_by_def)
    with w1 have w12: "grows_by disk fs disk2 fs2 0" by (auto simp: grows_by_def)
    show ?thesis
    proof (cases r2)
      case (Inl e)
      with assms(1) o s True w12 show ?thesis by (auto simp: room_for_def)
    next
      case (Inr u)
      with assms(1) o s True have "open_segment disk2 fs2 = (disk', fs')" by (auto simp: room_for_def)
      from open_segment_within [OF this] w12 show ?thesis by (auto simp: grows_by_def)
    qed
  qed
qed

lemma write_record_within:
  assumes "write_record outs bytes disk fs = (r, disk', fs')" and "dwf disk"
  shows "grows_by disk fs disk' fs' (length bytes)"
proof (cases "fs_path fs")
  case None
  with assms show ?thesis by (simp add: write_record_def grows_by_def)
next
  case (Some path)
  obtain k ok where w: "write_loop outs 0 (length bytes) = (k, ok)" by (cases "write_loop outs 0 (length bytes)")
  from write_loop_le [OF w] have k: "k \<le> length bytes" by simp
  let ?d = "disk_append path (take k bytes) disk"
  have app: "dwf ?d" "usage ?d \<le> usage disk + k"
  proof -
    show "dwf ?d" using assms(2) by (simp add: disk_append_def split: option.split)
    show "usage ?d \<le> usage disk + k"
    proof (cases "dget disk path")
      case (Some c)
      then show ?thesis
        using usage_dset [of path "c @ take k bytes" disk] k
        by (auto simp: disk_append_def weigh_def split: if_splits)
    qed (simp add: disk_append_def)
  qed
  moreover have "usage (dpop path ?d) \<le> usage ?d" using usage_dpop [OF app(1), of path] by linarith
  ultimately show ?thesis
    using assms Some w k by (auto simp: write_record_def Let_def grows_by_def split: if_splits)
qed

lemma check_quota_ok:
  assumes "check_quota n disk fs = (r, fs')" and "quota_ok disk fs"
  shows "quota_ok disk fs'" and "r = Inr () \<Longrightarrow> fs_directory_size fs' + n \<le> fs_directory_bytes fs'"
    and "fs_directory_bytes fs' = fs_directory_bytes fs"
  using assms by (auto simp: check_quota_def quota_ok_def Let_def usage_eq split: if_splits)

lemma append_record_quota:
  assumes "append_record pc outs bytes disk fs = (r, disk', fs')" and "fs_pid fs = pc_pid pc"
    and "quota_ok disk fs" and "sink_ok sb disk fs" and "sealed_ok sb disk"
    and "is_record bytes" and "max_record_bytes < sb"
  shows "quota_ok disk' fs'" and "fs_directory_bytes fs' = fs_directory_bytes fs"
    and "usage disk \<le> fs_directory_bytes fs \<Longrightarrow> usage disk' \<le> fs_directory_bytes fs"
proof -
  have own: "owned_by_process pc disk fs = fs" using assms(2) by (simp add: owned_by_process_def)
  obtain r1 fs1 where q: "check_quota (length bytes) disk fs = (r1, fs1)" by fastforce
  note q1 = check_quota_ok [OF q assms(3)]
  note same = check_quota_same [OF q]
  obtain r2 disk2 fs2 where rf: "room_for (length bytes) disk fs1 = (r2, disk2, fs2)"
    by (metis prod_cases3)
  have w2: "grows_by disk fs1 disk2 fs2 0"
    using room_for_within [OF rf _ _ assms(5)] same(1) [of sb] assms(4) q1(1) by (simp add: quota_ok_def)
  consider (quota) e where "r1 = Inl e" "disk' = disk" "fs' = fs1"
    | (room) "r1 = Inr ()" "disk' = disk2" "fs' = fs2"
    | (wrote) "r1 = Inr ()" "write_record outs bytes disk2 fs2 = (r, disk', fs')"
    using assms(1) own q rf by (cases r1; cases r2) (auto simp: append_record_def)
  then have "quota_ok disk' fs' \<and> fs_directory_bytes fs' = fs_directory_bytes fs \<and>
      (usage disk \<le> fs_directory_bytes fs \<longrightarrow> usage disk' \<le> fs_directory_bytes fs)"
  proof cases
    case quota
    with q1 show ?thesis by simp
  next
    case room
    with q1 w2 show ?thesis by (auto simp: grows_by_def quota_ok_def)
  next
    case wrote
    with q1 w2 write_record_within [OF wrote(2)] show ?thesis by (auto simp: grows_by_def quota_ok_def)
  qed
  then show "quota_ok disk' fs'" and "fs_directory_bytes fs' = fs_directory_bytes fs"
    and "usage disk \<le> fs_directory_bytes fs \<Longrightarrow> usage disk' \<le> fs_directory_bytes fs" by blast+
qed

text \<open>A process alone in its directory, with a shipper that removes sealed segments.\<close>

inductive alone_step :: "spool \<times> file_sink \<Rightarrow> spool \<times> file_sink \<Rightarrow> bool" where
  append: "append_record pc outs bytes disk fs = (r, disk', fs') \<Longrightarrow> fs_pid fs = pc_pid pc \<Longrightarrow>
    is_record bytes \<Longrightarrow> alone_step (disk, fs) (disk', fs')"
| removed: "alone_step (disk, fs) (dpop (segment_name p n ''jsonl'') disk, fs)"

definition alone_ok :: "nat \<Rightarrow> nat \<Rightarrow> spool \<times> file_sink \<Rightarrow> bool" where
  "alone_ok sb db s \<longleftrightarrow> quota_ok (fst s) (snd s) \<and> sink_ok sb (fst s) (snd s) \<and> sealed_ok sb (fst s) \<and>
     max_record_bytes < sb \<and> fs_directory_bytes (snd s) = db \<and> usage (fst s) \<le> db"

lemma alone_step_ok:
  assumes "alone_step s s'" and "alone_ok sb db s"
  shows "alone_ok sb db s'"
  using assms(1)
proof cases
  case (append pc outs bytes disk fs r disk' fs')
  with assms(2) append_record_quota [OF append(3,4), of sb] append_record_advances [OF append(3,4), of sb]
  show ?thesis by (simp add: alone_ok_def advances_def)
next
  case (removed disk fs p n)
  have "usage (dpop (segment_name p n ''jsonl'') disk) \<le> usage disk"
    using assms(2) removed usage_dpop [of disk "segment_name p n ''jsonl''"]
    by (simp add: alone_ok_def quota_ok_def)
  with assms(2) removed show ?thesis
    by (fastforce simp: alone_ok_def quota_ok_def sealed_ok_removed sink_ok_def dict_simps)
qed

text \<open>C35 (bounds). A process that is alone in its directory never lets the segments exceed the
directory quota, whatever is written and however its writes fail.\<close>

theorem directory_within_quota:
  assumes "alone_step\<^sup>*\<^sup>* (disk, fs) (disk', fs')" and "dwf disk"
    and "new_sink pc (Some sb) (Some db) disk = Inr fs" and "sealed_ok sb disk"
    and "current_directory_size disk \<le> db"
  shows "current_directory_size disk' \<le> db"
proof -
  from assms(2,3,5) have "alone_ok sb db (disk, fs)"
    using assms(4)
    by (auto simp: new_sink_def Let_def bindr_eq_Inr reset_process_file_def alone_ok_def quota_ok_def
        sink_ok_def usage_eq)
  with assms(1) have "alone_ok sb db (disk', fs')"
    by (induction rule: rtranclp_induct) (auto intro: alone_step_ok)
  then show ?thesis by (simp add: alone_ok_def quota_ok_def usage_eq)
qed

section \<open>Two processes\<close>

text \<open>
  Both make their sink while the directory is empty.  Each counts its own bytes, finds that they
  fit and does not look at the directory.
\<close>

lemma fresh_append:
  assumes "new_sink (\<lparr>pc_pid = p, pc_fresh = f\<rparr>) (Some sb) (Some db) [] = Inr fs"
    and "dget disk (segment_name f 0 ''open'') = None" and "length bytes \<le> db" and "length bytes \<noteq> 0"
  shows "\<exists>fs'. append_record \<lparr>pc_pid = p, pc_fresh = f\<rparr> [] bytes disk fs
    = (Inr (), dset (segment_name f 0 ''open'') bytes disk, fs')"
proof -
  have fs: "fs = \<lparr>fs_segment_bytes = sb, fs_directory_bytes = db, fs_pid = p, fs_producer = f,
      fs_segment = 0, fs_path = None, fs_size = 0, fs_directory_size = 0\<rparr>"
    using assms(1)
    by (auto simp: new_sink_def Let_def bindr_eq_Inr reset_process_file_def
        current_directory_size_def segment_paths_def)
  have free: "free_segment f disk 0 = 0" by (subst free_segment.simps) (simp add: assms(2))
  show ?thesis
    using assms(3)
    by (simp add: fs append_record_def owned_by_process_def check_quota_def room_for_def
        open_segment_def free write_record_def disk_append_def dict_simps dset_dset Let_def)
qed

text \<open>The quota of the directory is not a bound on the directory: two processes whose
sinks were made on an empty directory each write a record of more than half the quota, both are
accepted, and the segments exceed the quota.\<close>

theorem two_processes_exceed_quota:
  assumes "new_sink \<lparr>pc_pid = 1, pc_fresh = ''a''\<rparr> (Some sb) (Some db) [] = Inr fs"
    and "new_sink \<lparr>pc_pid = 2, pc_fresh = ''b''\<rparr> (Some sb) (Some db) [] = Inr gs"
    and "length r \<le> db" and "db < 2 * length r"
  shows "\<exists>disk1 disk2 fs' gs'.
    append_record \<lparr>pc_pid = 1, pc_fresh = ''a''\<rparr> [] r [] fs = (Inr (), disk1, fs') \<and>
    append_record \<lparr>pc_pid = 2, pc_fresh = ''b''\<rparr> [] r disk1 gs = (Inr (), disk2, gs') \<and>
    db < current_directory_size disk2"
proof -
  let ?a = "segment_name ''a'' 0 ''open''" and ?b = "segment_name ''b'' 0 ''open''"
  have r: "length r \<noteq> 0" using assms(4) by auto
  have ids: "segment_identity ?a \<noteq> None" "segment_identity ?b \<noteq> None"
    using segment_name_parses [of "''a''" 0 "''open''"] segment_name_parses [of "''b''" 0 "''open''"]
    by (simp_all add: is_transport_id_def is_alnum_def is_digit_def)
  obtain fs' where 1: "append_record \<lparr>pc_pid = 1, pc_fresh = ''a''\<rparr> [] r [] fs
      = (Inr (), dset ?a r [], fs')"
    using fresh_append [OF assms(1) _ assms(3) r, of "[]"] by auto
  obtain gs' where 2: "append_record \<lparr>pc_pid = 2, pc_fresh = ''b''\<rparr> [] r (dset ?a r []) gs
      = (Inr (), dset ?b r (dset ?a r []), gs')"
    using fresh_append [OF assms(2) _ assms(3) r, of "dset ?a r []"] by auto
  have "current_directory_size (dset ?b r (dset ?a r [])) = 2 * length r"
    using ids by (subst usage_eq) (auto simp: usage_def weigh_def)
  with 1 2 assms(4) show ?thesis by (intro exI conjI) auto
qed

section \<open>Witnesses\<close>

definition first_call :: process_call where
  "first_call = \<lparr>pc_pid = 1, pc_fresh = ''a''\<rparr>"

definition first_sink :: file_sink where
  "first_sink = \<lparr>fs_segment_bytes = 5000000, fs_directory_bytes = 6000000, fs_pid = 1,
     fs_producer = ''a'', fs_segment = 0, fs_path = None, fs_size = 0, fs_directory_size = 0\<rparr>"

definition short_record :: string where
  "short_record = ''x'' @ newline"

lemma first_sink_new: "new_sink first_call (Some 5000000) (Some 6000000) [] = Inr first_sink"
  by (simp add: new_sink_def first_call_def first_sink_def max_record_bytes_def reset_process_file_def
    current_directory_size_def segment_paths_def)

lemma short_record_ok: "is_record short_record"
  unfolding is_record_def short_record_def
  by (intro exI [of _ "''x''"]) (simp add: max_record_bytes_def)

lemma first_append: "\<exists>fs'. append_record first_call [] short_record [] first_sink
    = (Inr (), [(segment_name ''a'' 0 ''open'', short_record)], fs') \<and> fs_pid fs' = 1 \<and>
      fs_path fs' = Some (segment_name ''a'' 0 ''open'') \<and> fs_size fs' = 2"
proof -
  have "free_segment ''a'' [] 0 = 0" by (subst free_segment.simps) simp
  then show ?thesis
    by (simp add: first_call_def first_sink_def append_record_def owned_by_process_def check_quota_def
        room_for_def open_segment_def write_record_def disk_append_def short_record_def newline_def Let_def)
qed

theorem directory_within_quota_witness:
  "current_directory_size [(segment_name ''a'' 0 ''open'', short_record)] \<le> 6000000"
proof -
  obtain fs' where "append_record first_call [] short_record [] first_sink
      = (Inr (), [(segment_name ''a'' 0 ''open'', short_record)], fs')"
    using first_append by blast
  then have "alone_step ([], first_sink) ([(segment_name ''a'' 0 ''open'', short_record)], fs')"
    by (rule alone_step.append) (simp_all add: short_record_ok first_sink_def first_call_def)
  then have "alone_step\<^sup>*\<^sup>* ([], first_sink) ([(segment_name ''a'' 0 ''open'', short_record)], fs')" ..
  from directory_within_quota [OF this _ first_sink_new] show ?thesis
    by (simp add: sealed_ok_def current_directory_size_def segment_paths_def)
qed

theorem two_processes_exceed_quota_witness:
  "\<exists>disk1 disk2 fs' gs'.
     append_record \<lparr>pc_pid = 1, pc_fresh = ''a''\<rparr> [] (replicate 4000000 (CHR ''x'')) [] first_sink
       = (Inr (), disk1, fs') \<and>
     append_record \<lparr>pc_pid = 2, pc_fresh = ''b''\<rparr> [] (replicate 4000000 (CHR ''x'')) disk1
       (first_sink\<lparr>fs_pid := 2, fs_producer := ''b''\<rparr>) = (Inr (), disk2, gs') \<and>
     6000000 < current_directory_size disk2"
proof -
  have "new_sink \<lparr>pc_pid = 2, pc_fresh = ''b''\<rparr> (Some 5000000) (Some 6000000) []
      = Inr (first_sink\<lparr>fs_pid := 2, fs_producer := ''b''\<rparr>)"
    by (simp add: new_sink_def first_sink_def max_record_bytes_def reset_process_file_def
      current_directory_size_def segment_paths_def)
  from two_processes_exceed_quota [OF first_sink_new [unfolded first_call_def] this,
      of "replicate 4000000 (CHR ''x'')"] show ?thesis by (simp only: length_replicate)
qed


end
