(* ===== verification/Shipper.thy ===== *)
theory Shipper
  imports File_Sink Collector
begin

text \<open>
  The shipper of capture segments, \<open>verdict/shipper.py\<close>: a checkpoint of how much of each segment
  the collector has acknowledged, batches of complete lines, and a cycle that sends them, records
  the acknowledgement and removes a sealed segment once all of it is acknowledged.

  The sender, the stop event and the clock are the parameter \<open>shipper\<close>, over a state of their own.
  During a cycle the listed segments change only by the cycle itself; an \<open>OSError\<close>, which leaves
  the cycle without touching the state, is not modelled.  A checkpoint in UTF-16 or UTF-32, which
  \<open>json.loads\<close> would detect, counts as corrupt, and so does one with an integer of more than 4300
  digits, for which the source reports an invalid spool instead.
\<close>

section \<open>The checkpoint\<close>

datatype ship_error = ShippingError string bool | SpoolInvalid string

abbreviation refused :: "string \<Rightarrow> ship_error" where
  "refused code \<equiv> ShippingError code False"

definition checkpoint_schema :: string where
  "checkpoint_schema = ''verdict-shipper-state-v1''"

definition max_checkpoint_bytes :: nat where
  "max_checkpoint_bytes = 1048576"

definition max_segments :: nat where
  "max_segments = 4096"

record progress =
  pg_offset :: nat
  pg_rejected :: bool
  pg_prefix :: string

definition initial_progress :: "py_env \<Rightarrow> progress" where
  "initial_progress env = \<lparr>pg_offset = 0, pg_rejected = False, pg_prefix = pe_sha256 env []\<rparr>"

record ship_state =
  ss_segments :: "(string, progress) dict"
  ss_destination :: "string option"
  ss_receipt :: "string option"
  ss_batch :: "string option"
  ss_error :: "string option"

definition empty_state :: ship_state where
  "empty_state = \<lparr>ss_segments = [], ss_destination = None, ss_receipt = None, ss_batch = None,
     ss_error = None\<rparr>"

definition segment_key :: "string \<Rightarrow> nat \<Rightarrow> string" where
  "segment_key producer n = producer @ '':'' @ zero_pad 12 n"

definition validate_progress_key :: "string \<Rightarrow> ship_error + unit" where
  "validate_progress_key key =
     require (case rpartition (CHR '':'') key of
         None \<Rightarrow> False
       | Some (producer, sequence) \<Rightarrow>
           is_transport_id producer \<and> length sequence = 12 \<and> list_all is_digit sequence)
       (refused ''checkpoint_corrupt'')"

definition progress_of :: "py_env \<Rightarrow> string \<times> jval \<Rightarrow> ship_error + string \<times> progress" where
  "progress_of env kv =
     (case snd kv of
        JDict d \<Rightarrow>
          if set (dkeys d) \<noteq> {''offset'', ''rejected'', ''prefixSha256''}
          then Inl (refused ''checkpoint_corrupt'')
          else bindr (validate_progress_key (fst kv)) (\<lambda>_.
            case (field d ''offset'', field d ''rejected'', field d ''prefixSha256'') of
              (JInt offset, JBool rejected, JStr prefix_sha256) \<Rightarrow>
                bindr (require (0 \<le> offset \<and> offset \<le> 2 ^ 63 - 1 \<and> is_digest prefix_sha256 \<and>
                    \<not> (offset = 0 \<and> prefix_sha256 \<noteq> pe_sha256 env []))
                  (refused ''checkpoint_corrupt'')) (\<lambda>_.
                Inr (fst kv, \<lparr>pg_offset = nat offset, pg_rejected = rejected,
                              pg_prefix = prefix_sha256\<rparr>))
            | _ \<Rightarrow> Inl (refused ''checkpoint_corrupt''))
      | _ \<Rightarrow> Inl (refused ''checkpoint_corrupt''))"

definition opt_check :: "(string \<Rightarrow> bool) \<Rightarrow> jval \<Rightarrow> ship_error + string option" where
  "opt_check ok v =
     (case v of
        JNull \<Rightarrow> Inr None
      | JStr s \<Rightarrow> if ok s then Inr (Some s) else Inl (refused ''checkpoint_corrupt'')
      | _ \<Rightarrow> Inl (refused ''checkpoint_corrupt''))"

text \<open>\<open>len\<close> counts code points.\<close>

definition text_length :: "string \<Rightarrow> nat" where
  "text_length s = length (filter (\<lambda>c. \<not> is_cont c) s)"

definition read_state :: "py_env \<Rightarrow> (string, jval) dict \<Rightarrow> ship_error + ship_state" where
  "read_state env p =
     (if set (dkeys p) \<noteq> {''schema'', ''segments'', ''destinationFingerprint'', ''lastReceiptAt'',
           ''lastBatchId'', ''lastError''} \<or> field p ''schema'' \<noteq> JStr checkpoint_schema
      then Inl (refused ''checkpoint_corrupt'')
      else case field p ''segments'' of
          JDict raw \<Rightarrow>
            if max_segments < length raw then Inl (refused ''checkpoint_corrupt'')
            else bindr (traverse (progress_of env) raw) (\<lambda>segments.
              bindr (opt_check is_transport_id (field p ''lastBatchId'')) (\<lambda>batch.
              bindr (opt_check (\<lambda>s. pe_iso_parse env s \<noteq> None) (field p ''lastReceiptAt'')) (\<lambda>receipt.
              bindr (opt_check (\<lambda>s. text_length s \<le> 128) (field p ''lastError'')) (\<lambda>err.
              bindr (opt_check is_digest (field p ''destinationFingerprint'')) (\<lambda>destination.
              Inr \<lparr>ss_segments = segments, ss_destination = destination, ss_receipt = receipt,
                   ss_batch = batch, ss_error = err\<rparr>)))))
        | _ \<Rightarrow> Inl (refused ''checkpoint_corrupt''))"

definition load_state :: "py_env \<Rightarrow> string option \<Rightarrow> ship_error + ship_state" where
  "load_state env file =
     (case file of
        None \<Rightarrow> Inr empty_state
      | Some raw \<Rightarrow>
          if raw = [] \<or> max_checkpoint_bytes < length raw then Inl (refused ''checkpoint_corrupt'')
          else (case json_loads (pe_float env) raw of
              Some (JDict p) \<Rightarrow> read_state env p
            | _ \<Rightarrow> Inl (refused ''checkpoint_corrupt'')))"

definition progress_json :: "progress \<Rightarrow> jval" where
  "progress_json pg = JDict
     [(''offset'', JInt (int (pg_offset pg))), (''rejected'', JBool (pg_rejected pg)),
      (''prefixSha256'', JStr (pg_prefix pg))]"

definition state_json :: "ship_state \<Rightarrow> jval" where
  "state_json s = JDict
     [(''schema'', JStr checkpoint_schema),
      (''destinationFingerprint'', opt_json JStr (ss_destination s)),
      (''segments'', JDict (map (map_prod id progress_json) (sort_key fst (ss_segments s)))),
      (''lastReceiptAt'', opt_json JStr (ss_receipt s)),
      (''lastBatchId'', opt_json JStr (ss_batch s)),
      (''lastError'', opt_json JStr (ss_error s))]"

definition state_bytes :: "ship_state \<Rightarrow> ship_error + string" where
  "state_bytes s =
     (let encoded = json_dumps True (state_json s) in
      if max_checkpoint_bytes < length encoded then Inl (refused ''checkpoint_too_large'')
      else Inr encoded)"

section \<open>Batches\<close>

record chunk =
  ck_lines :: "string list"
  ck_end :: nat
  ck_incomplete :: bool

definition ck_body :: "chunk \<Rightarrow> string" where
  "ck_body c = unlines (ck_lines c)"

definition ck_digests :: "py_env \<Rightarrow> chunk \<Rightarrow> string list" where
  "ck_digests env c = map (pe_sha256 env) (ck_lines c)"

text \<open>
  The lines of the next batch, at most \<open>n\<close>, given the bytes already taken, and whether the file
  ends in the middle of a record.
\<close>

fun read_records :: "nat \<Rightarrow> nat \<Rightarrow> string \<Rightarrow> ship_error + string list \<times> bool" where
  "read_records 0 taken rest = Inr ([], False)"
| "read_records (Suc n) taken rest =
     (let line = takeWhile (\<lambda>c. c \<noteq> CHR 0x0A) rest; k = length line in
      if rest = [] then Inr ([], False)
      else if length rest \<le> k then
        (if max_record_bytes + 1 < k then Inl (refused ''segment_record_too_large'')
         else Inr ([], True))
      else if max_record_bytes < k then Inl (refused ''segment_record_too_large'')
      else if taken \<noteq> 0 \<and> max_batch_bytes < taken + (k + 1) then Inr ([], False)
      else bindr (read_records n (taken + (k + 1)) (drop (k + 1) rest)) (\<lambda>(ls, incomplete).
        Inr (line # ls, incomplete)))"

definition read_chunk :: "string \<Rightarrow> nat \<Rightarrow> ship_error + chunk" where
  "read_chunk content offset =
     (if length content < offset then Inl (refused ''segment_changed'')
      else if offset \<noteq> 0 \<and> content ! (offset - 1) \<noteq> CHR 0x0A
      then Inl (refused ''checkpoint_misaligned'')
      else bindr (read_records max_ack_results 0 (drop offset content)) (\<lambda>(ls, incomplete).
        Inr \<lparr>ck_lines = ls, ck_end = offset + length (unlines ls), ck_incomplete = incomplete\<rparr>))"

definition check_prefix :: "py_env \<Rightarrow> string \<Rightarrow> progress \<Rightarrow> ship_error + unit" where
  "check_prefix env content pg =
     require (pg_offset pg \<le> length content \<and>
         pe_sha256 env (take (pg_offset pg) content) = pg_prefix pg)
       (refused ''segment_changed'')"

definition make_batch_id ::
  "py_env \<Rightarrow> string \<Rightarrow> nat \<Rightarrow> nat \<Rightarrow> nat \<Rightarrow> string \<Rightarrow> ship_error + string" where
  "make_batch_id env producer sequence start_at stop_at body =
     (let value = ''ship.'' @ take 16 (pe_sha256 env producer) @ ''.'' @ dec_of_nat sequence @ ''.''
        @ dec_of_nat start_at @ ''.'' @ dec_of_nat stop_at @ ''.'' @ take 24 (pe_sha256 env body)
      in if is_transport_id value then Inr value
         else Inl (SpoolInvalid ''batch_id must be a bounded ASCII identifier''))"

section \<open>Sending\<close>

record 'w shipper =
  sh_env :: py_env
  sh_max_attempts :: nat
  sh_max_batches :: nat
  sh_destination :: string
  sh_send :: "string \<Rightarrow> string \<Rightarrow> string \<Rightarrow> 'w \<Rightarrow> (ship_error + string) \<times> 'w"
  sh_wait :: "nat \<Rightarrow> 'w \<Rightarrow> bool \<times> 'w"
  sh_stopped :: "'w \<Rightarrow> bool"
  sh_now :: "'w \<Rightarrow> string"

definition retryable :: "ship_error \<Rightarrow> bool" where
  "retryable e = (case e of ShippingError code again \<Rightarrow> again | SpoolInvalid _ \<Rightarrow> False)"

text \<open>The first argument counts the attempts that are left.\<close>

fun send_loop ::
  "nat \<Rightarrow> 'w shipper \<Rightarrow> string \<Rightarrow> string \<Rightarrow> string \<Rightarrow> 'w \<Rightarrow> (ship_error + string) \<times> 'w" where
  "send_loop 0 sh batch_id producer body w = (Inl (SpoolInvalid ''no attempt''), w)"
| "send_loop (Suc n) sh batch_id producer body w =
     (case sh_send sh batch_id producer body w of
        (Inr response, w') \<Rightarrow> (Inr response, w')
      | (Inl e, w') \<Rightarrow>
          if \<not> retryable e \<or> n = 0 then (Inl e, w')
          else (case sh_wait sh (min (2 ^ (sh_max_attempts sh - Suc n)) 8) w' of
              (True, w'') \<Rightarrow> (Inl e, w'')
            | (False, w'') \<Rightarrow> send_loop n sh batch_id producer body w''))"

text \<open>The answer must parse and be about the lines that were sent.\<close>

definition ack_digests :: "(string, jval) dict \<Rightarrow> string list" where
  "ack_digests p =
     (case field p ''results'' of
        JList rs \<Rightarrow> map (\<lambda>r. case r of
            JDict d \<Rightarrow> (case field d ''recordDigest'' of JStr s \<Rightarrow> s | _ \<Rightarrow> []) | _ \<Rightarrow> []) rs
      | _ \<Rightarrow> [])"

definition ack_count :: "(string, jval) dict \<Rightarrow> string \<Rightarrow> int" where
  "ack_count p name = (case field p name of JInt n \<Rightarrow> n | _ \<Rightarrow> 0)"

definition check_answer ::
  "py_env \<Rightarrow> string \<Rightarrow> string \<Rightarrow> chunk \<Rightarrow> ship_error + (string, jval) dict" where
  "check_answer env response batch_id c =
     (case parse_acknowledgement env response batch_id of
        Inl _ \<Rightarrow> Inl (refused ''collector_invalid_acknowledgement'')
      | Inr p \<Rightarrow>
          if ack_digests p \<noteq> ck_digests env c then Inl (refused ''collector_digest_mismatch'')
          else Inr p)"

section \<open>One cycle\<close>

record 'w cycle =
  cy_disk :: spool
  cy_checkpoint :: "string option"
  cy_state :: ship_state
  cy_batches :: nat
  cy_accepted :: int
  cy_rejected :: int
  cy_deleted :: nat
  cy_quarantined :: nat
  cy_world :: 'w

definition save_state :: "'w cycle \<Rightarrow> (ship_error + unit) \<times> 'w cycle" where
  "save_state cy =
     (case state_bytes (cy_state cy) of
        Inl e \<Rightarrow> (Inl e, cy)
      | Inr bytes \<Rightarrow> (Inr (), cy\<lparr>cy_checkpoint := Some bytes\<rparr>))"

definition set_progress :: "string \<Rightarrow> progress \<Rightarrow> ship_state \<Rightarrow> ship_state" where
  "set_progress key pg s = s\<lparr>ss_segments := dset key pg (ss_segments s)\<rparr>"

definition ensure_destination ::
  "'w shipper \<Rightarrow> 'w cycle \<Rightarrow> (ship_error + unit) \<times> 'w cycle" where
  "ensure_destination sh cy =
     (if ss_destination (cy_state cy) = None
      then save_state (cy\<lparr>cy_state := (cy_state cy)\<lparr>ss_destination := Some (sh_destination sh)\<rparr>\<rparr>)
      else (Inr (), cy))"

text \<open>What an accepted answer changes: the counts, the last receipt and the progress.\<close>

definition acknowledged ::
  "'w shipper \<Rightarrow> string \<Rightarrow> string \<Rightarrow> string \<Rightarrow> chunk \<Rightarrow> progress \<Rightarrow> (string, jval) dict
     \<Rightarrow> 'w cycle \<Rightarrow> progress \<times> 'w cycle" where
  "acknowledged sh key batch_id content c pg p cy =
     (let pg' = \<lparr>pg_offset = ck_end c, pg_rejected = pg_rejected pg \<or> 0 < ack_count p ''rejected'',
                 pg_prefix = pe_sha256 (sh_env sh) (take (pg_offset pg) content @ ck_body c)\<rparr>
      in (pg', cy\<lparr>cy_accepted := cy_accepted cy + ack_count p ''accepted'',
            cy_rejected := cy_rejected cy + ack_count p ''rejected'',
            cy_state := set_progress key pg' ((cy_state cy)\<lparr>ss_batch := Some batch_id,
              ss_receipt := Some (sh_now sh (cy_world cy)), ss_error := None\<rparr>)\<rparr>))"

text \<open>One batch of a segment; \<open>None\<close> when nothing complete is left to send.\<close>

definition ship_batch ::
  "'w shipper \<Rightarrow> string \<Rightarrow> nat \<Rightarrow> string \<Rightarrow> progress \<Rightarrow> 'w cycle
     \<Rightarrow> (ship_error + progress option) \<times> 'w cycle" where
  "ship_batch sh producer sequence content pg cy =
     (case read_chunk content (pg_offset pg) of
        Inl e \<Rightarrow> (Inl e, cy)
      | Inr c \<Rightarrow>
          if ck_body c = [] then (Inr None, cy)
          else (case make_batch_id (sh_env sh) producer sequence (pg_offset pg) (ck_end c) (ck_body c) of
              Inl e \<Rightarrow> (Inl e, cy)
            | Inr batch_id \<Rightarrow>
                (case ensure_destination sh cy of
                   (Inl e, cy1) \<Rightarrow> (Inl e, cy1)
                 | (Inr _, cy1) \<Rightarrow>
                     (case send_loop (sh_max_attempts sh) sh batch_id producer (ck_body c) (cy_world cy1) of
                        (Inl e, w) \<Rightarrow> (Inl e, cy1\<lparr>cy_world := w\<rparr>)
                      | (Inr response, w) \<Rightarrow>
                          (case check_answer (sh_env sh) response batch_id c of
                             Inl e \<Rightarrow> (Inl e, cy1\<lparr>cy_world := w\<rparr>)
                           | Inr p \<Rightarrow>
                               (let (pg', cy2) = acknowledged sh (segment_key producer sequence) batch_id
                                      content c pg p (cy1\<lparr>cy_world := w\<rparr>)
                                in case save_state cy2 of
                                     (Inl e, cy3) \<Rightarrow> (Inl e, cy3)
                                   | (Inr _, cy3) \<Rightarrow>
                                       (Inr (Some pg'), cy3\<lparr>cy_batches := cy_batches cy3 + 1\<rparr>)))))))"

text \<open>The batches of a segment; \<open>n\<close> is how many the cycle may still send.\<close>

fun ship_batches ::
  "nat \<Rightarrow> 'w shipper \<Rightarrow> string \<Rightarrow> nat \<Rightarrow> string \<Rightarrow> progress \<Rightarrow> 'w cycle
     \<Rightarrow> (ship_error + progress) \<times> 'w cycle" where
  "ship_batches 0 sh producer sequence content pg cy = (Inr pg, cy)"
| "ship_batches (Suc n) sh producer sequence content pg cy =
     (if sh_stopped sh (cy_world cy) then (Inr pg, cy)
      else case ship_batch sh producer sequence content pg cy of
          (Inl e, cy') \<Rightarrow> (Inl e, cy')
        | (Inr None, cy') \<Rightarrow> (Inr pg, cy')
        | (Inr (Some pg'), cy') \<Rightarrow> ship_batches n sh producer sequence content pg' cy')"

definition pop_segment :: "string \<Rightarrow> 'w cycle \<Rightarrow> 'w cycle" where
  "pop_segment key cy = cy\<lparr>cy_state := (cy_state cy)\<lparr>ss_segments := dpop key (ss_segments (cy_state cy))\<rparr>\<rparr>"

text \<open>A sealed segment whose every byte is acknowledged leaves the spool or is put aside.\<close>

definition finish_segment ::
  "string \<Rightarrow> string \<Rightarrow> string \<Rightarrow> progress \<Rightarrow> 'w cycle \<Rightarrow> (ship_error + unit) \<times> 'w cycle" where
  "finish_segment path key content pg cy =
     (case read_chunk content (pg_offset pg) of
        Inl e \<Rightarrow> (Inl e, cy)
      | Inr c \<Rightarrow>
          if \<not> (ck_body c = [] \<and> \<not> ck_incomplete c \<and> pg_offset pg = length content) then (Inr (), cy)
          else if pg_rejected pg
            then (let target = with_suffix path ''.rejected'' in
              if dget (cy_disk cy) target \<noteq> None
              then (Inl (refused ''segment_identity_conflict''), cy)
              else save_state (pop_segment key (cy\<lparr>cy_disk := dset target content (dpop path (cy_disk cy)),
                     cy_quarantined := cy_quarantined cy + 1\<rparr>)))
            else save_state (pop_segment key (cy\<lparr>cy_disk := dpop path (cy_disk cy),
                   cy_deleted := cy_deleted cy + 1\<rparr>)))"

definition ship_segment ::
  "'w shipper \<Rightarrow> string \<Rightarrow> 'w cycle \<Rightarrow> (ship_error + unit) \<times> 'w cycle" where
  "ship_segment sh path cy =
     (case (segment_identity path, dget (cy_disk cy) path) of
        (Some (producer, sequence, lifecycle), Some content) \<Rightarrow>
          if lifecycle = ''rejected'' then (Inr (), cy)
          else (let key = segment_key producer sequence;
                    pg = (case dget (ss_segments (cy_state cy)) key of
                        None \<Rightarrow> initial_progress (sh_env sh) | Some pg \<Rightarrow> pg)
                in case check_prefix (sh_env sh) content pg of
                     Inl e \<Rightarrow> (Inl e, cy)
                   | Inr _ \<Rightarrow>
                       (case ship_batches (sh_max_batches sh - cy_batches cy) sh producer sequence
                            content pg cy of
                          (Inl e, cy') \<Rightarrow> (Inl e, cy')
                        | (Inr pg', cy') \<Rightarrow>
                            if lifecycle = ''jsonl'' then finish_segment path key content pg' cy'
                            else (Inr (), cy')))
      | _ \<Rightarrow> (Inr (), cy))"

fun ship_segments ::
  "'w shipper \<Rightarrow> string list \<Rightarrow> 'w cycle \<Rightarrow> (ship_error + unit) \<times> 'w cycle" where
  "ship_segments sh [] cy = (Inr (), cy)"
| "ship_segments sh (path # paths) cy =
     (case ship_segment sh path cy of
        (Inl e, cy') \<Rightarrow> (Inl e, cy')
      | (Inr _, cy') \<Rightarrow>
          if (case segment_identity path of Some (_, _, s) \<Rightarrow> s \<noteq> ''rejected'' | None \<Rightarrow> False) \<and>
             sh_max_batches sh \<le> cy_batches cy'
          then (Inr (), cy') else ship_segments sh paths cy')"

definition visible_keys :: "string list \<Rightarrow> string list" where
  "visible_keys paths = List.map_filter (\<lambda>path.
     case segment_identity path of
       Some (producer, sequence, lifecycle) \<Rightarrow>
         if lifecycle = ''rejected'' then None else Some (segment_key producer sequence)
     | None \<Rightarrow> None) paths"

definition cycle_body :: "'w shipper \<Rightarrow> 'w cycle \<Rightarrow> (ship_error + unit) \<times> 'w cycle" where
  "cycle_body sh cy =
     (let paths = segment_paths (cy_disk cy); keys = visible_keys paths; state = cy_state cy in
      if ss_destination state \<noteq> None \<and> ss_destination state \<noteq> Some (sh_destination sh)
      then (Inl (refused ''collector_destination_changed''), cy)
      else if max_segments < length paths
      then (Inl (SpoolInvalid ''agent capture directory contains too many segments''), cy)
      else if \<not> distinct keys then (Inl (refused ''segment_identity_conflict''), cy)
      else (case ship_segments sh paths (cy\<lparr>cy_state := state\<lparr>ss_segments :=
                 filter (\<lambda>(k, _). k \<in> set keys) (ss_segments state)\<rparr>\<rparr>) of
          (Inl e, cy') \<Rightarrow> (Inl e, cy')
        | (Inr _, cy') \<Rightarrow> save_state (cy'\<lparr>cy_state := (cy_state cy')\<lparr>ss_error := None\<rparr>\<rparr>)))"

text \<open>A shipping error is noted in the checkpoint before it is raised again.\<close>

definition ship_cycle ::
  "'w shipper \<Rightarrow> spool \<Rightarrow> string option \<Rightarrow> 'w
     \<Rightarrow> (ship_error + unit) \<times> spool \<times> string option \<times> 'w \<times> 'w cycle option" where
  "ship_cycle sh disk checkpoint w =
     (case load_state (sh_env sh) checkpoint of
        Inl e \<Rightarrow> (Inl e, disk, checkpoint, w, None)
      | Inr state \<Rightarrow>
          (let (result, cy) = cycle_body sh \<lparr>cy_disk = disk, cy_checkpoint = checkpoint,
                 cy_state = state, cy_batches = 0, cy_accepted = 0, cy_rejected = 0,
                 cy_deleted = 0, cy_quarantined = 0, cy_world = w\<rparr>;
               (final, cy') = (case result of
                   Inl (ShippingError code again) \<Rightarrow>
                     (case save_state (cy\<lparr>cy_state := (cy_state cy)\<lparr>ss_error := Some code\<rparr>\<rparr>) of
                        (Inl e, cy1) \<Rightarrow> (Inl e, cy1)
                      | (Inr _, cy1) \<Rightarrow> (Inl (ShippingError code again), cy1))
                 | _ \<Rightarrow> (result, cy))
           in (final, cy_disk cy', cy_checkpoint cy', cy_world cy', Some cy')))"

definition wrap_spool_error :: "ship_error \<Rightarrow> ship_error" where
  "wrap_spool_error e = (case e of SpoolInvalid _ \<Rightarrow> refused ''spool_invalid'' | _ \<Rightarrow> e)"


text \<open>
  The delivery health the shipper reports: \<open>_shipping_summary\<close> and \<open>read_shipping_status\<close> of
  \<open>verdict/shipper.py\<close>.  The modification times of the files are the parameter \<open>mtime\<close>.
\<close>

record shipping_summary =
  sm_accepted_records :: int
  sm_rejected_records :: int
  sm_deleted_segments :: nat
  sm_quarantined_segments :: nat
  sm_open_segments :: nat
  sm_sealed_segments :: nat
  sm_rejected_segments :: nat
  sm_backlog_bytes :: nat
  sm_pending_bytes :: nat
  sm_incomplete_segments :: nat
  sm_last_append_at :: "int option"
  sm_last_receipt_at :: "string option"
  sm_last_error :: "string option"

definition no_segments :: "ship_state \<Rightarrow> int \<Rightarrow> int \<Rightarrow> nat \<Rightarrow> nat \<Rightarrow> shipping_summary" where
  "no_segments s good bad deleted quarantined =
     \<lparr>sm_accepted_records = good, sm_rejected_records = bad, sm_deleted_segments = deleted,
      sm_quarantined_segments = quarantined, sm_open_segments = 0, sm_sealed_segments = 0,
      sm_rejected_segments = 0, sm_backlog_bytes = 0, sm_pending_bytes = 0,
      sm_incomplete_segments = 0, sm_last_append_at = None,
      sm_last_receipt_at = ss_receipt s, sm_last_error = ss_error s\<rparr>"

definition incomplete_tail :: "string \<Rightarrow> bool" where
  "incomplete_tail content \<longleftrightarrow> content \<noteq> [] \<and> last content \<noteq> CHR 0x0A"

definition later_append :: "int option \<Rightarrow> int \<Rightarrow> int option" where
  "later_append last_append modified =
     (case last_append of
        None \<Rightarrow> Some modified
      | Some t \<Rightarrow> if t < modified then Some modified else last_append)"

definition summarize_segment ::
  "py_env \<Rightarrow> ship_state \<Rightarrow> (string \<Rightarrow> int) \<Rightarrow> spool \<Rightarrow> string \<Rightarrow> shipping_summary
     \<Rightarrow> ship_error + shipping_summary" where
  "summarize_segment env s mtime disk path sm =
     (case (segment_identity path, dget disk path) of
        (Some (producer, n, lifecycle), Some content) \<Rightarrow>
          if lifecycle = ''rejected''
          then Inr (sm\<lparr>sm_rejected_segments := sm_rejected_segments sm + 1\<rparr>)
          else
            (let pg = (case dget (ss_segments s) (segment_key producer n) of
                   None \<Rightarrow> initial_progress env | Some pg \<Rightarrow> pg)
             in if length content < pg_offset pg then Inl (refused ''segment_changed'')
                else Inr (sm\<lparr>
                  sm_open_segments := sm_open_segments sm + (if lifecycle = ''open'' then 1 else 0),
                  sm_sealed_segments := sm_sealed_segments sm + (if lifecycle = ''jsonl'' then 1 else 0),
                  sm_rejected_segments := sm_rejected_segments sm + (if pg_rejected pg then 1 else 0),
                  sm_backlog_bytes := sm_backlog_bytes sm + length content,
                  sm_pending_bytes := sm_pending_bytes sm + (length content - pg_offset pg),
                  sm_incomplete_segments := sm_incomplete_segments sm
                    + (if incomplete_tail content then 1 else 0),
                  sm_last_append_at := later_append (sm_last_append_at sm) (mtime path)\<rparr>))
      | _ \<Rightarrow> Inr sm)"

definition shipping_summary ::
  "py_env \<Rightarrow> (string \<Rightarrow> int) \<Rightarrow> spool \<Rightarrow> ship_state \<Rightarrow> int \<Rightarrow> int \<Rightarrow> nat \<Rightarrow> nat
     \<Rightarrow> ship_error + shipping_summary" where
  "shipping_summary env mtime disk s good bad deleted quarantined =
     (if max_segments < length (segment_paths disk)
      then Inl (SpoolInvalid ''agent capture directory contains too many segments'')
      else foldr_res (summarize_segment env s mtime disk) (segment_paths disk)
             (no_segments s good bad deleted quarantined))"

definition read_shipping_status ::
  "py_env \<Rightarrow> (string \<Rightarrow> int) \<Rightarrow> spool \<Rightarrow> string option \<Rightarrow> ship_error + shipping_summary" where
  "read_shipping_status env mtime disk checkpoint =
     (case bindr (load_state env checkpoint) (\<lambda>s. shipping_summary env mtime disk s 0 0 0 0) of
        Inl e \<Rightarrow> Inl (wrap_spool_error e)
      | Inr sm \<Rightarrow> Inr sm)"

text \<open>\<open>ship_once\<close>, while the directory lock is held: a cycle and its summary.\<close>

definition ship_once ::
  "'w shipper \<Rightarrow> (string \<Rightarrow> int) \<Rightarrow> spool \<Rightarrow> string option \<Rightarrow> 'w
     \<Rightarrow> (ship_error + shipping_summary) \<times> spool \<times> string option \<times> 'w" where
  "ship_once sh mtime disk checkpoint w =
     (case ship_cycle sh disk checkpoint w of
        (Inl e, disk', checkpoint', w', _) \<Rightarrow> (Inl (wrap_spool_error e), disk', checkpoint', w')
      | (Inr _, disk', checkpoint', w', None) \<Rightarrow> (Inl (SpoolInvalid []), disk', checkpoint', w')
      | (Inr _, disk', checkpoint', w', Some cy) \<Rightarrow>
          ((case shipping_summary (sh_env sh) mtime disk' (cy_state cy) (cy_accepted cy)
                   (cy_rejected cy) (cy_deleted cy) (cy_quarantined cy) of
              Inl e \<Rightarrow> Inl (wrap_spool_error e) | Inr sm \<Rightarrow> Inr sm),
           disk', checkpoint', w'))"

end
