(* ===== verification/Collector_Client.thy ===== *)
theory Collector_Client
  imports Shipper
begin

text \<open>
  \<open>HttpCollectorClient.send\<close> of \<open>verdict/shipper.py\<close>, and the collector at the other end of it.
  What the network does to each request is the list \<open>wr_script\<close>: the request or its answer may be
  lost, the collector's database may refuse a transaction, its deadline may pass.  The requests of
  others are not part of the script.  \<open>wr_past\<close> is a history of the steps of the evidence, for the
  statements only.
\<close>

section \<open>The client\<close>

datatype http_outcome = HttpAnswer nat string | HttpFailure nat | Unreachable

definition http_error :: "nat \<Rightarrow> bool \<Rightarrow> ship_error" where
  "http_error code again = ShippingError (''collector_http_'' @ dec_of_nat code) again"

definition client_result :: "http_outcome \<Rightarrow> ship_error + string" where
  "client_result out =
     (case out of
        HttpFailure code \<Rightarrow> Inl (http_error code (code \<in> {408, 425, 429} \<or> 500 \<le> code))
      | Unreachable \<Rightarrow> Inl (ShippingError ''collector_unavailable'' True)
      | HttpAnswer code payload \<Rightarrow>
          if code \<noteq> 200
          then Inl (http_error code (code \<in> {202, 408, 425, 429} \<or> 500 \<le> code))
          else if max_ack_bytes < length payload
          then Inl (refused ''collector_invalid_response'')
          else Inr payload)"

text \<open>\<open>urllib\<close> adds the length of the body, and headers the collector does not read.\<close>

definition client_headers :: "string \<Rightarrow> string \<Rightarrow> string \<Rightarrow> string \<Rightarrow> (string \<times> string) list" where
  "client_headers api_key batch_id producer body =
     [(''Content-Length'', dec_of_nat (length body)),
      (''Authorization'', ''Bearer '' @ api_key),
      (''Content-Type'', ''application/x-ndjson; charset=utf-8''),
      (''X-Verdict-Batch-ID'', batch_id),
      (''X-Verdict-Producer-ID'', producer)]"

section \<open>The wire\<close>

datatype loss = NoLoss | RequestLost | AnswerLost

record delivery =
  dl_loss :: loss
  dl_late :: "nat \<Rightarrow> bool"
  dl_fault :: receipt_fault
  dl_before :: nat
  dl_between :: nat

record wire =
  wr_now :: int
  wr_gate :: admission_gate
  wr_table :: receipt_table
  wr_store :: evidence_store
  wr_past :: "(evidence_store \<times> evidence_store) list"
  wr_script :: "delivery list"

definition http_outcome :: "http_response \<Rightarrow> http_outcome" where
  "http_outcome r =
     (case r of
        JsonError code status again \<Rightarrow> HttpFailure status
      | Answer s \<Rightarrow> HttpAnswer 200 s
      | PendingAnswer s \<Rightarrow> HttpAnswer 202 s)"

definition http_send ::
  "collector \<Rightarrow> string \<Rightarrow> string \<Rightarrow> string \<Rightarrow> string \<Rightarrow> string \<Rightarrow> wire \<Rightarrow> (ship_error + string) \<times> wire" where
  "http_send co secret_digest api_key batch_id producer body w =
     (case wr_script w of
        [] \<Rightarrow> (client_result Unreachable, w)
      | dl # script \<Rightarrow>
          if dl_loss dl = RequestLost then (client_result Unreachable, w\<lparr>wr_script := script\<rparr>)
          else
            (let t0 = wr_now w + int (dl_before dl);
                 t1 = t0 + int (dl_between dl);
                 (response, gate, table, st) = handle_ingest co secret_digest (dl_late dl)
                   (client_headers api_key batch_id producer body) [body] (t0, t1) (dl_fault dl)
                   (wr_gate w) (wr_table w) (wr_store w);
                 w' = w\<lparr>wr_now := t1, wr_gate := gate, wr_table := table, wr_store := st,
                        wr_past := wr_past w @ [(wr_store w, st)], wr_script := script\<rparr>
             in (client_result (if dl_loss dl = AnswerLost then Unreachable else http_outcome response),
                 w')))"

text \<open>A shipper that delivers to the collector and is asked to stop at the times of \<open>stop\<close>.\<close>

definition collector_shipper ::
  "collector \<Rightarrow> string \<Rightarrow> string \<Rightarrow> string \<Rightarrow> nat \<Rightarrow> nat \<Rightarrow> (int \<Rightarrow> bool) \<Rightarrow> wire shipper" where
  "collector_shipper co secret_digest api_key url max_attempts max_batches stop =
     \<lparr>sh_env = dc_env (co_decoder co), sh_max_attempts = max_attempts, sh_max_batches = max_batches,
      sh_destination = pe_sha256 (dc_env (co_decoder co)) url,
      sh_send = http_send co secret_digest api_key,
      sh_wait = (\<lambda>seconds w. let t = wr_now w + int seconds * 1000000 in (stop t, w\<lparr>wr_now := t\<rparr>)),
      sh_stopped = (\<lambda>w. stop (wr_now w)),
      sh_now = (\<lambda>w. pe_iso (dc_env (co_decoder co)) (wr_now w))\<rparr>"

end
