(* ===== verification/Shipper_Codec.thy ===== *)
theory Shipper_Codec
  imports Shipper Acknowledgement_Laws
begin

text \<open>
  The checkpoint of the shipper is read back as it was written, and the identifier of every batch
  is one that the collector accepts.
\<close>

section \<open>Well-formed states\<close>

definition progress_ok :: "py_env \<Rightarrow> string \<Rightarrow> progress \<Rightarrow> bool" where
  "progress_ok env key pg \<longleftrightarrow>
     validate_progress_key key = Inr () \<and> pg_offset pg \<le> 2 ^ 63 - 1 \<and> is_digest (pg_prefix pg) \<and>
     (pg_offset pg = 0 \<longrightarrow> pg_prefix pg = pe_sha256 env [])"

definition state_ok :: "py_env \<Rightarrow> ship_state \<Rightarrow> bool" where
  "state_ok env s \<longleftrightarrow>
     dwf (ss_segments s) \<and> length (ss_segments s) \<le> max_segments \<and>
     list_all (\<lambda>(key, pg). progress_ok env key pg) (ss_segments s) \<and>
     pred_option is_digest (ss_destination s) \<and>
     pred_option (\<lambda>t. is_ascii t \<and> pe_iso_parse env t \<noteq> None) (ss_receipt s) \<and>
     pred_option is_transport_id (ss_batch s) \<and>
     pred_option (\<lambda>e. is_ascii e \<and> length e \<le> 128) (ss_error s)"

lemma empty_state_ok [simp]: "state_ok env empty_state"
  by (simp add: state_ok_def empty_state_def)

lemma text_length_le: "text_length s \<le> length s"
  by (simp add: text_length_def)

lemma progress_key_ascii:
  assumes "validate_progress_key key = Inr ()"
  shows "is_ascii key"
proof -
  obtain producer sequence where "rpartition (CHR '':'') key = Some (producer, sequence)"
    and p: "is_transport_id producer" and q: "list_all is_digit sequence"
    using assms by (auto simp: validate_progress_key_def split: option.splits)
  from rpartition_eq [OF this(1)] have "key = producer @ CHR '':'' # sequence" by simp
  then show ?thesis
    using plain_ascii [OF plain_transport_id [OF p]] is_ascii_digits [OF q] by (simp add: is_ascii_def)
qed

lemma segment_key_valid:
  assumes "is_transport_id producer" and "n < 10 ^ 12"
  shows "validate_progress_key (segment_key producer n) = Inr ()"
proof -
  have digits: "list_all is_digit (zero_pad 12 n)" by (rule zero_pad_digits)
  then have "CHR '':'' \<notin> set (zero_pad 12 n)" by (auto simp: list_all_iff is_digit_def)
  moreover have "length (zero_pad 12 n) = 12"
    using length_zero_pad [of 12 n] length_zero_pad_le [OF assms(2), of 12] by simp
  ultimately show ?thesis
    using assms(1) digits by (simp add: validate_progress_key_def segment_key_def rpartition_append)
qed

section \<open>Reading a state back\<close>

lemma sorted_lookup: "dwf kvs \<Longrightarrow> \<exists>p. sort_keys (JDict kvs) = JDict p \<and>
    set (dkeys p) = set (dkeys kvs) \<and> (\<forall>k. dget p k = map_option sort_keys (dget kvs k))"
proof -
  assume "dwf kvs"
  then have "dget (sort_key fst (map (map_prod id sort_keys) kvs)) k = map_option sort_keys (dget kvs k)" for k
    by (subst map_of_sort_key) (simp_all add: comp_def, simp add: map_prod_def map_of_map)
  then show ?thesis by (auto simp: comp_def image_image)
qed

lemma progress_reads_back:
  assumes "progress_ok env key pg"
  shows "progress_of env (key, sort_keys (progress_json pg)) = Inr (key, pg)"
proof -
  let ?kvs = "[(''offset'', JInt (int (pg_offset pg))), (''rejected'', JBool (pg_rejected pg)),
     (''prefixSha256'', JStr (pg_prefix pg))]"
  obtain p where p: "sort_keys (JDict ?kvs) = JDict p" "set (dkeys p) = set (dkeys ?kvs)"
    "\<And>k. dget p k = map_option sort_keys (dget ?kvs k)"
    using sorted_lookup [of ?kvs] by auto
  have f: "field p ''offset'' = JInt (int (pg_offset pg))" "field p ''rejected'' = JBool (pg_rejected pg)"
    "field p ''prefixSha256'' = JStr (pg_prefix pg)"
    by (simp_all add: field_def p(3))
  have k: "set (dkeys p) = {''offset'', ''rejected'', ''prefixSha256''}" unfolding p(2) by auto
  have "0 \<le> int (pg_offset pg) \<and> int (pg_offset pg) \<le> 2 ^ 63 - 1 \<and> is_digest (pg_prefix pg) \<and>
      \<not> (int (pg_offset pg) = 0 \<and> pg_prefix pg \<noteq> pe_sha256 env [])"
    "validate_progress_key key = Inr ()"
    using assms by (auto simp: progress_ok_def)
  then show ?thesis
    unfolding progress_json_def p(1) progress_of_def snd_conv fst_conv jval.case k f by simp
qed

lemma segments_read_back:
  assumes "dwf segs" and "list_all (\<lambda>(key, pg). progress_ok env key pg) segs"
  shows "\<exists>raw. sort_keys (JDict (map (map_prod id progress_json) (sort_key fst segs))) = JDict raw \<and>
    length raw = length segs \<and> traverse (progress_of env) raw = Inr (sort_key fst segs)"
proof -
  let ?s = "sort_key fst segs"
  have "sort_key fst (map (map_prod id (sort_keys \<circ> progress_json)) ?s)
      = map (map_prod id (sort_keys \<circ> progress_json)) ?s"
    by (subst sort_key_map_prod) (use distinct_sort_key_fst [OF assms(1)] in \<open>simp_all add: sort_key_id_if_sorted\<close>)
  then have "sort_keys (JDict (map (map_prod id progress_json) ?s))
      = JDict (map (map_prod id (sort_keys \<circ> progress_json)) ?s)"
    by (simp add: map_prod.comp)
  moreover have "traverse (progress_of env) (map (map_prod id (sort_keys \<circ> progress_json)) xs) = Inr xs"
    if "list_all (\<lambda>(key, pg). progress_ok env key pg) xs" for xs
    using that by (induction xs) (auto simp: progress_reads_back)
  moreover have "list_all (\<lambda>(key, pg). progress_ok env key pg) ?s"
    using assms(2) by (simp add: list_all_iff)
  ultimately show ?thesis by simp
qed

lemma opt_reads_back:
  "pred_option ok x \<Longrightarrow> opt_check ok (sort_keys (opt_json JStr x)) = Inr x"
  by (cases x) (auto simp: opt_check_def opt_json_def)

lemma short_offset: "n \<le> 2 ^ 63 - 1 \<Longrightarrow> length (dec_of_nat n) \<le> 4300"
  using length_dec_of_nat [of n 20] by simp

lemma state_json_printable:
  assumes "state_ok env s"
  shows "printable ld (state_json s)" and "ascii_json (state_json s)"
proof -
  have segs: "dwf (sort_key fst (ss_segments s))"
    "\<And>k pg. (k, pg) \<in> set (ss_segments s) \<Longrightarrow> progress_ok env k pg"
    using assms distinct_sort_key_fst by (auto simp: state_ok_def list_all_iff)
  have opt: "printable ld (opt_json JStr x)" "pred_option is_ascii x \<Longrightarrow> ascii_json (opt_json JStr x)" for x
    by (cases x; simp add: opt_json_def)+
  have p: "printable ld (progress_json pg)" "ascii_json (progress_json pg)" "is_ascii k"
    if "(k, pg) \<in> set (ss_segments s)" for k pg
    using segs(2) [OF that] short_offset [of "pg_offset pg"]
    by (auto simp: progress_ok_def progress_json_def is_ascii_def plain_ascii [OF plain_digest, unfolded is_ascii_def]
      progress_key_ascii [unfolded is_ascii_def])
  show "printable ld (state_json s)"
    using segs(1) opt(1) p(1) by (auto simp: state_json_def list_all_iff comp_def)
  have asc: "pred_option is_ascii (ss_destination s)" "pred_option is_ascii (ss_receipt s)"
    "pred_option is_ascii (ss_batch s)" "pred_option is_ascii (ss_error s)"
    using assms plain_ascii plain_digest plain_transport_id
    by (auto simp: state_ok_def intro: option.pred_mono_strong)
  show "ascii_json (state_json s)"
    using p(2,3) opt(2) asc by (auto simp: state_json_def list_all_iff checkpoint_schema_def is_ascii_def)
qed

lemma state_json_reads_back:
  assumes "state_ok env s"
  shows "\<exists>p. sort_keys (state_json s) = JDict p \<and>
    read_state env p = Inr (s\<lparr>ss_segments := sort_key fst (ss_segments s)\<rparr>)"
proof -
  let ?segs = "JDict (map (map_prod id progress_json) (sort_key fst (ss_segments s)))"
  let ?kvs = "[(''schema'', JStr checkpoint_schema),
      (''destinationFingerprint'', opt_json JStr (ss_destination s)), (''segments'', ?segs),
      (''lastReceiptAt'', opt_json JStr (ss_receipt s)), (''lastBatchId'', opt_json JStr (ss_batch s)),
      (''lastError'', opt_json JStr (ss_error s))]"
  obtain p where p: "sort_keys (JDict ?kvs) = JDict p" "set (dkeys p) = set (dkeys ?kvs)"
    "\<And>k. dget p k = map_option sort_keys (dget ?kvs k)"
    using sorted_lookup [of ?kvs] by auto
  obtain raw where raw: "sort_keys ?segs = JDict raw" "length raw = length (ss_segments s)"
    "traverse (progress_of env) raw = Inr (sort_key fst (ss_segments s))"
    using segments_read_back [of "ss_segments s" env] assms by (auto simp: state_ok_def)
  have f: "field p ''schema'' = JStr checkpoint_schema" "field p ''segments'' = JDict raw"
    "field p ''destinationFingerprint'' = sort_keys (opt_json JStr (ss_destination s))"
    "field p ''lastReceiptAt'' = sort_keys (opt_json JStr (ss_receipt s))"
    "field p ''lastBatchId'' = sort_keys (opt_json JStr (ss_batch s))"
    "field p ''lastError'' = sort_keys (opt_json JStr (ss_error s))"
    by (simp_all add: field_def p(3) raw(1) del: sort_keys.simps(7))
  have k: "set (dkeys p) = {''schema'', ''segments'', ''destinationFingerprint'', ''lastReceiptAt'',
      ''lastBatchId'', ''lastError''}" unfolding p(2) by auto
  have o: "opt_check is_digest (field p ''destinationFingerprint'') = Inr (ss_destination s)"
    "opt_check (\<lambda>t. pe_iso_parse env t \<noteq> None) (field p ''lastReceiptAt'') = Inr (ss_receipt s)"
    "opt_check is_transport_id (field p ''lastBatchId'') = Inr (ss_batch s)"
    "opt_check (\<lambda>e. text_length e \<le> 128) (field p ''lastError'') = Inr (ss_error s)"
    unfolding f using assms order_trans [OF text_length_le]
    by (auto simp: state_ok_def intro!: opt_reads_back elim: option.pred_mono_strong)
  have "read_state env p = Inr (s\<lparr>ss_segments := sort_key fst (ss_segments s)\<rparr>)"
    using assms raw(2,3) unfolding read_state_def k o f(1,2) jval.case
    by (simp add: state_ok_def not_less)
  with p(1) show ?thesis unfolding state_json_def by blast
qed

lemma checkpoint_reads_back:
  assumes "state_ok env s" and "state_bytes s = Inr bytes"
  shows "load_state env (Some bytes) = Inr (s\<lparr>ss_segments := sort_key fst (ss_segments s)\<rparr>)"
proof -
  obtain p where p: "sort_keys (state_json s) = JDict p"
    "read_state env p = Inr (s\<lparr>ss_segments := sort_key fst (ss_segments s)\<rparr>)"
    using state_json_reads_back [OF assms(1)] by blast
  have bytes: "bytes = json_dumps True (state_json s)" "length bytes \<le> max_checkpoint_bytes"
    using assms(2) by (auto simp: state_bytes_def Let_def split: if_splits)
  then have "bytes \<noteq> []" by (simp add: state_json_def)
  with bytes p json_loads_dumps [OF state_json_printable [OF assms(1)]] show ?thesis
    by (simp add: load_state_def)
qed

text \<open>C32 (roundtrip). A checkpoint that was written is loaded as the state that was saved: the
offsets, the prefix digests and the rejections of every segment, the destination, the last receipt,
batch and error; only the order of the segments becomes that of their keys.\<close>

theorem checkpoint_roundtrip:
  assumes "state_ok env s" and "state_bytes s = Inr bytes"
  shows "load_state env (Some bytes) = Inr (s\<lparr>ss_segments := sort_key fst (ss_segments s)\<rparr>)"
  using checkpoint_reads_back [OF assms] .

theorem checkpoint_roundtrip_witness:
  "load_state plain_py_env (Some (json_dumps True (state_json empty_state))) = Inr empty_state"
proof -
  have "state_bytes empty_state = Inr (json_dumps True (state_json empty_state))"
    by (simp add: state_bytes_def Let_def state_json_def empty_state_def opt_json_def checkpoint_schema_def
      json_quote_def escape_char_def max_checkpoint_bytes_def)
  from checkpoint_roundtrip [OF empty_state_ok this, of plain_py_env] show ?thesis
    by (simp add: empty_state_def)
qed

section \<open>Batch identifiers\<close>

lemma batch_id_made:
  assumes "py_env_ok env" and "sequence < 10 ^ 12" and "start_at \<le> 2 ^ 63 - 1" and "stop_at \<le> 2 ^ 63 - 1"
  shows "\<exists>batch_id. make_batch_id env producer sequence start_at stop_at body = Inr batch_id \<and>
    is_transport_id batch_id"
proof -
  let ?v = "''ship.'' @ take 16 (pe_sha256 env producer) @ ''.'' @ dec_of_nat sequence @ ''.''
    @ dec_of_nat start_at @ ''.'' @ dec_of_nat stop_at @ ''.'' @ take 24 (pe_sha256 env body)"
  have d: "list_all is_ident_char (take n (pe_sha256 env x))" for n x
    using assms(1) by (auto simp: py_env_ok_def is_digest_def list_all_iff dest!: in_set_takeD)
  have n: "list_all is_ident_char (dec_of_nat n)" for n
    using dec_of_nat_digits [of n] by (simp add: list_all_iff)
  have "length (dec_of_nat sequence) \<le> 12" "length (dec_of_nat start_at) \<le> 20"
    "length (dec_of_nat stop_at) \<le> 20"
    using assms(2-4) by (auto intro!: length_dec_of_nat)
  then have "length ?v \<le> 128" by simp
  moreover have "list_all is_ident_char ?v" using d n by (simp add: is_ident_char_def is_alnum_def)
  ultimately have "is_transport_id ?v" by (simp add: is_transport_id_def is_alnum_def)
  then show ?thesis by (simp add: make_batch_id_def Let_def)
qed

end
