(* ===== verification/Shipper_Laws.thy ===== *)
theory Shipper_Laws
  imports Shipper_Codec File_Sink_Laws Collector_Properties
begin

text \<open>
  The batches the shipper cuts from a segment: they consist of whole records, start where the last
  one ended, stay within the bounds of the collector, and together are the segment.
\<close>

section \<open>Reading whole records\<close>

lemma take_line:
  assumes "length (takeWhile (\<lambda>c. c \<noteq> CHR 0x0A) rest) < length rest"
  shows "rest = takeWhile (\<lambda>c. c \<noteq> CHR 0x0A) rest @ newline
    @ drop (length (takeWhile (\<lambda>c. c \<noteq> CHR 0x0A) rest) + 1) rest"
proof -
  let ?l = "takeWhile (\<lambda>c. c \<noteq> CHR 0x0A) rest"
  have "rest ! length ?l = CHR 0x0A" using nth_length_takeWhile [OF assms] by simp
  then have "drop (length ?l) rest = CHR 0x0A # drop (length ?l + 1) rest"
    using assms by (simp add: Cons_nth_drop_Suc [symmetric])
  moreover have "rest = ?l @ drop (length ?l) rest"
    by (metis append_take_drop_id takeWhile_eq_take)
  ultimately show ?thesis by (simp add: newline_def)
qed

lemma take_line_one_line [simp]: "one_line (takeWhile (\<lambda>c. c \<noteq> CHR 0x0A) rest)"
  by (auto simp: one_line_def dest: set_takeWhileD)

lemma read_records_Suc:
  assumes "read_records (Suc n) taken rest = Inr (ls, incomplete)"
  obtains (stop) "ls = []" "incomplete \<or> rest = [] \<or> taken \<noteq> 0"
  | (line) line ms where "ls = line # ms" "one_line line" "length line \<le> max_record_bytes"
      "rest = line @ newline @ drop (length line + 1) rest"
      "taken = 0 \<or> taken + length line + 1 \<le> max_batch_bytes"
      "read_records n (taken + (length line + 1)) (drop (length line + 1) rest) = Inr (ms, incomplete)"
proof -
  let ?l = "takeWhile (\<lambda>c. c \<noteq> CHR 0x0A) rest"
  show thesis
  proof (cases "rest = [] \<or> length rest \<le> length ?l \<or> taken \<noteq> 0 \<and> max_batch_bytes < taken + (length ?l + 1)")
    case True
    with assms stop show thesis by (auto simp: Let_def split: if_splits)
  next
    case False
    then have "rest = ?l @ newline @ drop (length ?l + 1) rest" using take_line [of rest] by simp
    with False assms line [of ?l] show thesis by (auto simp: Let_def bindr_eq_Inr split: if_splits)
  qed
qed

lemma read_records_whole:
  assumes "read_records n taken rest = Inr (ls, incomplete)"
  shows "list_all one_line ls \<and> list_all (\<lambda>l. length l \<le> max_record_bytes) ls \<and> length ls \<le> n \<and>
    rest = unlines ls @ drop (length (unlines ls)) rest"
  using assms
proof (induction n arbitrary: taken rest ls)
  case (Suc n)
  from Suc.prems show ?case
  proof (cases rule: read_records_Suc)
    case (line line ms)
    note IH = Suc.IH [OF line(6)]
    have "length (unlines ls) = length (unlines ms) + (length line + 1)"
      by (simp add: line(1) newline_def)
    then have "rest = unlines ls @ drop (length (unlines ls)) rest"
      using line(1,4) IH by (metis append_assoc drop_drop unlines_simps(2))
    with line IH show ?thesis by simp
  qed simp
qed simp

lemma read_records_bound:
  "read_records n taken rest = Inr (ls, incomplete) \<Longrightarrow> taken \<noteq> 0 \<Longrightarrow> taken \<le> max_batch_bytes
     \<Longrightarrow> taken + length (unlines ls) \<le> max_batch_bytes"
proof (induction n arbitrary: taken rest ls)
  case (Suc n)
  from Suc.prems(1) show ?case
  proof (cases rule: read_records_Suc)
    case (line line ms)
    with Suc.IH [OF line(6)] Suc.prems(2) show ?thesis by (simp add: newline_def)
  qed (use Suc.prems in simp)
qed simp

lemma batch_room: "max_record_bytes + 1 \<le> max_batch_bytes"
  by (simp add: max_record_bytes_def max_batch_bytes_def)

lemma read_records_first:
  assumes "read_records n 0 rest = Inr (ls, incomplete)"
  shows "length (unlines ls) \<le> max_batch_bytes"
proof (cases n)
  case (Suc m)
  from assms [unfolded Suc] show ?thesis
  proof (cases rule: read_records_Suc)
    case (line line ms)
    with read_records_bound [OF line(6)] batch_room show ?thesis by (simp add: newline_def)
  qed simp
qed (use assms in simp)

lemma read_records_nothing:
  "read_records (Suc n) 0 rest = Inr ([], incomplete) \<Longrightarrow> incomplete \<or> rest = []"
  by (erule read_records_Suc) auto

text \<open>What is left of a file of whole records is never refused.\<close>

lemma read_records_total:
  assumes "list_all one_line ls" and "list_all (\<lambda>l. length l \<le> max_record_bytes) ls"
  shows "\<exists>ms. read_records n taken (unlines ls) = Inr (ms, False) \<and>
    (n \<noteq> 0 \<and> taken = 0 \<and> ls \<noteq> [] \<longrightarrow> ms \<noteq> [])"
  using assms
proof (induction n arbitrary: ls taken)
  case (Suc n)
  show ?case
  proof (cases ls)
    case (Cons l ms)
    have "takeWhile (\<lambda>c. c \<noteq> CHR 0x0A) (l @ xs) = l @ takeWhile (\<lambda>c. c \<noteq> CHR 0x0A) xs" for xs
      using Suc.prems(1) Cons by (intro takeWhile_append2) (auto simp: one_line_def)
    then have l: "takeWhile (\<lambda>c. c \<noteq> CHR 0x0A) (unlines ls) = l"
      by (simp add: Cons newline_def)
    obtain ks where "read_records n (taken + (length l + 1)) (unlines ms) = Inr (ks, False)"
      using Suc.prems Suc.IH [of ms "taken + (length l + 1)"] Cons by auto
    moreover have "drop (length l + 1) (unlines ls) = unlines ms" by (simp add: Cons newline_def)
    moreover have "unlines ls \<noteq> []" "length l < length (unlines ls)" "length l \<le> max_record_bytes"
      using Suc.prems(2) by (simp_all add: Cons newline_def)
    ultimately show ?thesis unfolding read_records.simps Let_def l by simp
  qed simp
qed simp

section \<open>Chunks\<close>

lemma read_chunk_cases:
  assumes "read_chunk content offset = Inr c"
  shows "offset \<le> length content"
    and "list_all one_line (ck_lines c)" and "length (ck_lines c) \<le> max_ack_results"
    and "list_all (\<lambda>l. length l \<le> max_record_bytes) (ck_lines c)"
    and "length (ck_body c) \<le> max_batch_bytes"
    and "ck_end c = offset + length (ck_body c)" and "ck_end c \<le> length content"
    and "take (ck_end c) content = take offset content @ ck_body c"
    and "ck_body c = [] \<Longrightarrow> \<not> ck_incomplete c \<Longrightarrow> offset = length content"
proof -
  obtain ls incomplete where o: "offset \<le> length content"
    and r: "read_records max_ack_results 0 (drop offset content) = Inr (ls, incomplete)"
    and c: "c = \<lparr>ck_lines = ls, ck_end = offset + length (unlines ls), ck_incomplete = incomplete\<rparr>"
    using assms by (auto simp: read_chunk_def bindr_eq_Inr split: if_splits)
  note whole = read_records_whole [OF r]
  then have eq: "drop offset content = unlines ls @ drop (length (unlines ls)) (drop offset content)"
    by blast
  then have len: "length (unlines ls) \<le> length content - offset"
    by (metis length_drop le_add1 length_append)
  show "offset \<le> length content" by (rule o)
  show "list_all one_line (ck_lines c)" "length (ck_lines c) \<le> max_ack_results"
    "list_all (\<lambda>l. length l \<le> max_record_bytes) (ck_lines c)"
    "length (ck_body c) \<le> max_batch_bytes" "ck_end c = offset + length (ck_body c)"
    using whole read_records_first [OF r] by (simp_all add: c ck_body_def)
  show "ck_end c \<le> length content" using o len by (simp add: c)
  have "take (length (unlines ls)) (drop offset content) = unlines ls"
    by (subst eq) simp
  then show "take (ck_end c) content = take offset content @ ck_body c"
    by (simp add: c ck_body_def take_add)
  assume "ck_body c = []" "\<not> ck_incomplete c"
  then have "ls = []" by (cases ls) (simp_all add: c ck_body_def newline_def)
  then have "read_records (Suc 499) 0 (drop offset content) = Inr ([], incomplete)"
    using r by (simp add: max_ack_results_def del: read_records.simps)
  from read_records_nothing [OF this] have "drop offset content = []"
    using \<open>\<not> ck_incomplete c\<close> by (simp add: c)
  with o show "offset = length content" by simp
qed

lemma ck_body_lines: "ck_body c \<noteq> [] \<Longrightarrow> ck_lines c \<noteq> []"
  by (auto simp: ck_body_def)

lemma chunk_batch_lines:
  assumes "read_chunk content offset = Inr c" and "ck_body c \<noteq> []"
  shows "batch_lines (ck_body c) = Inr (ck_lines c)"
  using assms(2) ck_body_lines [OF assms(2)] read_chunk_cases(2,3,5) [OF assms(1)]
  by (simp add: batch_lines_def ck_body_def split_on_unlines)

text \<open>A file of whole records, cut at a record, is never refused and always advances.\<close>

lemma read_chunk_total:
  assumes "list_all one_line ls" and "list_all (\<lambda>l. length l \<le> max_record_bytes) ls"
    and "list_all one_line ms"
    and "content = unlines ms @ unlines ls" and "offset = length (unlines ms)"
  shows "\<exists>c. read_chunk content offset = Inr c \<and> \<not> ck_incomplete c \<and> (ls \<noteq> [] \<longrightarrow> ck_body c \<noteq> [])"
proof -
  obtain ns where ns: "read_records max_ack_results 0 (unlines ls) = Inr (ns, False)"
    "ls \<noteq> [] \<longrightarrow> ns \<noteq> []"
    using read_records_total [OF assms(1,2), of max_ack_results 0] by (auto simp: max_ack_results_def)
  have "offset = 0 \<or> content ! (offset - 1) = CHR 0x0A"
  proof (cases ms rule: rev_cases)
    case (snoc ks k)
    then show ?thesis by (simp add: assms(4,5) newline_def nth_append)
  qed (simp add: assms(5))
  moreover have "unlines xs \<noteq> []" if "xs \<noteq> []" for xs using that by (cases xs) (simp_all add: newline_def)
  ultimately show ?thesis
    using ns by (auto simp: read_chunk_def assms(4,5) ck_body_def)
qed


text \<open>
  What a shipping cycle does to the spool, for every sender that keeps the contract of the locale
  \<open>acknowledging_sender\<close>: a segment leaves the spool only when each of its records is stored.
\<close>

section \<open>Names of quarantined segments\<close>

lemma segment_identityD:
  assumes "segment_identity path = Some (producer, n, state)"
  obtains stem where "path = stem @ ''.'' @ state" and "CHR ''.'' \<notin> set state"
    and "is_transport_id producer" and "n < 10 ^ 12" and "state \<in> {''open'', ''jsonl'', ''rejected''}"
    and "\<And>s. CHR ''.'' \<notin> set s \<Longrightarrow> s \<in> {''open'', ''jsonl'', ''rejected''}
      \<Longrightarrow> segment_identity (stem @ ''.'' @ s) = Some (producer, n, s)"
proof -
  let ?pre = "take (length segment_prefix) path" and ?post = "drop (length segment_prefix) path"
  obtain stem sequence where pre: "?pre = segment_prefix"
    and dot: "rpartition (CHR ''.'') ?post = Some (stem, state)"
    and dash: "rpartition (CHR ''-'') stem = Some (producer, sequence)"
    and ok: "is_transport_id producer" "list_all is_digit sequence" "6 \<le> length sequence"
      "length sequence \<le> 12" "state \<in> {''open'', ''jsonl'', ''rejected''}" and n: "n = nat_of_dec sequence"
    using assms by (auto simp: segment_identity_def split: if_splits option.splits prod.splits)
  note eq = rpartition_eq [OF dot]
  have path: "path = (segment_prefix @ stem) @ ''.'' @ state"
    using append_take_drop_id [of "length segment_prefix" path] pre eq by simp
  have "nat_of_dec ds < 10 ^ length ds" if "list_all is_digit ds" for ds
    using that
  proof (induction ds rule: rev_induct)
    case (snoc d ds)
    have "digit_val d \<le> 9" using snoc.prems by (auto simp: digit_val_def is_digit_def)
    with snoc show ?case by (simp add: nat_of_dec_snoc)
  qed (simp add: nat_of_dec_def)
  with ok(2) have "n < 10 ^ length sequence" by (simp add: n)
  also have "\<dots> \<le> 10 ^ 12" using ok(4) by (intro power_increasing) simp_all
  finally have "n < 10 ^ 12" .
  moreover have "segment_identity ((segment_prefix @ stem) @ ''.'' @ s) = Some (producer, n, s)"
    if "CHR ''.'' \<notin> set s" "s \<in> {''open'', ''jsonl'', ''rejected''}" for s
    using that(2) ok by (auto simp: segment_identity_def rpartition_append [OF that(1)] dash n)
  ultimately show thesis using that [OF path] eq ok by blast
qed

lemma quarantine_identity:
  assumes "segment_identity path = Some (producer, n, ''jsonl'')"
  shows "segment_identity (with_suffix path ''.rejected'') = Some (producer, n, ''rejected'')"
  using assms
  by (rule segment_identityD) (simp add: with_suffix_def rpartition_append)

section \<open>Acknowledged records\<close>

definition result_digest :: "jval \<Rightarrow> string" where
  "result_digest r = (case r of
     JDict d \<Rightarrow> (case field d ''recordDigest'' of JStr s \<Rightarrow> s | _ \<Rightarrow> []) | _ \<Rightarrow> [])"

definition outcomes :: "(string, jval) dict \<Rightarrow> (string \<times> bool) list" where
  "outcomes p = (case field p ''results'' of
     JList rs \<Rightarrow> map (\<lambda>r. (result_digest r, is_accepted r)) rs | _ \<Rightarrow> [])"

lemma outcomes_digests: "map fst (outcomes p) = ack_digests p"
  by (simp add: outcomes_def ack_digests_def result_digest_def [abs_def] comp_def split: jval.split)

lemma parsed_counts:
  assumes "parse_acknowledgement env response batch_id = Inr p" and "ack_count p ''rejected'' \<le> 0"
    and "(d, good) \<in> set (outcomes p)"
  shows good
proof -
  have v: "validate_ack_dict p batch_id = Inr p"
  proof -
    from assms(1) obtain q where "validate_ack_dict q batch_id = Inr p"
      by (auto simp: parse_acknowledgement_def validate_acknowledgement_def
          split: option.splits if_splits jval.splits)
    then show ?thesis by (auto simp: validate_ack_dict_def split: if_splits option.splits jval.splits)
  qed
  then obtain rs a r where rs: "dget p ''results'' = Some (JList rs)"
    and a: "dget p ''accepted'' = Some (JInt a)" and r: "dget p ''rejected'' = Some (JInt r)"
    and sum: "0 \<le> r" "a + r = int (length rs)" and n: "a = int (length (filter is_accepted rs))"
    by (auto simp: validate_ack_dict_def ack_counts_ok_def split: if_splits option.splits jval.splits)
  have "length (filter is_accepted rs) = length rs"
    using assms(2) r sum n by (simp add: ack_count_def field_def)
  then have "filter is_accepted rs = rs" by (simp add: length_filter_less filter_id_conv)
      (metis length_filter_less less_irrefl)
  with assms(3) rs show ?thesis by (auto simp: outcomes_def field_def filter_id_conv)
qed

section \<open>The contract of a sender\<close>

definition error_ok :: "ship_error \<Rightarrow> bool" where
  "error_ok e \<longleftrightarrow> (case e of
     ShippingError code again \<Rightarrow> is_ascii code \<and> length code \<le> 128 | SpoolInvalid m \<Rightarrow> True)"

text \<open>
  \<open>stored w d\<close> says that at \<open>w\<close> a record of digest \<open>d\<close> is held by the other side, \<open>rejected w d\<close>
  that it was refused for good.
\<close>

locale acknowledging_sender =
  fixes sh :: "'w shipper"
    and ok :: "'w \<Rightarrow> bool"
    and stored :: "'w \<Rightarrow> string \<Rightarrow> bool"
    and rejected :: "'w \<Rightarrow> string \<Rightarrow> bool"
  assumes env: "ok w \<Longrightarrow> py_env_ok (sh_env sh)"
    and destination: "ok w \<Longrightarrow> is_digest (sh_destination sh)"
    and now: "ok w \<Longrightarrow> is_ascii (sh_now sh w) \<and> pe_iso_parse (sh_env sh) (sh_now sh w) \<noteq> None"
    and send_later: "ok w \<Longrightarrow> sh_send sh b p body w = (r, w') \<Longrightarrow> ok w' \<and>
      (\<forall>d. stored w d \<longrightarrow> stored w' d) \<and> (\<forall>d. rejected w d \<longrightarrow> rejected w' d)"
    and wait_later: "ok w \<Longrightarrow> sh_wait sh n w = (s, w') \<Longrightarrow> ok w' \<and>
      (\<forall>d. stored w d \<longrightarrow> stored w' d) \<and> (\<forall>d. rejected w d \<longrightarrow> rejected w' d)"
    and send_error: "ok w \<Longrightarrow> sh_send sh b p body w = (Inl e, w') \<Longrightarrow> error_ok e"
    and answered: "ok w \<Longrightarrow> is_transport_id b \<Longrightarrow> sh_send sh b p body w = (Inr response, w')
      \<Longrightarrow> parse_acknowledgement (sh_env sh) response b = Inr ack
      \<Longrightarrow> (d, good) \<in> set (outcomes ack) \<Longrightarrow> if good then stored w' d else rejected w' d"
begin

definition later :: "'w \<Rightarrow> 'w \<Rightarrow> bool" where
  "later w w' \<longleftrightarrow> ok w' \<and>
     (\<forall>d. stored w d \<longrightarrow> stored w' d) \<and> (\<forall>d. rejected w d \<longrightarrow> rejected w' d)"

lemma later_refl: "ok w \<Longrightarrow> later w w"
  by (simp add: later_def)

lemma later_trans: "later a b \<Longrightarrow> later b c \<Longrightarrow> later a c"
  by (simp add: later_def)

lemma later_ok: "later w w' \<Longrightarrow> ok w'"
  by (simp add: later_def)

lemma send_loop_later:
  assumes "send_loop n sh b p body w = (r, w')" and "ok w"
  shows "later w w' \<and> (case r of Inl e \<Rightarrow> error_ok e
    | Inr response \<Rightarrow> \<exists>v. ok v \<and> sh_send sh b p body v = (Inr response, w'))"
  using assms
proof (induction n arbitrary: w)
  case (Suc n)
  obtain x v where send: "sh_send sh b p body w = (x, v)" by fastforce
  have v: "later w v" using send_later [OF Suc.prems(2) send] by (simp add: later_def)
  show ?case
  proof (cases x)
    case (Inr response)
    with send Suc.prems v show ?thesis by auto
  next
    case (Inl e)
    note e = send_error [OF Suc.prems(2) send [unfolded Inl]]
    obtain s u where wait: "sh_wait sh (min (2 ^ (sh_max_attempts sh - Suc n)) 8) v = (s, u)" by fastforce
    have u: "later w u"
      using wait_later [OF later_ok [OF v] wait] v by (simp add: later_def)
    show ?thesis
    proof (cases "\<not> retryable e \<or> n = 0 \<or> s")
      case True
      with Suc.prems send Inl wait e u v show ?thesis by (auto split: if_splits)
    next
      case False
      with Suc.prems(1) send Inl wait have "send_loop n sh b p body u = (r, w')" by simp
      with Suc.IH [OF this later_ok [OF u]] u show ?thesis by (blast intro: later_trans)
    qed
  qed
qed (auto simp: error_ok_def later_refl)

text \<open>The records of an acknowledged prefix.\<close>

definition acked :: "'w \<Rightarrow> string list \<Rightarrow> bool \<Rightarrow> bool" where
  "acked w ls some_rejected \<longleftrightarrow> (\<forall>l\<in>set ls. stored w (pe_sha256 (sh_env sh) l) \<or>
     some_rejected \<and> rejected w (pe_sha256 (sh_env sh) l))"

definition covered :: "'w \<Rightarrow> string \<Rightarrow> progress \<Rightarrow> bool" where
  "covered w content pg \<longleftrightarrow> pg_offset pg \<le> length content \<and>
     (\<exists>ls. list_all one_line ls \<and> take (pg_offset pg) content = unlines ls \<and>
       acked w ls (pg_rejected pg))"

lemma acked_later: "acked w ls r \<Longrightarrow> later w w' \<Longrightarrow> acked w' ls r"
  by (auto simp: acked_def later_def)

lemma covered_later: "covered w content pg \<Longrightarrow> later w w' \<Longrightarrow> covered w' content pg"
  unfolding covered_def using acked_later by blast

lemma covered_initial: "covered w content (initial_progress env')"
  unfolding covered_def by (intro conjI exI [of _ "[]"]) (simp_all add: initial_progress_def acked_def)

lemma checked_answer_acked:
  assumes "check_answer (sh_env sh) response b c = Inr ack" and "ok v" and "is_transport_id b"
    and "sh_send sh b p body v = (Inr response, w)"
  shows "acked w (ck_lines c) (0 < ack_count ack ''rejected'')"
proof -
  from assms(1) have parse: "parse_acknowledgement (sh_env sh) response b = Inr ack"
    and digests: "map fst (outcomes ack) = ck_digests (sh_env sh) c"
    by (auto simp: check_answer_def outcomes_digests split: sum.splits if_splits)
  have "stored w d \<or> 0 < ack_count ack ''rejected'' \<and> rejected w d"
    if "d \<in> set (ck_digests (sh_env sh) c)" for d
  proof -
    from that have "d \<in> fst ` set (outcomes ack)"
      unfolding digests [symmetric] by simp
    then obtain good where o: "(d, good) \<in> set (outcomes ack)" by force
    with answered [OF assms(2-4) parse o] parsed_counts [OF parse _ o] show ?thesis
      by (cases good) auto
  qed
  then show ?thesis by (auto simp: acked_def ck_digests_def)
qed

lemma covered_advance:
  assumes "covered w content pg" and "read_chunk content (pg_offset pg) = Inr c"
    and "acked w (ck_lines c) r"
  shows "covered w content \<lparr>pg_offset = ck_end c, pg_rejected = pg_rejected pg \<or> r, pg_prefix = x\<rparr>"
proof -
  obtain ls where ls: "list_all one_line ls" "take (pg_offset pg) content = unlines ls"
    "acked w ls (pg_rejected pg)"
    using assms(1) by (auto simp: covered_def)
  note c = read_chunk_cases [OF assms(2)]
  have "take (ck_end c) content = unlines (ls @ ck_lines c)"
    using c(8) ls(2) by (simp add: ck_body_def)
  moreover have "acked w (ls @ ck_lines c) (pg_rejected pg \<or> r)"
    using ls(3) assms(3) by (auto simp: acked_def)
  ultimately show ?thesis
    using c(2,7) ls(1) unfolding covered_def
    by (intro conjI exI [of _ "ls @ ck_lines c"]) simp_all
qed

end


text \<open>
  The invariant of a shipping cycle: what the checkpoint says of a segment is acknowledged, and a
  segment that leaves the spool was acknowledged to its end.
\<close>

definition visible :: "spool \<Rightarrow> string \<Rightarrow> nat \<Rightarrow> string \<Rightarrow> string \<Rightarrow> bool" where
  "visible disk producer n path content \<longleftrightarrow> dget disk path = Some content \<and>
     (\<exists>state. segment_identity path = Some (producer, n, state) \<and> state \<noteq> ''rejected'')"

definition disk_ok :: "spool \<Rightarrow> bool" where
  "disk_ok disk \<longleftrightarrow> dwf disk \<and>
     (\<forall>path content. dget disk path = Some content \<longrightarrow> length content \<le> 2 ^ 63 - 1)"

definition unique_keys :: "spool \<Rightarrow> bool" where
  "unique_keys disk \<longleftrightarrow> (\<forall>p n path content p' n' path' content'.
     visible disk p n path content \<and> visible disk p' n' path' content' \<and>
     segment_key p n = segment_key p' n' \<longrightarrow> path = path')"

definition fewer :: "spool \<Rightarrow> spool \<Rightarrow> bool" where
  "fewer disk' disk \<longleftrightarrow> disk_ok disk' \<and>
     (\<forall>p n path content. visible disk' p n path content \<longrightarrow> visible disk p n path content)"

lemma unique_keys_fewer: "unique_keys disk \<Longrightarrow> fewer disk' disk \<Longrightarrow> unique_keys disk'"
  unfolding unique_keys_def fewer_def by blast

lemma fewer_refl: "disk_ok disk \<Longrightarrow> fewer disk disk"
  by (simp add: fewer_def)

lemma fewer_popped: "disk_ok disk \<Longrightarrow> fewer (dpop path disk) disk"
  by (simp add: fewer_def disk_ok_def visible_def dict_simps)

lemma fewer_quarantined:
  assumes "disk_ok disk" and "dget disk path = Some content"
    and "segment_identity target = Some (p, n, ''rejected'')"
  shows "fewer (dset target content (dpop path disk)) disk"
  using assms by (auto simp: fewer_def disk_ok_def visible_def dict_simps split: if_splits)

context acknowledging_sender
begin

section \<open>The invariant\<close>

definition state_inv :: "'w \<Rightarrow> spool \<Rightarrow> ship_state \<Rightarrow> bool" where
  "state_inv w disk s \<longleftrightarrow> state_ok (sh_env sh) s \<and>
     (\<forall>p n path content pg. visible disk p n path content \<and>
        dget (ss_segments s) (segment_key p n) = Some pg \<longrightarrow> covered w content pg)"

definition checkpoint_inv :: "'w \<Rightarrow> spool \<Rightarrow> string option \<Rightarrow> bool" where
  "checkpoint_inv w disk file \<longleftrightarrow> (case file of None \<Rightarrow> True
     | Some b \<Rightarrow> (\<exists>s. state_bytes s = Inr b \<and> state_inv w disk s))"

definition cycle_ok :: "'w cycle \<Rightarrow> bool" where
  "cycle_ok cy \<longleftrightarrow> ok (cy_world cy) \<and> disk_ok (cy_disk cy) \<and>
     state_inv (cy_world cy) (cy_disk cy) (cy_state cy) \<and>
     checkpoint_inv (cy_world cy) (cy_disk cy) (cy_checkpoint cy)"

text \<open>What became of the files.\<close>

definition gone :: "'w \<Rightarrow> string \<Rightarrow> string \<Rightarrow> spool \<Rightarrow> bool" where
  "gone w path content disk \<longleftrightarrow> dget disk path = None \<and>
     (\<exists>p n. segment_identity path = Some (p, n, ''jsonl'')) \<and>
     (\<exists>ls. list_all one_line ls \<and> content = unlines ls \<and>
       (acked w ls False \<or>
        acked w ls True \<and> dget disk (with_suffix path ''.rejected'') = Some content))"

definition disposed :: "'w \<Rightarrow> spool \<Rightarrow> spool \<Rightarrow> bool" where
  "disposed w disk disk' \<longleftrightarrow>
     (\<forall>path content. dget disk path = Some content \<longrightarrow>
        dget disk' path = Some content \<or> gone w path content disk') \<and>
     (\<forall>path. dget disk path = None \<longrightarrow> dget disk' path = None \<or>
        (\<exists>p n. segment_identity path = Some (p, n, ''rejected'')))"

definition moved :: "'w cycle \<Rightarrow> 'w cycle \<Rightarrow> bool" where
  "moved cy cy' \<longleftrightarrow> later (cy_world cy) (cy_world cy') \<and>
     disposed (cy_world cy') (cy_disk cy) (cy_disk cy') \<and> fewer (cy_disk cy') (cy_disk cy)"

lemma disposed_refl: "disposed w disk disk"
  by (simp add: disposed_def)

lemma gone_later: "gone w path content disk \<Longrightarrow> later w w' \<Longrightarrow> gone w' path content disk"
  unfolding gone_def using acked_later by blast

lemma gone_disposed:
  assumes "gone w path content disk" and "disposed w disk disk'"
  shows "gone w path content disk'"
proof -
  obtain p n where id: "segment_identity path = Some (p, n, ''jsonl'')" and none: "dget disk path = None"
    using assms(1) by (auto simp: gone_def)
  note target = quarantine_identity [OF id]
  have "\<not> (\<exists>p n. segment_identity path = Some (p, n, ''rejected''))" using id by simp
  then have "dget disk' path = None"
    using assms(2) none unfolding disposed_def by blast
  moreover have "\<not> (\<exists>p n. segment_identity (with_suffix path ''.rejected'') = Some (p, n, ''jsonl''))"
    using target by simp
  then have "dget disk' (with_suffix path ''.rejected'') = Some content"
    if "dget disk (with_suffix path ''.rejected'') = Some content"
    using assms(2) that unfolding disposed_def gone_def by blast
  ultimately show ?thesis using assms(1) unfolding gone_def by blast
qed

lemma disposed_trans:
  assumes "disposed w a b" and "later w w'" and "disposed w' b c"
  shows "disposed w' a c"
proof -
  have "gone w' path content c" if "gone w path content b" for path content
    using gone_disposed [OF gone_later [OF that assms(2)] assms(3)] .
  moreover have "\<exists>p n. segment_identity path = Some (p, n, ''rejected'')"
    if "dget a path = None" "dget b path = Some content" for path content
    using assms(1) that unfolding disposed_def by force
  ultimately show ?thesis
    using assms(1,3) unfolding disposed_def by (metis option.exhaust)
qed

lemma moved_refl: "cycle_ok cy \<Longrightarrow> moved cy cy"
  by (simp add: moved_def cycle_ok_def later_refl disposed_refl fewer_refl)

lemma moved_trans: "moved a b \<Longrightarrow> moved b c \<Longrightarrow> moved a c"
  unfolding moved_def fewer_def using later_trans disposed_trans by blast

lemma state_inv_mono:
  assumes "state_inv w disk s" and "later w w'" and "fewer disk' disk"
  shows "state_inv w' disk' s"
  using assms covered_later unfolding state_inv_def fewer_def by meson

lemma checkpoint_inv_mono:
  "checkpoint_inv w disk file \<Longrightarrow> later w w' \<Longrightarrow> fewer disk' disk \<Longrightarrow> checkpoint_inv w' disk' file"
  unfolding checkpoint_inv_def using state_inv_mono by (auto split: option.splits)

lemma cycle_ok_world:
  assumes "cycle_ok cy" and "later (cy_world cy) w"
  shows "cycle_ok (cy\<lparr>cy_world := w\<rparr>)" and "moved cy (cy\<lparr>cy_world := w\<rparr>)"
  using assms state_inv_mono [OF _ assms(2) fewer_refl] checkpoint_inv_mono [OF _ assms(2) fewer_refl]
  by (auto simp: cycle_ok_def moved_def later_def disposed_refl fewer_refl)

section \<open>Saving\<close>

lemma save_state_ok:
  assumes "save_state cy = (r, cy')" and "cycle_ok cy"
  shows "cycle_ok cy'" and "moved cy cy'" and "cy_state cy' = cy_state cy" and "cy_disk cy' = cy_disk cy"
    and "\<And>e. r = Inl e \<Longrightarrow> error_ok e" and "cy_world cy' = cy_world cy"
proof -
  have "error_ok e" if "state_bytes s = Inl e" for s e
    using that by (auto simp: state_bytes_def Let_def error_ok_def is_ascii_def split: if_splits)
  with assms moved_refl [OF assms(2)]
  show "cycle_ok cy'" "moved cy cy'" "cy_state cy' = cy_state cy" "cy_disk cy' = cy_disk cy"
    "\<And>e. r = Inl e \<Longrightarrow> error_ok e" "cy_world cy' = cy_world cy"
    by (auto simp: save_state_def cycle_ok_def checkpoint_inv_def moved_def split: sum.splits)
qed

text \<open>The keys of the state are keys of the listed segments, of which there are not too many.\<close>

definition keyed :: "string set \<Rightarrow> 'w cycle \<Rightarrow> bool" where
  "keyed K cy \<longleftrightarrow> finite K \<and> card K \<le> max_segments \<and> set (dkeys (ss_segments (cy_state cy))) \<subseteq> K"

lemma state_inv_scalars:
  "state_inv w disk s \<Longrightarrow> pred_option is_digest d \<Longrightarrow>
     state_inv w disk (s\<lparr>ss_destination := d\<rparr>)"
  "state_inv w disk s \<Longrightarrow> is_transport_id b \<Longrightarrow> is_ascii t \<Longrightarrow> pe_iso_parse (sh_env sh) t \<noteq> None \<Longrightarrow>
     state_inv w disk (s\<lparr>ss_batch := Some b, ss_receipt := Some t, ss_error := None\<rparr>)"
  "state_inv w disk s \<Longrightarrow> pred_option (\<lambda>e. is_ascii e \<and> length e \<le> 128) x \<Longrightarrow>
     state_inv w disk (s\<lparr>ss_error := x\<rparr>)"
  by (simp_all add: state_inv_def state_ok_def)

lemma dict_bound: "dwf d \<Longrightarrow> set (dkeys d) \<subseteq> K \<Longrightarrow> finite K \<Longrightarrow> card K \<le> m \<Longrightarrow> length d \<le> m"
  by (metis card_mono distinct_card length_map order_trans)

lemma state_inv_progress:
  assumes "state_inv w disk s" and "unique_keys disk" and "visible disk p n path content"
    and "covered w content pg" and "progress_ok (sh_env sh) (segment_key p n) pg"
    and "finite K" and "card K \<le> max_segments" and "set (dkeys (ss_segments s)) \<subseteq> K"
    and "segment_key p n \<in> K"
  shows "state_inv w disk (set_progress (segment_key p n) pg s)"
proof -
  let ?d = "dset (segment_key p n) pg (ss_segments s)"
  have wf: "dwf ?d" using assms(1) by (simp add: state_inv_def state_ok_def)
  have "length ?d \<le> max_segments"
    using assms(6-9) by (intro dict_bound [OF wf, of K]) (auto simp: dkeys_dset)
  moreover have "list_all (\<lambda>(key, pg). progress_ok (sh_env sh) key pg) ?d"
  proof -
    have "progress_ok (sh_env sh) k x" if "(k, x) \<in> set ?d" for k x
      using that wf assms(1,5) dget_in_set [OF wf, of k x]
      by (auto simp: dict_simps state_inv_def state_ok_def list_all_iff split: if_splits dest: map_of_SomeD)
    then show ?thesis by (auto simp: list_all_iff)
  qed
  moreover have "covered w content' pg'"
    if "visible disk p' n' path' content'" "dget ?d (segment_key p' n') = Some pg'" for p' n' path' content' pg'
  proof (cases "segment_key p' n' = segment_key p n")
    case True
    with assms(2,3) that(1) have "path' = path" unfolding unique_keys_def by metis
    with that assms(3,4) True show ?thesis by (auto simp: visible_def dict_simps)
  next
    case False
    with that assms(1) show ?thesis by (auto simp: state_inv_def dict_simps)
  qed
  ultimately show ?thesis
    using assms(1) wf by (auto simp: state_inv_def state_ok_def set_progress_def)
qed

end

end
