(* ===== verification/Shipper_Properties.thy ===== *)
theory Shipper_Properties
  imports Shipper_Laws
begin

text \<open>Every operation of a shipping cycle keeps the invariant of the cycle.\<close>

lemma visibleD:
  assumes "visible disk p n path content"
  shows "is_transport_id p" and "n < 10 ^ 12" and "dget disk path = Some content"
  using assms by (auto simp: visible_def elim: segment_identityD)

lemma make_batch_id_ok:
  "make_batch_id env p n a b body = Inr i \<Longrightarrow> is_transport_id i"
  "make_batch_id env p n a b body = Inl e \<Longrightarrow> error_ok e"
  by (auto simp: make_batch_id_def Let_def error_ok_def split: if_splits)

lemma read_records_error: "read_records n taken rest = Inl e \<Longrightarrow> error_ok e"
proof (induction n arbitrary: taken rest)
  case (Suc n)
  then show ?case by (auto simp: Let_def bindr_eq_Inl error_ok_def is_ascii_def split: if_splits)
qed simp

lemma error_ok_refused: "is_ascii code \<Longrightarrow> length code \<le> 128 \<Longrightarrow> error_ok (refused code)"
  by (simp add: error_ok_def)

lemma read_chunk_error: "read_chunk content offset = Inl e \<Longrightarrow> error_ok e"
  by (auto simp: read_chunk_def bindr_eq_Inl is_ascii_def split: if_splits
    intro: read_records_error intro!: error_ok_refused)

lemma check_answer_error: "check_answer env response b c = Inl e \<Longrightarrow> error_ok e"
  by (auto simp: check_answer_def error_ok_def is_ascii_def split: sum.splits if_splits)

context acknowledging_sender
begin

section \<open>Batches\<close>

lemma ensure_destination_ok:
  assumes "ensure_destination sh cy = (r, cy')" and "cycle_ok cy"
  shows "cycle_ok cy' \<and> moved cy cy' \<and> cy_disk cy' = cy_disk cy \<and> cy_world cy' = cy_world cy \<and>
    ss_segments (cy_state cy') = ss_segments (cy_state cy) \<and> (\<forall>e. r = Inl e \<longrightarrow> error_ok e)"
proof (cases "ss_destination (cy_state cy) = None")
  case True
  let ?cy = "cy\<lparr>cy_state := (cy_state cy)\<lparr>ss_destination := Some (sh_destination sh)\<rparr>\<rparr>"
  have "cycle_ok ?cy"
    using assms(2) destination [of "cy_world cy"] state_inv_scalars(1) by (simp add: cycle_ok_def)
  moreover have "save_state ?cy = (r, cy')" using assms(1) True by (simp add: ensure_destination_def)
  ultimately have "cycle_ok cy' \<and> moved ?cy cy' \<and> cy_state cy' = cy_state ?cy \<and>
      cy_disk cy' = cy_disk ?cy \<and> cy_world cy' = cy_world ?cy \<and> (\<forall>e. r = Inl e \<longrightarrow> error_ok e)"
    using save_state_ok by blast
  with moved_refl [OF assms(2)] show ?thesis by (simp add: moved_def)
next
  case False
  with assms moved_refl show ?thesis by (auto simp: ensure_destination_def)
qed

lemma acknowledged_ok:
  assumes "acknowledged sh (segment_key p n) b content c pg ack cy = (pg', cy')"
    and "cycle_ok cy" and "unique_keys (cy_disk cy)" and "visible (cy_disk cy) p n path content"
    and "covered (cy_world cy) content pg" and "keyed K cy" and "segment_key p n \<in> K"
    and "read_chunk content (pg_offset pg) = Inr c" and "ck_body c \<noteq> []" and "is_transport_id b"
    and "acked (cy_world cy) (ck_lines c) (0 < ack_count ack ''rejected'')"
  shows "cycle_ok cy' \<and> moved cy cy' \<and> cy_disk cy' = cy_disk cy \<and> keyed K cy' \<and>
    covered (cy_world cy') content pg'"
proof -
  let ?w = "cy_world cy" and ?s = "cy_state cy"
  let ?s' = "?s\<lparr>ss_batch := Some b, ss_receipt := Some (sh_now sh ?w), ss_error := None\<rparr>"
  have pg': "pg' = \<lparr>pg_offset = ck_end c, pg_rejected = pg_rejected pg \<or> 0 < ack_count ack ''rejected'',
      pg_prefix = pe_sha256 (sh_env sh) (take (pg_offset pg) content @ ck_body c)\<rparr>"
    and cy': "cy_world cy' = ?w" "cy_disk cy' = cy_disk cy" "cy_checkpoint cy' = cy_checkpoint cy"
      "cy_state cy' = set_progress (segment_key p n) pg' ?s'"
    using assms(1) by (auto simp: acknowledged_def Let_def)
  have cov: "covered ?w content pg'"
    unfolding pg' by (rule covered_advance [OF assms(5,8,11)])
  note chunk = read_chunk_cases [OF assms(8)]
  have w: "ok ?w" using assms(2) by (simp add: cycle_ok_def)
  have "length content \<le> 2 ^ 63 - 1"
    using assms(2,4) unfolding cycle_ok_def disk_ok_def by (meson visibleD(3))
  then have prog: "progress_ok (sh_env sh) (segment_key p n) pg'"
    using segment_key_valid [OF visibleD(1,2) [OF assms(4)]] chunk(6,7) env [OF w] assms(9)
    by (auto simp: pg' progress_ok_def py_env_ok_def)
  have "state_inv ?w (cy_disk cy) ?s'"
    using assms(2,10) now [OF w] state_inv_scalars(2) by (simp add: cycle_ok_def)
  moreover have "finite K" "card K \<le> max_segments" "set (dkeys (ss_segments ?s')) \<subseteq> K"
    using assms(6) by (simp_all add: keyed_def)
  ultimately have "state_inv ?w (cy_disk cy) (cy_state cy')"
    unfolding cy' by (intro state_inv_progress [OF _ assms(3,4) cov prog, where K = K] assms(7))
  then have "cycle_ok cy'" using assms(2) by (simp add: cycle_ok_def cy')
  moreover have "keyed K cy'"
    using assms(6,7) by (auto simp: keyed_def cy' set_progress_def dkeys_dset)
  moreover have "moved cy cy'" using moved_refl [OF assms(2)] by (simp add: moved_def cy')
  ultimately show ?thesis using cov cy' by simp
qed

definition batch_post :: "string set \<Rightarrow> string \<Rightarrow> 'w cycle \<Rightarrow> 'w cycle \<Rightarrow> bool" where
  "batch_post K content cy cy' \<longleftrightarrow>
     cycle_ok cy' \<and> moved cy cy' \<and> cy_disk cy' = cy_disk cy \<and> keyed K cy'"

lemma ship_batch_ok:
  assumes "ship_batch sh p n content pg cy = (r, cy')"
    and "cycle_ok cy" and "unique_keys (cy_disk cy)" and "visible (cy_disk cy) p n path content"
    and "covered (cy_world cy) content pg" and "keyed K cy" and "segment_key p n \<in> K"
  shows "batch_post K content cy cy' \<and> (case r of Inl e \<Rightarrow> error_ok e
    | Inr None \<Rightarrow> cy' = cy | Inr (Some pg') \<Rightarrow> covered (cy_world cy') content pg')"
proof -
  have refl: "batch_post K content cy cy" using assms(2,6) moved_refl by (simp add: batch_post_def)
  show ?thesis
  proof (cases "read_chunk content (pg_offset pg)")
    case (Inl e)
    with assms(1) refl read_chunk_error [OF Inl] show ?thesis by (auto simp: ship_batch_def)
  next
    case chunk: (Inr c)
    show ?thesis
    proof (cases "ck_body c = []")
      case True
      with assms(1) chunk refl show ?thesis by (auto simp: ship_batch_def)
    next
      case body: False
      show ?thesis
      proof (cases "make_batch_id (sh_env sh) p n (pg_offset pg) (ck_end c) (ck_body c)")
        case (Inl e)
        with assms(1) chunk body refl make_batch_id_ok(2) [OF Inl] show ?thesis
          by (auto simp: ship_batch_def)
      next
        case id: (Inr b)
        obtain r1 cy1 where dest: "ensure_destination sh cy = (r1, cy1)" by fastforce
        note d = ensure_destination_ok [OF dest assms(2)]
        have cy1: "batch_post K content cy cy1" using d assms(6) by (simp add: batch_post_def keyed_def)
        obtain r2 w where sent: "send_loop (sh_max_attempts sh) sh b p (ck_body c) (cy_world cy1) = (r2, w)"
          by fastforce
        have "ok (cy_world cy1)" using d by (metis cycle_ok_def)
        note s = send_loop_later [OF sent this]
        let ?cy2 = "cy1\<lparr>cy_world := w\<rparr>"
        have cy2: "batch_post K content cy ?cy2"
          using cy1 cycle_ok_world [of cy1 w] s moved_trans by (auto simp: batch_post_def keyed_def)
        show ?thesis
        proof (cases "\<exists>response ack. r1 = Inr () \<and> r2 = Inr response \<and>
            check_answer (sh_env sh) response b c = Inr ack")
          case False
          have "\<exists>e. r = Inl e \<and> error_ok e \<and> cy' \<in> {cy1, ?cy2}"
          proof (cases r1)
            case (Inl e)
            with assms(1) chunk body id dest d show ?thesis by (auto simp: ship_batch_def)
          next
            case 1: (Inr u)
            show ?thesis
            proof (cases r2)
              case (Inl e)
              with assms(1) chunk body id dest 1 sent s show ?thesis by (auto simp: ship_batch_def)
            next
              case 2: (Inr response)
              with False 1 obtain e where "check_answer (sh_env sh) response b c = Inl e"
                by (cases "check_answer (sh_env sh) response b c") auto
              with assms(1) chunk body id dest 1 sent 2 check_answer_error [OF this] show ?thesis
                by (auto simp: ship_batch_def)
            qed
          qed
          with cy1 cy2 show ?thesis by auto
        next
          case True
          then obtain response ack where r: "r1 = Inr ()" "r2 = Inr response"
            and ack: "check_answer (sh_env sh) response b c = Inr ack" by blast
          obtain v where v: "ok v" "sh_send sh b p (ck_body c) v = (Inr response, w)"
            using s r(2) by auto
          note acked = checked_answer_acked [OF ack v(1) make_batch_id_ok(1) [OF id] v(2)]
          obtain pg' cy3 where k: "acknowledged sh (segment_key p n) b content c pg ack ?cy2 = (pg', cy3)"
            by fastforce
          have "covered w content pg"
            using assms(5) cy2 covered_later by (auto simp: batch_post_def moved_def)
          then have cy3: "cycle_ok cy3 \<and> moved ?cy2 cy3 \<and> cy_disk cy3 = cy_disk ?cy2 \<and> keyed K cy3 \<and>
              covered (cy_world cy3) content pg'"
            using cy2 assms(3,4,7) chunk body make_batch_id_ok(1) [OF id] acked
            by (intro acknowledged_ok [OF k]) (simp_all add: batch_post_def)
          obtain r4 cy4 where save: "save_state cy3 = (r4, cy4)" by fastforce
          note s4 = save_state_ok [OF save conjunct1 [OF cy3]]
          have "moved cy cy4"
            using cy2 cy3 s4(2) unfolding batch_post_def by (meson moved_trans)
          then have post4: "batch_post K content cy cy4"
            using cy2 cy3 s4(1,3,4) by (simp add: batch_post_def keyed_def)
          have "cycle_ok (cy4\<lparr>cy_batches := cy_batches cy4 + 1\<rparr>)" "batch_post K content cy
              (cy4\<lparr>cy_batches := cy_batches cy4 + 1\<rparr>)"
            using post4 by (auto simp: batch_post_def cycle_ok_def keyed_def moved_def)
          with assms(1) chunk body id dest sent r ack k save s4(5,6) cy3 post4 show ?thesis
            by (cases r4) (auto simp: ship_batch_def)
        qed
      qed
    qed
  qed
qed

lemma ship_batches_ok:
  assumes "ship_batches m sh p n content pg cy = (r, cy')"
    and "cycle_ok cy" and "unique_keys (cy_disk cy)" and "visible (cy_disk cy) p n path content"
    and "covered (cy_world cy) content pg" and "keyed K cy" and "segment_key p n \<in> K"
  shows "batch_post K content cy cy' \<and> (case r of Inl e \<Rightarrow> error_ok e
    | Inr pg' \<Rightarrow> covered (cy_world cy') content pg')"
  using assms
proof (induction m arbitrary: pg cy)
  case 0
  then show ?case using moved_refl by (auto simp: batch_post_def)
next
  case (Suc m)
  obtain x cy1 where one: "ship_batch sh p n content pg cy = (x, cy1)" by fastforce
  note b = ship_batch_ok [OF one Suc.prems(2-)]
  have refl: "batch_post K content cy cy" using Suc.prems(2,6) moved_refl by (simp add: batch_post_def)
  consider "sh_stopped sh (cy_world cy)" | e where "x = Inl e" | "x = Inr None"
    | pg' where "\<not> sh_stopped sh (cy_world cy)" "x = Inr (Some pg')"
    by (metis option.exhaust sum.exhaust)
  then show ?case
  proof cases
    case (4 pg')
    then have step: "batch_post K content cy cy1" "covered (cy_world cy1) content pg'" using b by simp_all
    have "ship_batches m sh p n content pg' cy1 = (r, cy')" using Suc.prems(1) 4 one by simp
    from Suc.IH [OF this] step Suc.prems(3,4,7) show ?thesis
      by (auto simp: batch_post_def intro: moved_trans)
  qed (use Suc.prems one b refl in \<open>auto split: if_splits\<close>)
qed

end


text \<open>A whole cycle of the shipper: segments, the listing, and the checkpoint around them.\<close>

lemma map_filter_in: "x \<in> set xs \<Longrightarrow> f x = Some k \<Longrightarrow> k \<in> set (List.map_filter f xs)"
  by (force simp: List.map_filter_def)

lemma map_filter_out: "k \<in> set (List.map_filter f xs) \<Longrightarrow> \<exists>x\<in>set xs. f x = Some k"
  by (auto simp: List.map_filter_def)

lemma visible_key_in:
  assumes "visible disk p n path content"
  shows "path \<in> set (segment_paths disk)" and "segment_key p n \<in> set (visible_keys (segment_paths disk))"
proof -
  obtain state where id: "segment_identity path = Some (p, n, state)" "state \<noteq> ''rejected''"
    and d: "dget disk path = Some content" using assms by (auto simp: visible_def)
  show path: "path \<in> set (segment_paths disk)"
    using id(1) d by (auto simp: segment_paths_def dest!: map_of_SomeD intro: rev_image_eqI)
  with id show "segment_key p n \<in> set (visible_keys (segment_paths disk))"
    unfolding visible_keys_def by (intro map_filter_in [OF path]) simp
qed

lemma map_filter_distinct:
  assumes "distinct (List.map_filter f xs)" and "x \<in> set xs" and "y \<in> set xs"
    and "f x = Some k" and "f y = Some k"
  shows "x = y"
  using assms
proof (induction xs)
  case (Cons z zs)
  with map_filter_in [of _ zs f k] show ?case by (auto simp: map_filter_simps split: option.splits)
qed simp

lemma distinct_keys_unique: "distinct (visible_keys (segment_paths disk)) \<Longrightarrow> unique_keys disk"
proof (unfold unique_keys_def, intro allI impI, elim conjE)
  fix p n path content p' n' path' content'
  assume d: "distinct (visible_keys (segment_paths disk))"
    and v: "visible disk p n path content" "visible disk p' n' path' content'"
    and k: "segment_key p n = segment_key p' n'"
  obtain s s' where "segment_identity path = Some (p, n, s)" "s \<noteq> ''rejected''"
    "segment_identity path' = Some (p', n', s')" "s' \<noteq> ''rejected''"
    using v by (auto simp: visible_def)
  with k show "path = path'"
    by (intro map_filter_distinct [OF d [unfolded visible_keys_def] visible_key_in(1) [OF v(1)]
          visible_key_in(1) [OF v(2)], of "segment_key p n"]) simp_all
qed

context acknowledging_sender
begin

section \<open>Segments\<close>

definition segment_post :: "string set \<Rightarrow> 'w cycle \<Rightarrow> 'w cycle \<Rightarrow> bool" where
  "segment_post K cy cy' \<longleftrightarrow> cycle_ok cy' \<and> moved cy cy' \<and> keyed K cy'"

lemma segment_post_trans: "segment_post K a b \<Longrightarrow> segment_post K b c \<Longrightarrow> segment_post K a c"
  unfolding segment_post_def using moved_trans by blast

lemma segment_post_refl: "cycle_ok cy \<Longrightarrow> keyed K cy \<Longrightarrow> segment_post K cy cy"
  using moved_refl by (simp add: segment_post_def)

lemma state_inv_filter:
  assumes "state_inv w disk s"
  shows "state_inv w disk (s\<lparr>ss_segments := filter P (ss_segments s)\<rparr>)"
proof -
  let ?d = "filter P (ss_segments s)"
  have wf: "dwf (ss_segments s)" using assms by (simp add: state_inv_def state_ok_def)
  then have wf': "dwf ?d" by (rule distinct_map_filter)
  have "dget (ss_segments s) k = Some pg" if "dget ?d k = Some pg" for k pg
    using that wf by (auto dest!: map_of_SomeD intro: map_of_is_SomeI)
  moreover have "length ?d \<le> max_segments"
    using assms by (auto simp: state_inv_def state_ok_def intro: order_trans [OF length_filter_le])
  ultimately show ?thesis
    using assms wf' by (auto simp: state_inv_def state_ok_def list_all_iff)
qed

text \<open>The file is taken away, and then its progress and the checkpoint.\<close>

lemma removed_segment_ok:
  assumes "cycle_ok cy" and "keyed K cy" and "fewer disk (cy_disk cy)"
    and "disposed (cy_world cy) (cy_disk cy) disk"
    and "cy_disk cy1 = disk" and "cy_world cy1 = cy_world cy" and "cy_state cy1 = cy_state cy"
    and "cy_checkpoint cy1 = cy_checkpoint cy" and "save_state (pop_segment key cy1) = (r, cy')"
  shows "segment_post K cy cy' \<and> (\<forall>e. r = Inl e \<longrightarrow> error_ok e)"
proof -
  let ?w = "cy_world cy" and ?cy2 = "pop_segment key cy1"
  have w: "later ?w ?w" using assms(1) by (simp add: cycle_ok_def later_refl)
  have "state_inv ?w disk (cy_state cy)" "checkpoint_inv ?w disk (cy_checkpoint cy)"
    using assms(1,3) w state_inv_mono checkpoint_inv_mono by (auto simp: cycle_ok_def)
  then have "state_inv ?w disk (cy_state ?cy2)" "checkpoint_inv ?w disk (cy_checkpoint ?cy2)"
    using assms(7,8) by (simp_all add: pop_segment_def AList.delete_eq state_inv_filter)
  then have "cycle_ok ?cy2"
    using assms(1,3,5,6) by (simp add: cycle_ok_def pop_segment_def fewer_def)
  moreover have "moved cy ?cy2" using assms(3-8) w by (simp add: moved_def pop_segment_def)
  moreover have "keyed K ?cy2"
    using assms(2,7) AList.dom_delete_subset [of key "ss_segments (cy_state cy)"]
    by (auto simp: keyed_def pop_segment_def)
  ultimately show ?thesis
    using save_state_ok [OF assms(9)] moved_trans unfolding segment_post_def keyed_def by metis
qed

lemma covered_whole:
  "covered w content pg \<Longrightarrow> pg_offset pg = length content \<Longrightarrow>
     \<exists>ls. list_all one_line ls \<and> content = unlines ls \<and> acked w ls (pg_rejected pg)"
  by (auto simp: covered_def)

lemma finish_segment_ok:
  assumes "finish_segment path key content pg cy = (r, cy')"
    and "cycle_ok cy" and "keyed K cy" and "covered (cy_world cy) content pg"
    and "dget (cy_disk cy) path = Some content" and "segment_identity path = Some (p, n, ''jsonl'')"
  shows "segment_post K cy cy' \<and> (\<forall>e. r = Inl e \<longrightarrow> error_ok e)"
proof -
  note refl = segment_post_refl [OF assms(2,3)]
  have ok: "disk_ok (cy_disk cy)" using assms(2) by (simp add: cycle_ok_def)
  let ?target = "with_suffix path ''.rejected''"
  note target = quarantine_identity [OF assms(6)]
  consider e where "r = Inl e" "error_ok e" "cy' = cy" | "r = Inr ()" "cy' = cy"
    | (quarantine) "pg_offset pg = length content" "pg_rejected pg" "dget (cy_disk cy) ?target = None"
      "save_state (pop_segment key (cy\<lparr>cy_disk := dset ?target content (dpop path (cy_disk cy)),
         cy_quarantined := cy_quarantined cy + 1\<rparr>)) = (r, cy')"
    | (delete) "pg_offset pg = length content" "\<not> pg_rejected pg"
      "save_state (pop_segment key (cy\<lparr>cy_disk := dpop path (cy_disk cy),
         cy_deleted := cy_deleted cy + 1\<rparr>)) = (r, cy')"
    using assms(1) read_chunk_error
    by (auto simp: finish_segment_def Let_def error_ok_def is_ascii_def split: sum.splits if_splits)
  then show ?thesis
  proof cases
    case quarantine
    from covered_whole [OF assms(4) quarantine(1)] obtain ls
      where ls: "list_all one_line ls" "content = unlines ls" "acked (cy_world cy) ls True"
      using quarantine(2) by auto
    have "disposed (cy_world cy) (cy_disk cy) (dset ?target content (dpop path (cy_disk cy)))"
      using ls assms(5,6) target quarantine(3)
      by (auto simp: disposed_def gone_def dict_simps)
    from removed_segment_ok [OF assms(2,3) fewer_quarantined [OF ok assms(5) target] this _ _ _ _ quarantine(4)]
    show ?thesis by simp
  next
    case delete
    from covered_whole [OF assms(4) delete(1)] obtain ls
      where ls: "list_all one_line ls" "content = unlines ls" "acked (cy_world cy) ls False"
      using delete(2) by auto
    have "disposed (cy_world cy) (cy_disk cy) (dpop path (cy_disk cy))"
      using ls assms(5,6) by (auto simp: disposed_def gone_def dict_simps)
    from removed_segment_ok [OF assms(2,3) fewer_popped [OF ok] this _ _ _ _ delete(3)]
    show ?thesis by simp
  qed (use refl in auto)
qed

lemma ship_segment_ok:
  assumes "ship_segment sh path cy = (r, cy')" and "cycle_ok cy" and "keyed K cy"
    and "unique_keys (cy_disk cy)" and "set (visible_keys (segment_paths (cy_disk cy))) \<subseteq> K"
  shows "segment_post K cy cy' \<and> (\<forall>e. r = Inl e \<longrightarrow> error_ok e)"
proof -
  note refl = segment_post_refl [OF assms(2,3)]
  show ?thesis
  proof (cases "\<exists>p n state content. segment_identity path = Some (p, n, state) \<and>
      state \<noteq> ''rejected'' \<and> dget (cy_disk cy) path = Some content")
    case False
    with assms(1) have "cy' = cy \<and> r = Inr ()"
      by (auto simp: ship_segment_def split: option.splits prod.splits if_splits)
    with refl show ?thesis by simp
  next
    case True
    then obtain p n state content where id: "segment_identity path = Some (p, n, state)"
      and live: "state \<noteq> ''rejected''" and d: "dget (cy_disk cy) path = Some content" by blast
    then have v: "visible (cy_disk cy) p n path content" by (simp add: visible_def)
    have key: "segment_key p n \<in> K" using visible_key_in(2) [OF v] assms(5) by blast
    define pg where "pg = (case dget (ss_segments (cy_state cy)) (segment_key p n) of
        None \<Rightarrow> initial_progress (sh_env sh) | Some pg \<Rightarrow> pg)"
    have cov: "covered (cy_world cy) content pg"
      using assms(2) v covered_initial
      by (auto simp: pg_def cycle_ok_def state_inv_def split: option.split)
    note run = assms(1) [unfolded ship_segment_def Let_def id d option.case prod.case if_not_P [OF live]
        pg_def [symmetric]]
    show ?thesis
    proof (cases "check_prefix (sh_env sh) content pg")
      case (Inl e)
      with run refl show ?thesis
        by (auto simp: check_prefix_def error_ok_def is_ascii_def require_def split: if_splits)
    next
      case (Inr u)
      obtain x cy1 where b: "ship_batches (sh_max_batches sh - cy_batches cy) sh p n content pg cy = (x, cy1)"
        by fastforce
      note post = ship_batches_ok [OF b assms(2,4) v cov assms(3) key]
      have seg: "segment_post K cy cy1" using post by (simp add: batch_post_def segment_post_def)
      show ?thesis
      proof (cases x)
        case (Inl e)
        with run Inr b seg post show ?thesis by auto
      next
        case x: (Inr pg')
        show ?thesis
        proof (cases "state = ''jsonl''")
          case True
          have "finish_segment path (segment_key p n) content pg' cy1 = (r, cy')"
            using run Inr b x True by simp
          from finish_segment_ok [OF this, of K p n] post x seg d id True segment_post_trans [OF seg]
          show ?thesis by (simp add: batch_post_def)
        next
          case False
          with run Inr b x seg show ?thesis by auto
        qed
      qed
    qed
  qed
qed

lemma visible_keys_fewer:
  assumes "fewer disk' disk" and "set (visible_keys (segment_paths disk)) \<subseteq> K"
  shows "set (visible_keys (segment_paths disk')) \<subseteq> K"
proof
  fix k
  assume "k \<in> set (visible_keys (segment_paths disk'))"
  then obtain path p n s where "path \<in> set (segment_paths disk')"
    "segment_identity path = Some (p, n, s)" "s \<noteq> ''rejected''" "k = segment_key p n"
    unfolding visible_keys_def by (auto dest!: map_filter_out split: option.splits if_splits)
  then obtain content where "visible disk' p n path content" "k = segment_key p n"
    by (auto simp: segment_paths_def visible_def dest!: weak_map_of_SomeI)
  with assms show "k \<in> K" unfolding fewer_def using visible_key_in(2) by blast
qed

lemma ship_segments_ok:
  assumes "ship_segments sh paths cy = (r, cy')" and "cycle_ok cy" and "keyed K cy"
    and "unique_keys (cy_disk cy)" and "set (visible_keys (segment_paths (cy_disk cy))) \<subseteq> K"
  shows "segment_post K cy cy' \<and> (\<forall>e. r = Inl e \<longrightarrow> error_ok e)"
  using assms
proof (induction paths arbitrary: cy)
  case Nil
  then show ?case using segment_post_refl by auto
next
  case (Cons path paths)
  obtain x cy1 where one: "ship_segment sh path cy = (x, cy1)" by fastforce
  note post = ship_segment_ok [OF one Cons.prems(2-)]
  then have fewer: "fewer (cy_disk cy1) (cy_disk cy)" by (simp add: segment_post_def moved_def)
  show ?case
  proof (cases "\<exists>e. x = Inl e \<or> cy' = cy1 \<and> r = Inr ()")
    case True
    with Cons.prems(1) one post show ?thesis by auto
  next
    case False
    with Cons.prems(1) one have rest: "ship_segments sh paths cy1 = (r, cy')"
      by (cases x) (auto split: if_splits)
    have "segment_post K cy1 cy' \<and> (\<forall>e. r = Inl e \<longrightarrow> error_ok e)"
      using post unique_keys_fewer [OF Cons.prems(4) fewer] visible_keys_fewer [OF fewer Cons.prems(5)]
      by (intro Cons.IH [OF rest]) (simp_all add: segment_post_def)
    with post segment_post_trans show ?thesis by blast
  qed
qed

section \<open>The cycle\<close>

lemma save_error_cleared:
  assumes "save_state (cy\<lparr>cy_state := (cy_state cy)\<lparr>ss_error := x\<rparr>\<rparr>) = (r, cy')" and "cycle_ok cy"
    and "pred_option (\<lambda>e. is_ascii e \<and> length e \<le> 128) x"
  shows "cycle_ok cy' \<and> moved cy cy' \<and> (\<forall>e. r = Inl e \<longrightarrow> error_ok e)"
proof -
  have "cycle_ok (cy\<lparr>cy_state := (cy_state cy)\<lparr>ss_error := x\<rparr>\<rparr>)"
    using assms(2) state_inv_scalars(3) [OF _ assms(3)] by (simp add: cycle_ok_def)
  from save_state_ok [OF assms(1) this] show ?thesis by (auto simp: moved_def)
qed

lemma cycle_body_ok:
  assumes "cycle_body sh cy = (r, cy')" and "cycle_ok cy"
  shows "cycle_ok cy' \<and> moved cy cy' \<and> (\<forall>e. r = Inl e \<longrightarrow> error_ok e)"
proof -
  let ?paths = "segment_paths (cy_disk cy)" and ?s = "cy_state cy"
  let ?K = "set (visible_keys ?paths)"
  let ?cy1 = "cy\<lparr>cy_state := ?s\<lparr>ss_segments := filter (\<lambda>(k, _). k \<in> ?K) (ss_segments ?s)\<rparr>\<rparr>"
  consider e where "r = Inl e" "error_ok e" "cy' = cy"
    | x cy2 where "length ?paths \<le> max_segments" "distinct (visible_keys ?paths)"
        "ship_segments sh ?paths ?cy1 = (x, cy2)"
        "(case x of Inl e \<Rightarrow> (Inl e, cy2)
          | Inr _ \<Rightarrow> save_state (cy2\<lparr>cy_state := (cy_state cy2)\<lparr>ss_error := None\<rparr>\<rparr>)) = (r, cy')"
    using assms(1)
    by (auto simp: cycle_body_def Let_def error_ok_def is_ascii_def split: if_splits prod.splits)
  then show ?thesis
  proof cases
    case 1
    with assms(2) moved_refl show ?thesis by auto
  next
    case (2 x cy2)
    have "cycle_ok ?cy1" "moved cy ?cy1"
      using assms(2) state_inv_filter moved_refl [OF assms(2)] by (simp_all add: cycle_ok_def moved_def)
    moreover have "length (visible_keys ?paths) \<le> length ?paths"
      by (simp add: visible_keys_def List.map_filter_def)
    then have "keyed ?K ?cy1"
      using 2(1) card_length [of "visible_keys ?paths"] by (auto simp: keyed_def)
    ultimately have post: "cycle_ok cy2 \<and> moved cy cy2 \<and> (\<forall>e. x = Inl e \<longrightarrow> error_ok e)"
      using ship_segments_ok [OF 2(3), of ?K] distinct_keys_unique [OF 2(2)] moved_trans
      by (fastforce simp: segment_post_def)
    show ?thesis
    proof (cases x)
      case (Inl e)
      with 2(4) post show ?thesis by auto
    next
      case (Inr u)
      with 2(4) have "save_state (cy2\<lparr>cy_state := (cy_state cy2)\<lparr>ss_error := None\<rparr>\<rparr>) = (r, cy')" by simp
      from save_error_cleared [OF this] post
      have "cycle_ok cy' \<and> moved cy2 cy' \<and> (\<forall>e. r = Inl e \<longrightarrow> error_ok e)" by simp
      with post moved_trans show ?thesis by blast
    qed
  qed
qed

lemma loaded_state:
  assumes "checkpoint_inv w disk file" and "load_state (sh_env sh) file = Inr s"
  shows "state_inv w disk s"
proof (cases "file")
  case None
  with assms(2) show ?thesis by (auto simp: load_state_def state_inv_def) (simp add: empty_state_def)
next
  case (Some b)
  then obtain t where t: "state_bytes t = Inr b" "state_inv w disk t"
    using assms(1) by (auto simp: checkpoint_inv_def)
  then have ok: "state_ok (sh_env sh) t" by (simp add: state_inv_def)
  have s: "s = t\<lparr>ss_segments := sort_key fst (ss_segments t)\<rparr>"
    using checkpoint_reads_back [OF ok t(1)] assms(2) Some by simp
  have wf: "dwf (ss_segments t)" using ok by (simp add: state_ok_def)
  show ?thesis
    using t(2) ok map_of_sort_key [OF wf] distinct_sort_key_fst [OF wf]
    by (simp add: s state_inv_def state_ok_def list_all_iff)
qed

lemma ship_cycle_ok:
  assumes "ship_cycle sh disk file w = (r, disk', file', w', rest)" and "ok w" and "disk_ok disk"
    and "checkpoint_inv w disk file"
  shows "later w w' \<and> disk_ok disk' \<and> checkpoint_inv w' disk' file' \<and> disposed w' disk disk' \<and>
    fewer disk' disk"
proof (cases "load_state (sh_env sh) file")
  case (Inl e)
  with assms show ?thesis by (auto simp: ship_cycle_def later_refl disposed_refl fewer_refl)
next
  case (Inr s)
  let ?cy = "\<lparr>cy_disk = disk, cy_checkpoint = file, cy_state = s, cy_batches = 0, cy_accepted = 0,
    cy_rejected = 0, cy_deleted = 0, cy_quarantined = 0, cy_world = w\<rparr>"
  obtain x cy where body: "cycle_body sh ?cy = (x, cy)" by fastforce
  have "cycle_ok ?cy" using assms(2-4) loaded_state [OF assms(4) Inr] by (simp add: cycle_ok_def)
  note post = cycle_body_ok [OF body this]
  obtain y cy' where last: "(case x of
        Inl (ShippingError code again) \<Rightarrow>
          (case save_state (cy\<lparr>cy_state := (cy_state cy)\<lparr>ss_error := Some code\<rparr>\<rparr>) of
             (Inl e, cy1) \<Rightarrow> (Inl e, cy1)
           | (Inr _, cy1) \<Rightarrow> (Inl (ShippingError code again), cy1))
      | _ \<Rightarrow> (x, cy)) = (y, cy')" by fastforce
  have "cycle_ok cy' \<and> moved ?cy cy'"
  proof (cases "\<exists>code again. x = Inl (ShippingError code again)")
    case True
    then obtain code again where x: "x = Inl (ShippingError code again)" by blast
    obtain z cy1 where save: "save_state (cy\<lparr>cy_state := (cy_state cy)\<lparr>ss_error := Some code\<rparr>\<rparr>) = (z, cy1)"
      by fastforce
    with last x have "cy' = cy1" by (auto split: sum.splits)
    with save_error_cleared [OF save] post x moved_trans show ?thesis by (auto simp: error_ok_def)
  next
    case False
    with last post show ?thesis by (auto split: sum.splits ship_error.splits)
  qed
  moreover have "disk' = cy_disk cy' \<and> file' = cy_checkpoint cy' \<and> w' = cy_world cy'"
    using assms(1) Inr body last by (simp add: ship_cycle_def Let_def)
  ultimately show ?thesis by (simp add: moved_def cycle_ok_def)
qed

end

end
