(* ===== verification/Delivery_Properties.thy ===== *)
theory Delivery_Properties
  imports Collector_Client Shipper_Properties
begin

text \<open>
  The collector behind its HTTP client keeps the contract of \<open>acknowledging_sender\<close>: an answer the
  client returns stands in the receipt table, and each of its results is what a step of the evidence
  did with the line.
\<close>

section \<open>The request\<close>

lemma client_header_values:
  "raw_header_values (client_headers key b p body) ''x-verdict-batch-id'' = [b]"
  "raw_header_values (client_headers key b p body) ''x-verdict-producer-id'' = [p]"
  by (simp_all add: raw_header_values_def client_headers_def lower_def lower_char_def char_of_def bit_Suc_0_iff)

lemma client_request_headers:
  assumes "request_headers (client_headers key b p body) = Inr (ct, ce, bo, po, cl)"
  shows "bo = Some b \<and> po = Some p"
proof -
  from assms have "one_header (client_headers key b p body) ''x-verdict-batch-id'' 512 = Inr bo"
    "one_header (client_headers key b p body) ''x-verdict-producer-id'' 512 = Inr po"
    by (auto simp: request_headers_def bindr_eq_Inr)
  then show ?thesis by (simp_all add: one_header_def client_header_values split: if_splits)
qed

lemma client_request:
  assumes "check_request env digest (client_headers key b p body) = Inr (b', p')"
  shows "b' = b \<and> p' = p \<and> is_transport_id b \<and> is_transport_id p"
proof -
  obtain x where h: "request_headers (client_headers key b p body) = Inr x"
    using assms by (auto simp: check_request_def split: if_splits sum.splits)
  obtain ct ce bo po cl where x: "x = (ct, ce, bo, po, cl)" by (metis prod_cases5)
  with client_request_headers h have "bo = Some b" "po = Some p" by blast+
  with assms h x show ?thesis
    by (auto simp: check_request_def split: if_splits option.splits)
qed

section \<open>Answers and the steps of the evidence\<close>

definition line_outcome :: "collector \<Rightarrow> wire \<Rightarrow> string \<Rightarrow> string option \<Rightarrow> bool" where
  "line_outcome co w d error \<longleftrightarrow> (\<exists>st st' late lines results.
     (st, st') \<in> set (wr_past w) \<and> apply_lines co late 0 lines st = (Inr results, st') \<and>
     (d, error) \<in> set results)"

definition answers_applied :: "collector \<Rightarrow> wire \<Rightarrow> bool" where
  "answers_applied co w \<longleftrightarrow> (\<forall>b p digest answer.
     ledger_of (wr_table w) (co_tenant co, b) = Some (p, digest, answer) \<longrightarrow>
     (\<exists>st st' late lines results. (st, st') \<in> set (wr_past w) \<and>
        apply_lines co late 0 lines st = (Inr results, st') \<and> results_ok results \<and>
        answer = json_dumps True (ack_payload b results)))"

definition wire_ok :: "collector \<Rightarrow> wire \<Rightarrow> bool" where
  "wire_ok co w \<longleftrightarrow> collector_ok co \<and> (\<forall>t. is_ascii (pe_iso (dc_env (co_decoder co)) t)) \<and>
     receipts_wf (dc_env (co_decoder co)) (wr_now w) (wr_table w) \<and> answers_applied co w"

lemma outcomes_ack_results:
  assumes "dget p ''results'' = Some (JList (ack_results results))"
  shows "outcomes p = map (\<lambda>(d, e). (d, e = None)) results"
proof -
  have one: "(result_digest (sort_keys (ack_result i r)), is_accepted (sort_keys (ack_result i r)))
      = (fst r, snd r = None)" for i r
  proof -
    let ?d = "[(''index'', JInt (int i)), (''recordDigest'', JStr (fst r)),
       (''status'', JStr (if snd r = None then ''accepted'' else ''rejected'')),
       (''error'', opt_json JStr (snd r))]"
    obtain q where q: "sort_keys (JDict ?d) = JDict q" "\<And>k. dget q k = map_option sort_keys (dget ?d k)"
      using sorted_lookup [of ?d] by auto
    show ?thesis
      unfolding ack_result_def q(1) by (simp add: result_digest_def is_accepted_def field_def q(2))
  qed
  have "map ((\<lambda>r. (result_digest r, is_accepted r)) \<circ> (\<lambda>(i, r). sort_keys (ack_result i r)))
      (enumerate n results) = map (\<lambda>(d, e). (d, e = None)) results" for n
    using one by (induction results arbitrary: n) auto
  then show ?thesis using assms by (simp add: outcomes_def field_def ack_results_def)
qed

text \<open>A step of the collector on the wire.\<close>

lemma ingest_answers:
  assumes "ingest_batch co late b p body (t0, t1) fault (wr_table w) (wr_store w) = (result, table, st)"
    and "wire_ok co w" and "wr_now w \<le> t0" and "t0 \<le> t1"
  shows "wire_ok co (w\<lparr>wr_now := t1, wr_gate := gate, wr_table := table, wr_store := st,
    wr_past := wr_past w @ [(wr_store w, st)], wr_script := script\<rparr>)" (is "wire_ok co ?w")
proof -
  let ?env = "dc_env (co_decoder co)" and ?past = "set (wr_past w @ [(wr_store w, st)])"
  have co: "collector_ok co" and wf: "receipts_wf ?env (wr_now w) (wr_table w)"
    and old: "answers_applied co w"
    using assms(2) by (simp_all add: wire_ok_def)
  have "receipts_wf ?env t1 table" by (rule ingest_step(1) [OF assms(1) co wf assms(3,4)])
  moreover have "\<exists>s s' late lines results. (s, s') \<in> ?past \<and>
        apply_lines co late 0 lines s = (Inr results, s') \<and> results_ok results \<and>
        answer = json_dumps True (ack_payload i results)"
    if new: "ledger_of table (co_tenant co, i) = Some (q, digest, answer)" for i q digest answer
  proof (cases "ledger_of (wr_table w) (co_tenant co, i) = Some (q, digest, answer)")
    case True
    with old show ?thesis unfolding answers_applied_def by fastforce
  next
    case False
    from assms(1) show ?thesis
    proof (cases rule: ingest_batch_cases)
      case (processed lines)
      have "ledger_step (ledger_of (wr_table w)) (co_tenant co, b) (p, pe_sha256 ?env body)
          (apply_batch co late b lines) (wr_store w) result (ledger_of table) st"
        by (rule process_receipt_ledger [OF processed(4) wf assms(3) request_ok_collector [OF co processed(1,2)]])
      with False new have "i = b" and run: "apply_batch co late b lines (wr_store w) = (Inr answer, st)"
        by (auto simp: ledger_step_def split: option.splits sum.splits if_splits)
      then obtain results where r: "apply_lines co late 0 lines (wr_store w) = (Inr results, st)"
        "answer = json_dumps True (ack_payload i results)"
        by (auto simp: apply_batch_def Let_def split: prod.splits sum.splits if_splits)
      with apply_batch_results [OF r(1) co processed(3)] show ?thesis by fastforce
    qed (use False new in simp)
  qed
  ultimately show ?thesis
    using assms(2) unfolding wire_ok_def answers_applied_def by simp
qed

lemma wire_ok_passes:
  assumes "wire_ok co w" and "wr_now w \<le> t"
  shows "wire_ok co (w\<lparr>wr_now := t\<rparr>)" and "wire_ok co (w\<lparr>wr_script := s\<rparr>)"
  using assms receipts_wf_later [OF _ assms(2)]
  by (simp_all add: wire_ok_def answers_applied_def)

lemma line_outcome_mono:
  "line_outcome co w d e \<Longrightarrow> set (wr_past w) \<subseteq> set (wr_past w') \<Longrightarrow> line_outcome co w' d e"
  unfolding line_outcome_def by blast

section \<open>The contract\<close>

lemma http_error_ok: "code \<le> 999 \<Longrightarrow> error_ok (http_error code again)"
  using length_dec_of_nat [of code 3] is_ascii_digits [OF dec_of_nat_digits [of code]]
  by (simp add: http_error_def error_ok_def is_ascii_def)

definition low_status :: "http_response \<Rightarrow> bool" where
  "low_status r = (case r of JsonError code status again \<Rightarrow> status \<le> 999 | _ \<Rightarrow> False)"

definition low_boundary :: "delivery_error \<Rightarrow> bool" where
  "low_boundary e = (case e of BatchBoundary code status \<Rightarrow> status \<le> 999 | _ \<Rightarrow> True)"

lemma low_error_response: "low_boundary e \<Longrightarrow> low_status (error_response e)"
  by (cases e) (simp_all add: error_response_def low_status_def low_boundary_def)

lemma batch_lines_low: "batch_lines body = Inl e \<Longrightarrow> low_boundary e"
  by (auto simp: batch_lines_def Let_def low_boundary_def split: if_splits)

lemma one_header_low: "one_header hs n m = Inl e \<Longrightarrow> low_boundary e"
  by (auto simp: one_header_def low_boundary_def split: list.splits if_splits)

lemma request_headers_low: "request_headers headers = Inl e \<Longrightarrow> low_boundary e"
  unfolding request_headers_def bindr_eq_Inl by (auto dest: one_header_low)

lemma check_request_low: "check_request env digest headers = Inl r \<Longrightarrow> low_status r"
  unfolding check_request_def
  by (auto simp: low_status_def split: if_splits sum.splits option.splits)
    (simp add: low_error_response [unfolded low_status_def] request_headers_low)

lemma ingest_low:
  assumes "ingest_batch co late b p body (t0, t1) fault table st = (Inl e, table', st')"
    and "collector_ok co" and "receipts_wf (dc_env (co_decoder co)) now table" and "now \<le> t0"
  shows "low_boundary e"
  using assms(1)
proof (cases rule: ingest_batch_cases)
  case (refused x)
  with batch_lines_low show ?thesis
    by (auto simp: bindr_eq_Inl validate_ids_def low_boundary_def split: sum.splits)
next
  case (processed lines)
  have plain: "low_boundary (ReceiptCorrupt m)" "low_boundary ReceiptBusy" "low_boundary ReceiptConflict"
    for m by (simp_all add: low_boundary_def)
  have applied: "low_boundary e" if "fst (apply_batch co late b lines st) = Inl e"
    using that apply_lines_failed
    by (fastforce simp: apply_batch_def Let_def low_boundary_def split: if_splits prod.splits sum.splits)
  from processed(4) assms(3,4) request_ok_collector [OF assms(2) processed(1,2)] show ?thesis
  proof (cases rule: process_receipt_cases)
    case (answered r)
    then show ?thesis using plain by (cases "cr_response_body r") (auto split: if_splits)
  next
    case (attempt r)
    from attempt_batch_error [OF attempt(5)] show ?thesis using plain applied by auto
  qed (use plain in auto)
qed

text \<open>One request of the client.\<close>

lemma http_send_step:
  assumes "http_send co secret key b p body w = (r, w')" and "wire_ok co w"
  shows "wire_ok co w' \<and> set (wr_past w) \<subseteq> set (wr_past w') \<and> (\<forall>e. r = Inl e \<longrightarrow> error_ok e) \<and>
    (\<forall>answer. r = Inr answer \<longrightarrow>
       (\<exists>digest. ledger_of (wr_table w') (co_tenant co, b) = Some (p, digest, answer)))"
proof (cases "wr_script w")
  case Nil
  with assms show ?thesis
    by (auto simp: http_send_def client_result_def error_ok_def is_ascii_def)
next
  case (Cons dl script)
  show ?thesis
  proof (cases "dl_loss dl = RequestLost")
    case True
    with assms Cons wire_ok_passes(2) [OF assms(2) order_refl] show ?thesis
      by (auto simp: http_send_def client_result_def error_ok_def is_ascii_def)
  next
    case False
    let ?t0 = "wr_now w + int (dl_before dl)" and ?env = "dc_env (co_decoder co)"
    let ?t1 = "?t0 + int (dl_between dl)"
    let ?headers = "client_headers key b p body"
    obtain response gate table st where h: "handle_ingest co secret (dl_late dl) ?headers [body] (?t0, ?t1)
        (dl_fault dl) (wr_gate w) (wr_table w) (wr_store w) = (response, gate, table, st)"
      by (metis prod_cases4)
    define v where "v = w\<lparr>wr_now := ?t1, wr_gate := gate, wr_table := table, wr_store := st,
        wr_past := wr_past w @ [(wr_store w, st)], wr_script := script\<rparr>"
    have w': "w' = v"
      and r: "r = client_result (if dl_loss dl = AnswerLost then Unreachable else http_outcome response)"
      using assms(1) Cons False h by (simp_all add: http_send_def Let_def v_def)
    have "wire_ok co v \<and> (low_status response \<or> (\<exists>answer digest. response = Answer answer \<and>
        ledger_of table (co_tenant co, b) = Some (p, digest, answer)))"
    proof (cases "table = wr_table w \<and> st = wr_store w \<and> low_status response")
      case True
      have "wire_ok co (w\<lparr>wr_now := ?t1\<rparr>)" by (rule wire_ok_passes(1) [OF assms(2)]) simp
      with True show ?thesis unfolding v_def wire_ok_def answers_applied_def by fastforce
    next
      case False
      from False h check_request_low obtain b' p' where c: "check_request ?env secret ?headers = Inr (b', p')"
        by (cases "check_request ?env secret ?headers") (auto simp: handle_ingest_def)
      from client_request [OF c] have bp: "b' = b" "p' = p" by simp_all
      obtain gate1 where g: "gate_enter (wr_gate w) = (True, gate1)"
        using False h c by (cases "gate_enter (wr_gate w)"; cases "fst (gate_enter (wr_gate w))")
          (auto simp: handle_ingest_def low_status_def)
      have "read_body [body] [] = Some body"
        using False h c g by (auto simp: handle_ingest_def low_status_def split: if_splits)
      with h c g bp obtain result where i: "ingest_batch co (dl_late dl) b p body (?t0, ?t1) (dl_fault dl)
          (wr_table w) (wr_store w) = (result, table, st)"
        and resp: "response = (case result of Inl e \<Rightarrow> error_response e | Inr a \<Rightarrow> Answer a)"
        by (auto simp: handle_ingest_def split: prod.splits sum.splits)
      have co: "collector_ok co" "receipts_wf ?env (wr_now w) (wr_table w)"
        using assms(2) by (simp_all add: wire_ok_def)
      have "wire_ok co v" unfolding v_def by (rule ingest_answers [OF i assms(2)]) simp_all
      moreover have "low_status response" if "result = Inl e" for e
        using ingest_low [OF i [unfolded that] co] resp that low_error_response by simp
      moreover have "ledger_of table (co_tenant co, b) = Some (p, pe_sha256 ?env body, a)" if "result = Inr a" for a
        using answered_in_ledger [OF i [unfolded that] co] by simp
      ultimately show ?thesis using resp by (cases result) auto
    qed
    then show ?thesis
      using http_error_ok
      by (auto simp: w' r v_def client_result_def http_outcome_def low_status_def error_ok_def is_ascii_def
          split: if_splits http_response.splits)
  qed
qed

interpretation wire: acknowledging_sender "collector_shipper co secret key url attempts batches stop"
    "wire_ok co" "\<lambda>w d. line_outcome co w d None" "\<lambda>w d. \<exists>e. line_outcome co w d (Some e)"
  for co secret key url attempts batches stop
proof
  let ?sh = "collector_shipper co secret key url attempts batches stop"
  fix w w' :: wire and b p body r n s e d good response ack
  assume w: "wire_ok co w"
  then have env: "py_env_ok (dc_env (co_decoder co))" by (auto simp: wire_ok_def dest: collector_okD)
  then show "py_env_ok (sh_env ?sh)" "is_digest (sh_destination ?sh)"
    "is_ascii (sh_now ?sh w) \<and> pe_iso_parse (sh_env ?sh) (sh_now ?sh w) \<noteq> None"
    using w by (auto simp: collector_shipper_def py_env_ok_def wire_ok_def)
  show "wire_ok co w' \<and> (\<forall>d. line_outcome co w d None \<longrightarrow> line_outcome co w' d None) \<and>
      (\<forall>d. (\<exists>e. line_outcome co w d (Some e)) \<longrightarrow> (\<exists>e. line_outcome co w' d (Some e)))"
    if "sh_send ?sh b p body w = (r, w')"
    using http_send_step [of co secret key b p body w r w'] w that line_outcome_mono
    by (auto simp: collector_shipper_def) blast
  show "wire_ok co w' \<and> (\<forall>d. line_outcome co w d None \<longrightarrow> line_outcome co w' d None) \<and>
      (\<forall>d. (\<exists>e. line_outcome co w d (Some e)) \<longrightarrow> (\<exists>e. line_outcome co w' d (Some e)))"
    if "sh_wait ?sh n w = (s, w')"
  proof -
    have w': "w' = w\<lparr>wr_now := wr_now w + int n * 1000000\<rparr>"
      using that by (simp add: collector_shipper_def Let_def)
    have "wire_ok co w'" unfolding w' by (rule wire_ok_passes(1) [OF w]) simp
    moreover have "line_outcome co w' d x = line_outcome co w d x" for d x
      by (simp add: line_outcome_def w')
    ultimately show ?thesis by simp
  qed
  show "error_ok e" if "sh_send ?sh b p body w = (Inl e, w')"
    using http_send_step [of co secret key b p body w "Inl e" w'] w that by (simp add: collector_shipper_def)
  show "if good then line_outcome co w' d None else \<exists>e. line_outcome co w' d (Some e)"
    if sent: "is_transport_id b" "sh_send ?sh b p body w = (Inr response, w')"
      "parse_acknowledgement (sh_env ?sh) response b = Inr ack" "(d, good) \<in> set (outcomes ack)"
  proof -
    obtain digest where "ledger_of (wr_table w') (co_tenant co, b) = Some (p, digest, response)"
      and "answers_applied co w'"
      using http_send_step [of co secret key b p body w "Inr response" w'] w sent(2)
      by (auto simp: collector_shipper_def wire_ok_def)
    then obtain st st' late lines results where step: "(st, st') \<in> set (wr_past w')"
      "apply_lines co late 0 lines st = (Inr results, st')" "results_ok results"
      "response = json_dumps True (ack_payload b results)"
      unfolding answers_applied_def by metis
    from ack_reads_back [OF step(3) sent(1), of "sh_env ?sh"] sent(3) step(4)
    have "dget ack ''results'' = Some (JList (ack_results results))"
      by (auto simp: parse_acknowledgement_def)
    from outcomes_ack_results [OF this] sent(4) obtain x where "(d, x) \<in> set results" "good = (x = None)"
      by auto
    then have "line_outcome co w' d x" using step(1,2) unfolding line_outcome_def by blast
    with \<open>good = (x = None)\<close> show ?thesis by (cases x) auto
  qed
qed


text \<open>
  The shipper and the collector together: on every run of cycles, appends by the producers and
  deliveries of others, whatever the network and the database lose.
\<close>

section \<open>Runs\<close>

text \<open>
  Producers append to a segment, seal it under another name, or start one whose key the checkpoint
  does not know.
\<close>

definition extended :: "py_env \<Rightarrow> string option \<Rightarrow> spool \<Rightarrow> spool \<Rightarrow> bool" where
  "extended env file disk disk' \<longleftrightarrow> disk_ok disk' \<and>
     (\<forall>p n path content. visible disk' p n path content \<longrightarrow>
        (\<exists>old before. visible disk p n old before \<and> prefix before content) \<or>
        (\<forall>s. load_state env file = Inr s \<longrightarrow> dget (ss_segments s) (segment_key p n) = None))"

inductive delivery_step ::
  "collector \<Rightarrow> wire shipper \<Rightarrow> spool \<times> string option \<times> wire \<Rightarrow> spool \<times> string option \<times> wire \<Rightarrow> bool"
  for co sh where
  cycle: "ship_cycle sh disk file w = (r, disk', file', w', rest) \<Longrightarrow>
    delivery_step co sh (disk, file, w) (disk', file', w')"
| produce: "extended (sh_env sh) file disk disk' \<Longrightarrow> delivery_step co sh (disk, file, w) (disk', file, w)"
| other: "ingest_batch co late b p body (t0, t1) fault (wr_table w) (wr_store w) = (result, table, st) \<Longrightarrow>
    wr_now w \<le> t0 \<Longrightarrow> t0 \<le> t1 \<Longrightarrow>
    delivery_step co sh (disk, file, w) (disk, file, w\<lparr>wr_now := t1, wr_gate := gate, wr_table := table,
      wr_store := st, wr_past := wr_past w @ [(wr_store w, st)], wr_script := script\<rparr>)"

context acknowledging_sender
begin

lemma covered_prefix:
  assumes "covered w before pg" and "prefix before content"
  shows "covered w content pg"
  using assms by (auto simp: covered_def prefix_def)

lemma checkpoint_extended:
  assumes "checkpoint_inv w disk file" and "extended (sh_env sh) file disk disk'"
  shows "checkpoint_inv w disk' file"
proof (cases "file")
  case (Some b)
  then obtain s where s: "state_bytes s = Inr b" "state_inv w disk s"
    using assms(1) by (auto simp: checkpoint_inv_def)
  then have ok: "state_ok (sh_env sh) s" by (simp add: state_inv_def)
  note loaded = checkpoint_reads_back [OF ok s(1)]
  have wf: "dwf (ss_segments s)" using ok by (simp add: state_ok_def)
  have "covered w content pg"
    if v: "visible disk' p n path content" and pg: "dget (ss_segments s) (segment_key p n) = Some pg"
    for p n path content pg
  proof -
    have "dget (ss_segments (s\<lparr>ss_segments := sort_key fst (ss_segments s)\<rparr>)) (segment_key p n) = Some pg"
      using pg map_of_sort_key [OF wf] by simp
    with assms(2) v loaded Some obtain old before where "visible disk p n old before" "prefix before content"
      unfolding extended_def by (metis option.discI)
    with s(2) pg show ?thesis unfolding state_inv_def by (blast intro: covered_prefix)
  qed
  with s Some ok show ?thesis by (auto simp: checkpoint_inv_def state_inv_def)
qed (simp add: checkpoint_inv_def)

end

section \<open>The invariant of a run\<close>

definition delivery_ok ::
  "collector \<Rightarrow> string \<Rightarrow> string \<Rightarrow> string \<Rightarrow> nat \<Rightarrow> nat \<Rightarrow> (int \<Rightarrow> bool)
     \<Rightarrow> spool \<times> string option \<times> wire \<Rightarrow> bool" where
  "delivery_ok co secret key url attempts batches stop s \<longleftrightarrow>
     (case s of (disk, file, w) \<Rightarrow> disk_ok disk \<and> wire_ok co w \<and>
        wire.checkpoint_inv co secret key url attempts batches stop w disk file)"

lemma later_wireI:
  assumes "wire_ok co w'" and "set (wr_past w) \<subseteq> set (wr_past w')"
  shows "wire.later co w w'"
  using assms line_outcome_mono unfolding wire.later_def by blast

lemma delivery_step_ok:
  assumes "delivery_step co (collector_shipper co secret key url attempts batches stop) s s'"
    and "delivery_ok co secret key url attempts batches stop s"
  shows "delivery_ok co secret key url attempts batches stop s'"
  using assms(1)
proof cases
  case (cycle disk "file" w r disk' file' w' rest)
  with assms(2) wire.ship_cycle_ok [OF cycle(3)] wire.later_ok show ?thesis
    by (auto simp: delivery_ok_def)
next
  case (produce "file" disk disk' w)
  with assms(2) wire.checkpoint_extended [OF _ produce(3)] show ?thesis
    by (simp add: delivery_ok_def extended_def)
next
  case (other late b p body t0 t1 fault w result table st disk "file" script gate)
  let ?w = "w\<lparr>wr_now := t1, wr_gate := gate, wr_table := table, wr_store := st,
      wr_past := wr_past w @ [(wr_store w, st)], wr_script := script\<rparr>"
  have ok: "wire_ok co ?w"
    using assms(2) other(1,4,5) by (intro ingest_answers [OF other(3)]) (simp_all add: delivery_ok_def)
  then have "wire.later co w ?w" by (rule later_wireI) auto
  with assms(2) other(1,2) ok fewer_refl wire.checkpoint_inv_mono show ?thesis
    by (auto simp: delivery_ok_def)
qed

lemma delivery_run_ok:
  "(delivery_step co (collector_shipper co secret key url attempts batches stop))\<^sup>*\<^sup>* s s'
     \<Longrightarrow> delivery_ok co secret key url attempts batches stop s
     \<Longrightarrow> delivery_ok co secret key url attempts batches stop s'"
  by (induction rule: rtranclp_induct) (auto intro: delivery_step_ok)

section \<open>Nothing is lost\<close>

lemma acked_wire:
  "wire.acked co secret key url attempts batches stop w ls r \<longleftrightarrow> (\<forall>l\<in>set ls.
     line_outcome co w (pe_sha256 (dc_env (co_decoder co)) l) None \<or>
     r \<and> (\<exists>e. line_outcome co w (pe_sha256 (dc_env (co_decoder co)) l) (Some e)))"
  unfolding wire.acked_def by (simp add: collector_shipper_def)

text \<open>C1 (safety). A capture segment leaves the spool only when it is sealed and its records are
in the evidence: after any run of cycles, appends by producers and deliveries of others, with
requests and answers lost and databases busy, a cycle that removes a segment has had every record of
it stored by a step of the evidence; if some were refused, the segment is kept in quarantine.\<close>

theorem removed_segment_is_stored:
  assumes "(delivery_step co (collector_shipper co secret key url attempts batches stop))\<^sup>*\<^sup>*
      ([], None, w0) (disk, file, w)" and "wire_ok co w0"
    and "ship_cycle (collector_shipper co secret key url attempts batches stop) disk file w
      = (r, disk', file', w', rest)"
    and "dget disk path = Some content" and "dget disk' path \<noteq> Some content"
  shows "\<exists>producer n ls. segment_identity path = Some (producer, n, ''jsonl'') \<and>
    list_all one_line ls \<and> content = unlines ls \<and>
    ((\<forall>l\<in>set ls. line_outcome co w' (pe_sha256 (dc_env (co_decoder co)) l) None) \<or>
     dget disk' (with_suffix path ''.rejected'') = Some content \<and>
     (\<forall>l\<in>set ls. \<exists>e. line_outcome co w' (pe_sha256 (dc_env (co_decoder co)) l) e))"
proof -
  have "delivery_ok co secret key url attempts batches stop ([], None, w0)"
    using assms(2) by (simp add: delivery_ok_def disk_ok_def wire.checkpoint_inv_def)
  from delivery_run_ok [OF assms(1) this] have ok: "disk_ok disk" "wire_ok co w"
    "wire.checkpoint_inv co secret key url attempts batches stop w disk file"
    by (simp_all add: delivery_ok_def)
  have "wire.disposed co secret key url attempts batches stop w' disk disk'"
    using wire.ship_cycle_ok [OF assms(3) ok(2,1,3)] by simp
  with assms(4,5) have "wire.gone co secret key url attempts batches stop w' path content disk'"
    unfolding wire.disposed_def by blast
  then show ?thesis unfolding wire.gone_def acked_wire by blast
qed

text \<open>C34 (bounds). Every batch the shipper cuts is one the collector takes: its identifier is
well formed, it has at least one record and no more than the collector allows, it stays within the
byte bound, and the collector splits it into the very records the shipper counted.\<close>

theorem shipped_batch_fits:
  assumes "py_env_ok env" and "visible disk producer n path content" and "disk_ok disk"
    and "read_chunk content offset = Inr c" and "ck_body c \<noteq> []"
  shows "batch_lines (ck_body c) = Inr (ck_lines c) \<and> length (ck_body c) \<le> max_batch_bytes \<and>
    (\<exists>batch_id. make_batch_id env producer n offset (ck_end c) (ck_body c) = Inr batch_id \<and>
      validate_ids batch_id producer = Inr ())"
proof -
  note id = visibleD [OF assms(2)]
  have "length content \<le> 2 ^ 63 - 1" using assms(3) id(3) unfolding disk_ok_def by blast
  then have "offset \<le> 2 ^ 63 - 1" "ck_end c \<le> 2 ^ 63 - 1"
    using read_chunk_cases(1,7) [OF assms(4)] by linarith+
  from batch_id_made [OF assms(1) id(2) this] id(1)
  have "\<exists>batch_id. make_batch_id env producer n offset (ck_end c) (ck_body c) = Inr batch_id \<and>
      validate_ids batch_id producer = Inr ()"
    by (fastforce simp: validate_ids_def validate_transport_id_def)
  with chunk_batch_lines [OF assms(4,5)] read_chunk_cases(5) [OF assms(4)] show ?thesis by simp
qed

end
