(* ===== verification/Delivery_Samples.thy ===== *)
theory Delivery_Samples
  imports Delivery_Properties Collector_Samples
begin

text \<open>A sealed segment with the sample record, shipped to the sample collector and removed.\<close>

section \<open>The request\<close>

definition sample_secret :: string where
  "sample_secret = replicate 64 (CHR ''0'')"

lemma sample_body_length: "length sample_body \<le> max_batch_bytes"
  using sample_decoded(3) by (simp add: sample_body_def newline_def max_batch_bytes_def max_record_bytes_def)

lemma sample_header_values:
  "raw_header_values (client_headers key b p body) ''authorization'' = [''Bearer '' @ key]"
  "raw_header_values (client_headers key b p body) ''content-type'' = [''application/x-ndjson; charset=utf-8'']"
  "raw_header_values (client_headers key b p body) ''content-encoding'' = []"
  "raw_header_values (client_headers key b p body) ''content-length'' = [dec_of_nat (length body)]"
  by (simp_all add: raw_header_values_def client_headers_def lower_def lower_char_def char_of_def
      bit_Suc_0_iff)

lemma sample_media: "media_type_allowed (Some ''application/x-ndjson; charset=utf-8'')"
  by (simp add: media_type_allowed_def lower_def lower_char_def strip_def is_space_def)

lemma client_accepted:
  assumes "pe_sha256 env key = secret" and "CHR '' '' \<notin> set key" and "key \<noteq> []"
    and "length key \<le> max_secret_bytes" and "is_transport_id b" and "is_transport_id p"
    and "length body \<le> max_batch_bytes"
  shows "check_request env secret (client_headers key b p body) = Inr (b, p)"
proof -
  let ?n = "dec_of_nat (length body)"
  have "length ?n \<le> 20" using assms(7) by (intro length_dec_of_nat) (simp_all add: max_batch_bytes_def)
  moreover have "is_ascii ?n" "is_ascii b" "is_ascii p"
    using is_ascii_digits [OF dec_of_nat_digits] plain_ascii plain_transport_id assms(5,6) by blast+
  moreover have "length b \<le> 512" "length p \<le> 512"
    using is_transport_id_length [OF assms(5)] is_transport_id_length [OF assms(6)] by simp_all
  ultimately have "request_headers (client_headers key b p body)
      = Inr (Some ''application/x-ndjson; charset=utf-8'', None, Some b, Some p, Some ?n)"
    by (simp add: request_headers_def one_header_def client_header_values sample_header_values
        is_ascii_def)
  moreover have "authorized env (client_headers key b p body) secret"
    using assms(1-4) by (simp add: authorized_def sample_header_values count_list_0_iff)
  ultimately show ?thesis
    using assms(5-7) dec_of_nat_digits sample_media by (simp add: check_request_def nat_of_dec_of_nat)
qed

section \<open>The answer\<close>

definition answer_to :: "string \<Rightarrow> string" where
  "answer_to b = json_dumps True (ack_payload b sample_results)"

lemma sample_apply_any:
  "is_transport_id b \<Longrightarrow> apply_batch sample_collector in_time b [sample_raw] empty_store
     = (Inr (answer_to b), sample_store)"
  using ack_length [OF sample_results_ok, of b]
  by (simp add: apply_batch_def sample_apply_lines answer_to_def Let_def del: apply_lines.simps)

lemma first_processed:
  assumes "is_transport_id b" and "is_transport_id p"
  shows "\<exists>table. ingest_batch sample_collector in_time b p sample_body (t0, t1) NoFault [] empty_store
    = (Inr (answer_to b), table, sample_store)"
proof -
  let ?r = "pending_receipt ''t'' b p (pe_sha256 plain_py_env sample_body) t0"
  have "passes (validate_receipt plain_py_env) ?r"
    using request_ok_collector [OF sample_collector_ok assms, of sample_body]
    by (simp add: validate_receipt_iff pending_receipt_def request_ok_def)
  then have row: "from_row plain_py_env ?r = Inr ?r" by (rule from_row_eq)
  obtain q where "validate_acknowledgement plain_py_env (answer_to b) b = Inr q"
    using ack_reads_back [OF sample_results_ok assms(1), of plain_py_env] by (auto simp: answer_to_def)
  then show ?thesis
    using row assms sample_apply_any [OF assms(1)]
    by (simp add: ingest_batch_def validate_ids_def validate_transport_id_def sample_lines
        process_receipt_def ensure_pending_def Let_def attempt_batch_def require_identity_def
        pending_receipt_def)
qed

definition quiet :: delivery where
  "quiet = \<lparr>dl_loss = NoLoss, dl_late = in_time, dl_fault = NoFault, dl_before = 1, dl_between = 1\<rparr>"

definition wire_before :: wire where
  "wire_before = \<lparr>wr_now = 0, wr_gate = \<lparr>ag_maximum = 4, ag_active = 0, ag_accepting = True\<rparr>,
     wr_table = [], wr_store = empty_store, wr_past = [], wr_script = [quiet]\<rparr>"

lemma wire_before_ok: "wire_ok sample_collector wire_before"
  using is_ascii_digits [OF dec_of_nat_digits]
  by (auto simp: wire_ok_def sample_collector_ok wire_before_def receipts_wf_empty answers_applied_def
      ledger_of_def dec_of_int_def is_ascii_def)

lemma sample_sent:
  assumes "is_transport_id b"
  shows "\<exists>w. http_send sample_collector sample_secret ''key'' b ''p'' sample_body wire_before
    = (Inr (answer_to b), w) \<and> wr_past w = [(empty_store, sample_store)]"
proof -
  have check: "check_request plain_py_env sample_secret (client_headers ''key'' b ''p'' sample_body)
      = Inr (b, ''p'')"
    using assms sample_id(2) sample_body_length
    by (intro client_accepted) (simp_all add: sample_secret_def plain_py_env_def max_secret_bytes_def)
  obtain table where i: "ingest_batch sample_collector in_time b ''p'' sample_body (1, 2) NoFault []
      empty_store = (Inr (answer_to b), table, sample_store)"
    using first_processed [OF assms sample_id(2)] by blast
  have len: "length (answer_to b) \<le> max_ack_bytes"
    using ack_length [OF sample_results_ok assms] by (simp add: answer_to_def)
  show ?thesis
    using check i len sample_body_length
    by (simp add: http_send_def wire_before_def quiet_def Let_def handle_ingest_def gate_enter_def
        client_result_def http_outcome_def)
qed

section \<open>The checkpoint fits\<close>

lemma opt_text_length:
  "pred_option (\<lambda>t. plain_text t \<and> length t \<le> 128) x \<Longrightarrow> length (json_dumps True (opt_json JStr x)) \<le> 130"
  by (cases x) (auto simp: opt_json_def quote_plain)

lemma progress_json_length:
  assumes "is_digest (pg_prefix pg)" and "pg_offset pg < 10 ^ 20"
  shows "length (json_dumps True (progress_json pg)) \<le> 200"
proof -
  have q: "length (json_quote True ''offset'') = 8" "length (json_quote True ''rejected'') = 10"
    "length (json_quote True ''prefixSha256'') = 14"
    by (simp_all add: quote_plain plain_char_def)
  have "length (json_quote True (pg_prefix pg)) = 66"
    using plain_digest [OF assms(1)] assms(1) by (simp add: quote_plain is_digest_def)
  moreover have "length (dec_of_int (int (pg_offset pg))) \<le> 20"
    using assms(2) by (simp add: dec_of_int_def length_dec_of_nat)
  moreover have "length (json_dumps True (JBool (pg_rejected pg))) \<le> 5" by simp
  ultimately show ?thesis
    unfolding progress_json_def
    by (intro order_trans [OF dumps_dict_length]) (simp add: q del: json_dumps.simps(2,6,7))
qed

lemma small_state:
  assumes "ss_segments s = [] \<or> (\<exists>k pg. ss_segments s = [(k, pg)] \<and> plain_text k \<and> length k \<le> 200 \<and>
      is_digest (pg_prefix pg) \<and> pg_offset pg < 10 ^ 20)"
    and "list_all (pred_option (\<lambda>t. plain_text t \<and> length t \<le> 128))
      [ss_destination s, ss_receipt s, ss_batch s, ss_error s]"
  shows "state_bytes s = Inr (json_dumps True (state_json s))"
proof -
  have q: "length (json_quote True ''schema'') = 8" "length (json_quote True ''destinationFingerprint'') = 24"
    "length (json_quote True ''segments'') = 10" "length (json_quote True ''lastReceiptAt'') = 15"
    "length (json_quote True ''lastBatchId'') = 13" "length (json_quote True ''lastError'') = 11"
    "length (json_quote True checkpoint_schema) = 26"
    by (simp_all add: quote_plain plain_char_def checkpoint_schema_def)
  let ?segs = "map (map_prod id progress_json) (sort_key fst (ss_segments s))"
  have "length (json_dumps True (JDict ?segs)) \<le> 1000"
    using assms(1)
  proof (elim disjE exE conjE)
    fix k pg
    assume 1: "ss_segments s = [(k, pg)]" "plain_text k" "length k \<le> 200" "is_digest (pg_prefix pg)"
      "pg_offset pg < 10 ^ 20"
    then have "length (json_quote True k) \<le> 202" by (simp add: quote_plain)
    with progress_json_length [OF 1(4,5)] show ?thesis
      by (intro order_trans [OF dumps_dict_length]) (simp add: 1(1) del: json_dumps.simps(7))
  qed simp
  moreover have "length (json_dumps True (opt_json JStr (ss_destination s))) \<le> 130"
    "length (json_dumps True (opt_json JStr (ss_receipt s))) \<le> 130"
    "length (json_dumps True (opt_json JStr (ss_batch s))) \<le> 130"
    "length (json_dumps True (opt_json JStr (ss_error s))) \<le> 130"
    using assms(2) opt_text_length by simp_all
  ultimately have "length (json_dumps True (state_json s)) \<le> max_checkpoint_bytes"
    unfolding state_json_def max_checkpoint_bytes_def
    by (intro order_trans [OF dumps_dict_length]) (simp add: q del: json_dumps.simps(6,7))
  then show ?thesis by (simp add: state_bytes_def Let_def)
qed

section \<open>The cycle\<close>

definition sample_shipper :: "wire shipper" where
  "sample_shipper = collector_shipper sample_collector sample_secret ''key'' ''u'' 1 1 (\<lambda>t. False)"

definition sample_path :: string where
  "sample_path = segment_name ''p'' 0 ''jsonl''"

lemma sample_path_identity: "segment_identity sample_path = Some (''p'', 0, ''jsonl'')"
  unfolding sample_path_def by (rule segment_name_parses) (simp_all add: sample_id)

definition sample_chunk :: chunk where
  "sample_chunk = \<lparr>ck_lines = [sample_raw], ck_end = length sample_body, ck_incomplete = False\<rparr>"

lemma sample_chunk_body: "ck_body sample_chunk = sample_body" "sample_body \<noteq> []"
  "ck_end sample_chunk = length sample_body"
  by (simp_all add: ck_body_def sample_chunk_def sample_body_def newline_def)

lemma takeWhile_line: "one_line l \<Longrightarrow> takeWhile (\<lambda>c. c \<noteq> CHR 0x0A) (l @ newline @ xs) = l"
  by (induction l) (auto simp: one_line_def newline_def)

lemma sample_read: "read_chunk sample_body 0 = Inr sample_chunk"
  "read_chunk sample_body (length sample_body) = Inr \<lparr>ck_lines = [], ck_end = length sample_body, ck_incomplete = False\<rparr>"
proof -
  have l: "takeWhile (\<lambda>c. c \<noteq> CHR 0x0A) sample_body = sample_raw"
    using takeWhile_line [OF sample_decoded(1), of "[]"] by (simp add: sample_body_def)
  have "length sample_raw < length sample_body" "drop (length sample_raw + 1) sample_body = []"
    by (simp_all add: sample_body_def newline_def)
  then have "read_records (Suc (Suc n)) 0 sample_body = Inr ([sample_raw], False)" for n
    using l sample_decoded(3) by (subst read_records.simps) (simp add: Let_def sample_chunk_body(2))
  from this [of 498] have "read_records max_ack_results 0 sample_body = Inr ([sample_raw], False)"
    by (simp add: max_ack_results_def del: read_records.simps)
  then show "read_chunk sample_body 0 = Inr sample_chunk"
    by (simp add: read_chunk_def sample_chunk_def sample_body_def)
  have "sample_body ! (length sample_body - 1) = CHR 0x0A" by (simp add: sample_body_def newline_def nth_append)
  moreover have "read_records (Suc n) 0 [] = Inr ([], False)" for n by simp
  from this [of 499] have "read_records max_ack_results 0 [] = Inr ([], False)"
    by (simp add: max_ack_results_def del: read_records.simps)
  ultimately show "read_chunk sample_body (length sample_body)
      = Inr \<lparr>ck_lines = [], ck_end = length sample_body, ck_incomplete = False\<rparr>"
    by (simp add: read_chunk_def sample_chunk_body(2))
qed

lemma sample_batch_id:
  "\<exists>b. make_batch_id plain_py_env ''p'' 0 0 (length sample_body) sample_body = Inr b \<and> is_transport_id b"
  using sample_body_length
  by (intro batch_id_made [OF plain_py_env_ok]) (simp_all add: max_batch_bytes_def)

lemma sample_checked:
  assumes "is_transport_id b"
  shows "\<exists>ack. check_answer plain_py_env (answer_to b) b sample_chunk = Inr ack \<and>
    ack_count ack ''rejected'' = 0"
proof -
  obtain ack where ack: "validate_acknowledgement plain_py_env (answer_to b) b = Inr ack"
    "dget ack ''results'' = Some (JList (ack_results sample_results))"
    using ack_reads_back [OF sample_results_ok assms, of plain_py_env] by (auto simp: answer_to_def)
  note out = outcomes_ack_results [OF ack(2)]
  have digests: "ack_digests ack = ck_digests plain_py_env sample_chunk"
    using out unfolding outcomes_digests [symmetric]
    by (simp add: sample_results_def ck_digests_def sample_chunk_def)
  obtain q where "validate_ack_dict q b = Inr ack"
    using ack(1) by (auto simp: validate_acknowledgement_def split: option.splits if_splits jval.splits)
  then obtain a r where "dget ack ''accepted'' = Some (JInt a)" "dget ack ''rejected'' = Some (JInt r)"
    "a + r = int (length (ack_results sample_results))"
    "a = int (length (filter is_accepted (ack_results sample_results)))"
    using ack(2)
    by (auto simp: validate_ack_dict_def ack_counts_ok_def split: if_splits option.splits jval.splits)
  then have "ack_count ack ''rejected'' = 0"
    using ack_results_valid(2) [OF sample_results_ok]
    by (simp add: ack_count_def field_def sample_results_def ack_results_def)
  with ack(1) digests show ?thesis by (simp add: check_answer_def parse_acknowledgement_def)
qed

definition cycle_before :: "wire cycle" where
  "cycle_before = \<lparr>cy_disk = [(sample_path, sample_body)], cy_checkpoint = None, cy_state = empty_state,
     cy_batches = 0, cy_accepted = 0, cy_rejected = 0, cy_deleted = 0, cy_quarantined = 0,
     cy_world = wire_before\<rparr>"

lemma sample_shipper_simps [simp]:
  "sh_env sample_shipper = plain_py_env" "sh_max_attempts sample_shipper = 1"
  "sh_max_batches sample_shipper = 1" "sh_destination sample_shipper = sample_secret"
  "sh_send sample_shipper = http_send sample_collector sample_secret ''key''"
  "sh_stopped sample_shipper w = False" "sh_now sample_shipper w = dec_of_int (wr_now w)"
  by (simp_all add: sample_shipper_def collector_shipper_def plain_py_env_def sample_secret_def)

lemma sample_secret_digest: "plain_text sample_secret \<and> length sample_secret = 64" "is_digest sample_secret"
  by (simp_all add: sample_secret_def plain_char_def is_digest_def is_hex_lower_def is_digit_def list_all_iff)

lemma sample_ship_batch:
  "\<exists>pg cy b. ship_batch sample_shipper ''p'' 0 sample_body (initial_progress plain_py_env) cycle_before
     = (Inr (Some pg), cy) \<and> pg_offset pg = length sample_body \<and> \<not> pg_rejected pg \<and>
     cy_disk cy = [(sample_path, sample_body)] \<and> cy_batches cy = 1 \<and> is_transport_id b \<and>
     cy_state cy = \<lparr>ss_segments = [(segment_key ''p'' 0, pg)], ss_destination = Some sample_secret,
       ss_receipt = Some (dec_of_int 2), ss_batch = Some b, ss_error = None\<rparr>"
proof -
  obtain b where b: "make_batch_id plain_py_env ''p'' 0 0 (length sample_body) sample_body = Inr b"
    "is_transport_id b" using sample_batch_id by blast
  obtain ack where ack: "check_answer plain_py_env (answer_to b) b sample_chunk = Inr ack"
    "ack_count ack ''rejected'' = 0" using sample_checked [OF b(2)] by blast
  obtain w where w: "http_send sample_collector sample_secret ''key'' b ''p'' sample_body wire_before
      = (Inr (answer_to b), w)" using sample_sent [OF b(2)] by blast
  have now: "wr_now w = 2" using w by (auto simp: http_send_def wire_before_def quiet_def Let_def split: prod.splits)
  define pg where "pg = \<lparr>pg_offset = length sample_body, pg_rejected = False,
      pg_prefix = pe_sha256 plain_py_env sample_body\<rparr>"
  have first: "state_bytes (empty_state\<lparr>ss_destination := Some sample_secret\<rparr>)
      = Inr (json_dumps True (state_json (empty_state\<lparr>ss_destination := Some sample_secret\<rparr>)))"
    using sample_secret_digest by (intro small_state) (simp_all add: empty_state_def)
  let ?s = "\<lparr>ss_segments = [(segment_key ''p'' 0, pg)], ss_destination = Some sample_secret,
       ss_receipt = Some (dec_of_int 2), ss_batch = Some b, ss_error = None\<rparr>"
  have "plain_text (segment_key ''p'' 0) \<and> length (segment_key ''p'' 0) \<le> 200"
    using zero_pad_digits [of 12 0] length_zero_pad_le [of 0 12 12] plain_ident
    by (auto simp: segment_key_def plain_char_def list_all_iff)
  moreover have "plain_text b \<and> length b \<le> 128"
    using plain_transport_id [OF b(2)] is_transport_id_length [OF b(2)] by simp
  moreover have "is_digest (pg_prefix pg)" "pg_offset pg < 10 ^ 20"
    using sample_body_length plain_py_env_ok by (simp_all add: pg_def py_env_ok_def max_batch_bytes_def)
  moreover have "plain_text (dec_of_int 2) \<and> length (dec_of_int 2) \<le> 128"
    using dec_of_nat_digits [of 2] length_dec_of_nat [of 2 1] plain_ident
    by (auto simp: dec_of_int_def list_all_iff)
  ultimately have second: "state_bytes ?s = Inr (json_dumps True (state_json ?s))"
    using sample_secret_digest by (intro small_state) simp_all
  have "ship_batch sample_shipper ''p'' 0 sample_body (initial_progress plain_py_env) cycle_before
      = (Inr (Some pg), cycle_before\<lparr>cy_state := ?s, cy_checkpoint := Some (json_dumps True (state_json ?s)),
          cy_accepted := ack_count ack ''accepted'', cy_batches := 1, cy_world := w\<rparr>)"
    using b(1) w ack first second
    by (simp add: ship_batch_def initial_progress_def sample_read sample_chunk_body ensure_destination_def
        cycle_before_def save_state_def acknowledged_def Let_def now set_progress_def pg_def
        empty_state_def)
  then show ?thesis
    by (intro exI conjI) (use b in \<open>auto simp: pg_def cycle_before_def\<close>)
qed

lemma sample_cycle: "\<exists>r file w rest. ship_cycle sample_shipper [(sample_path, sample_body)] None wire_before
    = (r, [], file, w, rest)"
proof -
  obtain pg cy b where one: "ship_batch sample_shipper ''p'' 0 sample_body (initial_progress plain_py_env)
      cycle_before = (Inr (Some pg), cy)"
    and pg: "pg_offset pg = length sample_body" "\<not> pg_rejected pg"
    and cy: "cy_disk cy = [(sample_path, sample_body)]" "cy_batches cy = 1" "is_transport_id b"
      "cy_state cy = \<lparr>ss_segments = [(segment_key ''p'' 0, pg)], ss_destination = Some sample_secret,
       ss_receipt = Some (dec_of_int 2), ss_batch = Some b, ss_error = None\<rparr>"
    using sample_ship_batch by blast
  let ?s = "\<lparr>ss_segments = [], ss_destination = Some sample_secret,
       ss_receipt = Some (dec_of_int 2), ss_batch = Some b, ss_error = None\<rparr>"
  have "plain_text (dec_of_int 2) \<and> length (dec_of_int 2) \<le> 128"
    using dec_of_nat_digits [of 2] length_dec_of_nat [of 2 1] plain_ident
    by (auto simp: dec_of_int_def list_all_iff)
  then have saved: "state_bytes ?s = Inr (json_dumps True (state_json ?s))"
    using sample_secret_digest plain_transport_id [OF cy(3)] is_transport_id_length [OF cy(3)]
    by (intro small_state) simp_all
  let ?cy1 = "cy\<lparr>cy_disk := [], cy_deleted := cy_deleted cy + 1, cy_state := ?s,
      cy_checkpoint := Some (json_dumps True (state_json ?s))\<rparr>"
  have batches: "ship_batches (Suc 0) sample_shipper ''p'' 0 sample_body (initial_progress plain_py_env)
      cycle_before = (Inr pg, cy)"
    using one by simp
  have finish: "finish_segment sample_path (segment_key ''p'' 0) sample_body pg cy = (Inr (), ?cy1)"
    using pg cy saved sample_read(2)
    by (simp add: finish_segment_def ck_body_def save_state_def pop_segment_def)
  have prefix: "check_prefix plain_py_env sample_body (initial_progress plain_py_env) = Inr ()"
    by (simp add: check_prefix_def initial_progress_def)
  have segment: "ship_segment sample_shipper sample_path cycle_before = (Inr (), ?cy1)"
    using batches finish prefix
    by (simp add: ship_segment_def sample_path_identity cycle_before_def empty_state_def)
  have segments: "ship_segments sample_shipper [sample_path] cycle_before = (Inr (), ?cy1)"
    using segment cy(2) by (simp add: sample_path_identity)
  have paths: "segment_paths [(sample_path, sample_body)] = [sample_path]"
    by (simp add: segment_paths_def sample_path_identity)
  have "cycle_before\<lparr>cy_state := empty_state\<lparr>ss_segments := []\<rparr>\<rparr> = cycle_before"
    by (simp add: cycle_before_def empty_state_def)
  with segments saved have "cycle_body sample_shipper cycle_before = (Inr (), ?cy1)"
    by (simp add: cycle_body_def paths visible_keys_def map_filter_simps sample_path_identity
        Let_def save_state_def max_segments_def cycle_before_def empty_state_def)
  then show ?thesis
    by (simp add: ship_cycle_def load_state_def Let_def cycle_before_def)
qed

section \<open>Witnesses\<close>

lemma sample_produced: "delivery_step sample_collector sample_shipper ([], None, wire_before)
    ([(sample_path, sample_body)], None, wire_before)"
proof (rule delivery_step.produce)
  show "extended (sh_env sample_shipper) None [] [(sample_path, sample_body)]"
    using sample_body_length
    by (auto simp: extended_def disk_ok_def load_state_def empty_state_def max_batch_bytes_def)
qed

theorem removed_segment_is_stored_witness:
  "\<exists>w. line_outcome sample_collector w (pe_sha256 plain_py_env sample_raw) None"
proof -
  obtain r "file" w rest where cycle: "ship_cycle sample_shipper [(sample_path, sample_body)] None wire_before
      = (r, [], file, w, rest)" using sample_cycle by blast
  have "(delivery_step sample_collector sample_shipper)\<^sup>*\<^sup>* ([], None, wire_before)
      ([(sample_path, sample_body)], None, wire_before)"
    using sample_produced by (rule r_into_rtranclp)
  from removed_segment_is_stored [OF this [unfolded sample_shipper_def] wire_before_ok
      cycle [unfolded sample_shipper_def], of sample_path sample_body]
  obtain ls where "sample_body = unlines ls" "list_all one_line ls"
    "\<forall>l\<in>set ls. line_outcome sample_collector w (pe_sha256 plain_py_env l) None"
    by auto
  moreover from this have "ls = [sample_raw]"
    using split_on_unlines [of ls] split_on_unlines [of "[sample_raw]"] sample_decoded(1)
    by (simp add: sample_body_def)
  ultimately show ?thesis by auto
qed

theorem shipped_batch_fits_witness:
  "batch_lines sample_body = Inr [sample_raw] \<and> length sample_body \<le> max_batch_bytes"
proof -
  have v: "visible [(sample_path, sample_body)] ''p'' 0 sample_path sample_body"
    by (simp add: visible_def sample_path_identity)
  have d: "disk_ok [(sample_path, sample_body)]"
    using sample_body_length by (auto simp: disk_ok_def max_batch_bytes_def)
  show ?thesis
    using shipped_batch_fits [OF plain_py_env_ok v d sample_read(1)] sample_chunk_body
    by (simp add: sample_chunk_def)
qed

end
