(* ===== verification/Monitor.thy ===== *)
theory Monitor
  imports Evidence_Codec
begin

text \<open>
  The records of the monitor, \<open>verdict/monitoring.py\<close>, with the checks of their constructors: the
  analysis units, the immutable policy, the frozen summaries of a cohort, its manifest and a
  comparison.  A ratio or a probability is a float, modelled by the rational it denotes.
\<close>

section \<open>Bounds\<close>

definition max_monitor_groups :: nat where
  "max_monitor_groups = 250"

definition max_monitor_group_metrics :: nat where
  "max_monitor_group_metrics = 4000"

definition max_monitor_evidence_unit_ids :: nat where
  "max_monitor_evidence_unit_ids = 5"

definition evidence_finalization_version :: int where
  "evidence_finalization_version = 1"

datatype monitor_error =
    MonitorInvalid string
  | MonitorRebootstrapRequired string
  | MonitorStateConflict string
  | MonitorEvaluatorPending nat
  | MonitorKeyError string
  | MonitorAssertion

abbreviation valid :: "bool \<Rightarrow> string \<Rightarrow> monitor_error + unit" where
  "valid c m \<equiv> require c (MonitorInvalid m)"

text \<open>\<open>v is None or p(v)\<close>.\<close>

definition given :: "('a \<Rightarrow> bool) \<Rightarrow> 'a option \<Rightarrow> bool" where
  "given P v = (case v of None \<Rightarrow> True | Some x \<Rightarrow> P x)"

lemma given_simps [simp]: "given P None" "given P (Some x) \<longleftrightarrow> P x"
  by (simp_all add: given_def)

definition bounded_id :: "nat \<Rightarrow> string \<Rightarrow> bool" where
  "bounded_id maximum s \<longleftrightarrow> s \<noteq> [] \<and> CHR 0x00 \<notin> set s \<and> length s \<le> maximum"

definition validate_group_id :: "string option \<Rightarrow> monitor_error + unit" where
  "validate_group_id g =
     valid (given (bounded_id 256) g) ''metric group identity must be bounded text''"

definition validate_optional_text :: "string option \<Rightarrow> string \<Rightarrow> nat \<Rightarrow> monitor_error + unit" where
  "validate_optional_text v name maximum =
     valid (given (bounded_id maximum) v) (name @ '' must be bounded text'')"

definition validate_evidence_unit_ids :: "string list \<Rightarrow> (monitor_error + unit) list" where
  "validate_evidence_unit_ids ids =
     [valid (length ids \<le> max_monitor_evidence_unit_ids \<and> distinct ids)
        ''metric evidence identities must be bounded and unique'',
      valid (list_all (bounded_id 512) ids) ''metric evidence identity must be bounded text'']"

section \<open>Analysis units\<close>

record analysis_unit =
  au_unit_id :: string
  au_event_time :: int
  au_metrics :: "(string, bool) dict"
  au_group_id :: "string option"
  au_metric_states :: "(string, string) dict"
  au_group_label :: "string option"
  au_group_provider :: "string option"
  au_group_model :: "string option"
  au_evaluator_state :: string
  au_evidence_digest :: "string option"

definition analysis_unit_checks :: "analysis_unit \<Rightarrow> (monitor_error + unit) list" where
  "analysis_unit_checks u =
     [valid (au_unit_id u \<noteq> []) ''unit_id is required'',
      valid (list_all (\<lambda>(n, _). n \<noteq> []) (au_metrics u)) ''metric names must be non-empty strings'',
      checks (map (\<lambda>(n, s). checks
        [valid (n \<noteq> []) ''metric state names must be non-empty strings'',
         valid (s \<in> {''pass'', ''fail'', ''unclear'', ''missing'', ''error''})
           ''metric state is unsupported'']) (au_metric_states u)),
      validate_group_id (au_group_id u),
      validate_optional_text (au_group_label u) ''group_label'' 512,
      validate_optional_text (au_group_provider u) ''group_provider'' 512,
      validate_optional_text (au_group_model u) ''group_model'' 512,
      valid (\<not> (au_group_id u = None \<and> (au_group_label u \<noteq> None \<or> au_group_provider u \<noteq> None \<or>
          au_group_model u \<noteq> None))) ''group metadata requires a group identity'',
      valid (au_evaluator_state u
          \<in> {''not_requested'', ''not_evaluable'', ''pending'', ''error'', ''completed''})
        ''evaluator state is unsupported'',
      (if au_evaluator_state u = ''not_requested''
       then valid (au_evidence_digest u = None) ''judge evidence digest requires an evaluator''
       else valid (case au_evidence_digest u of None \<Rightarrow> False | Some d \<Rightarrow> is_digest d)
         ''evaluator evidence digest must be a SHA-256 digest'')]"

record pending_unit =
  pu_unit_id :: string
  pu_group_id :: "string option"
  pu_prior_state :: string
  pu_digest :: string

definition pending_unit_checks :: "pending_unit \<Rightarrow> (monitor_error + unit) list" where
  "pending_unit_checks p =
     [valid (pu_unit_id p \<noteq> []) ''pending evaluator unit identity is required'',
      validate_group_id (pu_group_id p),
      valid (pu_prior_state p \<in> {''missing'', ''error''})
        ''pending evaluator state must be missing or error'',
      valid (is_digest (pu_digest p)) ''pending evaluator evidence digest is invalid'']"

section \<open>The policy\<close>

datatype window_mode = COUNT | EXPLICIT

record monitor_policy =
  mp_policy_id :: string
  mp_scope_key :: string
  mp_window_mode :: window_mode
  mp_reference_ratio :: rat
  mp_reference_start :: "int option"
  mp_reference_end :: "int option"
  mp_current_start :: "int option"
  mp_current_end :: "int option"
  mp_minimum_reference :: int
  mp_minimum_current :: int
  mp_prospective_target :: int
  mp_p_threshold :: rat
  mp_minimum_effect :: rat
  mp_maximum_unseen :: rat
  mp_analysis_unit :: string
  mp_grouping_mode :: string
  mp_sequential_method :: string
  mp_evaluator :: "string option"
  mp_dimensions :: "string list"
  mp_registry_version :: "string option"

definition evaluator_checks :: "monitor_policy \<Rightarrow> (monitor_error + unit) list" where
  "evaluator_checks p =
     (case mp_evaluator p of
        None \<Rightarrow> [valid (mp_dimensions p = []) ''evaluator dimensions require an evaluator fingerprint'']
      | Some f \<Rightarrow>
          [valid (is_digest f) ''evaluator_fingerprint must be a SHA-256 digest'',
           valid (1 \<le> length (mp_dimensions p) \<and> length (mp_dimensions p) \<le> 12)
             ''evaluator_dimensions must contain 1-12 names'',
           valid (distinct (mp_dimensions p)) ''evaluator_dimensions must be unique'',
           valid (list_all (bounded_id 80) (mp_dimensions p))
             ''evaluator dimension must be bounded text''])"

definition window_checks :: "monitor_policy \<Rightarrow> (monitor_error + unit) list" where
  "window_checks p =
     (if mp_window_mode p = EXPLICIT
      then case (mp_reference_start p, mp_reference_end p, mp_current_start p, mp_current_end p) of
          (Some a, Some b, Some c, Some d) \<Rightarrow>
            [valid (a < b \<and> b \<le> c \<and> c < d) ''explicit windows must be ordered and non-overlapping'']
        | _ \<Rightarrow> [Inl (MonitorInvalid ''explicit windows require all four boundaries'')]
      else [])"

definition monitor_policy_checks :: "monitor_policy \<Rightarrow> (monitor_error + unit) list" where
  "monitor_policy_checks p =
     [valid (bounded_id 256 (mp_policy_id p)) ''policy_id must be bounded text'',
      valid (bounded_id 512 (mp_scope_key p)) ''scope_key must be bounded text'',
      valid (1 / 2 \<le> mp_reference_ratio p \<and> mp_reference_ratio p < 1)
        ''reference_ratio must be between 0.5 and 1'',
      valid (1 \<le> mp_minimum_reference p) ''minimum_reference must be a positive integer'',
      valid (1 \<le> mp_minimum_current p) ''minimum_current must be a positive integer'',
      valid (1 \<le> mp_prospective_target p) ''prospective_target must be a positive integer'',
      valid (0 \<le> mp_p_threshold p \<and> mp_p_threshold p \<le> 1) ''p_threshold must be between zero and one'',
      valid (0 \<le> mp_minimum_effect p \<and> mp_minimum_effect p \<le> 1)
        ''minimum_effect must be between zero and one'',
      valid (0 \<le> mp_maximum_unseen p \<and> mp_maximum_unseen p \<le> 1)
        ''maximum_unseen_group_share must be between zero and one'',
      valid (mp_analysis_unit p \<in> {''trace'', ''turn'', ''run'', ''session''})
        ''analysis_unit is unsupported'',
      valid (mp_grouping_mode p \<in> {''none'', ''provider_model'', ''cluster''})
        ''grouping_mode is unsupported'',
      valid (given (\<lambda>v. mp_grouping_mode p = ''cluster'' \<and> bounded_id 64 v) (mp_registry_version p))
        ''cluster registry version is invalid'',
      valid (mp_sequential_method p = ''quadratic_alpha_spending_v1'')
        ''sequential_method is unsupported'']
     @ evaluator_checks p @ window_checks p"

definition window_mode_value :: "window_mode \<Rightarrow> string" where
  "window_mode_value m = (case m of COUNT \<Rightarrow> ''count'' | EXPLICIT \<Rightarrow> ''explicit'')"

definition grouped :: "monitor_policy \<Rightarrow> bool" where
  "grouped p \<longleftrightarrow> mp_grouping_mode p \<noteq> ''none''"

text \<open>The payload of the fingerprint: every field, but the optional ones only when they are set.\<close>

definition policy_payload :: "py_env \<Rightarrow> monitor_policy \<Rightarrow> (string, jval) dict" where
  "policy_payload env p =
     (let num = (\<lambda>q. JFloat q (pe_repr env q)); time = opt_json (\<lambda>t. JStr (pe_iso env t)) in
     [(''policy_id'', JStr (mp_policy_id p)), (''scope_key'', JStr (mp_scope_key p)),
      (''window_mode'', JStr (window_mode_value (mp_window_mode p))),
      (''reference_ratio'', num (mp_reference_ratio p)),
      (''reference_start'', time (mp_reference_start p)),
      (''reference_end'', time (mp_reference_end p)),
      (''current_start'', time (mp_current_start p)),
      (''current_end'', time (mp_current_end p)),
      (''minimum_reference'', JInt (mp_minimum_reference p)),
      (''minimum_current'', JInt (mp_minimum_current p)),
      (''prospective_target'', JInt (mp_prospective_target p)),
      (''p_threshold'', num (mp_p_threshold p)), (''minimum_effect'', num (mp_minimum_effect p)),
      (''maximum_unseen_group_share'', num (mp_maximum_unseen p)),
      (''analysis_unit'', JStr (mp_analysis_unit p)),
      (''grouping_mode'', JStr (mp_grouping_mode p)),
      (''sequential_method'', JStr (mp_sequential_method p))]
     @ (case mp_evaluator p of None \<Rightarrow> []
        | Some f \<Rightarrow> [(''evaluator_fingerprint'', JStr f),
            (''evaluator_dimensions'', JList (map JStr (mp_dimensions p)))])
     @ (case mp_registry_version p of None \<Rightarrow> []
        | Some v \<Rightarrow> [(''cluster_registry_version_id'', JStr v)]))"

definition policy_fingerprint :: "py_env \<Rightarrow> monitor_policy \<Rightarrow> string" where
  "policy_fingerprint env p = pe_sha256 env (json_dumps True (JDict (policy_payload env p)))"

definition validate_monitor_analysis_unit :: "monitor_policy \<Rightarrow> monitor_error + unit" where
  "validate_monitor_analysis_unit p =
     valid (mp_analysis_unit p = ''trace'') ''Monitor currently supports only the trace analysis unit.''"

section \<open>Frozen cohorts\<close>

record group_count =
  fg_group_id :: string
  fg_unit_count :: int
  fg_label :: "string option"
  fg_provider :: "string option"
  fg_model :: "string option"

definition group_count_checks :: "group_count \<Rightarrow> (monitor_error + unit) list" where
  "group_count_checks g =
     [validate_group_id (Some (fg_group_id g)),
      valid (1 \<le> fg_unit_count g) ''frozen group count must be positive'',
      validate_optional_text (fg_label g) ''label'' 512,
      validate_optional_text (fg_provider g) ''provider'' 512,
      validate_optional_text (fg_model g) ''model'' 512]"

record metric_counts =
  fm_group_id :: "string option"
  fm_metric :: string
  fm_true :: int
  fm_false :: int
  fm_pass :: int
  fm_fail :: int
  fm_unclear :: int
  fm_missing :: int
  fm_error :: int
  fm_true_ids :: "string list"
  fm_false_ids :: "string list"

definition metric_counts_checks :: "metric_counts \<Rightarrow> (monitor_error + unit) list" where
  "metric_counts_checks m =
     [validate_group_id (fm_group_id m),
      valid (bounded_id 160 (fm_metric m)) ''frozen metric identity is required'',
      valid (list_all (\<lambda>n. 0 \<le> n) [fm_true m, fm_false m, fm_pass m, fm_fail m, fm_unclear m,
          fm_missing m, fm_error m]) ''frozen metric counts must be non-negative integers'']
     @ validate_evidence_unit_ids (fm_true_ids m) @ validate_evidence_unit_ids (fm_false_ids m)"

definition reports_coverage :: "metric_counts \<Rightarrow> bool" where
  "reports_coverage m \<longleftrightarrow> fm_pass m \<noteq> 0 \<or> fm_fail m \<noteq> 0 \<or> fm_unclear m \<noteq> 0 \<or> fm_missing m \<noteq> 0 \<or>
     fm_error m \<noteq> 0"

definition metric_key :: "metric_counts \<Rightarrow> string option \<times> string" where
  "metric_key m = (fm_group_id m, fm_metric m)"

record cohort_summary =
  sy_unit_count :: int
  sy_unassigned :: int
  sy_groups :: "group_count list"
  sy_metrics :: "metric_counts list"

definition cohort_summary_checks :: "cohort_summary \<Rightarrow> (monitor_error + unit) list" where
  "cohort_summary_checks s =
     [valid (0 \<le> sy_unit_count s \<and> 0 \<le> sy_unassigned s)
        ''frozen cohort counts must be non-negative integers'',
      valid (sy_unassigned s \<le> sy_unit_count s) ''unassigned count exceeds cohort size'',
      valid (length (sy_groups s) \<le> max_monitor_groups) ''monitor grouping exceeds 250 groups'',
      valid (length (sy_metrics s) \<le> max_monitor_group_metrics)
        ''monitor grouping produces too many metric cells'',
      valid (distinct (map fg_group_id (sy_groups s)))
        ''frozen cohort group identities must be unique'',
      valid (distinct (map metric_key (sy_metrics s)))
        ''frozen cohort metric identities must be unique'',
      valid (sum_list (map fg_unit_count (sy_groups s)) + sy_unassigned s \<in> {0, sy_unit_count s})
        ''frozen cohort group counts do not cover the cohort'']"

definition group_payload :: "group_count \<Rightarrow> jval" where
  "group_payload g = JDict
     ([(''group_id'', JStr (fg_group_id g)), (''unit_count'', JInt (fg_unit_count g))]
      @ List.map_filter (\<lambda>(n, v). map_option (\<lambda>s. (n, JStr s)) v)
          [(''label'', fg_label g), (''provider'', fg_provider g), (''model'', fg_model g)])"

definition metric_payload :: "metric_counts \<Rightarrow> jval" where
  "metric_payload m = JDict
     ((case fm_group_id m of None \<Rightarrow> [] | Some g \<Rightarrow> [(''group_id'', JStr g)])
      @ [(''metric'', JStr (fm_metric m)), (''true_count'', JInt (fm_true m)),
         (''false_count'', JInt (fm_false m)), (''state_pass'', JInt (fm_pass m)),
         (''state_fail'', JInt (fm_fail m)), (''state_unclear'', JInt (fm_unclear m)),
         (''state_missing'', JInt (fm_missing m)), (''state_error'', JInt (fm_error m))]
      @ filter (\<lambda>(n, v). v \<noteq> JList [])
          [(''true_unit_ids'', JList (map JStr (fm_true_ids m))),
           (''false_unit_ids'', JList (map JStr (fm_false_ids m)))])"

definition summary_payload :: "cohort_summary \<Rightarrow> jval" where
  "summary_payload s = JDict
     [(''unit_count'', JInt (sy_unit_count s)), (''unassigned_unit_count'', JInt (sy_unassigned s)),
      (''groups'', JList (map group_payload (sy_groups s))),
      (''metrics'', JList (map metric_payload (sy_metrics s)))]"

definition evidence_digest :: "py_env \<Rightarrow> cohort_summary \<Rightarrow> string" where
  "evidence_digest env s = pe_sha256 env (json_dumps True (summary_payload s))"

section \<open>The manifest\<close>

record cohort_manifest =
  mf_snapshot_id :: string
  mf_policy_fingerprint :: string
  mf_cutoff :: int
  mf_reference_ids :: "string list"
  mf_current_ids :: "string list"
  mf_consumed_ids :: "string list"
  mf_late :: int
  mf_open :: bool
  mf_index :: int
  mf_reference :: "cohort_summary option"
  mf_current :: "cohort_summary option"
  mf_pending :: "pending_unit list"
  mf_version :: int
  mf_start_at :: "int option"

definition evidence_ids :: "cohort_summary \<Rightarrow> string list" where
  "evidence_ids s = concat (map (\<lambda>m. fm_true_ids m @ fm_false_ids m) (sy_metrics s))"

definition summary_checks :: "cohort_manifest \<Rightarrow> (monitor_error + unit) list" where
  "summary_checks m =
     (case (mf_reference m, mf_current m) of
        (Some r, Some c) \<Rightarrow>
          [valid (sy_unit_count r = int (length (mf_reference_ids m)))
             ''reference summary does not match membership'',
           valid (sy_unit_count c = int (length (mf_current_ids m)))
             ''current summary does not match membership'',
           valid (set (evidence_ids r) \<subseteq> set (mf_reference_ids m) \<and>
                  set (evidence_ids c) \<subseteq> set (mf_current_ids m))
             ''frozen metric evidence must belong to its cohort'']
      | (None, None) \<Rightarrow> []
      | _ \<Rightarrow> [Inl (MonitorInvalid ''monitor summaries must be present together'')])"

definition manifest_checks :: "cohort_manifest \<Rightarrow> (monitor_error + unit) list" where
  "manifest_checks m =
     [valid (is_digest (mf_snapshot_id m)) ''snapshot_id must be a SHA-256 digest'',
      valid (is_digest (mf_policy_fingerprint m)) ''policy_fingerprint must be a SHA-256 digest'',
      valid (distinct (mf_reference_ids m) \<and> distinct (mf_current_ids m) \<and> distinct (mf_consumed_ids m))
        ''manifest unit identities must be unique'',
      valid (set (mf_reference_ids m) \<inter> set (mf_current_ids m) = {} \<and>
             set (mf_reference_ids m) \<union> set (mf_current_ids m) \<subseteq> set (mf_consumed_ids m))
        ''manifest cohorts must be non-overlapping and consumed'',
      valid (0 \<le> mf_late m) ''late_unit_count must be non-negative'',
      valid (0 \<le> mf_index m) ''comparison_index must be a non-negative integer'']
     @ summary_checks m
     @ [valid (distinct (map pu_unit_id (mf_pending m)) \<and>
               set (map pu_unit_id (mf_pending m)) \<subseteq> set (mf_current_ids m))
          ''pending evaluator units must be unique current members'',
        valid (mf_pending m = [] \<or> mf_version m = evidence_finalization_version)
          ''pending evaluator units require versioned finalization'',
        valid (mf_version m \<in> {0, evidence_finalization_version})
          ''unsupported evidence finalization version'']"

end
