(* ===== verification/Monitor_Cohorts.thy ===== *)
theory Monitor_Cohorts
  imports Monitor "HOL-Library.Product_Lexorder"
begin

text \<open>
  Freezing cohorts and planning the next manifest, \<open>verdict/monitoring.py\<close>: how a list of
  analysis units becomes counts per group and metric, how the counts of two lists are merged, how
  late evaluator results move a unit between the counts, and which units the historical and the
  prospective planner admit.
\<close>

section \<open>Freezing\<close>

text \<open>\<open>d.setdefault(key(x), []).append(x)\<close> for every \<open>x\<close>: the values of a key keep their order.\<close>

definition append_to :: "('a \<Rightarrow> 'k) \<Rightarrow> 'a \<Rightarrow> ('k, 'a list) dict \<Rightarrow> ('k, 'a list) dict" where
  "append_to key x d = dset (key x) ((case dget d (key x) of None \<Rightarrow> [] | Some xs \<Rightarrow> xs) @ [x]) d"

definition collect_by :: "('a \<Rightarrow> 'k) \<Rightarrow> 'a list \<Rightarrow> ('k, 'a list) dict" where
  "collect_by key xs = fold (append_to key) xs []"

definition ordered :: "analysis_unit list \<Rightarrow> monitor_error + analysis_unit list" where
  "ordered units = bindr (valid (distinct (map au_unit_id units))
       ''analysis units must have unique identities'')
     (\<lambda>_. Inr (sort_key (\<lambda>u. (au_event_time u, au_unit_id u)) units))"

definition metric_names :: "analysis_unit list \<Rightarrow> string list" where
  "metric_names rows = sort (remdups
     (concat (map (\<lambda>u. dkeys (au_metrics u) @ dkeys (au_metric_states u)) rows)))"

definition metric_values :: "string \<Rightarrow> analysis_unit list \<Rightarrow> bool list" where
  "metric_values name rows = List.map_filter (\<lambda>u. dget (au_metrics u) name) rows"

definition state_count :: "string \<Rightarrow> analysis_unit list \<Rightarrow> string \<Rightarrow> int" where
  "state_count name rows s =
     int (length (filter (\<lambda>u. dget (au_metric_states u) name = Some s) rows))"

definition evidence_of :: "string \<Rightarrow> bool \<Rightarrow> analysis_unit list \<Rightarrow> string list" where
  "evidence_of name b rows = take max_monitor_evidence_unit_ids
     (map au_unit_id (filter (\<lambda>u. dget (au_metrics u) name = Some b) rows))"

definition count_metric :: "string option \<Rightarrow> analysis_unit list \<Rightarrow> string \<Rightarrow> metric_counts" where
  "count_metric group_id rows name =
     (let values = metric_values name rows; n_true = int (length (filter id values)) in
      \<lparr>fm_group_id = group_id, fm_metric = name, fm_true = n_true,
       fm_false = int (length values) - n_true,
       fm_pass = state_count name rows ''pass'', fm_fail = state_count name rows ''fail'',
       fm_unclear = state_count name rows ''unclear'',
       fm_missing = state_count name rows ''missing'', fm_error = state_count name rows ''error'',
       fm_true_ids = evidence_of name True rows, fm_false_ids = evidence_of name False rows\<rparr>)"

text \<open>A group takes its label, provider and model from its first unit.\<close>

definition count_group :: "string \<Rightarrow> analysis_unit list \<Rightarrow> analysis_unit \<Rightarrow> group_count" where
  "count_group g rows source =
     \<lparr>fg_group_id = g, fg_unit_count = int (length rows),
      fg_label = Some (case au_group_label source of Some l \<Rightarrow> (if l = [] then g else l) | None \<Rightarrow> g),
      fg_provider = au_group_provider source, fg_model = au_group_model source\<rparr>"

definition effective_group :: "bool \<Rightarrow> analysis_unit \<Rightarrow> string option" where
  "effective_group g u = (if g then au_group_id u else None)"

definition assigned :: "bool \<Rightarrow> analysis_unit list \<Rightarrow> analysis_unit list" where
  "assigned g units = filter (\<lambda>u. \<not> (g \<and> au_group_id u = None)) units"

definition group_or_empty :: "string option \<Rightarrow> string" where
  "group_or_empty g = (case g of None \<Rightarrow> [] | Some s \<Rightarrow> s)"

definition group_metadata :: "bool \<Rightarrow> analysis_unit list \<Rightarrow> (string, analysis_unit) dict" where
  "group_metadata g units = fold (\<lambda>u d. case effective_group g u of
       None \<Rightarrow> d | Some k \<Rightarrow> dsetdefault k u d) (assigned g units) []"

definition rows_of :: "bool \<Rightarrow> analysis_unit list \<Rightarrow> string option \<Rightarrow> analysis_unit list" where
  "rows_of g units k =
     (case dget (collect_by (effective_group g) (assigned g units)) k of None \<Rightarrow> [] | Some xs \<Rightarrow> xs)"

definition freeze_cohort :: "bool \<Rightarrow> analysis_unit list \<Rightarrow> monitor_error + cohort_summary" where
  "freeze_cohort g units =
     (let selected = collect_by (effective_group g) (assigned g units);
          metadata = group_metadata g units in
      bindr (valid (\<not> (g \<and> length metadata > max_monitor_groups)) ''monitor grouping exceeds 250 groups'')
      (\<lambda>_. bindr (traverse (\<lambda>(k, u). post_init group_count_checks (count_group k (rows_of g units (Some k)) u))
              (sort_key fst metadata))
      (\<lambda>groups. bindr (traverse (post_init metric_counts_checks)
              (concat (map (\<lambda>(k, rows). map (count_metric k rows) (metric_names rows))
                (sort_key (\<lambda>e. group_or_empty (fst e)) selected))))
      (\<lambda>metrics. post_init cohort_summary_checks
         \<lparr>sy_unit_count = int (length units),
          sy_unassigned = int (length (filter (\<lambda>u. g \<and> au_group_id u = None) units)),
          sy_groups = groups, sy_metrics = metrics\<rparr>))))"

section \<open>Merging\<close>

text \<open>\<open>tuple(dict.fromkeys(...))[:5]\<close>: first occurrences.\<close>

definition from_keys :: "'a list \<Rightarrow> 'a list" where
  "from_keys xs = fold (\<lambda>x acc. if x \<in> set acc then acc else acc @ [x]) xs []"

definition bounded_evidence_ids :: "string list \<Rightarrow> string list \<Rightarrow> string list" where
  "bounded_evidence_ids xs ys = take max_monitor_evidence_unit_ids (from_keys (xs @ ys))"

text \<open>One turn of a loop that adds an item to a dictionary or combines it with the one there.\<close>

definition merge_entry ::
  "('a \<Rightarrow> 'k) \<Rightarrow> ('a \<Rightarrow> 'a \<Rightarrow> 'e + 'a) \<Rightarrow> 'a \<Rightarrow> ('k, 'a) dict \<Rightarrow> 'e + ('k, 'a) dict" where
  "merge_entry key comb item d =
     (case dget d (key item) of
        None \<Rightarrow> Inr (dset (key item) item d)
      | Some previous \<Rightarrow> bindr (comb previous item) (\<lambda>x. Inr (dset (key item) x d)))"

definition or_text :: "string option \<Rightarrow> string option \<Rightarrow> string option" where
  "or_text a b = (case a of Some (c # cs) \<Rightarrow> a | _ \<Rightarrow> b)"

definition combine_groups :: "group_count \<Rightarrow> group_count \<Rightarrow> monitor_error + group_count" where
  "combine_groups previous item =
     bindr (valid ((fg_provider previous, fg_model previous) = (fg_provider item, fg_model item))
        ''monitor group identity metadata changed'')
     (\<lambda>_. post_init group_count_checks
        \<lparr>fg_group_id = fg_group_id item,
         fg_unit_count = fg_unit_count previous + fg_unit_count item,
         fg_label = or_text (fg_label previous) (fg_label item),
         fg_provider = fg_provider previous, fg_model = fg_model previous\<rparr>)"

definition add_metrics :: "metric_counts \<Rightarrow> metric_counts \<Rightarrow> metric_counts" where
  "add_metrics previous item =
     \<lparr>fm_group_id = fm_group_id item, fm_metric = fm_metric item,
      fm_true = fm_true previous + fm_true item, fm_false = fm_false previous + fm_false item,
      fm_pass = fm_pass previous + fm_pass item, fm_fail = fm_fail previous + fm_fail item,
      fm_unclear = fm_unclear previous + fm_unclear item,
      fm_missing = fm_missing previous + fm_missing item,
      fm_error = fm_error previous + fm_error item,
      fm_true_ids = bounded_evidence_ids (fm_true_ids previous) (fm_true_ids item),
      fm_false_ids = bounded_evidence_ids (fm_false_ids previous) (fm_false_ids item)\<rparr>"

definition combine_metrics :: "metric_counts \<Rightarrow> metric_counts \<Rightarrow> monitor_error + metric_counts" where
  "combine_metrics previous item = post_init metric_counts_checks (add_metrics previous item)"

definition metric_order :: "metric_counts \<Rightarrow> string \<times> string" where
  "metric_order m = (group_or_empty (fm_group_id m), fm_metric m)"

definition metrics_by_key ::
  "metric_counts list \<Rightarrow> (string option \<times> string, metric_counts) dict" where
  "metrics_by_key ms = dset_all metric_key id ms []"

definition sorted_metrics ::
  "(string option \<times> string, metric_counts) dict \<Rightarrow> metric_counts list" where
  "sorted_metrics d = sort_key metric_order (map snd d)"

definition merge_summaries ::
  "cohort_summary \<Rightarrow> cohort_summary \<Rightarrow> monitor_error + cohort_summary" where
  "merge_summaries a b =
     bindr (foldr_res (merge_entry fg_group_id combine_groups) (sy_groups b)
              (dset_all fg_group_id id (sy_groups a) []))
     (\<lambda>groups. bindr (foldr_res (merge_entry metric_key combine_metrics) (sy_metrics b)
              (metrics_by_key (sy_metrics a)))
     (\<lambda>metrics. post_init cohort_summary_checks
        \<lparr>sy_unit_count = sy_unit_count a + sy_unit_count b,
         sy_unassigned = sy_unassigned a + sy_unassigned b,
         sy_groups = sort_key fg_group_id (map snd groups),
         sy_metrics = sorted_metrics metrics\<rparr>))"

section \<open>Results of the evaluator that arrive late\<close>

definition pending_evaluator_units ::
  "analysis_unit list \<Rightarrow> string option set option \<Rightarrow> monitor_error + pending_unit list" where
  "pending_evaluator_units units tested =
     traverse (\<lambda>u. case au_evidence_digest u of
          None \<Rightarrow> Inl MonitorAssertion
        | Some d \<Rightarrow> post_init pending_unit_checks
            \<lparr>pu_unit_id = au_unit_id u,
             pu_group_id = (if tested = None then None else au_group_id u),
             pu_prior_state = (if au_evaluator_state u = ''error'' then ''error'' else ''missing''),
             pu_digest = d\<rparr>)
       (filter (\<lambda>u. given (\<lambda>s. au_group_id u \<in> s) tested \<and>
                    au_evaluator_state u \<in> {''pending'', ''error''}) units)"

definition changed_summary :: monitor_error where
  "changed_summary = MonitorRebootstrapRequired ''pending evaluator summary changed''"

definition changed_evidence :: monitor_error where
  "changed_evidence = MonitorRebootstrapRequired ''pending evaluator evidence is unavailable or changed''"

definition not_evaluable :: monitor_error where
  "not_evaluable = MonitorRebootstrapRequired ''pending evaluator evidence is no longer evaluable''"

definition state_total :: "string \<Rightarrow> metric_counts \<Rightarrow> int" where
  "state_total s m =
     (if s = ''pass'' then fm_pass m else if s = ''fail'' then fm_fail m
      else if s = ''unclear'' then fm_unclear m else if s = ''missing'' then fm_missing m
      else fm_error m)"

definition add_state :: "string \<Rightarrow> int \<Rightarrow> metric_counts \<Rightarrow> metric_counts" where
  "add_state s k m =
     (if s = ''pass'' then m\<lparr>fm_pass := fm_pass m + k\<rparr>
      else if s = ''fail'' then m\<lparr>fm_fail := fm_fail m + k\<rparr>
      else if s = ''unclear'' then m\<lparr>fm_unclear := fm_unclear m + k\<rparr>
      else if s = ''missing'' then m\<lparr>fm_missing := fm_missing m + k\<rparr>
      else m\<lparr>fm_error := fm_error m + k\<rparr>)"

definition add_outcome :: "string \<Rightarrow> string \<Rightarrow> metric_counts \<Rightarrow> metric_counts" where
  "add_outcome s unit_id m =
     (if s = ''pass'' then m\<lparr>fm_true := fm_true m + 1,
        fm_true_ids := bounded_evidence_ids (fm_true_ids m) [unit_id]\<rparr>
      else if s = ''fail'' then m\<lparr>fm_false := fm_false m + 1,
        fm_false_ids := bounded_evidence_ids (fm_false_ids m) [unit_id]\<rparr>
      else m)"

definition replace_state ::
  "pending_unit \<Rightarrow> string \<times> string \<Rightarrow> (string option \<times> string, metric_counts) dict \<Rightarrow>
     monitor_error + (string option \<times> string, metric_counts) dict" where
  "replace_state p ms d =
     (let (metric, s) = ms; key = (pu_group_id p, metric) in
      case dget d key of
        None \<Rightarrow> Inl changed_summary
      | Some previous \<Rightarrow>
          bindr (require (1 \<le> state_total (pu_prior_state p) previous) changed_summary)
          (\<lambda>_. bindr (post_init metric_counts_checks
              (add_outcome s (pu_unit_id p) (add_state s 1 (add_state (pu_prior_state p) (-1) previous))))
          (\<lambda>x. Inr (dset key x d))))"

definition replace_evaluator_state ::
  "pending_unit \<Rightarrow> (string, string) dict \<Rightarrow> (string option \<times> string, metric_counts) dict \<Rightarrow>
     monitor_error + (string option \<times> string, metric_counts) dict" where
  "replace_evaluator_state p states d = foldr_res (replace_state p) states d"

definition judge_metric :: "string \<Rightarrow> string" where
  "judge_metric dimension = ''judge.'' @ dimension @ ''.pass''"

definition judge_states ::
  "analysis_unit \<Rightarrow> string list \<Rightarrow> monitor_error + (string, string) dict" where
  "judge_states u dimensions = traverse (\<lambda>d. case dget (au_metric_states u) (judge_metric d) of
       None \<Rightarrow> Inl (MonitorKeyError (judge_metric d)) | Some s \<Rightarrow> Inr (judge_metric d, s)) dimensions"

text \<open>One pending unit: the new counts, whether they changed, and the unit if it stays pending.\<close>

definition advance_unit ::
  "analysis_unit list \<Rightarrow> string list \<Rightarrow> pending_unit \<Rightarrow>
     (string option \<times> string, metric_counts) dict \<times> bool \<times> pending_unit list \<Rightarrow>
     monitor_error + (string option \<times> string, metric_counts) dict \<times> bool \<times> pending_unit list" where
  "advance_unit units dimensions p st =
     (let (d, changed, remaining) = st in
      case List.find (\<lambda>u. au_unit_id u = pu_unit_id p) units of
        None \<Rightarrow> Inl changed_evidence
      | Some u \<Rightarrow>
          bindr (require (au_evidence_digest u = Some (pu_digest p)) changed_evidence)
          (\<lambda>_. if au_evaluator_state u = ''completed'' then
              bindr (judge_states u dimensions)
              (\<lambda>states. bindr (replace_evaluator_state p states d)
              (\<lambda>d'. Inr (d', True, remaining)))
            else if au_evaluator_state u = ''not_evaluable'' then Inl not_evaluable
            else if au_evaluator_state u = ''error'' \<and> pu_prior_state p = ''missing'' then
              bindr (replace_evaluator_state p (map (\<lambda>n. (judge_metric n, ''error'')) dimensions) d)
              (\<lambda>d'. Inr (d', True, remaining @ [p\<lparr>pu_prior_state := ''error''\<rparr>]))
            else Inr (d, changed, remaining @ [p])))"

definition advance_pending ::
  "cohort_summary \<Rightarrow> pending_unit list \<Rightarrow> analysis_unit list \<Rightarrow> string list \<Rightarrow>
     monitor_error + cohort_summary \<times> pending_unit list" where
  "advance_pending s pending units dimensions =
     bindr (foldr_res (advance_unit units dimensions) pending
              (metrics_by_key (sy_metrics s), False, []))
     (\<lambda>(d, changed, remaining).
        bindr (if changed then post_init cohort_summary_checks (s\<lparr>sy_metrics := sorted_metrics d\<rparr>)
               else Inr s)
        (\<lambda>s'. Inr (s', remaining)))"

end
