(* ===== verification/Monitor_Plan.thy ===== *)
theory Monitor_Plan
  imports Monitor_Cohorts
begin

text \<open>
  The planners of \<open>verdict/monitoring.py\<close>: the construction of a manifest from frozen summaries, the
  historical split of the units before a cutoff, the test whether a stored monitor must start over, and
  the step that admits new units into the current bucket of a running monitor.
\<close>

section \<open>Building a manifest\<close>

definition pending_payload :: "pending_unit \<Rightarrow> jval" where
  "pending_payload p = JDict
     [(''unit_id'', JStr (pu_unit_id p)), (''group_id'', opt_json JStr (pu_group_id p)),
      (''prior_state'', JStr (pu_prior_state p)), (''evidence_digest'', JStr (pu_digest p))]"

definition identity_payload :: "py_env \<Rightarrow> cohort_manifest \<Rightarrow> cohort_summary \<Rightarrow> cohort_summary \<Rightarrow> jval" where
  "identity_payload env m reference current = JDict
     ([(''policy'', JStr (mf_policy_fingerprint m)), (''cutoff'', JStr (pe_iso env (mf_cutoff m))),
       (''reference'', JList (map JStr (mf_reference_ids m))),
       (''current'', JList (map JStr (mf_current_ids m))),
       (''consumed'', JList (map JStr (mf_consumed_ids m))),
       (''late_unit_count'', JInt (mf_late m)), (''prospective_open'', JBool (mf_open m)),
       (''comparison_index'', JInt (mf_index m)),
       (''reference_evidence'', JStr (evidence_digest env reference)),
       (''current_evidence'', JStr (evidence_digest env current)),
       (''pending_evaluator_units'', JList (map pending_payload (mf_pending m))),
       (''evidence_finalization_version'', JInt (mf_version m))]
      @ (case mf_start_at m of None \<Rightarrow> []
         | Some t \<Rightarrow> [(''prospective_start_at'', JStr (pe_iso env t))]))"

text \<open>
  The bounds over both summaries, the identity of the manifest and its constructor.  The argument
  holds every field but the identity.
\<close>

definition build_manifest ::
  "py_env \<Rightarrow> cohort_manifest \<Rightarrow> cohort_summary \<Rightarrow> cohort_summary \<Rightarrow> monitor_error + cohort_manifest" where
  "build_manifest env m reference current =
     bindr (valid (card (fg_group_id ` set (sy_groups reference @ sy_groups current)) \<le> max_monitor_groups)
        ''monitor grouping exceeds 250 groups'')
     (\<lambda>_. bindr (valid (card (metric_key ` set (sy_metrics reference @ sy_metrics current))
            \<le> max_monitor_group_metrics) ''monitor grouping produces too many metric cells'')
     (\<lambda>_. post_init manifest_checks (m\<lparr>mf_reference := Some reference, mf_current := Some current,
        mf_snapshot_id :=
          pe_sha256 env (json_dumps True (identity_payload env m reference current))\<rparr>)))"

definition unsaved_manifest :: "py_env \<Rightarrow> monitor_policy \<Rightarrow> int \<Rightarrow> cohort_manifest" where
  "unsaved_manifest env p cutoff =
     \<lparr>mf_snapshot_id = [], mf_policy_fingerprint = policy_fingerprint env p, mf_cutoff = cutoff,
      mf_reference_ids = [], mf_current_ids = [], mf_consumed_ids = [], mf_late = 0,
      mf_open = False, mf_index = 0, mf_reference = None, mf_current = None, mf_pending = [],
      mf_version = evidence_finalization_version, mf_start_at = None\<rparr>"

section \<open>The historical plan\<close>

definition between :: "int option \<Rightarrow> int option \<Rightarrow> int \<Rightarrow> bool" where
  "between a b t = (case (a, b) of (Some x, Some y) \<Rightarrow> x \<le> t \<and> t < y | _ \<Rightarrow> False)"

text \<open>
  \<open>int(len(rows) * policy.reference_ratio)\<close>: the product is a float, rounded by \<open>rnd\<close>, and then
  truncated.
\<close>

definition split_rows ::
  "(rat \<Rightarrow> rat) \<Rightarrow> monitor_policy \<Rightarrow> analysis_unit list \<Rightarrow> analysis_unit list \<times> analysis_unit list" where
  "split_rows rnd p rows =
     (case mp_window_mode p of
        COUNT \<Rightarrow> (let boundary = nat (floor (rnd (of_nat (length rows) * mp_reference_ratio p))) in
          (take boundary rows, drop boundary rows))
      | EXPLICIT \<Rightarrow>
          (filter (\<lambda>u. between (mp_reference_start p) (mp_reference_end p) (au_event_time u)) rows,
           filter (\<lambda>u. between (mp_current_start p) (mp_current_end p) (au_event_time u)) rows))"

definition assigned_groups :: "analysis_unit list \<Rightarrow> string option set" where
  "assigned_groups units = set (filter (\<lambda>g. g \<noteq> None) (map au_group_id units))"

definition historical_pending ::
  "monitor_policy \<Rightarrow> analysis_unit list \<Rightarrow> analysis_unit list \<Rightarrow> monitor_error + pending_unit list" where
  "historical_pending p reference current =
     (let r = (if grouped p then Some (assigned_groups reference) else None);
          c = (if grouped p then Some (assigned_groups reference \<inter> assigned_groups current) else None) in
      bindr (pending_evaluator_units reference r)
      (\<lambda>xs. bindr (pending_evaluator_units current c) (\<lambda>ys. Inr (xs @ ys))))"

definition plan_historical_manifest ::
  "py_env \<Rightarrow> (rat \<Rightarrow> rat) \<Rightarrow> analysis_unit list \<Rightarrow> monitor_policy \<Rightarrow> int \<Rightarrow> monitor_error + cohort_manifest" where
  "plan_historical_manifest env rnd units p cutoff =
     bindr (validate_monitor_analysis_unit p)
     (\<lambda>_. bindr (ordered units)
     (\<lambda>ordered_units.
        let rows = filter (\<lambda>u. au_event_time u \<le> cutoff) ordered_units;
            (reference, current) = split_rows rnd p rows in
        bindr (historical_pending p reference current)
        (\<lambda>pending. if mp_evaluator p \<noteq> None \<and> pending \<noteq> []
           then Inl (MonitorEvaluatorPending (length pending))
           else bindr (freeze_cohort (grouped p) reference)
             (\<lambda>sr. bindr (freeze_cohort (grouped p) current)
             (\<lambda>sc. build_manifest env ((unsaved_manifest env p cutoff)
                \<lparr>mf_reference_ids := map au_unit_id reference,
                 mf_current_ids := map au_unit_id current,
                 mf_consumed_ids := map au_unit_id (reference @ current)\<rparr>) sr sc)))))"

definition monitor_requires_rebootstrap :: "monitor_policy \<Rightarrow> cohort_manifest option \<Rightarrow> bool \<Rightarrow> bool" where
  "monitor_requires_rebootstrap p m active \<longleftrightarrow>
     (if mp_analysis_unit p \<noteq> ''trace'' then True
      else case m of None \<Rightarrow> active
      | Some m \<Rightarrow> mf_reference m = None \<or> mf_current m = None \<or>
          (mp_grouping_mode p = ''cluster'' \<and> mp_registry_version p = None) \<or>
          (mp_evaluator p \<noteq> None \<and> mf_version m \<noteq> evidence_finalization_version) \<or>
          ((active \<or> 0 < mf_index m) \<and> mf_start_at m = None))"

section \<open>The prospective plan\<close>

text \<open>\<open>xs[:n]\<close>; a negative \<open>n\<close> counts from the end.\<close>

definition slice_to :: "int \<Rightarrow> 'a list \<Rightarrow> 'a list" where
  "slice_to n xs = take (nat (if n < 0 then int (length xs) + n else n)) xs"

definition prospective_start ::
  "cohort_manifest \<Rightarrow> int option \<Rightarrow> monitor_error + int" where
  "prospective_start previous start =
     (case mf_start_at previous of
        Some t \<Rightarrow> bindr (valid (given (\<lambda>s. s = t) start) ''prospective start cannot change'')
                    (\<lambda>_. Inr t)
      | None \<Rightarrow> Inr (case start of Some s \<Rightarrow> s | None \<Rightarrow> mf_cutoff previous))"

text \<open>The units that enter the bucket: not consumed before, not older than the start, in order.\<close>

definition admitted_units ::
  "monitor_policy \<Rightarrow> cohort_manifest \<Rightarrow> int \<Rightarrow> analysis_unit list \<Rightarrow> analysis_unit list" where
  "admitted_units p previous start rows =
     slice_to (if mf_open previous
               then mp_prospective_target p - int (length (mf_current_ids previous))
               else mp_prospective_target p)
       (filter (\<lambda>u. au_unit_id u \<notin> set (mf_consumed_ids previous) \<and> start \<le> au_event_time u) rows)"

definition tested_groups :: "monitor_policy \<Rightarrow> cohort_summary \<Rightarrow> string option set option" where
  "tested_groups p reference =
     (if grouped p then Some (Some ` set (map fg_group_id (sy_groups reference))) else None)"

text \<open>The counts of the bucket and what stays pending in it, when it goes on and when a new one starts.\<close>

definition next_current ::
  "monitor_policy \<Rightarrow> cohort_manifest \<Rightarrow> cohort_summary \<Rightarrow> string option set option \<Rightarrow>
     analysis_unit list \<Rightarrow> analysis_unit list \<Rightarrow> monitor_error + cohort_summary \<times> pending_unit list" where
  "next_current p previous current tested rows candidates =
     (if mf_open previous then
        bindr (advance_pending current (mf_pending previous) rows (mp_dimensions p))
        (\<lambda>(current', pending). bindr (freeze_cohort (grouped p) candidates)
        (\<lambda>fresh. bindr (merge_summaries current' fresh)
        (\<lambda>merged. bindr (pending_evaluator_units candidates tested)
        (\<lambda>new. Inr (merged, pending @ new)))))
      else
        bindr (freeze_cohort (grouped p) candidates)
        (\<lambda>fresh. bindr (pending_evaluator_units candidates tested) (\<lambda>new. Inr (fresh, new))))"

definition next_ids :: "cohort_manifest \<Rightarrow> analysis_unit list \<Rightarrow> string list" where
  "next_ids previous candidates =
     (if mf_open previous then mf_current_ids previous else []) @ map au_unit_id candidates"

definition next_manifest ::
  "py_env \<Rightarrow> monitor_policy \<Rightarrow> cohort_manifest \<Rightarrow> int \<Rightarrow> analysis_unit list \<Rightarrow> pending_unit list \<Rightarrow>
     cohort_manifest" where
  "next_manifest env p previous start candidates pending =
     (let late = int (length (filter (\<lambda>u. au_event_time u < mf_cutoff previous) candidates));
          ids = next_ids previous candidates in
      (unsaved_manifest env p
         (fold max (map au_event_time candidates) (max (mf_cutoff previous) start)))
      \<lparr>mf_reference_ids := mf_reference_ids previous,
       mf_current_ids := ids,
       mf_consumed_ids := mf_consumed_ids previous @ map au_unit_id candidates,
       mf_late := (if mf_open previous then mf_late previous + late else late),
       mf_open := (int (length ids) < mp_prospective_target p \<or> pending \<noteq> []),
       mf_index := (if mf_open previous then mf_index previous else mf_index previous + 1),
       mf_pending := pending, mf_start_at := Some start\<rparr>)"

definition rebootstrap_needed :: "cohort_manifest \<Rightarrow> bool" where
  "rebootstrap_needed m \<longleftrightarrow> 0 < mf_index m \<and> mf_start_at m = None"

definition plan_prospective_manifest ::
  "py_env \<Rightarrow> cohort_manifest \<Rightarrow> analysis_unit list \<Rightarrow> monitor_policy \<Rightarrow> int option \<Rightarrow>
     monitor_error + cohort_manifest" where
  "plan_prospective_manifest env previous units p start_arg =
     bindr (validate_monitor_analysis_unit p)
     (\<lambda>_. bindr (valid (mf_policy_fingerprint previous = policy_fingerprint env p)
        ''policy fingerprint changed; create a candidate policy'')
     (\<lambda>_. case (mf_reference previous, mf_current previous) of
        (Some reference, Some current) \<Rightarrow>
          bindr (valid (\<not> rebootstrap_needed previous) ''monitor policy requires re-bootstrap'')
          (\<lambda>_. bindr (prospective_start previous start_arg)
          (\<lambda>start. bindr (ordered units)
          (\<lambda>rows. let candidates = admitted_units p previous start rows in
             bindr (next_current p previous current (tested_groups p reference) rows candidates)
             (\<lambda>(summary, pending).
                build_manifest env (next_manifest env p previous start candidates pending)
                  reference summary))))
      | _ \<Rightarrow> Inl (MonitorInvalid ''monitor policy requires re-bootstrap'')))"

end
