(* ===== verification/Table_Laws.thy ===== *)
theory Table_Laws
  imports Monitor_Cohorts "HOL-Library.Multiset"
begin

text \<open>
  Lists that are tables: every element has a key and no key occurs twice.  A table in the order of its
  keys is determined by its lookup, collecting a list by a key is filtering it, and the loop
  \<open>merge_entry\<close> computes the pointwise combination of two tables.
\<close>

definition table :: "('a \<Rightarrow> 'k) \<Rightarrow> 'a list \<Rightarrow> 'k \<Rightarrow> 'a option" where
  "table key xs = map_of (map (\<lambda>x. (key x, x)) xs)"

named_theorems table_simps \<open>lookup in tables\<close>

lemma table_Nil [simp]: "table key [] = (\<lambda>k. None)"
  by (simp add: table_def)

lemma table_Cons [table_simps]: "table key (x # xs) k = (if k = key x then Some x else table key xs k)"
  by (simp add: table_def)

lemma table_Some:
  "distinct (map key xs) \<Longrightarrow> table key xs k = Some x \<longleftrightarrow> x \<in> set xs \<and> key x = k"
  by (auto simp: table_def map_of_eq_Some_iff comp_def)

lemma table_None: "table key xs k = None \<longleftrightarrow> k \<notin> key ` set xs"
  by (simp add: table_def map_of_eq_None_iff image_image)

lemma set_table: "distinct (map key xs) \<Longrightarrow> set xs = {x. table key xs (key x) = Some x}"
  by (auto simp: table_Some)

lemma distinct_sort_key_map: "distinct (map key (sort_key f xs)) \<longleftrightarrow> distinct (map key xs)"
  by (rule mset_eq_imp_distinct_iff) simp

lemma table_sort_key: "distinct (map key xs) \<Longrightarrow> table key (sort_key f xs) = table key xs"
proof
  fix k
  assume d: "distinct (map key xs)"
  then have "distinct (map key (sort_key f xs))"
    by (simp add: distinct_sort_key_map)
  with d show "table key (sort_key f xs) k = table key xs k"
  proof (cases "table key xs k")
    case None
    then have "k \<notin> key ` set (sort_key f xs)" by (simp add: table_None)
    then have "table key (sort_key f xs) k = None" by (simp only: table_None) simp
    then show ?thesis using None by simp
  next
    case (Some x)
    with d have "x \<in> set (sort_key f xs) \<and> key x = k" by (simp add: table_Some)
    then have "table key (sort_key f xs) k = Some x"
      using \<open>distinct (map key (sort_key f xs))\<close> by (simp add: table_Some)
    then show ?thesis using Some by simp
  qed
qed

lemma sorted_table_unique:
  assumes "sorted (map f xs)" "sorted (map f ys)" "inj_on f (set xs)"
    and "distinct (map key xs)" "distinct (map key ys)" "table key xs = table key ys"
  shows "xs = ys"
proof -
  have s: "set xs = set ys" using assms(4-6) by (simp add: set_table)
  have d: "distinct xs" "distinct ys" using assms(4,5) by (simp_all add: distinct_map)
  have "sort_key f xs = ys"
    using s d assms(2,3) by (intro sort_key_inj_key_eq) (simp_all add: set_eq_iff_mset_eq_distinct)
  moreover have "sort_key f xs = xs" using assms(1,3) by (intro sort_key_inj_key_eq) simp_all
  ultimately show ?thesis by simp
qed

section \<open>Collecting by a key\<close>

lemma collect_by_snoc: "collect_by key (xs @ [x]) = append_to key x (collect_by key xs)"
  by (simp add: collect_by_def)

lemma dget_collect_by:
  "dget (collect_by key xs) k =
     (if filter (\<lambda>x. key x = k) xs = [] then None else Some (filter (\<lambda>x. key x = k) xs))"
proof (induction xs rule: rev_induct)
  case Nil
  then show ?case by (simp add: collect_by_def)
next
  case (snoc x xs)
  then show ?case 
    by (cases "k = key x") (simp_all add: collect_by_snoc append_to_def dict_simps)
qed

lemma dwf_collect_by: "dwf (collect_by key xs)"
proof (induction xs rule: rev_induct)
  case Nil
  then show ?case by (simp add: collect_by_def)
next
  case (snoc x xs)
  then show ?case by (simp add: collect_by_snoc append_to_def distinct_update)
qed

lemma dkeys_collect_by: "set (dkeys (collect_by key xs)) = key ` set xs"
proof -
  have "k \<in> set (dkeys (collect_by key xs)) \<longleftrightarrow> dget (collect_by key xs) k \<noteq> None" for k
    by (metis map_of_eq_None_iff set_map)
  then have "k \<in> set (dkeys (collect_by key xs)) \<longleftrightarrow> filter (\<lambda>x. key x = k) xs \<noteq> []" for k
    by (simp add: dget_collect_by)
  then have "k \<in> set (dkeys (collect_by key xs)) \<longleftrightarrow> k \<in> key ` set xs" for k
    by (simp only: filter_empty_conv image_iff) blast
  then show ?thesis by blast
qed

section \<open>First occurrences\<close>

lemma from_keys_snoc:
  "from_keys (xs @ [x]) = (if x \<in> set (from_keys xs) then from_keys xs else from_keys xs @ [x])"
  by (simp add: from_keys_def)

lemma from_keys_props: "set (from_keys xs) = set xs" "distinct (from_keys xs)"
  by (induction xs rule: rev_induct) (auto simp: from_keys_snoc, auto simp: from_keys_def)

lemma from_keys_distinct: "distinct xs \<Longrightarrow> from_keys xs = xs"
  by (induction xs rule: rev_induct) (auto simp: from_keys_snoc from_keys_props, simp add: from_keys_def)

lemma bounded_evidence_ids_append:
  assumes "distinct (xs @ ys)"
  shows "bounded_evidence_ids (take max_monitor_evidence_unit_ids xs)
      (take max_monitor_evidence_unit_ids ys) = take max_monitor_evidence_unit_ids (xs @ ys)"
proof -
  have "distinct (take n xs @ take n ys)" for n
    using assms by (auto dest: in_set_takeD)
  then show ?thesis by (simp add: bounded_evidence_ids_def from_keys_distinct min_def)
qed

section \<open>Merging tables\<close>

definition keyed :: "('a \<Rightarrow> 'k) \<Rightarrow> ('k, 'a) dict \<Rightarrow> bool" where
  "keyed key d \<longleftrightarrow> dwf d \<and> (\<forall>(k, x) \<in> set d. key x = k)"

lemma keyed_table: "keyed key d \<Longrightarrow> distinct (map key (map snd d)) \<and> table key (map snd d) = dget d"
proof -
  assume k: "keyed key d"
  then have "map (\<lambda>x. (key x, x)) (map snd d) = d" by (induction d) (auto simp: keyed_def)
  moreover from k have "map key (map snd d) = map fst d" by (auto simp: keyed_def)
  ultimately show ?thesis using k by (metis (no_types) keyed_def table_def)
qed

lemma keyed_dset: "keyed key d \<Longrightarrow> keyed key (dset (key x) x d)"
proof -
  assume d: "keyed key d"
  have "key y = k" if "(k, y) \<in> set (dset (key x) x d)" for k y
  proof -
    have "dget (dset (key x) x d) k = Some y" using that d by (simp add: keyed_def)
    then show ?thesis using d
      by (auto simp: dict_simps keyed_def split: if_splits dest!: map_of_SomeD)
  qed
  then show ?thesis using d by (auto simp: keyed_def)
qed

lemma dset_all_table:
  "distinct (map key xs) \<Longrightarrow> dget (dset_all key id xs d) k =
     (case table key xs k of None \<Rightarrow> dget d k | Some x \<Rightarrow> Some x)"
proof (induction xs arbitrary: d)
  case Nil
  then show ?case by simp
next
  case (Cons x xs)
  then have "table key xs (key x) = None" by (simp add: table_None)
  with Cons show ?case by (auto simp: table_simps dict_simps split: option.split)
qed

lemma keyed_dset_all: "keyed key d \<Longrightarrow> keyed key (dset_all key id xs d)"
  by (induction xs arbitrary: d) (simp_all add: keyed_dset)

lemma keyed_Nil [simp]: "keyed key []"
  by (simp add: keyed_def)

text \<open>The combination of two entries, when it does not raise.\<close>

definition merged :: "('a \<Rightarrow> 'a \<Rightarrow> 'e + 'a) \<Rightarrow> 'a option \<Rightarrow> 'a option \<Rightarrow> 'a option" where
  "merged comb a b = (case b of None \<Rightarrow> a | Some y \<Rightarrow> (case a of None \<Rightarrow> Some y
     | Some x \<Rightarrow> (case comb x y of Inl _ \<Rightarrow> None | Inr z \<Rightarrow> Some z)))"

lemma merge_loop:
  assumes "foldr_res (merge_entry key comb) ys d = Inr d'" "distinct (map key ys)" "keyed key d"
    and "\<And>x y z. comb x y = Inr z \<Longrightarrow> key z = key y"
  shows "keyed key d' \<and> dget d' k = merged comb (dget d k) (table key ys k)
      \<and> (\<forall>x y. dget d k = Some x \<longrightarrow> table key ys k = Some y \<longrightarrow> (\<exists>z. comb x y = Inr z))"
  using assms(1-3)
proof (induction ys arbitrary: d)
  case Nil
  then show ?case by (simp add: merged_def)
next
  case (Cons y ys)
  from Cons.prems(1) obtain d1 where d1: "merge_entry key comb y d = Inr d1"
    and rest: "foldr_res (merge_entry key comb) ys d1 = Inr d'"
    by (auto simp: res_simps)
  from d1 obtain z where z: "d1 = dset (key y) z d" "key z = key y"
    "dget d (key y) = None \<and> z = y \<or> (\<exists>x. dget d (key y) = Some x \<and> comb x y = Inr z)"
    using assms(4) by (auto simp: merge_entry_def res_simps split: option.splits)
  have k1: "keyed key d1" using keyed_dset [OF Cons.prems(3), of z] z(1,2) by simp
  have fresh: "table key ys (key y) = None" using Cons.prems(2) by (simp add: table_None)
  note IH = Cons.IH [OF rest _ k1]
  show ?case
  proof (cases "k = key y")
    case True
    then show ?thesis using IH Cons.prems(2) z fresh
      by (auto simp: table_simps merged_def dict_simps)
  next
    case False
    then show ?thesis using IH Cons.prems(2) z(1)
      by (simp add: table_simps dict_simps)
  qed
qed

lemma dset_pred:
  assumes "list_all P (map snd d)" "P x"
  shows "list_all P (map snd (dset k x d))"
  using assms by (induction d) auto

lemma merge_loop_pred:
  assumes "foldr_res (merge_entry key comb) ys d = Inr d'" "list_all P (map snd d)" "list_all P ys"
    and "\<And>x y z. comb x y = Inr z \<Longrightarrow> P x \<Longrightarrow> P y \<Longrightarrow> P z"
  shows "list_all P (map snd d')"
  using assms(1-3)
proof (induction ys arbitrary: d)
  case Nil
  then show ?case by simp
next
  case (Cons y ys)
  from Cons.prems(1) obtain d1 where d1: "merge_entry key comb y d = Inr d1"
    and rest: "foldr_res (merge_entry key comb) ys d1 = Inr d'"
    by (auto simp: res_simps)
  have "P x" if "dget d (key y) = Some x" for x
    using map_of_SomeD [OF that] Cons.prems(2) by (auto simp: list_all_iff)
  then have "list_all P (map snd d1)"
    using d1 Cons.prems(2,3) assms(4)
    by (auto simp: merge_entry_def bindr_eq_Inr intro!: dset_pred split: option.splits)
  then show ?case using Cons.IH [OF rest] Cons.prems(3) by simp
qed

lemma merge_loop_total:
  assumes "list_all P (map snd d)" "list_all P ys" "keyed key d"
    and "\<And>x y. P x \<Longrightarrow> P y \<Longrightarrow> key x = key y \<Longrightarrow> \<exists>z. comb x y = Inr z \<and> P z \<and> key z = key y"
  shows "\<exists>d'. foldr_res (merge_entry key comb) ys d = Inr d'"
  using assms(1-3)
proof (induction ys arbitrary: d)
  case Nil
  then show ?case by simp
next
  case (Cons y ys)
  have "\<exists>d1. merge_entry key comb y d = Inr d1 \<and> list_all P (map snd d1) \<and> keyed key d1"
  proof (cases "dget d (key y)")
    case None
    then show ?thesis using Cons.prems by (simp add: merge_entry_def dset_pred keyed_dset)
  next
    case (Some x)
    then have "P x" "key x = key y" using Cons.prems(1,3) map_of_SomeD [OF Some]
      by (auto simp: list_all_iff keyed_def)
    then obtain z where z: "comb x y = Inr z" "P z" "key z = key y"
      using assms(4) Cons.prems(2) by auto
    then show ?thesis using Cons.prems keyed_dset [OF Cons.prems(3), of z]
      by (simp add: merge_entry_def Some dset_pred)
  qed
  then show ?case using Cons.IH Cons.prems(2) by auto
qed

lemma dset_all_pred: "list_all P (map snd d) \<Longrightarrow> list_all P xs \<Longrightarrow> list_all P (map snd (dset_all key id xs d))"
  by (induction xs arbitrary: d) (simp_all add: dset_pred)

text \<open>The values of a dictionary in the order of their keys are the table that looks up the same.\<close>

lemma sorted_values_unique:
  assumes "keyed key d" "dget d = table key ys" "sorted (map f ys)" "distinct (map f ys)"
    "distinct (map key ys)"
  shows "sort_key f (map snd d) = ys"
proof -
  have k: "distinct (map key (map snd d))" "table key (map snd d) = table key ys"
    using keyed_table [OF assms(1)] assms(2) by simp_all
  then have "set (map snd d) = set ys" using assms(5) by (simp add: set_table del: set_map)
  then have s: "set (sort_key f (map snd d)) = set ys" by (simp only: set_sort)
  have "inj_on f (set ys)" using assms(4) by (simp add: distinct_map)
  then have i: "inj_on f (set (sort_key f (map snd d)))" unfolding s .
  show ?thesis
    by (rule sorted_table_unique [OF sorted_sort_key assms(3) i, of key])
       (simp_all only: distinct_sort_key_map table_sort_key k assms(5))
qed

end
