(* ===== verification/Cohort_Merge_Laws.thy ===== *)
theory Cohort_Merge_Laws
  imports Table_Laws
begin

text \<open>
  What a frozen cohort is: \<open>frozen\<close> is the summary of a list of units without the checks, written by
  filtering, and \<open>freeze_cohort\<close> returns exactly it when every check passes.  Its lists are tables in
  the order of their keys, so that a summary is determined by what it says of each group and of each
  metric of a group; this gives the law of \<open>merge_summaries\<close>.
\<close>

section \<open>The selected rows\<close>

definition rows_in :: "bool \<Rightarrow> analysis_unit list \<Rightarrow> string option \<Rightarrow> analysis_unit list" where
  "rows_in g units k = filter (\<lambda>u. effective_group g u = k) (assigned g units)"

lemma rows_of_eq: "rows_of g units k = rows_in g units k"
  by (simp add: rows_of_def rows_in_def dget_collect_by)

lemma rows_in_append: "rows_in g (a @ b) k = rows_in g a k @ rows_in g b k"
  by (simp add: rows_in_def assigned_def)

definition first_in :: "bool \<Rightarrow> analysis_unit list \<Rightarrow> string \<Rightarrow> analysis_unit option" where
  "first_in g units k = (case rows_in g units (Some k) of [] \<Rightarrow> None | u # us \<Rightarrow> Some u)"

lemma metadata_snoc:
  "group_metadata g (us @ [u]) =
     (case effective_group g u of None \<Rightarrow> group_metadata g us
      | Some k \<Rightarrow> dsetdefault k u (group_metadata g us))"
  by (auto simp: group_metadata_def assigned_def effective_group_def split: option.splits)

lemma rows_in_snoc:
  "rows_in g (us @ [u]) (Some k) =
     (if effective_group g u = Some k then rows_in g us (Some k) @ [u] else rows_in g us (Some k))"
  by (auto simp: rows_in_def assigned_def effective_group_def split: if_splits)

lemma metadata_lookup: "dget (group_metadata g us) k = first_in g us k \<and> dwf (group_metadata g us)"
proof (induction us rule: rev_induct)
  case Nil
  then show ?case by (simp add: group_metadata_def assigned_def first_in_def rows_in_def)
next
  case (snoc u us)
  have "rows_in g us (Some k) = [] \<longleftrightarrow> first_in g us k = None"
    by (simp add: first_in_def split: list.split)
  with snoc show ?case
    by (cases "rows_in g us (Some k)")
       (auto simp: metadata_snoc first_in_def rows_in_snoc dict_simps
         simp del: map_of_eq_Some_iff split: option.splits)
qed

section \<open>The summary without the checks\<close>

definition frozen_groups :: "bool \<Rightarrow> analysis_unit list \<Rightarrow> group_count list" where
  "frozen_groups g units = map (\<lambda>(k, u). count_group k (rows_in g units (Some k)) u)
     (sort_key fst (group_metadata g units))"

definition frozen_metrics :: "bool \<Rightarrow> analysis_unit list \<Rightarrow> metric_counts list" where
  "frozen_metrics g units = concat (map (\<lambda>(k, rows). map (count_metric k rows) (metric_names rows))
     (sort_key (\<lambda>e. group_or_empty (fst e)) (collect_by (effective_group g) (assigned g units))))"

definition frozen :: "bool \<Rightarrow> analysis_unit list \<Rightarrow> cohort_summary" where
  "frozen g units =
     \<lparr>sy_unit_count = int (length units),
      sy_unassigned = int (length (filter (\<lambda>u. g \<and> au_group_id u = None) units)),
      sy_groups = frozen_groups g units, sy_metrics = frozen_metrics g units\<rparr>"

definition summary_passes :: "cohort_summary \<Rightarrow> bool" where
  "summary_passes s \<longleftrightarrow> passes cohort_summary_checks s \<and>
     list_all (passes group_count_checks) (sy_groups s) \<and>
     list_all (passes metric_counts_checks) (sy_metrics s)"

lemma traverse_post_init:
  "traverse (\<lambda>x. post_init cs (f x)) xs = Inr ys \<longleftrightarrow> list_all (\<lambda>x. passes cs (f x)) xs \<and> ys = map f xs"
  by (induction xs arbitrary: ys) (auto simp: res_simps)

lemma length_frozen_groups: "length (frozen_groups g units) = length (group_metadata g units)"
  by (simp add: frozen_groups_def)

lemma summary_passes_groups: "summary_passes s \<Longrightarrow> length (sy_groups s) \<le> max_monitor_groups"
  by (simp add: summary_passes_def passes_def cohort_summary_checks_def)

lemma freeze_cohort_eq:
  "freeze_cohort g units = Inr s \<longleftrightarrow> s = frozen g units \<and> summary_passes (frozen g units)"
proof -
  have m: "list_all (\<lambda>x. passes metric_counts_checks (id x)) ms = list_all (passes metric_counts_checks) ms"
    for ms by simp
  have g: "(\<lambda>(k, u). post_init group_count_checks (count_group k (rows_of g units (Some k)) u))
      = (\<lambda>e. post_init group_count_checks (case e of (k, u) \<Rightarrow> count_group k (rows_in g units (Some k)) u))"
    by (auto simp: rows_of_eq)
  have b: "summary_passes (frozen g units) \<Longrightarrow> length (group_metadata g units) \<le> max_monitor_groups"
    using summary_passes_groups [of "frozen g units"] by (simp add: frozen_def length_frozen_groups)
  show ?thesis
    using b
    unfolding freeze_cohort_def Let_def g frozen_metrics_def [symmetric]
    by (auto simp: bindr_eq_Inr post_init_eq_Inr traverse_post_init
        traverse_post_init [where f = id, simplified]
        frozen_def summary_passes_def frozen_groups_def list_all_iff list.pred_map)
qed

section \<open>Its lists are ordered tables\<close>

lemma sorted_group_ids:
  "map fg_group_id (frozen_groups g us) = map fst (sort_key fst (group_metadata g us))"
  by (simp add: frozen_groups_def count_group_def split_beta comp_def)

lemma frozen_groups_order:
  "sorted (map fg_group_id (frozen_groups g us))" "distinct (map fg_group_id (frozen_groups g us))"
  using metadata_lookup [of g us]
  by (simp_all add: sorted_group_ids distinct_sort_key_map)

lemma table_map_dict:
  "(\<And>k v. key (h k v) = k) \<Longrightarrow> table key (map (\<lambda>(k, v). h k v) d) k = map_option (h k) (dget d k)"
  by (induction d) (auto simp: table_simps)

lemma frozen_groups_table:
  "table fg_group_id (frozen_groups g us) k =
     map_option (count_group k (rows_in g us (Some k))) (first_in g us k)"
proof -
  have "table fg_group_id (frozen_groups g us) k =
      map_option (count_group k (rows_in g us (Some k))) (dget (sort_key fst (group_metadata g us)) k)"
    unfolding frozen_groups_def by (rule table_map_dict) (simp add: count_group_def)
  then show ?thesis using metadata_lookup [of g us] by (simp add: map_of_sort_key)
qed

lemma selected_keys:
  assumes "(k, rows) \<in> set (collect_by (effective_group g) (assigned g us))"
  shows "rows = rows_in g us k" "rows \<noteq> []" "g \<longleftrightarrow> k \<noteq> None"
proof -
  let ?d = "collect_by (effective_group g) (assigned g us)"
  have "dget ?d k = Some rows" using assms by (simp add: dwf_collect_by)
  then show r: "rows = rows_in g us k" "rows \<noteq> []"
    by (simp_all add: dget_collect_by rows_in_def split: if_splits)
  from r obtain u where "u \<in> set (assigned g us)" "effective_group g u = k"
    by (auto simp: rows_in_def filter_empty_conv)
  then show "g \<longleftrightarrow> k \<noteq> None" by (auto simp: assigned_def effective_group_def split: if_splits)
qed

lemma metric_order_count: "metric_order (count_metric k rows n) = (group_or_empty k, n)"
  by (simp add: metric_order_def count_metric_def Let_def)

lemma metric_key_count: "metric_key (count_metric k rows n) = (k, n)"
  by (simp add: metric_key_def count_metric_def Let_def)

lemma strict_names: "sorted_wrt (<) (metric_names rows)"
  by (simp add: metric_names_def strict_sorted_iff)

lemma strict_sort_key:
  "distinct (map f xs) \<Longrightarrow> sorted_wrt (\<lambda>a b. f a < f b) (sort_key f xs)"
proof -
  assume "distinct (map f xs)"
  then have "sorted_wrt (<) (map f (sort_key f xs))"
    by (simp add: strict_sorted_iff distinct_sort_key_map)
  then show ?thesis by (simp add: sorted_wrt_map)
qed

lemma blocks_strict:
  assumes "sorted_wrt (\<lambda>a b. group_or_empty (fst a) < group_or_empty (fst b)) es"
  shows "sorted_wrt (\<lambda>m n. metric_order m < metric_order n)
      (concat (map (\<lambda>(k, rows). map (count_metric k rows) (metric_names rows)) es))"
  using assms
proof (induction es)
  case Nil
  then show ?case by simp
next
  case (Cons e es)
  obtain k rows where e: "e = (k, rows)" by fastforce
  have "sorted_wrt (\<lambda>m n. metric_order m < metric_order n) (map (count_metric k rows) (metric_names rows))"
    using strict_names [of rows] by (simp add: sorted_wrt_map metric_order_count less_prod_def)
  moreover have "metric_order m < metric_order n"
    if "m \<in> set (map (count_metric k rows) (metric_names rows))"
      "n \<in> set (concat (map (\<lambda>(k, rows). map (count_metric k rows) (metric_names rows)) es))" for m n
    using that Cons.prems e by (auto simp: metric_order_count less_prod_def)
  ultimately show ?case using Cons e by (auto simp: sorted_wrt_append)
qed

lemma selected_order_distinct:
  "distinct (map (\<lambda>e. group_or_empty (fst e)) (collect_by (effective_group g) (assigned g us)))"
proof -
  let ?d = "collect_by (effective_group g) (assigned g us)"
  have "inj_on group_or_empty (set (dkeys ?d))"
  proof (rule inj_onI)
    fix k l
    assume kl: "k \<in> set (dkeys ?d)" "l \<in> set (dkeys ?d)" "group_or_empty k = group_or_empty l"
    then obtain r1 r2 where "(k, r1) \<in> set ?d" "(l, r2) \<in> set ?d" by force
    then have "k = None \<longleftrightarrow> l = None" using selected_keys(3) by blast
    with kl(3) show "k = l" by (auto simp: group_or_empty_def split: option.splits)
  qed
  then have "distinct (map group_or_empty (dkeys ?d))"
    unfolding distinct_map [of group_or_empty] by (simp add: dwf_collect_by)
  then show ?thesis by (simp add: comp_def)
qed

lemma frozen_metrics_strict: "sorted_wrt (\<lambda>m n. metric_order m < metric_order n) (frozen_metrics g us)"
  unfolding frozen_metrics_def by (intro blocks_strict strict_sort_key selected_order_distinct)

lemma metric_order_of_key: "metric_order m = (case metric_key m of (k, n) \<Rightarrow> (group_or_empty k, n))"
  by (simp add: metric_order_def metric_key_def)

lemma frozen_metrics_order:
  "sorted (map metric_order (frozen_metrics g us))" "distinct (map metric_order (frozen_metrics g us))"
  "distinct (map metric_key (frozen_metrics g us))"
proof -
  have s: "sorted_wrt (<) (map metric_order (frozen_metrics g us))"
    using frozen_metrics_strict by (simp add: sorted_wrt_map)
  then show "sorted (map metric_order (frozen_metrics g us))"
    and d: "distinct (map metric_order (frozen_metrics g us))"
    by (simp_all add: strict_sorted_iff)
  have "map metric_order (frozen_metrics g us)
      = map (\<lambda>(k, n). (group_or_empty k, n)) (map metric_key (frozen_metrics g us))"
    by (simp add: metric_order_of_key)
  with d show "distinct (map metric_key (frozen_metrics g us))" by (metis distinct_map)
qed

lemma set_metric_names:
  "n \<in> set (metric_names rows) \<longleftrightarrow>
     (\<exists>u \<in> set rows. n \<in> set (dkeys (au_metrics u)) \<or> n \<in> set (dkeys (au_metric_states u)))"
  by (auto simp: metric_names_def)

lemma set_frozen_metrics:
  "m \<in> set (frozen_metrics g us) \<longleftrightarrow>
     (\<exists>k n. n \<in> set (metric_names (rows_in g us k)) \<and> m = count_metric k (rows_in g us k) n)"
proof
  assume "m \<in> set (frozen_metrics g us)"
  then obtain k rows n where "(k, rows) \<in> set (collect_by (effective_group g) (assigned g us))"
    "n \<in> set (metric_names rows)" "m = count_metric k rows n"
    by (auto simp: frozen_metrics_def)
  then show "\<exists>k n. n \<in> set (metric_names (rows_in g us k)) \<and> m = count_metric k (rows_in g us k) n"
    using selected_keys(1) by blast
next
  assume "\<exists>k n. n \<in> set (metric_names (rows_in g us k)) \<and> m = count_metric k (rows_in g us k) n"
  then obtain k n where n: "n \<in> set (metric_names (rows_in g us k))"
    "m = count_metric k (rows_in g us k) n" by blast
  then have "rows_in g us k \<noteq> []" by (auto simp: set_metric_names)
  then have "dget (collect_by (effective_group g) (assigned g us)) k = Some (rows_in g us k)"
    by (simp add: dget_collect_by rows_in_def)
  then have "(k, rows_in g us k) \<in> set (collect_by (effective_group g) (assigned g us))"
    by (rule map_of_SomeD)
  with n show "m \<in> set (frozen_metrics g us)" by (auto simp: frozen_metrics_def)
qed

lemma frozen_metrics_table:
  "table metric_key (frozen_metrics g us) (k, n) =
     (if n \<in> set (metric_names (rows_in g us k)) then Some (count_metric k (rows_in g us k) n) else None)"
proof (cases "n \<in> set (metric_names (rows_in g us k))")
  case True
  then have "count_metric k (rows_in g us k) n \<in> set (frozen_metrics g us)"
    using set_frozen_metrics by blast
  with True show ?thesis by (simp add: table_Some frozen_metrics_order metric_key_count)
next
  case False
  then have "(k, n) \<notin> metric_key ` set (frozen_metrics g us)"
    by (auto simp: set_frozen_metrics metric_key_count)
  then have "table metric_key (frozen_metrics g us) (k, n) = None" by (simp only: table_None) simp
  with False show ?thesis by simp
qed


text \<open>
  Merging frozen summaries is freezing the concatenation: the counts of the rows of a group add up,
  the bounded evidence lists keep the first identities of both, and a group keeps the metadata of its
  first unit.
\<close>

section \<open>Counts add up\<close>

lemma metric_values_append: "metric_values n (a @ b) = metric_values n a @ metric_values n b"
  by (induction a) (auto simp: metric_values_def List.map_filter_simps split: option.split)

lemma state_count_append: "state_count n (a @ b) s = state_count n a s + state_count n b s"
  by (simp add: state_count_def)

lemma evidence_of_append:
  assumes "distinct (map au_unit_id (a @ b))"
  shows "bounded_evidence_ids (evidence_of n v a) (evidence_of n v b) = evidence_of n v (a @ b)"
proof -
  let ?f = "\<lambda>us. map au_unit_id (filter (\<lambda>u. dget (au_metrics u) n = Some v) us)"
  have "distinct (?f (a @ b))" using assms distinct_map_filter by blast
  then have "distinct (?f a @ ?f b)" by simp
  from bounded_evidence_ids_append [OF this] show ?thesis by (simp add: evidence_of_def)
qed

lemma count_metric_append:
  "distinct (map au_unit_id (a @ b)) \<Longrightarrow>
     count_metric k (a @ b) n = add_metrics (count_metric k a n) (count_metric k b n)"
  using evidence_of_append [of a b n]
  by (simp add: count_metric_def add_metrics_def Let_def metric_values_append state_count_append)

lemma unnamed_metric:
  assumes "n \<notin> set (metric_names rows)"
  shows "metric_values n rows = []" "state_count n rows s = 0"
    "filter (\<lambda>u. dget (au_metrics u) n = Some v) rows = []"
proof -
  have "dget (au_metrics u) n = None \<and> dget (au_metric_states u) n = None" if "u \<in> set rows" for u
    using assms that by (auto simp: set_metric_names map_of_eq_None_iff)
  then show "metric_values n rows = []" "state_count n rows s = 0"
    "filter (\<lambda>u. dget (au_metrics u) n = Some v) rows = []"
    by (auto simp: metric_values_def map_filter_def state_count_def filter_empty_conv)
qed

lemma count_metric_left:
  "n \<notin> set (metric_names b) \<Longrightarrow> count_metric k (a @ b) n = count_metric k a n"
  by (simp add: count_metric_def metric_values_append state_count_append evidence_of_def unnamed_metric)

lemma count_metric_right:
  "n \<notin> set (metric_names a) \<Longrightarrow> count_metric k (a @ b) n = count_metric k b n"
  by (simp add: count_metric_def metric_values_append state_count_append evidence_of_def unnamed_metric)

lemma metric_names_append:
  "set (metric_names (a @ b)) = set (metric_names a) \<union> set (metric_names b)"
  by (rule set_eqI) (simp only: set_metric_names set_append Un_iff bex_Un)

lemma first_in_append:
  "first_in g (a @ b) k = (case first_in g a k of None \<Rightarrow> first_in g b k | Some u \<Rightarrow> Some u)"
  by (auto simp: first_in_def rows_in_append split: list.splits)

lemma first_in_rows: "first_in g us k = None \<longleftrightarrow> rows_in g us (Some k) = []"
  by (auto simp: first_in_def split: list.splits)

lemma count_group_add:
  assumes "combine_groups (count_group k a u) (count_group k b v) = Inr x" "k \<noteq> []"
  shows "x = count_group k (a @ b) u"
  using assms
  by (auto simp: combine_groups_def res_simps count_group_def or_text_def split: option.splits list.splits)

section \<open>The merge\<close>

lemma merged_groups:
  assumes m: "foldr_res (merge_entry fg_group_id combine_groups) (frozen_groups g b)
      (dset_all fg_group_id id (frozen_groups g a) []) = Inr d"
    and ids: "list_all (passes group_count_checks) (frozen_groups g a)"
  shows "keyed fg_group_id d" "dget d = table fg_group_id (frozen_groups g (a @ b))"
proof -
  note loop = merge_loop [OF m frozen_groups_order(2) keyed_dset_all [OF keyed_Nil]]
  have key: "combine_groups x y = Inr z \<Longrightarrow> fg_group_id z = fg_group_id y" for x y z
    by (auto simp: combine_groups_def res_simps)
  have init: "dget (dset_all fg_group_id id (frozen_groups g a) []) k
      = table fg_group_id (frozen_groups g a) k" for k
    using dset_all_table [OF frozen_groups_order(2) [of g a], of "[]" k]
    by (simp split: option.split)
  show "keyed fg_group_id d" using loop key by blast
  show "dget d = table fg_group_id (frozen_groups g (a @ b))"
  proof
    fix k
    have lk: "dget d k = merged combine_groups (table fg_group_id (frozen_groups g a) k)
        (table fg_group_id (frozen_groups g b) k)"
      and ok: "\<And>x y. table fg_group_id (frozen_groups g a) k = Some x \<Longrightarrow>
        table fg_group_id (frozen_groups g b) k = Some y \<Longrightarrow> \<exists>z. combine_groups x y = Inr z"
      using loop [of k] key init by simp_all
    show "dget d k = table fg_group_id (frozen_groups g (a @ b)) k"
    proof (cases "first_in g a k")
      case None
      then have "rows_in g a (Some k) = []" by (simp add: first_in_rows)
      with None show ?thesis
        by (simp add: lk frozen_groups_table merged_def first_in_append rows_in_append split: option.split)
    next
      case (Some u)
      note a = this
      have ta: "table fg_group_id (frozen_groups g a) k = Some (count_group k (rows_in g a (Some k)) u)"
        using a by (simp add: frozen_groups_table)
      show ?thesis
      proof (cases "first_in g b k")
        case None
        then have "rows_in g b (Some k) = []" by (simp add: first_in_rows)
        with None a show ?thesis
          by (simp add: lk frozen_groups_table merged_def first_in_append rows_in_append)
      next
        case (Some v)
        have tb: "table fg_group_id (frozen_groups g b) k = Some (count_group k (rows_in g b (Some k)) v)"
          using Some by (simp add: frozen_groups_table)
        obtain z where z: "combine_groups (count_group k (rows_in g a (Some k)) u)
            (count_group k (rows_in g b (Some k)) v) = Inr z"
          using ok [OF ta tb] by blast
        have "count_group k (rows_in g a (Some k)) u \<in> set (frozen_groups g a)"
          using ta by (simp add: table_Some frozen_groups_order)
        then have "k \<noteq> []" using ids
          by (auto simp: list_all_iff passes_def group_count_checks_def validate_group_id_def
            bounded_id_def count_group_def)
        from count_group_add [OF z this] show ?thesis using z a Some
          by (simp add: lk ta tb merged_def frozen_groups_table first_in_append rows_in_append)
      qed
    qed
  qed
qed

lemma distinct_rows: "distinct (map au_unit_id us) \<Longrightarrow> distinct (map au_unit_id (rows_in g us k))"
  by (simp add: rows_in_def assigned_def distinct_map_filter)

lemma merged_metrics:
  assumes m: "foldr_res (merge_entry metric_key combine_metrics) (frozen_metrics g b)
      (metrics_by_key (frozen_metrics g a)) = Inr d"
    and ids: "distinct (map au_unit_id (a @ b))"
  shows "keyed metric_key d" "dget d = table metric_key (frozen_metrics g (a @ b))"
proof -
  have k0: "keyed metric_key (metrics_by_key (frozen_metrics g a))"
    by (simp add: metrics_by_key_def keyed_dset_all)
  note loop = merge_loop [OF m frozen_metrics_order(3) k0]
  have key: "combine_metrics x y = Inr z \<Longrightarrow> metric_key z = metric_key y" for x y z
    by (auto simp: combine_metrics_def res_simps add_metrics_def metric_key_def)
  have init: "dget (metrics_by_key (frozen_metrics g a)) k = table metric_key (frozen_metrics g a) k" for k
    using dset_all_table [OF frozen_metrics_order(3) [of g a], of "[]" k]
    by (simp add: metrics_by_key_def split: option.split)
  show "keyed metric_key d" using loop key by blast
  show "dget d = table metric_key (frozen_metrics g (a @ b))"
  proof
    fix kn
    obtain k :: "string option" and n :: string where kn: "kn = (k, n)" by fastforce
    let ?a = "rows_in g a k" and ?b = "rows_in g b k"
    have lk: "dget d kn = merged combine_metrics (table metric_key (frozen_metrics g a) kn)
        (table metric_key (frozen_metrics g b) kn)"
      and ok: "\<And>x y. table metric_key (frozen_metrics g a) kn = Some x \<Longrightarrow>
        table metric_key (frozen_metrics g b) kn = Some y \<Longrightarrow> \<exists>z. combine_metrics x y = Inr z"
      using loop [of kn] key init by simp_all
    have dist: "distinct (map au_unit_id (?a @ ?b))"
      using distinct_rows [OF ids, of g k] by (simp add: rows_in_append)
    consider "n \<notin> set (metric_names ?a)" | "n \<in> set (metric_names ?a)" "n \<notin> set (metric_names ?b)"
      | "n \<in> set (metric_names ?a)" "n \<in> set (metric_names ?b)" by blast
    then show "dget d kn = table metric_key (frozen_metrics g (a @ b)) kn"
    proof cases
      case 1
      then show ?thesis unfolding lk by (simp add: kn frozen_metrics_table merged_def rows_in_append
        metric_names_append count_metric_right)
    next
      case 2
      then show ?thesis unfolding lk by (simp add: kn frozen_metrics_table merged_def rows_in_append
        metric_names_append count_metric_left)
    next
      case 3
      then have ta: "table metric_key (frozen_metrics g a) kn = Some (count_metric k ?a n)"
        and tb: "table metric_key (frozen_metrics g b) kn = Some (count_metric k ?b n)"
        by (simp_all add: kn frozen_metrics_table)
      obtain z where z: "combine_metrics (count_metric k ?a n) (count_metric k ?b n) = Inr z"
        using ok [OF ta tb] by blast
      then have "z = count_metric k (?a @ ?b) n"
        by (auto simp: combine_metrics_def res_simps count_metric_append [OF dist])
      then show ?thesis using z 3 unfolding lk ta tb
        by (simp add: merged_def kn frozen_metrics_table rows_in_append metric_names_append)
    qed
  qed
qed

lemma merge_frozen:
  assumes "merge_summaries (frozen g a) (frozen g b) = Inr s" "distinct (map au_unit_id (a @ b))"
    and pa: "summary_passes (frozen g a)" and pb: "summary_passes (frozen g b)"
  shows "freeze_cohort g (a @ b) = Inr s"
proof -
  let ?ab = "a @ b"
  have ga: "list_all (passes group_count_checks) (frozen_groups g a)"
    and gb: "list_all (passes group_count_checks) (frozen_groups g b)"
    and ma: "list_all (passes metric_counts_checks) (frozen_metrics g a)"
    and mb: "list_all (passes metric_counts_checks) (frozen_metrics g b)"
    using pa pb by (simp_all add: summary_passes_def frozen_def)
  from assms(1) obtain dg dm where
    dg: "foldr_res (merge_entry fg_group_id combine_groups) (frozen_groups g b)
        (dset_all fg_group_id id (frozen_groups g a) []) = Inr dg"
    and dm: "foldr_res (merge_entry metric_key combine_metrics) (frozen_metrics g b)
        (metrics_by_key (frozen_metrics g a)) = Inr dm"
    and s: "passes cohort_summary_checks s"
      "s = \<lparr>sy_unit_count = sy_unit_count (frozen g a) + sy_unit_count (frozen g b),
         sy_unassigned = sy_unassigned (frozen g a) + sy_unassigned (frozen g b),
         sy_groups = sort_key fg_group_id (map snd dg), sy_metrics = sorted_metrics dm\<rparr>"
    by (auto simp: merge_summaries_def bindr_eq_Inr post_init_eq_Inr frozen_def)
  have g: "sort_key fg_group_id (map snd dg) = frozen_groups g ?ab"
    by (rule sorted_values_unique [OF merged_groups [OF dg ga]]) (rule frozen_groups_order)+
  have m: "sorted_metrics dm = frozen_metrics g ?ab"
    unfolding sorted_metrics_def
    by (rule sorted_values_unique [OF merged_metrics [OF dm assms(2)]]) (rule frozen_metrics_order)+
  have "list_all (passes group_count_checks) (map snd dg)"
    by (rule merge_loop_pred [OF dg dset_all_pred [OF _ ga] gb])
      (auto simp: combine_groups_def bindr_eq_Inr post_init_eq_Inr)
  then have "list_all (passes group_count_checks) (frozen_groups g ?ab)"
    unfolding g [symmetric] by (simp add: list_all_iff)
  moreover have "list_all (passes metric_counts_checks) (map snd dm)"
    by (rule merge_loop_pred [OF dm _ mb])
      (auto simp: combine_metrics_def bindr_eq_Inr post_init_eq_Inr metrics_by_key_def
        intro: dset_all_pred ma)
  then have "list_all (passes metric_counts_checks) (frozen_metrics g ?ab)"
    unfolding m [symmetric] sorted_metrics_def by (simp add: list_all_iff)
  moreover have "s = frozen g ?ab" by (simp add: s(2) g m frozen_def)
  ultimately show ?thesis using s(1) by (simp add: freeze_cohort_eq summary_passes_def frozen_def)
qed

lemma merge_freezes:
  assumes "freeze_cohort g a = Inr sa" "freeze_cohort g b = Inr sb"
    and "distinct (map au_unit_id (a @ b))" "merge_summaries sa sb = Inr s"
  shows "freeze_cohort g (a @ b) = Inr s"
  using assms merge_frozen [of g a b s] by (simp add: freeze_cohort_eq)

end
