(* ===== verification/Monitor_Run.thy ===== *)
theory Monitor_Run
  imports Monitor_Plan Cohort_Merge_Laws
begin

text \<open>
  A running monitor: the prospective planner applied to the units of one poll after the other.  The
  run keeps beside the manifest the buckets of units that were admitted, and the invariant says that
  the manifest is the frozen image of these buckets.
\<close>

section \<open>Polls and buckets\<close>

type_synonym poll = "analysis_unit list \<times> int option"

definition offered :: "monitor_policy \<Rightarrow> cohort_manifest \<Rightarrow> poll \<Rightarrow> analysis_unit list" where
  "offered p m poll =
     (case (prospective_start m (snd poll), ordered (fst poll)) of
        (Inr t, Inr rows) \<Rightarrow> admitted_units p m t rows | _ \<Rightarrow> [])"

definition add_bucket ::
  "cohort_manifest \<Rightarrow> analysis_unit list \<Rightarrow> analysis_unit list list \<Rightarrow> analysis_unit list list" where
  "add_bucket m units bs = (if mf_open m then butlast bs @ [last bs @ units] else bs @ [units])"

type_synonym monitor_state = "cohort_manifest \<times> analysis_unit list list"

definition monitor_turn :: "py_env \<Rightarrow> monitor_policy \<Rightarrow> poll \<Rightarrow> monitor_state \<Rightarrow> monitor_error + monitor_state" where
  "monitor_turn env p poll st =
     (let (m, bs) = st in
      bindr (plan_prospective_manifest env m (fst poll) p (snd poll))
        (\<lambda>m'. Inr (m', add_bucket m (offered p m poll) bs)))"

definition monitor_run ::
  "py_env \<Rightarrow> monitor_policy \<Rightarrow> poll list \<Rightarrow> monitor_state \<Rightarrow> monitor_error + monitor_state" where
  "monitor_run env p polls st = foldr_res (monitor_turn env p) polls st"

text \<open>No unit of the poll waits for the evaluator.\<close>

definition settled :: "analysis_unit list \<Rightarrow> bool" where
  "settled units \<longleftrightarrow> list_all (\<lambda>u. au_evaluator_state u \<notin> {''pending'', ''error''}) units"

section \<open>One turn\<close>

lemma ordered_eq:
  "ordered units = Inr rows \<longleftrightarrow> distinct (map au_unit_id units) \<and>
     rows = sort_key (\<lambda>u. (au_event_time u, au_unit_id u)) units"
  by (auto simp: ordered_def bindr_eq_Inr)

lemma settled_pending:
  "settled units \<Longrightarrow> set us \<subseteq> set units \<Longrightarrow> pending_evaluator_units us tested = Inr []"
  by (simp add: pending_evaluator_units_def settled_def list_all_iff filter_False subset_iff)

lemma advance_nothing: "advance_pending s [] rows dims = Inr (s, [])"
  by (simp add: advance_pending_def)

lemma set_slice_to: "set (slice_to n xs) \<subseteq> set xs"
  by (simp add: slice_to_def set_take_subset)

lemma set_admitted: "set (admitted_units p m t rows) \<subseteq> set rows"
  unfolding admitted_units_def by (rule subset_trans [OF set_slice_to]) auto

lemma build_manifest_eq:
  assumes "build_manifest env m r c = Inr m'"
  shows "passes manifest_checks m'" "\<exists>i. m' = m\<lparr>mf_reference := Some r, mf_current := Some c, mf_snapshot_id := i\<rparr>"
  using assms by (auto simp: build_manifest_def bindr_eq_Inr post_init_eq_Inr)

lemma plan_prospective_eq:
  assumes "plan_prospective_manifest env m units p start = Inr m'"
  obtains r c t rows s pending i where
    "mf_reference m = Some r" "mf_current m = Some c" "prospective_start m start = Inr t"
    "ordered units = Inr rows"
    "next_current p m c (tested_groups p r) rows (admitted_units p m t rows) = Inr (s, pending)"
    "passes manifest_checks m'"
    "m' = (next_manifest env p m t (admitted_units p m t rows) pending)
        \<lparr>mf_reference := Some r, mf_current := Some s, mf_snapshot_id := i\<rparr>"
  using assms build_manifest_eq
  by (fastforce simp: plan_prospective_manifest_def bindr_eq_Inr Let_def split: option.splits)

section \<open>The invariant\<close>

definition bucket_inv :: "monitor_policy \<Rightarrow> cohort_manifest \<Rightarrow> monitor_state \<Rightarrow> bool" where
  "bucket_inv p m0 st \<longleftrightarrow> (let (m, bs) = st in
     mf_reference m = mf_reference m0 \<and> mf_reference_ids m = mf_reference_ids m0 \<and>
     mf_index m = mf_index m0 + int (length bs) \<and>
     mf_consumed_ids m = mf_consumed_ids m0 @ map au_unit_id (concat bs) \<and>
     distinct (mf_consumed_ids m) \<and> mf_pending m = [] \<and>
     (mf_open m \<longleftrightarrow> bs \<noteq> [] \<and> int (length (last bs)) < mp_prospective_target p) \<and>
     (\<forall>b \<in> set (butlast bs). int (length b) = mp_prospective_target p) \<and>
     (bs \<noteq> [] \<longrightarrow> int (length (last bs)) \<le> mp_prospective_target p \<and>
        mf_current_ids m = map au_unit_id (last bs) \<and>
        (\<exists>s. mf_current m = Some s \<and> freeze_cohort (grouped p) (last bs) = Inr s)))"

lemma slice_to_take: "0 \<le> n \<Longrightarrow> slice_to n xs = take (nat n) xs"
  by (simp add: slice_to_def)

lemma next_manifest_fields:
  "mf_reference_ids (next_manifest env p m t cand pending) = mf_reference_ids m"
  "mf_current_ids (next_manifest env p m t cand pending) = next_ids m cand"
  "mf_consumed_ids (next_manifest env p m t cand pending) = mf_consumed_ids m @ map au_unit_id cand"
  "mf_open (next_manifest env p m t cand pending) \<longleftrightarrow>
     int (length (next_ids m cand)) < mp_prospective_target p \<or> pending \<noteq> []"
  "mf_index (next_manifest env p m t cand pending) =
     (if mf_open m then mf_index m else mf_index m + 1)"
  "mf_pending (next_manifest env p m t cand pending) = pending"
  "mf_start_at (next_manifest env p m t cand pending) = Some t"
  "mf_policy_fingerprint (next_manifest env p m t cand pending) = policy_fingerprint env p"
  "mf_version (next_manifest env p m t cand pending) = evidence_finalization_version"
  by (simp_all add: next_manifest_def Let_def unsaved_manifest_def)

lemma admitted_length:
  assumes "0 \<le> k" "k = (if mf_open m then mp_prospective_target p - int (length (mf_current_ids m))
      else mp_prospective_target p)"
  shows "int (length (admitted_units p m t rows)) \<le> k"
proof -
  have "length (admitted_units p m t rows) \<le> nat k"
    using assms by (simp add: admitted_units_def slice_to_take)
  then show ?thesis using assms(1) by simp
qed

lemma bucket_turn:
  assumes inv: "bucket_inv p m0 (m, bs)" and turn: "monitor_turn env p poll (m, bs) = Inr (m', bs')"
    and settled: "settled (fst poll)" and target: "0 < mp_prospective_target p"
  shows "bucket_inv p m0 (m', bs')"
proof -
  from turn have plan: "plan_prospective_manifest env m (fst poll) p (snd poll) = Inr m'"
    and bs': "bs' = add_bucket m (offered p m poll) bs"
    by (auto simp: monitor_turn_def bindr_eq_Inr)
  from plan obtain r c t rows s pending i where r: "mf_reference m = Some r"
    and c: "mf_current m = Some c" and t: "prospective_start m (snd poll) = Inr t"
    and rows: "ordered (fst poll) = Inr rows"
    and cur: "next_current p m c (tested_groups p r) rows (admitted_units p m t rows) = Inr (s, pending)"
    and ok: "passes manifest_checks m'"
    and m': "m' = (next_manifest env p m t (admitted_units p m t rows) pending)
        \<lparr>mf_reference := Some r, mf_current := Some s, mf_snapshot_id := i\<rparr>"
    by (rule plan_prospective_eq)
  let ?new = "admitted_units p m t rows"
  have off: "offered p m poll = ?new" by (simp add: offered_def t rows)
  have "set ?new \<subseteq> set (fst poll)" using set_admitted [of p m t rows] rows by (auto simp: ordered_eq)
  then have np: "pending_evaluator_units ?new (tested_groups p r) = Inr []"
    by (rule settled_pending [OF settled])
  have dist: "distinct (mf_consumed_ids m')"
    using ok by (simp add: passes_def manifest_checks_def)
  have f': "mf_reference m' = Some r" "mf_reference_ids m' = mf_reference_ids m" "mf_current m' = Some s"
    "mf_current_ids m' = next_ids m ?new" "mf_pending m' = pending"
    "mf_consumed_ids m' = mf_consumed_ids m @ map au_unit_id ?new"
    "mf_index m' = (if mf_open m then mf_index m else mf_index m + 1)"
    "mf_open m' \<longleftrightarrow> int (length (next_ids m ?new)) < mp_prospective_target p \<or> pending \<noteq> []"
    by (simp_all add: m' next_manifest_fields)
  show ?thesis
  proof (cases "mf_open m")
    case True
    with inv have "bs \<noteq> []" by (simp add: bucket_inv_def)
    then obtain B l where bs: "bs = B @ [l]" by (metis append_butlast_last_id)
    from inv True have l: "mf_current_ids m = map au_unit_id l" "mf_pending m = []"
      "int (length l) < mp_prospective_target p" "freeze_cohort (grouped p) l = Inr c"
      by (auto simp: bucket_inv_def c bs)
    from cur True np obtain f where f: "freeze_cohort (grouped p) ?new = Inr f"
      "merge_summaries c f = Inr s" "pending = []"
      by (auto simp: next_current_def bindr_eq_Inr l(2) advance_nothing)
    have con: "mf_consumed_ids m' = mf_consumed_ids m0 @ map au_unit_id (concat (B @ [l @ ?new]))"
      using inv by (simp add: f' bucket_inv_def bs)
    then have "distinct (map au_unit_id (l @ ?new))" using dist by simp
    then have "freeze_cohort (grouped p) (l @ ?new) = Inr s"
      by (rule merge_freezes [OF l(4) f(1) _ f(2)])
    moreover have "int (length ?new) \<le> mp_prospective_target p - int (length l)"
      by (rule admitted_length) (simp_all add: l(1) l(3) [THEN less_imp_le] True)
    moreover have "bs' = B @ [l @ ?new]" by (simp add: bs' off add_bucket_def bs True)
    ultimately show ?thesis using inv dist con unfolding bucket_inv_def bs
      by (simp add: f' True f(3) next_ids_def l(1) r)
  next
    case False
    from cur False np have f: "freeze_cohort (grouped p) ?new = Inr s" "pending = []"
      by (auto simp: next_current_def bindr_eq_Inr)
    have "int (length ?new) \<le> mp_prospective_target p"
      by (rule admitted_length) (simp_all add: False target [THEN less_imp_le])
    moreover have "\<forall>b \<in> set bs. int (length b) = mp_prospective_target p"
    proof (cases bs rule: rev_cases)
      case (snoc B l)
      then show ?thesis using inv False by (auto simp: bucket_inv_def)
    qed simp
    moreover have "bs' = bs @ [?new]" by (simp add: bs' off add_bucket_def False)
    moreover have con: "mf_consumed_ids m' = mf_consumed_ids m0 @ map au_unit_id (concat (bs @ [?new]))"
      using inv by (simp add: f' bucket_inv_def)
    ultimately show ?thesis using inv dist f(1) unfolding bucket_inv_def
      by (simp add: f' False f(2) next_ids_def r)
  qed
qed

lemma bucket_run:
  assumes "bucket_inv p m0 st" "monitor_run env p polls st = Inr st'"
    and "list_all (\<lambda>q. settled (fst q)) polls" "0 < mp_prospective_target p"
  shows "bucket_inv p m0 st'"
  using assms(1-3)
proof (induction polls arbitrary: st)
  case Nil
  then show ?case by (simp add: monitor_run_def)
next
  case (Cons q polls)
  obtain m bs where st: "st = (m, bs)" by fastforce
  from Cons.prems(2) obtain m1 bs1 where "monitor_turn env p q (m, bs) = Inr (m1, bs1)"
    and rest: "monitor_run env p polls (m1, bs1) = Inr st'"
    by (auto simp: monitor_run_def bindr_eq_Inr st)
  moreover have "bucket_inv p m0 (m1, bs1)"
    using bucket_turn [OF Cons.prems(1) [unfolded st] calculation(1)] Cons.prems(3) assms(4) by simp
  ultimately show ?case using Cons.IH Cons.prems(3) by simp
qed

end
