(* ===== verification/Monitor_Properties.thy ===== *)
theory Monitor_Properties
  imports Monitor_Run
begin

text \<open>
  A monitor without grouping never gets stuck: on well-formed units whose metrics come from a bounded
  set of names, every cohort can be frozen, every merge succeeds and the manifest passes its
  constructor, so that a run over any sequence of polls returns.
\<close>

section \<open>Well-formed units\<close>

definition metric_universe :: "string set \<Rightarrow> bool" where
  "metric_universe N \<longleftrightarrow> finite N \<and> card N \<le> max_monitor_group_metrics \<and> (\<forall>n \<in> N. bounded_id 160 n)"

definition plain_unit :: "string set \<Rightarrow> analysis_unit \<Rightarrow> bool" where
  "plain_unit N u \<longleftrightarrow> bounded_id 512 (au_unit_id u) \<and>
     set (dkeys (au_metrics u)) \<union> set (dkeys (au_metric_states u)) \<subseteq> N \<and>
     au_evaluator_state u \<notin> {''pending'', ''error''}"

lemma plain_settled: "list_all (plain_unit N) us \<Longrightarrow> settled us"
  by (auto simp: settled_def plain_unit_def list_all_iff)

lemma plain_names: "list_all (plain_unit N) us \<Longrightarrow> n \<in> set (metric_names us) \<Longrightarrow> n \<in> N"
  by (force simp: set_metric_names list_all_iff plain_unit_def)

section \<open>Freezing succeeds\<close>

lemma ungrouped_rows: "rows_in False us k = (if k = None then us else [])"
  by (auto simp: rows_in_def assigned_def effective_group_def)

lemma ungrouped_groups: "frozen_groups False us = []"
proof -
  have "first_in False us k = None" for k by (simp add: first_in_def ungrouped_rows)
  then have "table fg_group_id (frozen_groups False us) k = None" for k
    by (simp add: frozen_groups_table)
  then have "k \<notin> fg_group_id ` set (frozen_groups False us)" for k
    by (simp add: table_None)
  then show ?thesis by (metis image_is_empty ex_in_conv set_empty)
qed

lemma ungrouped_metrics:
  "m \<in> set (frozen_metrics False us) \<longleftrightarrow> (\<exists>n \<in> set (metric_names us). m = count_metric None us n)"
  unfolding set_frozen_metrics
  by (metis (no_types, opaque_lifting) ungrouped_rows empty_iff list.set(1) set_metric_names)

lemma evidence_of_subset: "set (evidence_of n v us) \<subseteq> au_unit_id ` set us"
  unfolding evidence_of_def by (rule subset_trans [OF set_take_subset]) auto

lemma count_metric_passes:
  assumes "list_all (plain_unit N) us" "distinct (map au_unit_id us)" "bounded_id 160 n"
  shows "passes metric_counts_checks (count_metric None us n)"
proof -
  have "length (evidence_of n v us) \<le> max_monitor_evidence_unit_ids \<and> distinct (evidence_of n v us)
      \<and> list_all (bounded_id 512) (evidence_of n v us)" for v
    using evidence_of_subset [of n v us] assms(1,2)
    by (auto simp: evidence_of_def list_all_iff plain_unit_def distinct_map_filter)
  moreover have "length (filter id (metric_values n us)) \<le> length (metric_values n us)"
    by (rule length_filter_le)
  ultimately show ?thesis using assms(3)
    by (simp add: passes_def metric_counts_checks_def validate_evidence_unit_ids_def count_metric_def
      Let_def validate_group_id_def state_count_def)
qed

lemma card_keys:
  assumes "metric_universe N" "K \<subseteq> {None :: string option} \<times> N"
  shows "card K \<le> max_monitor_group_metrics"
proof -
  have "card K \<le> card ({None :: string option} \<times> N)"
    by (rule Finite_Set.card_mono) (use assms in \<open>simp_all add: metric_universe_def\<close>)
  then show ?thesis using assms(1) by (simp add: metric_universe_def card_cartesian_product)
qed

definition ungrouped_summary :: "string set \<Rightarrow> cohort_summary \<Rightarrow> bool" where
  "ungrouped_summary N s \<longleftrightarrow> sy_groups s = [] \<and> metric_key ` set (sy_metrics s) \<subseteq> {None} \<times> N"

lemma frozen_ungrouped:
  "list_all (plain_unit N) us \<Longrightarrow> ungrouped_summary N (frozen False us)"
  by (auto simp: plain_names ungrouped_summary_def frozen_def ungrouped_groups ungrouped_metrics metric_key_count)

lemma frozen_passes:
  assumes N: "metric_universe N" and us: "list_all (plain_unit N) us" "distinct (map au_unit_id us)"
  shows "summary_passes (frozen False us)"
proof -
  have "length (frozen_metrics False us) = card (metric_key ` set (frozen_metrics False us))"
    using frozen_metrics_order(3) [of False us] by (metis distinct_card length_map set_map)
  also have "\<dots> \<le> max_monitor_group_metrics"
    using frozen_ungrouped [OF us(1)] by (intro card_keys [OF N]) (simp add: ungrouped_summary_def frozen_def)
  finally have "length (frozen_metrics False us) \<le> max_monitor_group_metrics" .
  moreover have "list_all (passes metric_counts_checks) (frozen_metrics False us)"
    using N plain_names [OF us(1)]
    by (auto simp: list_all_iff ungrouped_metrics metric_universe_def intro!: count_metric_passes [OF us])
  ultimately show ?thesis
    using frozen_metrics_order(3) [of False us]
    by (simp add: summary_passes_def passes_def cohort_summary_checks_def frozen_def ungrouped_groups)
qed

lemma freeze_total:
  assumes "metric_universe N" "list_all (plain_unit N) us" "distinct (map au_unit_id us)"
  shows "freeze_cohort False us = Inr (frozen False us)"
  using frozen_passes [OF assms] by (simp add: freeze_cohort_eq)

section \<open>Merging succeeds\<close>

lemma bounded_evidence_ids_props:
  "length (bounded_evidence_ids xs ys) \<le> max_monitor_evidence_unit_ids"
  "distinct (bounded_evidence_ids xs ys)"
  "set (bounded_evidence_ids xs ys) \<subseteq> set xs \<union> set ys"
  using from_keys_props [of "xs @ ys"] set_take_subset [of _ "from_keys (xs @ ys)"]
  by (auto simp: bounded_evidence_ids_def)

lemma add_metrics_passes:
  assumes "passes metric_counts_checks x" "passes metric_counts_checks y"
  shows "passes metric_counts_checks (add_metrics x y)"
proof -
  have "list_all (bounded_id 512) (bounded_evidence_ids xs ys)"
    if "list_all (bounded_id 512) xs" "list_all (bounded_id 512) ys" for xs ys
    using that bounded_evidence_ids_props(3) [of xs ys] by (auto simp: list_all_iff)
  then show ?thesis using assms
    by (simp add: passes_def metric_counts_checks_def validate_evidence_unit_ids_def add_metrics_def
      bounded_evidence_ids_props)
qed

lemma merge_total:
  assumes N: "metric_universe N" and us: "list_all (plain_unit N) (a @ b)"
    and d: "distinct (map au_unit_id (a @ b))"
  shows "merge_summaries (frozen False a) (frozen False b) = Inr (frozen False (a @ b))"
proof -
  have pa: "list_all (plain_unit N) a" "distinct (map au_unit_id a)"
    and pb: "list_all (plain_unit N) b" "distinct (map au_unit_id b)" using us d by simp_all
  note sa = frozen_passes [OF N pa] and sb = frozen_passes [OF N pb] and sab = frozen_passes [OF N us d]
  have ma: "list_all (passes metric_counts_checks) (frozen_metrics False a)"
    and mb: "list_all (passes metric_counts_checks) (frozen_metrics False b)"
    using sa sb by (simp_all add: summary_passes_def frozen_def)
  have "\<exists>z. combine_metrics x y = Inr z \<and> passes metric_counts_checks z \<and> metric_key z = metric_key y"
    if "passes metric_counts_checks x" "passes metric_counts_checks y" for x y
    using add_metrics_passes [OF that]
    by (simp add: combine_metrics_def post_init_eq_Inr) (simp add: add_metrics_def metric_key_def)
  then obtain dm where dm: "foldr_res (merge_entry metric_key combine_metrics) (frozen_metrics False b)
      (metrics_by_key (frozen_metrics False a)) = Inr dm"
    using merge_loop_total [of "passes metric_counts_checks" "metrics_by_key (frozen_metrics False a)"
        "frozen_metrics False b" metric_key combine_metrics] ma mb
    by (auto simp: metrics_by_key_def dset_all_pred keyed_dset_all)
  have "sorted_metrics dm = frozen_metrics False (a @ b)"
    unfolding sorted_metrics_def
    by (rule sorted_values_unique [OF merged_metrics [OF dm d]]) (rule frozen_metrics_order)+
  then show ?thesis using sab
    by (simp add: merge_summaries_def frozen_def ungrouped_groups dm post_init_eq_Inr summary_passes_def)
qed

section \<open>The manifest is well formed\<close>

lemma admitted_fresh:
  assumes "distinct (map au_unit_id rows)"
  shows "distinct (map au_unit_id (admitted_units p m t rows))"
    "au_unit_id ` set (admitted_units p m t rows) \<inter> set (mf_consumed_ids m) = {}"
proof -
  let ?f = "filter (\<lambda>u. au_unit_id u \<notin> set (mf_consumed_ids m) \<and> t \<le> au_event_time u) rows"
  obtain n where n: "admitted_units p m t rows = take n ?f"
    by (simp add: admitted_units_def slice_to_def)
  have "distinct (map au_unit_id ?f)" using assms by (simp add: distinct_map_filter)
  then show "distinct (map au_unit_id (admitted_units p m t rows))"
    unfolding n take_map [symmetric] by (rule distinct_take)
  show "au_unit_id ` set (admitted_units p m t rows) \<inter> set (mf_consumed_ids m) = {}"
    unfolding n by (auto dest!: in_set_takeD)
qed

lemma evidence_ids_frozen: "set (evidence_ids (frozen False us)) \<subseteq> au_unit_id ` set us"
proof -
  have "set (fm_true_ids m) \<union> set (fm_false_ids m) \<subseteq> au_unit_id ` set us"
    if "m \<in> set (frozen_metrics False us)" for m
    using that evidence_of_subset by (fastforce simp: ungrouped_metrics count_metric_def Let_def)
  then show ?thesis by (fastforce simp: evidence_ids_def frozen_def)
qed

lemma next_manifest_passes:
  assumes env: "py_env_ok env" and ok: "passes manifest_checks m"
    and r: "mf_reference m = Some r" and c: "mf_current m = Some c"
    and rows: "distinct (map au_unit_id rows)"
    and cand: "cand = admitted_units p m t rows"
    and bucket: "next_ids m cand = map au_unit_id us"
    and cur: "m' = (next_manifest env p m t cand [])
        \<lparr>mf_reference := Some r, mf_current := Some (frozen False us),
         mf_snapshot_id := pe_sha256 env text\<rparr>"
  shows "passes manifest_checks m'"
proof -
  have fresh: "distinct (map au_unit_id cand)" "au_unit_id ` set cand \<inter> set (mf_consumed_ids m) = {}"
    unfolding cand by (rule admitted_fresh [OF rows])+
  have old: "distinct (mf_reference_ids m)" "distinct (mf_current_ids m)" "distinct (mf_consumed_ids m)"
    "set (mf_reference_ids m) \<inter> set (mf_current_ids m) = {}"
    "set (mf_reference_ids m) \<union> set (mf_current_ids m) \<subseteq> set (mf_consumed_ids m)"
    "0 \<le> mf_late m" "0 \<le> mf_index m" "sy_unit_count r = int (length (mf_reference_ids m))"
    "set (evidence_ids r) \<subseteq> set (mf_reference_ids m)"
    using ok by (simp_all add: passes_def manifest_checks_def summary_checks_def r c)
  have ids: "set (next_ids m cand) \<subseteq> set (mf_current_ids m) \<union> au_unit_id ` set cand"
    by (auto simp: next_ids_def)
  have "distinct (next_ids m cand)"
    using fresh old(2,5) by (auto simp: next_ids_def)
  moreover have "set (mf_reference_ids m) \<inter> set (next_ids m cand) = {}"
    using ids fresh(2) old(4,5) by blast
  moreover have "set (mf_reference_ids m) \<union> set (next_ids m cand)
      \<subseteq> set (mf_consumed_ids m @ map au_unit_id cand)"
    using ids old(5) by auto
  moreover have "distinct (mf_consumed_ids m @ map au_unit_id cand)" using fresh old(3) by auto
  moreover have "0 \<le> mf_late m'" using old(6) by (simp add: cur next_manifest_def Let_def)
  moreover have "set (evidence_ids (frozen False us)) \<subseteq> set (next_ids m cand)"
    using evidence_ids_frozen [of us] by (simp add: bucket)
  moreover have "sy_unit_count (frozen False us) = int (length (next_ids m cand))"
    by (simp add: frozen_def bucket)
  moreover have "is_digest (pe_sha256 env s)" for s using env by (simp add: py_env_ok_def)
  ultimately show ?thesis using old
    by (simp add: passes_def manifest_checks_def summary_checks_def cur next_manifest_fields
      policy_fingerprint_def)
qed

section \<open>A turn returns\<close>

definition ready :: "py_env \<Rightarrow> monitor_policy \<Rightarrow> string set \<Rightarrow> int option \<Rightarrow> monitor_state \<Rightarrow> bool" where
  "ready env p N start st \<longleftrightarrow> (let (m, bs) = st in
     passes manifest_checks m \<and> mf_policy_fingerprint m = policy_fingerprint env p \<and>
     (\<exists>r. mf_reference m = Some r \<and> ungrouped_summary N r) \<and> mf_current m \<noteq> None \<and>
     list_all (plain_unit N) (concat bs) \<and>
     (case mf_start_at m of None \<Rightarrow> mf_index m = 0 | Some t \<Rightarrow> given (\<lambda>s. s = t) start))"

definition plain_poll :: "string set \<Rightarrow> int option \<Rightarrow> poll \<Rightarrow> bool" where
  "plain_poll N start q \<longleftrightarrow> list_all (plain_unit N) (fst q) \<and> distinct (map au_unit_id (fst q)) \<and>
     snd q = start"

lemma prospective_start_total:
  assumes "case mf_start_at m of None \<Rightarrow> mf_index m = 0 | Some t \<Rightarrow> given (\<lambda>s. s = t) start"
  shows "\<exists>t. prospective_start m start = Inr t \<and> given (\<lambda>s. s = t) start"
  using assms by (cases start) (auto simp: prospective_start_def split: option.splits)

lemma next_current_total:
  assumes N: "metric_universe N" and g: "\<not> grouped p"
    and inv: "bucket_inv p m0 (m, bs)" and c: "mf_current m = Some c"
    and us: "list_all (plain_unit N) (concat bs @ cand)" and d: "distinct (map au_unit_id (concat bs @ cand))"
  shows "next_current p m c tested rows cand = Inr (frozen False (last (add_bucket m cand bs)), [])"
proof -
  have np: "pending_evaluator_units cand tested = Inr []"
    using us by (intro settled_pending [of cand]) (auto intro: plain_settled)
  have f: "freeze_cohort False cand = Inr (frozen False cand)"
    using us d by (intro freeze_total [OF N]) simp_all
  show ?thesis
  proof (cases "mf_open m")
    case True
    with inv have "bs \<noteq> []" "mf_pending m = []" by (simp_all add: bucket_inv_def)
    then obtain B l where bs: "bs = B @ [l]" by (metis append_butlast_last_id)
    have "c = frozen False l" using inv g by (simp add: bucket_inv_def bs c freeze_cohort_eq)
    moreover have "merge_summaries (frozen False l) (frozen False cand) = Inr (frozen False (l @ cand))"
      using us d by (intro merge_total [OF N]) (simp_all add: bs)
    ultimately show ?thesis
      by (simp add: next_current_def True \<open>mf_pending m = []\<close> advance_nothing g f np add_bucket_def bs)
  next
    case False
    then show ?thesis by (simp add: next_current_def g f np add_bucket_def)
  qed
qed

lemma last_add_bucket:
  assumes "bucket_inv p m0 (m, bs)"
  shows "next_ids m cand = map au_unit_id (last (add_bucket m cand bs))"
  using assms by (auto simp: next_ids_def add_bucket_def bucket_inv_def)

lemma concat_add_bucket:
  assumes "bucket_inv p m0 (m, bs)"
  shows "concat (add_bucket m cand bs) = concat bs @ cand"
proof (cases "mf_open m")
  case True
  with assms have "bs \<noteq> []" by (simp add: bucket_inv_def)
  then obtain B l where "bs = B @ [l]" by (metis append_butlast_last_id)
  then show ?thesis by (simp add: add_bucket_def True)
qed (simp add: add_bucket_def)

lemma build_total:
  assumes N: "metric_universe N" and r: "ungrouped_summary N r" and c: "ungrouped_summary N c"
    and ok: "passes manifest_checks (m\<lparr>mf_reference := Some r, mf_current := Some c,
        mf_snapshot_id := pe_sha256 env (json_dumps True (identity_payload env m r c))\<rparr>)"
  shows "build_manifest env m r c = Inr (m\<lparr>mf_reference := Some r, mf_current := Some c,
        mf_snapshot_id := pe_sha256 env (json_dumps True (identity_payload env m r c))\<rparr>)"
proof -
  have "card (metric_key ` set (sy_metrics r @ sy_metrics c)) \<le> max_monitor_group_metrics"
    using r c by (intro card_keys [OF N]) (auto simp: ungrouped_summary_def)
  moreover have "card (fg_group_id ` set (sy_groups r @ sy_groups c)) \<le> max_monitor_groups"
    using r c by (simp add: ungrouped_summary_def)
  ultimately show ?thesis using ok by (simp add: build_manifest_def post_init_eq_Inr)
qed

lemma turn_total:
  assumes env: "py_env_ok env" and N: "metric_universe N" and p: "mp_analysis_unit p = ''trace''"
    and g: "\<not> grouped p" and inv: "bucket_inv p m0 (m, bs)" and rdy: "ready env p N start (m, bs)"
    and poll: "plain_poll N start q"
  shows "\<exists>st'. monitor_turn env p q (m, bs) = Inr st' \<and> ready env p N start st'"
proof -
  from rdy obtain r c where m: "passes manifest_checks m"
      "mf_policy_fingerprint m = policy_fingerprint env p" "mf_reference m = Some r"
      "ungrouped_summary N r" "mf_current m = Some c" "list_all (plain_unit N) (concat bs)"
    and st: "case mf_start_at m of None \<Rightarrow> mf_index m = 0 | Some t \<Rightarrow> given (\<lambda>s. s = t) start"
    by (auto simp: ready_def)
  obtain t where t: "prospective_start m start = Inr t" "given (\<lambda>s. s = t) start"
    using prospective_start_total [OF st] by blast
  have nr: "\<not> rebootstrap_needed m" using st by (auto simp: rebootstrap_needed_def split: option.splits)
  have q: "list_all (plain_unit N) (fst q)" "distinct (map au_unit_id (fst q))" "snd q = start"
    using poll by (simp_all add: plain_poll_def)
  define rows where "rows = sort_key (\<lambda>u. (au_event_time u, au_unit_id u)) (fst q)"
  have rows: "ordered (fst q) = Inr rows" "distinct (map au_unit_id rows)" "set rows = set (fst q)"
    using q(2) by (simp_all add: rows_def ordered_eq distinct_sort_key_map)
  define cand where "cand = admitted_units p m t rows"
  have cand: "list_all (plain_unit N) cand" "distinct (map au_unit_id cand)"
    "au_unit_id ` set cand \<inter> set (mf_consumed_ids m) = {}"
    using set_admitted [of p m t rows] q(1) rows(3) admitted_fresh [OF rows(2), of p m t]
    by (auto simp: cand_def list_all_iff)
  let ?us = "last (add_bucket m cand bs)"
  have con: "list_all (plain_unit N) (concat bs @ cand)" "distinct (map au_unit_id (concat bs @ cand))"
    using inv m(6) cand by (auto simp: bucket_inv_def)
  have "?us \<in> set (add_bucket m cand bs)" by (rule last_in_set) (simp add: add_bucket_def)
  then have plain: "list_all (plain_unit N) ?us"
    using con(1) unfolding concat_add_bucket [OF inv, symmetric] by (auto simp: list_all_iff)
  let ?n = "next_manifest env p m t cand []"
  let ?text = "json_dumps True (identity_payload env ?n r (frozen False ?us))"
  let ?m = "?n\<lparr>mf_reference := Some r, mf_current := Some (frozen False ?us),
      mf_snapshot_id := pe_sha256 env ?text\<rparr>"
  have ok: "passes manifest_checks ?m"
    by (rule next_manifest_passes [OF env m(1,3,5) rows(2) cand_def last_add_bucket [OF inv] refl])
  have "build_manifest env ?n r (frozen False ?us) = Inr ?m"
    by (rule build_total [OF N m(4) frozen_ungrouped [OF plain] ok])
  then have plan: "plan_prospective_manifest env m (fst q) p (snd q) = Inr ?m"
    using next_current_total [OF N g inv m(5) con, of "tested_groups p r" rows] cand_def
    by (simp add: plan_prospective_manifest_def validate_monitor_analysis_unit_def p m(2,3,5) nr q(3) t
      rows(1) Let_def)
  have off: "offered p m q = cand" by (simp add: offered_def q(3) t rows(1) cand_def)
  have "ready env p N start (?m, add_bucket m cand bs)"
    using ok m(4) con(1) t(2)
    by (simp add: ready_def next_manifest_fields concat_add_bucket [OF inv])
  then show ?thesis by (simp add: monitor_turn_def plan off)
qed

lemma plain_poll_settled: "plain_poll N start q \<Longrightarrow> settled (fst q)"
  by (auto simp: plain_poll_def intro: plain_settled)

lemma run_total:
  assumes env: "py_env_ok env" and N: "metric_universe N" and p: "mp_analysis_unit p = ''trace''"
    and g: "\<not> grouped p" and target: "0 < mp_prospective_target p"
    and start: "bucket_inv p m0 st" "ready env p N start st"
    and polls: "list_all (plain_poll N start) polls"
  shows "\<exists>st'. monitor_run env p polls st = Inr st' \<and> bucket_inv p m0 st' \<and> ready env p N start st'"
  using start polls
proof (induction polls arbitrary: st)
  case Nil
  then show ?case by (simp add: monitor_run_def)
next
  case (Cons q polls)
  obtain m bs where st: "st = (m, bs)" by fastforce
  from turn_total [OF env N p g Cons.prems(1,2) [unfolded st], of q] Cons.prems(3)
  obtain m1 bs1 where s1: "monitor_turn env p q (m, bs) = Inr (m1, bs1)" "ready env p N start (m1, bs1)"
    by auto
  have "bucket_inv p m0 (m1, bs1)"
    using bucket_turn [OF Cons.prems(1) [unfolded st] s1(1) plain_poll_settled target, of N start]
      Cons.prems(3) by simp
  from Cons.IH [OF this s1(2)] Cons.prems(3) s1(1) show ?case by (simp add: monitor_run_def st)
qed

section \<open>Enough units close the bucket\<close>

definition eligible :: "cohort_manifest \<Rightarrow> int \<Rightarrow> analysis_unit list \<Rightarrow> analysis_unit list" where
  "eligible m t units = filter (\<lambda>u. au_unit_id u \<notin> set (mf_consumed_ids m) \<and> t \<le> au_event_time u) units"

definition still_needed :: "monitor_policy \<Rightarrow> cohort_manifest \<Rightarrow> int" where
  "still_needed p m = (if mf_open m then mp_prospective_target p - int (length (mf_current_ids m))
     else mp_prospective_target p)"

lemma length_eligible_sort: "length (eligible m t (sort_key f xs)) = length (eligible m t xs)"
proof -
  have "mset (eligible m t (sort_key f xs)) = mset (eligible m t xs)" by (simp add: eligible_def)
  then show ?thesis by (rule mset_eq_length)
qed

lemma bucket_closed:
  assumes inv: "bucket_inv p m0 (m, bs)" and turn: "monitor_turn env p q (m, bs) = Inr (m', bs')"
    and settled: "settled (fst q)" and target: "0 < mp_prospective_target p"
    and t: "prospective_start m (snd q) = Inr t"
    and enough: "still_needed p m \<le> int (length (eligible m t (fst q)))"
  shows "\<not> mf_open m' \<and> bs' \<noteq> [] \<and> int (length (last bs')) = mp_prospective_target p"
proof -
  have inv': "bucket_inv p m0 (m', bs')" by (rule bucket_turn [OF inv turn settled target])
  from turn obtain rows where rows: "ordered (fst q) = Inr rows"
    and bs': "bs' = add_bucket m (offered p m q) bs"
    by (auto simp: monitor_turn_def bindr_eq_Inr elim!: plan_prospective_eq)
  have pos: "0 < still_needed p m"
    using inv target by (auto simp: still_needed_def bucket_inv_def)
  have "length (eligible m t rows) = length (eligible m t (fst q))"
    using rows by (simp add: ordered_eq length_eligible_sort)
  then have "int (length (admitted_units p m t rows)) = still_needed p m"
    using enough pos unfolding admitted_units_def eligible_def [symmetric] still_needed_def [symmetric]
    by (simp add: slice_to_take)
  then have "int (length (offered p m q)) = still_needed p m" by (simp add: offered_def t rows)
  then have "int (length (last bs')) = mp_prospective_target p"
    using inv by (auto simp: bs' add_bucket_def still_needed_def bucket_inv_def)
  moreover have "bs' \<noteq> []" by (simp add: bs' add_bucket_def)
  ultimately show ?thesis using inv' by (simp add: bucket_inv_def)
qed


text \<open>
  What the monitor guarantees: merging summaries is freezing, the manifest of a running monitor is the
  frozen image of the admitted buckets, and a monitor without grouping always goes on and closes a
  bucket as soon as enough units have arrived.
\<close>

section \<open>The start of a run\<close>

lemma plan_historical_eq:
  assumes "plan_historical_manifest env rnd units p cutoff = Inr m"
  obtains rows reference current sr sc i where
    "ordered units = Inr rows"
    "split_rows rnd p (filter (\<lambda>u. au_event_time u \<le> cutoff) rows) = (reference, current)"
    "freeze_cohort (grouped p) reference = Inr sr" "freeze_cohort (grouped p) current = Inr sc"
    "passes manifest_checks m"
    "m = (unsaved_manifest env p cutoff)
       \<lparr>mf_reference_ids := map au_unit_id reference, mf_current_ids := map au_unit_id current,
        mf_consumed_ids := map au_unit_id (reference @ current),
        mf_reference := Some sr, mf_current := Some sc, mf_snapshot_id := i\<rparr>"
proof -
  from assms obtain rows where rows: "ordered units = Inr rows"
    by (auto simp: plan_historical_manifest_def bindr_eq_Inr)
  obtain r c where rc: "split_rows rnd p (filter (\<lambda>u. au_event_time u \<le> cutoff) rows) = (r, c)"
    by fastforce
  from assms obtain sr sc where s: "freeze_cohort (grouped p) r = Inr sr"
      "freeze_cohort (grouped p) c = Inr sc"
    and b: "build_manifest env ((unsaved_manifest env p cutoff)
        \<lparr>mf_reference_ids := map au_unit_id r, mf_current_ids := map au_unit_id c,
         mf_consumed_ids := map au_unit_id (r @ c)\<rparr>) sr sc = Inr m"
    by (auto simp: plan_historical_manifest_def bindr_eq_Inr rows rc Let_def split: if_splits)
  show ?thesis
    using build_manifest_eq [OF b] that [OF rows rc s] by auto
qed

lemma set_split_rows:
  "split_rows rnd p rows = (r, c) \<Longrightarrow> set r \<union> set c \<subseteq> set rows"
  by (auto simp: split_rows_def Let_def split: window_mode.splits dest: in_set_takeD in_set_dropD)

lemma historical_inv:
  assumes "plan_historical_manifest env rnd units p cutoff = Inr m"
  shows "bucket_inv p m (m, [])"
  using assms
  by (auto elim!: plan_historical_eq simp: bucket_inv_def unsaved_manifest_def passes_def manifest_checks_def)

lemma historical_ready:
  assumes "plan_historical_manifest env rnd units p cutoff = Inr m"
    and "list_all (plain_unit N) units" "\<not> grouped p"
  shows "ready env p N start (m, [])"
proof -
  from assms(1) obtain rows r c sr sc i where e: "ordered units = Inr rows"
    "split_rows rnd p (filter (\<lambda>u. au_event_time u \<le> cutoff) rows) = (r, c)"
    "freeze_cohort (grouped p) r = Inr sr" "passes manifest_checks m"
    "m = (unsaved_manifest env p cutoff)
       \<lparr>mf_reference_ids := map au_unit_id r, mf_current_ids := map au_unit_id c,
        mf_consumed_ids := map au_unit_id (r @ c),
        mf_reference := Some sr, mf_current := Some sc, mf_snapshot_id := i\<rparr>"
    by (rule plan_historical_eq)
  have "list_all (plain_unit N) r"
    using set_split_rows [OF e(2)] assms(2) e(1) by (auto simp: list_all_iff ordered_eq)
  then have "ungrouped_summary N sr"
    using frozen_ungrouped e(3) assms(3) by (simp add: freeze_cohort_eq)
  then show ?thesis using e(4) by (simp add: ready_def e(5) unsaved_manifest_def)
qed

lemma split_rows_distinct:
  assumes "passes monitor_policy_checks p" "split_rows rnd p rows = (r, c)" "distinct (map au_unit_id rows)"
  shows "distinct (map au_unit_id (r @ c))"
proof (cases "mp_window_mode p")
  case COUNT
  then have "r @ c = rows" using assms(2) by (auto simp: split_rows_def Let_def)
  then show ?thesis using assms(3) by simp
next
  case EXPLICIT
  then obtain a b x y where w: "mp_reference_start p = Some a" "mp_reference_end p = Some b"
    "mp_current_start p = Some x" "mp_current_end p = Some y" "b \<le> x"
    using assms(1) by (auto simp: passes_def monitor_policy_checks_def window_checks_def split: option.splits)
  then have rc: "r = filter (\<lambda>u. a \<le> au_event_time u \<and> au_event_time u < b) rows"
    "c = filter (\<lambda>u. x \<le> au_event_time u \<and> au_event_time u < y) rows"
    using assms(2) EXPLICIT by (auto simp: split_rows_def between_def)
  have "au_unit_id ` set r \<inter> au_unit_id ` set c = {}"
    using assms(3) w(5) unfolding rc by (auto simp: distinct_map dest!: inj_onD)
  then show ?thesis using assms(3) by (auto simp: rc distinct_map_filter)
qed

lemma historical_total:
  assumes env: "py_env_ok env" and N: "metric_universe N" and p: "passes monitor_policy_checks p"
    "mp_analysis_unit p = ''trace''" "\<not> grouped p"
    and u: "list_all (plain_unit N) units" "distinct (map au_unit_id units)"
  shows "\<exists>m. plan_historical_manifest env rnd units p cutoff = Inr m"
proof -
  define rows where "rows = sort_key (\<lambda>u. (au_event_time u, au_unit_id u)) units"
  have rows: "ordered units = Inr rows" "distinct (map au_unit_id rows)" "set rows = set units"
    using u(2) by (simp_all add: rows_def ordered_eq distinct_sort_key_map)
  let ?rows = "filter (\<lambda>u. au_event_time u \<le> cutoff) rows"
  obtain r c where rc: "split_rows rnd p ?rows = (r, c)" by fastforce
  have d: "distinct (map au_unit_id (r @ c))"
    using rows(2) by (intro split_rows_distinct [OF p(1) rc]) (simp add: distinct_map_filter)
  have pr: "list_all (plain_unit N) r" and pc: "list_all (plain_unit N) c"
    using set_split_rows [OF rc] u(1) rows(3) by (auto simp: list_all_iff)
  have pend: "historical_pending p r c = Inr []"
    using settled_pending [OF plain_settled [OF pr], of r] settled_pending [OF plain_settled [OF pc], of c]
    by (simp add: historical_pending_def)
  have f: "freeze_cohort False r = Inr (frozen False r)" "freeze_cohort False c = Inr (frozen False c)"
    using d by (simp_all add: freeze_total [OF N pr] freeze_total [OF N pc])
  let ?m = "(unsaved_manifest env p cutoff)
      \<lparr>mf_reference_ids := map au_unit_id r, mf_current_ids := map au_unit_id c,
       mf_consumed_ids := map au_unit_id (r @ c)\<rparr>"
  have "is_digest (pe_sha256 env s)" for s using env by (simp add: py_env_ok_def)
  then have ok: "passes manifest_checks (?m\<lparr>mf_reference := Some (frozen False r),
        mf_current := Some (frozen False c), mf_snapshot_id := pe_sha256 env (json_dumps True
          (identity_payload env ?m (frozen False r) (frozen False c)))\<rparr>)"
    using d evidence_ids_frozen [of r] evidence_ids_frozen [of c]
    by (simp add: passes_def manifest_checks_def summary_checks_def unsaved_manifest_def
      policy_fingerprint_def) (simp add: frozen_def)
  show ?thesis
    using build_total [OF N frozen_ungrouped [OF pr] frozen_ungrouped [OF pc] ok] p(2,3)
    by (simp add: plan_historical_manifest_def validate_monitor_analysis_unit_def rows(1) rc pend f)
qed

section \<open>Properties\<close>

text \<open>C10 (equivalence). Merging is freezing: when the frozen summaries of two lists of units without a common identity
  are merged without an error, the result is exactly the frozen summary of the concatenated list,
  with the same counts, groups, metadata, evidence identities and order of the cells.\<close>

theorem merging_is_freezing:
  assumes "freeze_cohort g a = Inr sa" "freeze_cohort g b = Inr sb"
    and "distinct (map au_unit_id (a @ b))" "merge_summaries sa sb = Inr s"
  shows "freeze_cohort g (a @ b) = Inr s"
  using assms by (rule merge_freezes)

text \<open>C5 (refinement). A running monitor refines the list of its buckets: after any sequence of polls whose units do
  not wait for the evaluator, no unit was admitted twice, the units consumed are those of the historical
  plan followed by the buckets in order, every bucket but the last holds exactly the target, the last is
  open just as long as it is smaller, and the stored current summary is the frozen summary of the last
  bucket while the reference never changed.\<close>

theorem monitor_buckets:
  assumes "plan_historical_manifest env rnd units p cutoff = Inr m0"
    and "monitor_run env p polls (m0, []) = Inr (m, bs)"
    and "list_all (\<lambda>q. settled (fst q)) polls" "0 < mp_prospective_target p"
  shows "mf_reference m = mf_reference m0 \<and>
    mf_consumed_ids m = mf_consumed_ids m0 @ map au_unit_id (concat bs) \<and>
    distinct (mf_consumed_ids m) \<and>
    (\<forall>b \<in> set (butlast bs). int (length b) = mp_prospective_target p) \<and>
    (bs \<noteq> [] \<longrightarrow> int (length (last bs)) \<le> mp_prospective_target p \<and>
      mf_current_ids m = map au_unit_id (last bs) \<and>
      (\<exists>s. mf_current m = Some s \<and> freeze_cohort (grouped p) (last bs) = Inr s) \<and>
      (mf_open m \<longleftrightarrow> int (length (last bs)) < mp_prospective_target p))"
  using bucket_run [OF historical_inv [OF assms(1)] assms(2-4)]
  unfolding bucket_inv_def Let_def prod.case by blast


end
