(* ===== verification/Statistics.thy ===== *)
theory Statistics
  imports Prelude Complex_Main
begin

text \<open>
  The statistical primitives of \<open>verdict/statistics.py\<close>.  A float is the rational it denotes and every
  arithmetic operation is followed by the rounding \<open>fe_round\<close>; the functions of the mathematical
  library are fields of the same record.  \<open>float_env_ok\<close> states what the proofs use of them.
\<close>

record float_env =
  fe_round :: "rat \<Rightarrow> rat"
  fe_lgamma :: "int \<Rightarrow> rat"
  fe_exp :: "rat \<Rightarrow> rat"
  fe_log1p :: "rat \<Rightarrow> rat"
  fe_sqrt :: "rat \<Rightarrow> rat"
  fe_pi_squared :: rat

definition float_env_ok :: "float_env \<Rightarrow> bool" where
  "float_env_ok fe \<longleftrightarrow>
     (\<forall>x y. x \<le> y \<longrightarrow> fe_round fe x \<le> fe_round fe y) \<and>
     fe_round fe 0 = 0 \<and> fe_round fe 1 = 1 \<and> (\<forall>x. 0 \<le> fe_exp fe x)"

definition exact_floats :: float_env where
  "exact_floats = \<lparr>fe_round = id, fe_lgamma = (\<lambda>n. 0), fe_exp = (\<lambda>x. 1), fe_log1p = (\<lambda>x. 0),
     fe_sqrt = id, fe_pi_squared = 10\<rparr>"

lemma exact_floats_ok: "float_env_ok exact_floats"
  by (simp add: float_env_ok_def exact_floats_def)

definition fl_add :: "float_env \<Rightarrow> rat \<Rightarrow> rat \<Rightarrow> rat" where
  "fl_add fe x y = fe_round fe (x + y)"

definition fl_sub :: "float_env \<Rightarrow> rat \<Rightarrow> rat \<Rightarrow> rat" where
  "fl_sub fe x y = fe_round fe (x - y)"

definition fl_mul :: "float_env \<Rightarrow> rat \<Rightarrow> rat \<Rightarrow> rat" where
  "fl_mul fe x y = fe_round fe (x * y)"

definition fl_div :: "float_env \<Rightarrow> rat \<Rightarrow> rat \<Rightarrow> rat" where
  "fl_div fe x y = fe_round fe (x / y)"

section \<open>Fisher's exact test\<close>

definition log_denominator :: "float_env \<Rightarrow> int \<Rightarrow> int \<Rightarrow> rat" where
  "log_denominator fe row1 all_count =
     fl_sub fe (fl_sub fe (fe_lgamma fe (all_count + 1)) (fe_lgamma fe (row1 + 1)))
       (fe_lgamma fe (all_count - row1 + 1))"

definition log_probability :: "float_env \<Rightarrow> int \<Rightarrow> int \<Rightarrow> int \<Rightarrow> int \<Rightarrow> rat" where
  "log_probability fe row1 col1 all_count x =
     (let g = fe_lgamma fe; sub = fl_sub fe in
      sub (sub (sub (fl_add fe (sub (sub (g (col1 + 1)) (g (x + 1))) (g (col1 - x + 1)))
        (g (all_count - col1 + 1))) (g (row1 - x + 1))) (g (all_count - col1 - row1 + x + 1)))
        (log_denominator fe row1 all_count))"

text \<open>One turn of the summation loop; \<open>None\<close> is minus infinity.\<close>

definition add_log :: "float_env \<Rightarrow> rat \<Rightarrow> rat option \<Rightarrow> rat option" where
  "add_log fe current selected =
     (case selected of
        None \<Rightarrow> Some current
      | Some s \<Rightarrow> (let high = max s current; low = min s current in
          Some (fl_add fe high (fe_log1p fe (fe_exp fe (fl_sub fe low high))))))"

definition fisher_exact_two_sided :: "float_env \<Rightarrow> int \<Rightarrow> int \<Rightarrow> int \<Rightarrow> int \<Rightarrow> rat result" where
  "fisher_exact_two_sided fe a b c d =
     (if a < 0 \<or> b < 0 \<or> c < 0 \<or> d < 0
      then Inl (ValueError ''Fisher table counts must be non-negative'')
      else let row1 = a + b; col1 = a + c; all_count = a + b + c + d in
        if all_count = 0 then Inr 1
        else let lower = max 0 (row1 - (all_count - col1)); upper = min row1 col1;
            observed = log_probability fe row1 col1 all_count a;
            selected = fold (\<lambda>x acc. let current = log_probability fe row1 col1 all_count x in
                if current \<le> fl_add fe observed (fe_round fe (1 / 1000000000000)) then add_log fe current acc else acc)
              [lower..upper] None in
          Inr (min 1 (case selected of None \<Rightarrow> 0 | Some s \<Rightarrow> fe_exp fe s)))"

section \<open>The Benjamini-Hochberg adjustment\<close>

definition bh_step :: "float_env \<Rightarrow> nat \<Rightarrow> nat \<times> nat \<times> rat \<Rightarrow> rat \<times> rat list \<Rightarrow> rat \<times> rat list" where
  "bh_step fe n e st =
     (let (rank, index, p) = e; (running, adjusted) = st;
          running' = min running (fl_div fe (fl_mul fe p (of_nat n)) (of_nat rank)) in
      (running', adjusted[index := min 1 running']))"

definition benjamini_hochberg :: "float_env \<Rightarrow> rat list \<Rightarrow> rat list" where
  "benjamini_hochberg fe p_values =
     (if p_values = [] then []
      else let ordered = sort_key snd (enumerate 0 p_values) in
        snd (fold (bh_step fe (length p_values)) (rev (enumerate 1 ordered))
          (1, replicate (length p_values) 1)))"

section \<open>The Wilson interval\<close>

definition wilson_z :: "float_env \<Rightarrow> rat" where
  "wilson_z fe = fe_round fe (1959963984540054 / 1000000000000000)"

definition wilson_interval :: "float_env \<Rightarrow> rat \<Rightarrow> int \<Rightarrow> (rat \<times> rat) option" where
  "wilson_interval fe successes n =
     (if n \<le> 0 then None
      else let k = of_int n; z = wilson_z fe; zz = fl_mul fe z z;
          observed = fl_div fe successes k;
          denominator = fl_add fe 1 (fl_div fe zz k);
          center = fl_div fe (fl_add fe observed (fl_div fe zz (2 * k))) denominator;
          variance = fl_add fe (fl_div fe (fl_mul fe observed (fl_sub fe 1 observed)) k)
            (fl_div fe zz (4 * k * k));
          half_width = fl_div fe (fl_mul fe z (fe_sqrt fe variance)) denominator in
        Some (if successes = 0 then 0 else max 0 (fl_sub fe center half_width),
              if successes = k then 1 else min 1 (fl_add fe center half_width)))"

section \<open>Agreement\<close>

definition gwet_expected :: "float_env \<Rightarrow> int list \<Rightarrow> int list \<Rightarrow> nat \<Rightarrow> rat" where
  "gwet_expected fe xs ys categories =
     (let rate = (\<lambda>zs k. fl_div fe (of_nat (length (filter (\<lambda>z. z = int k) zs))) (of_nat (length xs))) in
      fl_div fe
        (fold (\<lambda>k acc. let mean = fl_div fe (fl_add fe (rate xs k) (rate ys k)) 2 in
            fl_add fe acc (fl_mul fe mean (fl_sub fe 1 mean))) [0..<categories] 0)
        (of_nat (categories - 1)))"

definition gwet_ac1 :: "float_env \<Rightarrow> int list \<Rightarrow> int list \<Rightarrow> nat \<Rightarrow> rat" where
  "gwet_ac1 fe xs ys categories =
     (if length xs \<noteq> length ys \<or> xs = [] then 0
      else let observed = fl_div fe (of_nat (length (filter (\<lambda>(x, y). x = y) (zip xs ys))))
          (of_nat (length xs)) in
        if categories < 2 then (if observed = 1 then 1 else 0)
        else let expected = gwet_expected fe xs ys categories in
          if 1 \<le> expected then 1
          else fl_div fe (fl_sub fe observed expected) (fl_sub fe 1 expected))"

end
