(* ===== verification/Monitor_Compare.thy ===== *)
theory Monitor_Compare
  imports Monitor_Plan Statistics
begin

text \<open>
  The comparison of a manifest, \<open>compare_manifest\<close> of \<open>verdict/monitoring.py\<close>: coverage of groups and
  metrics, the early answers for an open bucket, for too little evidence and for a stale reference,
  the tests per metric and the decision.  Ratios are floats, rounded by \<open>fe_round\<close>.
\<close>

section \<open>Results\<close>

datatype monitor_status = ALERT | NO_ALERT | INSUFFICIENT | REFERENCE_STALE

record metric_comparison =
  mc_metric :: string
  mc_reference_n :: int
  mc_current_n :: int
  mc_reference_value :: rat
  mc_current_value :: rat
  mc_effect :: rat
  mc_p_value :: rat
  mc_p_adjusted :: rat
  mc_alert :: bool
  mc_group_id :: "string option"

definition metric_comparison_checks :: "metric_comparison \<Rightarrow> (monitor_error + unit) list" where
  "metric_comparison_checks c =
     [valid (mc_metric c \<noteq> [] \<and> 0 \<le> min (mc_reference_n c) (mc_current_n c))
        ''metric comparison identity and counts are invalid'',
      valid (0 \<le> mc_p_value c \<and> mc_p_value c \<le> 1 \<and> 0 \<le> mc_p_adjusted c \<and> mc_p_adjusted c \<le> 1)
        ''metric p-values must be between zero and one'',
      validate_group_id (mc_group_id c)]"

record metric_coverage =
  mv_metric :: string
  mv_reference_evaluable :: int
  mv_reference_unclear :: int
  mv_reference_missing :: int
  mv_reference_error :: int
  mv_current_evaluable :: int
  mv_current_unclear :: int
  mv_current_missing :: int
  mv_current_error :: int
  mv_group_id :: "string option"

definition metric_coverage_checks :: "metric_coverage \<Rightarrow> (monitor_error + unit) list" where
  "metric_coverage_checks v =
     [valid (mv_metric v \<noteq> []) ''metric coverage identity is required'',
      valid (list_all (\<lambda>n. 0 \<le> n) [mv_reference_evaluable v, mv_reference_unclear v,
          mv_reference_missing v, mv_reference_error v, mv_current_evaluable v, mv_current_unclear v,
          mv_current_missing v, mv_current_error v])
        ''metric coverage counts must be non-negative integers'',
      validate_group_id (mv_group_id v)]"

record group_coverage =
  gv_group_id :: string
  gv_reference_units :: int
  gv_current_units :: int
  gv_label :: "string option"
  gv_provider :: "string option"
  gv_model :: "string option"

definition group_coverage_checks :: "group_coverage \<Rightarrow> (monitor_error + unit) list" where
  "group_coverage_checks g =
     [validate_group_id (Some (gv_group_id g)),
      valid (0 \<le> gv_reference_units g \<and> 0 \<le> gv_current_units g)
        ''monitor group counts must be non-negative integers'',
      validate_optional_text (gv_label g) ''label'' 512,
      validate_optional_text (gv_provider g) ''provider'' 512,
      validate_optional_text (gv_model g) ''model'' 512]"

record monitor_comparison =
  cp_status :: monitor_status
  cp_metrics :: "metric_comparison list"
  cp_unseen :: rat
  cp_alpha :: rat
  cp_coverage :: "metric_coverage list"
  cp_unassigned :: rat
  cp_groups :: "group_coverage list"

definition monitor_comparison_checks :: "monitor_comparison \<Rightarrow> (monitor_error + unit) list" where
  "monitor_comparison_checks c =
     [valid (0 \<le> cp_unseen c \<and> cp_unseen c \<le> 1) ''unseen_group_share must be between zero and one'',
      valid (0 < cp_alpha c \<and> cp_alpha c \<le> 1) ''alpha_threshold must be between zero and one'',
      valid (0 \<le> cp_unassigned c \<and> cp_unassigned c \<le> cp_unseen c)
        ''unassigned_group_share must be within unseen_group_share'',
      valid (distinct (map (\<lambda>m. (mc_group_id m, mc_metric m)) (cp_metrics c)))
        ''metric comparison identities must be unique'',
      valid (distinct (map (\<lambda>v. (mv_group_id v, mv_metric v)) (cp_coverage c)))
        ''metric coverage identities must be unique'',
      valid (length (cp_groups c) \<le> max_monitor_groups \<and> distinct (map gv_group_id (cp_groups c)))
        ''monitor group coverage identities must be bounded and unique'']"

section \<open>Coverage\<close>

definition alpha_threshold :: "float_env \<Rightarrow> monitor_policy \<Rightarrow> int \<Rightarrow> rat" where
  "alpha_threshold fe p k =
     (if k \<le> 0 then mp_p_threshold p
      else fl_div fe (fl_mul fe (mp_p_threshold p) 6)
             (fl_mul fe (fe_pi_squared fe) (fe_round fe (of_int (k ^ 2)))))"

definition groups_by_id :: "cohort_summary \<Rightarrow> (string, group_count) dict" where
  "groups_by_id s = dset_all fg_group_id id (sy_groups s) []"

definition sorted_union :: "('a::linorder) list \<Rightarrow> 'a list \<Rightarrow> 'a list" where
  "sorted_union xs ys = sort (remdups (xs @ ys))"

definition units_or_zero :: "group_count option \<Rightarrow> int" where
  "units_or_zero g = (case g of None \<Rightarrow> 0 | Some x \<Rightarrow> fg_unit_count x)"

definition cover_group ::
  "(string, group_count) dict \<Rightarrow> (string, group_count) dict \<Rightarrow> string \<Rightarrow> monitor_error + group_coverage" where
  "cover_group reference current g =
     (case (case dget reference g of Some x \<Rightarrow> Some x | None \<Rightarrow> dget current g) of
        None \<Rightarrow> Inl (MonitorKeyError g)
      | Some source \<Rightarrow> post_init group_coverage_checks
          \<lparr>gv_group_id = g, gv_reference_units = units_or_zero (dget reference g),
           gv_current_units = units_or_zero (dget current g), gv_label = fg_label source,
           gv_provider = fg_provider source, gv_model = fg_model source\<rparr>)"

definition zero_counts :: "string option \<Rightarrow> string \<Rightarrow> metric_counts" where
  "zero_counts g n = \<lparr>fm_group_id = g, fm_metric = n, fm_true = 0, fm_false = 0, fm_pass = 0,
     fm_fail = 0, fm_unclear = 0, fm_missing = 0, fm_error = 0, fm_true_ids = [], fm_false_ids = []\<rparr>"

definition coverage_from_counts ::
  "string option \<Rightarrow> string \<Rightarrow> metric_counts option \<Rightarrow> metric_counts option \<Rightarrow>
     monitor_error + metric_coverage" where
  "coverage_from_counts g n reference current =
     (let or_zero = (\<lambda>c. case c of Some x \<Rightarrow> Inr x
            | None \<Rightarrow> post_init metric_counts_checks (zero_counts g n)) in
      bindr (or_zero reference) (\<lambda>r. bindr (or_zero current) (\<lambda>c.
        post_init metric_coverage_checks
          \<lparr>mv_metric = n, mv_reference_evaluable = fm_pass r + fm_fail r,
           mv_reference_unclear = fm_unclear r, mv_reference_missing = fm_missing r,
           mv_reference_error = fm_error r, mv_current_evaluable = fm_pass c + fm_fail c,
           mv_current_unclear = fm_unclear c, mv_current_missing = fm_missing c,
           mv_current_error = fm_error c, mv_group_id = g\<rparr>)))"

definition covered_keys :: "(string option \<times> string, metric_counts) dict \<Rightarrow> (string option \<times> string) list" where
  "covered_keys d = map fst (filter (\<lambda>(k, m). reports_coverage m) d)"

definition cover_metrics ::
  "(string option \<times> string, metric_counts) dict \<Rightarrow> (string option \<times> string, metric_counts) dict \<Rightarrow>
     monitor_error + metric_coverage list" where
  "cover_metrics reference current =
     traverse (\<lambda>(g, n). coverage_from_counts g n (dget reference (g, n)) (dget current (g, n)))
       (sort_key (\<lambda>(g, n). (group_or_empty g, n)) (remdups (covered_keys reference @ covered_keys current)))"

section \<open>The tests\<close>

definition true_false :: "metric_counts option \<Rightarrow> int \<times> int" where
  "true_false m = (case m of None \<Rightarrow> (0, 0) | Some c \<Rightarrow> (fm_true c, fm_false c))"

text \<open>One metric of one group; the adjusted value and the decision are filled in afterwards.\<close>

definition raw_metric ::
  "float_env \<Rightarrow> monitor_policy \<Rightarrow> string option \<Rightarrow> string \<Rightarrow> metric_counts option \<Rightarrow>
     metric_counts option \<Rightarrow> monitor_error + metric_comparison list" where
  "raw_metric fe p g name reference current =
     (let (rt, rf) = true_false reference; (ct, cf) = true_false current;
          rn = rt + rf; cn = ct + cf in
      if rn < mp_minimum_reference p \<or> cn < mp_minimum_current p then Inr []
      else case fisher_exact_two_sided fe rt rf ct cf of
          Inl _ \<Rightarrow> Inl (MonitorInvalid ''Fisher table counts must be non-negative'')
        | Inr pv \<Rightarrow> (let rr = fl_div fe (of_int rt) (of_int rn); cr = fl_div fe (of_int ct) (of_int cn) in
            Inr [\<lparr>mc_metric = name, mc_reference_n = rn, mc_current_n = cn, mc_reference_value = rr,
              mc_current_value = cr, mc_effect = fl_sub fe cr rr, mc_p_value = pv, mc_p_adjusted = 1,
              mc_alert = False, mc_group_id = g\<rparr>]))"

definition names_in :: "string option \<Rightarrow> (string option \<times> string, metric_counts) dict \<Rightarrow> string list" where
  "names_in g d = map snd (filter (\<lambda>k. fst k = g) (dkeys d))"

definition raw_metrics ::
  "float_env \<Rightarrow> monitor_policy \<Rightarrow> string option list \<Rightarrow>
     (string option \<times> string, metric_counts) dict \<Rightarrow> (string option \<times> string, metric_counts) dict \<Rightarrow>
     monitor_error + metric_comparison list" where
  "raw_metrics fe p groups reference current =
     bindr (traverse (\<lambda>(g, n). raw_metric fe p g n (dget reference (g, n)) (dget current (g, n)))
       (concat (map (\<lambda>g. map (\<lambda>n. (g, n)) (sorted_union (names_in g reference) (names_in g current))) groups)))
     (\<lambda>ms. Inr (concat ms))"

definition decide :: "monitor_policy \<Rightarrow> rat \<Rightarrow> metric_comparison \<times> rat \<Rightarrow> metric_comparison" where
  "decide p alpha e = (let (m, adjusted) = e in
     m\<lparr>mc_p_adjusted := adjusted,
       mc_alert := (adjusted \<le> alpha \<and> mp_minimum_effect p \<le> \<bar>mc_effect m\<bar>)\<rparr>)"

definition decided_metrics ::
  "float_env \<Rightarrow> monitor_policy \<Rightarrow> rat \<Rightarrow> metric_comparison list \<Rightarrow> monitor_error + metric_comparison list" where
  "decided_metrics fe p alpha raw =
     traverse (\<lambda>e. post_init metric_comparison_checks (decide p alpha e))
       (zip raw (benjamini_hochberg fe (map mc_p_value raw)))"

section \<open>The comparison\<close>

definition unseen_units :: "cohort_summary \<Rightarrow> cohort_summary \<Rightarrow> int" where
  "unseen_units reference current = sy_unassigned current + sum_list (map fg_unit_count
     (filter (\<lambda>g. fg_group_id g \<notin> set (map fg_group_id (sy_groups reference))) (sy_groups current)))"

definition share :: "float_env \<Rightarrow> bool \<Rightarrow> int \<Rightarrow> int \<Rightarrow> rat" where
  "share fe g part n = (if g \<and> n \<noteq> 0 then fl_div fe (of_int part) (of_int n) else 0)"

definition comparison_groups :: "monitor_policy \<Rightarrow> cohort_summary \<Rightarrow> cohort_summary \<Rightarrow> string option list" where
  "comparison_groups p reference current =
     (if grouped p then map Some (sort (filter (\<lambda>g. g \<in> set (map fg_group_id (sy_groups current)))
        (dkeys (groups_by_id reference))))
      else [None])"

definition enough_evidence :: "monitor_policy \<Rightarrow> cohort_summary \<Rightarrow> cohort_summary \<Rightarrow> bool" where
  "enough_evidence p reference current \<longleftrightarrow>
     mp_minimum_reference p \<le> sy_unit_count reference \<and> mp_minimum_current p \<le> sy_unit_count current"

definition compare_cohorts ::
  "float_env \<Rightarrow> monitor_policy \<Rightarrow> rat \<Rightarrow> bool \<Rightarrow> cohort_summary \<Rightarrow> cohort_summary \<Rightarrow>
     group_coverage list \<Rightarrow> metric_coverage list \<Rightarrow> monitor_error + monitor_comparison" where
  "compare_cohorts fe p alpha is_open reference current groups coverage =
     (let result = (\<lambda>status metrics unseen unassigned. post_init monitor_comparison_checks
            \<lparr>cp_status = status, cp_metrics = metrics, cp_unseen = unseen, cp_alpha = alpha,
             cp_coverage = coverage, cp_unassigned = unassigned, cp_groups = groups\<rparr>) in
      if is_open \<or> \<not> enough_evidence p reference current then result INSUFFICIENT [] 0 0
      else let n = sy_unit_count current;
          unseen = share fe (grouped p) (unseen_units reference current) n;
          unassigned = share fe (grouped p) (sy_unassigned current) n in
        if mp_maximum_unseen p < unseen then result REFERENCE_STALE [] unseen unassigned
        else bindr (raw_metrics fe p (comparison_groups p reference current)
              (metrics_by_key (sy_metrics reference)) (metrics_by_key (sy_metrics current)))
          (\<lambda>raw. bindr (decided_metrics fe p alpha raw)
          (\<lambda>metrics. if metrics = [] then result INSUFFICIENT [] unseen unassigned
             else result (if list_ex mc_alert metrics then ALERT else NO_ALERT) metrics unseen unassigned)))"

definition compare_manifest ::
  "py_env \<Rightarrow> float_env \<Rightarrow> cohort_manifest \<Rightarrow> monitor_policy \<Rightarrow> monitor_error + monitor_comparison" where
  "compare_manifest env fe m p =
     bindr (validate_monitor_analysis_unit p)
     (\<lambda>_. bindr (valid (mf_policy_fingerprint m = policy_fingerprint env p)
        ''manifest and policy do not match'')
     (\<lambda>_. case (mf_reference m, mf_current m) of
        (Some reference, Some current) \<Rightarrow>
          bindr (traverse (cover_group (groups_by_id reference) (groups_by_id current))
            (sorted_union (dkeys (groups_by_id reference)) (dkeys (groups_by_id current))))
          (\<lambda>groups. bindr (cover_metrics (metrics_by_key (sy_metrics reference))
              (metrics_by_key (sy_metrics current)))
          (\<lambda>coverage. compare_cohorts fe p (alpha_threshold fe p (mf_index m)) (mf_open m)
              reference current groups coverage))
      | _ \<Rightarrow> Inl (MonitorInvalid ''monitor policy requires re-bootstrap'')))"

end
