(* ===== verification/Statistics_Laws.thy ===== *)
theory Statistics_Laws
  imports Statistics "HOL-Library.Multiset"
begin

text \<open>
  Laws of the statistical primitives: the adjusted p-values stay between zero and one, never reorder
  the metrics, and are the running minimum over the higher ranks; Fisher's test returns a probability
  on every table of counts.
\<close>

lemma round_mono: "float_env_ok fe \<Longrightarrow> x \<le> y \<Longrightarrow> fe_round fe x \<le> fe_round fe y"
  by (simp add: float_env_ok_def)

lemma round_nonneg: "float_env_ok fe \<Longrightarrow> 0 \<le> x \<Longrightarrow> 0 \<le> fe_round fe x"
  using round_mono [of fe 0 x] by (simp add: float_env_ok_def)

section \<open>Fisher's test\<close>

lemma fisher_probability:
  assumes "float_env_ok fe" "0 \<le> a" "0 \<le> b" "0 \<le> c" "0 \<le> d"
  shows "\<exists>p. fisher_exact_two_sided fe a b c d = Inr p \<and> 0 \<le> p \<and> p \<le> 1"
  using assms
  by (auto simp: fisher_exact_two_sided_def Let_def float_env_ok_def split: option.split)

section \<open>Running minima\<close>

definition bh_term :: "float_env \<Rightarrow> nat \<Rightarrow> nat \<times> nat \<times> rat \<Rightarrow> rat" where
  "bh_term fe n e = (case e of (rank, _, p) \<Rightarrow> fl_div fe (fl_mul fe p (of_nat n)) (of_nat rank))"

fun bh_running :: "float_env \<Rightarrow> nat \<Rightarrow> (nat \<times> nat \<times> rat) list \<Rightarrow> rat" where
  "bh_running fe n [] = 1"
| "bh_running fe n (e # es) = min (bh_running fe n es) (bh_term fe n e)"

lemma bh_running_le: "bh_running fe n es \<le> 1"
  by (induction es) auto

lemma bh_running_append_le: "bh_running fe n (xs @ ys) \<le> bh_running fe n ys"
  by (induction xs) auto

lemma bh_running_skip:
  "(\<And>e. e \<in> set xs \<Longrightarrow> bh_running fe n ys \<le> bh_term fe n e) \<Longrightarrow>
     bh_running fe n (xs @ ys) = bh_running fe n ys"
  by (induction xs) auto

lemma bh_running_nonneg:
  assumes "\<And>e. e \<in> set es \<Longrightarrow> 0 \<le> bh_term fe n e"
  shows "0 \<le> bh_running fe n es"
  using assms by (induction es) auto

lemma bh_fold:
  assumes "distinct (map (fst \<circ> snd) es)" "\<And>e. e \<in> set es \<Longrightarrow> fst (snd e) < length acc"
    and "foldr (bh_step fe n) es (1, acc) = (running, adjusted)"
  shows "running = bh_running fe n es \<and> length adjusted = length acc \<and>
    (\<forall>i < length es. adjusted ! fst (snd (es ! i)) = bh_running fe n (drop i es))"
  using assms
proof (induction es arbitrary: running adjusted)
  case Nil
  then show ?case by simp
next
  case (Cons e es)
  obtain r adj where f: "foldr (bh_step fe n) es (1, acc) = (r, adj)" by fastforce
  have ih: "r = bh_running fe n es" "length adj = length acc"
    "\<And>i. i < length es \<Longrightarrow> adj ! fst (snd (es ! i)) = bh_running fe n (drop i es)"
    using Cons.IH [OF _ _ f] Cons.prems(1,2) by auto
  obtain rank i p where e: "e = (rank, i, p)" by (metis prod_cases3)
  have st: "bh_step fe n (rank, i, p) (r, adj) = (running, adjusted)"
    using Cons.prems(3) by (simp add: f e)
  have ra: "running = bh_running fe n (e # es)" "adjusted = adj[i := running]"
    using st ih(1) bh_running_le [of fe n es]
    by (auto simp: e bh_step_def bh_term_def Let_def min_def)
  have i: "i < length adj" "i \<notin> (fst \<circ> snd) ` set es"
    using Cons.prems(1) Cons.prems(2) [of e] ih(2) by (auto simp: e)
  have "adjusted ! fst (snd ((e # es) ! j)) = bh_running fe n (drop j (e # es))"
    if "j < length (e # es)" for j
  proof (cases j)
    case 0
    then show ?thesis using i(1) by (simp add: ra e)
  next
    case (Suc k)
    then have "k < length es" using that by simp
    then have "fst (snd (es ! k)) \<noteq> i" using i(2) by (metis comp_apply imageI nth_mem)
    then show ?thesis using ih(3) [OF \<open>k < length es\<close>] by (simp add: ra(2) Suc)
  qed
  then show ?case using ra ih(2) by simp
qed

section \<open>The adjustment\<close>

definition bh_entries :: "rat list \<Rightarrow> (nat \<times> nat \<times> rat) list" where
  "bh_entries ps = enumerate 1 (sort_key snd (enumerate 0 ps))"

lemma bh_entries_nth:
  assumes "a < length ps"
  shows "bh_entries ps ! a = (Suc a, sort_key snd (enumerate 0 ps) ! a)"
  using assms by (simp add: bh_entries_def nth_enumerate_eq)

lemma bh_entries_value:
  assumes "a < length ps"
  shows "fst (snd (bh_entries ps ! a)) < length ps"
    "snd (snd (bh_entries ps ! a)) = ps ! fst (snd (bh_entries ps ! a))"
proof -
  have "sort_key snd (enumerate 0 ps) ! a \<in> set (sort_key snd (enumerate 0 ps))"
    using assms by (intro nth_mem) simp
  then have "sort_key snd (enumerate 0 ps) ! a \<in> set (enumerate 0 ps)" by simp
  then show "fst (snd (bh_entries ps ! a)) < length ps"
    "snd (snd (bh_entries ps ! a)) = ps ! fst (snd (bh_entries ps ! a))"
    by (auto simp: bh_entries_nth [OF assms] in_set_enumerate_eq)
qed

lemma length_bh_entries [simp]: "length (bh_entries ps) = length ps"
  by (simp add: bh_entries_def)

lemma bh_entries_indices:
  "distinct (map (fst \<circ> snd) (bh_entries ps))" "set (map (fst \<circ> snd) (bh_entries ps)) = {..<length ps}"
proof -
  have m: "map (fst \<circ> snd) (bh_entries ps) = map fst (sort_key snd (enumerate 0 ps))"
    by (simp add: bh_entries_def map_map [symmetric] del: map_map)
  have "mset (map fst (sort_key snd (enumerate 0 ps))) = mset (map fst (enumerate 0 ps))"
    by (simp only: mset_map mset_sort)
  also have "\<dots> = mset [0..<length ps]" by (simp only: map_fst_enumerate) simp
  finally have "mset (map fst (sort_key snd (enumerate 0 ps))) = mset [0..<length ps]" .
  then show "distinct (map (fst \<circ> snd) (bh_entries ps))"
    "set (map (fst \<circ> snd) (bh_entries ps)) = {..<length ps}"
    unfolding m by (metis distinct_upt mset_eq_imp_distinct_iff, metis atLeast_upt mset_eq_setD)
qed

lemma bh_sorted:
  "a \<le> b \<Longrightarrow> b < length ps \<Longrightarrow> snd (snd (bh_entries ps ! a)) \<le> snd (snd (bh_entries ps ! b))"
proof -
  assume "a \<le> b" "b < length ps"
  moreover have "sorted (map snd (sort_key snd (enumerate 0 ps)))" by (rule sorted_sort_key)
  ultimately show ?thesis
    using sorted_nth_mono [of "map snd (sort_key snd (enumerate 0 ps))" a b]
    by (simp add: bh_entries_nth)
qed

lemma bh_nth:
  assumes "i < length ps"
  obtains a where "a < length ps" "fst (snd (bh_entries ps ! a)) = i"
    "benjamini_hochberg fe ps ! i = bh_running fe (length ps) (drop a (bh_entries ps))"
proof -
  obtain a where a: "a < length ps" "fst (snd (bh_entries ps ! a)) = i"
  proof -
    have "i \<in> (fst \<circ> snd) ` set (bh_entries ps)"
      using assms unfolding set_map [symmetric] bh_entries_indices(2) by simp
    then show ?thesis using that by (auto simp: in_set_conv_nth)
  qed
  obtain r adj where f: "foldr (bh_step fe (length ps)) (bh_entries ps) (1, replicate (length ps) 1) = (r, adj)"
    by fastforce
  have "fst (snd e) < length ps" if "e \<in> set (bh_entries ps)" for e
    using that bh_entries_indices(2) [of ps] by force
  then have "adj ! i = bh_running fe (length ps) (drop a (bh_entries ps))"
    using bh_fold [OF bh_entries_indices(1) _ f] a by auto
  moreover have "benjamini_hochberg fe ps = adj"
    using assms f by (auto simp: benjamini_hochberg_def bh_entries_def foldr_conv_fold)
  ultimately show ?thesis using that a by blast
qed

lemma bh_length: "length (benjamini_hochberg fe ps) = length ps"
proof (cases "ps = []")
  case False
  obtain r adj where f: "foldr (bh_step fe (length ps)) (bh_entries ps) (1, replicate (length ps) 1) = (r, adj)"
    by fastforce
  have "fst (snd e) < length ps" if "e \<in> set (bh_entries ps)" for e
    using that bh_entries_indices(2) [of ps] by force
  then have "length adj = length ps" using bh_fold [OF bh_entries_indices(1) _ f] by auto
  then show ?thesis using False f by (auto simp: benjamini_hochberg_def bh_entries_def foldr_conv_fold)
qed (simp add: benjamini_hochberg_def)

lemma bh_term_nonneg:
  "float_env_ok fe \<Longrightarrow> 0 \<le> snd (snd e) \<Longrightarrow> 0 \<le> bh_term fe n e"
  by (cases e) (simp add: bh_term_def fl_div_def fl_mul_def round_nonneg)

lemma bh_term_rank:
  assumes "float_env_ok fe" "0 \<le> p" "a \<le> b"
  shows "bh_term fe n (Suc b, i, p) \<le> bh_term fe n (Suc a, j, p)"
proof -
  have "0 \<le> fl_mul fe p (of_nat n)" using assms(1,2) by (simp add: fl_mul_def round_nonneg)
  then have "fl_mul fe p (of_nat n) / of_nat (Suc b) \<le> fl_mul fe p (of_nat n) / of_nat (Suc a)"
    using assms(3) by (intro divide_left_mono) auto
  then show ?thesis using assms(1) by (simp add: bh_term_def fl_div_def round_mono)
qed

lemma bh_running_ties:
  assumes fe: "float_env_ok fe" and ab: "a \<le> b" "b < length ps"
    and p: "snd (snd (bh_entries ps ! a)) = snd (snd (bh_entries ps ! b))" "0 \<le> snd (snd (bh_entries ps ! a))"
  shows "bh_running fe n (drop a (bh_entries ps)) = bh_running fe n (drop b (bh_entries ps))"
proof -
  let ?es = "bh_entries ps"
  have split: "drop a ?es = take (b - a) (drop a ?es) @ drop b ?es"
    using ab(1) by (metis append_take_drop_id drop_drop le_add_diff_inverse2)
  have "bh_running fe n (drop b ?es) \<le> bh_term fe n e" if e: "e \<in> set (take (b - a) (drop a ?es))" for e
  proof -
    obtain k where k: "a \<le> k" "k < b" "e = ?es ! k"
      using e ab by (auto simp: in_set_conv_nth) (metis add.commute le_add1 less_diff_conv)
    have v: "snd (snd (?es ! k)) = snd (snd (?es ! b))"
      using bh_sorted [of a k ps] bh_sorted [of k b ps] k ab p(1) by simp
    have "bh_running fe n (drop b ?es) \<le> bh_term fe n (?es ! b)"
      using ab(2) by (simp add: Cons_nth_drop_Suc [symmetric])
    also have "\<dots> \<le> bh_term fe n (?es ! k)"
      using v k ab p bh_term_rank [OF fe, of "snd (snd (?es ! b))" k b n]
      by (metis bh_entries_nth less_imp_le less_trans prod.collapse fst_conv snd_conv)
    finally show ?thesis by (simp add: k(3))
  qed
  from bh_running_skip [of "take (b - a) (drop a ?es)" fe n "drop b ?es", OF this]
  show ?thesis using split by simp
qed

lemma bh_laws:
  assumes fe: "float_env_ok fe" and p: "\<forall>p \<in> set ps. 0 \<le> p" and ij: "i < length ps" "j < length ps"
  shows "0 \<le> benjamini_hochberg fe ps ! i" "benjamini_hochberg fe ps ! i \<le> 1"
    "ps ! i \<le> ps ! j \<Longrightarrow> benjamini_hochberg fe ps ! i \<le> benjamini_hochberg fe ps ! j"
proof -
  let ?es = "bh_entries ps" and ?n = "length ps"
  obtain a where a: "a < ?n" "fst (snd (?es ! a)) = i"
    "benjamini_hochberg fe ps ! i = bh_running fe ?n (drop a ?es)" by (rule bh_nth [OF ij(1)])
  obtain b where b: "b < ?n" "fst (snd (?es ! b)) = j"
    "benjamini_hochberg fe ps ! j = bh_running fe ?n (drop b ?es)" by (rule bh_nth [OF ij(2)])
  have nn: "0 \<le> snd (snd (?es ! k))" if "k < ?n" for k
    using that p bh_entries_value [OF that] by simp
  have "0 \<le> bh_term fe ?n e" if e: "e \<in> set (drop a ?es)" for e
    using in_set_dropD [OF e] nn by (auto simp: in_set_conv_nth intro!: bh_term_nonneg [OF fe])
  then show "0 \<le> benjamini_hochberg fe ps ! i" unfolding a(3) by (rule bh_running_nonneg)
  show "benjamini_hochberg fe ps ! i \<le> 1" by (simp add: a(3) bh_running_le)
  show "benjamini_hochberg fe ps ! i \<le> benjamini_hochberg fe ps ! j" if le: "ps ! i \<le> ps ! j"
  proof (cases "a \<le> b")
    case True
    then have "drop a ?es = take (b - a) (drop a ?es) @ drop b ?es"
      by (metis append_take_drop_id drop_drop le_add_diff_inverse2)
    then show ?thesis unfolding a(3) b(3) by (metis bh_running_append_le)
  next
    case False
    have "snd (snd (?es ! b)) = snd (snd (?es ! a))"
      using bh_sorted [of b a ps] False a(1,2) b(1,2) le bh_entries_value(2) [OF a(1)]
        bh_entries_value(2) [OF b(1)] by simp
    from bh_running_ties [OF fe _ a(1) this nn [OF b(1)]] False show ?thesis unfolding a(3) b(3) by simp
  qed
qed

end
