(* ===== verification/Compare_Laws.thy ===== *)
theory Compare_Laws
  imports Monitor_Compare Statistics_Laws
begin

text \<open>
  What a comparison rests on: every reported metric comes from cells of the frozen summaries that hold
  enough evidence, groups are compared only with themselves, and the decision is the stated test.
\<close>

lemma raw_metric_props:
  assumes "raw_metric fe p g n r c = Inr ms" "m \<in> set ms"
  shows "mc_group_id m = g" "mc_metric m = n"
    "mc_reference_n m = fst (true_false r) + snd (true_false r)"
    "mc_current_n m = fst (true_false c) + snd (true_false c)"
    "mp_minimum_reference p \<le> mc_reference_n m" "mp_minimum_current p \<le> mc_current_n m"
    "fisher_exact_two_sided fe (fst (true_false r)) (snd (true_false r)) (fst (true_false c))
       (snd (true_false c)) = Inr (mc_p_value m)"
  using assms
  by (auto simp: raw_metric_def Let_def split_beta split: if_splits sum.splits)

definition cell :: "cohort_summary \<Rightarrow> string option \<Rightarrow> string \<Rightarrow> int \<times> int" where
  "cell s g n = true_false (dget (metrics_by_key (sy_metrics s)) (g, n))"

text \<open>A metric that the frozen summaries support.\<close>

definition backed_metric :: "monitor_policy \<Rightarrow> cohort_summary \<Rightarrow> cohort_summary \<Rightarrow> metric_comparison \<Rightarrow> bool" where
  "backed_metric p r c m \<longleftrightarrow>
     mc_reference_n m = fst (cell r (mc_group_id m) (mc_metric m)) + snd (cell r (mc_group_id m) (mc_metric m)) \<and>
     mc_current_n m = fst (cell c (mc_group_id m) (mc_metric m)) + snd (cell c (mc_group_id m) (mc_metric m)) \<and>
     mp_minimum_reference p \<le> mc_reference_n m \<and> mp_minimum_current p \<le> mc_current_n m \<and>
     (if grouped p then \<exists>g. mc_group_id m = Some g \<and> g \<in> fg_group_id ` set (sy_groups r) \<and>
          g \<in> fg_group_id ` set (sy_groups c)
      else mc_group_id m = None)"

lemma traverse_mem:
  "traverse f xs = Inr ys \<Longrightarrow> y \<in> set ys \<Longrightarrow> \<exists>x \<in> set xs. f x = Inr y"
  unfolding traverse_eq_Inr list_all2_conv_all_nth by (metis in_set_conv_nth)

lemma dset_all_keys: "set (dkeys (dset_all key val xs d)) = set (dkeys d) \<union> key ` set xs"
proof (induction xs arbitrary: d)
  case (Cons x xs)
  then show ?case by (simp add: dkeys_dset del: set_map) (auto simp: image_iff)
qed simp

lemma groups_by_id_keys: "set (dkeys (groups_by_id s)) = fg_group_id ` set (sy_groups s)"
  unfolding groups_by_id_def dset_all_keys by simp

lemma comparison_groups_props:
  assumes "g \<in> set (comparison_groups p r c)"
  shows "if grouped p then \<exists>i. g = Some i \<and> i \<in> fg_group_id ` set (sy_groups r) \<and>
      i \<in> fg_group_id ` set (sy_groups c) else g = None"
proof (cases "grouped p")
  case True
  then obtain i where "g = Some i" "i \<in> set (dkeys (groups_by_id r))" "i \<in> fg_group_id ` set (sy_groups c)"
    using assms by (auto simp: comparison_groups_def simp del: set_map) auto
  then show ?thesis using True unfolding groups_by_id_keys by simp
qed (use assms in \<open>simp add: comparison_groups_def\<close>)

lemma raw_metrics_backed:
  assumes "raw_metrics fe p (comparison_groups p r c) (metrics_by_key (sy_metrics r))
      (metrics_by_key (sy_metrics c)) = Inr raw" "m \<in> set raw"
  shows "backed_metric p r c m"
proof -
  from assms obtain ms where ms: "traverse (\<lambda>(g, n). raw_metric fe p g n
      (dget (metrics_by_key (sy_metrics r)) (g, n)) (dget (metrics_by_key (sy_metrics c)) (g, n)))
      (concat (map (\<lambda>g. map (\<lambda>n. (g, n)) (sorted_union (names_in g (metrics_by_key (sy_metrics r)))
        (names_in g (metrics_by_key (sy_metrics c))))) (comparison_groups p r c))) = Inr ms"
    "m \<in> set (concat ms)"
    by (auto simp: raw_metrics_def bindr_eq_Inr)
  from ms(2) obtain l where l: "l \<in> set ms" "m \<in> set l" by auto
  from traverse_mem [OF ms(1) l(1)] obtain g n where gn: "g \<in> set (comparison_groups p r c)"
    "raw_metric fe p g n (dget (metrics_by_key (sy_metrics r)) (g, n))
      (dget (metrics_by_key (sy_metrics c)) (g, n)) = Inr l"
    by auto
  from raw_metric_props [OF gn(2) l(2)] comparison_groups_props [OF gn(1)] show ?thesis
    by (simp add: backed_metric_def cell_def)
qed

lemma decided_metrics_mem:
  assumes "decided_metrics fe p alpha raw = Inr ms" "c \<in> set ms"
  shows "\<exists>m \<in> set raw. c = m\<lparr>mc_p_adjusted := mc_p_adjusted c, mc_alert := mc_alert c\<rparr>"
    "mc_alert c \<longleftrightarrow> mc_p_adjusted c \<le> alpha \<and> mp_minimum_effect p \<le> \<bar>mc_effect c\<bar>"
proof -
  from traverse_mem [OF assms(1) [unfolded decided_metrics_def] assms(2)] obtain m a where
    "(m, a) \<in> set (zip raw (benjamini_hochberg fe (map mc_p_value raw)))" "c = decide p alpha (m, a)"
    by (auto simp: post_init_eq_Inr)
  then show "\<exists>m \<in> set raw. c = m\<lparr>mc_p_adjusted := mc_p_adjusted c, mc_alert := mc_alert c\<rparr>"
    "mc_alert c \<longleftrightarrow> mc_p_adjusted c \<le> alpha \<and> mp_minimum_effect p \<le> \<bar>mc_effect c\<bar>"
    by (auto simp: decide_def dest!: set_zip_leftD)
qed

lemma backed_update: "backed_metric p r c (m\<lparr>mc_p_adjusted := a, mc_alert := b\<rparr>) = backed_metric p r c m"
  by (simp add: backed_metric_def)

lemma compare_cohorts_cases:
  assumes "compare_cohorts fe p alpha is_open r c groups coverage = Inr x"
  shows "(cp_metrics x = [] \<and> cp_status x \<in> {INSUFFICIENT, REFERENCE_STALE}) \<or>
    (\<not> is_open \<and> enough_evidence p r c \<and> cp_unseen x \<le> mp_maximum_unseen p \<and> cp_metrics x \<noteq> [] \<and>
     cp_status x = (if list_ex mc_alert (cp_metrics x) then ALERT else NO_ALERT) \<and>
     (\<exists>raw. raw_metrics fe p (comparison_groups p r c) (metrics_by_key (sy_metrics r))
        (metrics_by_key (sy_metrics c)) = Inr raw \<and> decided_metrics fe p alpha raw = Inr (cp_metrics x)))"
    "cp_alpha x = alpha" "0 < alpha"
  using assms
  by (auto simp: compare_cohorts_def Let_def bindr_eq_Inr post_init_eq_Inr passes_def
      monitor_comparison_checks_def split: if_splits)

lemma compare_manifest_eq:
  assumes "compare_manifest env fe m p = Inr x"
  obtains r c groups coverage where "mf_reference m = Some r" "mf_current m = Some c"
    "compare_cohorts fe p (alpha_threshold fe p (mf_index m)) (mf_open m) r c groups coverage = Inr x"
  using assms by (auto simp: compare_manifest_def bindr_eq_Inr split: option.splits)

lemma compare_backed:
  assumes "compare_manifest env fe m p = Inr x" "mf_reference m = Some r" "mf_current m = Some c"
  shows "(cp_status x = ALERT \<longleftrightarrow> (\<exists>k \<in> set (cp_metrics x). mc_alert k)) \<and>
    (cp_metrics x \<noteq> [] \<longrightarrow> \<not> mf_open m \<and> enough_evidence p r c \<and> cp_unseen x \<le> mp_maximum_unseen p) \<and>
    (\<forall>k \<in> set (cp_metrics x). backed_metric p r c k \<and>
       (mc_alert k \<longleftrightarrow> mc_p_adjusted k \<le> alpha_threshold fe p (mf_index m) \<and>
          mp_minimum_effect p \<le> \<bar>mc_effect k\<bar>))"
proof -
  from compare_manifest_eq [OF assms(1)] assms(2,3) obtain groups coverage where
    x: "compare_cohorts fe p (alpha_threshold fe p (mf_index m)) (mf_open m) r c groups coverage = Inr x"
    by (metis option.inject)
  note cs = compare_cohorts_cases [OF x]
  show ?thesis
  proof (cases "cp_metrics x = []")
    case True
    then show ?thesis using cs(1) by auto
  next
    case False
    with cs(1) obtain raw where raw: "raw_metrics fe p (comparison_groups p r c)
        (metrics_by_key (sy_metrics r)) (metrics_by_key (sy_metrics c)) = Inr raw"
      "decided_metrics fe p (alpha_threshold fe p (mf_index m)) raw = Inr (cp_metrics x)" by blast
    have "backed_metric p r c k" if k: "k \<in> set (cp_metrics x)" for k
      using decided_metrics_mem(1) [OF raw(2) k] raw_metrics_backed [OF raw(1)]
      by (metis backed_update)
    moreover note decided_metrics_mem(2) [OF raw(2)]
    ultimately show ?thesis using cs(1) False by (auto simp: list_ex_iff)
  qed
qed

text \<open>A threshold of zero is accepted by the policy, but no comparison under it can be built.\<close>

lemma zero_threshold:
  assumes "float_env_ok fe" "mp_p_threshold p = 0"
  shows "alpha_threshold fe p k = 0"
  using assms by (simp add: alpha_threshold_def fl_mul_def fl_div_def float_env_ok_def)

lemma zero_threshold_fails:
  assumes "float_env_ok fe" "mp_p_threshold p = 0"
  shows "\<exists>e. compare_manifest env fe m p = Inl e"
proof (cases "compare_manifest env fe m p")
  case (Inr x)
  from compare_manifest_eq [OF this] compare_cohorts_cases(3) zero_threshold [OF assms] show ?thesis
    by (metis less_irrefl)
qed simp

section \<open>Properties\<close>

text \<open>C6 (safety). An alert rests on evidence: a comparison that is returned is an alert exactly when one of
  its metrics is, it has metrics only when the bucket is closed, both cohorts are large enough and the
  share of unseen groups is within the policy, and each of its metrics has the counts of the frozen
  cells of both cohorts, at least the minimal number of outcomes on both sides, a group that both
  cohorts have, and an alert flag that is the stated test of adjusted p-value and effect.\<close>

theorem alerts_are_backed:
  assumes "compare_manifest env fe m p = Inr x" "mf_reference m = Some r" "mf_current m = Some c"
  shows "(cp_status x = ALERT \<longleftrightarrow> (\<exists>k \<in> set (cp_metrics x). mc_alert k)) \<and>
    (cp_metrics x \<noteq> [] \<longrightarrow> \<not> mf_open m \<and> enough_evidence p r c \<and> cp_unseen x \<le> mp_maximum_unseen p) \<and>
    (\<forall>k \<in> set (cp_metrics x). backed_metric p r c k \<and>
       (mc_alert k \<longleftrightarrow> mc_p_adjusted k \<le> alpha_threshold fe p (mf_index m) \<and>
          mp_minimum_effect p \<le> \<bar>mc_effect k\<bar>))"
  using assms by (rule compare_backed)

text \<open>The Benjamini-Hochberg adjustment keeps the number of values, returns values between
  zero and one and never reorders them: a smaller p-value has no larger adjusted value, equal p-values
  have equal ones, under any monotone rounding of the float operations.\<close>

theorem adjustment_keeps_order:
  assumes "float_env_ok fe" "\<forall>p \<in> set ps. 0 \<le> p"
  shows "length (benjamini_hochberg fe ps) = length ps \<and>
    (\<forall>i < length ps. 0 \<le> benjamini_hochberg fe ps ! i \<and> benjamini_hochberg fe ps ! i \<le> 1) \<and>
    (\<forall>i < length ps. \<forall>j < length ps. ps ! i \<le> ps ! j \<longrightarrow>
       benjamini_hochberg fe ps ! i \<le> benjamini_hochberg fe ps ! j)"
  using bh_laws [OF assms] bh_length by blast

end
