(* ===== verification/Monitor_Samples.thy ===== *)
theory Monitor_Samples
  imports Monitor_Properties Compare_Laws
begin

text \<open>Concrete monitors on which the properties apply.\<close>

definition sample_policy :: monitor_policy where
  "sample_policy = \<lparr>mp_policy_id = ''p'', mp_scope_key = ''s'', mp_window_mode = EXPLICIT,
     mp_reference_ratio = 1 / 2, mp_reference_start = Some 0, mp_reference_end = Some 2,
     mp_current_start = Some 2, mp_current_end = Some 4, mp_minimum_reference = 1,
     mp_minimum_current = 1, mp_prospective_target = 2, mp_p_threshold = 1 / 20,
     mp_minimum_effect = 1 / 10, mp_maximum_unseen = 1 / 5, mp_analysis_unit = ''trace'',
     mp_grouping_mode = ''none'', mp_sequential_method = ''quadratic_alpha_spending_v1'',
     mp_evaluator = None, mp_dimensions = [], mp_registry_version = None\<rparr>"

definition sample_unit :: "string \<Rightarrow> int \<Rightarrow> bool \<Rightarrow> analysis_unit" where
  "sample_unit i t b = \<lparr>au_unit_id = i, au_event_time = t, au_metrics = [(''e'', b)],
     au_group_id = None, au_metric_states = [], au_group_label = None, au_group_provider = None,
     au_group_model = None, au_evaluator_state = ''not_requested'', au_evidence_digest = None\<rparr>"

definition sample_units :: "analysis_unit list" where
  "sample_units = [sample_unit ''b'' 2 False, sample_unit ''a'' 1 True]"

definition sample_poll :: poll where
  "sample_poll = ([sample_unit ''c'' 7 True, sample_unit ''a'' 1 True, sample_unit ''d'' 6 False], None)"

lemma sample_policy_passes: "passes monitor_policy_checks sample_policy"
  by (simp add: passes_def monitor_policy_checks_def sample_policy_def bounded_id_def evaluator_checks_def
    window_checks_def)

lemma sample_mode: "mp_analysis_unit sample_policy = ''trace''" "\<not> grouped sample_policy"
  "mp_prospective_target sample_policy = 2"
  by (simp_all add: sample_policy_def grouped_def)

lemma sample_names: "metric_universe {''e''}"
  by (simp add: metric_universe_def max_monitor_group_metrics_def bounded_id_def)

lemma sample_plain: "list_all (plain_unit {''e''}) sample_units" "distinct (map au_unit_id sample_units)"
  by (simp_all add: sample_units_def sample_unit_def plain_unit_def bounded_id_def)

lemma sample_poll_plain: "plain_poll {''e''} None sample_poll"
  by (simp add: plain_poll_def sample_poll_def sample_unit_def plain_unit_def bounded_id_def)

definition sample_start :: cohort_manifest where
  "sample_start = projr (plan_historical_manifest plain_py_env id sample_units sample_policy 5)"

lemma sample_historical:
  "plan_historical_manifest plain_py_env id sample_units sample_policy 5 = Inr sample_start"
  using historical_total [OF plain_py_env_ok sample_names sample_policy_passes sample_mode(1,2)
      sample_plain, of id 5]
  by (auto simp: sample_start_def)

definition sample_end :: monitor_state where
  "sample_end = projr (monitor_run plain_py_env sample_policy [sample_poll] (sample_start, []))"

lemma sample_monitor_run:
  "monitor_run plain_py_env sample_policy [sample_poll] (sample_start, []) = Inr sample_end"
  using run_total [OF plain_py_env_ok sample_names sample_mode(1,2) _ historical_inv [OF sample_historical]
      historical_ready [OF sample_historical sample_plain(1) sample_mode(2)], of None "[sample_poll]"]
  by (auto simp: sample_end_def sample_mode sample_poll_plain)

theorem merging_is_freezing_witness:
  "freeze_cohort False [sample_unit ''a'' 1 True, sample_unit ''b'' 2 False] =
     Inr \<lparr>sy_unit_count = 2, sy_unassigned = 0, sy_groups = [],
       sy_metrics = [\<lparr>fm_group_id = None, fm_metric = ''e'', fm_true = 1, fm_false = 1, fm_pass = 0,
         fm_fail = 0, fm_unclear = 0, fm_missing = 0, fm_error = 0, fm_true_ids = [''a''],
         fm_false_ids = [''b'']\<rparr>]\<rparr>"
proof -
  let ?m = "\<lambda>t f xs ys. \<lparr>fm_group_id = None, fm_metric = ''e'', fm_true = t, fm_false = f, fm_pass = 0,
      fm_fail = 0, fm_unclear = 0, fm_missing = 0, fm_error = 0, fm_true_ids = xs, fm_false_ids = ys\<rparr>"
  let ?s = "\<lambda>n m. \<lparr>sy_unit_count = n, sy_unassigned = 0, sy_groups = [], sy_metrics = [m]\<rparr>"
  have a: "freeze_cohort False [sample_unit ''a'' 1 True] = Inr (?s 1 (?m 1 0 [''a''] []))" by code_simp
  have b: "freeze_cohort False [sample_unit ''b'' 2 False] = Inr (?s 1 (?m 0 1 [] [''b'']))" by code_simp
  have m: "merge_summaries (?s 1 (?m 1 0 [''a''] [])) (?s 1 (?m 0 1 [] [''b'']))
      = Inr (?s 2 (?m 1 1 [''a''] [''b'']))" by code_simp
  show ?thesis using merging_is_freezing [OF a b _ m] by (simp add: sample_unit_def)
qed

theorem monitor_buckets_witness:
  "mf_reference (fst sample_end) = mf_reference sample_start \<and>
   mf_consumed_ids (fst sample_end)
     = mf_consumed_ids sample_start @ map au_unit_id (concat (snd sample_end)) \<and>
   distinct (mf_consumed_ids (fst sample_end))"
proof -
  have "list_all (\<lambda>q. settled (fst q)) [sample_poll]"
    using plain_poll_settled [OF sample_poll_plain] by simp
  moreover have "monitor_run plain_py_env sample_policy [sample_poll] (sample_start, [])
      = Inr (fst sample_end, snd sample_end)" by (simp add: sample_monitor_run)
  moreover have "0 < mp_prospective_target sample_policy" by (simp add: sample_mode)
  ultimately show ?thesis using monitor_buckets [OF sample_historical] by blast
qed

lemma sample_start_fields:
  "\<not> mf_open sample_start" "mf_start_at sample_start = None" "mf_cutoff sample_start = 5"
  "mf_consumed_ids sample_start = [''a'', ''b'']"
proof -
  obtain rows r c i where e: "ordered sample_units = Inr rows"
    "split_rows id sample_policy (filter (\<lambda>u. au_event_time u \<le> 5) rows) = (r, c)"
    "\<exists>sr sc. sample_start = (unsaved_manifest plain_py_env sample_policy 5)
       \<lparr>mf_reference_ids := map au_unit_id r, mf_current_ids := map au_unit_id c,
        mf_consumed_ids := map au_unit_id (r @ c),
        mf_reference := Some sr, mf_current := Some sc, mf_snapshot_id := i\<rparr>"
    by (rule plan_historical_eq [OF sample_historical]) blast
  from e(3) obtain sr sc where m: "sample_start = (unsaved_manifest plain_py_env sample_policy 5)
       \<lparr>mf_reference_ids := map au_unit_id r, mf_current_ids := map au_unit_id c,
        mf_consumed_ids := map au_unit_id (r @ c),
        mf_reference := Some sr, mf_current := Some sc, mf_snapshot_id := i\<rparr>"
    by blast
  show "\<not> mf_open sample_start" "mf_start_at sample_start = None" "mf_cutoff sample_start = 5"
    by (simp_all only: m) (simp_all add: unsaved_manifest_def)
  have "rows = [sample_unit ''a'' 1 True, sample_unit ''b'' 2 False]"
  proof -
    have "ordered sample_units = Inr [sample_unit ''a'' 1 True, sample_unit ''b'' 2 False]" by code_simp
    then show ?thesis using e(1) by simp
  qed
  then have "r @ c = [sample_unit ''a'' 1 True, sample_unit ''b'' 2 False]"
    using e(2) by (auto simp: split_rows_def sample_policy_def between_def sample_unit_def)
  then have "map au_unit_id (r @ c) = [''a'', ''b'']" by (simp only:) (simp add: sample_unit_def)
  then show "mf_consumed_ids sample_start = [''a'', ''b'']" by (simp only: m) simp
qed



text \<open>A comparison that raises an alert, an adjustment and a policy whose comparisons fail.\<close>

definition sample_counts :: "int \<Rightarrow> int \<Rightarrow> cohort_summary" where
  "sample_counts t f = \<lparr>sy_unit_count = t + f, sy_unassigned = 0, sy_groups = [],
     sy_metrics = [\<lparr>fm_group_id = None, fm_metric = ''e'', fm_true = t, fm_false = f, fm_pass = 0,
       fm_fail = 0, fm_unclear = 0, fm_missing = 0, fm_error = 0, fm_true_ids = [],
       fm_false_ids = []\<rparr>]\<rparr>"

definition sample_manifest :: cohort_manifest where
  "sample_manifest = (unsaved_manifest plain_py_env sample_policy 5)
     \<lparr>mf_reference := Some (sample_counts 0 2), mf_current := Some (sample_counts 2 0)\<rparr>"

definition sample_floats :: float_env where
  "sample_floats = exact_floats\<lparr>fe_exp := (\<lambda>x. 0)\<rparr>"

lemma sample_range: "[0..2::int] = [0, 1, 2]"
  by (simp add: upto_rec1)

lemma sample_fisher: "fisher_exact_two_sided sample_floats 0 2 2 0 = Inr 0"
  by (simp add: fisher_exact_two_sided_def sample_floats_def exact_floats_def Let_def log_probability_def
    log_denominator_def fl_sub_def fl_add_def add_log_def sample_range)
lemma sample_cells:
  "metrics_by_key (sy_metrics (sample_counts t f)) =
     [((None, ''e''), hd (sy_metrics (sample_counts t f)))]"
  "groups_by_id (sample_counts t f) = []"
  by (simp_all add: metrics_by_key_def groups_by_id_def sample_counts_def metric_key_def)

lemma sample_raw:
  "raw_metrics sample_floats sample_policy [None] (metrics_by_key (sy_metrics (sample_counts 0 2)))
     (metrics_by_key (sy_metrics (sample_counts 2 0))) =
     Inr [\<lparr>mc_metric = ''e'', mc_reference_n = 2, mc_current_n = 2, mc_reference_value = 0,
         mc_current_value = 1, mc_effect = 1, mc_p_value = 0, mc_p_adjusted = 1, mc_alert = False,
         mc_group_id = None\<rparr>]"
  unfolding sample_cells
  by (simp add: raw_metrics_def sorted_union_def names_in_def raw_metric_def true_false_def sample_counts_def
    sample_fisher) (simp add: sample_policy_def sample_floats_def exact_floats_def fl_div_def fl_sub_def)

lemma sample_compare:
  "compare_manifest plain_py_env sample_floats sample_manifest sample_policy =
     Inr \<lparr>cp_status = ALERT,
       cp_metrics = [\<lparr>mc_metric = ''e'', mc_reference_n = 2, mc_current_n = 2, mc_reference_value = 0,
         mc_current_value = 1, mc_effect = 1, mc_p_value = 0, mc_p_adjusted = 0, mc_alert = True,
         mc_group_id = None\<rparr>],
       cp_unseen = 0, cp_alpha = 1 / 20, cp_coverage = [], cp_unassigned = 0, cp_groups = []\<rparr>"
proof -
  have m: "mf_policy_fingerprint sample_manifest = policy_fingerprint plain_py_env sample_policy"
    "mf_reference sample_manifest = Some (sample_counts 0 2)"
    "mf_current sample_manifest = Some (sample_counts 2 0)" "mf_index sample_manifest = 0"
    "\<not> mf_open sample_manifest"
    by (simp_all add: sample_manifest_def unsaved_manifest_def)
  have c: "cover_metrics (metrics_by_key (sy_metrics (sample_counts 0 2)))
      (metrics_by_key (sy_metrics (sample_counts 2 0))) = Inr []"
    unfolding sample_cells
    by (simp add: cover_metrics_def covered_keys_def sample_counts_def reports_coverage_def)
  have b: "benjamini_hochberg sample_floats [0] = [0]"
    by (simp add: benjamini_hochberg_def bh_step_def sample_floats_def exact_floats_def fl_mul_def fl_div_def)
  have e: "enough_evidence sample_policy (sample_counts 0 2) (sample_counts 2 0)"
    by (simp add: enough_evidence_def sample_policy_def sample_counts_def)
  have p: "mp_maximum_unseen sample_policy = 1 / 5" "mp_p_threshold sample_policy = 1 / 20"
    "mp_minimum_effect sample_policy = 1 / 10"
    by (simp_all add: sample_policy_def)
  show ?thesis
    by (simp add: p compare_manifest_def validate_monitor_analysis_unit_def sample_mode m c sample_cells(2)
      sorted_union_def compare_cohorts_def e share_def comparison_groups_def sample_raw decided_metrics_def b
      decide_def post_init_def metric_comparison_checks_def validate_group_id_def
      monitor_comparison_checks_def max_monitor_groups_def alpha_threshold_def checks.simps(2))
qed

theorem alerts_are_backed_witness:
  "backed_metric sample_policy (sample_counts 0 2) (sample_counts 2 0)
     \<lparr>mc_metric = ''e'', mc_reference_n = 2, mc_current_n = 2, mc_reference_value = 0,
      mc_current_value = 1, mc_effect = 1, mc_p_value = 0, mc_p_adjusted = 0, mc_alert = True,
      mc_group_id = None\<rparr> \<and> \<not> mf_open sample_manifest"
proof -
  have "mf_reference sample_manifest = Some (sample_counts 0 2)"
    "mf_current sample_manifest = Some (sample_counts 2 0)"
    by (simp_all add: sample_manifest_def unsaved_manifest_def)
  from alerts_are_backed [OF sample_compare this] show ?thesis by simp
qed

theorem adjustment_keeps_order_witness:
  "length (benjamini_hochberg exact_floats [1 / 100, 1 / 25, 3 / 100]) = 3 \<and>
   benjamini_hochberg exact_floats [1 / 100, 1 / 25, 3 / 100] ! 2
     \<le> benjamini_hochberg exact_floats [1 / 100, 1 / 25, 3 / 100] ! 1"
proof -
  let ?ps = "[1 / 100, 1 / 25, 3 / 100 :: rat]"
  have "\<forall>p \<in> set ?ps. 0 \<le> p" by simp
  note laws = adjustment_keeps_order [OF exact_floats_ok this]
  have "length (benjamini_hochberg exact_floats ?ps) = 3" using laws by simp
  moreover have "benjamini_hochberg exact_floats ?ps ! 2 \<le> benjamini_hochberg exact_floats ?ps ! 1"
    using laws [THEN conjunct2, THEN conjunct2, rule_format, of 2 1] by simp
  ultimately show ?thesis by simp
qed

lemma zero_threshold_sample:
  "passes monitor_policy_checks (sample_policy\<lparr>mp_p_threshold := 0\<rparr>)"
  by (simp add: passes_def monitor_policy_checks_def sample_policy_def bounded_id_def evaluator_checks_def
    window_checks_def)

end
