(* ===== verification/Monitor_Codec.thy ===== *)
theory Monitor_Codec
  imports Monitor_Compare
begin

text \<open>
  The stored texts of the monitor: a policy as JSON and back, and a snapshot (a manifest with its
  comparison) as JSON, \<open>verdict/monitoring.py\<close>.  What the constructor makes of a payload whose fields
  have another JSON type than the writer gives them is the parameter \<open>untyped\<close>.
\<close>

section \<open>Policies\<close>

definition policy_json :: "py_env \<Rightarrow> monitor_policy \<Rightarrow> (string, jval) dict" where
  "policy_json env p =
     (let num = (\<lambda>q. JFloat q (pe_repr env q)); time = opt_json (\<lambda>t. JStr (pe_iso env t)) in
     [(''policy_id'', JStr (mp_policy_id p)), (''scope_key'', JStr (mp_scope_key p)),
      (''window_mode'', JStr (window_mode_value (mp_window_mode p))),
      (''reference_ratio'', num (mp_reference_ratio p)),
      (''reference_start'', time (mp_reference_start p)),
      (''reference_end'', time (mp_reference_end p)),
      (''current_start'', time (mp_current_start p)),
      (''current_end'', time (mp_current_end p)),
      (''minimum_reference'', JInt (mp_minimum_reference p)),
      (''minimum_current'', JInt (mp_minimum_current p)),
      (''prospective_target'', JInt (mp_prospective_target p)),
      (''p_threshold'', num (mp_p_threshold p)), (''minimum_effect'', num (mp_minimum_effect p)),
      (''maximum_unseen_group_share'', num (mp_maximum_unseen p)),
      (''analysis_unit'', JStr (mp_analysis_unit p)),
      (''grouping_mode'', JStr (mp_grouping_mode p)),
      (''sequential_method'', JStr (mp_sequential_method p)),
      (''evaluator_fingerprint'', opt_json JStr (mp_evaluator p)),
      (''evaluator_dimensions'', JList (map JStr (mp_dimensions p)))]
     @ (case mp_registry_version p of None \<Rightarrow> []
        | Some v \<Rightarrow> [(''cluster_registry_version_id'', JStr v)]))"

definition monitor_policy_to_json :: "py_env \<Rightarrow> monitor_policy \<Rightarrow> string" where
  "monitor_policy_to_json env p = json_dumps True (JDict (policy_json env p))"

text \<open>Reading a field: \<open>Inl True\<close> is another type than the writer uses, \<open>Inl False\<close> a value that raises.\<close>

type_synonym 'a reading = "bool + 'a"

definition read_text :: "jval \<Rightarrow> string reading" where
  "read_text v = (case v of JStr s \<Rightarrow> Inr s | _ \<Rightarrow> Inl True)"

definition read_optional_text :: "jval \<Rightarrow> string option reading" where
  "read_optional_text v = (case v of JStr s \<Rightarrow> Inr (Some s) | JNull \<Rightarrow> Inr None | _ \<Rightarrow> Inl True)"

definition read_number :: "jval \<Rightarrow> rat reading" where
  "read_number v = (case v of JFloat q r \<Rightarrow> Inr q | JInt i \<Rightarrow> Inr (of_int i) | _ \<Rightarrow> Inl True)"

definition read_integer :: "jval \<Rightarrow> int reading" where
  "read_integer v = (case v of JInt i \<Rightarrow> Inr i | _ \<Rightarrow> Inl True)"

definition read_time :: "py_env \<Rightarrow> jval \<Rightarrow> int option reading" where
  "read_time env v = (case v of JNull \<Rightarrow> Inr None
     | JStr s \<Rightarrow> (case pe_iso_parse env s of None \<Rightarrow> Inl False | Some t \<Rightarrow> Inr (Some t)) | _ \<Rightarrow> Inl True)"

definition read_mode :: "jval \<Rightarrow> window_mode reading" where
  "read_mode v = (case v of JStr s \<Rightarrow> (if s = ''count'' then Inr COUNT
     else if s = ''explicit'' then Inr EXPLICIT else Inl False) | _ \<Rightarrow> Inl True)"

definition read_texts :: "jval \<Rightarrow> string list reading" where
  "read_texts v = (case v of JList vs \<Rightarrow> traverse read_text vs | _ \<Rightarrow> Inl True)"

definition policy_fields :: "string list" where
  "policy_fields = [''policy_id'', ''scope_key'', ''window_mode'', ''reference_ratio'',
     ''reference_start'', ''reference_end'', ''current_start'', ''current_end'', ''minimum_reference'',
     ''minimum_current'', ''prospective_target'', ''p_threshold'', ''minimum_effect'',
     ''maximum_unseen_group_share'', ''analysis_unit'', ''grouping_mode'', ''sequential_method'',
     ''evaluator_fingerprint'', ''evaluator_dimensions'']"

definition read_policy :: "py_env \<Rightarrow> (string, jval) dict \<Rightarrow> monitor_policy reading" where
  "read_policy env d =
     bindr (require (set policy_fields \<subseteq> set (dkeys d) \<and>
        set (dkeys d) \<subseteq> insert ''cluster_registry_version_id'' (set policy_fields)) True)
     (\<lambda>_. bindr (read_text (field d ''policy_id''))
     (\<lambda>policy_id. bindr (read_text (field d ''scope_key''))
     (\<lambda>scope_key. bindr (read_mode (field d ''window_mode''))
     (\<lambda>mode. bindr (read_number (field d ''reference_ratio''))
     (\<lambda>ratio. bindr (read_time env (field d ''reference_start''))
     (\<lambda>rs. bindr (read_time env (field d ''reference_end''))
     (\<lambda>re. bindr (read_time env (field d ''current_start''))
     (\<lambda>cs. bindr (read_time env (field d ''current_end''))
     (\<lambda>ce. bindr (read_integer (field d ''minimum_reference''))
     (\<lambda>mr. bindr (read_integer (field d ''minimum_current''))
     (\<lambda>mc. bindr (read_integer (field d ''prospective_target''))
     (\<lambda>pt. bindr (read_number (field d ''p_threshold''))
     (\<lambda>pth. bindr (read_number (field d ''minimum_effect''))
     (\<lambda>eff. bindr (read_number (field d ''maximum_unseen_group_share''))
     (\<lambda>unseen. bindr (read_text (field d ''analysis_unit''))
     (\<lambda>unit. bindr (read_text (field d ''grouping_mode''))
     (\<lambda>grouping. bindr (read_text (field d ''sequential_method''))
     (\<lambda>method. bindr (read_optional_text (field d ''evaluator_fingerprint''))
     (\<lambda>evaluator. bindr (read_texts (field d ''evaluator_dimensions''))
     (\<lambda>dims. bindr (read_optional_text (field d ''cluster_registry_version_id''))
     (\<lambda>version. Inr
       \<lparr>mp_policy_id = policy_id, mp_scope_key = scope_key, mp_window_mode = mode,
        mp_reference_ratio = ratio, mp_reference_start = rs, mp_reference_end = re,
        mp_current_start = cs, mp_current_end = ce, mp_minimum_reference = mr,
        mp_minimum_current = mc, mp_prospective_target = pt, mp_p_threshold = pth,
        mp_minimum_effect = eff, mp_maximum_unseen = unseen, mp_analysis_unit = unit,
        mp_grouping_mode = grouping, mp_sequential_method = method, mp_evaluator = evaluator,
        mp_dimensions = dims, mp_registry_version = version\<rparr>)))))))))))))))))))))"

definition invalid_policy :: monitor_error where
  "invalid_policy = MonitorInvalid ''invalid monitor policy JSON''"

definition monitor_policy_from_json ::
  "py_env \<Rightarrow> (jval \<Rightarrow> monitor_error + monitor_policy) \<Rightarrow> string \<Rightarrow> monitor_error + monitor_policy" where
  "monitor_policy_from_json env untyped payload =
     (case json_loads (pe_float env) payload of
        None \<Rightarrow> Inl invalid_policy
      | Some (JDict d) \<Rightarrow>
          (case read_policy env d of
             Inr p \<Rightarrow> (if passes monitor_policy_checks p then Inr p else Inl invalid_policy)
           | Inl True \<Rightarrow> untyped (JDict d)
           | Inl False \<Rightarrow> Inl invalid_policy)
      | Some v \<Rightarrow> untyped v)"

section \<open>Snapshots\<close>

definition serialized_summary :: "py_env \<Rightarrow> cohort_summary \<Rightarrow> jval" where
  "serialized_summary env s =
     (case summary_payload s of
        JDict d \<Rightarrow> JDict (d @ [(''evidence_digest'', JStr (evidence_digest env s))]) | v \<Rightarrow> v)"

definition manifest_json :: "py_env \<Rightarrow> cohort_manifest \<Rightarrow> jval" where
  "manifest_json env m = JDict
     ([(''snapshot_id'', JStr (mf_snapshot_id m)),
       (''policy_fingerprint'', JStr (mf_policy_fingerprint m)),
       (''cutoff'', JStr (pe_iso env (mf_cutoff m))),
       (''reference_unit_ids'', JList (map JStr (mf_reference_ids m))),
       (''current_unit_ids'', JList (map JStr (mf_current_ids m))),
       (''consumed_unit_ids'', JList (map JStr (mf_consumed_ids m))),
       (''late_unit_count'', JInt (mf_late m)), (''prospective_open'', JBool (mf_open m)),
       (''comparison_index'', JInt (mf_index m)),
       (''pending_evaluator_units'', JList (map pending_payload (mf_pending m))),
       (''evidence_finalization_version'', JInt (mf_version m))]
      @ (case (mf_reference m, mf_current m) of
           (Some r, Some c) \<Rightarrow> [(''reference_summary'', serialized_summary env r),
             (''current_summary'', serialized_summary env c)]
         | _ \<Rightarrow> [])
      @ (case mf_start_at m of None \<Rightarrow> []
         | Some t \<Rightarrow> [(''prospective_start_at'', JStr (pe_iso env t))]))"

definition group_entry :: "string option \<Rightarrow> (string \<times> jval) list" where
  "group_entry g = (case g of None \<Rightarrow> [] | Some s \<Rightarrow> [(''group_id'', JStr s)])"

definition metric_comparison_json :: "py_env \<Rightarrow> metric_comparison \<Rightarrow> jval" where
  "metric_comparison_json env m = (let num = (\<lambda>q. JFloat q (pe_repr env q)) in JDict
     ([(''metric'', JStr (mc_metric m)), (''reference_n'', JInt (mc_reference_n m)),
       (''current_n'', JInt (mc_current_n m)), (''reference_value'', num (mc_reference_value m)),
       (''current_value'', num (mc_current_value m)), (''effect'', num (mc_effect m)),
       (''p_value'', num (mc_p_value m)), (''p_adjusted'', num (mc_p_adjusted m)),
       (''alert'', JBool (mc_alert m))] @ group_entry (mc_group_id m)))"

definition metric_coverage_json :: "metric_coverage \<Rightarrow> jval" where
  "metric_coverage_json v = JDict
     ([(''metric'', JStr (mv_metric v)),
       (''reference_evaluable'', JInt (mv_reference_evaluable v)),
       (''reference_unclear'', JInt (mv_reference_unclear v)),
       (''reference_missing'', JInt (mv_reference_missing v)),
       (''reference_error'', JInt (mv_reference_error v)),
       (''current_evaluable'', JInt (mv_current_evaluable v)),
       (''current_unclear'', JInt (mv_current_unclear v)),
       (''current_missing'', JInt (mv_current_missing v)),
       (''current_error'', JInt (mv_current_error v))] @ group_entry (mv_group_id v))"

definition group_coverage_json :: "group_coverage \<Rightarrow> jval" where
  "group_coverage_json g = JDict
     ([(''group_id'', JStr (gv_group_id g)), (''reference_units'', JInt (gv_reference_units g)),
       (''current_units'', JInt (gv_current_units g))]
      @ List.map_filter (\<lambda>(n, v). map_option (\<lambda>s. (n, JStr s)) v)
          [(''label'', gv_label g), (''provider'', gv_provider g), (''model'', gv_model g)])"

definition monitor_status_value :: "monitor_status \<Rightarrow> string" where
  "monitor_status_value s = (case s of ALERT \<Rightarrow> ''alert'' | NO_ALERT \<Rightarrow> ''no_alert''
     | INSUFFICIENT \<Rightarrow> ''insufficient'' | REFERENCE_STALE \<Rightarrow> ''reference_stale'')"

definition comparison_json :: "py_env \<Rightarrow> monitor_comparison \<Rightarrow> jval" where
  "comparison_json env c = (let num = (\<lambda>q. JFloat q (pe_repr env q)) in JDict
     [(''status'', JStr (monitor_status_value (cp_status c))),
      (''unseen_group_share'', num (cp_unseen c)), (''unassigned_group_share'', num (cp_unassigned c)),
      (''alpha_threshold'', num (cp_alpha c)),
      (''metrics'', JList (map (metric_comparison_json env) (cp_metrics c))),
      (''metric_coverage'', JList (map metric_coverage_json (cp_coverage c))),
      (''groups'', JList (map group_coverage_json (cp_groups c)))])"

definition max_monitor_snapshot_bytes :: nat where
  "max_monitor_snapshot_bytes = 4194304"

definition monitor_snapshot_to_json ::
  "py_env \<Rightarrow> cohort_manifest \<Rightarrow> monitor_comparison \<Rightarrow> monitor_error + string" where
  "monitor_snapshot_to_json env m c =
     (let encoded = json_dumps True (JDict [(''manifest'', manifest_json env m),
            (''comparison'', comparison_json env c)]) in
      bindr (valid (2 \<le> length encoded \<and> length encoded \<le> max_monitor_snapshot_bytes)
        ''monitor snapshot exceeds the 4 MiB storage contract'')
      (\<lambda>_. Inr encoded))"

end
