(* ===== verification/Monitor_Store.thy ===== *)
theory Monitor_Store
  imports Monitor_Codec
begin

text \<open>
  The monitor tables of the in-memory store, \<open>verdict/storage/memory.py\<close>: policies with their state,
  snapshots in the order they were saved, and the active policy of every scope.  The store keeps the
  JSON texts and compares them; every operation runs under one lock and is a step on the state.
\<close>

record monitor_store =
  ms_policies :: "(string, string \<times> string) dict"
  ms_snapshots :: "(string \<times> string, string) dict"
  ms_active :: "(string, string) dict"

definition no_monitors :: monitor_store where
  "no_monitors = \<lparr>ms_policies = [], ms_snapshots = [], ms_active = []\<rparr>"

definition same_definition :: "string \<Rightarrow> string \<Rightarrow> monitor_store \<Rightarrow> monitor_error + unit" where
  "same_definition policy_id payload st =
     valid (given (\<lambda>e. fst e = payload) (dget (ms_policies st) policy_id))
       ''monitor policy identity has a different definition''"

definition same_content :: "string \<times> string \<Rightarrow> string \<Rightarrow> monitor_store \<Rightarrow> monitor_error + unit" where
  "same_content key payload st =
     valid (given (\<lambda>s. s = payload) (dget (ms_snapshots st) key))
       ''monitor snapshot identity has different content''"

definition add_policy :: "string \<Rightarrow> string \<Rightarrow> monitor_store \<Rightarrow> monitor_store" where
  "add_policy policy_id payload st =
     st\<lparr>ms_policies := dsetdefault policy_id (payload, ''candidate'') (ms_policies st)\<rparr>"

definition add_snapshot :: "string \<times> string \<Rightarrow> string \<Rightarrow> monitor_store \<Rightarrow> monitor_store" where
  "add_snapshot key payload st = st\<lparr>ms_snapshots := dsetdefault key payload (ms_snapshots st)\<rparr>"

definition save_monitor_policy ::
  "py_env \<Rightarrow> monitor_policy \<Rightarrow> monitor_store \<Rightarrow> monitor_error + monitor_store" where
  "save_monitor_policy env p st =
     bindr (validate_monitor_analysis_unit p)
     (\<lambda>_. let payload = monitor_policy_to_json env p in
        bindr (same_definition (mp_policy_id p) payload st)
        (\<lambda>_. Inr (add_policy (mp_policy_id p) payload st)))"

definition save_monitor_candidate ::
  "py_env \<Rightarrow> monitor_policy \<Rightarrow> cohort_manifest \<Rightarrow> monitor_comparison \<Rightarrow> monitor_store \<Rightarrow>
     monitor_error + monitor_store" where
  "save_monitor_candidate env p m c st =
     bindr (validate_monitor_analysis_unit p)
     (\<lambda>_. let payload = monitor_policy_to_json env p; key = (mp_policy_id p, mf_snapshot_id m) in
        bindr (monitor_snapshot_to_json env m c)
        (\<lambda>snapshot. bindr (same_definition (mp_policy_id p) payload st)
        (\<lambda>_. bindr (valid (policy_fingerprint env p = mf_policy_fingerprint m)
            ''monitor snapshot does not match policy'')
        (\<lambda>_. bindr (same_content key snapshot st)
        (\<lambda>_. Inr (add_snapshot key snapshot (add_policy (mp_policy_id p) payload st)))))))"

type_synonym policy_reader = "string \<Rightarrow> monitor_error + monitor_policy"

definition get_monitor_policy ::
  "policy_reader \<Rightarrow> string \<Rightarrow> monitor_store \<Rightarrow> monitor_error + (monitor_policy \<times> string) option" where
  "get_monitor_policy read policy_id st =
     (case dget (ms_policies st) policy_id of
        None \<Rightarrow> Inr None
      | Some (payload, state) \<Rightarrow> bindr (read payload) (\<lambda>p. Inr (Some (p, state))))"

definition get_active_monitor_policy ::
  "policy_reader \<Rightarrow> string \<Rightarrow> monitor_store \<Rightarrow> monitor_error + monitor_policy option" where
  "get_active_monitor_policy read scope st =
     (case dget (ms_active st) scope of
        None \<Rightarrow> Inr None
      | Some policy_id \<Rightarrow> (if policy_id = [] then Inr None
          else case dget (ms_policies st) policy_id of
            None \<Rightarrow> Inr None
          | Some (payload, _) \<Rightarrow> bindr (read payload) (\<lambda>p. Inr (Some p))))"

fun latest_candidate ::
  "policy_reader \<Rightarrow> string \<Rightarrow> string set \<Rightarrow> (string \<times> string) list \<Rightarrow> monitor_error + monitor_policy option" where
  "latest_candidate read scope with_snapshots [] = Inr None"
| "latest_candidate read scope with_snapshots ((payload, state) # rest) =
     bindr (read payload)
     (\<lambda>p. if state = ''candidate'' \<and> mp_scope_key p = scope \<and> mp_policy_id p \<in> with_snapshots
        then Inr (Some p) else latest_candidate read scope with_snapshots rest)"

definition get_latest_monitor_candidate ::
  "policy_reader \<Rightarrow> string \<Rightarrow> monitor_store \<Rightarrow> monitor_error + monitor_policy option" where
  "get_latest_monitor_candidate read scope st =
     latest_candidate read scope (set (map fst (dkeys (ms_snapshots st)))) (rev (map snd (ms_policies st)))"

definition retire_entry ::
  "policy_reader \<Rightarrow> string \<Rightarrow> string \<Rightarrow> string \<times> string \<times> string \<Rightarrow> monitor_error + string \<times> string \<times> string" where
  "retire_entry read scope policy_id e =
     (let (other_id, payload, state) = e in
      bindr (read payload)
      (\<lambda>p. Inr (if other_id \<noteq> policy_id \<and> mp_scope_key p = scope \<and> state \<in> {''active'', ''candidate''}
         then (other_id, payload, ''retired'') else e)))"

definition activate_monitor_policy ::
  "policy_reader \<Rightarrow> string \<Rightarrow> string \<Rightarrow> string option \<Rightarrow> monitor_store \<Rightarrow>
     monitor_error + monitor_policy \<times> monitor_store" where
  "activate_monitor_policy read scope policy_id expected st =
     bindr (valid (dget (ms_active st) scope = expected) ''active policy changed'')
     (\<lambda>_. case dget (ms_policies st) policy_id of
        None \<Rightarrow> Inl (MonitorInvalid ''unknown monitor policy'')
      | Some (payload, _) \<Rightarrow>
          bindr (read payload)
          (\<lambda>target. bindr (valid (mp_scope_key target = scope) ''unknown monitor policy'')
          (\<lambda>_. bindr (validate_monitor_analysis_unit target)
          (\<lambda>_. bindr (traverse (retire_entry read scope policy_id) (ms_policies st))
          (\<lambda>policies. Inr (target, st\<lparr>ms_policies := dset policy_id (payload, ''active'') policies,
              ms_active := dset scope policy_id (ms_active st)\<rparr>))))))"

definition save_monitor_snapshot ::
  "py_env \<Rightarrow> policy_reader \<Rightarrow> string \<Rightarrow> cohort_manifest \<Rightarrow> monitor_comparison \<Rightarrow> monitor_store \<Rightarrow>
     monitor_error + monitor_store" where
  "save_monitor_snapshot env read policy_id m c st =
     bindr (monitor_snapshot_to_json env m c)
     (\<lambda>payload. case dget (ms_policies st) policy_id of
        None \<Rightarrow> Inl (MonitorInvalid ''unknown policy'')
      | Some (stored, _) \<Rightarrow>
          bindr (read stored)
          (\<lambda>p. bindr (validate_monitor_analysis_unit p)
          (\<lambda>_. bindr (valid (policy_fingerprint env p = mf_policy_fingerprint m)
              ''monitor snapshot does not match policy'')
          (\<lambda>_. bindr (same_content (policy_id, mf_snapshot_id m) payload st)
          (\<lambda>_. Inr (add_snapshot (policy_id, mf_snapshot_id m) payload st))))))"

definition snapshot_heads :: "string \<Rightarrow> monitor_store \<Rightarrow> string list" where
  "snapshot_heads policy_id st = map snd (filter (\<lambda>k. fst k = policy_id) (dkeys (ms_snapshots st)))"

definition save_monitor_successor ::
  "py_env \<Rightarrow> policy_reader \<Rightarrow> string \<Rightarrow> string \<Rightarrow> cohort_manifest \<Rightarrow> monitor_comparison \<Rightarrow> string \<Rightarrow>
     monitor_store \<Rightarrow> monitor_error + monitor_store" where
  "save_monitor_successor env read policy_id expected m c expected_state st =
     bindr (valid (expected_state \<in> {''active'', ''candidate''}) ''monitor expected state is invalid'')
     (\<lambda>_. case dget (ms_policies st) policy_id of
        None \<Rightarrow> Inl (MonitorStateConflict expected_state)
      | Some (stored, state) \<Rightarrow>
          bindr (require (state = expected_state) (MonitorStateConflict expected_state))
          (\<lambda>_. bindr (read stored)
          (\<lambda>p. bindr (require (\<not> (expected_state = ''active'' \<and>
                dget (ms_active st) (mp_scope_key p) \<noteq> Some policy_id))
              (MonitorStateConflict ''active''))
          (\<lambda>_. let heads = snapshot_heads policy_id st in
             bindr (require (heads \<noteq> [] \<and> last heads = expected)
               (MonitorStateConflict ''monitor snapshot changed''))
             (\<lambda>_. save_monitor_snapshot env read policy_id m c st)))))"

text \<open>The texts of the snapshots of a policy, oldest first, and the readers that choose among them.\<close>

definition snapshot_rows :: "string \<Rightarrow> monitor_store \<Rightarrow> string list" where
  "snapshot_rows policy_id st = map snd (filter (\<lambda>e. fst (fst e) = policy_id) (ms_snapshots st))"

type_synonym snapshot_reader = "string \<Rightarrow> monitor_error + cohort_manifest \<times> monitor_comparison"

definition read_row ::
  "snapshot_reader \<Rightarrow> string option \<Rightarrow> monitor_error + (cohort_manifest \<times> monitor_comparison) option" where
  "read_row read row = (case row of None \<Rightarrow> Inr None | Some t \<Rightarrow> bindr (read t) (\<lambda>s. Inr (Some s)))"

definition get_latest_monitor_snapshot ::
  "snapshot_reader \<Rightarrow> string \<Rightarrow> monitor_store \<Rightarrow>
     monitor_error + (cohort_manifest \<times> monitor_comparison) option" where
  "get_latest_monitor_snapshot read policy_id st =
     (let rows = snapshot_rows policy_id st in
      read_row read (if rows = [] then None else Some (last rows)))"

definition get_initial_monitor_snapshot ::
  "snapshot_reader \<Rightarrow> string \<Rightarrow> monitor_store \<Rightarrow>
     monitor_error + (cohort_manifest \<times> monitor_comparison) option" where
  "get_initial_monitor_snapshot read policy_id st =
     (let rows = snapshot_rows policy_id st in
      read_row read (if rows = [] then None else Some (hd rows)))"

fun first_alert ::
  "snapshot_reader \<Rightarrow> string list \<Rightarrow> monitor_error + (cohort_manifest \<times> monitor_comparison) option" where
  "first_alert read [] = Inr None"
| "first_alert read (t # ts) =
     bindr (read t) (\<lambda>s. if cp_status (snd s) = ALERT then Inr (Some s) else first_alert read ts)"

definition get_latest_monitor_alert ::
  "snapshot_reader \<Rightarrow> string \<Rightarrow> monitor_store \<Rightarrow>
     monitor_error + (cohort_manifest \<times> monitor_comparison) option" where
  "get_latest_monitor_alert read policy_id st = first_alert read (rev (snapshot_rows policy_id st))"

end
