(* ===== verification/Monitor_Codec_Laws.thy ===== *)
theory Monitor_Codec_Laws
  imports Monitor_Codec Shipper_Codec
begin

text \<open>A stored policy is read back as the policy that was saved.\<close>

definition number_storable :: "py_env \<Rightarrow> rat \<Rightarrow> bool" where
  "number_storable env q \<longleftrightarrow>
     printable (plain_loader (pe_float env)) (JFloat q (pe_repr env q)) \<and> is_ascii (pe_repr env q)"

definition count_storable :: "int \<Rightarrow> bool" where
  "count_storable i \<longleftrightarrow> length (dec_of_nat (nat \<bar>i\<bar>)) \<le> 4300"

text \<open>A policy whose texts are ASCII and whose numbers the JSON reader accepts.\<close>

definition policy_storable :: "py_env \<Rightarrow> monitor_policy \<Rightarrow> bool" where
  "policy_storable env p \<longleftrightarrow> passes monitor_policy_checks p \<and>
     list_all (number_storable env) [mp_reference_ratio p, mp_p_threshold p, mp_minimum_effect p,
       mp_maximum_unseen p] \<and>
     list_all count_storable [mp_minimum_reference p, mp_minimum_current p, mp_prospective_target p] \<and>
     list_all is_ascii ([mp_policy_id p, mp_scope_key p, mp_analysis_unit p, mp_grouping_mode p,
       mp_sequential_method p] @ mp_dimensions p) \<and>
     given is_ascii (mp_evaluator p) \<and> given is_ascii (mp_registry_version p) \<and>
     list_all (given (\<lambda>t. is_ascii (pe_iso env t)))
       [mp_reference_start p, mp_reference_end p, mp_current_start p, mp_current_end p]"

lemma policy_json_printable:
  assumes "policy_storable env p"
  shows "printable (plain_loader (pe_float env)) (JDict (policy_json env p))" "ascii_json (JDict (policy_json env p))"
proof -
  have opt: "printable ld (opt_json f v)" if "\<And>x. printable ld (f x)" for ld and f :: "'a \<Rightarrow> jval" and v
    using that by (cases v) (simp_all add: opt_json_def)
  have asc: "given P v \<Longrightarrow> ascii_json (opt_json (\<lambda>x. JStr (f x)) v)" if "\<And>x. P x \<Longrightarrow> is_ascii (f x)"
    for f :: "'a \<Rightarrow> string" and v P
    using that by (cases v) (simp_all add: opt_json_def)
  show "printable (plain_loader (pe_float env)) (JDict (policy_json env p))"
    using assms
    by (cases "mp_registry_version p")
       (auto simp: policy_json_def Let_def policy_storable_def number_storable_def count_storable_def
         list_all_iff intro!: opt)
  show "ascii_json (JDict (policy_json env p))"
    using assms
    by (cases "mp_registry_version p"; cases "mp_window_mode p")
       (auto simp: policy_json_def Let_def policy_storable_def number_storable_def
         list_all_iff window_mode_value_def is_ascii_def [of "''count''"] is_ascii_def [of "''explicit''"]
         intro!: asc)
qed

lemma read_time_back: "py_env_ok env \<Longrightarrow> read_time env (sort_keys (opt_json (\<lambda>t. JStr (pe_iso env t)) v)) = Inr v"
  by (cases v) (simp_all add: read_time_def opt_json_def py_env_ok_def)

lemma read_texts_back: "read_texts (sort_keys (JList (map JStr xs))) = Inr xs"
proof -
  have "traverse read_text (map JStr xs) = Inr xs"
    by (induction xs) (simp_all add: read_text_def)
  then show ?thesis by (simp add: read_texts_def comp_def)
qed

lemma read_mode_back: "read_mode (JStr (window_mode_value m)) = Inr m"
  by (cases m) (simp_all add: read_mode_def window_mode_value_def)

lemma read_optional_back: "read_optional_text (sort_keys (opt_json JStr v)) = Inr v"
  by (cases v) (simp_all add: read_optional_text_def opt_json_def)

lemma read_scalar_back:
  "read_text (JStr s) = Inr s" "read_integer (JInt i) = Inr i" "read_number (JFloat q r) = Inr q"
  by (simp_all add: read_text_def read_integer_def read_number_def)

definition policy_entries :: "py_env \<Rightarrow> monitor_policy \<Rightarrow> (string, jval) dict" where
  "policy_entries env p = policy_json env (p\<lparr>mp_registry_version := None\<rparr>)"

lemma policy_json_entries:
  "policy_json env p = policy_entries env p @ (case mp_registry_version p of None \<Rightarrow> []
     | Some v \<Rightarrow> [(''cluster_registry_version_id'', JStr v)])"
  by (simp add: policy_json_def policy_entries_def Let_def)

lemma dkeys_policy_entries: "dkeys (policy_entries env p) = policy_fields"
  by (simp add: policy_entries_def policy_json_def policy_fields_def Let_def)

lemma policy_fields_distinct: "distinct policy_fields" "''cluster_registry_version_id'' \<notin> set policy_fields"
  by (simp_all add: policy_fields_def)

lemma policy_json_dwf: "dwf (policy_json env p)"
  using policy_fields_distinct by (auto simp: policy_json_entries dkeys_policy_entries split: option.split)

lemma policy_field:
  assumes d: "\<And>k. dget d k = map_option sort_keys (dget (policy_json env p) k)"
    and e: "dget (policy_entries env p) k = Some v"
  shows "field d k = sort_keys v"
  using e by (simp add: field_def d policy_json_entries map_add_def)

lemma read_policy_back:
  assumes env: "py_env_ok env"
    and d: "\<And>k. dget d k = map_option sort_keys (dget (policy_json env p) k)"
    and k: "set (dkeys d) = set (dkeys (policy_json env p))"
  shows "read_policy env d = Inr p"
proof -
  let ?time = "opt_json (\<lambda>t. JStr (pe_iso env t))"
  have f:
    "field d ''policy_id'' = sort_keys (JStr (mp_policy_id p))"
    "field d ''scope_key'' = sort_keys (JStr (mp_scope_key p))"
    "field d ''window_mode'' = sort_keys (JStr (window_mode_value (mp_window_mode p)))"
    "field d ''reference_ratio'' = sort_keys (JFloat (mp_reference_ratio p) (pe_repr env (mp_reference_ratio p)))"
    "field d ''reference_start'' = sort_keys (?time (mp_reference_start p))"
    "field d ''reference_end'' = sort_keys (?time (mp_reference_end p))"
    "field d ''current_start'' = sort_keys (?time (mp_current_start p))"
    "field d ''current_end'' = sort_keys (?time (mp_current_end p))"
    "field d ''minimum_reference'' = sort_keys (JInt (mp_minimum_reference p))"
    "field d ''minimum_current'' = sort_keys (JInt (mp_minimum_current p))"
    "field d ''prospective_target'' = sort_keys (JInt (mp_prospective_target p))"
    "field d ''p_threshold'' = sort_keys (JFloat (mp_p_threshold p) (pe_repr env (mp_p_threshold p)))"
    "field d ''minimum_effect'' = sort_keys (JFloat (mp_minimum_effect p) (pe_repr env (mp_minimum_effect p)))"
    "field d ''maximum_unseen_group_share'' = sort_keys (JFloat (mp_maximum_unseen p) (pe_repr env (mp_maximum_unseen p)))"
    "field d ''analysis_unit'' = sort_keys (JStr (mp_analysis_unit p))"
    "field d ''grouping_mode'' = sort_keys (JStr (mp_grouping_mode p))"
    "field d ''sequential_method'' = sort_keys (JStr (mp_sequential_method p))"
    "field d ''evaluator_fingerprint'' = sort_keys (opt_json JStr (mp_evaluator p))"
    "field d ''evaluator_dimensions'' = sort_keys (JList (map JStr (mp_dimensions p)))"
    by (rule policy_field [OF d], simp add: policy_entries_def policy_json_def Let_def)+
  have keys: "set policy_fields \<subseteq> set (dkeys d) \<and>
      set (dkeys d) \<subseteq> insert ''cluster_registry_version_id'' (set policy_fields)"
    unfolding k policy_json_entries map_append set_append dkeys_policy_entries
    by (auto split: option.splits)
  then have req: "require (set policy_fields \<subseteq> set (dkeys d) \<and>
      set (dkeys d) \<subseteq> insert ''cluster_registry_version_id'' (set policy_fields)) True = Inr ()"
    unfolding require_def by (rule if_P)
  have "''cluster_registry_version_id'' \<notin> set (dkeys (policy_entries env p))"
    unfolding dkeys_policy_entries by (rule policy_fields_distinct)
  then have none: "dget (policy_entries env p) ''cluster_registry_version_id'' = None"
    by (simp only: map_of_eq_None_iff set_map) simp
  have v: "field d ''cluster_registry_version_id'' = sort_keys (opt_json JStr (mp_registry_version p))"
    by (cases "mp_registry_version p") (simp_all add: field_def d policy_json_entries opt_json_def none map_add_def)
  show ?thesis
    unfolding read_policy_def f v read_time_back [OF env] read_texts_back read_optional_back req
      sort_keys.simps(3-5) read_mode_back read_scalar_back bindr_simps
    by simp
qed

lemma policy_reads_back:
  assumes "py_env_ok env" "policy_storable env p"
  shows "monitor_policy_from_json env untyped (monitor_policy_to_json env p) = Inr p"
proof -
  obtain d where d: "sort_keys (JDict (policy_json env p)) = JDict d"
    "set (dkeys d) = set (dkeys (policy_json env p))"
    "\<And>k. dget d k = map_option sort_keys (dget (policy_json env p) k)"
    using sorted_lookup [OF policy_json_dwf [of env p]] by auto
  have "json_loads (pe_float env) (monitor_policy_to_json env p) = Some (JDict d)"
    unfolding monitor_policy_to_json_def d(1) [symmetric]
    by (rule json_loads_dumps [OF policy_json_printable [OF assms(2)]])
  moreover have "read_policy env d = Inr p" by (rule read_policy_back [OF assms(1) d(3,2)])
  ultimately show ?thesis
    using assms(2) by (simp add: monitor_policy_from_json_def policy_storable_def)
qed

end
