(* ===== verification/Monitor_Store_Laws.thy ===== *)
theory Monitor_Store_Laws
  imports Monitor_Store Monitor_Codec_Laws
begin

text \<open>
  The invariant of the monitor tables: every stored text is the definition of the policy it is filed
  under, a scope has at most one active policy, the pointer of the scope names it, and every snapshot
  belongs to a stored policy.  The store relies on one law of the codec, that a saved definition reads
  back; the locale \<open>policy_codec\<close> states it and the JSON codec provides it.
\<close>

section \<open>Runs of the store\<close>

inductive store_step ::
  "py_env \<Rightarrow> policy_reader \<Rightarrow> (monitor_policy \<Rightarrow> bool) \<Rightarrow> monitor_store \<Rightarrow> monitor_store \<Rightarrow> bool"
  for env read ok where
  policy: "ok p \<Longrightarrow> save_monitor_policy env p st = Inr st' \<Longrightarrow> store_step env read ok st st'"
| candidate: "ok p \<Longrightarrow> save_monitor_candidate env p m c st = Inr st' \<Longrightarrow> store_step env read ok st st'"
| activate: "activate_monitor_policy read scope i expected st = Inr (p, st') \<Longrightarrow>
    store_step env read ok st st'"
| snapshot: "save_monitor_snapshot env read i m c st = Inr st' \<Longrightarrow> store_step env read ok st st'"
| successor: "save_monitor_successor env read i expected m c s st = Inr st' \<Longrightarrow>
    store_step env read ok st st'"

inductive_cases store_stepE: "store_step env read ok st st'"

abbreviation store_run :: "py_env \<Rightarrow> policy_reader \<Rightarrow> (monitor_policy \<Rightarrow> bool) \<Rightarrow> monitor_store \<Rightarrow> monitor_store \<Rightarrow> bool" where
  "store_run env read ok \<equiv> (store_step env read ok)\<^sup>*\<^sup>*"

section \<open>The invariant\<close>

definition policy_at :: "py_env \<Rightarrow> (monitor_policy \<Rightarrow> bool) \<Rightarrow> monitor_store \<Rightarrow> string \<Rightarrow> monitor_policy \<Rightarrow> string \<Rightarrow> bool" where
  "policy_at env ok st i p s \<longleftrightarrow> dget (ms_policies st) i = Some (monitor_policy_to_json env p, s) \<and>
     ok p \<and> mp_policy_id p = i \<and> mp_analysis_unit p = ''trace''"

definition policies_inv :: "py_env \<Rightarrow> (monitor_policy \<Rightarrow> bool) \<Rightarrow> monitor_store \<Rightarrow> bool" where
  "policies_inv env ok st \<longleftrightarrow> dwf (ms_policies st) \<and>
     (\<forall>i \<in> set (dkeys (ms_policies st)). \<exists>p s. policy_at env ok st i p s \<and>
        (s = ''active'' \<longrightarrow> dget (ms_active st) (mp_scope_key p) = Some i))"

definition active_inv :: "py_env \<Rightarrow> (monitor_policy \<Rightarrow> bool) \<Rightarrow> monitor_store \<Rightarrow> bool" where
  "active_inv env ok st \<longleftrightarrow> (\<forall>scope i. dget (ms_active st) scope = Some i \<longrightarrow>
     (\<exists>p. policy_at env ok st i p ''active'' \<and> mp_scope_key p = scope))"

definition snapshots_inv :: "py_env \<Rightarrow> (monitor_policy \<Rightarrow> bool) \<Rightarrow> monitor_store \<Rightarrow> bool" where
  "snapshots_inv env ok st \<longleftrightarrow> dwf (ms_snapshots st) \<and>
     (\<forall>i sid body. dget (ms_snapshots st) (i, sid) = Some body \<longrightarrow>
        (\<exists>p s m c. policy_at env ok st i p s \<and> monitor_snapshot_to_json env m c = Inr body \<and>
           mf_snapshot_id m = sid \<and> mf_policy_fingerprint m = policy_fingerprint env p))"

definition store_inv :: "py_env \<Rightarrow> (monitor_policy \<Rightarrow> bool) \<Rightarrow> monitor_store \<Rightarrow> bool" where
  "store_inv env ok st \<longleftrightarrow> policies_inv env ok st \<and> active_inv env ok st \<and> snapshots_inv env ok st"

lemma store_inv_empty: "store_inv env ok no_monitors"
  by (simp add: store_inv_def policies_inv_def active_inv_def snapshots_inv_def no_monitors_def)

section \<open>The contract of the codec\<close>

locale policy_codec =
  fixes env :: py_env and read :: policy_reader and ok :: "monitor_policy \<Rightarrow> bool"
  assumes reads_back: "ok p \<Longrightarrow> read (monitor_policy_to_json env p) = Inr p"
begin

lemma policy_at_unique: "policy_at env ok st i p s \<Longrightarrow> policy_at env ok st i q t \<Longrightarrow> p = q \<and> s = t"
  using reads_back by (auto simp: policy_at_def) (metis sum.inject(2))

lemma policy_at_read: "policy_at env ok st i p s \<Longrightarrow>
    dget (ms_policies st) i = Some (monitor_policy_to_json env p, s) \<and>
    read (monitor_policy_to_json env p) = Inr p"
  by (simp add: policy_at_def reads_back)

lemma stored_policy:
  assumes "policies_inv env ok st" "dget (ms_policies st) i = Some e"
  obtains p s where "policy_at env ok st i p s" "e = (monitor_policy_to_json env p, s)"
    "s = ''active'' \<longrightarrow> dget (ms_active st) (mp_scope_key p) = Some i"
proof -
  have "i \<in> set (dkeys (ms_policies st))"
    using assms(2) by (metis domI dom_map_of_conv_image_fst set_map)
  then obtain p s where "policy_at env ok st i p s"
    "s = ''active'' \<longrightarrow> dget (ms_active st) (mp_scope_key p) = Some i"
    using assms(1) by (auto simp: policies_inv_def simp del: set_map)
  moreover from this have "e = (monitor_policy_to_json env p, s)"
    using assms(2) by (simp add: policy_at_def)
  ultimately show ?thesis using that by blast
qed

text \<open>What a step leaves in place: the definitions and the snapshots, with their texts.\<close>

lemma add_policy_at:
  assumes "policy_at env ok st i p s"
  shows "policy_at env ok (add_policy j payload st) i p s"
  using assms by (auto simp: policy_at_def add_policy_def dict_simps)

lemma add_policy_inv:
  assumes inv: "store_inv env ok st" and p: "ok p" "mp_analysis_unit p = ''trace''"
    and same: "same_definition (mp_policy_id p) (monitor_policy_to_json env p) st = Inr u"
  shows "store_inv env ok (add_policy (mp_policy_id p) (monitor_policy_to_json env p) st)"
    "\<exists>s. policy_at env ok (add_policy (mp_policy_id p) (monitor_policy_to_json env p) st) (mp_policy_id p) p s"
proof -
  let ?i = "mp_policy_id p" and ?st = "add_policy (mp_policy_id p) (monitor_policy_to_json env p) st"
  have pi: "policies_inv env ok st" using inv by (simp add: store_inv_def)
  show new: "\<exists>s. policy_at env ok ?st ?i p s"
  proof (cases "dget (ms_policies st) ?i")
    case None
    then show ?thesis using p by (simp add: policy_at_def add_policy_def dict_simps)
  next
    case (Some e)
    then obtain q s where "e = (monitor_policy_to_json env q, s)" using stored_policy [OF pi] by metis
    then show ?thesis using p same Some
      by (auto simp: policy_at_def add_policy_def dict_simps same_definition_def)
  qed
  have act: "ms_active ?st = ms_active st" "ms_snapshots ?st = ms_snapshots st"
    by (simp_all add: add_policy_def)
  have "\<exists>q s. policy_at env ok ?st i q s \<and> (s = ''active'' \<longrightarrow> dget (ms_active ?st) (mp_scope_key q) = Some i)"
    if i: "i \<in> set (dkeys (ms_policies ?st))" for i
  proof (cases "dget (ms_policies st) i")
    case None
    then have "i \<notin> set (dkeys (ms_policies st))" by (simp add: map_of_eq_None_iff)
    then have "i = ?i" using i
      by (auto simp: add_policy_def dsetdefault_def dkeys_dset simp del: set_map split: if_splits)
    then have "policy_at env ok ?st i p ''candidate''"
      using None p by (simp add: policy_at_def add_policy_def dict_simps)
    then show ?thesis by fastforce
  next
    case (Some e)
    then show ?thesis using stored_policy [OF pi Some] add_policy_at unfolding act by metis
  qed
  then have "policies_inv env ok ?st" using pi by (auto simp: policies_inv_def add_policy_def)
  moreover have "active_inv env ok ?st"
    using inv add_policy_at unfolding store_inv_def active_inv_def act by metis
  moreover have "snapshots_inv env ok ?st"
    using inv add_policy_at unfolding store_inv_def snapshots_inv_def act by meson
  ultimately show "store_inv env ok ?st" by (simp add: store_inv_def)
qed

lemma add_snapshot_inv:
  assumes inv: "store_inv env ok st" and p: "policy_at env ok st i p s"
    and m: "monitor_snapshot_to_json env m c = Inr body" "mf_policy_fingerprint m = policy_fingerprint env p"
  shows "store_inv env ok (add_snapshot (i, mf_snapshot_id m) body st)"
proof -
  let ?st = "add_snapshot (i, mf_snapshot_id m) body st"
  have at: "policy_at env ok ?st = policy_at env ok st"
    by (auto simp: policy_at_def add_snapshot_def fun_eq_iff)
  have "snapshots_inv env ok ?st"
    using inv p m unfolding store_inv_def snapshots_inv_def at
    by (auto simp: add_snapshot_def dict_simps simp del: map_of_eq_Some_iff split: if_splits)
  moreover have "policies_inv env ok ?st" "active_inv env ok ?st"
    using inv unfolding store_inv_def policies_inv_def active_inv_def at by (simp_all add: add_snapshot_def)
  ultimately show ?thesis by (simp add: store_inv_def)
qed

text \<open>Activation: the other active and candidate policies of the scope are retired.\<close>

definition after_activation :: "string \<Rightarrow> string \<Rightarrow> string \<Rightarrow> monitor_policy \<Rightarrow> string \<Rightarrow> string" where
  "after_activation scope i j q s =
     (if j = i then ''active'' else if mp_scope_key q = scope \<and> s \<in> {''active'', ''candidate''}
      then ''retired'' else s)"

lemma retire_list:
  assumes "traverse (retire_entry read scope i) es = Inr ps"
    and "\<forall>(j, payload, s) \<in> set es. \<exists>q. payload = monitor_policy_to_json env q \<and> read payload = Inr q"
  shows "dkeys ps = dkeys es \<and> (\<forall>j q s. dget es j = Some (monitor_policy_to_json env q, s) \<longrightarrow>
     read (monitor_policy_to_json env q) = Inr q \<longrightarrow> j \<noteq> i \<longrightarrow>
     dget ps j = Some (monitor_policy_to_json env q, after_activation scope i j q s))"
  using assms
proof (induction es arbitrary: ps)
  case Nil
  then show ?case by simp
next
  case (Cons e es)
  obtain j payload s where e: "e = (j, payload, s)" by (metis prod_cases3)
  then obtain q where q: "payload = monitor_policy_to_json env q" "read payload = Inr q"
    using Cons.prems(2) by auto
  have "retire_entry read scope i e = Inr (j, payload, if j \<noteq> i \<and> mp_scope_key q = scope \<and>
      s \<in> {''active'', ''candidate''} then ''retired'' else s)"
    by (auto simp: e retire_entry_def q(2))
  with Cons.prems(1) obtain qs where qs: "traverse (retire_entry read scope i) es = Inr qs"
    "ps = (j, payload, if j \<noteq> i \<and> mp_scope_key q = scope \<and> s \<in> {''active'', ''candidate''}
       then ''retired'' else s) # qs"
    by (auto simp: bindr_eq_Inr)
  have ih: "dkeys qs = dkeys es" "\<And>k q s. dget es k = Some (monitor_policy_to_json env q, s) \<Longrightarrow>
     read (monitor_policy_to_json env q) = Inr q \<Longrightarrow> k \<noteq> i \<Longrightarrow>
     dget qs k = Some (monitor_policy_to_json env q, after_activation scope i k q s)"
    using Cons.IH [OF qs(1)] Cons.prems(2) by auto
  show ?case
  proof (intro conjI allI impI)
    show "dkeys ps = dkeys (e # es)" by (simp add: qs(2) e ih(1))
    fix k q' s'
    assume k: "dget (e # es) k = Some (monitor_policy_to_json env q', s')"
      "read (monitor_policy_to_json env q') = Inr q'" "k \<noteq> i"
    show "dget ps k = Some (monitor_policy_to_json env q', after_activation scope i k q' s')"
    proof (cases "k = j")
      case True
      then have "payload = monitor_policy_to_json env q'" "s' = s" using k(1) by (simp_all add: e)
      moreover from this have "q' = q" using k(2) q(2) by simp
      ultimately show ?thesis using True k(3) by (simp add: qs(2) after_activation_def)
    next
      case False
      then show ?thesis using k ih(2) by (simp add: qs(2) e)
    qed
  qed
qed

lemma activate_inv:
  assumes inv: "store_inv env ok st" and a: "activate_monitor_policy read scope i expected st = Inr (p, st')"
  shows "store_inv env ok st'" "policy_at env ok st' i p ''active''" "mp_scope_key p = scope"
    "policy_at env ok st j q s \<Longrightarrow> policy_at env ok st' j q (after_activation scope i j q s)"
proof -
  have pi: "policies_inv env ok st" using inv by (simp add: store_inv_def)
  from a obtain payload s0 ps where a1: "dget (ms_policies st) i = Some (payload, s0)" "read payload = Inr p"
    "mp_scope_key p = scope" "traverse (retire_entry read scope i) (ms_policies st) = Inr ps"
    "st' = st\<lparr>ms_policies := dset i (payload, ''active'') ps, ms_active := dset scope i (ms_active st)\<rparr>"
    by (auto simp: activate_monitor_policy_def bindr_eq_Inr split: option.splits)
  show sc: "mp_scope_key p = scope" by (rule a1(3))
  obtain s1 where p0: "policy_at env ok st i p s1"
    using stored_policy [OF pi a1(1)] policy_at_read a1(2) by (metis fst_conv sum.inject(2))
  then have payload: "payload = monitor_policy_to_json env p" using a1(1) by (simp add: policy_at_def)
  have entries: "\<forall>(j, payload, s) \<in> set (ms_policies st).
      \<exists>q. payload = monitor_policy_to_json env q \<and> read payload = Inr q"
  proof clarify
    fix j t s
    assume "(j, t, s) \<in> set (ms_policies st)"
    then have "dget (ms_policies st) j = Some (t, s)"
      using pi by (simp add: policies_inv_def)
    then show "\<exists>q. t = monitor_policy_to_json env q \<and> read t = Inr q"
      using stored_policy [OF pi] policy_at_read by (metis fst_conv)
  qed
  note r = retire_list [OF a1(4) entries]
  show at: "policy_at env ok st' j q (after_activation scope i j q s)" if "policy_at env ok st j q s" for j q s
    using that policy_at_read [OF that] r p0 policy_at_unique [OF p0] payload
    by (cases "j = i") (auto simp: policy_at_def a1(5) dict_simps after_activation_def)
  show "policy_at env ok st' i p ''active''" using at [OF p0] by (simp add: after_activation_def)
  have keys: "set (dkeys (ms_policies st')) = set (dkeys (ms_policies st))"
    using r a1(1) by (auto simp: a1(5) dkeys_dset simp del: set_map)
      (metis domI dom_map_of_conv_image_fst set_map)+
  have "\<exists>q s. policy_at env ok st' j q s \<and> (s = ''active'' \<longrightarrow> dget (ms_active st') (mp_scope_key q) = Some j)"
    if j: "j \<in> set (dkeys (ms_policies st'))" for j
  proof -
    obtain q s where q: "policy_at env ok st j q s" "s = ''active'' \<longrightarrow> dget (ms_active st) (mp_scope_key q) = Some j"
      using j pi unfolding keys policies_inv_def by blast
    have "after_activation scope i j q s = ''active'' \<longrightarrow> dget (ms_active st') (mp_scope_key q) = Some j"
      using q(2) policy_at_unique [OF p0] q(1) sc
      by (auto simp: after_activation_def a1(5) dict_simps split: if_splits)
    then show ?thesis using at [OF q(1)] by blast
  qed
  moreover have "dwf (ms_policies st')" using r pi by (simp add: a1(5) policies_inv_def distinct_update)
  ultimately have "policies_inv env ok st'" by (simp add: policies_inv_def)
  moreover have "active_inv env ok st'"
    unfolding active_inv_def
  proof (intro allI impI)
    fix sc' k
    assume k: "dget (ms_active st') sc' = Some k"
    show "\<exists>p. policy_at env ok st' k p ''active'' \<and> mp_scope_key p = sc'"
    proof (cases "sc' = scope")
      case True
      then have "k = i" using k by (simp add: a1(5) dict_simps)
      then show ?thesis using at [OF p0] sc True by (auto simp: after_activation_def)
    next
      case False
      then have "dget (ms_active st) sc' = Some k" using k by (simp add: a1(5) dict_simps)
      then obtain q where q: "policy_at env ok st k q ''active''" "mp_scope_key q = sc'"
        using inv by (auto simp: store_inv_def active_inv_def)
      then show ?thesis using at [OF q(1)] False by (auto simp: after_activation_def split: if_splits)
    qed
  qed
  moreover have "snapshots_inv env ok st'"
    using inv at unfolding store_inv_def snapshots_inv_def a1(5) by (auto, metis)
  ultimately show "store_inv env ok st'" by (simp add: store_inv_def)
qed

text \<open>Every operation keeps the invariant, every definition and every snapshot.\<close>

definition keeps_history :: "monitor_store \<Rightarrow> monitor_store \<Rightarrow> bool" where
  "keeps_history st st' \<longleftrightarrow>
     (\<forall>i p s. policy_at env ok st i p s \<longrightarrow> (\<exists>s'. policy_at env ok st' i p s')) \<and>
     (\<forall>k body. dget (ms_snapshots st) k = Some body \<longrightarrow> dget (ms_snapshots st') k = Some body) \<and>
     prefix (dkeys (ms_snapshots st)) (dkeys (ms_snapshots st'))"

lemma keeps_history_refl: "keeps_history st st"
  by (auto simp: keeps_history_def)

lemma keeps_history_trans: "keeps_history st st' \<Longrightarrow> keeps_history st' st'' \<Longrightarrow> keeps_history st st''"
  unfolding keeps_history_def by (meson prefix_order.trans)

lemma add_policy_keeps: "keeps_history st (add_policy j payload st)"
proof -
  have "ms_snapshots (add_policy j payload st) = ms_snapshots st" by (simp add: add_policy_def)
  moreover have "\<exists>s'. policy_at env ok (add_policy j payload st) i p s'" if "policy_at env ok st i p s" for i p s
    using add_policy_at [OF that] by blast
  ultimately show ?thesis unfolding keeps_history_def by simp
qed

lemma add_snapshot_keeps: "keeps_history st (add_snapshot k payload st)"
proof -
  have "policy_at env ok (add_snapshot k payload st) = policy_at env ok st"
    by (auto simp: policy_at_def add_snapshot_def fun_eq_iff)
  then show ?thesis
    by (auto simp: keeps_history_def add_snapshot_def dict_simps dsetdefault_def dkeys_dset
      simp del: set_map map_of_eq_Some_iff)
qed

lemma save_snapshot_step:
  assumes inv: "store_inv env ok st" and s: "save_monitor_snapshot env read i m c st = Inr st'"
  shows "store_inv env ok st' \<and> keeps_history st st'"
proof -
  from s obtain body e p where t: "monitor_snapshot_to_json env m c = Inr body"
    "dget (ms_policies st) i = Some e" "read (fst e) = Inr p"
    "policy_fingerprint env p = mf_policy_fingerprint m"
    "st' = add_snapshot (i, mf_snapshot_id m) body st"
    by (auto simp: save_monitor_snapshot_def bindr_eq_Inr split: option.splits)
  obtain q u where q: "policy_at env ok st i q u" "e = (monitor_policy_to_json env q, u)"
    using stored_policy [OF _ t(2)] inv unfolding store_inv_def by metis
  then have "p = q" using t(3) policy_at_read [OF q(1)] by simp
  then show ?thesis
    using add_snapshot_inv [OF inv q(1) t(1)] t(4) add_snapshot_keeps unfolding t(5) by simp
qed

lemma save_policy_step:
  assumes "store_inv env ok st" "ok p" "save_monitor_policy env p st = Inr st'"
  shows "store_inv env ok st' \<and> keeps_history st st'"
proof -
  from assms(3) have "mp_analysis_unit p = ''trace''"
    "same_definition (mp_policy_id p) (monitor_policy_to_json env p) st = Inr ()"
    "st' = add_policy (mp_policy_id p) (monitor_policy_to_json env p) st"
    by (auto simp: save_monitor_policy_def bindr_eq_Inr validate_monitor_analysis_unit_def Let_def)
  then show ?thesis using add_policy_inv(1) [OF assms(1,2)] add_policy_keeps by simp
qed

lemma save_candidate_step:
  assumes "store_inv env ok st" "ok p" "save_monitor_candidate env p m c st = Inr st'"
  shows "store_inv env ok st' \<and> keeps_history st st'"
proof -
  from assms(3) obtain body where t: "mp_analysis_unit p = ''trace''" "monitor_snapshot_to_json env m c = Inr body"
    "same_definition (mp_policy_id p) (monitor_policy_to_json env p) st = Inr ()"
    "policy_fingerprint env p = mf_policy_fingerprint m"
    "st' = add_snapshot (mp_policy_id p, mf_snapshot_id m) body
       (add_policy (mp_policy_id p) (monitor_policy_to_json env p) st)"
    by (auto simp: save_monitor_candidate_def bindr_eq_Inr validate_monitor_analysis_unit_def Let_def)
  note ap = add_policy_inv [OF assms(1,2) t(1,3)]
  then obtain s where "policy_at env ok (add_policy (mp_policy_id p) (monitor_policy_to_json env p) st)
      (mp_policy_id p) p s" by blast
  from add_snapshot_inv [OF ap(1) this t(2)] t(4) show ?thesis
    using keeps_history_trans [OF add_policy_keeps add_snapshot_keeps] unfolding t(5) by simp
qed

lemma activate_step:
  assumes "store_inv env ok st" "activate_monitor_policy read scope i expected st = Inr (p, st')"
  shows "store_inv env ok st' \<and> keeps_history st st'"
proof -
  have "ms_snapshots st' = ms_snapshots st"
    using assms(2) by (auto simp: activate_monitor_policy_def bindr_eq_Inr split: option.splits)
  then have "keeps_history st st'"
    using activate_inv(4) [OF assms] by (auto simp: keeps_history_def)
  then show ?thesis using activate_inv(1) [OF assms] by simp
qed

lemma save_successor_eq:
  assumes "save_monitor_successor env read i expected m c s st = Inr st'"
  shows "save_monitor_snapshot env read i m c st = Inr st'"
    "snapshot_heads i st \<noteq> []" "last (snapshot_heads i st) = expected"
    "\<exists>payload. dget (ms_policies st) i = Some (payload, s)" "s \<in> {''active'', ''candidate''}"
  using assms
  by (auto simp: save_monitor_successor_def bindr_eq_Inr Let_def split: option.splits)

lemma step_safe:
  assumes "store_step env read ok st st'" "store_inv env ok st"
  shows "store_inv env ok st' \<and> keeps_history st st'"
  using assms(1)
proof cases
  case (policy p)
  then show ?thesis using save_policy_step assms(2) by blast
next
  case (candidate p m c)
  then show ?thesis using save_candidate_step assms(2) by blast
next
  case (activate scope i expected p)
  then show ?thesis using activate_step assms(2) by blast
next
  case (snapshot i m c)
  then show ?thesis using save_snapshot_step assms(2) by blast
next
  case (successor i expected m c s)
  then show ?thesis using save_snapshot_step save_successor_eq(1) assms(2) by blast
qed

lemma run_safe:
  assumes "store_run env read ok st st'" "store_inv env ok st"
  shows "store_inv env ok st' \<and> keeps_history st st'"
  using assms
proof (induction rule: rtranclp_induct)
  case base
  then show ?case by (simp add: keeps_history_refl)
next
  case (step st' st'')
  then show ?case using step_safe keeps_history_trans by blast
qed

lemma active_pointer:
  assumes "store_inv env ok st" "dget (ms_policies st) i = Some (payload, ''active'')"
  obtains p where "read payload = Inr p" "mp_policy_id p = i" "dget (ms_active st) (mp_scope_key p) = Some i"
proof -
  obtain p s where p: "policy_at env ok st i p s" "(payload, ''active'') = (monitor_policy_to_json env p, s)"
    "s = ''active'' \<longrightarrow> dget (ms_active st) (mp_scope_key p) = Some i"
    using stored_policy [OF _ assms(2)] assms(1) unfolding store_inv_def by metis
  then show ?thesis using that policy_at_read [OF p(1)] by (auto simp: policy_at_def)
qed

lemma pointer_active:
  assumes "store_inv env ok st" "dget (ms_active st) scope = Some i"
  obtains p where "policy_at env ok st i p ''active''" "mp_scope_key p = scope"
    "i \<noteq> [] \<Longrightarrow> get_active_monitor_policy read scope st = Inr (Some p)"
proof -
  obtain p where p: "policy_at env ok st i p ''active''" "mp_scope_key p = scope"
    using assms by (auto simp: store_inv_def active_inv_def)
  then show ?thesis using that policy_at_read [OF p(1)] assms(2)
    by (auto simp: get_active_monitor_policy_def)
qed

end

section \<open>The JSON codec provides the contract\<close>

definition json_storable :: "py_env \<Rightarrow> monitor_policy \<Rightarrow> bool" where
  "json_storable env p \<longleftrightarrow> py_env_ok env \<and> policy_storable env p"

interpretation json_policies: policy_codec env "monitor_policy_from_json env untyped" "json_storable env"
  for env untyped
  by unfold_locales (simp add: json_storable_def policy_reads_back)

end
