(* ===== verification/Monitor_Store_Properties.thy ===== *)
theory Monitor_Store_Properties
  imports Monitor_Store_Laws Monitor_Samples
begin

text \<open>What the monitor tables guarantee after any sequence of operations, with a concrete run.\<close>

lemma storable_id: "json_storable env p \<Longrightarrow> mp_policy_id p \<noteq> []"
  by (auto simp: json_storable_def policy_storable_def passes_def monitor_policy_checks_def bounded_id_def)

lemma policy_at_get:
  assumes "policy_at env (json_storable env) st i p s"
  shows "get_monitor_policy (monitor_policy_from_json env untyped) i st = Inr (Some (p, s))"
  using json_policies.policy_at_read [OF assms] by (simp add: get_monitor_policy_def)

lemma get_policy_at:
  assumes "store_inv env (json_storable env) st"
    and "get_monitor_policy (monitor_policy_from_json env untyped) i st = Inr (Some (p, s))"
  shows "policy_at env (json_storable env) st i p s"
proof -
  from assms(2) obtain e where e: "dget (ms_policies st) i = Some e"
    by (auto simp: get_monitor_policy_def split: option.splits)
  then obtain q t where q: "policy_at env (json_storable env) st i q t"
    using json_policies.stored_policy [OF _ e] assms(1) unfolding store_inv_def by metis
  from policy_at_get [OF this, of untyped] assms(2) have "p = q \<and> s = t" by simp
  with q show ?thesis by simp
qed



section \<open>A concrete run\<close>

definition sample_env :: py_env where
  "sample_env = plain_py_env
     \<lparr>pe_repr := (\<lambda>q. if q = 1 / 2 then ''0.5'' else if q = 1 / 20 then ''0.05''
        else if q = 1 / 10 then ''0.1'' else ''0.2''),
      pe_float := (\<lambda>s. if s = ''0.5'' then Some (JFloat (1 / 2) s) else if s = ''0.05''
        then Some (JFloat (1 / 20) s) else if s = ''0.1'' then Some (JFloat (1 / 10) s)
        else if s = ''0.2'' then Some (JFloat (1 / 5) s) else None)\<rparr>"

lemma sample_env_ok: "py_env_ok sample_env"
proof -
  have "\<exists>q r. v = JFloat q r" if "pe_float sample_env s = Some v" for s v
    using that by (auto simp: sample_env_def simp del: divide_eq_eq_numeral1 split: if_splits)
  then show ?thesis using plain_py_env_ok by (simp add: py_env_ok_def sample_env_def)
qed

lemma sample_numbers:
  "scan_number fl ''0.5'' = map_option (\<lambda>x. (x, [])) (fl ''0.5'')"
  "scan_number fl ''0.05'' = map_option (\<lambda>x. (x, [])) (fl ''0.05'')"
  "scan_number fl ''0.1'' = map_option (\<lambda>x. (x, [])) (fl ''0.1'')"
  "scan_number fl ''0.2'' = map_option (\<lambda>x. (x, [])) (fl ''0.2'')"
  by code_simp+

lemma sample_storable: "json_storable sample_env sample_policy"
proof -
  have n: "number_storable sample_env (1 / 2)" "number_storable sample_env (1 / 20)"
    "number_storable sample_env (1 / 10)" "number_storable sample_env (1 / 5)"
    by (simp_all add: number_storable_def sample_env_def plain_loader_def sample_numbers is_ascii_def)
  have c: "count_storable 1" "count_storable 2" by (simp_all add: count_storable_def dec_of_nat.simps)
  have t: "is_ascii (pe_iso sample_env t)" for t
    by (simp add: sample_env_def plain_py_env_def is_ascii_dec_of_int)
  show ?thesis
    using n c t sample_env_ok sample_policy_passes
    unfolding json_storable_def policy_storable_def
    by (simp add: sample_policy_def is_ascii_def)
qed

abbreviation sample_reader :: policy_reader where
  "sample_reader \<equiv> monitor_policy_from_json sample_env (\<lambda>_. Inl invalid_policy)"

definition sample_saved :: monitor_store where
  "sample_saved = \<lparr>ms_policies = [(''p'', monitor_policy_to_json sample_env sample_policy, ''candidate'')],
     ms_snapshots = [], ms_active = []\<rparr>"

definition sample_active :: monitor_store where
  "sample_active = \<lparr>ms_policies = [(''p'', monitor_policy_to_json sample_env sample_policy, ''active'')],
     ms_snapshots = [], ms_active = [(''s'', ''p'')]\<rparr>"

lemma sample_policy_ids: "mp_policy_id sample_policy = ''p''" "mp_scope_key sample_policy = ''s''"
  by (simp_all add: sample_policy_def)

lemma sample_save: "save_monitor_policy sample_env sample_policy no_monitors = Inr sample_saved"
  by (simp add: save_monitor_policy_def validate_monitor_analysis_unit_def sample_mode Let_def
    same_definition_def no_monitors_def add_policy_def dsetdefault_def sample_saved_def sample_policy_ids)

lemma sample_activate:
  "activate_monitor_policy sample_reader ''s'' ''p'' None sample_saved = Inr (sample_policy, sample_active)"
  by (simp add: activate_monitor_policy_def sample_saved_def sample_active_def sample_policy_ids
    json_policies.reads_back [OF sample_storable] validate_monitor_analysis_unit_def sample_mode
    retire_entry_def)

lemma sample_runs:
  "store_run sample_env sample_reader (json_storable sample_env) no_monitors sample_saved"
  "store_run sample_env sample_reader (json_storable sample_env) sample_saved sample_active"
  using store_step.policy [of "json_storable sample_env", OF sample_storable sample_save, of sample_reader]
    store_step.activate [OF sample_activate, of sample_env "json_storable sample_env"] by blast+



end
