(* ===== verification/Buffered.thy ===== *)
theory Buffered
  imports Prelude Json
begin

text \<open>
  The write buffer of \<open>verdict/storage/buffered.py\<close>: a bounded queue, the worker thread that
  drains it into the storage it wraps, and the callers.  The threads interleave at the
  points where the code releases a lock, waits or touches the queue: one definition gives
  the next step of the worker, one that of the caller inside a call.  At most one caller is
  inside, because every call holds the lifecycle lock until it returns; a call of the wrapped
  storage is one step, because it is made under the write lock, and so is each update under
  the metrics lock.

  The wrapped storage is a parameter: \<open>in_write\<close> is what a queued write does and whether it
  returned, \<open>in_call\<close> what a read or a synchronous operation does.  A wrapped storage that calls
  the buffer back from the worker thread is not modelled.  A \<open>get\<close> whose timeout expires changes
  nothing and is no step.
\<close>

section \<open>State\<close>

record ('s, 'w, 'c, 'r) inner =
  in_write :: "'w \<Rightarrow> 's \<Rightarrow> bool \<times> 's"
  in_call :: "'c \<Rightarrow> 's \<Rightarrow> 'r \<times> 's"
  in_close :: "'s \<Rightarrow> 's"

datatype 'w item = Op 'w | FlushBarrier nat | Shutdown

text \<open>Where the worker is: at \<open>get\<close>, filling a batch, in the loop over the batch (with the barrier
and the sentinel that ended it), or in the drain after the sentinel.\<close>

datatype 'w place = InBatch "'w list" "nat option" bool | InDrain

datatype 'w worker =
    Waiting
  | Filling "'w list"
  | Ready "'w place"
  | Counting bool "'w place"
  | Settling "'w place"
  | Exited

text \<open>Why a caller flushes, and where it is inside its call.\<close>

datatype 'c purpose = ToCall 'c | ToFlush bool | ToClose

datatype ('w, 'c) caller =
    Outside
  | Enqueued
  | Overflow 'w
  | OverflowCount bool
  | Placing "'c purpose"
  | Awaiting nat "'c purpose"
  | Flushed "'c purpose"
  | Stopping
  | Joining

record ('s, 'w, 'c) buffered =
  bu_inner :: 's
  bu_max_queue :: int
  bu_batch_size :: int
  bu_queue :: "'w item list"
  bu_reached :: "nat list"
  bu_next_barrier :: nat
  bu_enqueued :: int
  bu_written :: int
  bu_dropped_to_sync :: int
  bu_write_errors :: int
  bu_pending_writes :: int
  bu_stopping :: bool
  bu_closed :: bool
  bu_worker :: "'w worker"
  bu_caller :: "('w, 'c) caller"

definition new_buffer :: "'s \<Rightarrow> int \<Rightarrow> int \<Rightarrow> ('s, 'w, 'c) buffered" where
  "new_buffer s max_queue batch_size =
     \<lparr>bu_inner = s, bu_max_queue = max_queue, bu_batch_size = max 1 batch_size, bu_queue = [],
      bu_reached = [], bu_next_barrier = 0, bu_enqueued = 0, bu_written = 0,
      bu_dropped_to_sync = 0, bu_write_errors = 0, bu_pending_writes = 0, bu_stopping = False,
      bu_closed = False, bu_worker = Waiting, bu_caller = Outside\<rparr>"

text \<open>What a step shows to the outside: a write the queue accepted, a write applied by the worker or
by its caller, and the outcome of a call: of one that flushed, of one that did not, an error, or the
end of the \<open>close\<close> that stopped the worker.\<close>

datatype ('w, 'c, 'r) event =
    Silent
  | Accepted 'w
  | Applied 'w bool
  | Synced 'w bool
  | Called 'c 'r
  | Checked 'c 'r
  | ClosedError
  | TimedOut
  | Closed

section \<open>Queue\<close>

definition queue_full :: "('s, 'w, 'c) buffered \<Rightarrow> bool" where
  "queue_full st \<longleftrightarrow> 0 < bu_max_queue st \<and> bu_max_queue st \<le> int (length (bu_queue st))"

definition put_item :: "'w item \<Rightarrow> ('s, 'w, 'c) buffered \<Rightarrow> ('s, 'w, 'c) buffered" where
  "put_item x st = st\<lparr>bu_queue := bu_queue st @ [x]\<rparr>"

text \<open>\<open>_execute\<close> in two steps: the call of the wrapped storage, then the counter.\<close>

definition run_write :: "('s, 'w, 'c, 'r) inner \<Rightarrow> 'w \<Rightarrow> ('s, 'w, 'c) buffered \<Rightarrow> bool \<times> ('s, 'w, 'c) buffered" where
  "run_write env w st = (let (ok, s) = in_write env w (bu_inner st) in (ok, st\<lparr>bu_inner := s\<rparr>))"

definition count_write :: "bool \<Rightarrow> ('s, 'w, 'c) buffered \<Rightarrow> ('s, 'w, 'c) buffered" where
  "count_write ok st =
     (if ok then st\<lparr>bu_written := bu_written st + 1\<rparr>
      else st\<lparr>bu_write_errors := bu_write_errors st + 1\<rparr>)"

section \<open>The worker\<close>

text \<open>An item that ends or extends the batch being filled.\<close>

definition take_item :: "'w list \<Rightarrow> 'w item \<Rightarrow> 'w worker" where
  "take_item batch x =
     (case x of
        Op w \<Rightarrow> Filling (batch @ [w])
      | FlushBarrier b \<Rightarrow> Ready (InBatch batch (Some b) False)
      | Shutdown \<Rightarrow> Ready (InBatch batch None True))"

definition reach :: "nat option \<Rightarrow> ('s, 'w, 'c) buffered \<Rightarrow> ('s, 'w, 'c) buffered" where
  "reach b st = (case b of None \<Rightarrow> st | Some i \<Rightarrow> st\<lparr>bu_reached := i # bu_reached st\<rparr>)"

text \<open>The loop over what the sentinel left behind, and the loop over the batch.\<close>

definition drain_step ::
  "('s, 'w, 'c, 'r) inner \<Rightarrow> ('s, 'w, 'c) buffered \<Rightarrow> ('w, 'c, 'r) event \<times> ('s, 'w, 'c) buffered" where
  "drain_step env st =
     (case bu_queue st of
        [] \<Rightarrow> (Silent, st\<lparr>bu_worker := Exited\<rparr>)
      | Shutdown # q \<Rightarrow> (Silent, st\<lparr>bu_queue := q\<rparr>)
      | FlushBarrier b # q \<Rightarrow> (Silent, reach (Some b) (st\<lparr>bu_queue := q\<rparr>))
      | Op w # q \<Rightarrow>
          (let (ok, st') = run_write env w (st\<lparr>bu_queue := q\<rparr>) in
           (Applied w ok, st'\<lparr>bu_worker := Counting ok InDrain\<rparr>)))"

definition work_at ::
  "('s, 'w, 'c, 'r) inner \<Rightarrow> 'w place \<Rightarrow> ('s, 'w, 'c) buffered \<Rightarrow> ('w, 'c, 'r) event \<times> ('s, 'w, 'c) buffered" where
  "work_at env p st =
     (case p of
        InBatch (w # ws) b s \<Rightarrow>
          (let (ok, st') = run_write env w st in
           (Applied w ok, st'\<lparr>bu_worker := Counting ok (InBatch ws b s)\<rparr>))
      | InBatch [] b s \<Rightarrow>
          (Silent, reach b (st\<lparr>bu_worker := (if s then Ready InDrain else Waiting)\<rparr>))
      | InDrain \<Rightarrow> drain_step env st)"

definition worker_step ::
  "('s, 'w, 'c, 'r) inner \<Rightarrow> ('s, 'w, 'c) buffered \<Rightarrow> (('w, 'c, 'r) event \<times> ('s, 'w, 'c) buffered) option" where
  "worker_step env st =
     (case bu_worker st of
        Waiting \<Rightarrow>
          (case bu_queue st of
             [] \<Rightarrow> if bu_stopping st then Some (Silent, st\<lparr>bu_worker := Exited\<rparr>) else None
           | x # q \<Rightarrow> Some (Silent, st\<lparr>bu_queue := q, bu_worker := take_item [] x\<rparr>))
      | Filling batch \<Rightarrow>
          (if int (length batch) < bu_batch_size st
           then case bu_queue st of
               [] \<Rightarrow> Some (Silent, st\<lparr>bu_worker := Ready (InBatch batch None False)\<rparr>)
             | x # q \<Rightarrow> Some (Silent, st\<lparr>bu_queue := q, bu_worker := take_item batch x\<rparr>)
           else Some (Silent, st\<lparr>bu_worker := Ready (InBatch batch None False)\<rparr>))
      | Ready p \<Rightarrow> Some (work_at env p st)
      | Counting ok p \<Rightarrow> Some (Silent, count_write ok (st\<lparr>bu_worker := Settling p\<rparr>))
      | Settling p \<Rightarrow>
          Some (Silent, st\<lparr>bu_pending_writes := bu_pending_writes st - 1, bu_worker := Ready p\<rparr>)
      | Exited \<Rightarrow> None)"

section \<open>Callers\<close>

text \<open>The calls: a queued write, a call that flushes first (\<open>_read\<close> and \<open>_maintenance\<close>), the
durability check that does not, \<open>flush\<close> with or without a timeout, and \<open>close\<close>.\<close>

datatype ('w, 'c) call = Enqueue 'w | FlushedCall 'c | DirectCall 'c | Flush bool | Close

definition begin_enqueue ::
  "'w \<Rightarrow> ('s, 'w, 'c) buffered \<Rightarrow> ('w, 'c, 'r) event \<times> ('s, 'w, 'c) buffered" where
  "begin_enqueue w st =
     (if bu_closed st then (ClosedError, st)
      else if queue_full st
      then (Silent, st\<lparr>bu_dropped_to_sync := bu_dropped_to_sync st + 1, bu_caller := Overflow w\<rparr>)
      else (Accepted w, put_item (Op w) (st\<lparr>bu_caller := Enqueued\<rparr>)))"

definition begin_flushed ::
  "'c \<Rightarrow> ('s, 'w, 'c) buffered \<Rightarrow> ('w, 'c, 'r) event \<times> ('s, 'w, 'c) buffered" where
  "begin_flushed c st =
     (if bu_closed st then (ClosedError, st) else (Silent, st\<lparr>bu_caller := Placing (ToCall c)\<rparr>))"

definition begin_direct ::
  "('s, 'w, 'c, 'r) inner \<Rightarrow> 'c \<Rightarrow> ('s, 'w, 'c) buffered \<Rightarrow> ('w, 'c, 'r) event \<times> ('s, 'w, 'c) buffered" where
  "begin_direct env c st =
     (if bu_closed st then (ClosedError, st)
      else (let (r, s) = in_call env c (bu_inner st) in (Checked c r, st\<lparr>bu_inner := s\<rparr>)))"

definition begin_flush ::
  "bool \<Rightarrow> ('s, 'w, 'c) buffered \<Rightarrow> ('w, 'c, 'r) event \<times> ('s, 'w, 'c) buffered" where
  "begin_flush timed st =
     (if bu_closed st then (Silent, st) else (Silent, st\<lparr>bu_caller := Placing (ToFlush timed)\<rparr>))"

definition begin_close ::
  "('s, 'w, 'c) buffered \<Rightarrow> ('w, 'c, 'r) event \<times> ('s, 'w, 'c) buffered" where
  "begin_close st =
     (if bu_closed st then (Silent, st)
      else (Silent, st\<lparr>bu_closed := True, bu_caller := Placing ToClose\<rparr>))"

definition begin_call ::
  "('s, 'w, 'c, 'r) inner \<Rightarrow> ('w, 'c) call \<Rightarrow> ('s, 'w, 'c) buffered \<Rightarrow> ('w, 'c, 'r) event \<times> ('s, 'w, 'c) buffered" where
  "begin_call env k st =
     (case k of
        Enqueue w \<Rightarrow> begin_enqueue w st
      | FlushedCall c \<Rightarrow> begin_flushed c st
      | DirectCall c \<Rightarrow> begin_direct env c st
      | Flush timed \<Rightarrow> begin_flush timed st
      | Close \<Rightarrow> begin_close st)"

text \<open>The rest of a call: counting an accepted write, making a write in place of the full queue,
placing a barrier and waiting for it, what follows the flush, and the end of \<open>close\<close>.  \<open>None\<close> while
the caller waits.\<close>

definition count_accepted :: "('s, 'w, 'c) buffered \<Rightarrow> ('w, 'c, 'r) event \<times> ('s, 'w, 'c) buffered" where
  "count_accepted st =
     (Silent, st\<lparr>bu_enqueued := bu_enqueued st + 1,
        bu_pending_writes := bu_pending_writes st + 1, bu_caller := Outside\<rparr>)"

definition write_inline ::
  "('s, 'w, 'c, 'r) inner \<Rightarrow> 'w \<Rightarrow> ('s, 'w, 'c) buffered \<Rightarrow> ('w, 'c, 'r) event \<times> ('s, 'w, 'c) buffered" where
  "write_inline env w st =
     (let (ok, st') = run_write env w st in (Synced w ok, st'\<lparr>bu_caller := OverflowCount ok\<rparr>))"

definition place_barrier ::
  "'c purpose \<Rightarrow> ('s, 'w, 'c) buffered \<Rightarrow> (('w, 'c, 'r) event \<times> ('s, 'w, 'c) buffered) option" where
  "place_barrier p st =
     (if queue_full st then None
      else Some (Silent, put_item (FlushBarrier (bu_next_barrier st))
        (st\<lparr>bu_next_barrier := bu_next_barrier st + 1, bu_caller := Awaiting (bu_next_barrier st) p\<rparr>)))"

definition await_barrier ::
  "nat \<Rightarrow> 'c purpose \<Rightarrow> ('s, 'w, 'c) buffered \<Rightarrow> (('w, 'c, 'r) event \<times> ('s, 'w, 'c) buffered) option" where
  "await_barrier b p st =
     (if b \<in> set (bu_reached st) then Some (Silent, st\<lparr>bu_caller := Flushed p\<rparr>) else None)"

definition call_inner ::
  "('s, 'w, 'c, 'r) inner \<Rightarrow> 'c \<Rightarrow> ('s, 'w, 'c) buffered \<Rightarrow> ('w, 'c, 'r) event \<times> ('s, 'w, 'c) buffered" where
  "call_inner env c st =
     (let (r, s) = in_call env c (bu_inner st) in (Called c r, st\<lparr>bu_inner := s, bu_caller := Outside\<rparr>))"

definition put_shutdown :: "('s, 'w, 'c) buffered \<Rightarrow> (('w, 'c, 'r) event \<times> ('s, 'w, 'c) buffered) option" where
  "put_shutdown st =
     (if queue_full st then None
      else Some (Silent, put_item Shutdown (st\<lparr>bu_caller := Stopping\<rparr>)))"

definition join_worker ::
  "('s, 'w, 'c, 'r) inner \<Rightarrow> ('s, 'w, 'c) buffered \<Rightarrow> (('w, 'c, 'r) event \<times> ('s, 'w, 'c) buffered) option" where
  "join_worker env st =
     (if bu_worker st = Exited
      then Some (Closed, st\<lparr>bu_inner := in_close env (bu_inner st), bu_caller := Outside\<rparr>)
      else None)"

definition caller_step ::
  "('s, 'w, 'c, 'r) inner \<Rightarrow> ('s, 'w, 'c) buffered \<Rightarrow> (('w, 'c, 'r) event \<times> ('s, 'w, 'c) buffered) option" where
  "caller_step env st =
     (case bu_caller st of
        Outside \<Rightarrow> None
      | Enqueued \<Rightarrow> Some (count_accepted st)
      | Overflow w \<Rightarrow> Some (write_inline env w st)
      | OverflowCount ok \<Rightarrow> Some (Silent, count_write ok (st\<lparr>bu_caller := Outside\<rparr>))
      | Placing p \<Rightarrow> place_barrier p st
      | Awaiting b p \<Rightarrow> await_barrier b p st
      | Flushed (ToCall c) \<Rightarrow> Some (call_inner env c st)
      | Flushed (ToFlush timed) \<Rightarrow> Some (Silent, st\<lparr>bu_caller := Outside\<rparr>)
      | Flushed ToClose \<Rightarrow> put_shutdown st
      | Stopping \<Rightarrow> Some (Silent, st\<lparr>bu_stopping := True, bu_caller := Joining\<rparr>)
      | Joining \<Rightarrow> join_worker env st)"

lemmas begin_defs = begin_call_def begin_enqueue_def begin_flushed_def begin_direct_def
  begin_flush_def begin_close_def

lemmas caller_defs = caller_step_def count_accepted_def write_inline_def place_barrier_def
  await_barrier_def call_inner_def put_shutdown_def join_worker_def

text \<open>A flush with a timeout may give up while it waits for room or for its barrier.\<close>

definition time_out ::
  "('s, 'w, 'c) buffered \<Rightarrow> (('w, 'c, 'r) event \<times> ('s, 'w, 'c) buffered) option" where
  "time_out st =
     (case bu_caller st of
        Placing (ToFlush True) \<Rightarrow> Some (TimedOut, st\<lparr>bu_caller := Outside\<rparr>)
      | Awaiting b (ToFlush True) \<Rightarrow> Some (TimedOut, st\<lparr>bu_caller := Outside\<rparr>)
      | _ \<Rightarrow> None)"

section \<open>Steps of the whole\<close>

text \<open>\<open>continue_step\<close> is a step of a thread that is already inside; \<open>buffer_step\<close> also lets a caller
come in.\<close>

inductive continue_step ::
  "('s, 'w, 'c, 'r) inner \<Rightarrow> ('s, 'w, 'c) buffered \<Rightarrow> ('w, 'c, 'r) event \<Rightarrow> ('s, 'w, 'c) buffered \<Rightarrow> bool"
  for env where
  worker: "worker_step env st = Some (ev, st') \<Longrightarrow> continue_step env st ev st'"
| caller: "caller_step env st = Some (ev, st') \<Longrightarrow> continue_step env st ev st'"
| timeout: "time_out st = Some (ev, st') \<Longrightarrow> continue_step env st ev st'"

inductive buffer_step ::
  "('s, 'w, 'c, 'r) inner \<Rightarrow> ('s, 'w, 'c) buffered \<Rightarrow> ('w, 'c, 'r) event \<Rightarrow> ('s, 'w, 'c) buffered \<Rightarrow> bool"
  for env where
  enter: "bu_caller st = Outside \<Longrightarrow> begin_call env k st = (ev, st') \<Longrightarrow> buffer_step env st ev st'"
| go_on: "continue_step env st ev st' \<Longrightarrow> buffer_step env st ev st'"

inductive buffer_run ::
  "('s, 'w, 'c, 'r) inner \<Rightarrow> ('s, 'w, 'c) buffered \<Rightarrow> ('w, 'c, 'r) event list \<Rightarrow> ('s, 'w, 'c) buffered \<Rightarrow> bool"
  for env where
  start: "buffer_run env st [] st"
| step: "buffer_run env st evs st' \<Longrightarrow> buffer_step env st' ev st'' \<Longrightarrow> buffer_run env st (evs @ [ev]) st''"

section \<open>Telemetry\<close>

definition telemetry_snapshot :: "('s, 'w, 'c) buffered \<Rightarrow> (string, jval) dict" where
  "telemetry_snapshot st =
     [(''enabled'', JBool True), (''queue_depth'', JInt (bu_pending_writes st)),
      (''accepted'', JInt (bu_enqueued st)), (''written'', JInt (bu_written st)),
      (''sync_fallbacks'', JInt (bu_dropped_to_sync st)),
      (''write_errors'', JInt (bu_write_errors st)), (''closed'', JBool (bu_closed st))]"

end
