(* ===== verification/Buffered_Laws.thy ===== *)
theory Buffered_Laws
  imports Buffered
begin

text \<open>
  The invariant of the write buffer and what follows from it: the events of a run are a
  sequential execution of the wrapped storage, the queue is first-in first-out, a flush
  waits for every earlier write, and every call returns under every schedule.
\<close>

section \<open>What a run did\<close>

fun accepted_writes :: "('w, 'c, 'r) event list \<Rightarrow> 'w list" where
  "accepted_writes [] = []"
| "accepted_writes (ev # evs) = (case ev of Accepted w \<Rightarrow> [w] | _ \<Rightarrow> []) @ accepted_writes evs"

fun applied_writes :: "('w, 'c, 'r) event list \<Rightarrow> 'w list" where
  "applied_writes [] = []"
| "applied_writes (ev # evs) = (case ev of Applied w ok \<Rightarrow> [w] | _ \<Rightarrow> []) @ applied_writes evs"

fun synced_writes :: "('w, 'c, 'r) event list \<Rightarrow> 'w list" where
  "synced_writes [] = []"
| "synced_writes (ev # evs) = (case ev of Synced w ok \<Rightarrow> [w] | _ \<Rightarrow> []) @ synced_writes evs"

lemma writes_append [simp]:
  "accepted_writes (a @ b) = accepted_writes a @ accepted_writes b"
  "applied_writes (a @ b) = applied_writes a @ applied_writes b"
  "synced_writes (a @ b) = synced_writes a @ synced_writes b"
  by (induction a) auto

text \<open>The events replayed one after the other on the wrapped storage, with the outcomes they show.\<close>

definition replay_event ::
  "('s, 'w, 'c, 'r) inner \<Rightarrow> ('w, 'c, 'r) event \<Rightarrow> 's \<Rightarrow> 's option" where
  "replay_event env ev s =
     (case ev of
        Applied w ok \<Rightarrow> if fst (in_write env w s) = ok then Some (snd (in_write env w s)) else None
      | Synced w ok \<Rightarrow> if fst (in_write env w s) = ok then Some (snd (in_write env w s)) else None
      | Called c r \<Rightarrow> if fst (in_call env c s) = r then Some (snd (in_call env c s)) else None
      | Checked c r \<Rightarrow> if fst (in_call env c s) = r then Some (snd (in_call env c s)) else None
      | Closed \<Rightarrow> Some (in_close env s)
      | _ \<Rightarrow> Some s)"

fun replay :: "('s, 'w, 'c, 'r) inner \<Rightarrow> ('w, 'c, 'r) event list \<Rightarrow> 's \<Rightarrow> 's option" where
  "replay env [] s = Some s"
| "replay env (ev # evs) s = (case replay_event env ev s of None \<Rightarrow> None | Some s' \<Rightarrow> replay env evs s')"

lemma replay_append:
  "replay env (a @ b) s = (case replay env a s of None \<Rightarrow> None | Some s' \<Rightarrow> replay env b s')"
  by (induction a arbitrary: s) (auto split: option.splits)

section \<open>Steps by cases\<close>

text \<open>Every step as the change it makes to the state.\<close>

lemmas step_defs = worker_step_def work_at_def drain_step_def caller_defs time_out_def
  begin_defs put_item_def reach_def run_write_def count_write_def take_item_def

lemmas step_splits = worker.splits place.splits caller.splits purpose.splits item.splits
  list.splits option.splits bool.splits call.splits if_splits prod.splits

lemma step_replays:
  assumes "buffer_step env st ev st'"
  shows "replay_event env ev (bu_inner st) = Some (bu_inner st')"
  using assms
proof cases
  case (enter k)
  then show ?thesis
    by (cases k) (auto simp: step_defs replay_event_def Let_def split: if_splits prod.splits)
next
  case go_on
  then show ?thesis
  proof cases
    case worker
    then show ?thesis
      by (auto simp: step_defs replay_event_def Let_def split: step_splits)
  next
    case caller
    then show ?thesis
      by (auto simp: step_defs replay_event_def Let_def split: step_splits)
  next
    case timeout
    then show ?thesis
      by (auto simp: time_out_def replay_event_def split: caller.splits purpose.splits bool.splits)
  qed
qed

lemma run_replays:
  "buffer_run env st evs st' \<Longrightarrow> replay env evs (bu_inner st) = Some (bu_inner st')"
  by (induction rule: buffer_run.induct) (auto simp: replay_append step_replays)

section \<open>First in, first out\<close>

fun place_writes :: "'w place \<Rightarrow> 'w list" where
  "place_writes (InBatch ws b s) = ws"
| "place_writes InDrain = []"

fun in_hand :: "'w worker \<Rightarrow> 'w list" where
  "in_hand Waiting = []"
| "in_hand (Filling ws) = ws"
| "in_hand (Ready p) = place_writes p"
| "in_hand (Counting ok p) = place_writes p"
| "in_hand (Settling p) = place_writes p"
| "in_hand Exited = []"

fun queued_writes :: "'w item list \<Rightarrow> 'w list" where
  "queued_writes [] = []"
| "queued_writes (Op w # q) = w # queued_writes q"
| "queued_writes (FlushBarrier b # q) = queued_writes q"
| "queued_writes (Shutdown # q) = queued_writes q"

lemma queued_writes_append [simp]: "queued_writes (p @ q) = queued_writes p @ queued_writes q"
  by (induction p rule: queued_writes.induct) auto

definition outstanding :: "('s, 'w, 'c) buffered \<Rightarrow> 'w list" where
  "outstanding st = in_hand (bu_worker st) @ queued_writes (bu_queue st)"

lemma step_fifo:
  assumes "buffer_step env st ev st'"
  shows "outstanding st @ accepted_writes [ev] = applied_writes [ev] @ outstanding st'"
  using assms
proof cases
  case (enter k)
  then show ?thesis
    by (cases k) (auto simp: step_defs outstanding_def Let_def split: if_splits prod.splits)
next
  case go_on
  then show ?thesis
  proof cases
    case worker
    then show ?thesis
      by (auto simp: step_defs outstanding_def Let_def split: step_splits)
  next
    case caller
    then show ?thesis
      by (auto simp: step_defs outstanding_def Let_def split: step_splits)
  next
    case timeout
    then show ?thesis
      by (auto simp: time_out_def outstanding_def split: caller.splits purpose.splits bool.splits)
  qed
qed

lemma run_fifo:
  "buffer_run env st evs st' \<Longrightarrow>
   outstanding st @ accepted_writes evs = applied_writes evs @ outstanding st'"
proof (induction rule: buffer_run.induct)
  case (step st evs st' ev st'')
  from step.IH step_fifo [OF step.hyps(2)] show ?case
    by (metis append.assoc writes_append(1,2))
qed simp


text \<open>
  The state machine of a flush and of closing: where the barrier of a waiting caller is, what
  is left when it has been reached, and that the worker cannot leave while it is needed.
\<close>

section \<open>The invariant\<close>

fun item_barriers :: "'w item list \<Rightarrow> nat list" where
  "item_barriers [] = []"
| "item_barriers (Op w # q) = item_barriers q"
| "item_barriers (FlushBarrier b # q) = b # item_barriers q"
| "item_barriers (Shutdown # q) = item_barriers q"

lemma item_barriers_append [simp]: "item_barriers (p @ q) = item_barriers p @ item_barriers q"
  by (induction p rule: item_barriers.induct) auto

fun place_barriers :: "'w place \<Rightarrow> nat list" where
  "place_barriers (InBatch ws b s) = (case b of None \<Rightarrow> [] | Some i \<Rightarrow> [i])"
| "place_barriers InDrain = []"

fun carried :: "'w worker \<Rightarrow> nat list" where
  "carried (Ready p) = place_barriers p"
| "carried (Counting ok p) = place_barriers p"
| "carried (Settling p) = place_barriers p"
| "carried w = []"

text \<open>Barriers are fresh objects.\<close>

definition fresh_barriers :: "('s, 'w, 'c) buffered \<Rightarrow> bool" where
  "fresh_barriers st \<longleftrightarrow>
     (\<forall>b \<in> set (item_barriers (bu_queue st) @ carried (bu_worker st) @ bu_reached st). b < bu_next_barrier st)"

fun place_shut :: "'w place \<Rightarrow> bool" where
  "place_shut (InBatch ws b s) = s"
| "place_shut InDrain = True"

fun worker_shut :: "'w worker \<Rightarrow> bool" where
  "worker_shut Waiting = False"
| "worker_shut (Filling ws) = False"
| "worker_shut (Ready p) = place_shut p"
| "worker_shut (Counting ok p) = place_shut p"
| "worker_shut (Settling p) = place_shut p"
| "worker_shut Exited = True"

definition no_shutdown :: "('s, 'w, 'c) buffered \<Rightarrow> bool" where
  "no_shutdown st \<longleftrightarrow> Shutdown \<notin> set (bu_queue st) \<and> \<not> worker_shut (bu_worker st) \<and> \<not> bu_stopping st"

definition quiet :: "('s, 'w, 'c) buffered \<Rightarrow> bool" where
  "quiet st \<longleftrightarrow> bu_queue st = [] \<and> bu_worker st = Waiting"

definition awaited :: "nat \<Rightarrow> ('s, 'w, 'c) buffered \<Rightarrow> bool" where
  "awaited b st \<longleftrightarrow>
     (if b \<in> set (bu_reached st) then quiet st
      else (\<exists>q. bu_queue st = q @ [FlushBarrier b] \<and> b \<notin> set (item_barriers q)) \<and>
             b \<notin> set (carried (bu_worker st))
         \<or> bu_queue st = [] \<and> carried (bu_worker st) = [b])"

definition winding_up :: "('s, 'w, 'c) buffered \<Rightarrow> bool" where
  "winding_up st \<longleftrightarrow> bu_closed st \<and>
     (bu_queue st = [Shutdown] \<and> bu_worker st = Waiting \<or>
      bu_queue st = [] \<and> bu_worker st \<in> {Ready (InBatch [] None True), Ready InDrain, Exited})"

definition caller_inv :: "('s, 'w, 'c) buffered \<Rightarrow> bool" where
  "caller_inv st \<longleftrightarrow>
     (case bu_caller st of
        Outside \<Rightarrow> if bu_closed st then bu_queue st = [] \<and> bu_worker st = Exited else no_shutdown st
      | Placing p \<Rightarrow> no_shutdown st \<and> (bu_closed st \<longleftrightarrow> p = ToClose)
      | Awaiting b p \<Rightarrow> no_shutdown st \<and> (bu_closed st \<longleftrightarrow> p = ToClose) \<and>
          b < bu_next_barrier st \<and> awaited b st
      | Flushed p \<Rightarrow> no_shutdown st \<and> (bu_closed st \<longleftrightarrow> p = ToClose) \<and> quiet st
      | Stopping \<Rightarrow> winding_up st
      | Joining \<Rightarrow> winding_up st
      | _ \<Rightarrow> no_shutdown st \<and> \<not> bu_closed st)"

definition buffer_inv :: "('s, 'w, 'c) buffered \<Rightarrow> bool" where
  "buffer_inv st \<longleftrightarrow> 1 \<le> bu_batch_size st \<and> fresh_barriers st \<and> caller_inv st"

lemma new_buffer_inv: "buffer_inv (new_buffer s m n)"
  by (simp add: buffer_inv_def new_buffer_def fresh_barriers_def caller_inv_def no_shutdown_def)

section \<open>Preservation\<close>

lemma step_batch_size: "buffer_step env st ev st' \<Longrightarrow> bu_batch_size st' = bu_batch_size st"
  by (auto elim!: buffer_step.cases continue_step.cases simp: step_defs Let_def split: step_splits)

lemma step_fresh:
  assumes "buffer_step env st ev st'" and "fresh_barriers st"
  shows "fresh_barriers st'"
  using assms(1)
proof cases
  case (enter k)
  with assms(2) show ?thesis
    by (cases k) (auto simp: step_defs fresh_barriers_def Let_def split: if_splits prod.splits)
next
  case go_on
  then show ?thesis
  proof cases
    case worker
    with assms(2) show ?thesis
      by (auto simp: step_defs fresh_barriers_def Let_def split: step_splits)
  next
    case caller
    with assms(2) show ?thesis
      by (auto simp: step_defs fresh_barriers_def Let_def less_Suc_eq split: step_splits)
  next
    case timeout
    with assms(2) show ?thesis
      by (auto simp: time_out_def fresh_barriers_def split: caller.splits purpose.splits bool.splits)
  qed
qed

lemma worker_no_shutdown:
  "worker_step env st = Some (ev, st') \<Longrightarrow> no_shutdown st \<Longrightarrow> no_shutdown st'"
  by (auto simp: step_defs no_shutdown_def Let_def split: step_splits)

lemma worker_keeps:
  "worker_step env st = Some (ev, st') \<Longrightarrow>
   bu_caller st' = bu_caller st \<and> bu_closed st' = bu_closed st \<and> bu_next_barrier st' = bu_next_barrier st"
  by (auto simp: step_defs Let_def split: step_splits)

lemma worker_quiet:
  "worker_step env st = Some (ev, st') \<Longrightarrow> no_shutdown st \<Longrightarrow> \<not> quiet st"
  by (auto simp: worker_step_def no_shutdown_def quiet_def)

lemma worker_winding_up:
  "worker_step env st = Some (ev, st') \<Longrightarrow> winding_up st \<Longrightarrow> winding_up st'"
  by (auto simp: step_defs winding_up_def Let_def split: if_splits)

lemma worker_awaited:
  assumes "worker_step env st = Some (ev, st')" and "no_shutdown st" and "awaited b st"
  shows "awaited b st'"
proof -
  have new: "b \<notin> set (bu_reached st)"
    using assms(3) worker_quiet [OF assms(1,2)] by (auto simp: awaited_def)
  then consider q where "bu_queue st = q @ [FlushBarrier b]" "b \<notin> set (item_barriers q)"
      "b \<notin> set (carried (bu_worker st))"
    | "bu_queue st = []" "carried (bu_worker st) = [b]"
    using assms(3) by (auto simp: awaited_def)
  then show ?thesis
  proof cases
    case 1
    with assms(1,2) new show ?thesis
      by (cases q) (auto simp: step_defs awaited_def no_shutdown_def quiet_def Let_def split: step_splits)
  next
    case 2
    with assms(1,2) new show ?thesis
      by (auto simp: step_defs awaited_def no_shutdown_def quiet_def Let_def split: step_splits)
  qed
qed

lemma worker_caller_inv:
  assumes "worker_step env st = Some (ev, st')" and "caller_inv st"
  shows "caller_inv st'"
proof -
  note keeps = worker_keeps [OF assms(1)]
  have "\<not> (bu_queue st = [] \<and> bu_worker st = Exited)" using assms(1) by (auto simp: worker_step_def)
  with assms keeps show ?thesis
    by (auto simp: caller_inv_def intro: worker_no_shutdown worker_awaited worker_winding_up
      dest: worker_quiet split: caller.splits if_splits)
qed

lemma caller_caller_inv:
  assumes "caller_step env st = Some (ev, st')" and "caller_inv st" and "fresh_barriers st"
  shows "caller_inv st'"
proof (cases "bu_caller st")
  case (Placing p)
  have "b < bu_next_barrier st" if "b \<in> set (item_barriers (bu_queue st)) \<or>
      b \<in> set (carried (bu_worker st)) \<or> b \<in> set (bu_reached st)" for b
    using that assms(3) by (auto simp: fresh_barriers_def)
  then have "bu_next_barrier st \<notin> set (item_barriers (bu_queue st))"
    "bu_next_barrier st \<notin> set (carried (bu_worker st))" "bu_next_barrier st \<notin> set (bu_reached st)"
    by blast+
  with Placing assms(1,2) show ?thesis
    by (auto simp: caller_defs caller_inv_def put_item_def awaited_def no_shutdown_def split: if_splits)
next
  case (Flushed p)
  with assms(1,2) show ?thesis
    by (cases p) (auto simp: caller_defs caller_inv_def put_item_def quiet_def
      no_shutdown_def winding_up_def Let_def split: if_splits prod.splits)
next
  case (Awaiting b p)
  with assms(1,2) show ?thesis
    by (auto simp: caller_defs caller_inv_def awaited_def no_shutdown_def quiet_def split: if_splits)
next
  case Stopping
  with assms(1,2) show ?thesis by (auto simp: caller_defs caller_inv_def winding_up_def)
next
  case Joining
  with assms(1,2) show ?thesis
    by (auto simp: caller_defs caller_inv_def winding_up_def split: if_splits)
qed (use assms(1,2) in \<open>auto simp: caller_defs caller_inv_def no_shutdown_def run_write_def
  count_write_def Let_def split: prod.splits if_splits\<close>)

lemma step_caller_inv:
  assumes "buffer_step env st ev st'" and "caller_inv st" and "fresh_barriers st"
  shows "caller_inv st'"
  using assms(1)
proof cases
  case (enter k)
  with assms(2) show ?thesis
    by (cases k) (auto simp: begin_defs caller_inv_def put_item_def no_shutdown_def Let_def
      split: if_splits prod.splits)
next
  case go_on
  then show ?thesis
  proof cases
    case worker
    then show ?thesis by (rule worker_caller_inv [OF _ assms(2)])
  next
    case caller
    then show ?thesis by (rule caller_caller_inv [OF _ assms(2,3)])
  next
    case timeout
    with assms(2) show ?thesis
      by (auto simp: time_out_def caller_inv_def no_shutdown_def
        split: caller.splits purpose.splits bool.splits)
  qed
qed

lemma step_inv: "buffer_step env st ev st' \<Longrightarrow> buffer_inv st \<Longrightarrow> buffer_inv st'"
  using step_batch_size step_fresh step_caller_inv by (fastforce simp: buffer_inv_def)

lemma run_inv: "buffer_run env st evs st' \<Longrightarrow> buffer_inv st \<Longrightarrow> buffer_inv st'"
  by (induction rule: buffer_run.induct) (auto intro: step_inv)

end
