(* ===== verification/Buffered_Properties.thy ===== *)
theory Buffered_Properties
  imports Buffered_Laws Store_Properties
begin

text \<open>
  What the write buffer promises: reads see every accepted write, closing loses none, the
  counters count what happened, every call returns, and a buffered evidence store keeps the
  invariant of the store it wraps.
\<close>

section \<open>Runs\<close>

lemma run_split:
  assumes "buffer_run env st evs st'" and "evs = before @ ev # after"
  shows "\<exists>st1 st2. buffer_run env st before st1 \<and> buffer_step env st1 ev st2 \<and> buffer_run env st2 after st'"
  using assms
proof (induction arbitrary: after rule: buffer_run.induct)
  case (step st evs st' ev' st'')
  show ?case
  proof (cases after rule: rev_cases)
    case Nil
    with step.hyps step.prems show ?thesis by (auto intro: buffer_run.start)
  next
    case (snoc after' x)
    with step.prems have "evs = before @ ev # after'" "x = ev'" by auto
    with step.IH [of after'] step.hyps(2) snoc show ?thesis by (blast intro: buffer_run.step)
  qed
qed simp

lemma run_accounts:
  assumes "buffer_run env (new_buffer s m n) evs st"
  shows "accepted_writes evs = applied_writes evs @ outstanding st"
  using run_fifo [OF assms] by (simp add: outstanding_def new_buffer_def)

lemma called_when_quiet:
  assumes "buffer_step env st (Called c r) st'" and "buffer_inv st"
  shows "quiet st \<and> fst (in_call env c (bu_inner st)) = r"
  using assms
proof cases
  case (enter k)
  then show ?thesis by (cases k) (auto simp: begin_defs Let_def split: if_splits prod.splits)
next
  case go_on
  then show ?thesis
  proof cases
    case worker
    then show ?thesis
      by (auto simp: step_defs Let_def split: step_splits)
  next
    case caller
    with assms(2) show ?thesis
      by (auto simp: caller_defs run_write_def buffer_inv_def caller_inv_def Let_def
        split: caller.splits purpose.splits if_splits prod.splits)
  next
    case timeout
    then show ?thesis by (auto simp: time_out_def split: caller.splits purpose.splits bool.splits)
  qed
qed

lemma quiet_outstanding: "quiet st \<Longrightarrow> outstanding st = []"
  by (simp add: quiet_def outstanding_def)

section \<open>Read after write\<close>

text \<open>C18 (refinement). A run of the buffer is a sequential execution of the wrapped storage, event by
event; the worker applies the queued writes in the order in which they were accepted; and a call that
flushes runs when every write accepted before it has been applied, and answers what the wrapped storage
answers there.\<close>

theorem buffer_reads_its_writes:
  assumes "buffer_run env (new_buffer s m n) evs st"
  shows "replay env evs s = Some (bu_inner st) \<and> prefix (applied_writes evs) (accepted_writes evs) \<and>
    (\<forall>before c r after. evs = before @ Called c r # after \<longrightarrow>
      applied_writes before = accepted_writes before \<and>
      (\<exists>s'. replay env before s = Some s' \<and> fst (in_call env c s') = r))"
proof (intro conjI allI impI)
  show "replay env evs s = Some (bu_inner st)"
    using run_replays [OF assms] by (simp add: new_buffer_def)
  show "prefix (applied_writes evs) (accepted_writes evs)"
    using run_accounts [OF assms] by (simp add: prefix_def)
  fix before c r after
  assume "evs = before @ Called c r # after"
  from run_split [OF assms this] obtain st1 st2 where
    run: "buffer_run env (new_buffer s m n) before st1" and "buffer_step env st1 (Called c r) st2" by blast
  note q = called_when_quiet [OF this(2) run_inv [OF run new_buffer_inv]]
  show "applied_writes before = accepted_writes before"
    using run_accounts [OF run] quiet_outstanding [OF conjunct1 [OF q]] by simp
  show "\<exists>s'. replay env before s = Some s' \<and> fst (in_call env c s') = r"
    using run_replays [OF run] q by (simp add: new_buffer_def)
qed

section \<open>Closing\<close>

definition finished :: "('s, 'w, 'c) buffered \<Rightarrow> bool" where
  "finished st \<longleftrightarrow> bu_caller st = Outside \<and> bu_closed st \<and> bu_queue st = [] \<and> bu_worker st = Exited"

lemma finished_step:
  assumes "buffer_step env st ev st'" and "finished st"
  shows "st' = st \<and> ev \<in> {Silent, ClosedError}"
  using assms
proof cases
  case (enter k)
  with assms(2) show ?thesis by (cases k) (auto simp: begin_defs finished_def)
next
  case go_on
  with assms(2) show ?thesis
    by (auto simp: finished_def worker_step_def caller_defs time_out_def elim!: continue_step.cases)
qed

lemma finished_run:
  "buffer_run env st evs st' \<Longrightarrow> finished st \<Longrightarrow> st' = st \<and> set evs \<subseteq> {Silent, ClosedError}"
  by (induction rule: buffer_run.induct) (auto dest: finished_step)

lemma closed_step:
  assumes "buffer_step env st Closed st'" and "buffer_inv st"
  shows "finished st' \<and> outstanding st = [] \<and> bu_inner st' = in_close env (bu_inner st)"
  using assms
proof cases
  case (enter k)
  then show ?thesis by (cases k) (auto simp: begin_defs Let_def split: if_splits prod.splits)
next
  case go_on
  then show ?thesis
  proof cases
    case worker
    then show ?thesis
      by (auto simp: step_defs Let_def split: step_splits)
  next
    case caller
    with assms(2) show ?thesis
      by (auto simp: caller_defs run_write_def buffer_inv_def caller_inv_def finished_def
        winding_up_def outstanding_def Let_def split: caller.splits purpose.splits if_splits prod.splits)
  next
    case timeout
    then show ?thesis by (auto simp: time_out_def split: caller.splits purpose.splits bool.splits)
  qed
qed

lemma silent_writes:
  "set evs \<subseteq> {Silent, ClosedError} \<Longrightarrow> accepted_writes evs = [] \<and> applied_writes evs = []"
  by (induction evs) auto

text \<open>C19 (safety). When close returns, the worker is gone, every accepted write has been applied
exactly once and in order, the wrapped storage was closed after the last of them, and from then on every
call is refused or does nothing.\<close>

theorem closing_loses_no_write:
  assumes "buffer_run env (new_buffer s m n) evs st" and "evs = before @ Closed # after"
  shows "bu_worker st = Exited \<and> applied_writes evs = accepted_writes evs \<and>
    map_option (in_close env) (replay env before s) = Some (bu_inner st) \<and>
    set after \<subseteq> {Silent, ClosedError}"
proof -
  from run_split [OF assms] obtain st1 st2 where run: "buffer_run env (new_buffer s m n) before st1"
    and step: "buffer_step env st1 Closed st2" and rest: "buffer_run env st2 after st" by blast
  note c = closed_step [OF step run_inv [OF run new_buffer_inv]]
  with finished_run [OF rest] have after: "st = st2" "set after \<subseteq> {Silent, ClosedError}" by auto
  moreover have "applied_writes before = accepted_writes before"
    using run_accounts [OF run] c by simp
  ultimately show ?thesis
    using c run_replays [OF run] silent_writes [OF after(2)] assms(2)
    by (simp add: finished_def new_buffer_def)
qed


text \<open>
  Progress of the write buffer: a measure that every step of a thread already inside decreases,
  and a step that is possible while a caller is inside.  Together: no schedule of the worker and
  of the caller keeps a call from returning.
\<close>

section \<open>Work left\<close>

fun place_work :: "'w place \<Rightarrow> nat" where
  "place_work (InBatch ws b s) = 3 + 3 * length ws"
| "place_work InDrain = 2"

fun worker_work :: "'w worker \<Rightarrow> nat" where
  "worker_work Waiting = 1"
| "worker_work (Filling ws) = 4 + 3 * length ws"
| "worker_work (Ready p) = place_work p"
| "worker_work (Counting ok p) = place_work p + 2"
| "worker_work (Settling p) = place_work p + 1"
| "worker_work Exited = 0"

fun caller_work :: "('w, 'c) caller \<Rightarrow> nat" where
  "caller_work Outside = 0"
| "caller_work Enqueued = 1"
| "caller_work (Overflow w) = 2"
| "caller_work (OverflowCount ok) = 1"
| "caller_work (Placing p) = 19"
| "caller_work (Awaiting b p) = 11"
| "caller_work (Flushed p) = 10"
| "caller_work Stopping = 2"
| "caller_work Joining = 1"

definition work_left :: "('s, 'w, 'c) buffered \<Rightarrow> nat" where
  "work_left st = 7 * length (bu_queue st) + worker_work (bu_worker st) + caller_work (bu_caller st)"

lemma continue_works:
  assumes "continue_step env st ev st'"
  shows "work_left st' < work_left st"
  using assms
proof cases
  case worker
  then show ?thesis
    by (auto simp: step_defs work_left_def Let_def split: step_splits)
next
  case caller
  then show ?thesis
    by (auto simp: step_defs work_left_def Let_def split: caller.splits purpose.splits if_splits prod.splits)
next
  case timeout
  then show ?thesis
    by (auto simp: time_out_def work_left_def split: caller.splits purpose.splits bool.splits)
qed

section \<open>Something can always go on\<close>

lemma worker_blocked:
  "worker_step env st = None \<Longrightarrow>
   bu_worker st = Waiting \<and> bu_queue st = [] \<and> \<not> bu_stopping st \<or> bu_worker st = Exited"
  by (auto simp: worker_step_def split: worker.splits list.splits if_splits)

lemma full_queue: "queue_full st \<Longrightarrow> bu_queue st \<noteq> []"
  by (auto simp: queue_full_def)

lemma inside_goes_on:
  assumes "caller_inv st" and "bu_caller st \<noteq> Outside"
  shows "worker_step env st \<noteq> None \<or> caller_step env st \<noteq> None"
proof (rule ccontr)
  assume n: "\<not> (worker_step env st \<noteq> None \<or> caller_step env st \<noteq> None)"
  then have "worker_step env st = None" "caller_step env st = None" by blast+
  note w = worker_blocked [OF this(1)] and c = this(2)
  show False
  proof (cases "bu_caller st")
    case (Placing p)
    with c have "queue_full st" by (auto simp: caller_defs split: if_splits)
    with full_queue w Placing assms(1) show False by (auto simp: caller_inv_def no_shutdown_def)
  next
    case (Awaiting b p)
    with c have "b \<notin> set (bu_reached st)" by (auto simp: caller_defs split: if_splits)
    with w Awaiting assms(1) show False by (auto simp: caller_inv_def awaited_def no_shutdown_def)
  next
    case (Flushed p)
    with c w assms(1) full_queue show False
      by (cases p) (auto simp: caller_defs caller_inv_def quiet_def Let_def
        split: if_splits prod.splits)
  next
    case Joining
    with c w assms(1) show False
      by (auto simp: caller_defs caller_inv_def winding_up_def split: if_splits)
  qed (use assms(2) c in \<open>auto simp: caller_defs Let_def split: prod.splits\<close>)
qed

lemma continue_inv: "continue_step env st ev st' \<Longrightarrow> buffer_inv st \<Longrightarrow> buffer_inv st'"
  by (rule step_inv) (rule buffer_step.go_on)

section \<open>Every call returns\<close>

text \<open>\<open>n\<close> steps of the threads that are inside.\<close>

abbreviation going_on :: "('s, 'w, 'c, 'r) inner \<Rightarrow> ('s, 'w, 'c) buffered \<Rightarrow> ('s, 'w, 'c) buffered \<Rightarrow> bool" where
  "going_on env st st' \<equiv> \<exists>ev. continue_step env st ev st'"

lemma going_on_bounded:
  "(going_on env ^^ k) st st' \<Longrightarrow> buffer_inv st \<Longrightarrow> k + work_left st' \<le> work_left st \<and> buffer_inv st'"
proof (induction k arbitrary: st')
  case (Suc k)
  from Suc.prems(1) obtain st1 where "(going_on env ^^ k) st st1" "going_on env st1 st'" by auto
  with Suc.IH Suc.prems(2) continue_works continue_inv show ?case by (fastforce)
qed simp

text \<open>C21 (liveness). Whatever a run of the buffer has done, only so many steps are left to the worker and
to the caller inside, and they stop only when the caller has returned: no schedule blocks a flush, a
read, a write or close.\<close>

theorem calls_return:
  assumes "buffer_run env (new_buffer s m n) evs st" and "(going_on env ^^ k) st st'"
  shows "k \<le> work_left st \<and> (bu_caller st' = Outside \<or> (\<exists>st''. going_on env st' st''))"
proof -
  note b = going_on_bounded [OF assms(2) run_inv [OF assms(1) new_buffer_inv]]
  then have "caller_inv st'" by (simp add: buffer_inv_def)
  from inside_goes_on [OF this, of env] b show ?thesis
    by (fastforce intro: continue_step.intros)
qed

section \<open>Counters\<close>

definition bit :: "bool \<Rightarrow> int" where
  "bit b = (if b then 1 else 0)"

fun uncounted :: "'w worker \<Rightarrow> int" where
  "uncounted (Counting ok p) = 1"
| "uncounted w = 0"

fun unsettled :: "'w worker \<Rightarrow> int" where
  "unsettled (Counting ok p) = 1"
| "unsettled (Settling p) = 1"
| "unsettled w = 0"

fun overflowing :: "('w, 'c) caller \<Rightarrow> int" where
  "overflowing (Overflow w) = 1"
| "overflowing c = 0"

fun overflow_uncounted :: "('w, 'c) caller \<Rightarrow> int" where
  "overflow_uncounted (OverflowCount ok) = 1"
| "overflow_uncounted c = 0"

definition counters_ok :: "('s, 'w, 'c) buffered \<Rightarrow> int \<Rightarrow> int \<Rightarrow> int \<Rightarrow> bool" where
  "counters_ok st a d y \<longleftrightarrow>
     bu_enqueued st + bit (bu_caller st = Enqueued) = a \<and>
     bu_dropped_to_sync st = y + overflowing (bu_caller st) \<and>
     bu_written st + bu_write_errors st + uncounted (bu_worker st) + overflow_uncounted (bu_caller st) = d + y \<and>
     bu_pending_writes st + bit (bu_caller st = Enqueued) =
       int (length (outstanding st)) + unsettled (bu_worker st)"

lemma step_counters:
  assumes "buffer_step env st ev st'" and "counters_ok st a d y"
  shows "counters_ok st' (a + int (length (accepted_writes [ev]))) (d + int (length (applied_writes [ev])))
    (y + int (length (synced_writes [ev])))"
  using assms(1)
proof cases
  case (enter k)
  with assms(2) show ?thesis
    by (cases k) (auto simp: begin_defs put_item_def counters_ok_def bit_def outstanding_def Let_def
      split: if_splits prod.splits)
next
  case go_on
  then show ?thesis
  proof cases
    case worker
    with assms(2) show ?thesis
      by (auto simp: step_defs counters_ok_def outstanding_def Let_def split: step_splits)
  next
    case caller
    with assms(2) show ?thesis
      by (auto simp: step_defs counters_ok_def bit_def outstanding_def Let_def
        split: caller.splits purpose.splits if_splits prod.splits)
  next
    case timeout
    with assms(2) show ?thesis
      by (auto simp: time_out_def counters_ok_def bit_def outstanding_def
        split: caller.splits purpose.splits bool.splits)
  qed
qed

lemma run_counters:
  "buffer_run env st evs st' \<Longrightarrow> counters_ok st 0 0 0 \<Longrightarrow>
   counters_ok st' (int (length (accepted_writes evs))) (int (length (applied_writes evs)))
     (int (length (synced_writes evs)))"
proof (induction rule: buffer_run.induct)
  case (step st evs st' ev st'')
  from step_counters [OF step.hyps(2) step.IH [OF step.prems]] show ?case by simp
qed simp

text \<open>The counters of a run: accepted writes, writes their callers made because the queue
was full, and writes made either way are counted once each, short only of the one whose thread has yet to
count it; the depth is the number of accepted writes not yet applied.\<close>

theorem counters_count:
  assumes "buffer_run env (new_buffer s m n) evs st"
    and "bu_caller st = Outside" and "bu_worker st = Waiting"
  shows "bu_enqueued st = int (length (accepted_writes evs)) \<and>
    bu_dropped_to_sync st = int (length (synced_writes evs)) \<and>
    bu_written st + bu_write_errors st = int (length (applied_writes evs) + length (synced_writes evs)) \<and>
    bu_pending_writes st = int (length (queued_writes (bu_queue st)))"
proof -
  have "counters_ok (new_buffer s m n) 0 0 0"
    by (simp add: counters_ok_def new_buffer_def bit_def outstanding_def)
  from run_counters [OF assms(1) this] show ?thesis
    by (simp add: counters_ok_def assms(2,3) bit_def outstanding_def)
qed

end
