(* ===== verification/Buffered_Store.thy ===== *)
theory Buffered_Store
  imports Buffered_Properties
begin

text \<open>
  The buffer around the evidence store: which operation of \<open>BufferedStorage\<close> is queued, which
  flushes first and which does neither, with the in-memory store as the wrapped storage.
\<close>

section \<open>Methods\<close>

datatype store_write =
    InsertTrace trace
  | InsertJudgment judgment_record
  | InsertSpan span_record

datatype store_call =
    ReplaceCapture agent_capture "trace list"
  | AppendCapture agent_capture "trace list"
  | GetTrace string
  | TraceOwner string
  | GetBundle string string
  | ListTraces "string option" "string option" nat
  | DeleteTrace string
  | TraceExists string

datatype store_answer =
    Done
  | Raised py_error
  | OneTrace "trace option"
  | Owner "string option"
  | Bundle "agent_capture option"
  | Traces "trace list"
  | Exists bool

type_synonym store_buffer = "(evidence_store, store_write, store_call) buffered"

definition buffered_insert_trace :: "trace \<Rightarrow> (store_write, store_call) call" where
  "buffered_insert_trace t = Enqueue (InsertTrace t)"

definition buffered_insert_judgment :: "judgment_record \<Rightarrow> (store_write, store_call) call" where
  "buffered_insert_judgment j = Enqueue (InsertJudgment j)"

definition buffered_insert_span :: "span_record \<Rightarrow> (store_write, store_call) call" where
  "buffered_insert_span s = Enqueue (InsertSpan s)"

definition buffered_replace_agent_capture :: "agent_capture \<Rightarrow> trace list \<Rightarrow> (store_write, store_call) call" where
  "buffered_replace_agent_capture bundle ts = FlushedCall (ReplaceCapture bundle ts)"

definition buffered_replace_agent_run_bundle :: "agent_capture \<Rightarrow> (store_write, store_call) call" where
  "buffered_replace_agent_run_bundle bundle = buffered_replace_agent_capture bundle []"

definition buffered_append_agent_capture :: "agent_capture \<Rightarrow> trace list \<Rightarrow> (store_write, store_call) call" where
  "buffered_append_agent_capture batch ts = FlushedCall (AppendCapture batch ts)"

definition buffered_get_trace :: "string \<Rightarrow> (store_write, store_call) call" where
  "buffered_get_trace i = FlushedCall (GetTrace i)"

definition buffered_trace_owner :: "string \<Rightarrow> (store_write, store_call) call" where
  "buffered_trace_owner i = FlushedCall (TraceOwner i)"

definition buffered_get_agent_run_bundle :: "string \<Rightarrow> string \<Rightarrow> (store_write, store_call) call" where
  "buffered_get_agent_run_bundle tenant run_id = FlushedCall (GetBundle tenant run_id)"

definition buffered_list_traces ::
  "string option \<Rightarrow> string option \<Rightarrow> nat \<Rightarrow> (store_write, store_call) call" where
  "buffered_list_traces tenant cluster limit = FlushedCall (ListTraces tenant cluster limit)"

definition buffered_delete_trace :: "string \<Rightarrow> (store_write, store_call) call" where
  "buffered_delete_trace i = FlushedCall (DeleteTrace i)"

definition buffered_trace_exists :: "string \<Rightarrow> (store_write, store_call) call" where
  "buffered_trace_exists i = DirectCall (TraceExists i)"

section \<open>The wrapped store\<close>

text \<open>A method that raises leaves the store as it was.\<close>

definition kept :: "evidence_store \<Rightarrow> evidence_store result \<Rightarrow> store_answer \<times> evidence_store" where
  "kept st r = (case r of Inl e \<Rightarrow> (Raised e, st) | Inr st' \<Rightarrow> (Done, st'))"

definition store_write :: "redactor \<Rightarrow> store_write \<Rightarrow> evidence_store \<Rightarrow> bool \<times> evidence_store" where
  "store_write rd w st =
     (let (answer, st') = (case w of
          InsertTrace t \<Rightarrow> kept st (insert_trace rd t st)
        | InsertJudgment j \<Rightarrow> (Done, insert_judgment j st)
        | InsertSpan s \<Rightarrow> kept st (insert_span rd s st))
      in (answer = Done, st'))"

definition store_call :: "redactor \<Rightarrow> store_call \<Rightarrow> evidence_store \<Rightarrow> store_answer \<times> evidence_store" where
  "store_call rd c st =
     (case c of
        ReplaceCapture bundle ts \<Rightarrow> kept st (replace_agent_capture rd bundle ts st)
      | AppendCapture batch ts \<Rightarrow> kept st (append_agent_capture rd batch ts st)
      | GetTrace i \<Rightarrow> (OneTrace (get_trace st i), st)
      | TraceOwner i \<Rightarrow> (Owner (trace_owner st i), st)
      | GetBundle tenant run_id \<Rightarrow>
          (case get_agent_run_bundle st tenant run_id of Inl e \<Rightarrow> Raised e | Inr b \<Rightarrow> Bundle b, st)
      | ListTraces tenant cluster limit \<Rightarrow> (Traces (list_traces st tenant cluster limit), st)
      | DeleteTrace i \<Rightarrow> (Done, delete_trace i st)
      | TraceExists i \<Rightarrow> (Exists (trace_exists st i), st))"

text \<open>The in-memory store forgets everything when it is closed.\<close>

definition close_store :: "evidence_store \<Rightarrow> evidence_store" where
  "close_store st = empty_store"

definition store_inner :: "redactor \<Rightarrow> (evidence_store, store_write, store_call, store_answer) inner" where
  "store_inner rd = \<lparr>in_write = store_write rd, in_call = store_call rd, in_close = close_store\<rparr>"

section \<open>What the wrapped storage must keep\<close>

definition good_event ::
  "('w \<Rightarrow> bool) \<Rightarrow> ('c \<Rightarrow> bool) \<Rightarrow> ('w, 'c, 'r) event \<Rightarrow> bool" where
  "good_event good_write good_call ev =
     (case ev of Accepted w \<Rightarrow> good_write w | Synced w _ \<Rightarrow> good_write w
      | Called c _ \<Rightarrow> good_call c | Checked c _ \<Rightarrow> good_call c | _ \<Rightarrow> True)"

locale buffered_invariant =
  fixes env :: "('s, 'w, 'c, 'r) inner" and good_write :: "'w \<Rightarrow> bool" and good_call :: "'c \<Rightarrow> bool"
    and inv :: "'s \<Rightarrow> bool"
  assumes write_keeps: "inv s \<Longrightarrow> good_write w \<Longrightarrow> inv (snd (in_write env w s))"
    and call_keeps: "inv s \<Longrightarrow> good_call c \<Longrightarrow> inv (snd (in_call env c s))"
    and close_keeps: "inv s \<Longrightarrow> inv (in_close env s)"
begin

lemma replay_keeps:
  "replay env evs s = Some s' \<Longrightarrow> inv s \<Longrightarrow> list_all good_write (applied_writes evs) \<Longrightarrow>
   list_all (good_event good_write good_call) evs \<Longrightarrow> inv s'"
  by (induction evs arbitrary: s)
    (auto simp: replay_event_def good_event_def write_keeps call_keeps close_keeps
      split: event.splits if_splits)

lemma good_accepted:
  "list_all (good_event good_write good_call) evs \<Longrightarrow> list_all good_write (accepted_writes evs)"
  by (induction evs) (auto simp: good_event_def split: event.splits)

lemma buffer_keeps:
  assumes "buffer_run env (new_buffer s m n) evs st" and "inv s"
    and "list_all (good_event good_write good_call) evs"
  shows "inv (bu_inner st)"
proof -
  have "list_all good_write (applied_writes evs)"
    using good_accepted [OF assms(3)] run_accounts [OF assms(1)] by simp
  with run_replays [OF assms(1)] assms(2,3) show ?thesis
    by (auto simp: new_buffer_def intro: replay_keeps)
qed

end

definition built_write :: "store_write \<Rightarrow> bool" where
  "built_write w = (case w of InsertTrace t \<Rightarrow> trace_built t | _ \<Rightarrow> True)"

definition built_call :: "store_call \<Rightarrow> bool" where
  "built_call c = (case c of
     ReplaceCapture b ts \<Rightarrow> capture_built b \<and> list_all trace_built ts
   | AppendCapture b ts \<Rightarrow> capture_built b \<and> list_all trace_built ts
   | _ \<Rightarrow> True)"

lemma store_write_steps:
  "built_write w \<Longrightarrow> snd (store_write rd w st) = st \<or> store_step rd st (snd (store_write rd w st))"
  by (auto simp: store_write_def kept_def built_write_def Let_def intro: store_step.intros
    split: store_write.splits sum.splits)

lemma store_call_steps:
  "built_call c \<Longrightarrow> snd (store_call rd c st) = st \<or> store_step rd st (snd (store_call rd c st))"
  by (auto simp: store_call_def kept_def built_call_def intro: store_step.intros
    split: store_call.splits sum.splits)

interpretation buffered_store: buffered_invariant "store_inner rd" built_write built_call
  "\<lambda>st. redactor_ok rd \<longrightarrow> store_wf st" for rd
proof unfold_locales
  fix st :: evidence_store and w c
  show "redactor_ok rd \<longrightarrow> store_wf (snd (in_write (store_inner rd) w st))"
    if "redactor_ok rd \<longrightarrow> store_wf st" "built_write w"
    using store_write_steps [OF that(2), of rd st] that(1) store_step_wf by (auto simp: store_inner_def)
  show "redactor_ok rd \<longrightarrow> store_wf (snd (in_call (store_inner rd) c st))"
    if "redactor_ok rd \<longrightarrow> store_wf st" "built_call c"
    using store_call_steps [OF that(2), of rd st] that(1) store_step_wf by (auto simp: store_inner_def)
  show "redactor_ok rd \<longrightarrow> store_wf (in_close (store_inner rd) st)"
    by (simp add: store_inner_def close_store_def store_wf_empty)
qed



text \<open>
  Concrete schedules of the write buffer: an executable driver for runs, the witnesses of the
  properties, and two schedules that show what the buffer does not promise.
\<close>

section \<open>Driving a run\<close>

datatype ('w, 'c) move = Enter "('w, 'c) call" | Work | Go

definition make_move ::
  "('s, 'w, 'c, 'r) inner \<Rightarrow> ('w, 'c) move \<Rightarrow> ('s, 'w, 'c) buffered \<Rightarrow>
     (('w, 'c, 'r) event \<times> ('s, 'w, 'c) buffered) option" where
  "make_move env mv st =
     (case mv of
        Enter k \<Rightarrow> (case bu_caller st of Outside \<Rightarrow> Some (begin_call env k st) | _ \<Rightarrow> None)
      | Work \<Rightarrow> worker_step env st
      | Go \<Rightarrow> caller_step env st)"

fun drive ::
  "('s, 'w, 'c, 'r) inner \<Rightarrow> ('w, 'c) move list \<Rightarrow> ('w, 'c, 'r) event list \<times> ('s, 'w, 'c) buffered \<Rightarrow>
     (('w, 'c, 'r) event list \<times> ('s, 'w, 'c) buffered) option" where
  "drive env [] (evs, st) = Some (evs, st)"
| "drive env (mv # mvs) (evs, st) =
     (case make_move env mv st of None \<Rightarrow> None | Some (ev, st') \<Rightarrow> drive env mvs (evs @ [ev], st'))"

lemma make_move_step: "make_move env mv st = Some (ev, st') \<Longrightarrow> buffer_step env st ev st'"
  by (auto simp: make_move_def intro: buffer_step.intros continue_step.intros
    split: move.splits caller.splits)

lemma drive_run:
  "drive env mvs (evs, st) = Some (evs', st') \<Longrightarrow> buffer_run env st0 evs st \<Longrightarrow> buffer_run env st0 evs' st'"
  by (induction mvs arbitrary: evs st)
    (auto intro: buffer_run.step make_move_step split: option.splits)

lemma drive_new:
  "drive env mvs ([], new_buffer s m n) = Some (evs, st) \<Longrightarrow> buffer_run env (new_buffer s m n) evs st"
  by (erule drive_run) (rule buffer_run.start)

section \<open>A list as storage\<close>

definition list_inner :: "(string list, string, unit, nat) inner" where
  "list_inner =
     \<lparr>in_write = (\<lambda>w s. if w = [] then (False, s) else (True, s @ [w])),
      in_call = (\<lambda>c s. (length s, s)), in_close = id\<rparr>"

text \<open>Two writes, of which the second raises, and a read.\<close>

definition read_moves :: "(string, unit) move list" where
  "read_moves = [Enter (Enqueue ''a''), Go, Enter (Enqueue []), Go, Enter (FlushedCall ()), Go,
     Work, Work, Work, Work, Work, Work, Work, Work, Work, Work, Go, Go]"

definition close_moves :: "(string, unit) move list" where
  "close_moves = [Enter Close, Go, Work, Work, Go, Go, Work, Go, Work, Work, Go, Enter (Enqueue ''b'')]"

definition read_run :: "(string, unit, nat) event list \<times> (string list, string, unit) buffered" where
  "read_run = the (drive list_inner read_moves ([], new_buffer [] 3 10))"

definition close_run :: "(string, unit, nat) event list \<times> (string list, string, unit) buffered" where
  "close_run = the (drive list_inner (read_moves @ close_moves) ([], new_buffer [] 3 10))"

lemma read_run_runs: "buffer_run list_inner (new_buffer [] 3 10) (fst read_run) (snd read_run)"
proof (rule drive_new [of _ read_moves])
  have "drive list_inner read_moves ([], new_buffer [] 3 10) \<noteq> None" by code_simp
  then show "drive list_inner read_moves ([], new_buffer [] 3 10) = Some (fst read_run, snd read_run)"
    by (auto simp: read_run_def)
qed

lemma close_run_runs: "buffer_run list_inner (new_buffer [] 3 10) (fst close_run) (snd close_run)"
proof (rule drive_new [of _ "read_moves @ close_moves"])
  have "drive list_inner (read_moves @ close_moves) ([], new_buffer [] 3 10) \<noteq> None" by code_simp
  then show "drive list_inner (read_moves @ close_moves) ([], new_buffer [] 3 10)
      = Some (fst close_run, snd close_run)"
    by (auto simp: close_run_def)
qed

theorem buffer_reads_its_writes_witness:
  "replay list_inner (fst read_run) [] = Some [''a''] \<and>
   prefix (applied_writes (fst read_run)) (accepted_writes (fst read_run)) \<and>
   applied_writes (butlast (fst read_run)) = [''a'', []] \<and> last (fst read_run) = Called () 1"
proof -
  have e: "fst read_run = butlast (fst read_run) @ Called () 1 # []" by code_simp
  have "accepted_writes (butlast (fst read_run)) = [''a'', []]" "bu_inner (snd read_run) = [''a'']"
    "last (fst read_run) = Called () 1" by code_simp+
  with buffer_reads_its_writes [OF read_run_runs] e show ?thesis by metis
qed

theorem closing_loses_no_write_witness:
  "bu_worker (snd close_run) = Exited \<and>
   applied_writes (fst close_run) = accepted_writes (fst close_run) \<and>
   accepted_writes (fst close_run) = [''a'', []] \<and> bu_inner (snd close_run) = [''a'']"
proof -
  have "fst close_run = take 28 (fst close_run) @ Closed # [ClosedError]" by code_simp
  moreover have "accepted_writes (fst close_run) = [''a'', []]" "bu_inner (snd close_run) = [''a'']"
    by code_simp+
  ultimately show ?thesis using closing_loses_no_write [OF close_run_runs] by metis
qed

theorem counters_count_witness:
  "bu_enqueued (snd read_run) = 2 \<and> bu_dropped_to_sync (snd read_run) = 0 \<and>
   bu_written (snd read_run) + bu_write_errors (snd read_run) = 2 \<and> bu_pending_writes (snd read_run) = 0"
proof -
  have "bu_caller (snd read_run) = Outside" "bu_worker (snd read_run) = Waiting" by code_simp+
  moreover have "accepted_writes (fst read_run) = [''a'', []]" "synced_writes (fst read_run) = []"
    "applied_writes (fst read_run) = [''a'', []]" "bu_queue (snd read_run) = []" by code_simp+
  ultimately show ?thesis using counters_count [OF read_run_runs] by simp
qed

definition waiting_run :: "(string, unit, nat) event list \<times> (string list, string, unit) buffered" where
  "waiting_run = the (drive list_inner (take 5 read_moves) ([], new_buffer [] 3 10))"

definition placed_run :: "(string, unit, nat) event list \<times> (string list, string, unit) buffered" where
  "placed_run = the (drive list_inner (take 6 read_moves) ([], new_buffer [] 3 10))"

theorem calls_return_witness:
  "work_left (snd waiting_run) = 34 \<and>
   (bu_caller (snd placed_run) = Outside \<or> (\<exists>st. going_on list_inner (snd placed_run) st))"
proof -
  have "drive list_inner (take 5 read_moves) ([], new_buffer [] 3 10) \<noteq> None" by code_simp
  then have run: "buffer_run list_inner (new_buffer [] 3 10) (fst waiting_run) (snd waiting_run)"
    by (intro drive_new [of _ "take 5 read_moves"]) (auto simp: waiting_run_def)
  have "caller_step list_inner (snd waiting_run) = Some (Silent, snd placed_run)" by code_simp
  then have "(going_on list_inner ^^ 1) (snd waiting_run) (snd placed_run)"
    by (auto intro: continue_step.caller)
  moreover have "work_left (snd waiting_run) = 34" by code_simp
  ultimately show ?thesis using calls_return [OF run] by blast
qed

section \<open>The evidence store behind the buffer\<close>

definition insert_moves :: "(store_write, store_call) move list" where
  "insert_moves = [Enter (buffered_append_agent_capture sample_capture [sample_trace]), Go, Work, Work, Go, Go]"

lemma insert_moves_run:
  "\<exists>st. drive (store_inner plain_redactor) insert_moves ([], new_buffer empty_store 3 10)
     = Some ([Silent, Silent, Silent, Silent, Silent, Called (AppendCapture sample_capture [sample_trace]) Done], st)
   \<and> bu_inner st = sample_store"
  by (simp add: insert_moves_def make_move_def buffered_append_agent_capture_def begin_defs
    new_buffer_def caller_defs queue_full_def put_item_def worker_step_def take_item_def work_at_def drain_step_def
    reach_def store_inner_def store_call_def kept_def sample_append)


section \<open>What is not promised\<close>

text \<open>The worker may apply and settle a write before the caller that queued it has counted it: the
depth a telemetry reader sees then is negative.\<close>

theorem queue_depth_may_be_negative:
  "\<exists>evs st. buffer_run list_inner (new_buffer [] 3 10) evs st \<and>
     dget (telemetry_snapshot st) ''queue_depth'' = Some (JInt (- 1))"
proof -
  let ?d = "drive list_inner [Enter (Enqueue ''a''), Work, Work, Work, Work, Work] ([], new_buffer [] 3 10)"
  have "map_option (\<lambda>r. dget (telemetry_snapshot (snd r)) ''queue_depth'') ?d = Some (Some (JInt (- 1)))"
    by code_simp
  then obtain evs st where d: "?d = Some (evs, st)"
    and "dget (telemetry_snapshot st) ''queue_depth'' = Some (JInt (- 1))" by auto
  with drive_new [OF d] show ?thesis by blast
qed

text \<open>A write made by its caller, because the queue was full, overtakes the writes still queued.\<close>

theorem full_queue_reorders:
  "\<exists>evs st. buffer_run list_inner (new_buffer [] 1 10) evs st \<and> bu_queue st = [Op ''first''] \<and>
     bu_inner st = [''second'']"
proof -
  let ?d = "drive list_inner [Enter (Enqueue ''first''), Go, Enter (Enqueue ''second''), Go, Go]
    ([], new_buffer [] 1 10)"
  have "map_option (\<lambda>r. (bu_queue (snd r), bu_inner (snd r))) ?d = Some ([Op ''first''], [''second''])"
    by code_simp
  then obtain evs st where d: "?d = Some (evs, st)" and "bu_queue st = [Op ''first'']" "bu_inner st = [''second'']"
    by auto
  with drive_new [OF d] show ?thesis by blast
qed

end
