(* ===== verification/Agent_Values.thy ===== *)
theory Agent_Values
  imports Evidence_Store Json_Laws Python_Env
begin

text \<open>
  What the capture contexts of \<open>verdict/agent.py\<close> make of the values of an application: bounded
  and redacted content, hashes and stable identifiers, and the attributes and the privacy class
  of an event.

  The sink, the redactor and the conversion of an integer to a float are parameters.  An exception
  of the application is the class that \<open>_terminal_status\<close> distinguishes, with its type name and
  text.  Values are JSON values; other Python objects, text that is not valid Unicode and integers
  beyond the interpreter's limit of printable digits do not occur.
\<close>

section \<open>Client and application\<close>

record 'w agent_client =
  ac_env :: py_env
  ac_redactor :: redactor
  ac_sink :: "agent_capture \<Rightarrow> trace list \<Rightarrow> 'w \<Rightarrow> unit result \<times> 'w"
  ac_float :: "int \<Rightarrow> rat"
  ac_tenant_id :: "string option"
  ac_capture_content :: bool
  ac_sample_rate :: rat
  ac_service_name :: string
  ac_environment :: string
  ac_identity :: "string \<times> int"

text \<open>When an operation happens: the time it reads, the time its capture is observed, and the
identifier \<open>uuid4().hex\<close> it draws.\<close>

record moment =
  mo_now :: int
  mo_observed :: int
  mo_uuid :: string

datatype app_exit = Returned | RaisedCancelled string string | RaisedTimeout string string | RaisedOther string string

section \<open>Bounded values\<close>

text \<open>\<open>encoded[:n].decode("utf-8", "ignore")\<close>: a character cut in two is dropped.\<close>

definition truncate_utf8 :: "string \<Rightarrow> nat \<Rightarrow> string" where
  "truncate_utf8 s maximum =
     (if length s \<le> maximum then s
      else if is_cont (s ! maximum)
      then rev (drop 1 (dropWhile is_cont (rev (take maximum s))))
      else take maximum s)"

definition max_content_bytes :: nat where
  "max_content_bytes = 4096"

definition agent_content :: "'w agent_client \<Rightarrow> string \<Rightarrow> string option" where
  "agent_content cl s =
     (if ac_capture_content cl
      then Some (truncate_utf8 (rd_plain (ac_redactor cl) s) max_content_bytes) else None)"

text \<open>The traversal counts the nodes it enters; each visit takes its depth and the count before it.\<close>

fun run_visits :: "(nat \<Rightarrow> nat \<Rightarrow> 'a \<times> nat) list \<Rightarrow> nat \<Rightarrow> nat \<Rightarrow> 'a list \<times> nat" where
  "run_visits [] d n = ([], n)"
| "run_visits (f # fs) d n =
     (let (x, n1) = f d n; (xs, n2) = run_visits fs d n1 in (x # xs, n2))"

definition omitted_bounded :: jval where
  "omitted_bounded = JStr ''<OMITTED:bounded>''"

definition enter_visit ::
  "nat \<Rightarrow> nat \<Rightarrow> nat \<Rightarrow> nat \<Rightarrow> (nat \<Rightarrow> jval \<times> nat) \<Rightarrow> jval \<times> nat" where
  "enter_visit max_depth max_nodes d n rest =
     (if max_nodes < n + 1 \<or> max_depth < d then (omitted_bounded, n + 1) else rest (n + 1))"

primrec visit :: "nat \<Rightarrow> nat \<Rightarrow> jval \<Rightarrow> nat \<Rightarrow> nat \<Rightarrow> jval \<times> nat" where
  "visit md mn JNull d n = enter_visit md mn d n (Pair JNull)"
| "visit md mn (JBool b) d n = enter_visit md mn d n (Pair (JBool b))"
| "visit md mn (JInt i) d n = enter_visit md mn d n (Pair (JInt i))"
| "visit md mn (JFloat q r) d n = enter_visit md mn d n (Pair (JFloat q r))"
| "visit md mn (JStr s) d n = enter_visit md mn d n (Pair (JStr (truncate_utf8 s 1024)))"
| "visit md mn (JList vs) d n = enter_visit md mn d n (\<lambda>m.
     let (ws, k) = run_visits (take 24 (map (visit md mn) vs)) (d + 1) m in (JList ws, k))"
| "visit md mn (JDict kvs) d n = enter_visit md mn d n (\<lambda>m.
     let (ws, k) = run_visits (take 24 (map snd (map (map_prod id (visit md mn)) kvs))) (d + 1) m
     in (JDict (fold (\<lambda>(key, w). dset (truncate_utf8 key 64) w) (zip (map fst kvs) ws) []), k))"

definition bounded_value :: "redactor \<Rightarrow> nat \<Rightarrow> nat \<Rightarrow> jval \<Rightarrow> jval" where
  "bounded_value rd max_depth max_nodes v =
     (let b = fst (visit max_depth max_nodes (rd_value rd v) 0 0) in
      if 12000 < length (json_dumps False b) then JStr ''<OMITTED:oversize>'' else b)"

definition agent_fingerprint :: "'w agent_client \<Rightarrow> (string, jval) dict \<Rightarrow> string" where
  "agent_fingerprint cl configuration =
     (if configuration = [] then []
      else pe_sha256 (ac_env cl) (''verdict-agent-configuration-v1'' @ [CHR 0x00]
        @ json_dumps False (sort_keys (bounded_value (ac_redactor cl) 4 128 (JDict configuration)))))"

definition hashed_field :: "'w agent_client \<Rightarrow> string \<Rightarrow> string" where
  "hashed_field cl s = pe_sha256 (ac_env cl) s"

definition check_id_hash :: "'w agent_client \<Rightarrow> string \<Rightarrow> string result" where
  "check_id_hash cl s =
     bindr (require (\<not> (strip s = [] \<or> CHR 0x00 \<in> set s \<or> 256 < length s))
       (ValueError ''check_id must be non-empty bounded text''))
     (\<lambda>_. Inr (pe_sha256 (ac_env cl) s))"

definition terminal_status :: "app_exit \<Rightarrow> execution_status" where
  "terminal_status e =
     (case e of Returned \<Rightarrow> COMPLETED | RaisedCancelled _ _ \<Rightarrow> CANCELLED
      | RaisedTimeout _ _ \<Rightarrow> TIMED_OUT | RaisedOther _ _ \<Rightarrow> FAILED)"

definition unavailable :: string where
  "unavailable = ''<UNAVAILABLE>''"

definition exception_evidence :: "'w agent_client \<Rightarrow> string \<Rightarrow> string \<Rightarrow> jval" where
  "exception_evidence cl type_name msg =
     JDict [(''error_type'', JStr type_name),
       (''message'', JStr (truncate_utf8
          (or_else (case agent_content cl msg of None \<Rightarrow> [] | Some s \<Rightarrow> s) unavailable) 1024))]"

section \<open>Identifiers\<close>

text \<open>\<open>re.sub(r"[^a-z0-9]+", "_", kind.lower()).strip("_")\<close>.\<close>

fun id_words :: "string \<Rightarrow> string" where
  "id_words [] = []"
| "id_words (c # cs) =
     (if is_digit c \<or> 97 \<le> ord c \<and> ord c \<le> 122 then c # id_words cs
      else (case id_words cs of CHR ''_'' # r \<Rightarrow> CHR ''_'' # r | r \<Rightarrow> CHR ''_'' # r))"

definition id_prefix :: "string \<Rightarrow> string" where
  "id_prefix kind =
     rev (dropWhile (\<lambda>c. c = CHR ''_'') (rev (dropWhile (\<lambda>c. c = CHR ''_'') (id_words (map lower_char kind)))))"

definition stable_evidence_id ::
  "py_env \<Rightarrow> string \<Rightarrow> string \<Rightarrow> string \<Rightarrow> string \<Rightarrow> string result" where
  "stable_evidence_id env kind source_kind source_scope source_id =
     bindr (checks [validate_text kind ''kind'' 4096, validate_text source_kind ''source_kind'' 4096,
       validate_text source_scope ''source_scope'' 4096, validate_text source_id ''source_id'' 4096,
       require (id_prefix kind \<noteq> []) (ValueError ''kind must contain an ASCII letter or number'')])
     (\<lambda>_. Inr (id_prefix kind @ ''_'' @ take 32 (pe_sha256 env
        (''verdict-evidence-v1'' @ [CHR 0x00] @ source_kind @ [CHR 0x00] @ source_scope
         @ [CHR 0x00] @ source_id))))"

definition hex_nat :: "string \<Rightarrow> nat" where
  "hex_nat s = foldl (\<lambda>a c. 16 * a + (if is_digit c then ord c - 48 else ord c - 87)) 0 s"

section \<open>Events\<close>

fun event_kind :: "agent_event_type \<Rightarrow> string" where
  "event_kind TOOL_CALL = ''tool_call_arguments''"
| "event_kind TOOL_RESULT = ''tool_result''"
| "event_kind _ = ''event_content''"

fun tool_content_field :: "agent_event_type \<Rightarrow> string option" where
  "tool_content_field TOOL_CALL = Some ''arguments''"
| "tool_content_field TOOL_RESULT = Some ''result''"
| "tool_content_field _ = None"

definition without_content :: "(string, jval) dict \<Rightarrow> (string, jval) dict" where
  "without_content attributes = filter (\<lambda>(k, v). k \<notin> set event_content_fields) attributes"

definition bound_attributes :: "redactor \<Rightarrow> (string, jval) dict \<Rightarrow> (string, jval) dict" where
  "bound_attributes rd attributes = map (map_prod id (bounded_value rd 3 112)) attributes"

definition over_redaction_limit :: "agent_event_type \<Rightarrow> string" where
  "over_redaction_limit ty = event_kind ty @ ''_exceeds_redaction_limit''"

text \<open>The arguments or the result of a tool, sanitized alone; the omission reason when the redactor
refuses them.\<close>

definition tool_attributes ::
  "redactor \<Rightarrow> agent_event_type \<Rightarrow> string \<Rightarrow> (string, jval) dict \<Rightarrow> (string, jval) dict \<times> string option" where
  "tool_attributes rd ty content_field safe =
     (let others = bound_attributes rd (filter (\<lambda>(k, v). k \<noteq> content_field) safe) in
      case dget safe content_field of
        None \<Rightarrow> (others, None)
      | Some v \<Rightarrow>
          (case dget (sanitize_agent_event_attributes rd ty [(content_field, v)]) content_field of
             Some w \<Rightarrow> (dset content_field (bounded_value rd 3 112 w) others, None)
           | None \<Rightarrow> (others, Some (over_redaction_limit ty))))"

text \<open>The attributes of any other event, sanitized together, bounded and sanitized again.\<close>

definition other_attributes ::
  "redactor \<Rightarrow> agent_event_type \<Rightarrow> bool \<Rightarrow> (string, jval) dict \<Rightarrow> (string, jval) dict \<times> string option" where
  "other_attributes rd ty content_captured safe =
     (let sanitized = sanitize_agent_event_attributes rd ty safe;
          lost = content_captured \<and> \<not> has_content_field sanitized;
          base = (if lost then sanitize_agent_event_attributes rd ty (without_content safe) else sanitized);
          final = sanitize_agent_event_attributes rd ty (bound_attributes rd base)
      in (final, if lost \<or> content_captured \<and> \<not> has_content_field final
                 then Some (over_redaction_limit ty) else None))"

definition safe_attributes ::
  "'w agent_client \<Rightarrow> agent_event_type \<Rightarrow> (string, jval) dict \<Rightarrow> (string, jval) dict \<times> string option" where
  "safe_attributes cl ty attributes =
     (let safe = (if ac_capture_content cl then attributes else without_content attributes) in
      case tool_content_field ty of
        Some f \<Rightarrow> tool_attributes (ac_redactor cl) ty f safe
      | None \<Rightarrow> other_attributes (ac_redactor cl) ty
          (has_content_field attributes \<and> ac_capture_content cl) safe)"

definition event_privacy :: "bool \<Rightarrow> bool \<Rightarrow> string option \<Rightarrow> privacy_classification" where
  "event_privacy has_content captured omission =
     (if omission \<noteq> None then OMITTED
      else if has_content \<and> captured then REDACTED
      else if has_content then OMITTED else METADATA)"

definition mentions :: "string \<Rightarrow> string \<Rightarrow> bool" where
  "mentions part s = list_ex (prefix part) (suffixes s)"

text \<open>An event whose content the constructor refuses keeps its other attributes.\<close>

definition build_event :: "agent_event \<Rightarrow> agent_event result" where
  "build_event e =
     (case post_init agent_event_checks e of
        Inl (ValueError msg) \<Rightarrow>
          (if has_content_field (e_attributes e)
           then post_init agent_event_checks (e\<lparr>e_attributes := without_content (e_attributes e),
             e_privacy := OMITTED, e_omission_reason := Some (event_kind (e_event_type e) @ ''_'' @
               (if mentions ''bounded'' msg then ''exceeds_event_limit'' else ''invalid_shape''))\<rparr>)
           else Inl (ValueError msg))
      | r \<Rightarrow> r)"

end
