(* ===== verification/Agent.thy ===== *)
theory Agent
  imports Agent_Values
begin

text \<open>
  The capture contexts of \<open>verdict/agent.py\<close>: the agent run, turn and tool contexts an
  application enters and leaves, the events it records, and the batches they hand to the
  capture sink.

  The contexts are objects of one thread of the application, kept in lists and named by their
  position; the two context variables hold the active run and turn.  The clock, the fresh
  identifiers and the exception that leaves a context are arguments of the operations.
\<close>

section \<open>State\<close>

record run_context =
  rc_name :: string
  rc_version :: string
  rc_session_id :: "string option"
  rc_external_id :: "string option"
  rc_parent_run_id :: "string option"
  rc_configuration :: "(string, jval) dict"
  rc_producer_id :: string
  rc_source_started_at :: int
  rc_run_id :: string
  rc_run :: "agent_run option"
  rc_source :: "source_session option"
  rc_token :: "nat option option"
  rc_turn_token :: "nat option option"
  rc_turn_sequence :: int
  rc_producer_sequence :: int
  rc_latest_turn :: "nat option"
  rc_capture_failed :: bool
  rc_entered :: bool
  rc_open :: bool
  rc_sampled :: bool

text \<open>A turn context together with the \<open>_TurnState\<close> it creates when it is entered.\<close>

record turn_context =
  tc_owner :: nat
  tc_user_input :: string
  tc_turn :: "agent_turn option"
  tc_next_event :: int
  tc_token :: "nat option option"
  tc_entered :: bool
  tc_output :: "string option"

record tool_context =
  lc_turn :: nat
  lc_name :: string
  lc_arguments :: jval
  lc_call_id :: string
  lc_origin :: "tool_origin option"
  lc_output :: jval
  lc_entered :: bool
  lc_closed :: bool

record 'w sdk =
  sk_runs :: "run_context list"
  sk_turns :: "turn_context list"
  sk_tools :: "tool_context list"
  sk_active_run :: "nat option"
  sk_active_turn :: "nat option"
  sk_dropped :: int
  sk_world :: 'w

definition new_sdk :: "'w \<Rightarrow> 'w sdk" where
  "new_sdk w = \<lparr>sk_runs = [], sk_turns = [], sk_tools = [], sk_active_run = None,
     sk_active_turn = None, sk_dropped = 0, sk_world = w\<rparr>"

definition change_run :: "nat \<Rightarrow> (run_context \<Rightarrow> run_context) \<Rightarrow> 'w sdk \<Rightarrow> 'w sdk" where
  "change_run i f st = st\<lparr>sk_runs := (sk_runs st)[i := f (sk_runs st ! i)]\<rparr>"

definition change_turn :: "nat \<Rightarrow> (turn_context \<Rightarrow> turn_context) \<Rightarrow> 'w sdk \<Rightarrow> 'w sdk" where
  "change_turn k f st = st\<lparr>sk_turns := (sk_turns st)[k := f (sk_turns st ! k)]\<rparr>"

definition change_tool :: "nat \<Rightarrow> (tool_context \<Rightarrow> tool_context) \<Rightarrow> 'w sdk \<Rightarrow> 'w sdk" where
  "change_tool k f st = st\<lparr>sk_tools := (sk_tools st)[k := f (sk_tools st ! k)]\<rparr>"

section \<open>Handing a batch to the sink\<close>

text \<open>One capture of a run, with its turn and event if any: dropped when the run is not sampled or a
capture of it failed before.\<close>

definition agent_batch ::
  "run_context \<Rightarrow> agent_turn option \<Rightarrow> agent_event option \<Rightarrow> int \<Rightarrow> source_session \<Rightarrow> agent_run
     \<Rightarrow> agent_capture result" where
  "agent_batch r turn event observed source run =
     bindr (post_init source_session_checks (source\<lparr>s_observed_at := observed\<rparr>))
     (\<lambda>session. post_init agent_capture_batch_checks
       \<lparr>c_session = session, c_run = run, c_turns = (case turn of None \<Rightarrow> [] | Some t \<Rightarrow> [t]),
        c_events = (case event of None \<Rightarrow> [] | Some e \<Rightarrow> [e])\<rparr>)"

definition emission_failed :: "nat \<Rightarrow> 'w sdk \<Rightarrow> bool \<times> 'w sdk" where
  "emission_failed i st =
     (False, change_run i (\<lambda>r. r\<lparr>rc_capture_failed := True\<rparr>) (st\<lparr>sk_dropped := sk_dropped st + 1\<rparr>))"

definition agent_emit ::
  "'w agent_client \<Rightarrow> nat \<Rightarrow> agent_turn option \<Rightarrow> agent_event option \<Rightarrow> trace option \<Rightarrow> int
     \<Rightarrow> 'w sdk \<Rightarrow> bool \<times> 'w sdk" where
  "agent_emit cl i turn event tr observed st =
     (let r = sk_runs st ! i in
      case (rc_sampled r, rc_source r, rc_run r) of
        (True, Some source, Some run) \<Rightarrow>
          (if rc_capture_failed r then (False, st\<lparr>sk_dropped := sk_dropped st + 1\<rparr>)
           else case agent_batch r turn event observed source run of
               Inl e \<Rightarrow> emission_failed i st
             | Inr batch \<Rightarrow>
                 (case ac_sink cl batch (case tr of None \<Rightarrow> [] | Some t \<Rightarrow> [t]) (sk_world st) of
                    (Inl e, w) \<Rightarrow> emission_failed i (st\<lparr>sk_world := w\<rparr>)
                  | (Inr _, w) \<Rightarrow> (True, st\<lparr>sk_world := w\<rparr>)))
      | _ \<Rightarrow> (False, st))"

section \<open>Events of a turn\<close>

definition draft_event ::
  "'w agent_client \<Rightarrow> run_context \<Rightarrow> agent_turn \<Rightarrow> agent_event_type \<Rightarrow> (string, jval) dict \<Rightarrow>
     execution_status \<Rightarrow> int \<Rightarrow> string option \<Rightarrow> string \<Rightarrow> agent_event result" where
  "draft_event cl r turn ty attributes status occurred_at trace_id uuid =
     (let has_content = has_content_field attributes;
          (safe, omission) = safe_attributes cl ty attributes in
      build_event
        \<lparr>e_event_id = ''event_'' @ uuid, e_turn_id = t_turn_id turn, e_sequence = 0,
         e_occurred_at = occurred_at, e_event_type = ty, e_status = status,
         e_provenance = ''verdict:sdk'', e_attributes = safe,
         e_privacy = event_privacy has_content (ac_capture_content cl) omission,
         e_omission_reason = (if has_content \<and> \<not> ac_capture_content cl
            then Some ''content_capture_disabled'' else omission),
         e_trace_id = trace_id, e_producer_id = rc_producer_id r,
         e_producer_sequence = Some 0, e_parent_event_id = None\<rparr>)"

text \<open>\<open>_event\<close> and \<open>emit\<close>: the sequence numbers are drawn once the event is built.\<close>

definition turn_event ::
  "'w agent_client \<Rightarrow> nat \<Rightarrow> agent_event_type \<Rightarrow> (string, jval) dict \<Rightarrow> execution_status \<Rightarrow> int \<Rightarrow>
     trace option \<Rightarrow> moment \<Rightarrow> 'w sdk \<Rightarrow> (py_error + bool) \<times> 'w sdk" where
  "turn_event cl k ty attributes status occurred_at tr mo st =
     (let c = sk_turns st ! k; i = tc_owner c; r = sk_runs st ! i in
      case tc_turn c of
        None \<Rightarrow> (Inl (AttributeError ''_state''), st)
      | Some turn \<Rightarrow>
          (case draft_event cl r turn ty attributes status occurred_at (map_option tr_trace_id tr) (mo_uuid mo) of
             Inl e \<Rightarrow> (Inl e, st)
           | Inr event \<Rightarrow>
               (let st1 = change_run i (\<lambda>r. r\<lparr>rc_producer_sequence := rc_producer_sequence r + 1\<rparr>)
                      (change_turn k (\<lambda>c. c\<lparr>tc_next_event := tc_next_event c + 1\<rparr>) st)
                in case post_init agent_event_checks (event\<lparr>e_sequence := tc_next_event c,
                       e_producer_sequence := Some (rc_producer_sequence r)\<rparr>) of
                     Inl e \<Rightarrow> (Inl e, st1)
                   | Inr event' \<Rightarrow>
                       (let (ok, st2) = agent_emit cl i (Some turn) (Some event') tr (mo_observed mo) st1
                        in (Inr ok, st2)))))"

section \<open>Runs\<close>

definition active_run_required :: "nat \<Rightarrow> 'w sdk \<Rightarrow> py_error + unit" where
  "active_run_required i st =
     require (rc_open (sk_runs st ! i) \<and> sk_active_run st = Some i)
       (RuntimeError ''operation requires an active agent run'')"

definition new_run ::
  "'w agent_client \<Rightarrow> string \<Rightarrow> string \<Rightarrow> string option \<Rightarrow> string option \<Rightarrow> string option \<Rightarrow>
     (string, jval) dict \<Rightarrow> 'w sdk \<Rightarrow> unit result \<times> 'w sdk" where
  "new_run cl name version session_id external_id parent_run_id configuration st =
     (if name = [] then (Inl (ValueError ''agent name must be non-empty text''), st)
      else (Inr (), st\<lparr>sk_runs := sk_runs st @
        [\<lparr>rc_name = name, rc_version = version, rc_session_id = session_id,
          rc_external_id = external_id, rc_parent_run_id = parent_run_id,
          rc_configuration = configuration, rc_producer_id = fst (ac_identity cl),
          rc_source_started_at = snd (ac_identity cl), rc_run_id = [], rc_run = None,
          rc_source = None, rc_token = None, rc_turn_token = None, rc_turn_sequence = 0,
          rc_producer_sequence = 0, rc_latest_turn = None, rc_capture_failed = False,
          rc_entered = False, rc_open = False, rc_sampled = False\<rparr>]\<rparr>))"

definition or_other :: "string option \<Rightarrow> string option \<Rightarrow> string option" where
  "or_other a b = (case a of None \<Rightarrow> b | Some [] \<Rightarrow> b | _ \<Rightarrow> a)"

definition run_sampled :: "'w agent_client \<Rightarrow> run_context option \<Rightarrow> string \<Rightarrow> bool" where
  "run_sampled cl parent run_id =
     (case parent of
        Some p \<Rightarrow> rc_sampled p
      | None \<Rightarrow> ac_float cl (int (hex_nat (take 16 (pe_sha256 (ac_env cl) run_id)))) / 2 ^ 64
                  < ac_sample_rate cl)"

definition run_source :: "'w agent_client \<Rightarrow> run_context \<Rightarrow> string \<Rightarrow> int \<Rightarrow> source_session" where
  "run_source cl r source_id now =
     \<lparr>s_source_session_id = source_id, s_tenant_id = tenant_or_local (ac_tenant_id cl),
      s_source_kind = ''verdict_sdk'', s_source_locator_hash = hashed_field cl (rc_producer_id r),
      s_started_at = rc_source_started_at r, s_observed_at = now, s_ended_at = None\<rparr>"

definition run_record ::
  "'w agent_client \<Rightarrow> run_context \<Rightarrow> string \<Rightarrow> string \<Rightarrow> string option \<Rightarrow> int \<Rightarrow> agent_run" where
  "run_record cl r source_id run_id parent_id now =
     \<lparr>r_run_id = run_id, r_source_session_id = source_id,
      r_tenant_id = tenant_or_local (ac_tenant_id cl), r_started_at = now, r_status = UNKNOWN,
      r_ended_at = None, r_agent_name = rc_name r, r_agent_version = rc_version r,
      r_configuration_fingerprint = agent_fingerprint cl (rc_configuration r),
      r_session_id = rc_session_id r, r_parent_run_id = parent_id,
      r_service_name = ac_service_name cl, r_environment = ac_environment cl,
      r_instance_id = rc_producer_id r\<rparr>"

text \<open>Entering: what was assigned before a failure stays.\<close>

definition enter_run ::
  "'w agent_client \<Rightarrow> nat \<Rightarrow> moment \<Rightarrow> 'w sdk \<Rightarrow> unit result \<times> 'w sdk" where
  "enter_run cl i mo st =
     (let r = sk_runs st ! i in
      if rc_entered r then (Inl (RuntimeError ''agent run context cannot be entered twice''), st)
      else
       (let st1 = change_run i (\<lambda>r. r\<lparr>rc_entered := True, rc_open := True\<rparr>) st;
            parent = map_option (\<lambda>p. sk_runs st1 ! p) (sk_active_run st) in
        case stable_evidence_id (ac_env cl) ''source'' ''verdict_sdk'' ''process'' (rc_producer_id r) of
          Inl e \<Rightarrow> (Inl e, st1)
        | Inr source_id \<Rightarrow>
        (case stable_evidence_id (ac_env cl) ''run'' ''verdict_sdk'' (rc_producer_id r)
            (or_else (case rc_external_id r of None \<Rightarrow> [] | Some x \<Rightarrow> x) (mo_uuid mo)) of
          Inl e \<Rightarrow> (Inl e, st1)
        | Inr run_id \<Rightarrow>
        (let st2 = change_run i (\<lambda>r. r\<lparr>rc_run_id := run_id\<rparr>) st1;
             parent_id = or_other (rc_parent_run_id r) (map_option rc_run_id parent) in
         if parent_id = Some run_id
         then (Inl (ValueError ''agent run cannot be its own parent''), st2)
         else
         (let st3 = change_run i (\<lambda>r. r\<lparr>rc_sampled := run_sampled cl parent run_id\<rparr>) st2 in
          case post_init source_session_checks (run_source cl r source_id (mo_now mo)) of
            Inl e \<Rightarrow> (Inl e, st3)
          | Inr source \<Rightarrow>
          (let st4 = change_run i (\<lambda>r. r\<lparr>rc_source := Some source\<rparr>) st3 in
           case post_init agent_run_checks (run_record cl r source_id run_id parent_id (mo_now mo)) of
             Inl e \<Rightarrow> (Inl e, st4)
           | Inr run \<Rightarrow>
             (let st5 = snd (agent_emit cl i None None None (mo_observed mo)
                    (change_run i (\<lambda>r. r\<lparr>rc_run := Some run\<rparr>) st4))
              in (Inr (), (change_run i (\<lambda>r. r\<lparr>rc_turn_token := Some (sk_active_turn st5),
                     rc_token := Some (sk_active_run st5)\<rparr>) st5)
                   \<lparr>sk_active_turn := None, sk_active_run := Some i\<rparr>))))))))"

definition exit_run ::
  "'w agent_client \<Rightarrow> nat \<Rightarrow> app_exit \<Rightarrow> moment \<Rightarrow> 'w sdk \<Rightarrow> unit result \<times> 'w sdk" where
  "exit_run cl i e mo st =
     (let r = sk_runs st ! i in
      case (rc_token r, rc_turn_token r, rc_run r) of
        (Some previous, Some previous_turn, Some run) \<Rightarrow>
          (if sk_active_turn st \<noteq> None
           then (Inl (RuntimeError ''agent run cannot close with an active turn''), st)
           else
            (let st1 = (change_run i (\<lambda>r. r\<lparr>rc_token := None, rc_turn_token := None\<rparr>) st)
                   \<lparr>sk_active_run := previous, sk_active_turn := previous_turn\<rparr> in
             case post_init agent_run_checks
                 (run\<lparr>r_status := terminal_status e, r_ended_at := Some (mo_now mo)\<rparr>) of
               Inl x \<Rightarrow> (Inl x, st1)
             | Inr run' \<Rightarrow>
                 (Inr (), change_run i (\<lambda>r. r\<lparr>rc_open := False\<rparr>)
                   (snd (agent_emit cl i None None None (mo_observed mo)
                      (change_run i (\<lambda>r. r\<lparr>rc_run := Some run'\<rparr>) st1))))))
      | _ \<Rightarrow> (Inl (RuntimeError ''agent run context was not entered''), st))"

section \<open>Turns\<close>

definition new_turn :: "nat \<Rightarrow> jval \<Rightarrow> 'w sdk \<Rightarrow> unit result \<times> 'w sdk" where
  "new_turn i user_input st =
     (case active_run_required i st of
        Inl e \<Rightarrow> (Inl e, st)
      | Inr _ \<Rightarrow>
          (case user_input of
             JStr s \<Rightarrow> (Inr (), st\<lparr>sk_turns := sk_turns st @
               [\<lparr>tc_owner = i, tc_user_input = s, tc_turn = None, tc_next_event = 0,
                 tc_token = None, tc_entered = False, tc_output = None\<rparr>]\<rparr>)
           | _ \<Rightarrow> (Inl (ValueError ''agent turn user_input must be text''), st)))"

definition first_turn :: "'w agent_client \<Rightarrow> turn_context \<Rightarrow> string \<Rightarrow> moment \<Rightarrow> agent_turn" where
  "first_turn cl c run_id mo =
     (let request = agent_content cl (tc_user_input c) in
      \<lparr>t_turn_id = ''turn_'' @ mo_uuid mo, t_run_id = run_id, t_sequence = 0,
       t_started_at = mo_now mo, t_status = UNKNOWN, t_ended_at = None,
       t_user_request_redacted = request, t_final_response_redacted = None,
       t_request_state = (if request \<noteq> None then PRESENT else NOT_CAPTURED),
       t_response_state = NOT_CAPTURED, t_input_tokens = None, t_cached_input_tokens = None,
       t_cache_write_input_tokens = None, t_output_tokens = None,
       t_reasoning_output_tokens = None, t_total_tokens = None, t_token_usage_basis = None,
       t_request_truncated = False, t_response_truncated = False, t_progress_redacted = None\<rparr>)"

definition enter_turn ::
  "'w agent_client \<Rightarrow> nat \<Rightarrow> moment \<Rightarrow> 'w sdk \<Rightarrow> unit result \<times> 'w sdk" where
  "enter_turn cl k mo st =
     (let c = sk_turns st ! k; i = tc_owner c; r = sk_runs st ! i in
      if tc_entered c then (Inl (RuntimeError ''agent turn context cannot be entered twice''), st)
      else if sk_active_turn st \<noteq> None
      then (Inl (RuntimeError ''agent turns cannot be nested''), st)
      else case post_init agent_turn_checks (first_turn cl c (rc_run_id r) mo) of
          Inl e \<Rightarrow> (Inl e, st)
        | Inr turn0 \<Rightarrow>
            (let st1 = change_run i (\<lambda>r. r\<lparr>rc_turn_sequence := rc_turn_sequence r + 1\<rparr>) st in
             case post_init agent_turn_checks (turn0\<lparr>t_sequence := rc_turn_sequence r\<rparr>) of
               Inl e \<Rightarrow> (Inl e, st1)
             | Inr turn \<Rightarrow>
                 (let st2 = change_run i (\<lambda>r. r\<lparr>rc_latest_turn := Some k\<rparr>)
                        (change_turn k (\<lambda>c. c\<lparr>tc_entered := True, tc_turn := Some turn, tc_next_event := 0\<rparr>) st1);
                      st3 = snd (agent_emit cl i (Some turn) None None (mo_observed mo) st2)
                  in (Inr (), (change_turn k (\<lambda>c. c\<lparr>tc_token := Some (sk_active_turn st3)\<rparr>) st3)
                        \<lparr>sk_active_turn := Some k\<rparr>))))"

definition last_turn :: "'w agent_client \<Rightarrow> turn_context \<Rightarrow> agent_turn \<Rightarrow> app_exit \<Rightarrow> moment \<Rightarrow> agent_turn" where
  "last_turn cl c turn e mo =
     (let response = (case (e, tc_output c) of (Returned, Some s) \<Rightarrow> agent_content cl s | _ \<Rightarrow> None) in
      turn\<lparr>t_status := terminal_status e, t_ended_at := Some (mo_now mo),
           t_final_response_redacted := response,
           t_response_state := (if response \<noteq> None then PRESENT
             else if ac_capture_content cl then MISSING else NOT_CAPTURED)\<rparr>)"

definition exit_turn ::
  "'w agent_client \<Rightarrow> nat \<Rightarrow> app_exit \<Rightarrow> moment \<Rightarrow> 'w sdk \<Rightarrow> unit result \<times> 'w sdk" where
  "exit_turn cl k e mo st =
     (let c = sk_turns st ! k in
      case (tc_token c, tc_turn c) of
        (Some previous, Some turn) \<Rightarrow>
          (let st1 = (change_turn k (\<lambda>c. c\<lparr>tc_token := None\<rparr>) st)\<lparr>sk_active_turn := previous\<rparr> in
           case post_init agent_turn_checks (last_turn cl c turn e mo) of
             Inl x \<Rightarrow> (Inl x, st1)
           | Inr turn' \<Rightarrow>
               (Inr (), snd (agent_emit cl (tc_owner c) (Some turn') None None (mo_observed mo)
                  (change_turn k (\<lambda>c. c\<lparr>tc_turn := Some turn'\<rparr>) st1))))
      | _ \<Rightarrow> (Inl (RuntimeError ''agent turn context was not entered''), st))"

definition active_turn_required :: "nat \<Rightarrow> 'w sdk \<Rightarrow> py_error + unit" where
  "active_turn_required k st =
     require (tc_token (sk_turns st ! k) \<noteq> None \<and> sk_active_turn st = Some k)
       (RuntimeError ''operation requires an active agent turn'')"

definition set_output :: "nat \<Rightarrow> jval \<Rightarrow> 'w sdk \<Rightarrow> unit result \<times> 'w sdk" where
  "set_output k output st =
     (case active_turn_required k st of
        Inl e \<Rightarrow> (Inl e, st)
      | Inr _ \<Rightarrow>
          (case output of
             JStr s \<Rightarrow> (Inr (), change_turn k (\<lambda>c. c\<lparr>tc_output := Some s\<rparr>) st)
           | _ \<Rightarrow> (Inl (ValueError ''agent turn output must be text''), st)))"

text \<open>An operation that only emits an event reports nothing of what became of it.\<close>

definition forget :: "(py_error + bool) \<times> 'w sdk \<Rightarrow> unit result \<times> 'w sdk" where
  "forget x = (case fst x of Inl e \<Rightarrow> Inl e | Inr _ \<Rightarrow> Inr (), snd x)"

type_synonym event_facts = "agent_event_type \<times> (string, jval) dict \<times> execution_status"

definition record_event ::
  "'w agent_client \<Rightarrow> nat \<Rightarrow> event_facts result \<Rightarrow> moment \<Rightarrow> 'w sdk \<Rightarrow> unit result \<times> 'w sdk" where
  "record_event cl k facts mo st =
     (case facts of
        Inl e \<Rightarrow> (Inl e, st)
      | Inr (ty, attributes, status) \<Rightarrow>
          (case active_turn_required k st of
             Inl e \<Rightarrow> (Inl e, st)
           | Inr _ \<Rightarrow> forget (turn_event cl k ty attributes status (mo_now mo) None mo st)))"

definition instruction_facts :: "string \<Rightarrow> string \<Rightarrow> string \<Rightarrow> bool \<Rightarrow> event_facts result" where
  "instruction_facts name content source available =
     bindr (require (name \<noteq> []) (ValueError ''instruction name must be non-empty text''))
     (\<lambda>_. Inr (INSTRUCTION, [(''name'', JStr name), (''text'', JStr content), (''source'', JStr source),
        (''available'', JBool available)], COMPLETED))"

definition context_facts :: "string \<Rightarrow> jval \<Rightarrow> string \<Rightarrow> bool \<Rightarrow> event_facts result" where
  "context_facts name v source available =
     bindr (require (name \<noteq> []) (ValueError ''context name must be non-empty text''))
     (\<lambda>_. Inr (CONTEXT, [(''name'', JStr name), (''value'', v), (''source'', JStr source),
        (''available'', JBool available)], COMPLETED))"

definition optional :: "string \<Rightarrow> jval option \<Rightarrow> (string, jval) dict" where
  "optional name v = (case v of None \<Rightarrow> [] | Some x \<Rightarrow> [(name, x)])"

definition exit_status :: "int \<Rightarrow> execution_status" where
  "exit_status exit_code = (if exit_code = 0 then COMPLETED else FAILED)"

definition checked_id :: "'w agent_client \<Rightarrow> string option \<Rightarrow> string option result" where
  "checked_id cl check_id =
     (case check_id of None \<Rightarrow> Inr None | Some s \<Rightarrow> bindr (check_id_hash cl s) (\<lambda>h. Inr (Some h)))"

definition command_facts ::
  "'w agent_client \<Rightarrow> string \<Rightarrow> int \<Rightarrow> string option \<Rightarrow> string option \<Rightarrow> string option \<Rightarrow> string option \<Rightarrow>
     event_facts result" where
  "command_facts cl command exit_code cwd stdout stderr check_id =
     bindr (checked_id cl check_id)
     (\<lambda>h. Inr (COMMAND, [(''command'', JStr command), (''exit_code'', JInt exit_code)]
        @ optional ''cwd_hash'' (map_option (\<lambda>s. JStr (hashed_field cl s)) cwd)
        @ optional ''stdout'' (map_option JStr stdout) @ optional ''stderr'' (map_option JStr stderr)
        @ optional ''check_id_hash'' (map_option JStr h), exit_status exit_code))"

definition test_facts ::
  "'w agent_client \<Rightarrow> string \<Rightarrow> int \<Rightarrow> int \<Rightarrow> int \<Rightarrow> int \<Rightarrow> string option \<Rightarrow> string option \<Rightarrow>
     event_facts result" where
  "test_facts cl command exit_code passed failed skipped output check_id =
     bindr (checked_id cl check_id)
     (\<lambda>h. Inr (TEST_RESULT, [(''command'', JStr command), (''exit_code'', JInt exit_code),
        (''passed'', JInt passed), (''failed'', JInt failed), (''skipped'', JInt skipped)]
        @ optional ''output'' (map_option JStr output)
        @ optional ''check_id_hash'' (map_option JStr h), exit_status exit_code))"

definition artifact_facts ::
  "'w agent_client \<Rightarrow> string \<Rightarrow> string \<Rightarrow> bool \<Rightarrow> string option \<Rightarrow> event_facts result" where
  "artifact_facts cl path action authoritative state =
     Inr (ARTIFACT, [(''path_hash'', JStr (hashed_field cl path)), (''action'', JStr action),
       (''authoritative'', JBool authoritative)] @ optional ''state'' (map_option JStr state), COMPLETED)"

definition retry_facts :: "string \<Rightarrow> int \<Rightarrow> string \<Rightarrow> event_facts result" where
  "retry_facts reason attempt oper =
     Inr (RETRY, [(''reason'', JStr reason), (''attempt'', JInt attempt)]
       @ optional ''operation'' (if oper = [] then None else Some (JStr oper)), COMPLETED)"

definition handoff_facts :: "string \<Rightarrow> string \<Rightarrow> string \<Rightarrow> event_facts result" where
  "handoff_facts agent_name child_run_id state =
     Inr (SUBAGENT, [(''agent_name'', JStr agent_name), (''action'', JStr ''handoff''),
       (''child_run_id'', JStr child_run_id), (''state'', JStr state)], COMPLETED)"

definition valid_feedback_kinds :: "string list" where
  "valid_feedback_kinds =
     [''thumbs_up'', ''thumbs_down'', ''copy'', ''regenerate'', ''retry'', ''abandon'', ''accept'',
      ''follow_up_question'', ''no_signal'']"

definition feedback_facts :: "string \<Rightarrow> jval \<Rightarrow> event_facts result" where
  "feedback_facts kind v =
     bindr (require (kind \<in> set valid_feedback_kinds) (ValueError ''unknown feedback kind''))
     (\<lambda>_. Inr (FEEDBACK, [(''kind'', JStr kind), (''value'', v)], COMPLETED))"

definition outcome_facts :: "string \<Rightarrow> jval \<Rightarrow> string \<Rightarrow> event_facts result" where
  "outcome_facts name v source =
     Inr (OUTCOME, [(''name'', JStr name), (''value'', v), (''source'', JStr source)], COMPLETED)"

definition record_business_outcome ::
  "'w agent_client \<Rightarrow> nat \<Rightarrow> string \<Rightarrow> jval \<Rightarrow> string \<Rightarrow> moment \<Rightarrow> 'w sdk \<Rightarrow> unit result \<times> 'w sdk" where
  "record_business_outcome cl i name v source mo st =
     (case active_run_required i st of
        Inl e \<Rightarrow> (Inl e, st)
      | Inr _ \<Rightarrow>
          (case rc_latest_turn (sk_runs st ! i) of
             None \<Rightarrow> (Inl (RuntimeError ''a business outcome requires at least one agent turn''), st)
           | Some k \<Rightarrow> forget (turn_event cl k OUTCOME
               [(''name'', JStr name), (''value'', v), (''source'', JStr source)]
               (if v = JBool False then FAILED else COMPLETED) (mo_now mo) None mo st)))"

section \<open>Model calls\<close>

text \<open>The facts of a trace that are neither \<open>None\<close> nor empty text.\<close>

definition model_facts :: "(rat \<Rightarrow> jval) \<Rightarrow> trace \<Rightarrow> (string, jval) dict" where
  "model_facts num t = filter (\<lambda>(k, v). v \<noteq> JStr [])
     (optional ''provider'' (Some (JStr (tr_provider t)))
      @ optional ''request_model'' (Some (JStr (tr_request_model t)))
      @ optional ''response_model'' (Some (JStr (tr_response_model t)))
      @ optional ''operation'' (Some (JStr (operation_value (tr_operation t))))
      @ optional ''finish_reason'' (map_option JStr (tr_finish_reason t))
      @ optional ''input_tokens'' (map_option JInt (tr_input_tokens t))
      @ optional ''output_tokens'' (map_option JInt (tr_output_tokens t))
      @ optional ''latency_ms'' (map_option num (tr_latency_ms t))
      @ optional ''error'' (map_option JStr (tr_error t)))"

definition capture_model_trace ::
  "'w agent_client \<Rightarrow> nat \<Rightarrow> trace \<Rightarrow> moment \<Rightarrow> 'w sdk \<Rightarrow> (py_error + bool) \<times> 'w sdk" where
  "capture_model_trace cl k t mo st =
     turn_event cl k MODEL_CALL (model_facts (\<lambda>q. JFloat q (pe_repr (ac_env cl) q)) t)
       (if tr_error t \<noteq> None then FAILED else COMPLETED) (tr_started_at t) (Some t) mo st"

text \<open>The snapshot a provider call takes of the turn that initiates it.\<close>

definition current_agent_trace_context :: "'w sdk \<Rightarrow> (nat \<times> bool) option" where
  "current_agent_trace_context st =
     (case sk_active_turn st of
        None \<Rightarrow> None
      | Some k \<Rightarrow>
          (let c = sk_turns st ! k; r = sk_runs st ! tc_owner c in
           if rc_open r \<and> map_option t_status (tc_turn c) = Some UNKNOWN
           then Some (k, rc_sampled r) else None))"

definition clear_agent_context :: "'w sdk \<Rightarrow> 'w sdk" where
  "clear_agent_context st = st\<lparr>sk_active_turn := None, sk_active_run := None\<rparr>"

section \<open>Tools\<close>

definition new_tool ::
  "nat \<Rightarrow> string \<Rightarrow> jval \<Rightarrow> string option \<Rightarrow> tool_origin option \<Rightarrow> moment \<Rightarrow> 'w sdk \<Rightarrow> unit result \<times> 'w sdk" where
  "new_tool k name arguments call_id origin mo st =
     (case checks [active_turn_required k st,
         require (name \<noteq> []) (ValueError ''tool name must be non-empty text''),
         require (case call_id of None \<Rightarrow> True | Some s \<Rightarrow> CHR 0x00 \<notin> set s)
           (ValueError ''tool call_id must be valid text'')] of
        Inl e \<Rightarrow> (Inl e, st)
      | Inr _ \<Rightarrow> (Inr (), st\<lparr>sk_tools := sk_tools st @
          [\<lparr>lc_turn = k, lc_name = truncate_utf8 name 256, lc_arguments = arguments,
            lc_call_id = or_else (case call_id of None \<Rightarrow> [] | Some s \<Rightarrow> s) (''call_'' @ mo_uuid mo),
            lc_origin = origin, lc_output = JNull, lc_entered = False, lc_closed = False\<rparr>]\<rparr>))"

definition set_tool_output :: "nat \<Rightarrow> jval \<Rightarrow> 'w sdk \<Rightarrow> unit result \<times> 'w sdk" where
  "set_tool_output l output st =
     (if \<not> lc_entered (sk_tools st ! l) \<or> lc_closed (sk_tools st ! l)
      then (Inl (RuntimeError ''tool output requires an active tool context''), st)
      else (Inr (), change_tool l (\<lambda>c. c\<lparr>lc_output := output\<rparr>) st))"

definition enter_tool ::
  "'w agent_client \<Rightarrow> nat \<Rightarrow> moment \<Rightarrow> 'w sdk \<Rightarrow> unit result \<times> 'w sdk" where
  "enter_tool cl l mo st =
     (let c = sk_tools st ! l in
      case checks [active_turn_required (lc_turn c) st,
          require (\<not> lc_entered c) (RuntimeError ''tool context cannot be entered twice'')] of
        Inl e \<Rightarrow> (Inl e, st)
      | Inr _ \<Rightarrow> forget (turn_event cl (lc_turn c) TOOL_CALL
          ([(''tool_name'', JStr (lc_name c)), (''arguments'', lc_arguments c),
            (''call_id'', JStr (lc_call_id c))]
           @ optional ''tool_origin'' (map_option (\<lambda>origin. JStr (tool_origin_value origin)) (lc_origin c)))
          COMPLETED (mo_now mo) None mo (change_tool l (\<lambda>c. c\<lparr>lc_entered := True\<rparr>) st)))"

definition exit_tool ::
  "'w agent_client \<Rightarrow> nat \<Rightarrow> app_exit \<Rightarrow> moment \<Rightarrow> 'w sdk \<Rightarrow> unit result \<times> 'w sdk" where
  "exit_tool cl l e mo st =
     (let c = sk_tools st ! l in
      case checks [require (lc_entered c \<and> \<not> lc_closed c) (RuntimeError ''tool context is not active''),
          active_turn_required (lc_turn c) st] of
        Inl x \<Rightarrow> (Inl x, st)
      | Inr _ \<Rightarrow> forget (turn_event cl (lc_turn c) TOOL_RESULT
          [(''tool_name'', JStr (lc_name c)),
           (''result'', (case e of Returned \<Rightarrow> lc_output c
              | RaisedCancelled ty m \<Rightarrow> exception_evidence cl ty m
              | RaisedTimeout ty m \<Rightarrow> exception_evidence cl ty m
              | RaisedOther ty m \<Rightarrow> exception_evidence cl ty m)),
           (''call_id'', JStr (lc_call_id c)), (''is_error'', JBool (e \<noteq> Returned))]
          (terminal_status e) (mo_now mo) None mo (change_tool l (\<lambda>c. c\<lparr>lc_closed := True\<rparr>) st)))"

end
