(* ===== verification/Agent_Laws.thy ===== *)
theory Agent_Laws
  imports Agent Store_Properties
begin

text \<open>
  What an application can do with the capture contexts, as sequences of calls, and what each
  call hands to the sink: the emissions by cases, the frame of each operation, and the
  revisions of a turn.
\<close>

section \<open>Calls\<close>

datatype api_call =
    NewRun string string "string option" "string option" "string option" "(string, jval) dict"
  | EnterRun nat moment
  | ExitRun nat app_exit moment
  | NewTurn nat jval
  | EnterTurn nat moment
  | ExitTurn nat app_exit moment
  | SetOutput nat jval
  | RecordEvent nat "event_facts result" moment
  | BusinessOutcome nat string jval string moment
  | ModelTrace nat trace moment
  | NewTool nat string jval "string option" "tool_origin option" moment
  | EnterTool nat moment
  | ExitTool nat app_exit moment
  | SetToolOutput nat jval
  | ClearContext

text \<open>An application calls methods of objects it has.\<close>

definition has_object :: "'w sdk \<Rightarrow> api_call \<Rightarrow> bool" where
  "has_object st call \<longleftrightarrow>
     (case call of
        EnterRun i mo \<Rightarrow> i < length (sk_runs st)
      | ExitRun i e mo \<Rightarrow> i < length (sk_runs st)
      | NewTurn i v \<Rightarrow> i < length (sk_runs st)
      | BusinessOutcome i name v source mo \<Rightarrow> i < length (sk_runs st)
      | EnterTurn k mo \<Rightarrow> k < length (sk_turns st)
      | ExitTurn k e mo \<Rightarrow> k < length (sk_turns st)
      | SetOutput k v \<Rightarrow> k < length (sk_turns st)
      | RecordEvent k facts mo \<Rightarrow> k < length (sk_turns st)
      | ModelTrace k t mo \<Rightarrow> k < length (sk_turns st)
      | NewTool k name args call_id origin mo \<Rightarrow> k < length (sk_turns st)
      | EnterTool l mo \<Rightarrow> l < length (sk_tools st)
      | ExitTool l e mo \<Rightarrow> l < length (sk_tools st)
      | SetToolOutput l v \<Rightarrow> l < length (sk_tools st)
      | _ \<Rightarrow> True)"

definition perform :: "'w agent_client \<Rightarrow> api_call \<Rightarrow> 'w sdk \<Rightarrow> 'w sdk" where
  "perform cl call st =
     (case call of
        NewRun name version session ext parent config \<Rightarrow> snd (new_run cl name version session ext parent config st)
      | EnterRun i mo \<Rightarrow> snd (enter_run cl i mo st)
      | ExitRun i e mo \<Rightarrow> snd (exit_run cl i e mo st)
      | NewTurn i v \<Rightarrow> snd (new_turn i v st)
      | EnterTurn k mo \<Rightarrow> snd (enter_turn cl k mo st)
      | ExitTurn k e mo \<Rightarrow> snd (exit_turn cl k e mo st)
      | SetOutput k v \<Rightarrow> snd (set_output k v st)
      | RecordEvent k facts mo \<Rightarrow> snd (record_event cl k facts mo st)
      | BusinessOutcome i name v source mo \<Rightarrow> snd (record_business_outcome cl i name v source mo st)
      | ModelTrace k t mo \<Rightarrow> snd (capture_model_trace cl k t mo st)
      | NewTool k name args call_id origin mo \<Rightarrow> snd (new_tool k name args call_id origin mo st)
      | EnterTool l mo \<Rightarrow> snd (enter_tool cl l mo st)
      | ExitTool l e mo \<Rightarrow> snd (exit_tool cl l e mo st)
      | SetToolOutput l v \<Rightarrow> snd (set_tool_output l v st)
      | ClearContext \<Rightarrow> clear_agent_context st)"

fun api_run :: "'w agent_client \<Rightarrow> api_call list \<Rightarrow> 'w sdk \<Rightarrow> 'w sdk option" where
  "api_run cl [] st = Some st"
| "api_run cl (call # calls) st =
     (if has_object st call then api_run cl calls (perform cl call st) else None)"

section \<open>One emission\<close>

text \<open>A capture of the run can still reach the sink.\<close>

definition live :: "run_context \<Rightarrow> bool" where
  "live r \<longleftrightarrow> rc_sampled r \<and> \<not> rc_capture_failed r \<and> rc_source r \<noteq> None \<and> rc_run r \<noteq> None"

text \<open>The state but for the world, the drop count and the failure flag of run \<open>i\<close>.\<close>

definition flagged :: "bool \<Rightarrow> nat \<Rightarrow> run_context list \<Rightarrow> run_context list" where
  "flagged failed i rs = (if failed then rs[i := (rs ! i)\<lparr>rc_capture_failed := True\<rparr>] else rs)"

definition same_frame :: "bool \<Rightarrow> nat \<Rightarrow> 'w sdk \<Rightarrow> 'w sdk \<Rightarrow> bool" where
  "same_frame failed i st st' \<longleftrightarrow>
     sk_turns st' = sk_turns st \<and> sk_tools st' = sk_tools st \<and>
     sk_active_run st' = sk_active_run st \<and> sk_active_turn st' = sk_active_turn st \<and>
     sk_runs st' = flagged failed i (sk_runs st)"

lemma agent_emit_cases:
  assumes "agent_emit cl i turn event tr observed st = (ok, st')"
  obtains (silent) failed where "same_frame failed i st st'" "sk_world st' = sk_world st"
      "live (sk_runs st ! i) \<Longrightarrow> failed"
  | (sent) batch source run r where "live (sk_runs st ! i)"
      "rc_source (sk_runs st ! i) = Some source" "rc_run (sk_runs st ! i) = Some run"
      "agent_batch (sk_runs st ! i) turn event observed source run = Inr batch"
      "ac_sink cl batch (case tr of None \<Rightarrow> [] | Some t \<Rightarrow> [t]) (sk_world st) = (r, sk_world st')"
      "same_frame (isl r) i st st'"
proof (cases "live (sk_runs st ! i)")
  case False
  with assms have "same_frame False i st st' \<and> sk_world st' = sk_world st"
    by (auto simp: agent_emit_def live_def same_frame_def flagged_def Let_def split: bool.splits option.splits if_splits)
  with False silent show thesis by blast
next
  case True
  then obtain source run where r: "rc_source (sk_runs st ! i) = Some source"
      "rc_run (sk_runs st ! i) = Some run" "rc_sampled (sk_runs st ! i)"
      "\<not> rc_capture_failed (sk_runs st ! i)" by (auto simp: live_def)
  show thesis
  proof (cases "agent_batch (sk_runs st ! i) turn event observed source run")
    case (Inl e)
    with r assms have "same_frame True i st st' \<and> sk_world st' = sk_world st"
      by (auto simp: agent_emit_def emission_failed_def change_run_def same_frame_def flagged_def Let_def)
    with silent show thesis by blast
  next
    case (Inr batch)
    obtain x w where x: "ac_sink cl batch (case tr of None \<Rightarrow> [] | Some t \<Rightarrow> [t]) (sk_world st) = (x, w)"
      by fastforce
    with r assms Inr have "same_frame (isl x) i st st' \<and> sk_world st' = w"
      by (auto simp: agent_emit_def emission_failed_def change_run_def same_frame_def flagged_def Let_def
        split: sum.splits)
    with sent [OF True r(1,2) Inr] x show thesis by blast
  qed
qed

lemma agent_batch_parts:
  "agent_batch r turn event observed source run = Inr b \<Longrightarrow>
   c_turns b = (case turn of None \<Rightarrow> [] | Some t \<Rightarrow> [t]) \<and>
   c_events b = (case event of None \<Rightarrow> [] | Some e \<Rightarrow> [e]) \<and> c_run b = run \<and>
   passes source_session_checks (c_session b) \<and> passes agent_capture_batch_checks b"
  by (auto simp: agent_batch_def res_simps)

section \<open>Revisions of a turn\<close>

definition merges_to :: "agent_turn \<Rightarrow> agent_turn \<Rightarrow> bool" where
  "merges_to t u \<longleftrightarrow> merge_agent_turn default_options (Some t) u = Inr u"

definition is_open_turn :: "agent_turn \<Rightarrow> bool" where
  "is_open_turn t \<longleftrightarrow> t_status t = UNKNOWN \<and> t_final_response_redacted t = None \<and>
     t_response_state t = NOT_CAPTURED \<and> passes agent_turn_checks t \<and>
     t_request_truncated t = False \<and> t_response_truncated t = False"

lemma merges_to_self: "passes agent_turn_checks t \<Longrightarrow> merges_to t t"
  by (simp add: merges_to_def merge_agent_turn_default merge_turn_fields_self)

lemma terminal_not_unknown: "terminal_status e \<noteq> UNKNOWN"
  by (simp add: terminal_status_def split: app_exit.splits)

lemma merges_to_last:
  assumes "is_open_turn t" and "passes agent_turn_checks (last_turn cl c t e mo)"
  shows "merges_to t (last_turn cl c t e mo)"
proof -
  let ?u = "last_turn cl c t e mo"
  have u: "turn_identity ?u = turn_identity t" "t_user_request_redacted ?u = t_user_request_redacted t"
    "t_request_state ?u = t_request_state t" "t_status ?u = terminal_status e" "t_ended_at ?u = Some (mo_now mo)"
    by (simp_all add: last_turn_def Let_def turn_identity_def)
  have response: "extend_text (t_final_response_redacted t) (t_final_response_redacted ?u) label None
      = Inr (t_final_response_redacted ?u)" for label
    using assms(1) by (simp add: is_open_turn_def extend_text_def)
  have state: "advance_evidence_state (t_response_state t) (t_response_state ?u)
      (t_final_response_redacted ?u \<noteq> None) = Inr (t_response_state ?u)"
    using assms turn_states [of ?u] by (auto simp: is_open_turn_def advance_evidence_state_def)
  have status: "advance_status (t_status t) (t_status ?u) label = Inr (t_status ?u)"
    "advance_end (t_status t) (t_ended_at t) (t_status ?u) (t_ended_at ?u) label = Inr (t_ended_at ?u)" for label
    using assms(1) terminal_not_unknown [of e] u(4)
    by (auto simp: is_open_turn_def advance_status_def advance_end_def)
  have request: "advance_evidence_state (t_request_state t) (t_request_state t)
      (t_user_request_redacted t \<noteq> None) = Inr (t_request_state t)"
    using assms(1) turn_states [of t] by (auto simp: is_open_turn_def advance_evidence_state_def)
  have same: "t_input_tokens ?u = t_input_tokens t" "t_cached_input_tokens ?u = t_cached_input_tokens t"
    "t_cache_write_input_tokens ?u = t_cache_write_input_tokens t" "t_output_tokens ?u = t_output_tokens t"
    "t_reasoning_output_tokens ?u = t_reasoning_output_tokens t" "t_total_tokens ?u = t_total_tokens t"
    "t_token_usage_basis ?u = t_token_usage_basis t" "t_progress_redacted ?u = t_progress_redacted t"
    "t_request_truncated ?u = t_request_truncated t" "t_response_truncated ?u = t_response_truncated t"
    by (simp_all add: last_turn_def Let_def)
  have truncated: "\<not> t_request_truncated t" "\<not> t_response_truncated t"
    using assms(1) by (auto simp: is_open_turn_def)
  have built: "\<lparr>t_turn_id = t_turn_id t, t_run_id = t_run_id t, t_sequence = t_sequence t,
      t_started_at = t_started_at t, t_status = t_status ?u, t_ended_at = t_ended_at ?u,
      t_user_request_redacted = t_user_request_redacted t,
      t_final_response_redacted = t_final_response_redacted ?u,
      t_request_state = t_request_state t, t_response_state = t_response_state ?u,
      t_input_tokens = t_input_tokens t, t_cached_input_tokens = t_cached_input_tokens t,
      t_cache_write_input_tokens = t_cache_write_input_tokens t, t_output_tokens = t_output_tokens t,
      t_reasoning_output_tokens = t_reasoning_output_tokens t, t_total_tokens = t_total_tokens t,
      t_token_usage_basis = t_token_usage_basis t, t_request_truncated = False,
      t_response_truncated = False, t_progress_redacted = t_progress_redacted t\<rparr> = ?u"
    using truncated by (intro agent_turn.equality) (simp_all add: last_turn_def Let_def)
  have flags: "merge_truncated m a False b False = False" for m a b by (simp add: merge_truncated_def)
  show ?thesis
    using assms(2) u(1) truncated
    by (simp add: merges_to_def merge_agent_turn_default merge_turn_fields_def u(2,3) same response state status
      request field_self flags post_init_eq_Inr built del: not_None_eq not_Some_eq)
qed


text \<open>
  The history of a turn as its sink sees it: the captures that carry the turn number its events
  without a gap, only the last of them can have been refused, and each revision of the turn
  supersedes the ones before.
\<close>

section \<open>What the sink sees\<close>

type_synonym entry = "agent_capture \<times> trace list \<times> bool"

definition logging :: "'w agent_client \<Rightarrow> ('w \<times> entry list) agent_client" where
  "logging cl =
     \<lparr>ac_env = ac_env cl, ac_redactor = ac_redactor cl,
      ac_sink = (\<lambda>b ts (w, entries).
        let (r, w') = ac_sink cl b ts w in (r, (w', entries @ [(b, ts, \<not> isl r)]))),
      ac_float = ac_float cl, ac_tenant_id = ac_tenant_id cl, ac_capture_content = ac_capture_content cl,
      ac_sample_rate = ac_sample_rate cl, ac_service_name = ac_service_name cl,
      ac_environment = ac_environment cl, ac_identity = ac_identity cl\<rparr>"

abbreviation entries_of :: "('w \<times> entry list) sdk \<Rightarrow> entry list" where
  "entries_of st \<equiv> snd (sk_world st)"

definition turn_log :: "string \<Rightarrow> entry list \<Rightarrow> entry list" where
  "turn_log i es = filter (\<lambda>e. map t_turn_id (c_turns (fst e)) = [i]) es"

definition entry_turn :: "entry \<Rightarrow> agent_turn" where
  "entry_turn e = hd (c_turns (fst e))"

definition entry_accepted :: "entry \<Rightarrow> bool" where
  "entry_accepted e = snd (snd e)"

definition event_numbers :: "entry list \<Rightarrow> int list" where
  "event_numbers es = concat (map (\<lambda>e. map e_sequence (c_events (fst e))) es)"

lemma turn_log_simps [simp]:
  "turn_log i [] = []" "turn_log i (es @ fs) = turn_log i es @ turn_log i fs"
  "turn_log i [e] = (if map t_turn_id (c_turns (fst e)) = [i] then [e] else [])"
  by (simp_all add: turn_log_def)

lemma event_numbers_snoc [simp]:
  "event_numbers [] = []"
  "event_numbers (es @ [e]) = event_numbers es @ map e_sequence (c_events (fst e))"
  by (simp_all add: event_numbers_def)

section \<open>The history of one turn\<close>

definition history :: "agent_turn \<Rightarrow> int \<Rightarrow> bool \<Rightarrow> entry list \<Rightarrow> bool" where
  "history t n lv es \<longleftrightarrow>
     (\<exists>m. int m \<le> n \<and> (lv \<longrightarrow> int m = n) \<and> event_numbers es = map int [0..<m]) \<and>
     list_all entry_accepted (butlast es) \<and> (lv \<longrightarrow> list_all entry_accepted es) \<and>
     sorted_wrt merges_to (map entry_turn es) \<and>
     (\<forall>x \<in> set (map entry_turn es). merges_to x t \<and> (is_open_turn t \<longrightarrow> x = t))"

lemma history_weaken: "history t n lv es \<Longrightarrow> (lv' \<longrightarrow> lv) \<Longrightarrow> history t n lv' es"
  by (auto simp: history_def)

lemma history_count: "history t n False es \<Longrightarrow> n \<le> n' \<Longrightarrow> history t n' False es"
  by (auto simp: history_def intro: order_trans)

lemma history_nil [simp]: "0 \<le> n \<Longrightarrow> n = 0 \<or> \<not> lv \<Longrightarrow> history t n lv []"
  by (auto simp: history_def intro: exI [of _ 0])

lemma history_closed:
  "history t n lv es \<Longrightarrow> is_open_turn t \<Longrightarrow> merges_to t u \<Longrightarrow> \<not> is_open_turn u \<Longrightarrow> history u n lv es"
  by (auto simp: history_def)

lemma history_sent:
  assumes "history t n True es" and "c_turns b = [t]" and "merges_to t t"
    and "map e_sequence (c_events b) = map int [nat n..<nat n']" and "0 \<le> n" and "n \<le> n'"
    and "lv' \<longrightarrow> ok"
  shows "history t n' lv' (es @ [(b, ts, ok)])"
proof -
  have "event_numbers (es @ [(b, ts, ok)]) = map int [0..<nat n']"
  proof -
    have "event_numbers es = map int [0..<nat n]" using assms(1) by (auto simp: history_def)
    moreover have "[0..<nat n'] = [0..<nat n] @ [nat n..<nat n']"
      using assms(5,6) upt_add_eq_append [of 0 "nat n" "nat n' - nat n"] by simp
    ultimately show ?thesis using assms(4) by simp
  qed
  moreover have "list_all entry_accepted es" using assms(1) by (simp add: history_def)
  ultimately show ?thesis
    using assms by (auto simp: history_def sorted_wrt_append entry_turn_def entry_accepted_def
      intro!: exI [of _ "nat n'"])
qed

section \<open>The invariant of all turns\<close>

definition turn_ids :: "string set \<Rightarrow> string set" where
  "turn_ids used = (\<lambda>u. ''turn_'' @ u) ` used"

definition turn_ok :: "string set \<Rightarrow> run_context list \<Rightarrow> entry list \<Rightarrow> turn_context \<Rightarrow> bool" where
  "turn_ok used rs es c \<longleftrightarrow>
     tc_owner c < length rs \<and> rc_entered (rs ! tc_owner c) \<and>
     (case tc_turn c of
        None \<Rightarrow> tc_token c = None
      | Some t \<Rightarrow> t_turn_id t \<in> turn_ids used \<and> passes agent_turn_checks t \<and> 0 \<le> tc_next_event c \<and>
          tc_entered c \<and> (tc_token c \<noteq> None \<longrightarrow> is_open_turn t) \<and>
          history t (tc_next_event c) (live (rs ! tc_owner c)) (turn_log (t_turn_id t) es))"

definition run_ok :: "nat \<Rightarrow> nat \<Rightarrow> run_context \<Rightarrow> bool" where
  "run_ok n turns r \<longleftrightarrow> 0 \<le> rc_producer_sequence r \<and> rc_producer_sequence r \<le> int n \<and>
     (rc_open r \<longrightarrow> rc_entered r) \<and> (\<forall>k. rc_latest_turn r = Some k \<longrightarrow> k < turns)"

definition distinct_turns :: "turn_context list \<Rightarrow> bool" where
  "distinct_turns cs \<longleftrightarrow> (\<forall>j < length cs. \<forall>k < length cs. \<forall>t u.
     tc_turn (cs ! j) = Some t \<longrightarrow> tc_turn (cs ! k) = Some u \<longrightarrow> t_turn_id t = t_turn_id u \<longrightarrow> j = k)"

definition sdk_inv :: "nat \<Rightarrow> string set \<Rightarrow> ('w \<times> entry list) sdk \<Rightarrow> bool" where
  "sdk_inv n used st \<longleftrightarrow>
     list_all (run_ok n (length (sk_turns st))) (sk_runs st) \<and>
     list_all (turn_ok used (sk_runs st) (entries_of st)) (sk_turns st) \<and>
     list_all (\<lambda>c. lc_turn c < length (sk_turns st)) (sk_tools st) \<and>
     distinct_turns (sk_turns st) \<and>
     (\<forall>i. turn_log i (entries_of st) \<noteq> [] \<longrightarrow>
        (\<exists>c \<in> set (sk_turns st). \<exists>t. tc_turn c = Some t \<and> t_turn_id t = i))"

lemma new_sdk_inv: "sdk_inv 0 {} (new_sdk (w, []))"
  by (simp add: sdk_inv_def new_sdk_def distinct_turns_def)

text \<open>How a run may change without disturbing the turns it owns.\<close>

definition run_advances :: "run_context \<Rightarrow> run_context \<Rightarrow> bool" where
  "run_advances r r' \<longleftrightarrow> (rc_entered r \<longrightarrow> rc_entered r' \<and> (live r' \<longrightarrow> live r))"

definition runs_advance :: "run_context list \<Rightarrow> run_context list \<Rightarrow> bool" where
  "runs_advance rs rs' \<longleftrightarrow> length rs \<le> length rs' \<and> (\<forall>i < length rs. run_advances (rs ! i) (rs' ! i))"

lemma turn_ok_advance:
  assumes "turn_ok used rs es c" and "runs_advance rs rs'"
    and "\<And>t. tc_turn c = Some t \<Longrightarrow> turn_log (t_turn_id t) es' = turn_log (t_turn_id t) es"
    and "used \<subseteq> used'"
  shows "turn_ok used' rs' es' c"
proof -
  have "turn_ids used \<subseteq> turn_ids used'" using assms(4) by (auto simp: turn_ids_def)
  moreover have "run_advances (rs ! tc_owner c) (rs' ! tc_owner c)" "tc_owner c < length rs'"
    using assms(1,2) by (auto simp: turn_ok_def runs_advance_def)
  ultimately show ?thesis
    using assms(1,3) by (auto simp: turn_ok_def run_advances_def split: option.splits elim: history_weaken)
qed

text \<open>One turn context is replaced, everything else advances.\<close>

lemma replace_turn_inv:
  assumes inv: "sdk_inv n used st" and k: "k < length (sk_turns st)"
    and turns: "sk_turns st' = (sk_turns st)[k := c]" and tools: "sk_tools st' = sk_tools st"
    and runs: "runs_advance (sk_runs st) (sk_runs st')"
    and ok: "list_all (run_ok n' (length (sk_turns st))) (sk_runs st')"
    and turn: "turn_ok used' (sk_runs st') (entries_of st') c" "tc_turn c = Some t"
    and id: "(\<exists>u. tc_turn (sk_turns st ! k) = Some u \<and> t_turn_id u = t_turn_id t) \<or>
      tc_turn (sk_turns st ! k) = None \<and> t_turn_id t \<notin> turn_ids used"
    and others: "\<And>i. i \<noteq> t_turn_id t \<Longrightarrow> turn_log i (entries_of st') = turn_log i (entries_of st)"
    and used: "used \<subseteq> used'"
  shows "sdk_inv n' used' st'"
proof -
  note parts = inv [unfolded sdk_inv_def list_all_length]
  have other: "t_turn_id u \<noteq> t_turn_id t" if "j < length (sk_turns st)" "j \<noteq> k" "tc_turn (sk_turns st ! j) = Some u" for j u
    using that parts k id unfolding distinct_turns_def turn_ok_def by fastforce
  have "turn_ok used' (sk_runs st') (entries_of st') (sk_turns st ! j)" if "j < length (sk_turns st)" "j \<noteq> k" for j
    using parts that other others by (intro turn_ok_advance [OF _ runs _ used]) auto
  then have "list_all (turn_ok used' (sk_runs st') (entries_of st')) (sk_turns st')"
    using turn(1) k by (auto simp: list_all_length turns nth_list_update)
  moreover have "distinct_turns (sk_turns st')"
    unfolding distinct_turns_def turns
  proof (intro allI impI)
    fix i j u v
    assume i: "i < length ((sk_turns st)[k := c])" and j: "j < length ((sk_turns st)[k := c])"
      and "tc_turn ((sk_turns st)[k := c] ! i) = Some u" and "tc_turn ((sk_turns st)[k := c] ! j) = Some v"
      and same: "t_turn_id u = t_turn_id v"
    then have u: "if i = k then u = t else tc_turn (sk_turns st ! i) = Some u"
      and v: "if j = k then v = t else tc_turn (sk_turns st ! j) = Some v"
      using turn(2) k by (auto simp: nth_list_update split: if_splits)
    show "i = j"
    proof (cases "i = k \<or> j = k")
      case True
      then show ?thesis using u v same other i j by (metis length_list_update)
    next
      case False
      then show ?thesis using u v same parts i j unfolding distinct_turns_def by simp
    qed
  qed
  moreover have "\<exists>c \<in> set (sk_turns st'). \<exists>u. tc_turn c = Some u \<and> t_turn_id u = i"
    if "turn_log i (entries_of st') \<noteq> []" for i
  proof (cases "i = t_turn_id t")
    case True
    then show ?thesis using turn(2) k by (auto simp: turns set_update_memI)
  next
    case False
    with that others have "turn_log i (entries_of st) \<noteq> []" by simp
    then obtain c' u where "c' \<in> set (sk_turns st)" and u: "tc_turn c' = Some u" "t_turn_id u = i"
      using inv unfolding sdk_inv_def by blast
    then obtain j where j: "j < length (sk_turns st)" "sk_turns st ! j = c'" by (auto simp: in_set_conv_nth)
    then have "j \<noteq> k" using id u False by auto
    with j have "sk_turns st' ! j = c'" "j < length (sk_turns st')" by (simp_all add: turns)
    with u show ?thesis by (metis nth_mem)
  qed
  ultimately show ?thesis
    using ok inv by (simp add: sdk_inv_def turns tools)
qed

section \<open>Frames\<close>

lemma run_ok_mono: "run_ok n m r \<Longrightarrow> n \<le> n' \<Longrightarrow> m \<le> m' \<Longrightarrow> run_ok n' m' r"
  by (fastforce simp: run_ok_def)

lemma sdk_inv_mono: "sdk_inv n used st \<Longrightarrow> n \<le> n' \<Longrightarrow> sdk_inv n' used st"
  by (auto simp: sdk_inv_def list_all_iff intro: run_ok_mono)

lemma sdk_inv_actives [simp]:
  "sdk_inv n used (st\<lparr>sk_active_run := a\<rparr>) = sdk_inv n used st"
  "sdk_inv n used (st\<lparr>sk_active_turn := b\<rparr>) = sdk_inv n used st"
  "sdk_inv n used (st\<lparr>sk_active_turn := b, sk_active_run := a\<rparr>) = sdk_inv n used st"
  "sdk_inv n used (st\<lparr>sk_active_run := a, sk_active_turn := b\<rparr>) = sdk_inv n used st"
  "sdk_inv n used (st\<lparr>sk_dropped := d\<rparr>) = sdk_inv n used st"
  by (simp_all add: sdk_inv_def)

lemma runs_advance_update:
  "i < length rs \<Longrightarrow> run_advances (rs ! i) r \<Longrightarrow> runs_advance rs (rs[i := r])"
  by (auto simp: runs_advance_def run_advances_def nth_list_update)

lemma runs_advance_refl: "runs_advance rs rs"
  by (simp add: runs_advance_def run_advances_def)

lemma runs_advance_append: "runs_advance rs (rs @ [r])"
  by (simp add: runs_advance_def run_advances_def nth_append)

text \<open>Only the runs and the entries without a turn change.\<close>

lemma runs_inv:
  assumes "sdk_inv n used st" and "runs_advance (sk_runs st) rs"
    and "list_all (run_ok n' (length (sk_turns st))) rs"
    and "\<And>i. turn_log i es = turn_log i (entries_of st)"
    and "sk_turns st' = sk_turns st" "sk_tools st' = sk_tools st" "sk_runs st' = rs" "entries_of st' = es"
  shows "sdk_inv n' used st'"
  using assms(1,3,4) turn_ok_advance [OF _ assms(2), of used "entries_of st"]
  by (auto simp: sdk_inv_def list_all_iff assms(5-8))

lemma change_run_inv:
  assumes "sdk_inv n used st" and "i < length (sk_runs st)"
    and "run_advances (sk_runs st ! i) (f (sk_runs st ! i))"
    and "run_ok n' (length (sk_turns st)) (f (sk_runs st ! i))" and "n \<le> n'"
  shows "sdk_inv n' used (change_run i f st)"
proof (rule runs_inv [OF assms(1) runs_advance_update [OF assms(2,3)]])
  show "list_all (run_ok n' (length (sk_turns st))) ((sk_runs st)[i := f (sk_runs st ! i)])"
    using assms by (auto simp: sdk_inv_def list_all_length nth_list_update intro: run_ok_mono)
qed (simp_all add: change_run_def)

lemma change_tool_inv:
  "sdk_inv n used st \<Longrightarrow> l < length (sk_tools st) \<Longrightarrow> lc_turn (f (sk_tools st ! l)) = lc_turn (sk_tools st ! l) \<Longrightarrow>
   sdk_inv n used (change_tool l f st)"
  by (auto simp: sdk_inv_def change_tool_def list_all_length nth_list_update)

lemma change_run_twice:
  "i < length (sk_runs st) \<Longrightarrow> change_run i f (change_run i g st) = change_run i (\<lambda>r. f (g r)) st"
  by (simp add: change_run_def)

lemma change_run_simps [simp]:
  "sk_turns (change_run i f st) = sk_turns st" "sk_tools (change_run i f st) = sk_tools st"
  "sk_world (change_run i f st) = sk_world st" "sk_active_run (change_run i f st) = sk_active_run st"
  "sk_active_turn (change_run i f st) = sk_active_turn st"
  "length (sk_runs (change_run i f st)) = length (sk_runs st)"
  "i < length (sk_runs st) \<Longrightarrow> sk_runs (change_run i f st) ! i = f (sk_runs st ! i)"
  by (simp_all add: change_run_def)

lemma change_turn_simps [simp]:
  "sk_runs (change_turn k g st) = sk_runs st" "sk_tools (change_turn k g st) = sk_tools st"
  "sk_world (change_turn k g st) = sk_world st" "sk_active_run (change_turn k g st) = sk_active_run st"
  "sk_active_turn (change_turn k g st) = sk_active_turn st"
  "length (sk_turns (change_turn k g st)) = length (sk_turns st)"
  "k < length (sk_turns st) \<Longrightarrow> sk_turns (change_turn k g st) ! k = g (sk_turns st ! k)"
  by (simp_all add: change_turn_def)

lemma flagged_simps [simp]: "length (flagged x i rs) = length rs"
  by (simp add: flagged_def)

lemma flagged_live [simp]: "i < length rs \<Longrightarrow> live (flagged x i rs ! i) \<longleftrightarrow> \<not> x \<and> live (rs ! i)"
  by (auto simp: flagged_def live_def)

lemma flagged_advance: "i < length rs \<Longrightarrow> runs_advance rs (flagged x i rs)"
  by (auto simp: flagged_def runs_advance_refl run_advances_def live_def intro: runs_advance_update)

lemma flagged_run_ok:
  "list_all (run_ok n m) rs \<Longrightarrow> list_all (run_ok n m) (flagged x i rs)"
  by (cases "i < length rs") (auto simp: flagged_def list_all_length nth_list_update run_ok_def)

lemma logging_sink:
  "ac_sink (logging cl) b ts w = (r, w') \<Longrightarrow> snd w' = snd w @ [(b, ts, \<not> isl r)]"
  by (cases w) (auto simp: logging_def Let_def split: prod.splits)

text \<open>A capture without a turn.\<close>

lemma emit_run_inv:
  assumes "agent_emit (logging cl) i None event tr observed st = (ok, st')" and "sdk_inv n used st"
    and "i < length (sk_runs st)"
  shows "sdk_inv n used st' \<and> length (sk_runs st') = length (sk_runs st)"
proof -
  have run: "list_all (run_ok n (length (sk_turns st))) (flagged x i (sk_runs st))" for x
    using assms(2) by (intro flagged_run_ok) (simp add: sdk_inv_def)
  note advance = flagged_advance [OF assms(3)]
  show ?thesis
  proof (cases rule: agent_emit_cases [OF assms(1)])
    case (1 failed)
    then have "sdk_inv n used st'"
      by (intro runs_inv [OF assms(2) advance run, of "entries_of st"]) (auto simp: same_frame_def)
    with 1 show ?thesis by (simp add: same_frame_def)
  next
    case (2 batch source r x)
    have "turn_log j (entries_of st') = turn_log j (entries_of st)" for j
      using logging_sink [OF 2(5)] agent_batch_parts [OF 2(4)] by simp
    then have "sdk_inv n used st'"
      using 2(6) by (intro runs_inv [OF assms(2) advance run, of "entries_of st'"]) (auto simp: same_frame_def)
    with 2(6) show ?thesis by (simp add: same_frame_def)
  qed
qed

section \<open>An event of a turn\<close>

lemma numbered_event:
  assumes "passes agent_event_checks e" and "0 \<le> n" and "0 \<le> p" and "p \<le> max_int64"
  shows "post_init agent_event_checks (e\<lparr>e_sequence := n, e_producer_sequence := Some p\<rparr>)
    = Inr (e\<lparr>e_sequence := n, e_producer_sequence := Some p\<rparr>)"
  using assms by (simp add: post_init_eq_Inr passes_def agent_event_checks_def token_count_ok_def)

lemma build_event_ok: "build_event e = Inr e' \<Longrightarrow> passes agent_event_checks e'"
  by (auto simp: build_event_def post_init_eq_Inr split: sum.splits py_error.splits if_splits)

text \<open>A capture that carries the turn \<open>k\<close> in its present revision, with at most one event, whose
number is the next.\<close>

lemma emit_turn_inv:
  assumes emit: "agent_emit (logging cl) i (Some t) event tr observed st1 = (ok, st')"
    and inv: "sdk_inv n used st" and k: "k < length (sk_turns st)"
    and st1: "sk_turns st1 = (sk_turns st)[k := c]" "sk_tools st1 = sk_tools st" "sk_world st1 = sk_world st"
      "runs_advance (sk_runs st) (sk_runs st1)"
      "list_all (run_ok n' (length (sk_turns st))) (sk_runs st1)"
    and c: "tc_owner c = i" "i < length (sk_runs st1)" "rc_entered (sk_runs st1 ! i)" "tc_turn c = Some t"
      "tc_entered c" "passes agent_turn_checks t" "t_turn_id t \<in> turn_ids used'"
      "tc_token c \<noteq> None \<longrightarrow> is_open_turn t" "used \<subseteq> used'" "0 \<le> m" "m \<le> tc_next_event c"
    and id: "(\<exists>u. tc_turn (sk_turns st ! k) = Some u \<and> t_turn_id u = t_turn_id t) \<or>
      tc_turn (sk_turns st ! k) = None \<and> t_turn_id t \<notin> turn_ids used"
    and before: "history t m (live (sk_runs st1 ! i)) (turn_log (t_turn_id t) (entries_of st))"
    and event: "map e_sequence (case event of None \<Rightarrow> [] | Some e \<Rightarrow> [e]) = map int [nat m..<nat (tc_next_event c)]"
  shows "sdk_inv n' used' st'"
proof (rule replace_turn_inv [OF inv k _ _ _ _ _ c(4) id _ c(9)])
  have frame: "\<exists>x. same_frame x i st1 st'"
    by (cases rule: agent_emit_cases [OF emit]) blast+
  then obtain x where f: "same_frame x i st1 st'" by blast
  then show "sk_turns st' = (sk_turns st)[k := c]" "sk_tools st' = sk_tools st"
    using st1(1,2) by (simp_all add: same_frame_def)
  show "runs_advance (sk_runs st) (sk_runs st')"
    using st1(4) flagged_advance [OF c(2), of x] f
    by (auto simp: same_frame_def runs_advance_def run_advances_def)
  show "list_all (run_ok n' (length (sk_turns st))) (sk_runs st')"
    using flagged_run_ok [OF st1(5), of x i] f by (simp add: same_frame_def)
  have entered: "rc_entered (sk_runs st' ! i)" "i < length (sk_runs st')"
    using c(2,3) f by (auto simp: same_frame_def flagged_def)
  have "history t (tc_next_event c) (live (sk_runs st' ! i)) (turn_log (t_turn_id t) (entries_of st')) \<and>
    (\<forall>j. j \<noteq> t_turn_id t \<longrightarrow> turn_log j (entries_of st') = turn_log j (entries_of st))"
  proof (cases rule: agent_emit_cases [OF emit])
    case (1 failed)
    have dead: "\<not> live (sk_runs st' ! i)"
      using 1(1,3) c(2) by (auto simp: same_frame_def)
    have "history t (tc_next_event c) False (turn_log (t_turn_id t) (entries_of st))"
      using history_count [OF history_weaken [OF before, of False] c(11)] by simp
    with 1(2) dead st1(3) show ?thesis by simp
  next
    case (2 batch source r x)
    note parts = agent_batch_parts [OF 2(4)]
    have log: "entries_of st' = entries_of st @ [(batch, case tr of None \<Rightarrow> [] | Some t \<Rightarrow> [t], \<not> isl x)]"
      using logging_sink [OF 2(5)] st1(3) by simp
    have "live (sk_runs st' ! i) \<longrightarrow> \<not> isl x"
      using 2(6) c(2) by (auto simp: same_frame_def)
    moreover have "history t m True (turn_log (t_turn_id t) (entries_of st))" using before 2(1) by simp
    ultimately have "history t (tc_next_event c) (live (sk_runs st' ! i))
        (turn_log (t_turn_id t) (entries_of st) @ [(batch, case tr of None \<Rightarrow> [] | Some t \<Rightarrow> [t], \<not> isl x)])"
      using parts merges_to_self [OF c(6)] event c(10,11)
      by (intro history_sent) (auto split: option.splits)
    with log parts show ?thesis by simp
  qed
  with c entered show "turn_ok used' (sk_runs st') (entries_of st') c"
    and "\<And>j. j \<noteq> t_turn_id t \<Longrightarrow> turn_log j (entries_of st') = turn_log j (entries_of st)"
    by (auto simp: turn_ok_def)
qed

end
