(* ===== verification/Agent_Properties.thy ===== *)
theory Agent_Properties
  imports Agent_Laws
begin

text \<open>
  The invariant of the capture contexts through every operation, and the properties of what an
  application's calls hand to the sink.
\<close>

section \<open>Operations on one turn\<close>

lemma sdk_invD:
  assumes "sdk_inv n used st"
  shows "i < length (sk_runs st) \<Longrightarrow> run_ok n (length (sk_turns st)) (sk_runs st ! i)"
    and "k < length (sk_turns st) \<Longrightarrow> turn_ok used (sk_runs st) (entries_of st) (sk_turns st ! k)"
    and "l < length (sk_tools st) \<Longrightarrow> lc_turn (sk_tools st ! l) < length (sk_turns st)"
    and "j \<notin> turn_ids used \<Longrightarrow> turn_log j (entries_of st) = []"
proof -
  show "i < length (sk_runs st) \<Longrightarrow> run_ok n (length (sk_turns st)) (sk_runs st ! i)"
    and ok: "k < length (sk_turns st) \<Longrightarrow> turn_ok used (sk_runs st) (entries_of st) (sk_turns st ! k)"
    and "l < length (sk_tools st) \<Longrightarrow> lc_turn (sk_tools st ! l) < length (sk_turns st)" for k
    using assms by (auto simp: sdk_inv_def list_all_length)
  show "turn_log j (entries_of st) = []" if "j \<notin> turn_ids used"
  proof (rule ccontr)
    assume "turn_log j (entries_of st) \<noteq> []"
    then obtain c t where "c \<in> set (sk_turns st)" "tc_turn c = Some t" "t_turn_id t = j"
      using assms unfolding sdk_inv_def by blast
    with that assms show False by (auto simp: sdk_inv_def list_all_iff turn_ok_def)
  qed
qed

lemma post_init_passes: "passes cs x \<Longrightarrow> post_init cs x = Inr x"
  by (simp add: post_init_eq_Inr)

lemma change_turn_inv:
  assumes "sdk_inv n used st" and "k < length (sk_turns st)"
    and "tc_owner (f (sk_turns st ! k)) = tc_owner (sk_turns st ! k)"
    and "tc_turn (f (sk_turns st ! k)) = tc_turn (sk_turns st ! k)"
    and "tc_next_event (f (sk_turns st ! k)) = tc_next_event (sk_turns st ! k)"
    and "tc_entered (f (sk_turns st ! k)) = tc_entered (sk_turns st ! k)"
    and "tc_token (f (sk_turns st ! k)) = tc_token (sk_turns st ! k) \<or> tc_token (f (sk_turns st ! k)) = None \<or>
      (\<exists>t. tc_turn (sk_turns st ! k) = Some t \<and> is_open_turn t)"
  shows "sdk_inv n used (change_turn k f st)"
proof -
  let ?c = "sk_turns st ! k"
  have ok: "turn_ok used (sk_runs st) (entries_of st) (f ?c)"
    using sdk_invD(2) [OF assms(1,2)] assms(3-7) by (auto simp: turn_ok_def split: option.splits)
  have same: "tc_turn ((sk_turns st)[k := f ?c] ! j) = tc_turn (sk_turns st ! j)" for j
    using assms(2,4) by (cases "j = k") simp_all
  then have "distinct_turns ((sk_turns st)[k := f ?c])"
    using assms(1) by (simp add: sdk_inv_def distinct_turns_def)
  moreover have "list_all (turn_ok used (sk_runs st) (entries_of st)) ((sk_turns st)[k := f ?c])"
    using ok sdk_invD(2) [OF assms(1)] assms(2)
    by (simp add: list_all_length nth_list_update)
  moreover have "tc_turn ` set ((sk_turns st)[k := f ?c]) = tc_turn ` set (sk_turns st)"
    using same by (auto simp: set_conv_nth image_iff) metis+
  then have "(\<exists>c \<in> set ((sk_turns st)[k := f ?c]). \<exists>t. tc_turn c = Some t \<and> t_turn_id t = i) \<longleftrightarrow>
      (\<exists>c \<in> set (sk_turns st). \<exists>t. tc_turn c = Some t \<and> t_turn_id t = i)" for i
    by (metis (no_types, lifting) image_iff)
  ultimately show ?thesis
    using assms(1) by (simp add: sdk_inv_def change_turn_def)
qed

lemma turn_event_inv:
  assumes "sdk_inv n used st" and "k < length (sk_turns st)" and "int n \<le> max_int64"
  shows "sdk_inv (Suc n) used (snd (turn_event (logging cl) k ty attributes status occurred_at tr mo st))"
proof -
  let ?c = "sk_turns st ! k" and ?r = "sk_runs st ! tc_owner (sk_turns st ! k)"
  note ok = sdk_invD(2) [OF assms(1,2)]
  have owner: "tc_owner ?c < length (sk_runs st)" "rc_entered ?r" using ok by (auto simp: turn_ok_def)
  note run = sdk_invD(1) [OF assms(1) owner(1)]
  show ?thesis
  proof (cases "tc_turn ?c")
    case None
    then show ?thesis using sdk_inv_mono [OF assms(1)] by (simp add: turn_event_def)
  next
    case (Some t)
    show ?thesis
    proof (cases "draft_event (logging cl) ?r t ty attributes status occurred_at (map_option tr_trace_id tr) (mo_uuid mo)")
      case (Inl e)
      then show ?thesis using sdk_inv_mono [OF assms(1)] Some by (simp add: turn_event_def Let_def)
    next
      case (Inr e)
      then have "passes agent_event_checks e"
        by (auto simp: draft_event_def Let_def split: prod.splits dest: build_event_ok)
      then have built: "post_init agent_event_checks
          (e\<lparr>e_sequence := tc_next_event ?c, e_producer_sequence := Some (rc_producer_sequence ?r)\<rparr>)
        = Inr (e\<lparr>e_sequence := tc_next_event ?c, e_producer_sequence := Some (rc_producer_sequence ?r)\<rparr>)"
        using run ok Some assms(3) by (intro numbered_event) (auto simp: run_ok_def turn_ok_def)
      let ?e = "e\<lparr>e_sequence := tc_next_event ?c, e_producer_sequence := Some (rc_producer_sequence ?r)\<rparr>"
      let ?st1 = "change_run (tc_owner ?c) (\<lambda>r. r\<lparr>rc_producer_sequence := rc_producer_sequence r + 1\<rparr>)
        (change_turn k (\<lambda>c. c\<lparr>tc_next_event := tc_next_event c + 1\<rparr>) st)"
      obtain fine st' where emit: "agent_emit (logging cl) (tc_owner ?c) (Some t) (Some ?e) tr (mo_observed mo) ?st1
          = (fine, st')" by fastforce
      have state: "snd (turn_event (logging cl) k ty attributes status occurred_at tr mo st) = st'"
        using Some Inr built emit by (simp add: turn_event_def Let_def)
      have live: "live (sk_runs ?st1 ! tc_owner ?c) = live ?r"
        using owner by (simp add: live_def)
      have "sdk_inv (Suc n) used st'"
      proof (rule emit_turn_inv [OF emit assms(1,2), where c = "?c\<lparr>tc_next_event := tc_next_event ?c + 1\<rparr>"
            and m = "tc_next_event ?c"])
        show "runs_advance (sk_runs st) (sk_runs ?st1)"
          using owner(1) by (auto simp: change_run_def run_advances_def live_def intro!: runs_advance_update)
        show "list_all (run_ok (Suc n) (length (sk_turns st))) (sk_runs ?st1)"
          using assms(1) owner(1) run
          by (auto simp: change_run_def sdk_inv_def list_all_length nth_list_update run_ok_def intro: run_ok_mono)
        show "history t (tc_next_event ?c) (live (sk_runs ?st1 ! tc_owner ?c)) (turn_log (t_turn_id t) (entries_of st))"
          using ok Some live by (simp add: turn_ok_def)
        show "map e_sequence (case Some ?e of None \<Rightarrow> [] | Some e \<Rightarrow> [e])
            = map int [nat (tc_next_event ?c)..<nat (tc_next_event (?c\<lparr>tc_next_event := tc_next_event ?c + 1\<rparr>))]"
          using ok Some by (simp add: turn_ok_def nat_add_distrib)
      qed (use ok Some owner in \<open>auto simp: turn_ok_def change_turn_def change_run_def\<close>)
      with state show ?thesis by simp
    qed
  qed
qed

lemma exit_turn_inv:
  assumes "sdk_inv n used st" and "k < length (sk_turns st)"
  shows "sdk_inv n used (snd (exit_turn (logging cl) k e mo st))"
proof -
  let ?c = "sk_turns st ! k"
  note ok = sdk_invD(2) [OF assms]
  have owner: "tc_owner ?c < length (sk_runs st)" "rc_entered (sk_runs st ! tc_owner ?c)"
    using ok by (auto simp: turn_ok_def)
  show ?thesis
  proof (cases "tc_token ?c")
    case None
    then show ?thesis using assms(1) by (simp add: exit_turn_def)
  next
    case (Some previous)
    with ok obtain t where t: "tc_turn ?c = Some t" "is_open_turn t" "t_turn_id t \<in> turn_ids used"
      "history t (tc_next_event ?c) (live (sk_runs st ! tc_owner ?c)) (turn_log (t_turn_id t) (entries_of st))"
      "0 \<le> tc_next_event ?c" "tc_entered ?c" by (auto simp: turn_ok_def split: option.splits)
    let ?t = "last_turn (logging cl) ?c t e mo"
    let ?st1 = "(change_turn k (\<lambda>c. c\<lparr>tc_token := None\<rparr>) st)\<lparr>sk_active_turn := previous\<rparr>"
    have inv1: "sdk_inv n used ?st1" using assms by (simp add: change_turn_inv)
    show ?thesis
    proof (cases "passes agent_turn_checks ?t")
      case False
      then have "\<exists>x. post_init agent_turn_checks ?t = Inl x"
        by (cases "post_init agent_turn_checks ?t") (auto simp: post_init_eq_Inr)
      with inv1 Some t(1) show ?thesis by (auto simp: exit_turn_def Let_def)
    next
      case True
      let ?st2 = "change_turn k (\<lambda>c. c\<lparr>tc_turn := Some ?t\<rparr>) ?st1"
      obtain fine st' where emit: "agent_emit (logging cl) (tc_owner ?c) (Some ?t) None None (mo_observed mo) ?st2
          = (fine, st')" by fastforce
      have state: "snd (exit_turn (logging cl) k e mo st) = st'"
        using True Some t(1) emit by (simp add: exit_turn_def Let_def post_init_passes)
      have id: "t_turn_id ?t = t_turn_id t" "\<not> is_open_turn ?t"
        using terminal_not_unknown [of e] by (simp_all add: last_turn_def Let_def is_open_turn_def)
      have "sdk_inv n used st'"
      proof (rule emit_turn_inv [OF emit assms, where c = "?c\<lparr>tc_token := None, tc_turn := Some ?t\<rparr>"
            and m = "tc_next_event ?c"])
        show "list_all (run_ok n (length (sk_turns st))) (sk_runs ?st2)"
          using assms(1) by (simp add: sdk_inv_def)
        show "history ?t (tc_next_event ?c) (live (sk_runs ?st2 ! tc_owner ?c)) (turn_log (t_turn_id ?t) (entries_of st))"
          using history_closed [OF t(4,2) merges_to_last [OF t(2) True] id(2)] id(1) by simp
      qed (use True t owner assms(2) id in \<open>auto simp: change_turn_def runs_advance_refl\<close>)
      with state show ?thesis by simp
    qed
  qed
qed

lemma enter_turn_inv:
  assumes "sdk_inv n used st" and "k < length (sk_turns st)" and "mo_uuid mo \<notin> used"
  shows "sdk_inv n (insert (mo_uuid mo) used) (snd (enter_turn (logging cl) k mo st))"
proof -
  let ?c = "sk_turns st ! k" and ?used = "insert (mo_uuid mo) used"
  let ?i = "tc_owner ?c" and ?r = "sk_runs st ! tc_owner (sk_turns st ! k)"
  let ?start = "first_turn (logging cl) ?c (rc_run_id ?r) mo"
  let ?t = "?start\<lparr>t_sequence := rc_turn_sequence ?r\<rparr>"
  note ok = sdk_invD(2) [OF assms(1,2)]
  have owner: "?i < length (sk_runs st)" "rc_entered ?r" using ok by (auto simp: turn_ok_def)
  note run = sdk_invD(1) [OF assms(1) owner(1)]
  have grown: "sdk_inv n ?used st"
  proof -
    have "turn_ids used \<subseteq> turn_ids ?used" by (auto simp: turn_ids_def)
    moreover have "turn_ok ?used rs es c" if "turn_ok used rs es c" for rs es c
      using that calculation by (auto simp: turn_ok_def split: option.splits)
    ultimately show ?thesis using assms(1) by (auto simp: sdk_inv_def list_all_iff)
  qed
  let ?st1 = "change_run ?i (\<lambda>r. r\<lparr>rc_turn_sequence := rc_turn_sequence r + 1\<rparr>) st"
  have inv1: "sdk_inv n ?used ?st1"
    using run owner by (intro change_run_inv [OF grown]) (auto simp: run_advances_def live_def run_ok_def)
  show ?thesis
  proof (cases "\<not> tc_entered ?c \<and> sk_active_turn st = None \<and> passes agent_turn_checks ?start \<and> passes agent_turn_checks ?t")
    case False
    then have "snd (enter_turn (logging cl) k mo st) \<in> {st, ?st1}"
      by (auto simp: enter_turn_def Let_def post_init_eq_Inr split: sum.splits)
    with grown inv1 show ?thesis by auto
  next
    case True
    let ?st2 = "change_run ?i (\<lambda>r. r\<lparr>rc_latest_turn := Some k\<rparr>)
      (change_turn k (\<lambda>c. c\<lparr>tc_entered := True, tc_turn := Some ?t, tc_next_event := 0\<rparr>) ?st1)"
    obtain fine st3 where emit: "agent_emit (logging cl) ?i (Some ?t) None None (mo_observed mo) ?st2 = (fine, st3)"
      by fastforce
    have state: "snd (enter_turn (logging cl) k mo st)
        = (change_turn k (\<lambda>c. c\<lparr>tc_token := Some (sk_active_turn st3)\<rparr>) st3)\<lparr>sk_active_turn := Some k\<rparr>"
    proof -
      have "post_init agent_turn_checks ?start = Inr ?start" "post_init agent_turn_checks ?t = Inr ?t"
        using True by (simp_all add: post_init_passes)
      with True emit show ?thesis by (simp add: enter_turn_def Let_def)
    qed
    have t: "t_turn_id ?t = ''turn_'' @ mo_uuid mo" "is_open_turn ?t"
      using True by (simp_all add: first_turn_def Let_def is_open_turn_def)
    have fresh: "t_turn_id ?t \<notin> turn_ids used" using assms(3) t(1) by (auto simp: turn_ids_def)
    let ?c' = "?c\<lparr>tc_entered := True, tc_turn := Some ?t, tc_next_event := 0\<rparr>"
    have none: "tc_token ?c = None" "tc_turn ?c = None" using ok True by (auto simp: turn_ok_def split: option.splits)
    have "sdk_inv n ?used st3"
    proof (rule emit_turn_inv [OF emit assms(1,2), where c = ?c' and m = 0])
      show "runs_advance (sk_runs st) (sk_runs ?st2)"
        using owner(1) by (auto simp: change_run_def run_advances_def live_def intro!: runs_advance_update)
      show "list_all (run_ok n (length (sk_turns st))) (sk_runs ?st2)"
        using assms(1,2) owner(1) run
        by (auto simp: change_run_def sdk_inv_def list_all_length nth_list_update run_ok_def)
      show "history ?t 0 (live (sk_runs ?st2 ! ?i)) (turn_log (t_turn_id ?t) (entries_of st))"
        using sdk_invD(4) [OF assms(1) fresh] by simp
    qed (use True t fresh owner assms(2) none in
      \<open>auto simp: change_turn_def change_run_def turn_ids_def\<close>)
    moreover have "sk_turns st3 = (sk_turns st)[k := ?c']"
    proof -
      obtain x where "same_frame x ?i ?st2 st3" by (cases rule: agent_emit_cases [OF emit]) blast+
      then show ?thesis using assms(2) by (simp add: same_frame_def change_turn_def)
    qed
    ultimately have "sdk_inv n ?used (change_turn k (\<lambda>c. c\<lparr>tc_token := Some (sk_active_turn st3)\<rparr>) st3)"
      using assms(2) t(2) by (intro change_turn_inv) auto
    with state show ?thesis by simp
  qed
qed

section \<open>Operations on a run\<close>

lemma enter_run_inv:
  assumes "sdk_inv n used st" and "i < length (sk_runs st)"
  shows "sdk_inv n used (snd (enter_run (logging cl) i mo st))"
proof (cases "rc_entered (sk_runs st ! i)")
  case True
  then show ?thesis using assms(1) by (simp add: enter_run_def)
next
  case False
  note run = sdk_invD(1) [OF assms]
  have change: "sdk_inv n used (change_run i f st)"
    if "rc_producer_sequence (f (sk_runs st ! i)) = rc_producer_sequence (sk_runs st ! i)"
      "rc_latest_turn (f (sk_runs st ! i)) = rc_latest_turn (sk_runs st ! i)"
      "rc_entered (f (sk_runs st ! i))" for f
    using run False that by (intro change_run_inv [OF assms]) (auto simp: run_advances_def run_ok_def)
  have finish: "sdk_inv n used (change_run i (\<lambda>r. r\<lparr>rc_turn_token := Some a, rc_token := Some b\<rparr>) st')"
    if "sdk_inv n used st'" "i < length (sk_runs st')" for a b and st' :: "('a \<times> entry list) sdk"
    using that sdk_invD(1) [OF that]
    by (intro change_run_inv [OF that]) (auto simp: run_advances_def live_def run_ok_def)
  have emit: "sdk_inv n used (snd (agent_emit (logging cl) i None None None observed st')) \<and>
      i < length (sk_runs (snd (agent_emit (logging cl) i None None None observed st')))"
    if "sdk_inv n used st'" "i < length (sk_runs st')" for observed and st' :: "('a \<times> entry list) sdk"
    using emit_run_inv [OF prod.collapse [symmetric] that] that(2) by simp
  show ?thesis
    using False assms(2)
    by (auto simp: enter_run_def Let_def change_run_twice change emit finish split: sum.split)
qed

lemma exit_run_inv:
  assumes "sdk_inv n used st" and "i < length (sk_runs st)"
  shows "sdk_inv n used (snd (exit_run (logging cl) i e mo st))"
proof -
  have change: "sdk_inv n used (change_run i f st')"
    if "sdk_inv n used st'" "i < length (sk_runs st')"
      "rc_producer_sequence (f (sk_runs st' ! i)) = rc_producer_sequence (sk_runs st' ! i)"
      "rc_latest_turn (f (sk_runs st' ! i)) = rc_latest_turn (sk_runs st' ! i)"
      "rc_entered (f (sk_runs st' ! i)) = rc_entered (sk_runs st' ! i)"
      "rc_open (f (sk_runs st' ! i)) \<longrightarrow> rc_open (sk_runs st' ! i)"
      "live (f (sk_runs st' ! i)) \<longrightarrow> live (sk_runs st' ! i)" for f and st' :: "('a \<times> entry list) sdk"
    using sdk_invD(1) [OF that(1,2)] that(3-7)
    by (intro change_run_inv [OF that(1,2)]) (auto simp: run_advances_def run_ok_def)
  have emit: "sdk_inv n used (snd (agent_emit (logging cl) i None None None observed st')) \<and>
      i < length (sk_runs (snd (agent_emit (logging cl) i None None None observed st')))"
    if "sdk_inv n used st'" "i < length (sk_runs st')" for observed and st' :: "('a \<times> entry list) sdk"
    using emit_run_inv [OF prod.collapse [symmetric] that] that(2) by simp
  show ?thesis
  proof (cases "rc_token (sk_runs st ! i) \<noteq> None \<and> rc_turn_token (sk_runs st ! i) \<noteq> None
      \<and> rc_run (sk_runs st ! i) \<noteq> None \<and> sk_active_turn st = None")
    case False
    then show ?thesis using assms(1) by (auto simp: exit_run_def Let_def split: option.splits)
  next
    case True
    then obtain p q r where r: "rc_token (sk_runs st ! i) = Some p" "rc_turn_token (sk_runs st ! i) = Some q"
      "rc_run (sk_runs st ! i) = Some r" "sk_active_turn st = None" by auto
    let ?st1 = "(change_run i (\<lambda>r. r\<lparr>rc_token := None, rc_turn_token := None\<rparr>) st)
      \<lparr>sk_active_run := p, sk_active_turn := q\<rparr>"
    have one: "sdk_inv n used ?st1" using assms by (simp add: change live_def)
    have two: "sdk_inv n used (change_run i (\<lambda>r. r\<lparr>rc_run := Some r'\<rparr>) ?st1)" for r'
      using assms(2) r(3) by (intro change [OF one]) (auto simp: live_def)
    note three = emit [OF two]
    show ?thesis
      using r assms(2) one three by (auto simp: exit_run_def Let_def change live_def split: sum.split)
  qed
qed

section \<open>All calls\<close>

lemma new_run_inv:
  "sdk_inv n used st \<Longrightarrow> sdk_inv n used (snd (new_run (logging cl) name version sid ext parent config st))"
  using turn_ok_advance [OF _ runs_advance_append]
  by (auto simp: new_run_def sdk_inv_def run_ok_def list_all_iff)

lemma new_turn_inv:
  assumes "sdk_inv n used st" and "i < length (sk_runs st)"
  shows "sdk_inv n used (snd (new_turn i v st))"
proof -
  have "sdk_inv n used (st\<lparr>sk_turns := sk_turns st @ [c]\<rparr>)"
    if "tc_owner c = i" "tc_turn c = None" "tc_token c = None" "rc_open (sk_runs st ! i)" for c
  proof -
    have "turn_ok used (sk_runs st) (entries_of st) c"
      using sdk_invD(1) [OF assms] assms(2) that by (auto simp: turn_ok_def run_ok_def)
    moreover have "distinct_turns (sk_turns st @ [c])"
      using assms(1) that(2) by (auto simp: sdk_inv_def distinct_turns_def nth_append less_Suc_eq)
    ultimately show ?thesis
      using assms(1) by (auto simp: sdk_inv_def list_all_iff less_Suc_eq intro: run_ok_mono)
  qed
  then show ?thesis
    using assms(1) by (auto simp: new_turn_def active_run_required_def split: sum.splits jval.splits)
qed

lemma new_tool_inv:
  "sdk_inv n used st \<Longrightarrow> k < length (sk_turns st) \<Longrightarrow>
   sdk_inv n used (snd (new_tool k name arguments call_id origin mo st))"
  by (auto simp: new_tool_def sdk_inv_def split: sum.splits)

lemma forget_state [simp]: "snd (forget x) = snd x"
  by (simp add: forget_def)

lemma perform_inv:
  assumes "sdk_inv n used st" and "has_object st call" and "int n \<le> max_int64"
    and "\<And>k mo. call = EnterTurn k mo \<Longrightarrow> mo_uuid mo \<notin> used"
  shows "sdk_inv (Suc n) (case call of EnterTurn k mo \<Rightarrow> insert (mo_uuid mo) used | _ \<Rightarrow> used)
    (perform (logging cl) call st)"
proof -
  note mono = sdk_inv_mono [of n _ _ "Suc n"]
  have tool: "lc_turn (sk_tools st ! l) < length (sk_turns st)"
    "sdk_inv n used (change_tool l (\<lambda>c. c\<lparr>lc_entered := True\<rparr>) st)"
    "sdk_inv n used (change_tool l (\<lambda>c. c\<lparr>lc_closed := True\<rparr>) st)"
    "sdk_inv n used (change_tool l (\<lambda>c. c\<lparr>lc_output := v\<rparr>) st)" if "l < length (sk_tools st)" for l v
    using that sdk_invD(3) [OF assms(1)] change_tool_inv [OF assms(1)] by auto
  note event = turn_event_inv [OF _ _ assms(3)]
  show ?thesis
  proof (cases call)
    case (EnterRun i mo)
    with assms(1,2) show ?thesis by (simp add: perform_def has_object_def mono enter_run_inv)
  next
    case (BusinessOutcome i name v source mo)
    with assms(1,2) sdk_invD(1) [OF assms(1), of i] show ?thesis
      by (auto simp: perform_def has_object_def record_business_outcome_def mono run_ok_def
        split: sum.splits option.splits intro!: event)
  next
    case (RecordEvent k facts mo)
    with assms(1,2) show ?thesis
      by (auto simp: perform_def has_object_def record_event_def mono split: sum.splits intro!: event)
  next
    case (EnterTool l mo)
    with assms(1,2) tool [of l] show ?thesis
      by (auto simp: perform_def has_object_def enter_tool_def Let_def mono change_tool_def
        split: sum.splits intro!: event)
  next
    case (ExitTool l e mo)
    with assms(1,2) tool [of l] show ?thesis
      by (auto simp: perform_def has_object_def exit_tool_def Let_def mono change_tool_def
        split: sum.splits intro!: event)
  next
    case (SetToolOutput l v)
    with assms(1,2) tool [of l] show ?thesis
      by (auto simp: perform_def has_object_def set_tool_output_def mono)
  next
    case (SetOutput k v)
    with assms(1,2) change_turn_inv [OF assms(1)] show ?thesis
      by (auto simp: perform_def has_object_def set_output_def mono split: sum.splits jval.splits)
  next
    case ClearContext
    with assms(1) show ?thesis by (simp add: perform_def clear_agent_context_def mono)
  qed (use assms in \<open>simp_all add: perform_def has_object_def capture_model_trace_def mono
    exit_run_inv new_run_inv new_turn_inv enter_turn_inv exit_turn_inv new_tool_inv turn_event_inv\<close>)
qed

section \<open>What the sink sees of a turn\<close>

fun turn_uuids :: "api_call list \<Rightarrow> string list" where
  "turn_uuids [] = []"
| "turn_uuids (call # calls) = (case call of EnterTurn k mo \<Rightarrow> [mo_uuid mo] | _ \<Rightarrow> []) @ turn_uuids calls"

lemma api_run_inv:
  "api_run (logging cl) calls st = Some st' \<Longrightarrow> sdk_inv n used st \<Longrightarrow> distinct (turn_uuids calls) \<Longrightarrow>
   set (turn_uuids calls) \<inter> used = {} \<Longrightarrow> int (n + length calls) \<le> max_int64 \<Longrightarrow>
   \<exists>n' used'. sdk_inv n' used' st'"
proof (induction calls arbitrary: st n used)
  case (Cons call calls)
  let ?used = "case call of EnterTurn k mo \<Rightarrow> insert (mo_uuid mo) used | _ \<Rightarrow> used"
  from Cons.prems(1) have h: "has_object st call" "api_run (logging cl) calls (perform (logging cl) call st) = Some st'"
    by (auto split: if_splits)
  have "sdk_inv (Suc n) ?used (perform (logging cl) call st)"
    using Cons.prems(3-5) by (intro perform_inv [OF Cons.prems(2) h(1)]) auto
  moreover have "set (turn_uuids calls) \<inter> ?used = {}" using Cons.prems(3,4) by (auto split: api_call.splits)
  ultimately show ?case using Cons.prems(3,5) h(2) by (intro Cons.IH) auto
qed auto

lemma turn_history:
  assumes "sdk_inv n used st"
  shows "turn_log i (entries_of st) = [] \<or>
    (\<exists>t m lv. history t m lv (turn_log i (entries_of st)))"
proof (rule disjCI)
  assume "\<not> (\<exists>t m lv. history t m lv (turn_log i (entries_of st)))"
  with assms show "turn_log i (entries_of st) = []"
    by (fastforce simp: sdk_inv_def list_all_iff turn_ok_def)
qed

text \<open>C16 (invariant). Whatever an application does with the contexts, the captures of a turn that
reach the sink number its events from zero without a gap, only the last of them can have been refused, and
each carries a revision of the turn that merges over every earlier one and supersedes it.\<close>

theorem sdk_turn_history:
  assumes "api_run (logging cl) calls (new_sdk (w, [])) = Some st"
    and "distinct (turn_uuids calls)" and "int (length calls) \<le> max_int64"
  shows "let es = turn_log i (entries_of st) in
    event_numbers es = map int [0..<length (event_numbers es)] \<and>
    list_all entry_accepted (butlast es) \<and>
    sorted_wrt (\<lambda>t u. merge_agent_turn default_options (Some t) u = Inr u) (map entry_turn es)"
proof -
  obtain n' used' where "sdk_inv n' used' st"
    using api_run_inv [OF assms(1) new_sdk_inv assms(2)] assms(3) by auto
  moreover have "(\<lambda>t u. merge_agent_turn default_options (Some t) u = Inr u) = merges_to"
    by (simp add: merges_to_def fun_eq_iff)
  ultimately show ?thesis
    using turn_history [of n' used' st i] by (auto simp: history_def Let_def)
qed

end
