(* ===== verification/Agent_Contract.thy ===== *)
theory Agent_Contract
  imports Agent_Properties
begin

text \<open>
  The contract between the capture contexts and a sink: what the records built by the contexts have,
  and what the sink keeps when it is handed such records, holds through every call of the
  application.  It is proved once and used for the privacy of a client that captures no content
  and for a client that writes to the evidence store.
\<close>

section \<open>The contract\<close>

definition run_scope :: "nat \<Rightarrow> run_context \<Rightarrow> bool" where
  "run_scope m r \<longleftrightarrow> (\<forall>k. rc_latest_turn r = Some k \<longrightarrow> k < m)"

definition turn_good :: "(agent_turn \<Rightarrow> bool) \<Rightarrow> turn_context \<Rightarrow> bool" where
  "turn_good good c \<longleftrightarrow> (case tc_turn c of None \<Rightarrow> True | Some t \<Rightarrow> good t)"

definition sdk_keeps :: "(agent_turn \<Rightarrow> bool) \<Rightarrow> ('w \<Rightarrow> bool) \<Rightarrow> 'w sdk \<Rightarrow> bool" where
  "sdk_keeps good_turn good_world st \<longleftrightarrow>
     list_all (run_scope (length (sk_turns st))) (sk_runs st) \<and>
     list_all (\<lambda>c. lc_turn c < length (sk_turns st)) (sk_tools st) \<and>
     list_all (turn_good good_turn) (sk_turns st) \<and> good_world (sk_world st)"

lemma list_all_update: "list_all P xs \<Longrightarrow> P (f (xs ! i)) \<or> \<not> i < length xs \<Longrightarrow> list_all P (xs[i := f (xs ! i)])"
  by (cases "i < length xs") (auto simp: list_all_length nth_list_update)

lemma change_tool_turns [simp]: "sk_turns (change_tool l f st) = sk_turns st"
  by (simp add: change_tool_def)

lemma optional_keys [simp]:
  "dwf (optional k v)" "fst ` set (optional k v) = (if v = None then {} else {k})"
  by (auto simp: optional_def split: option.split)

lemma model_facts_dwf: "dwf (model_facts num t)"
  unfolding model_facts_def by (rule distinct_map_filter) simp

text \<open>The calls an application makes: the attributes of a recorded event and the trace of a model
call are good.\<close>

definition good_call :: "((string, jval) dict \<Rightarrow> bool) \<Rightarrow> (trace \<Rightarrow> bool) \<Rightarrow> api_call \<Rightarrow> bool" where
  "good_call good_attributes good_trace call =
     (case call of
        RecordEvent k facts mo \<Rightarrow> (case facts of Inl e \<Rightarrow> True | Inr (ty, attributes, status) \<Rightarrow> good_attributes attributes)
      | ModelTrace k t mo \<Rightarrow> good_trace t
      | _ \<Rightarrow> True)"

locale capture_contract =
  fixes cl :: "'w agent_client"
    and good_turn :: "agent_turn \<Rightarrow> bool"
    and good_event :: "agent_event \<Rightarrow> bool"
    and good_attributes :: "(string, jval) dict \<Rightarrow> bool"
    and good_trace :: "trace \<Rightarrow> bool"
    and good_world :: "'w \<Rightarrow> bool"
  assumes first_good: "good_turn (first_turn cl c run_id mo\<lparr>t_sequence := n\<rparr>)"
    and last_good: "good_turn t \<Longrightarrow> good_turn (last_turn cl c t e mo)"
    and dict_good: "dwf attributes \<Longrightarrow> good_attributes attributes"
    and draft_good: "draft_event cl r t ty attributes status occurred_at trace_id uuid = Inr ev \<Longrightarrow>
      good_attributes attributes \<Longrightarrow> good_event (ev\<lparr>e_sequence := n, e_producer_sequence := p\<rparr>)"
    and sink_good: "good_world w \<Longrightarrow> passes source_session_checks (c_session b) \<Longrightarrow>
      passes agent_capture_batch_checks b \<Longrightarrow> list_all good_turn (c_turns b) \<Longrightarrow> list_all good_event (c_events b) \<Longrightarrow>
      list_all good_trace ts \<Longrightarrow> good_world (snd (ac_sink cl b ts w))"
begin

abbreviation kept :: "'w sdk \<Rightarrow> bool" where
  "kept \<equiv> sdk_keeps good_turn good_world"

lemma kept_actives [simp]:
  "kept (st\<lparr>sk_active_run := a\<rparr>) = kept st" "kept (st\<lparr>sk_active_turn := b\<rparr>) = kept st"
  "kept (st\<lparr>sk_active_turn := b, sk_active_run := a\<rparr>) = kept st"
  "kept (st\<lparr>sk_active_run := a, sk_active_turn := b\<rparr>) = kept st"
  by (simp_all add: sdk_keeps_def)

lemma kept_change_run:
  assumes "kept st"
    and "\<And>r. run_scope (length (sk_turns st)) r \<Longrightarrow> run_scope (length (sk_turns st)) (f r)"
  shows "kept (change_run i f st)"
  using assms(1) assms(2) [of "sk_runs st ! i"]
  by (cases "i < length (sk_runs st)") (auto simp: sdk_keeps_def change_run_def list_all_length nth_list_update)

lemma kept_change_turn:
  "kept st \<Longrightarrow> turn_good good_turn (f (sk_turns st ! k)) \<Longrightarrow> kept (change_turn k f st)"
  by (auto simp: sdk_keeps_def change_turn_def intro!: list_all_update)

lemma kept_change_tool:
  "kept st \<Longrightarrow> (\<And>c. lc_turn (f c) = lc_turn c) \<Longrightarrow> kept (change_tool l f st)"
  by (cases "l < length (sk_tools st)") (auto simp: sdk_keeps_def change_tool_def list_all_length nth_list_update)

lemma kept_emit:
  assumes "agent_emit cl i turn event tr observed st = (ok, st')" and "kept st"
    and "\<And>t. turn = Some t \<Longrightarrow> good_turn t"
    and "\<And>e. event = Some e \<Longrightarrow> good_event e" and "\<And>t. tr = Some t \<Longrightarrow> good_trace t"
  shows "kept st' \<and> length (sk_turns st') = length (sk_turns st)"
proof -
  have runs: "list_all (run_scope m) (flagged x i rs)" if "list_all (run_scope m) rs" for m x rs
    using that by (cases "i < length rs") (auto simp: flagged_def run_scope_def list_all_length nth_list_update)
  show ?thesis
  proof (cases rule: agent_emit_cases [OF assms(1)])
    case (1 failed)
    with assms(2) runs show ?thesis by (auto simp: sdk_keeps_def same_frame_def)
  next
    case (2 batch source r x)
    have "good_world (snd (ac_sink cl batch (case tr of None \<Rightarrow> [] | Some t \<Rightarrow> [t]) (sk_world st)))"
      using agent_batch_parts [OF 2(4)] assms(2-5) by (intro sink_good) (auto simp: sdk_keeps_def split: option.splits)
    with 2 assms(2) runs show ?thesis by (auto simp: sdk_keeps_def same_frame_def)
  qed
qed


lemma kept_emits:
  assumes "kept st" and "\<And>t. turn = Some t \<Longrightarrow> good_turn t"
    and "\<And>e. event = Some e \<Longrightarrow> good_event e" and "\<And>t. tr = Some t \<Longrightarrow> good_trace t"
  shows "kept (snd (agent_emit cl i turn event tr observed st))"
    and "length (sk_turns (snd (agent_emit cl i turn event tr observed st))) = length (sk_turns st)"
  using kept_emit [OF prod.collapse [symmetric] assms] by blast+

lemma turn_event_kept:
  assumes "kept st" and "k < length (sk_turns st)"
    and "good_attributes attributes" and "\<And>t. tr = Some t \<Longrightarrow> good_trace t"
  shows "kept (snd (turn_event cl k ty attributes status occurred_at tr mo st))"
proof -
  let ?c = "sk_turns st ! k" and ?r = "sk_runs st ! tc_owner (sk_turns st ! k)"
  have c: "turn_good good_turn ?c" using assms(1,2) by (simp add: sdk_keeps_def list_all_length)
  let ?st1 = "change_run (tc_owner ?c) (\<lambda>r. r\<lparr>rc_producer_sequence := rc_producer_sequence r + 1\<rparr>)
    (change_turn k (\<lambda>c. c\<lparr>tc_next_event := tc_next_event c + 1\<rparr>) st)"
  have one: "kept ?st1"
    using c assms(1) by (intro kept_change_run kept_change_turn) (auto simp: run_scope_def turn_good_def)
  have emit: "kept (snd (agent_emit cl i (Some t) (Some e') tr observed ?st1))"
    if "tc_turn ?c = Some t" "good_event e'" for t e' i observed
    using that c assms(4) by (intro kept_emits(1) [OF one]) (auto simp: turn_good_def)
  show ?thesis
  proof (cases "tc_turn ?c")
    case None
    with assms(1) show ?thesis by (simp add: turn_event_def)
  next
    case (Some t)
    show ?thesis
    proof (cases "draft_event cl ?r t ty attributes status occurred_at (map_option tr_trace_id tr) (mo_uuid mo)")
      case (Inl e)
      with Some assms(1) show ?thesis by (simp add: turn_event_def Let_def)
    next
      case (Inr e)
      note good = draft_good [OF Inr assms(3)]
      with Some Inr one emit show ?thesis
        by (auto simp: turn_event_def Let_def post_init_eq_Inr split_def split: sum.split)
    qed
  qed
qed

lemma enter_turn_kept:
  assumes "kept st" and "k < length (sk_turns st)"
  shows "kept (snd (enter_turn cl k mo st))"
proof -
  let ?c = "sk_turns st ! k" and ?r = "sk_runs st ! tc_owner (sk_turns st ! k)"
  let ?t = "first_turn cl ?c (rc_run_id ?r) mo\<lparr>t_sequence := rc_turn_sequence ?r\<rparr>"
  let ?st1 = "change_run (tc_owner ?c) (\<lambda>r. r\<lparr>rc_turn_sequence := rc_turn_sequence r + 1\<rparr>) st"
  let ?st2 = "change_run (tc_owner ?c) (\<lambda>r. r\<lparr>rc_latest_turn := Some k\<rparr>)
    (change_turn k (\<lambda>c. c\<lparr>tc_entered := True, tc_turn := Some ?t, tc_next_event := 0\<rparr>) ?st1)"
  have t: "good_turn ?t" by (rule first_good)
  have one: "kept ?st1" using assms(1) by (intro kept_change_run) (auto simp: run_scope_def)
  have two: "kept ?st2"
    using t assms(2) by (intro kept_change_run kept_change_turn one) (auto simp: run_scope_def turn_good_def)
  have three: "kept (change_turn k (\<lambda>c. c\<lparr>tc_token := Some a\<rparr>) st3)"
    if "kept st3" "k < length (sk_turns st3)" for a and st3 :: "'w sdk"
    using that by (intro kept_change_turn) (auto simp: sdk_keeps_def list_all_length turn_good_def)
  have "kept (snd (agent_emit cl (tc_owner ?c) (Some ?t) None None (mo_observed mo) ?st2)) \<and>
      length (sk_turns (snd (agent_emit cl (tc_owner ?c) (Some ?t) None None (mo_observed mo) ?st2))) = length (sk_turns st)"
    using kept_emits [OF two, of "Some ?t" None None] t by (simp add: change_turn_def)
  with assms(1,2) one three show ?thesis
    by (auto simp: enter_turn_def Let_def post_init_eq_Inr split: sum.split)
qed

lemma exit_turn_kept:
  assumes "kept st" and "k < length (sk_turns st)"
  shows "kept (snd (exit_turn cl k e mo st))"
proof (cases "tc_token (sk_turns st ! k)")
  case None
  with assms(1) show ?thesis by (simp add: exit_turn_def)
next
  case (Some previous)
  let ?c = "sk_turns st ! k"
  show ?thesis
  proof (cases "tc_turn ?c")
    case None
    with Some assms(1) show ?thesis by (simp add: exit_turn_def)
  next
    case t: (Some t)
    let ?t = "last_turn cl ?c t e mo"
    let ?st1 = "(change_turn k (\<lambda>c. c\<lparr>tc_token := None\<rparr>) st)\<lparr>sk_active_turn := previous\<rparr>"
    have c: "turn_good good_turn ?c" using assms(1,2) by (simp add: sdk_keeps_def list_all_length)
    have one: "kept ?st1" using c assms(1) by (auto simp: turn_good_def intro: kept_change_turn)
    have last: "good_turn ?t" using c t by (simp add: turn_good_def last_good)
    have two: "kept (change_turn k (\<lambda>c. c\<lparr>tc_turn := Some ?t\<rparr>) ?st1)"
      using last by (intro kept_change_turn one) (simp add: turn_good_def)
    show ?thesis
      using Some t one kept_emits(1) [OF two, of "Some ?t" None] last
      by (auto simp: exit_turn_def Let_def post_init_eq_Inr split: sum.split)
  qed
qed

lemma kept_keep:
  "kept st \<Longrightarrow> (\<And>r. rc_latest_turn (f r) = rc_latest_turn r) \<Longrightarrow> kept (change_run i f st)"
  by (intro kept_change_run) (simp_all add: run_scope_def)

lemma enter_run_kept: "kept st \<Longrightarrow> kept (snd (enter_run cl i mo st))"
  by (auto simp: enter_run_def Let_def split: sum.split intro!: kept_keep kept_emits(1))

lemma exit_run_kept: "kept st \<Longrightarrow> kept (snd (exit_run cl i e mo st))"
  by (auto simp: exit_run_def Let_def split: sum.split option.split intro!: kept_keep kept_emits(1))


lemma perform_kept:
  assumes "kept st" and "has_object st call"
    and "good_call good_attributes good_trace call"
  shows "kept (perform cl call st)"
proof -
  note event = turn_event_kept
  have tool: "lc_turn (sk_tools st ! l) < length (sk_turns st)" if "l < length (sk_tools st)" for l
    using assms(1) that by (simp add: sdk_keeps_def list_all_length)
  have latest: "k < length (sk_turns st)" if "i < length (sk_runs st)" "rc_latest_turn (sk_runs st ! i) = Some k" for i k
    using assms(1) that by (simp add: sdk_keeps_def list_all_length run_scope_def)
  have turn_good_at: "turn_good good_turn (sk_turns st ! k)" if "k < length (sk_turns st)" for k
    using assms(1) that by (simp add: sdk_keeps_def list_all_length)
  have scoped: "run_scope (Suc m) r" if "run_scope m r" for m r using that by (fastforce simp: run_scope_def)
  have more: "kept (st\<lparr>sk_turns := sk_turns st @ [c]\<rparr>)" if "tc_turn c = None" for c
    using assms(1) that by (auto simp: sdk_keeps_def list_all_iff turn_good_def scoped less_Suc_eq)
  show ?thesis
  proof (cases call)
    case (NewRun name version sid ext parent config)
    with assms(1) show ?thesis
      by (auto simp: perform_def new_run_def sdk_keeps_def run_scope_def)
  next
    case (NewTurn i v)
    with assms(1) more show ?thesis by (auto simp: perform_def new_turn_def split: sum.split jval.split)
  next
    case (BusinessOutcome i name v source mo)
    with assms(1,2) latest [of i] show ?thesis
      by (auto simp: perform_def has_object_def record_business_outcome_def split: sum.split option.split intro!: event dict_good)
  next
    case (RecordEvent k facts mo)
    with assms show ?thesis
      by (auto simp: perform_def has_object_def record_event_def good_call_def split: sum.splits intro!: event)
  next
    case (NewTool k name arguments call_id origin mo)
    with assms(1,2) show ?thesis
      by (auto simp: perform_def has_object_def new_tool_def sdk_keeps_def split: sum.split)
  next
    case (EnterTool l mo)
    with assms(1,2) tool [of l] show ?thesis
      by (auto simp: perform_def has_object_def enter_tool_def Let_def kept_change_tool
        split: sum.split intro!: event dict_good)
  next
    case (ExitTool l e mo)
    with assms(1,2) tool [of l] show ?thesis
      by (auto simp: perform_def has_object_def exit_tool_def Let_def kept_change_tool
        split: sum.split intro!: event dict_good)
  next
    case (SetToolOutput l v)
    with assms(1) show ?thesis by (auto simp: perform_def set_tool_output_def kept_change_tool)
  next
    case (SetOutput k v)
    with assms(1,2) turn_good_at [of k] show ?thesis
      by (auto simp: perform_def has_object_def set_output_def turn_good_def
        split: sum.split jval.split intro!: kept_change_turn)
  next
    case ClearContext
    with assms(1) show ?thesis by (simp add: perform_def clear_agent_context_def)
  next
    case (ModelTrace k t mo)
    with assms show ?thesis
      by (auto simp: perform_def has_object_def capture_model_trace_def good_call_def model_facts_dwf
        intro!: event dict_good)
  qed (use assms event in \<open>simp_all add: perform_def has_object_def
    enter_run_kept exit_run_kept enter_turn_kept exit_turn_kept\<close>)
qed

lemma api_run_kept:
  "api_run cl calls st = Some st' \<Longrightarrow> kept st \<Longrightarrow> list_all (good_call good_attributes good_trace) calls \<Longrightarrow>
   kept st'"
proof (induction calls arbitrary: st)
  case (Cons call calls)
  then show ?case using perform_kept [of st call] by (auto split: if_splits)
qed simp

lemma api_run_world:
  "api_run cl calls (new_sdk w) = Some st \<Longrightarrow> good_world w \<Longrightarrow>
   list_all (good_call good_attributes good_trace) calls \<Longrightarrow> good_world (sk_world st)"
  using api_run_kept [of calls "new_sdk w" st] by (simp add: sdk_keeps_def new_sdk_def)

end

section \<open>Without content\<close>

text \<open>A redactor that adds no field that holds content.\<close>

definition keeps_fields :: "redactor \<Rightarrow> bool" where
  "keeps_fields rd \<longleftrightarrow>
     (\<forall>kvs out. rd_value rd (JDict kvs) = JDict out \<longrightarrow> \<not> has_content_field kvs \<longrightarrow> \<not> has_content_field out)"

lemma has_content_keys: "dkeys a = dkeys b \<Longrightarrow> has_content_field a = has_content_field b"
  by (simp add: has_content_field_def)

lemma without_content_none: "\<not> has_content_field (without_content attributes)"
  by (auto simp: has_content_field_def without_content_def list_ex_iff)

lemma has_content_dset:
  "has_content_field (dset k v d) \<longleftrightarrow> k \<in> set event_content_fields \<or> has_content_field d"
  by (auto simp: has_content_field_def list_ex_iff dkeys_dset)

lemma sanitize_no_content:
  assumes "keeps_fields rd" and "\<not> has_content_field attributes"
  shows "\<not> has_content_field (sanitize_agent_event_attributes rd ty attributes)"
proof -
  have fold: "has_content_field (fold (\<lambda>f s. case dget s f of None \<Rightarrow> s | Some v \<Rightarrow> dset f (rd_secret rd v) s) fs s)
      = has_content_field s" for fs s
  proof (induction fs arbitrary: s)
    case (Cons f fs)
    have "has_content_field (dset f x s) = has_content_field s" if "dget s f = Some v" for v x
    proof (rule has_content_keys)
      show "dkeys (dset f x s) = dkeys s" using that by (force simp: dkeys_dset dest: map_of_SomeD)
    qed
    then show ?case by (auto simp: Cons.IH split: option.split)
  qed simp
  show ?thesis
    using assms by (auto simp: sanitize_agent_event_attributes_def keeps_fields_def fold
      has_content_field_def [of "[]"] split: jval.split)
qed

lemma bound_no_content: "has_content_field (bound_attributes rd a) = has_content_field a"
  by (rule has_content_keys) (simp add: bound_attributes_def)

lemma safe_no_content:
  assumes "keeps_fields (ac_redactor cl)" and "\<not> ac_capture_content cl"
  shows "\<not> has_content_field (fst (safe_attributes cl ty attributes))"
proof (cases "tool_content_field ty")
  case None
  with assms show ?thesis
    by (simp add: safe_attributes_def other_attributes_def Let_def sanitize_no_content bound_no_content
      without_content_none)
next
  case (Some f)
  then have f: "f \<in> set event_content_fields" by (cases ty) (auto simp: event_content_fields_def)
  then have "dget (without_content attributes) f = None"
    by (simp add: without_content_def map_of_eq_None_iff image_iff)
  moreover have "\<not> has_content_field (filter (\<lambda>(k, v). k \<noteq> f) (without_content attributes))"
    using without_content_none [of attributes] by (auto simp: has_content_field_def list_ex_iff)
  ultimately show ?thesis
    using Some assms(2) by (simp add: safe_attributes_def tool_attributes_def Let_def bound_no_content)
qed

lemma draft_no_content:
  assumes "draft_event cl r t ty attributes status occurred_at trace_id uuid = Inr e"
    and "keeps_fields (ac_redactor cl)" and "\<not> ac_capture_content cl"
  shows "\<not> has_content_field (e_attributes e)"
  using assms(1) safe_no_content [OF assms(2,3), of ty attributes]
  by (auto simp: draft_event_def build_event_def Let_def post_init_eq_Inr
    split: prod.splits sum.splits py_error.splits if_splits)

text \<open>No text of the application in a turn, no content field in an event.\<close>

definition bare_turn :: "agent_turn \<Rightarrow> bool" where
  "bare_turn t \<longleftrightarrow> t_user_request_redacted t = None \<and> t_final_response_redacted t = None \<and>
     t_progress_redacted t = None"

definition bare_capture :: "agent_capture \<Rightarrow> bool" where
  "bare_capture b \<longleftrightarrow> list_all bare_turn (c_turns b) \<and>
     list_all (\<lambda>e. \<not> has_content_field (e_attributes e)) (c_events b)"


section \<open>A client that captures no content\<close>

definition private_client :: "'w agent_client \<Rightarrow> bool" where
  "private_client cl \<longleftrightarrow> keeps_fields (ac_redactor cl) \<and> \<not> ac_capture_content cl"

lemma logging_simps [simp]:
  "ac_redactor (logging cl) = ac_redactor cl" "ac_capture_content (logging cl) = ac_capture_content cl"
  by (simp_all add: logging_def)

interpretation private_sdk: capture_contract "logging cl" "\<lambda>t. private_client cl \<longrightarrow> bare_turn t"
  "\<lambda>e. private_client cl \<longrightarrow> \<not> has_content_field (e_attributes e)" "\<lambda>a. True" "\<lambda>t. True"
  "\<lambda>w. private_client cl \<longrightarrow> list_all (\<lambda>entry. bare_capture (fst entry)) (snd w)" for cl
proof (unfold_locales, goal_cases)
  case (1 c run_id mo n)
  then show ?case by (simp add: private_client_def bare_turn_def first_turn_def agent_content_def Let_def)
next
  case (2 t c e mo)
  then show ?case
    by (auto simp: private_client_def bare_turn_def last_turn_def agent_content_def Let_def
      split: app_exit.split option.split)
next
  case (4 r t ty attributes status occurred_at trace_id uuid ev n p)
  then show ?case by (auto simp: private_client_def dest: draft_no_content)
next
  case (5 w b ts)
  then show ?case
    using logging_sink [OF prod.collapse [symmetric], of cl b ts w]
    by (auto simp: bare_capture_def list_all_iff)
qed simp

lemma keeps_no_trace: "list_all (good_call (\<lambda>a. True) (\<lambda>t. True)) calls"
  by (simp add: list_all_iff good_call_def split: api_call.split sum.split)


section \<open>A client that writes to the evidence store\<close>

definition storing :: "redactor \<Rightarrow> evidence_store agent_client \<Rightarrow> evidence_store agent_client" where
  "storing rd cl = cl\<lparr>ac_sink := (\<lambda>b ts st. case append_agent_capture rd b ts st of
     Inl e \<Rightarrow> (Inl e, st) | Inr st' \<Rightarrow> (Inr (), st'))\<rparr>"

lemma bound_dwf: "dwf (bound_attributes rd a) = dwf a"
  by (simp add: bound_attributes_def)

lemma without_content_dwf: "dwf a \<Longrightarrow> dwf (without_content a)"
  by (simp add: without_content_def distinct_map_filter)

lemma safe_dwf:
  assumes "redactor_ok (ac_redactor cl)" and "dwf attributes"
  shows "dwf (fst (safe_attributes cl ty attributes))"
  using assms without_content_dwf [of attributes]
  by (auto simp: safe_attributes_def tool_attributes_def other_attributes_def Let_def bound_dwf
    without_content_dwf distinct_map_filter sanitize_attributes_dwf split: option.split)

lemma draft_dwf:
  assumes "draft_event cl r t ty attributes status occurred_at trace_id uuid = Inr e"
    and "redactor_ok (ac_redactor cl)" and "dwf attributes"
  shows "dwf (e_attributes e)"
  using assms(1) safe_dwf [OF assms(2,3), of ty]
  by (auto simp: draft_event_def build_event_def Let_def post_init_eq_Inr without_content_dwf
    split: prod.splits sum.splits py_error.splits if_splits)


interpretation storing_sdk: capture_contract "storing rd cl" "\<lambda>t. True"
  "\<lambda>e. redactor_ok (ac_redactor cl) \<longrightarrow> dwf (e_attributes e)" dwf trace_built
  "\<lambda>st. redactor_ok (ac_redactor cl) \<longrightarrow> redactor_ok rd \<longrightarrow> store_wf st" for rd cl
proof (unfold_locales, goal_cases)
  case (4 r t ty attributes status occurred_at trace_id uuid ev n p)
  then show ?case by (auto simp: storing_def dest: draft_dwf)
next
  case (5 w b ts)
  then show ?case
    using store_step_wf [OF store_step.append_capture]
    by (auto simp: storing_def capture_built_def list_all_iff split: sum.split)
qed simp_all


end
