(* ===== verification/Agent_Samples.thy ===== *)
theory Agent_Samples
  imports Agent_Contract Samples "HOL-Library.Code_Target_Nat"
begin

text \<open>
  The capture contexts evaluated on a small application: one run with one turn, an instruction
  and a tool call.
\<close>

definition sample_client :: "bool \<Rightarrow> 'w agent_client" where
  "sample_client content = \<lparr>ac_env = plain_py_env, ac_redactor = plain_redactor,
     ac_sink = (\<lambda>b ts w. (Inr (), w)), ac_float = (\<lambda>i. rat_of_int i), ac_tenant_id = None,
     ac_capture_content = content, ac_sample_rate = 1, ac_service_name = ''svc'',
     ac_environment = ''test'', ac_identity = (''p'', 1)\<rparr>"

definition sample_moment :: "int \<Rightarrow> string \<Rightarrow> moment" where
  "sample_moment now uuid = \<lparr>mo_now = now, mo_observed = now, mo_uuid = uuid\<rparr>"

definition sample_calls :: "api_call list" where
  "sample_calls = [NewRun ''agent'' [] None None None [], EnterRun 0 (sample_moment 2 ''r''),
     NewTurn 0 (JStr ''hi''), EnterTurn 0 (sample_moment 3 ''u''),
     RecordEvent 0 (instruction_facts ''system'' ''be brief'' ''prompt'' True) (sample_moment 4 ''e''),
     NewTool 0 ''grep'' (JDict []) None None (sample_moment 5 ''c''), EnterTool 0 (sample_moment 6 ''f''),
     SetToolOutput 0 (JStr ''found''), ExitTool 0 Returned (sample_moment 7 ''g''),
     SetOutput 0 (JStr ''bye''), ExitTurn 0 Returned (sample_moment 8 ''h''),
     ExitRun 0 Returned (sample_moment 9 ''i'')]"

lemma sample_sdk_log:
  "map_option (\<lambda>st. map (\<lambda>(b, ts, fine). (map t_status (c_turns b), map e_sequence (c_events b), fine)) (entries_of st))
     (api_run (logging (sample_client True)) sample_calls (new_sdk ((), [])))
   = Some [([], [], True), ([UNKNOWN], [], True), ([UNKNOWN], [0], True), ([UNKNOWN], [1], True),
       ([UNKNOWN], [2], True), ([COMPLETED], [], True), ([], [], True)]"
  by code_simp

lemma sample_turn_uuids: "distinct (turn_uuids sample_calls)" "int (length sample_calls) \<le> max_int64"
  by code_simp+

theorem sdk_turn_history_witness:
  "\<exists>st. api_run (logging (sample_client True)) sample_calls (new_sdk ((), [])) = Some st \<and>
     (let es = turn_log ''turn_u'' (entries_of st) in length es = 5 \<and>
        event_numbers es = map int [0..<length (event_numbers es)] \<and> length (event_numbers es) = 3 \<and>
        list_all entry_accepted (butlast es) \<and>
        sorted_wrt (\<lambda>t u. merge_agent_turn default_options (Some t) u = Inr u) (map entry_turn es))"
proof -
  have facts: "map_option (\<lambda>st. (length (turn_log ''turn_u'' (entries_of st)),
      length (event_numbers (turn_log ''turn_u'' (entries_of st)))))
      (api_run (logging (sample_client True)) sample_calls (new_sdk ((), []))) = Some (5, 3)"
    by code_simp
  then obtain st where "api_run (logging (sample_client True)) sample_calls (new_sdk ((), [])) = Some st" by blast
  then show ?thesis
    using facts sdk_turn_history [OF _ sample_turn_uuids, of "sample_client True" "()" st "''turn_u''"]
    by (auto simp: Let_def)
qed

lemma plain_keeps_fields: "keeps_fields plain_redactor"
  by (simp add: keeps_fields_def plain_redactor_def)



end
