(* ===== verification/Cluster_Registry.thy ===== *)
theory Cluster_Registry
  imports Evidence_Store Json_Parse Python_Env
begin

text \<open>
  The versioned cluster registry of the store (\<open>verdict/schema.py\<close>, \<open>storage/memory.py\<close>): the
  records with the checks of their constructors, the insertion of a preview and of assignments,
  the event log, the activation of a version by compare-and-swap, and the readers.

  Every operation is one step under the store's locks.  The clock, the fresh identifiers and
  the answer of the evidence tables to "is this trace content-free local history" are arguments.
  Vectors are lists of finite floats; the test for unit norm, Unicode normalisation, Unicode
  categories, SHA-256 and the escaping of a JSON text are parameters.
\<close>

section \<open>Records\<close>

record cluster_env =
  ce_python :: py_env
  ce_nfc :: "string \<Rightarrow> string"
  ce_control :: "string \<Rightarrow> bool"
  ce_unit_norm :: "rat list \<Rightarrow> bool"
  ce_quote :: "string \<Rightarrow> string"

record cluster_identity =
  ci_tenant :: string
  ci_cluster_id :: string
  ci_kind :: string
  ci_lifecycle :: string
  ci_explicit_key :: "string option"
  ci_display_name :: string
  ci_last_model :: "jval option"
  ci_last_centroid :: "rat list option"
  ci_last_version :: "string option"
  ci_created_at :: int
  ci_created_by :: string
  ci_updated_at :: int
  ci_updated_by :: string

definition code_points :: "string \<Rightarrow> nat" where
  "code_points s = length (filter (\<lambda>c. \<not> is_cont c) s)"

definition display_name_ok :: "cluster_env \<Rightarrow> string \<Rightarrow> bool" where
  "display_name_ok ce s \<longleftrightarrow> ce_nfc ce s = s \<and> s \<noteq> [] \<and> code_points s \<le> 80 \<and> length s \<le> 256 \<and> \<not> ce_control ce s"

definition unit_vector :: "cluster_env \<Rightarrow> rat list \<Rightarrow> bool" where
  "unit_vector ce v \<longleftrightarrow> v \<noteq> [] \<and> ce_unit_norm ce v"

definition cluster_identity_checks :: "cluster_env \<Rightarrow> cluster_identity \<Rightarrow> (py_error + unit) list" where
  "cluster_identity_checks ce i =
     [require (ci_kind i \<in> {''explicit'', ''semantic''})
        (ValueError ''cluster identity kind must be explicit or semantic''),
      require (ci_lifecycle i \<in> {''provisional'', ''active''})
        (ValueError ''cluster identity lifecycle is invalid''),
      require ((ci_kind i = ''explicit'') = (ci_explicit_key i \<noteq> None))
        (ValueError ''explicit identity requires exactly one explicit key''),
      require (display_name_ok ce (ci_display_name i)) (ValueError ''cluster display name is invalid''),
      require (case ci_last_centroid i of None \<Rightarrow> True | Some v \<Rightarrow> unit_vector ce v)
        (ValueError ''cluster identity prototype must be finite and unit norm'')]"

record registry_version =
  rv_tenant :: string
  rv_version_id :: string
  rv_parent :: "string option"
  rv_strategy :: string
  rv_cutoff :: int
  rv_lookback_days :: int
  rv_fit_definition :: string
  rv_fit_fingerprint :: string
  rv_preview_report :: string
  rv_created_at :: int
  rv_created_by :: string

definition registry_version_checks :: "registry_version \<Rightarrow> (py_error + unit) list" where
  "registry_version_checks v =
     [require (rv_strategy v \<in> {''explicit'', ''semantic'', ''hybrid''})
        (ValueError ''cluster registry strategy is invalid''),
      require (0 < rv_lookback_days v) (ValueError ''cluster registry lookback must be positive'')]"

record registry_cluster =
  rc_tenant :: string
  rc_version_id :: string
  rc_cluster_id :: string
  rc_kind :: string
  rc_centroid :: "rat list option"
  rc_radius :: "rat option"
  rc_member_count :: int
  rc_outlier_count :: int

definition registry_cluster_checks :: "cluster_env \<Rightarrow> registry_cluster \<Rightarrow> (py_error + unit) list" where
  "registry_cluster_checks ce c =
     (if rc_kind c = ''explicit''
      then [require (rc_centroid c = None \<and> rc_radius c = None)
              (ValueError ''explicit cluster cannot contain semantic geometry'')]
      else if rc_kind c = ''semantic''
      then [require (rc_centroid c \<notin> {None, Some []} \<and> rc_radius c \<noteq> None)
              (ValueError ''semantic cluster requires centroid and radius''),
            require (case rc_radius c of None \<Rightarrow> False | Some r \<Rightarrow> 0 \<le> r \<and> r \<le> 2)
              (ValueError ''semantic cluster radius must be finite and in [0,2]''),
            require (case rc_centroid c of None \<Rightarrow> False | Some v \<Rightarrow> ce_unit_norm ce v)
              (ValueError ''semantic centroid must have unit norm'')]
      else [Inl (ValueError ''registry cluster kind is invalid'')])
     @ [require (0 \<le> rc_member_count c \<and> 0 \<le> rc_outlier_count c)
          (ValueError ''cluster counts must be nonnegative'')]"

definition outlier_reasons :: "string list" where
  "outlier_reasons = [''distance'', ''explicit_key_not_in_version'', ''semantic_fit_too_small'']"

definition ineligible_reasons :: "string list" where
  "ineligible_reasons =
     [''invalid_workload'', ''unsafe_workload'', ''missing_intent_key'', ''invalid_intent_key'',
      ''unsafe_intent_key'', ''content_not_captured'', ''raw_messages_oversize'',
      ''malformed_messages'', ''no_supported_user_text'', ''text_too_short'', ''text_too_long'',
      ''redaction_error'']"

record cluster_assignment =
  as_tenant :: string
  as_version_id :: string
  as_trace_id :: string
  as_origin :: string
  as_status :: string
  as_cluster_id :: "string option"
  as_cluster_kind :: "string option"
  as_reason :: "string option"
  as_distance :: "rat option"
  as_assigned_at :: int

definition distance_ok :: "rat option \<Rightarrow> bool" where
  "distance_ok d \<longleftrightarrow> (case d of None \<Rightarrow> False | Some q \<Rightarrow> 0 \<le> q \<and> q \<le> 2)"

definition cluster_assignment_checks :: "cluster_assignment \<Rightarrow> (py_error + unit) list" where
  "cluster_assignment_checks a =
     require (as_origin a \<in> {''fit'', ''incremental''}) (ValueError ''assignment origin is invalid'') #
     (if as_status a = ''assigned''
      then [require (as_cluster_id a \<noteq> None \<and> as_cluster_kind a \<in> {Some ''explicit'', Some ''semantic''})
              (ValueError ''assigned result requires cluster identity and kind''),
            require (as_reason a = None) (ValueError ''assigned result cannot contain a reason''),
            require (\<not> (as_cluster_kind a = Some ''explicit'' \<and> as_distance a \<noteq> None))
              (ValueError ''explicit assignment distance must be null''),
            require (\<not> (as_cluster_kind a = Some ''semantic'' \<and> \<not> distance_ok (as_distance a)))
              (ValueError ''semantic assignment requires a finite distance in [0,2]'')]
      else if as_status a = ''outlier''
      then [require (as_cluster_id a = None \<and> as_cluster_kind a = None)
              (ValueError ''outlier result cannot name a cluster''),
            require (as_reason a \<in> Some ` set outlier_reasons)
              (ValueError ''outlier assignment reason is invalid''),
            require (\<not> (as_reason a = Some ''distance'' \<and> \<not> distance_ok (as_distance a)))
              (ValueError ''outlier distance is invalid''),
            require (\<not> (as_reason a \<noteq> Some ''distance'' \<and> as_distance a \<noteq> None))
              (ValueError ''outlier distance is invalid'')]
      else if as_status a = ''ineligible''
      then [require (as_cluster_id a = None \<and> as_cluster_kind a = None)
              (ValueError ''ineligible result cannot name a cluster''),
            require (as_reason a \<in> Some ` set ineligible_reasons \<and> as_distance a = None)
              (ValueError ''ineligible assignment reason is invalid'')]
      else [Inl (ValueError ''assignment status is invalid'')])"

record active_registry =
  ar_tenant :: string
  ar_version_id :: "string option"
  ar_generation :: int
  ar_activated_at :: "int option"
  ar_activated_by :: "string option"

definition no_active :: "string \<Rightarrow> active_registry" where
  "no_active tenant = \<lparr>ar_tenant = tenant, ar_version_id = None, ar_generation = 0,
     ar_activated_at = None, ar_activated_by = None\<rparr>"

definition active_registry_checks :: "active_registry \<Rightarrow> (py_error + unit) list" where
  "active_registry_checks p =
     [require (0 \<le> ar_generation p) (ValueError ''cluster registry generation must be nonnegative'')]"

record registry_event =
  ev_tenant :: string
  ev_event_id :: string
  ev_action :: string
  ev_from :: "string option"
  ev_to :: "string option"
  ev_generation :: "int option"
  ev_created_at :: int
  ev_actor :: string
  ev_details :: string

definition registry_event_checks :: "registry_event \<Rightarrow> (py_error + unit) list" where
  "registry_event_checks e =
     [require (ev_action e \<in> {''validated'', ''validation_failed'', ''activated'', ''rolled_back'', ''renamed''})
        (ValueError ''cluster registry event action is invalid'')]"

section \<open>State\<close>

record registry =
  rg_identities :: "(string \<times> string, cluster_identity) dict"
  rg_versions :: "(string \<times> string, registry_version) dict"
  rg_clusters :: "(string \<times> string \<times> string, registry_cluster) dict"
  rg_assignments :: "(string \<times> string \<times> string, cluster_assignment) dict"
  rg_active :: "(string, active_registry) dict"
  rg_events :: "(string \<times> string, registry_event) dict"

definition empty_registry :: registry where
  "empty_registry = \<lparr>rg_identities = [], rg_versions = [], rg_clusters = [], rg_assignments = [],
     rg_active = [], rg_events = []\<rparr>"

text \<open>Whether the evidence tables hold a trace of the tenant as content-free local history.\<close>

type_synonym local_history = "string \<Rightarrow> string \<Rightarrow> bool"

definition local_history_free :: "local_history \<Rightarrow> string \<Rightarrow> cluster_assignment \<Rightarrow> py_error + unit" where
  "local_history_free loc tenant a =
     require (\<not> loc tenant (as_trace_id a)) (ValueError ''local_source_registry_conflict'')"

section \<open>Previews\<close>

definition explicit_owner ::
  "string \<Rightarrow> cluster_identity \<Rightarrow> (string \<times> string, cluster_identity) dict \<Rightarrow> cluster_identity option" where
  "explicit_owner tenant i identities =
     map_option snd (List.find (\<lambda>((scope, _), item). scope = tenant \<and> ci_explicit_key i \<noteq> None \<and>
       ci_explicit_key item = ci_explicit_key i) identities)"

definition preview_identity ::
  "string \<Rightarrow> cluster_identity \<Rightarrow> (string \<times> string, cluster_identity) dict \<Rightarrow>
     (string \<times> string, cluster_identity) dict result" where
  "preview_identity tenant i identities =
     (let key = (tenant, ci_cluster_id i) in
      bindr (checks
        [require (ci_tenant i = tenant \<and> ci_lifecycle i = ''provisional'')
           (ValueError ''cluster preview tenant mismatch''),
         require (case explicit_owner tenant i identities of None \<Rightarrow> True
             | Some owner \<Rightarrow> ci_cluster_id owner = ci_cluster_id i)
           (ValueError ''cluster identity conflict''),
         require (case dget identities key of None \<Rightarrow> True
             | Some existing \<Rightarrow> ci_kind existing = ci_kind i \<and> ci_explicit_key existing = ci_explicit_key i)
           (ValueError ''cluster identity conflict'')])
      (\<lambda>_. Inr (dsetdefault key i identities)))"

definition preview_cluster ::
  "registry_version \<Rightarrow> (string \<times> string, cluster_identity) dict \<Rightarrow> registry_cluster \<Rightarrow>
     (string \<times> string \<times> string, registry_cluster) dict \<Rightarrow>
     (string \<times> string \<times> string, registry_cluster) dict result" where
  "preview_cluster v identities c clusters =
     bindr (checks
       [require (rc_tenant c = rv_tenant v \<and> rc_version_id c = rv_version_id v)
          (ValueError ''cluster preview version mismatch''),
        require (case dget identities (rv_tenant v, rc_cluster_id c) of None \<Rightarrow> False
            | Some i \<Rightarrow> ci_kind i = rc_kind c)
          (ValueError ''cluster preview identity mismatch'')])
     (\<lambda>_. Inr (dset (rv_tenant v, rv_version_id v, rc_cluster_id c) c clusters))"

definition validate_preview_assignment ::
  "string \<Rightarrow> string \<Rightarrow> cluster_assignment \<Rightarrow> (string \<times> string \<times> string, registry_cluster) dict \<Rightarrow>
     py_error + unit" where
  "validate_preview_assignment tenant version_id a clusters =
     checks
       [require (as_tenant a = tenant \<and> as_version_id a = version_id)
          (ValueError ''cluster assignment scope mismatch''),
        require (as_status a = ''assigned'' \<longrightarrow>
            (case dget clusters (tenant, version_id, case as_cluster_id a of None \<Rightarrow> [] | Some s \<Rightarrow> s) of
               None \<Rightarrow> False | Some c \<Rightarrow> as_cluster_kind a = Some (rc_kind c)))
          (ValueError ''cluster assignment target mismatch'')]"

definition preview_assignment ::
  "local_history \<Rightarrow> registry_version \<Rightarrow> (string \<times> string \<times> string, registry_cluster) dict \<Rightarrow>
     cluster_assignment \<Rightarrow> (string \<times> string \<times> string, cluster_assignment) dict \<Rightarrow>
     (string \<times> string \<times> string, cluster_assignment) dict result" where
  "preview_assignment loc v clusters a assignments =
     bindr (checks [local_history_free loc (rv_tenant v) a,
       validate_preview_assignment (rv_tenant v) (rv_version_id v) a clusters])
     (\<lambda>_. Inr (dset (rv_tenant v, rv_version_id v, as_trace_id a) a assignments))"

text \<open>The tables change only after every part of the preview is accepted.\<close>

definition insert_cluster_preview ::
  "local_history \<Rightarrow> registry_version \<Rightarrow> cluster_identity list \<Rightarrow> registry_cluster list \<Rightarrow>
     cluster_assignment list \<Rightarrow> registry \<Rightarrow> registry result" where
  "insert_cluster_preview loc v identities clusters assignments rg =
     bindr (require (dget (rg_versions rg) (rv_tenant v, rv_version_id v) = None)
       (ValueError ''cluster registry version already exists'')) (\<lambda>_.
     bindr (foldr_res (preview_identity (rv_tenant v)) identities (rg_identities rg)) (\<lambda>ids.
     bindr (foldr_res (preview_cluster v ids) clusters (rg_clusters rg)) (\<lambda>cs.
     bindr (foldr_res (preview_assignment loc v cs) assignments (rg_assignments rg)) (\<lambda>asg.
     Inr (rg\<lparr>rg_identities := ids, rg_clusters := cs, rg_assignments := asg,
       rg_versions := dset (rv_tenant v, rv_version_id v) v (rg_versions rg),
       rg_active := dsetdefault (rv_tenant v) (no_active (rv_tenant v)) (rg_active rg)\<rparr>)))))"

section \<open>Assignments and events\<close>

definition insert_assignment ::
  "local_history \<Rightarrow> string \<Rightarrow> registry \<Rightarrow> cluster_assignment \<Rightarrow>
     (string \<times> string \<times> string, cluster_assignment) dict \<Rightarrow>
     (string \<times> string \<times> string, cluster_assignment) dict result" where
  "insert_assignment loc tenant rg a assignments =
     (let key = (tenant, as_version_id a, as_trace_id a) in
      bindr (checks
        [local_history_free loc tenant a,
         require (as_tenant a = tenant) (ValueError ''cluster assignment tenant mismatch''),
         require (dget (rg_versions rg) (tenant, as_version_id a) \<noteq> None)
           (ValueError ''unknown cluster registry version''),
         validate_preview_assignment tenant (as_version_id a) a (rg_clusters rg),
         require (dget assignments key \<in> {None, Some a}) (ValueError ''immutable assignment conflict'')])
      (\<lambda>_. Inr (dset key a assignments)))"

definition insert_trace_cluster_assignments ::
  "local_history \<Rightarrow> string \<Rightarrow> cluster_assignment list \<Rightarrow> registry \<Rightarrow> registry result" where
  "insert_trace_cluster_assignments loc tenant assignments rg =
     bindr (foldr_res (insert_assignment loc tenant rg) assignments (rg_assignments rg))
     (\<lambda>asg. Inr (rg\<lparr>rg_assignments := asg\<rparr>))"

definition insert_cluster_registry_event :: "registry_event \<Rightarrow> registry \<Rightarrow> registry result" where
  "insert_cluster_registry_event e rg =
     (let key = (ev_tenant e, ev_event_id e) in
      bindr (require (dget (rg_events rg) key \<in> {None, Some e}) (ValueError ''immutable cluster event conflict''))
      (\<lambda>_. Inr (rg\<lparr>rg_events := dset key e (rg_events rg)\<rparr>)))"

section \<open>Readers\<close>

definition page :: "int option \<Rightarrow> int \<Rightarrow> 'a list \<Rightarrow> 'a list" where
  "page limit offset rows =
     (case limit of None \<Rightarrow> rows | Some n \<Rightarrow> take (nat n) (drop (nat offset) rows))"

definition page_checks :: "string \<Rightarrow> int option \<Rightarrow> int \<Rightarrow> (py_error + unit) list" where
  "page_checks what limit offset =
     [require (case limit of None \<Rightarrow> True | Some n \<Rightarrow> 0 < n)
        (ValueError (what @ '' limit must be a positive integer'')),
      require (0 \<le> offset \<and> \<not> (offset \<noteq> 0 \<and> limit = None)) (ValueError (what @ '' offset requires a limit''))]"

definition get_cluster_registry_version :: "registry \<Rightarrow> string \<Rightarrow> string \<Rightarrow> registry_version option" where
  "get_cluster_registry_version rg tenant version_id = dget (rg_versions rg) (tenant, version_id)"

definition list_cluster_registry_clusters :: "registry \<Rightarrow> string \<Rightarrow> string \<Rightarrow> registry_cluster list" where
  "list_cluster_registry_clusters rg tenant version_id =
     sort_key rc_cluster_id (map snd (filter (\<lambda>((scope, version, _), _).
       scope = tenant \<and> version = version_id) (rg_clusters rg)))"

definition list_trace_cluster_assignments ::
  "registry \<Rightarrow> string \<Rightarrow> string \<Rightarrow> int option \<Rightarrow> int \<Rightarrow> cluster_assignment list result" where
  "list_trace_cluster_assignments rg tenant version_id limit offset =
     bindr (checks (page_checks ''assignment'' limit offset))
     (\<lambda>_. Inr (page limit offset (sort_key as_trace_id (map snd (filter (\<lambda>((scope, version, _), _).
       scope = tenant \<and> version = version_id) (rg_assignments rg))))))"

definition registry_events :: "registry \<Rightarrow> string \<Rightarrow> string option \<Rightarrow> registry_event list" where
  "registry_events rg tenant version_id =
     sort_key (\<lambda>e. (ev_created_at e, ev_event_id e)) (map snd (filter (\<lambda>((scope, _), e). scope = tenant \<and>
       (version_id = None \<or> ev_from e = version_id \<or> ev_to e = version_id)) (rg_events rg)))"

definition list_cluster_registry_events ::
  "registry \<Rightarrow> string \<Rightarrow> string option \<Rightarrow> int option \<Rightarrow> int \<Rightarrow> registry_event list result" where
  "list_cluster_registry_events rg tenant version_id limit offset =
     bindr (checks (page_checks ''event'' limit offset))
     (\<lambda>_. Inr (page limit offset (registry_events rg tenant version_id)))"

definition list_cluster_identities ::
  "registry \<Rightarrow> string \<Rightarrow> string list option \<Rightarrow> int option \<Rightarrow> int \<Rightarrow> cluster_identity list result" where
  "list_cluster_identities rg tenant cluster_ids limit offset =
     bindr (checks (page_checks ''identity'' limit offset))
     (\<lambda>_. Inr (page limit offset (sort_key ci_cluster_id (map snd (filter (\<lambda>((scope, cluster_id), _).
       scope = tenant \<and> (case cluster_ids of None \<Rightarrow> True | Some ids \<Rightarrow> cluster_id \<in> set ids))
       (rg_identities rg))))))"

text \<open>Reading the pointer creates it.\<close>

definition get_active_cluster_registry :: "string \<Rightarrow> registry \<Rightarrow> active_registry \<times> registry" where
  "get_active_cluster_registry tenant rg =
     (let active = dsetdefault tenant (no_active tenant) (rg_active rg) in
      (case dget active tenant of None \<Rightarrow> no_active tenant | Some p \<Rightarrow> p, rg\<lparr>rg_active := active\<rparr>))"

section \<open>Activation\<close>

definition big_endian :: "nat \<Rightarrow> string" where
  "big_endian n = map (\<lambda>i. char_of (n div 256 ^ i mod 256)) [3, 2, 1, 0]"

definition cluster_candidate_digest :: "py_env \<Rightarrow> string list \<Rightarrow> string" where
  "cluster_candidate_digest env trace_ids =
     pe_sha256 env (''cluster-coverage-v1'' @ concat (map (\<lambda>s. big_endian (length s) @ s) (sort trace_ids)))"

definition fit_candidates :: "registry \<Rightarrow> string \<Rightarrow> string \<Rightarrow> string list" where
  "fit_candidates rg tenant version_id =
     map (\<lambda>(_, a). as_trace_id a) (filter (\<lambda>((scope, version, _), a).
       scope = tenant \<and> version = version_id \<and> as_origin a = ''fit'') (rg_assignments rg))"

definition json_get :: "jval \<Rightarrow> string \<Rightarrow> jval option result" where
  "json_get v key = (case v of JDict kvs \<Rightarrow> Inr (dget kvs key) | _ \<Rightarrow> Inl (AttributeError ''get''))"

text \<open>\<open>n > config.get(key, default)\<close>.\<close>

definition over_limit :: "nat \<Rightarrow> jval \<Rightarrow> string \<Rightarrow> nat \<Rightarrow> bool result" where
  "over_limit n config key fallback =
     bindr (json_get config key) (\<lambda>v.
       case num_of (case v of None \<Rightarrow> JInt (int fallback) | Some w \<Rightarrow> w) of
         None \<Rightarrow> Inl (TypeError ''not comparable'') | Some q \<Rightarrow> Inr (q < rat_of_nat n))"

text \<open>\<open>value or None\<close>.\<close>

definition truthy_or_none :: "jval option \<Rightarrow> jval option" where
  "truthy_or_none v =
     (case v of
        None \<Rightarrow> None
      | Some w \<Rightarrow> if w \<in> {JNull, JStr [], JList [], JDict []} \<or> num_of w = Some 0 then None else v)"

definition version_validated :: "registry \<Rightarrow> string \<Rightarrow> string \<Rightarrow> bool" where
  "version_validated rg tenant version_id =
     (let validations = filter (\<lambda>e. ev_to e = Some version_id \<and>
          ev_action e \<in> {''validated'', ''validation_failed''}) (registry_events rg tenant (Some version_id))
      in validations \<noteq> [] \<and> ev_action (last validations) = ''validated'')"

definition identity_count :: "registry \<Rightarrow> string \<Rightarrow> string list \<Rightarrow> string \<Rightarrow> nat" where
  "identity_count rg tenant targets kind =
     length (filter (\<lambda>((scope, cluster_id), i). scope = tenant \<and>
       (ci_lifecycle i = ''active'' \<or> cluster_id \<in> set targets) \<and> ci_kind i = kind) (rg_identities rg))"

definition activate_identity ::
  "string \<Rightarrow> string \<Rightarrow> jval option \<Rightarrow> string \<Rightarrow> registry_cluster \<times> int \<Rightarrow>
     (string \<times> string, cluster_identity) dict \<Rightarrow> (string \<times> string, cluster_identity) dict result" where
  "activate_identity tenant version_id model actor ct identities =
     (let (c, now) = ct in
      case dget identities (tenant, rc_cluster_id c) of
        None \<Rightarrow> Inl (KeyError (rc_cluster_id c))
      | Some i \<Rightarrow> Inr (dset (tenant, rc_cluster_id c)
          (i\<lparr>ci_lifecycle := ''active'', ci_last_version := Some version_id, ci_last_model := model,
             ci_last_centroid := rc_centroid c, ci_updated_at := now, ci_updated_by := actor\<rparr>) identities))"

definition identity_activated ::
  "string \<Rightarrow> string \<Rightarrow> jval option \<Rightarrow> (string \<times> string, cluster_identity) dict \<Rightarrow> registry_cluster \<Rightarrow> bool" where
  "identity_activated tenant version_id model identities c \<longleftrightarrow>
     (case dget identities (tenant, rc_cluster_id c) of
        None \<Rightarrow> False
      | Some i \<Rightarrow> ci_lifecycle i = ''active'' \<and> ci_kind i = rc_kind c \<and> ci_last_version i = Some version_id \<and>
          ci_last_model i = model \<and> ci_last_centroid i = rc_centroid c)"

text \<open>The checks of an activation, and the identities it leaves; \<open>clock\<close> is the reading of the clock
for each cluster.\<close>

definition prepare_activation ::
  "cluster_env \<Rightarrow> string \<Rightarrow> string \<Rightarrow> string \<Rightarrow> string \<Rightarrow> int \<Rightarrow> string \<Rightarrow> (nat \<Rightarrow> int) \<Rightarrow> active_registry \<Rightarrow>
     registry \<Rightarrow> (string \<times> string, cluster_identity) dict result" where
  "prepare_activation ce tenant version_id actor action expected digest clock pointer rg =
     bindr (require (ar_generation pointer = expected) (ValueError ''cluster registry generation conflict'')) (\<lambda>_.
     case dget (rg_versions rg) (tenant, version_id) of
       None \<Rightarrow> Inl (ValueError ''unknown cluster registry version'')
     | Some v \<Rightarrow>
       bindr (checks
         [require (action = ''activated'' \<longrightarrow> rv_parent v = ar_version_id pointer)
            (ValueError ''cluster registry parent conflict''),
          require (version_validated rg tenant version_id)
            (ValueError ''cluster registry version is not validated'')]) (\<lambda>_.
       let clusters = list_cluster_registry_clusters rg tenant version_id in
       (case json_loads (pe_float (ce_python ce)) (rv_fit_definition v) of
          None \<Rightarrow> Inl (ValueError ''invalid JSON'')
        | Some definition_ \<Rightarrow>
          bindr (json_get definition_ ''config'') (\<lambda>found.
          let config = (case found of None \<Rightarrow> JDict [] | Some c \<Rightarrow> c);
              candidates = fit_candidates rg tenant version_id in
          bindr (over_limit (length candidates) config ''max_fit_candidates'' 50000) (\<lambda>many.
          bindr (require (\<not> (many \<or> cluster_candidate_digest (ce_python ce) candidates \<noteq> digest))
            (ValueError ''cluster registry coverage changed'')) (\<lambda>_.
          bindr (json_get definition_ ''model_fingerprint'') (\<lambda>fingerprint.
          let model = truthy_or_none fingerprint;
              targets = map rc_cluster_id clusters in
          bindr (over_limit (identity_count rg tenant targets ''explicit'') config
            ''max_explicit_identities_per_tenant'' 10000) (\<lambda>explicit_over.
          bindr (if explicit_over then Inr True
              else over_limit (identity_count rg tenant targets ''semantic'') config
                ''max_semantic_identities_per_tenant'' 5000) (\<lambda>over.
          bindr (require (\<not> over) (ValueError ''identity_limit'')) (\<lambda>_.
          bindr (foldr_res (activate_identity tenant version_id model actor)
            (zip clusters (map clock [0..<length clusters])) (rg_identities rg)) (\<lambda>identities.
          bindr (require (list_all (identity_activated tenant version_id model identities) clusters)
            (ValueError ''cluster activation identity invariant failed'')) (\<lambda>_.
          Inr identities))))))))))))"

definition activate_cluster_registry ::
  "cluster_env \<Rightarrow> string \<Rightarrow> string \<Rightarrow> int \<Rightarrow> string \<Rightarrow> string \<Rightarrow> string \<Rightarrow> (nat \<Rightarrow> int) \<Rightarrow> string \<Rightarrow>
     registry \<Rightarrow> active_registry result \<times> registry" where
  "activate_cluster_registry ce tenant version_id expected actor action digest clock event_id rg =
     (if action \<notin> {''activated'', ''rolled_back''} then (Inl (ValueError ''activation action is invalid''), rg)
      else
       (let (pointer, rg1) = get_active_cluster_registry tenant rg in
        case prepare_activation ce tenant version_id actor action expected digest clock pointer rg1 of
          Inl e \<Rightarrow> (Inl e, rg1)
        | Inr identities \<Rightarrow>
            (let now = clock (length (list_cluster_registry_clusters rg1 tenant version_id)) in
             case post_init active_registry_checks
               \<lparr>ar_tenant = tenant, ar_version_id = Some version_id, ar_generation = expected + 1,
                ar_activated_at = Some now, ar_activated_by = Some actor\<rparr> of
               Inl e \<Rightarrow> (Inl e, rg1)
             | Inr new_pointer \<Rightarrow>
               (Inr new_pointer, rg1\<lparr>
                  rg_events := dset (tenant, event_id)
                    \<lparr>ev_tenant = tenant, ev_event_id = event_id, ev_action = action,
                     ev_from = ar_version_id pointer, ev_to = Some version_id,
                     ev_generation = Some (ar_generation new_pointer), ev_created_at = now,
                     ev_actor = actor, ev_details = ''{}''\<rparr> (rg_events rg1),
                  rg_active := dset tenant new_pointer (rg_active rg1),
                  rg_identities := identities\<rparr>))))"

section \<open>Renaming\<close>

definition rename_cluster_identity ::
  "cluster_env \<Rightarrow> string \<Rightarrow> string \<Rightarrow> string \<Rightarrow> string \<Rightarrow> int \<Rightarrow> string \<Rightarrow> registry \<Rightarrow> registry result" where
  "rename_cluster_identity ce tenant cluster_id display_name actor now event_id rg =
     (case dget (rg_identities rg) (tenant, cluster_id) of
        None \<Rightarrow> Inl (ValueError ''unknown cluster identity'')
      | Some i \<Rightarrow> Inr (rg\<lparr>
          rg_events := dset (tenant, event_id)
            \<lparr>ev_tenant = tenant, ev_event_id = event_id, ev_action = ''renamed'', ev_from = None, ev_to = None,
             ev_generation = None, ev_created_at = now, ev_actor = actor,
             ev_details = ''{\"cluster_id\": '' @ ce_quote ce cluster_id @ ''}''\<rparr> (rg_events rg),
          rg_identities := dset (tenant, cluster_id)
            (i\<lparr>ci_display_name := display_name, ci_updated_at := now, ci_updated_by := actor\<rparr>)
            (rg_identities rg)\<rparr>))"

text \<open>The service normalises and checks the name before it renames.\<close>

definition valid_actor :: "string \<Rightarrow> py_error + unit" where
  "valid_actor actor = require (actor \<noteq> [] \<and> length actor \<le> 256)
     (ValueError ''actor must be nonempty strict UTF-8 at most 256 bytes'')"

definition valid_tenant :: "string \<Rightarrow> py_error + unit" where
  "valid_tenant tenant = require (tenant \<noteq> [] \<and> length tenant \<le> 128)
     (ValueError ''tenant must be nonempty strict UTF-8 at most 128 bytes'')"

definition rename_cluster ::
  "cluster_env \<Rightarrow> string \<Rightarrow> string \<Rightarrow> string \<Rightarrow> string \<Rightarrow> int \<Rightarrow> string \<Rightarrow> registry \<Rightarrow> registry result" where
  "rename_cluster ce tenant cluster_id display_name actor now event_id rg =
     (let normalized = ce_nfc ce display_name in
      bindr (checks [valid_tenant tenant, valid_actor actor,
        require (normalized \<noteq> [] \<and> code_points normalized \<le> 80 \<and> length normalized \<le> 256 \<and>
            \<not> ce_control ce normalized)
          (ValueError ''invalid cluster display name'')])
      (\<lambda>_. rename_cluster_identity ce tenant cluster_id normalized actor now event_id rg))"

section \<open>Traces to cluster\<close>

record cluster_candidate =
  cd_trace_id_bytes :: nat
  cd_trace_id :: "string option"
  cd_tenant :: string
  cd_started_at_us :: int
  cd_workload_type :: string
  cd_workload_bytes :: "nat option"
  cd_workload :: "string option"
  cd_intent_type :: string
  cd_intent_bytes :: "nat option"
  cd_intent :: "string option"
  cd_messages_state :: string
  cd_messages_bytes :: "nat option"

definition routing_projection :: "jval option \<Rightarrow> string \<times> nat option \<times> string option" where
  "routing_projection v =
     (case v of
        None \<Rightarrow> (''missing'', None, None)
      | Some w \<Rightarrow>
          (case w of
             JNull \<Rightarrow> (''null'', None, None)
           | JStr s \<Rightarrow> (''string'', Some (length s), if length s \<le> 64 then Some s else None)
           | JBool b \<Rightarrow> (''boolean'', None, None)
           | JInt i \<Rightarrow> (''number'', None, None)
           | JFloat q r \<Rightarrow> (''number'', None, None)
           | JList vs \<Rightarrow> (''array'', None, None)
           | JDict kvs \<Rightarrow> (''object'', None, None)))"

definition tag_projection :: "trace \<Rightarrow> string \<Rightarrow> string \<times> nat option \<times> string option" where
  "tag_projection t name = routing_projection (map_option JStr (dget (tr_tags t) name))"

definition cluster_time :: "string \<Rightarrow> trace \<Rightarrow> int option" where
  "cluster_time tenant t =
     (if \<not> trace_tenant_matches (tr_tenant_id t) tenant \<or> tr_ended_at t = None \<or>
         tr_analysis_started_at_state t \<noteq> ''valid''
      then None else tr_analysis_started_at_us t)"

definition workload_selected :: "string option \<Rightarrow> trace \<Rightarrow> bool" where
  "workload_selected target t =
     (let w = snd (snd (tag_projection t ''verdict.workload'')) in
      case target of
        Some x \<Rightarrow> w = Some x
      | None \<Rightarrow> w \<notin> {Some ''judge'', Some ''paired_replay''})"

definition candidate_of :: "string \<Rightarrow> int \<Rightarrow> trace \<Rightarrow> cluster_candidate" where
  "candidate_of tenant us t =
     (let (wt, wb, w) = tag_projection t ''verdict.workload'';
          (it, ib, i) = tag_projection t ''verdict.intent_key'' in
      \<lparr>cd_trace_id_bytes = length (tr_trace_id t),
       cd_trace_id = (if length (tr_trace_id t) \<le> 256 then Some (tr_trace_id t) else None),
       cd_tenant = tenant, cd_started_at_us = us, cd_workload_type = wt, cd_workload_bytes = wb,
       cd_workload = w, cd_intent_type = it, cd_intent_bytes = ib, cd_intent = i,
       cd_messages_state = tr_analysis_raw_messages_state t,
       cd_messages_bytes = tr_analysis_raw_messages_utf8_bytes t\<rparr>)"

definition candidate_row ::
  "registry \<Rightarrow> string \<Rightarrow> int \<Rightarrow> int \<Rightarrow> string option \<Rightarrow> string option \<Rightarrow> trace \<Rightarrow> cluster_candidate option" where
  "candidate_row rg tenant start_us cutoff_us target missing_version t =
     (case cluster_time tenant t of
        None \<Rightarrow> None
      | Some us \<Rightarrow>
          (if start_us \<le> us \<and> us < cutoff_us \<and>
              (case missing_version of None \<Rightarrow> True
               | Some v \<Rightarrow> dget (rg_assignments rg) (tenant, v, tr_trace_id t) = None) \<and>
              workload_selected target t
           then Some (candidate_of tenant us t) else None))"

definition list_cluster_trace_candidates ::
  "registry \<Rightarrow> trace list \<Rightarrow> string \<Rightarrow> int \<Rightarrow> int \<Rightarrow> string option \<Rightarrow> nat \<Rightarrow> string option \<Rightarrow>
     cluster_candidate list" where
  "list_cluster_trace_candidates rg traces tenant start_us cutoff_us target limit missing_version =
     take limit (sort_key (\<lambda>c. (cd_started_at_us c, case cd_trace_id c of None \<Rightarrow> [] | Some i \<Rightarrow> i))
       (List.map_filter (candidate_row rg tenant start_us cutoff_us target missing_version) traces))"

definition cluster_trace_time_bounds ::
  "trace list \<Rightarrow> string \<Rightarrow> string option \<Rightarrow> nat \<times> int option \<times> int option" where
  "cluster_trace_time_bounds traces tenant target =
     (let times = List.map_filter (cluster_time tenant) (filter (workload_selected target) traces) in
      (length times, if times = [] then None else Some (Min (set times)),
       if times = [] then None else Some (Max (set times))))"

definition get_cluster_trace_messages ::
  "(string, trace) dict \<Rightarrow> string \<Rightarrow> string list \<Rightarrow> (string, jval list option) dict" where
  "get_cluster_trace_messages traces tenant trace_ids =
     fold (\<lambda>i found. case dget traces i of
         None \<Rightarrow> found
       | Some t \<Rightarrow> if trace_tenant_matches (tr_tenant_id t) tenant \<and> tr_analysis_raw_messages_state t = ''valid''
           then dset i (tr_raw_messages t) found else found) trace_ids []"

definition analysis_pending :: "string \<Rightarrow> trace \<Rightarrow> bool" where
  "analysis_pending tenant t \<longleftrightarrow> trace_tenant_matches (tr_tenant_id t) tenant \<and>
     (tr_analysis_started_at_state t = ''pending'' \<or> tr_analysis_raw_messages_state t = ''pending'')"

definition count_pending_analysis_rows :: "(string, trace) dict \<Rightarrow> string \<Rightarrow> nat" where
  "count_pending_analysis_rows traces tenant = length (filter (analysis_pending tenant) (map snd traces))"

text \<open>The pending traces are objects of the table: populating them changes the table in place.\<close>

definition normalize_cluster_trace_analysis ::
  "string \<Rightarrow> int \<Rightarrow> (string, trace) dict \<Rightarrow> (nat result) \<times> (string, trace) dict" where
  "normalize_cluster_trace_analysis tenant limit traces =
     (if \<not> (1 \<le> limit \<and> limit \<le> 10000)
      then (Inl (ValueError ''normalization limit must be in [1,10000]''), traces)
      else
       (let pending = sort_key tr_trace_id (filter (analysis_pending tenant) (map snd traces));
            chosen = map tr_trace_id (take (nat limit) pending)
        in (Inr (min (length pending) (nat limit)),
            map (\<lambda>(k, t). (k, if tr_trace_id t \<in> set chosen then populate_trace_analysis_fields t else t)) traces)))"

end
