(* ===== verification/Cluster_Laws.thy ===== *)
theory Cluster_Laws
  imports Cluster_Registry
begin

text \<open>
  The tables of the cluster registry: what well-formed tables are, what every operation adds to
  them, and that every operation keeps them well formed.
\<close>

section \<open>Tables that only grow\<close>

definition extends :: "('k, 'v) dict \<Rightarrow> ('k, 'v) dict \<Rightarrow> bool" where
  "extends d d' \<longleftrightarrow> (\<forall>k v. dget d k = Some v \<longrightarrow> dget d' k = Some v)"

lemma extendsD: "extends d d' \<Longrightarrow> dget d k = Some v \<Longrightarrow> dget d' k = Some v"
  by (simp add: extends_def)

lemma extends_refl [simp]: "extends d d"
  by (simp add: extends_def)

lemma extends_trans: "extends a b \<Longrightarrow> extends b c \<Longrightarrow> extends a c"
  by (simp add: extends_def)

lemma extends_dset: "dget d k \<in> {None, Some v} \<Longrightarrow> extends d (dset k v d)"
  by (auto simp: extends_def dict_simps)

lemma extends_dsetdefault: "extends d (dsetdefault k v d)"
  by (auto simp: extends_def dict_simps)

text \<open>A loop that writes one entry per element.\<close>

lemma foldr_res_writes:
  assumes "foldr_res f xs d = Inr d'"
    and "\<And>x e e'. x \<in> set xs \<Longrightarrow> f x e = Inr e' \<Longrightarrow> P x \<and> e' = dset (key x) x e"
  shows "(\<forall>k. dget d' k = dget d k \<or> (\<exists>x \<in> set xs. k = key x \<and> dget d' k = Some x \<and> P x)) \<and> (dwf d \<longrightarrow> dwf d')"
  using assms
proof (induction xs arbitrary: d)
  case (Cons x xs)
  from Cons.prems(1) obtain e where e: "f x d = Inr e" "foldr_res f xs e = Inr d'" by (auto simp: res_simps)
  with Cons.prems(2) [of x d e] have x: "P x" "e = dset (key x) x d" by auto
  have "(\<forall>k. dget d' k = dget e k \<or> (\<exists>x \<in> set xs. k = key x \<and> dget d' k = Some x \<and> P x)) \<and> (dwf e \<longrightarrow> dwf d')"
    using e(2) Cons.prems(2) by (intro Cons.IH) auto
  with x show ?case by (auto simp: dict_simps split: if_splits)
qed simp

lemma foldr_res_extends:
  assumes "foldr_res f xs d = Inr d'" and "\<And>x e e'. f x e = Inr e' \<Longrightarrow> extends e e'"
  shows "extends d d'"
  using assms
proof (induction xs arbitrary: d)
  case (Cons x xs)
  then show ?case by (auto simp: res_simps) (blast intro: extends_trans)
qed simp

section \<open>Well-formed tables\<close>

definition identities_ok :: "cluster_env \<Rightarrow> (string \<times> string, cluster_identity) dict \<Rightarrow> bool" where
  "identities_ok ce ids \<longleftrightarrow>
     (\<forall>t c i. dget ids (t, c) = Some i \<longrightarrow>
        ci_tenant i = t \<and> ci_cluster_id i = c \<and> passes (cluster_identity_checks ce) i) \<and>
     (\<forall>t c d i j. dget ids (t, c) = Some i \<longrightarrow> dget ids (t, d) = Some j \<longrightarrow> ci_explicit_key i \<noteq> None \<longrightarrow>
        ci_explicit_key i = ci_explicit_key j \<longrightarrow> c = d)"

definition versions_ok :: "registry \<Rightarrow> bool" where
  "versions_ok rg \<longleftrightarrow>
     (\<forall>t v x. dget (rg_versions rg) (t, v) = Some x \<longrightarrow>
        rv_tenant x = t \<and> rv_version_id x = v \<and> passes registry_version_checks x)"

definition cluster_entry_ok ::
  "cluster_env \<Rightarrow> (string \<times> string, registry_version) dict \<Rightarrow> (string \<times> string, cluster_identity) dict \<Rightarrow>
     string \<Rightarrow> string \<Rightarrow> string \<Rightarrow> registry_cluster \<Rightarrow> bool" where
  "cluster_entry_ok ce vs ids t v c x \<longleftrightarrow>
     rc_tenant x = t \<and> rc_version_id x = v \<and> rc_cluster_id x = c \<and> passes (registry_cluster_checks ce) x \<and>
     dget vs (t, v) \<noteq> None \<and> (\<exists>i. dget ids (t, c) = Some i \<and> ci_kind i = rc_kind x)"

definition clusters_ok :: "cluster_env \<Rightarrow> registry \<Rightarrow> bool" where
  "clusters_ok ce rg \<longleftrightarrow> (\<forall>t v c x. dget (rg_clusters rg) (t, v, c) = Some x \<longrightarrow>
     cluster_entry_ok ce (rg_versions rg) (rg_identities rg) t v c x)"

definition assignment_entry_ok ::
  "(string \<times> string, registry_version) dict \<Rightarrow> (string \<times> string \<times> string, registry_cluster) dict \<Rightarrow>
     string \<Rightarrow> string \<Rightarrow> string \<Rightarrow> cluster_assignment \<Rightarrow> bool" where
  "assignment_entry_ok vs cs t v s a \<longleftrightarrow>
     as_tenant a = t \<and> as_version_id a = v \<and> as_trace_id a = s \<and> passes cluster_assignment_checks a \<and>
     dget vs (t, v) \<noteq> None \<and>
     (as_status a = ''assigned'' \<longrightarrow> (\<exists>c x. as_cluster_id a = Some c \<and>
        dget cs (t, v, c) = Some x \<and> as_cluster_kind a = Some (rc_kind x)))"

definition assignments_ok :: "registry \<Rightarrow> bool" where
  "assignments_ok rg \<longleftrightarrow> (\<forall>t v s a. dget (rg_assignments rg) (t, v, s) = Some a \<longrightarrow>
     assignment_entry_ok (rg_versions rg) (rg_clusters rg) t v s a)"

definition version_ready :: "registry \<Rightarrow> string \<Rightarrow> string \<Rightarrow> bool" where
  "version_ready rg t v \<longleftrightarrow> dget (rg_versions rg) (t, v) \<noteq> None \<and>
     (\<forall>c x. dget (rg_clusters rg) (t, v, c) = Some x \<longrightarrow>
        (\<exists>i. dget (rg_identities rg) (t, c) = Some i \<and> ci_lifecycle i = ''active'' \<and> ci_kind i = rc_kind x \<and>
           ci_last_version i = Some v \<and> ci_last_centroid i = rc_centroid x))"

definition active_ok :: "registry \<Rightarrow> bool" where
  "active_ok rg \<longleftrightarrow>
     (\<forall>t p. dget (rg_active rg) t = Some p \<longrightarrow>
        ar_tenant p = t \<and> 0 \<le> ar_generation p \<and> (ar_version_id p = None \<longleftrightarrow> ar_generation p = 0) \<and>
        (\<forall>v. ar_version_id p = Some v \<longrightarrow> version_ready rg t v))"

definition events_ok :: "registry \<Rightarrow> bool" where
  "events_ok rg \<longleftrightarrow>
     (\<forall>t i e. dget (rg_events rg) (t, i) = Some e \<longrightarrow> ev_tenant e = t \<and> ev_event_id e = i \<and>
        passes registry_event_checks e)"

definition tables_distinct :: "registry \<Rightarrow> bool" where
  "tables_distinct rg \<longleftrightarrow> dwf (rg_identities rg) \<and> dwf (rg_versions rg) \<and> dwf (rg_clusters rg) \<and>
     dwf (rg_assignments rg) \<and> dwf (rg_active rg) \<and> dwf (rg_events rg)"

definition registry_wf :: "cluster_env \<Rightarrow> registry \<Rightarrow> bool" where
  "registry_wf ce rg \<longleftrightarrow> tables_distinct rg \<and> identities_ok ce (rg_identities rg) \<and> versions_ok rg \<and> clusters_ok ce rg \<and>
     assignments_ok rg \<and> active_ok rg \<and> events_ok rg"

lemmas table_defs = identities_ok_def versions_ok_def clusters_ok_def assignments_ok_def active_ok_def
  events_ok_def version_ready_def tables_distinct_def

text \<open>Identities keep their kind.\<close>

definition kinds_kept ::
  "(string \<times> string, cluster_identity) dict \<Rightarrow> (string \<times> string, cluster_identity) dict \<Rightarrow> bool" where
  "kinds_kept ids ids' \<longleftrightarrow>
     (\<forall>k i. dget ids k = Some i \<longrightarrow> (\<exists>i'. dget ids' k = Some i' \<and> ci_kind i' = ci_kind i))"

lemma extends_kinds: "extends ids ids' \<Longrightarrow> kinds_kept ids ids'"
  by (auto simp: kinds_kept_def dest: extendsD)

lemma extends_some: "extends d d' \<Longrightarrow> dget d k \<noteq> None \<Longrightarrow> dget d' k \<noteq> None"
  by (auto dest: extendsD)

lemma cluster_entry_mono:
  "cluster_entry_ok ce vs ids t v c x \<Longrightarrow> extends vs vs' \<Longrightarrow> kinds_kept ids ids' \<Longrightarrow>
   cluster_entry_ok ce vs' ids' t v c x"
  using extends_some [of vs vs' "(t, v)"] unfolding cluster_entry_ok_def kinds_kept_def by fastforce

lemma assignment_entry_mono:
  "assignment_entry_ok vs cs t v s a \<Longrightarrow> extends vs vs' \<Longrightarrow> extends cs cs' \<Longrightarrow> assignment_entry_ok vs' cs' t v s a"
  using extends_some [of vs vs' "(t, v)"] unfolding assignment_entry_ok_def by (blast dest: extendsD)

lemma empty_registry_wf: "registry_wf ce empty_registry"
  by (simp add: registry_wf_def table_defs empty_registry_def)

section \<open>Previews\<close>

lemma preview_identity_keeps:
  assumes "preview_identity t i ids = Inr ids'" and "identities_ok ce ids" and "dwf ids" and "passes (cluster_identity_checks ce) i"
  shows "identities_ok ce ids' \<and> dwf ids' \<and> extends ids ids'"
proof -
  from assms(1) have ids': "ids' = dsetdefault (t, ci_cluster_id i) i ids" and "ci_tenant i = t"
    and owner: "\<And>owner. explicit_owner t i ids = Some owner \<Longrightarrow> ci_cluster_id owner = ci_cluster_id i"
    by (auto simp: preview_identity_def Let_def res_simps split: option.splits)
  have other: "ci_cluster_id i = d" if "dget ids (t, d) = Some j" "ci_explicit_key j = Some k" "ci_explicit_key i = Some k" for d j k
  proof -
    let ?p = "\<lambda>((scope, _), item). scope = t \<and> ci_explicit_key i \<noteq> None \<and> ci_explicit_key item = ci_explicit_key i"
    have "List.find ?p ids \<noteq> None"
      using that map_of_SomeD [OF that(1)] by (auto simp: find_None_iff)
    then obtain s c x where f: "List.find ?p ids = Some ((s, c), x)" by auto
    then have x: "((s, c), x) \<in> set ids" "s = t" "ci_explicit_key x = ci_explicit_key i"
      using find_Some_set [OF f] by auto
    then have "dget ids (t, c) = Some x" using assms(3) by (simp add: dget_in_set)
    moreover have "explicit_owner t i ids = Some x" using f by (simp add: explicit_owner_def)
    moreover from calculation(1) assms(2) have "ci_cluster_id x = c" by (simp add: identities_ok_def)
    ultimately have "c = ci_cluster_id i" using owner by simp
    moreover have "c = d"
      using assms(2) [unfolded identities_ok_def, THEN conjunct2, rule_format, OF \<open>dget ids (t, c) = Some x\<close> that(1)]
        that(2,3) x(3) by simp
    ultimately show ?thesis by simp
  qed
  have "identities_ok ce ids'"
    using assms(2,4) \<open>ci_tenant i = t\<close> other
    by (auto simp: identities_ok_def ids' dict_simps split: if_splits option.splits)
  then show ?thesis using assms(3) by (simp add: ids' extends_dsetdefault)
qed

lemma preview_identities_keep:
  "foldr_res (preview_identity t) is ids = Inr ids' \<Longrightarrow> identities_ok ce ids \<Longrightarrow> dwf ids \<Longrightarrow>
   list_all (passes (cluster_identity_checks ce)) is \<Longrightarrow> identities_ok ce ids' \<and> dwf ids' \<and> extends ids ids'"
proof (induction "is" arbitrary: ids)
  case (Cons i "is")
  from Cons.prems(1) obtain e where e: "preview_identity t i ids = Inr e" "foldr_res (preview_identity t) is e = Inr ids'"
    by (auto simp: res_simps)
  with Cons.prems(2-4) preview_identity_keeps [OF e(1)] have "identities_ok ce e" "dwf e" "extends ids e" by auto
  with Cons.IH [OF e(2)] Cons.prems(4) show ?case by (auto intro: extends_trans)
qed simp

lemma preview_clusters_write:
  assumes "foldr_res (preview_cluster v ids) cs d = Inr d'"
  shows "(\<forall>k. dget d' k = dget d k \<or> (\<exists>c \<in> set cs. k = (rv_tenant v, rv_version_id v, rc_cluster_id c) \<and>
      dget d' k = Some c \<and> rc_tenant c = rv_tenant v \<and> rc_version_id c = rv_version_id v \<and>
      (\<exists>i. dget ids (rv_tenant v, rc_cluster_id c) = Some i \<and> ci_kind i = rc_kind c))) \<and> (dwf d \<longrightarrow> dwf d')"
  by (rule foldr_res_writes [OF assms, where key = "\<lambda>c. (rv_tenant v, rv_version_id v, rc_cluster_id c)"
      and P = "\<lambda>c. rc_tenant c = rv_tenant v \<and> rc_version_id c = rv_version_id v \<and>
        (\<exists>i. dget ids (rv_tenant v, rc_cluster_id c) = Some i \<and> ci_kind i = rc_kind c)"])
    (auto simp: preview_cluster_def res_simps split: option.splits)

lemma validate_assignment_ok:
  "validate_preview_assignment t v a cs = Inr u \<Longrightarrow> passes cluster_assignment_checks a \<Longrightarrow>
   as_tenant a = t \<and> as_version_id a = v \<and>
   (as_status a = ''assigned'' \<longrightarrow> (\<exists>c x. as_cluster_id a = Some c \<and> dget cs (t, v, c) = Some x \<and>
      as_cluster_kind a = Some (rc_kind x)))"
  by (auto simp: validate_preview_assignment_def cluster_assignment_checks_def passes_def res_simps split: option.splits)

lemma preview_assignments_write:
  assumes "foldr_res (preview_assignment loc v cs) xs d = Inr d'"
  shows "(\<forall>k. dget d' k = dget d k \<or> (\<exists>a \<in> set xs. k = (rv_tenant v, rv_version_id v, as_trace_id a) \<and>
      dget d' k = Some a \<and> validate_preview_assignment (rv_tenant v) (rv_version_id v) a cs = Inr ())) \<and>
    (dwf d \<longrightarrow> dwf d')"
  by (rule foldr_res_writes [OF assms, where key = "\<lambda>a. (rv_tenant v, rv_version_id v, as_trace_id a)"
      and P = "\<lambda>a. validate_preview_assignment (rv_tenant v) (rv_version_id v) a cs = Inr ()"])
    (auto simp: preview_assignment_def res_simps)

text \<open>What a preview carries, as the constructors left it.\<close>

definition built_preview ::
  "cluster_env \<Rightarrow> registry_version \<Rightarrow> cluster_identity list \<Rightarrow> registry_cluster list \<Rightarrow> cluster_assignment list \<Rightarrow> bool" where
  "built_preview ce v identities clusters assignments \<longleftrightarrow>
     passes registry_version_checks v \<and> list_all (passes (cluster_identity_checks ce)) identities \<and>
     list_all (passes (registry_cluster_checks ce)) clusters \<and>
     list_all (passes cluster_assignment_checks) assignments"

lemma insert_preview_keeps:
  assumes "insert_cluster_preview loc v identities clusters assignments rg = Inr rg'"
    and wf: "registry_wf ce rg" and built: "built_preview ce v identities clusters assignments"
  shows "registry_wf ce rg' \<and> extends (rg_identities rg) (rg_identities rg') \<and>
    extends (rg_versions rg) (rg_versions rg') \<and> extends (rg_clusters rg) (rg_clusters rg') \<and>
    extends (rg_assignments rg) (rg_assignments rg') \<and> rg_events rg' = rg_events rg"
proof -
  let ?t = "rv_tenant v" and ?v = "rv_version_id v"
  from assms(1) obtain ids cs asg where new: "dget (rg_versions rg) (?t, ?v) = None"
    and ids: "foldr_res (preview_identity ?t) identities (rg_identities rg) = Inr ids"
    and cs: "foldr_res (preview_cluster v ids) clusters (rg_clusters rg) = Inr cs"
    and asg: "foldr_res (preview_assignment loc v cs) assignments (rg_assignments rg) = Inr asg"
    and rg': "rg' = rg\<lparr>rg_identities := ids, rg_clusters := cs, rg_assignments := asg,
       rg_versions := dset (?t, ?v) v (rg_versions rg),
       rg_active := dsetdefault ?t (no_active ?t) (rg_active rg)\<rparr>"
    by (auto simp: insert_cluster_preview_def res_simps)
  note wfs = wf [unfolded registry_wf_def]
  note i = preview_identities_keep [OF ids, of ce]
  have idok: "identities_ok ce ids" "extends (rg_identities rg) ids"
    using i wfs built by (auto simp: built_preview_def tables_distinct_def)
  note c = preview_clusters_write [OF cs]
  have c1: "dget cs (t, w, x) = Some y \<Longrightarrow> dget (rg_clusters rg) (t, w, x) = Some y \<or>
      t = ?t \<and> w = ?v \<and> y \<in> set clusters \<and> rc_tenant y = t \<and> rc_version_id y = w \<and> rc_cluster_id y = x \<and>
      (\<exists>i. dget ids (t, x) = Some i \<and> ci_kind i = rc_kind y)" for t w x y
    using c [THEN conjunct1, rule_format, of "(t, w, x)"] by auto
  have c2: "dget cs (t, w, x) = dget (rg_clusters rg) (t, w, x)" if "(t, w) \<noteq> (?t, ?v)" for t w x
    using c [THEN conjunct1, rule_format, of "(t, w, x)"] that by auto
  note a = preview_assignments_write [OF asg]
  have a1: "dget asg (t, w, x) = Some y \<Longrightarrow> dget (rg_assignments rg) (t, w, x) = Some y \<or>
      t = ?t \<and> w = ?v \<and> y \<in> set assignments \<and> as_trace_id y = x \<and> validate_preview_assignment ?t ?v y cs = Inr ()" for t w x y
    using a [THEN conjunct1, rule_format, of "(t, w, x)"] by auto
  have a2: "dget asg (t, w, x) = dget (rg_assignments rg) (t, w, x)" if "(t, w) \<noteq> (?t, ?v)" for t w x
    using a [THEN conjunct1, rule_format, of "(t, w, x)"] that by auto
  have old: "dget (rg_versions rg) (t, w) = Some y \<Longrightarrow> (t, w) \<noteq> (?t, ?v)" for t w y using new by auto
  have ec: "extends (rg_clusters rg) cs"
    unfolding extends_def
  proof (intro allI impI)
    fix k y
    assume k: "dget (rg_clusters rg) k = Some y"
    obtain t w x where e: "k = (t, w, x)" by (cases k)
    with k have y: "dget (rg_clusters rg) (t, w, x) = Some y" by simp
    then obtain z where z: "dget (rg_versions rg) (t, w) = Some z" using wfs unfolding clusters_ok_def cluster_entry_ok_def by blast
    from y show "dget cs k = Some y" using c2 [OF old [OF z]] e by simp
  qed
  have ea: "extends (rg_assignments rg) asg"
    unfolding extends_def
  proof (intro allI impI)
    fix k y
    assume k: "dget (rg_assignments rg) k = Some y"
    obtain t w x where e: "k = (t, w, x)" by (cases k)
    with k have y: "dget (rg_assignments rg) (t, w, x) = Some y" by simp
    then obtain z where z: "dget (rg_versions rg) (t, w) = Some z" using wfs unfolding assignments_ok_def assignment_entry_ok_def by blast
    from y show "dget asg k = Some y" using a2 [OF old [OF z]] e by simp
  qed
  have ev: "extends (rg_versions rg) (rg_versions rg')"
    using new by (simp add: rg' extends_dset)
  have distinct: "tables_distinct rg'"
    using wfs i built c a by (auto simp: tables_distinct_def rg' built_preview_def)
  have versions: "versions_ok rg'" using wfs built by (auto simp: versions_ok_def rg' dict_simps built_preview_def)
  have clusters_: "clusters_ok ce rg'"
    unfolding clusters_ok_def
  proof (intro allI impI)
    fix t w x y
    assume "dget (rg_clusters rg') (t, w, x) = Some y"
    then have y: "dget cs (t, w, x) = Some y" by (simp add: rg')
    from c1 [OF y] show "cluster_entry_ok ce (rg_versions rg') (rg_identities rg') t w x y"
    proof
      assume "dget (rg_clusters rg) (t, w, x) = Some y"
      then have "cluster_entry_ok ce (rg_versions rg) (rg_identities rg) t w x y" using wfs by (simp add: clusters_ok_def)
      from cluster_entry_mono [OF this ev] extends_kinds [OF idok(2)] show ?thesis by (simp add: rg')
    next
      assume "t = ?t \<and> w = ?v \<and> y \<in> set clusters \<and> rc_tenant y = t \<and> rc_version_id y = w \<and> rc_cluster_id y = x \<and>
        (\<exists>i. dget ids (t, x) = Some i \<and> ci_kind i = rc_kind y)"
      with built show ?thesis by (auto simp: rg' dict_simps built_preview_def list_all_iff cluster_entry_ok_def)
    qed
  qed
  have assignments_: "assignments_ok rg'"
    unfolding assignments_ok_def
  proof (intro allI impI)
    fix t w x y
    assume "dget (rg_assignments rg') (t, w, x) = Some y"
    then have y: "dget asg (t, w, x) = Some y" by (simp add: rg')
    from a1 [OF y] show "assignment_entry_ok (rg_versions rg') (rg_clusters rg') t w x y"
    proof
      assume "dget (rg_assignments rg) (t, w, x) = Some y"
      then have "assignment_entry_ok (rg_versions rg) (rg_clusters rg) t w x y" using wfs by (simp add: assignments_ok_def)
      from assignment_entry_mono [OF this ev] ec show ?thesis by (simp add: rg')
    next
      assume "t = ?t \<and> w = ?v \<and> y \<in> set assignments \<and> as_trace_id y = x \<and> validate_preview_assignment ?t ?v y cs = Inr ()"
      with built validate_assignment_ok [of ?t ?v y cs] show ?thesis
        by (auto simp: rg' dict_simps built_preview_def list_all_iff assignment_entry_ok_def)
    qed
  qed
  have ready: "version_ready rg' t w" if r: "version_ready rg t w" for t w
    unfolding version_ready_def
  proof (intro conjI allI impI)
    from r have exists: "dget (rg_versions rg) (t, w) \<noteq> None" by (simp add: version_ready_def)
    then show "dget (rg_versions rg') (t, w) \<noteq> None" using extends_some [OF ev] by blast
    fix x y
    assume "dget (rg_clusters rg') (t, w, x) = Some y"
    with exists old c2 have "dget (rg_clusters rg) (t, w, x) = Some y" by (auto simp: rg')
    with r obtain i where "dget (rg_identities rg) (t, x) = Some i" "ci_lifecycle i = ''active''" "ci_kind i = rc_kind y"
      "ci_last_version i = Some w" "ci_last_centroid i = rc_centroid y" unfolding version_ready_def by blast
    moreover from this(1) have "dget (rg_identities rg') (t, x) = Some i" using extendsD [OF idok(2)] by (simp add: rg')
    ultimately show "\<exists>i. dget (rg_identities rg') (t, x) = Some i \<and> ci_lifecycle i = ''active'' \<and> ci_kind i = rc_kind y \<and>
        ci_last_version i = Some w \<and> ci_last_centroid i = rc_centroid y" by blast
  qed
  have active: "active_ok rg'"
    using wfs ready by (auto simp: active_ok_def rg' dict_simps no_active_def split: option.splits if_splits)
  have "events_ok rg'" using wfs by (simp add: rg' events_ok_def)
  then show ?thesis
    using distinct versions clusters_ assignments_ active idok ec ea ev
    by (simp add: registry_wf_def) (simp add: rg')
qed

end
