(* ===== verification/Cluster_Properties.thy ===== *)
theory Cluster_Properties
  imports Cluster_Laws
begin

text \<open>
  Activation, and the reachable states of the registry: the active version is ready, the log of
  events explains the pointer, nothing recorded is lost.
\<close>

section \<open>Assignments and events\<close>

lemma table_updates [simp]:
  fixes rg :: registry
  shows "versions_ok (rg\<lparr>rg_assignments := xas\<rparr>) = versions_ok rg"
    and "clusters_ok ce (rg\<lparr>rg_assignments := xas\<rparr>) = clusters_ok ce rg"
    and "version_ready (rg\<lparr>rg_assignments := xas\<rparr>) t v = version_ready rg t v"
    and "active_ok (rg\<lparr>rg_assignments := xas\<rparr>) = active_ok rg"
    and "events_ok (rg\<lparr>rg_assignments := xas\<rparr>) = events_ok rg"
    and "versions_ok (rg\<lparr>rg_events := xev\<rparr>) = versions_ok rg"
    and "clusters_ok ce (rg\<lparr>rg_events := xev\<rparr>) = clusters_ok ce rg"
    and "assignments_ok (rg\<lparr>rg_events := xev\<rparr>) = assignments_ok rg"
    and "version_ready (rg\<lparr>rg_events := xev\<rparr>) t v = version_ready rg t v"
    and "active_ok (rg\<lparr>rg_events := xev\<rparr>) = active_ok rg"
    and "versions_ok (rg\<lparr>rg_active := xac\<rparr>) = versions_ok rg"
    and "clusters_ok ce (rg\<lparr>rg_active := xac\<rparr>) = clusters_ok ce rg"
    and "assignments_ok (rg\<lparr>rg_active := xac\<rparr>) = assignments_ok rg"
    and "version_ready (rg\<lparr>rg_active := xac\<rparr>) t v = version_ready rg t v"
    and "events_ok (rg\<lparr>rg_active := xac\<rparr>) = events_ok rg"
    and "versions_ok (rg\<lparr>rg_identities := xid\<rparr>) = versions_ok rg"
    and "assignments_ok (rg\<lparr>rg_identities := xid\<rparr>) = assignments_ok rg"
    and "events_ok (rg\<lparr>rg_identities := xid\<rparr>) = events_ok rg"
  by (simp_all add: versions_ok_def clusters_ok_def assignments_ok_def active_ok_def version_ready_def events_ok_def)

lemma insert_assignment_writes:
  "insert_assignment loc t rg a d = Inr d' \<Longrightarrow> d' = dset (t, as_version_id a, as_trace_id a) a d \<and> extends d d' \<and>
   as_tenant a = t \<and> dget (rg_versions rg) (t, as_version_id a) \<noteq> None \<and>
   validate_preview_assignment t (as_version_id a) a (rg_clusters rg) = Inr ()"
  by (auto simp: insert_assignment_def Let_def res_simps intro!: extends_dset)

lemma insert_assignments_keep:
  assumes "insert_trace_cluster_assignments loc t xs rg = Inr rg'" and "registry_wf ce rg"
    and "list_all (passes cluster_assignment_checks) xs"
  shows "registry_wf ce rg' \<and> (\<exists>asg. rg' = rg\<lparr>rg_assignments := asg\<rparr> \<and> extends (rg_assignments rg) asg)"
proof -
  from assms(1) obtain asg where asg: "foldr_res (insert_assignment loc t rg) xs (rg_assignments rg) = Inr asg"
    and rg': "rg' = rg\<lparr>rg_assignments := asg\<rparr>" by (auto simp: insert_trace_cluster_assignments_def res_simps)
  let ?P = "\<lambda>a. as_tenant a = t \<and> dget (rg_versions rg) (t, as_version_id a) \<noteq> None \<and>
    validate_preview_assignment t (as_version_id a) a (rg_clusters rg) = Inr ()"
  have writes: "(\<forall>k. dget asg k = dget (rg_assignments rg) k \<or> (\<exists>a \<in> set xs. k = (t, as_version_id a, as_trace_id a) \<and>
      dget asg k = Some a \<and> ?P a)) \<and> (dwf (rg_assignments rg) \<longrightarrow> dwf asg)"
    using insert_assignment_writes by (intro foldr_res_writes [OF asg]) blast
  have extends: "extends (rg_assignments rg) asg"
    using insert_assignment_writes by (intro foldr_res_extends [OF asg]) blast
  note wfs = assms(2) [unfolded registry_wf_def]
  have "assignments_ok rg'"
    unfolding assignments_ok_def
  proof (intro allI impI)
    fix s w x y
    assume "dget (rg_assignments rg') (s, w, x) = Some y"
    then have y: "dget asg (s, w, x) = Some y" by (simp add: rg')
    from writes y consider "dget (rg_assignments rg) (s, w, x) = Some y"
      | "y \<in> set xs" "s = t" "w = as_version_id y" "x = as_trace_id y" "?P y" by (metis option.inject prod.inject)
    then show "assignment_entry_ok (rg_versions rg') (rg_clusters rg') s w x y"
    proof cases
      case 1
      with wfs show ?thesis by (simp add: assignments_ok_def rg')
    next
      case 2
      with assms(3) validate_assignment_ok [of t "as_version_id y" y "rg_clusters rg"] show ?thesis
        by (auto simp: rg' list_all_iff assignment_entry_ok_def)
    qed
  qed
  with wfs writes extends show ?thesis
    unfolding registry_wf_def rg' tables_distinct_def by (auto simp del: map_of_eq_Some_iff)
qed

lemma insert_event_keeps:
  assumes "insert_cluster_registry_event e rg = Inr rg'" and "registry_wf ce rg" and "passes registry_event_checks e"
  shows "registry_wf ce rg' \<and> rg' = rg\<lparr>rg_events := dset (ev_tenant e, ev_event_id e) e (rg_events rg)\<rparr> \<and>
    extends (rg_events rg) (rg_events rg')"
proof -
  from assms(1) have rg': "rg' = rg\<lparr>rg_events := dset (ev_tenant e, ev_event_id e) e (rg_events rg)\<rparr>"
    and key: "dget (rg_events rg) (ev_tenant e, ev_event_id e) \<in> {None, Some e}"
    by (auto simp: insert_cluster_registry_event_def Let_def res_simps)
  have "events_ok rg'"
    using assms(2,3) by (simp add: registry_wf_def events_ok_def rg' dict_simps)
  with assms(2) extends_dset [OF key] show ?thesis
    unfolding registry_wf_def rg' tables_distinct_def by simp
qed

lemma get_active_keeps:
  assumes "registry_wf ce rg"
  shows "registry_wf ce (snd (get_active_cluster_registry t rg))"
proof -
  have "active_ok (rg\<lparr>rg_active := dsetdefault t (no_active t) (rg_active rg)\<rparr>)"
    using assms unfolding registry_wf_def active_ok_def
    by (simp add: dict_simps no_active_def split: option.split)
  with assms show ?thesis
    unfolding registry_wf_def tables_distinct_def get_active_cluster_registry_def by (simp add: Let_def)
qed

section \<open>Activation\<close>

definition same_identity :: "cluster_identity \<Rightarrow> cluster_identity \<Rightarrow> bool" where
  "same_identity i j \<longleftrightarrow> ci_tenant j = ci_tenant i \<and> ci_cluster_id j = ci_cluster_id i \<and> ci_kind j = ci_kind i \<and>
     ci_explicit_key j = ci_explicit_key i \<and> ci_display_name j = ci_display_name i \<and>
     (ci_lifecycle j = ci_lifecycle i \<or> ci_lifecycle j = ''active'')"

definition activated_from ::
  "string \<Rightarrow> registry_cluster list \<Rightarrow> (string \<times> string, cluster_identity) dict \<Rightarrow>
     (string \<times> string, cluster_identity) dict \<Rightarrow> bool" where
  "activated_from t cs ids ids' \<longleftrightarrow> (\<forall>k. case dget ids' k of
     None \<Rightarrow> dget ids k = None
   | Some j \<Rightarrow> (\<exists>i. dget ids k = Some i \<and> same_identity i j \<and>
       (j = i \<or> fst k = t \<and> ci_last_centroid j \<in> rc_centroid ` set cs)))"

lemma activate_identities:
  "foldr_res (activate_identity t v model actor) cts ids = Inr ids' \<Longrightarrow>
   activated_from t (map fst cts) ids ids' \<and> (dwf ids \<longrightarrow> dwf ids')"
proof (induction cts arbitrary: ids)
  case Nil
  then show ?case by (auto simp: activated_from_def same_identity_def split: option.split)
next
  case (Cons ct cts)
  obtain c now where ct: "ct = (c, now)" by (cases ct)
  from Cons.prems obtain e where e: "activate_identity t v model actor ct ids = Inr e"
    "foldr_res (activate_identity t v model actor) cts e = Inr ids'" by (auto simp: res_simps)
  then obtain i where i: "dget ids (t, rc_cluster_id c) = Some i" and e': "e = dset (t, rc_cluster_id c)
      (i\<lparr>ci_lifecycle := ''active'', ci_last_version := Some v, ci_last_model := model,
         ci_last_centroid := rc_centroid c, ci_updated_at := now, ci_updated_by := actor\<rparr>) ids"
    by (auto simp: activate_identity_def ct split: option.splits)
  note rest = Cons.IH [OF e(2)]
  have "activated_from t (map fst (ct # cts)) ids ids'"
    unfolding activated_from_def
  proof
    fix k
    from rest have "case dget ids' k of None \<Rightarrow> dget e k = None
      | Some j \<Rightarrow> (\<exists>i. dget e k = Some i \<and> same_identity i j \<and>
          (j = i \<or> fst k = t \<and> ci_last_centroid j \<in> rc_centroid ` set (map fst cts)))"
      unfolding activated_from_def by blast
    with i show "case dget ids' k of None \<Rightarrow> dget ids k = None
      | Some j \<Rightarrow> (\<exists>i. dget ids k = Some i \<and> same_identity i j \<and>
          (j = i \<or> fst k = t \<and> ci_last_centroid j \<in> rc_centroid ` set (map fst (ct # cts))))"
      by (cases "k = (t, rc_cluster_id c)") (auto simp: e' ct dict_simps same_identity_def split: option.splits)
  qed
  with rest show ?case by (auto simp: e')
qed

lemma activated_kinds: "activated_from t cs ids ids' \<Longrightarrow> kinds_kept ids ids'"
  unfolding kinds_kept_def
proof (intro allI impI)
  fix k i
  assume a: "activated_from t cs ids ids'" and "dget ids k = Some i"
  then show "\<exists>i'. dget ids' k = Some i' \<and> ci_kind i' = ci_kind i"
    using a [unfolded activated_from_def, rule_format, of k] by (auto simp: same_identity_def split: option.splits)
qed

lemma cluster_centroid_ok:
  "passes (registry_cluster_checks ce) c \<Longrightarrow> rc_centroid c = None \<or> (\<exists>v. rc_centroid c = Some v \<and> unit_vector ce v)"
  by (auto simp: passes_def registry_cluster_checks_def res_simps unit_vector_def split: if_splits option.splits)

lemma activated_identities_ok:
  assumes "activated_from t cs ids ids'" and "identities_ok ce ids" and "list_all (passes (registry_cluster_checks ce)) cs"
  shows "identities_ok ce ids'"
proof -
  have before: "\<exists>i. dget ids k = Some i \<and> same_identity i j \<and> (j = i \<or> fst k = t \<and> ci_last_centroid j \<in> rc_centroid ` set cs)"
    if "dget ids' k = Some j" for k j
    using assms(1) [unfolded activated_from_def, rule_format, of k] that by simp
  show ?thesis
    unfolding identities_ok_def
  proof (intro conjI allI impI)
    fix s c j
    assume j: "dget ids' (s, c) = Some j"
    then obtain i where i: "dget ids (s, c) = Some i" "same_identity i j"
      "j = i \<or> ci_last_centroid j \<in> rc_centroid ` set cs" using before by blast
    with assms(2) have ok: "ci_tenant i = s" "ci_cluster_id i = c" "passes (cluster_identity_checks ce) i"
      by (auto simp: identities_ok_def)
    with i(2) show "ci_tenant j = s" "ci_cluster_id j = c" by (simp_all add: same_identity_def)
    from i(3) show "passes (cluster_identity_checks ce) j"
    proof
      assume "j = i"
      with ok(3) show ?thesis by simp
    next
      assume "ci_last_centroid j \<in> rc_centroid ` set cs"
      then obtain x where "x \<in> set cs" "ci_last_centroid j = rc_centroid x" by auto
      with assms(3) cluster_centroid_ok [of ce x] have "ci_last_centroid j = None \<or> (\<exists>v. ci_last_centroid j = Some v \<and> unit_vector ce v)"
        by (auto simp: list_all_iff)
      with ok(3) i(2) show ?thesis
        by (auto simp: same_identity_def passes_def cluster_identity_checks_def res_simps)
    qed
  next
    fix s c d i j
    assume a: "dget ids' (s, c) = Some i" "dget ids' (s, d) = Some j" "ci_explicit_key i \<noteq> None"
      "ci_explicit_key i = ci_explicit_key j"
    then obtain i' j' where "dget ids (s, c) = Some i'" "same_identity i' i" "dget ids (s, d) = Some j'" "same_identity j' j"
      using before by blast
    with a assms(2) show "c = d" unfolding identities_ok_def same_identity_def by metis
  qed
qed

lemma prepare_activation_ok:
  assumes "prepare_activation ce t v actor action expected digest clock pointer rg = Inr ids"
  obtains version model where "ar_generation pointer = expected" "dget (rg_versions rg) (t, v) = Some version"
    "action = ''activated'' \<longrightarrow> rv_parent version = ar_version_id pointer" "version_validated rg t v"
    "cluster_candidate_digest (ce_python ce) (fit_candidates rg t v) = digest"
    "foldr_res (activate_identity t v model actor)
      (zip (list_cluster_registry_clusters rg t v) (map clock [0..<length (list_cluster_registry_clusters rg t v)]))
      (rg_identities rg) = Inr ids"
    "list_all (identity_activated t v model ids) (list_cluster_registry_clusters rg t v)"
  using assms by (auto simp: prepare_activation_def Let_def res_simps split: option.splits)

lemma listed_clusters:
  "x \<in> set (list_cluster_registry_clusters rg t v) \<longleftrightarrow> (\<exists>c. ((t, v, c), x) \<in> set (rg_clusters rg))"
  by (force simp: list_cluster_registry_clusters_def)

lemma listed_cluster_entries:
  assumes "registry_wf ce rg" and "x \<in> set (list_cluster_registry_clusters rg t v)"
  shows "dget (rg_clusters rg) (t, v, rc_cluster_id x) = Some x \<and> cluster_entry_ok ce (rg_versions rg) (rg_identities rg) t v (rc_cluster_id x) x"
proof -
  from assms obtain c where "dget (rg_clusters rg) (t, v, c) = Some x"
    unfolding listed_clusters registry_wf_def tables_distinct_def by (auto simp: dget_in_set)
  with assms(1) show ?thesis unfolding registry_wf_def clusters_ok_def cluster_entry_ok_def by metis
qed

text \<open>The state an activation leaves.\<close>

lemma activate_ok:
  assumes "activate_cluster_registry ce t v expected actor action digest clock event_id rg = (Inr p, rg')"
  obtains pointer rg1 ids now where "action \<in> {''activated'', ''rolled_back''}"
    "get_active_cluster_registry t rg = (pointer, rg1)"
    "prepare_activation ce t v actor action expected digest clock pointer rg1 = Inr ids"
    "p = \<lparr>ar_tenant = t, ar_version_id = Some v, ar_generation = expected + 1, ar_activated_at = Some now,
      ar_activated_by = Some actor\<rparr>" "0 \<le> expected + 1"
    "rg' = rg1\<lparr>rg_events := dset (t, event_id)
        \<lparr>ev_tenant = t, ev_event_id = event_id, ev_action = action, ev_from = ar_version_id pointer, ev_to = Some v,
         ev_generation = Some (expected + 1), ev_created_at = now, ev_actor = actor, ev_details = ''{}''\<rparr> (rg_events rg1),
       rg_active := dset t p (rg_active rg1), rg_identities := ids\<rparr>"
  using assms
  by (auto simp: activate_cluster_registry_def Let_def post_init_eq_Inr passes_def active_registry_checks_def res_simps
    split: if_splits prod.splits sum.splits)

lemma activate_error:
  "activate_cluster_registry ce t v expected actor action digest clock event_id rg = (Inl e, rg') \<Longrightarrow>
   rg' = rg \<or> rg' = snd (get_active_cluster_registry t rg)"
  by (auto simp: activate_cluster_registry_def Let_def split: if_splits prod.splits sum.splits)

lemma version_ready_frame:
  assumes "version_ready rg s w" and "activated_from t cs (rg_identities rg) ids" and "s \<noteq> t"
  shows "version_ready (rg\<lparr>rg_identities := ids\<rparr>) s w"
proof -
  have "dget ids (s, c) = dget (rg_identities rg) (s, c)" for c
    using assms(2) [unfolded activated_from_def, rule_format, of "(s, c)"] assms(3) by (auto split: option.splits)
  with assms(1) show ?thesis by (simp add: version_ready_def)
qed

lemma get_active_entry:
  "get_active_cluster_registry t rg = (pointer, rg1) \<Longrightarrow>
   pointer = (case dget (rg_active rg) t of None \<Rightarrow> no_active t | Some p \<Rightarrow> p) \<and>
   rg1 = rg\<lparr>rg_active := dsetdefault t (no_active t) (rg_active rg)\<rparr>"
  by (cases "dget (rg_active rg) t") (auto simp: get_active_cluster_registry_def Let_def dict_simps)

lemma active_pointer_ok:
  assumes "registry_wf ce rg" and "get_active_cluster_registry t rg = (pointer, rg1)"
  shows "0 \<le> ar_generation pointer \<and> (ar_version_id pointer = None \<longleftrightarrow> ar_generation pointer = 0)"
  using get_active_entry [OF assms(2)] assms(1) unfolding registry_wf_def active_ok_def
  by (cases "dget (rg_active rg) t") (auto simp: no_active_def)

lemma activate_keeps:
  assumes "activate_cluster_registry ce t v expected actor action digest clock event_id rg = (Inr p, rg')"
    and "registry_wf ce rg"
  shows "registry_wf ce rg' \<and> version_ready rg' t v"
proof -
  from assms(1) obtain pointer rg1 ids now where a: "action \<in> {''activated'', ''rolled_back''}"
    "get_active_cluster_registry t rg = (pointer, rg1)"
    "prepare_activation ce t v actor action expected digest clock pointer rg1 = Inr ids"
    "p = \<lparr>ar_tenant = t, ar_version_id = Some v, ar_generation = expected + 1, ar_activated_at = Some now,
      ar_activated_by = Some actor\<rparr>" "0 \<le> expected + 1"
    "rg' = rg1\<lparr>rg_events := dset (t, event_id)
        \<lparr>ev_tenant = t, ev_event_id = event_id, ev_action = action, ev_from = ar_version_id pointer, ev_to = Some v,
         ev_generation = Some (expected + 1), ev_created_at = now, ev_actor = actor, ev_details = ''{}''\<rparr> (rg_events rg1),
       rg_active := dset t p (rg_active rg1), rg_identities := ids\<rparr>"
    by (rule activate_ok)
  have wf1: "registry_wf ce rg1" using get_active_keeps [OF assms(2), of t] a(2) by simp
  note wfs = wf1 [unfolded registry_wf_def]
  have gen: "0 \<le> expected" using active_pointer_ok [OF assms(2) a(2)] a(3) by (auto elim: prepare_activation_ok)
  from a(3) obtain version model where prepared: "dget (rg_versions rg1) (t, v) = Some version"
    "foldr_res (activate_identity t v model actor)
      (zip (list_cluster_registry_clusters rg1 t v) (map clock [0..<length (list_cluster_registry_clusters rg1 t v)]))
      (rg_identities rg1) = Inr ids"
    "list_all (identity_activated t v model ids) (list_cluster_registry_clusters rg1 t v)"
    by (rule prepare_activation_ok)
  let ?cs = "list_cluster_registry_clusters rg1 t v" and ?rg = "rg1\<lparr>rg_identities := ids\<rparr>"
  have from_: "activated_from t ?cs (rg_identities rg1) ids" "dwf (rg_identities rg1) \<longrightarrow> dwf ids"
    using activate_identities [OF prepared(2)] by auto
  have built: "list_all (passes (registry_cluster_checks ce)) ?cs"
    using listed_cluster_entries [OF wf1] by (auto simp: list_all_iff cluster_entry_ok_def)
  have ids: "identities_ok ce ids" using activated_identities_ok [OF from_(1) _ built] wfs by blast
  have clusters_: "clusters_ok ce (rg1\<lparr>rg_identities := ids\<rparr>)"
    using wfs cluster_entry_mono [OF _ extends_refl activated_kinds [OF from_(1)]] by (simp add: clusters_ok_def)
  have ready: "version_ready (rg1\<lparr>rg_identities := ids\<rparr>) t v"
    unfolding version_ready_def
  proof (intro conjI allI impI)
    show "dget (rg_versions (rg1\<lparr>rg_identities := ids\<rparr>)) (t, v) \<noteq> None" using prepared(1) by simp
  next
    fix c x
    assume "dget (rg_clusters (rg1\<lparr>rg_identities := ids\<rparr>)) (t, v, c) = Some x"
    then have x: "dget (rg_clusters rg1) (t, v, c) = Some x" by simp
    then have "x \<in> set ?cs" "rc_cluster_id x = c"
      using wfs map_of_SomeD [OF x] unfolding clusters_ok_def cluster_entry_ok_def listed_clusters by blast+
    with prepared(3) show "\<exists>i. dget (rg_identities (rg1\<lparr>rg_identities := ids\<rparr>)) (t, c) = Some i \<and>
        ci_lifecycle i = ''active'' \<and> ci_kind i = rc_kind x \<and> ci_last_version i = Some v \<and> ci_last_centroid i = rc_centroid x"
      by (auto simp: list_all_iff identity_activated_def split: option.splits)
  qed
  have active: "active_ok (?rg\<lparr>rg_active := dset t p (rg_active rg1)\<rparr>)"
    unfolding active_ok_def
  proof (intro allI impI)
    fix s q
    assume "dget (rg_active (?rg\<lparr>rg_active := dset t p (rg_active rg1)\<rparr>)) s = Some q"
    then consider "s = t" "q = p" | "s \<noteq> t" "dget (rg_active rg1) s = Some q" by (auto simp: dict_simps split: if_splits)
    then show "ar_tenant q = s \<and> 0 \<le> ar_generation q \<and> (ar_version_id q = None) = (ar_generation q = 0) \<and>
        (\<forall>w. ar_version_id q = Some w \<longrightarrow>
          version_ready (?rg\<lparr>rg_active := dset t p (rg_active rg1)\<rparr>) s w)"
    proof cases
      case 1
      with ready gen show ?thesis by (simp add: a(4) version_ready_def)
    next
      case 2
      with wfs version_ready_frame [OF _ from_(1), of s] show ?thesis
        by (simp add: active_ok_def)
    qed
  qed
  have events: "events_ok rg'"
    using wfs a(1) by (auto simp: events_ok_def a(6) dict_simps passes_def registry_event_checks_def)
  have distinct: "tables_distinct rg'" using wfs from_(2) unfolding tables_distinct_def a(6) by simp
  have "versions_ok rg'" "clusters_ok ce rg'" "assignments_ok rg'"
    using wfs clusters_ by (simp_all add: a(6) versions_ok_def clusters_ok_def assignments_ok_def)
  moreover have "active_ok rg'" "version_ready rg' t v"
    using active ready by (simp_all add: a(6) active_ok_def version_ready_def)
  ultimately show ?thesis using ids events distinct by (simp add: registry_wf_def a(6))
qed

section \<open>Renaming\<close>

definition cluster_env_ok :: "cluster_env \<Rightarrow> bool" where
  "cluster_env_ok ce \<longleftrightarrow> (\<forall>s. ce_nfc ce (ce_nfc ce s) = ce_nfc ce s)"

lemma rename_ok:
  assumes "rename_cluster ce t c name actor now event_id rg = Inr rg'" and "cluster_env_ok ce"
  obtains i details where "dget (rg_identities rg) (t, c) = Some i" "display_name_ok ce (ce_nfc ce name)"
    "rg' = rg\<lparr>rg_events := dset (t, event_id)
        \<lparr>ev_tenant = t, ev_event_id = event_id, ev_action = ''renamed'', ev_from = None, ev_to = None,
         ev_generation = None, ev_created_at = now, ev_actor = actor, ev_details = details\<rparr> (rg_events rg),
       rg_identities := dset (t, c) (i\<lparr>ci_display_name := ce_nfc ce name, ci_updated_at := now,
        ci_updated_by := actor\<rparr>) (rg_identities rg)\<rparr>"
  using assms
  by (auto simp: rename_cluster_def rename_cluster_identity_def Let_def res_simps display_name_ok_def
    cluster_env_ok_def split: option.splits)

lemma rename_keeps:
  assumes "rename_cluster ce t c name actor now event_id rg = Inr rg'" and "cluster_env_ok ce" and "registry_wf ce rg"
  shows "registry_wf ce rg'"
proof -
  from assms(1,2) obtain i details where i: "dget (rg_identities rg) (t, c) = Some i"
    and name: "display_name_ok ce (ce_nfc ce name)"
    and rg': "rg' = rg\<lparr>rg_events := dset (t, event_id)
        \<lparr>ev_tenant = t, ev_event_id = event_id, ev_action = ''renamed'', ev_from = None, ev_to = None,
         ev_generation = None, ev_created_at = now, ev_actor = actor, ev_details = details\<rparr> (rg_events rg),
       rg_identities := dset (t, c) (i\<lparr>ci_display_name := ce_nfc ce name, ci_updated_at := now,
        ci_updated_by := actor\<rparr>) (rg_identities rg)\<rparr>"
    by (rule rename_ok)
  let ?i = "i\<lparr>ci_display_name := ce_nfc ce name, ci_updated_at := now, ci_updated_by := actor\<rparr>"
  let ?ids = "dset (t, c) ?i (rg_identities rg)"
  note wfs = assms(3) [unfolded registry_wf_def]
  have "passes (cluster_identity_checks ce) i" using wfs i by (simp add: identities_ok_def)
  with name have "passes (cluster_identity_checks ce) ?i"
    by (auto simp: passes_def cluster_identity_checks_def res_simps)
  with wfs i have ids: "identities_ok ce ?ids"
    unfolding identities_ok_def by (auto simp: dict_simps split: if_splits)
  have kinds: "kinds_kept (rg_identities rg) ?ids"
    using i by (auto simp: kinds_kept_def dict_simps)
  have clusters_: "clusters_ok ce (rg\<lparr>rg_identities := ?ids\<rparr>)"
    using wfs cluster_entry_mono [OF _ extends_refl kinds] by (simp add: clusters_ok_def)
  have ready: "version_ready (rg\<lparr>rg_identities := ?ids\<rparr>) s w" if "version_ready rg s w" for s w
    using that i unfolding version_ready_def by (fastforce simp: dict_simps)
  have active: "active_ok (rg\<lparr>rg_identities := ?ids\<rparr>)"
    using wfs ready by (simp add: active_ok_def)
  have events: "events_ok rg'"
    using wfs by (auto simp: events_ok_def rg' dict_simps passes_def registry_event_checks_def)
  have distinct: "tables_distinct rg'" using wfs unfolding tables_distinct_def rg' by simp
  have "versions_ok rg'" "clusters_ok ce rg'" "assignments_ok rg'" "active_ok rg'"
    using wfs clusters_ active
    by (simp_all add: rg' versions_ok_def clusters_ok_def assignments_ok_def active_ok_def version_ready_def)
  with ids events distinct show ?thesis by (simp add: registry_wf_def rg')
qed

section \<open>Steps\<close>

inductive registry_step :: "cluster_env \<Rightarrow> registry \<Rightarrow> registry \<Rightarrow> bool" for ce where
  preview: "insert_cluster_preview loc v identities clusters assignments rg = Inr rg' \<Longrightarrow>
    built_preview ce v identities clusters assignments \<Longrightarrow> registry_step ce rg rg'"
| assign: "insert_trace_cluster_assignments loc t xs rg = Inr rg' \<Longrightarrow>
    list_all (passes cluster_assignment_checks) xs \<Longrightarrow> registry_step ce rg rg'"
| validation: "insert_cluster_registry_event e rg = Inr rg' \<Longrightarrow> passes registry_event_checks e \<Longrightarrow>
    ev_action e \<in> {''validated'', ''validation_failed''} \<Longrightarrow> registry_step ce rg rg'"
| pointer: "registry_step ce rg (snd (get_active_cluster_registry t rg))"
| activate: "activate_cluster_registry ce t v expected actor action digest clock event_id rg = (Inr p, rg') \<Longrightarrow>
    dget (rg_events rg) (t, event_id) = None \<Longrightarrow> registry_step ce rg rg'"
| rename: "rename_cluster ce t c name actor now event_id rg = Inr rg' \<Longrightarrow>
    dget (rg_events rg) (t, event_id) = None \<Longrightarrow> registry_step ce rg rg'"

lemma registry_step_wf:
  "registry_step ce rg rg' \<Longrightarrow> cluster_env_ok ce \<Longrightarrow> registry_wf ce rg \<Longrightarrow> registry_wf ce rg'"
  by (induction rule: registry_step.induct)
    (blast dest: insert_preview_keeps insert_assignments_keep insert_event_keeps activate_keeps rename_keeps
      intro: get_active_keeps)+

abbreviation registry_steps :: "cluster_env \<Rightarrow> registry \<Rightarrow> registry \<Rightarrow> bool" where
  "registry_steps ce \<equiv> (registry_step ce)\<^sup>*\<^sup>*"

lemma registry_steps_wf:
  "registry_steps ce rg rg' \<Longrightarrow> cluster_env_ok ce \<Longrightarrow> registry_wf ce rg \<Longrightarrow> registry_wf ce rg'"
  by (induction rule: rtranclp_induct) (auto intro: registry_step_wf)

section \<open>Nothing recorded is lost\<close>

definition recorded_in :: "registry \<Rightarrow> registry \<Rightarrow> bool" where
  "recorded_in rg rg' \<longleftrightarrow> extends (rg_versions rg) (rg_versions rg') \<and> extends (rg_clusters rg) (rg_clusters rg') \<and>
     extends (rg_assignments rg) (rg_assignments rg') \<and> extends (rg_events rg) (rg_events rg') \<and>
     kinds_kept (rg_identities rg) (rg_identities rg')"

lemma recorded_refl: "recorded_in rg rg"
  by (simp add: recorded_in_def extends_kinds)

lemma kinds_trans: "kinds_kept a b \<Longrightarrow> kinds_kept b c \<Longrightarrow> kinds_kept a c"
  unfolding kinds_kept_def by metis

lemma recorded_trans: "recorded_in a b \<Longrightarrow> recorded_in b c \<Longrightarrow> recorded_in a c"
  unfolding recorded_in_def by (blast intro: extends_trans kinds_trans)

lemma registry_step_records:
  assumes "registry_step ce rg rg'" and "cluster_env_ok ce" and wf: "registry_wf ce rg"
  shows "recorded_in rg rg'"
  using assms(1)
proof cases
  case (preview loc v identities clusters assignments)
  with insert_preview_keeps [OF preview(1) wf] show ?thesis by (simp add: recorded_in_def extends_kinds)
next
  case (assign loc t xs)
  with insert_assignments_keep [OF assign(1) wf] show ?thesis by (auto simp: recorded_in_def extends_kinds)
next
  case (validation e)
  with insert_event_keeps [OF validation(1) wf] show ?thesis by (auto simp: recorded_in_def extends_kinds)
next
  case (pointer t)
  then show ?thesis by (simp add: recorded_in_def extends_kinds get_active_cluster_registry_def Let_def)
next
  case (activate t v expected actor action digest clock event_id p)
  from activate(1) obtain pointer rg1 ids now where a: "get_active_cluster_registry t rg = (pointer, rg1)"
    "prepare_activation ce t v actor action expected digest clock pointer rg1 = Inr ids"
    "\<exists>e. rg' = rg1\<lparr>rg_events := dset (t, event_id) e (rg_events rg1), rg_active := dset t p (rg_active rg1),
      rg_identities := ids\<rparr>"
    by (rule activate_ok) blast
  note rg1 = get_active_entry [OF a(1)]
  from a(2) obtain cts model where "foldr_res (activate_identity t v model actor) cts (rg_identities rg1) = Inr ids"
    by (rule prepare_activation_ok) blast
  from activated_kinds [OF conjunct1 [OF activate_identities [OF this]]] a(3) rg1 activate(2) show ?thesis
    by (auto simp: recorded_in_def intro!: extends_dset)
next
  case (rename t c name actor now event_id)
  from rename(1) assms(2) obtain i where "dget (rg_identities rg) (t, c) = Some i"
    "\<exists>e. rg' = rg\<lparr>rg_events := dset (t, event_id) e (rg_events rg), rg_identities := dset (t, c)
        (i\<lparr>ci_display_name := ce_nfc ce name, ci_updated_at := now, ci_updated_by := actor\<rparr>) (rg_identities rg)\<rparr>"
    by (rule rename_ok) blast
  with rename(2) show ?thesis
    by (auto simp: recorded_in_def kinds_kept_def dict_simps intro!: extends_dset)
qed

lemma registry_steps_record:
  "registry_steps ce rg rg' \<Longrightarrow> cluster_env_ok ce \<Longrightarrow> registry_wf ce rg \<Longrightarrow> recorded_in rg rg'"
  by (induction rule: rtranclp_induct)
    (auto intro: recorded_refl recorded_trans registry_step_records registry_steps_wf)

section \<open>The log explains the pointer\<close>

definition pointer_of :: "registry \<Rightarrow> string \<Rightarrow> active_registry" where
  "pointer_of rg t = (case dget (rg_active rg) t of None \<Rightarrow> no_active t | Some p \<Rightarrow> p)"

definition is_pointer_event :: "registry_event \<Rightarrow> bool" where
  "is_pointer_event e \<longleftrightarrow> ev_action e \<in> {''activated'', ''rolled_back''}"

text \<open>The activations of a tenant in the order they were recorded.\<close>

definition pointer_events :: "registry \<Rightarrow> string \<Rightarrow> registry_event list" where
  "pointer_events rg t = map snd (filter (\<lambda>((s, _), e). s = t \<and> is_pointer_event e) (rg_events rg))"

text \<open>Each activation leaves the version the one before made active and draws the next generation.\<close>

fun replay_pointer :: "string option \<times> int \<Rightarrow> registry_event list \<Rightarrow> (string option \<times> int) option" where
  "replay_pointer p [] = Some p"
| "replay_pointer (v, n) (e # es) =
     (if ev_from e = v \<and> ev_generation e = Some (n + 1) then replay_pointer (ev_to e, n + 1) es else None)"

definition log_explains :: "registry \<Rightarrow> bool" where
  "log_explains rg \<longleftrightarrow> (\<forall>t. replay_pointer (None, 0) (pointer_events rg t)
     = Some (ar_version_id (pointer_of rg t), ar_generation (pointer_of rg t)))"

lemma dset_fresh: "dget d k = None \<Longrightarrow> dset k v d = d @ [(k, v)]"
  by (induction d) (auto split: if_splits)

lemma replay_snoc:
  "replay_pointer p es = Some (v, n) \<Longrightarrow> ev_from e = v \<Longrightarrow> ev_generation e = Some (n + 1) \<Longrightarrow>
   replay_pointer p (es @ [e]) = Some (ev_to e, n + 1)"
  by (induction p es rule: replay_pointer.induct) (auto split: if_splits)

lemma pointer_of_setdefault:
  "pointer_of (rg\<lparr>rg_active := dsetdefault s (no_active s) (rg_active rg)\<rparr>) t = pointer_of rg t"
  by (auto simp: pointer_of_def dict_simps split: option.split)

lemma pointer_events_update [simp]:
  "pointer_events (rg\<lparr>rg_active := a\<rparr>) t = pointer_events rg t"
  by (simp add: pointer_events_def)

lemma activate_pointer:
  assumes "activate_cluster_registry ce t v expected actor action digest clock event_id rg = (Inr p, rg')"
    and "dget (rg_events rg) (t, event_id) = None"
  shows "ar_generation (pointer_of rg t) = expected \<and> ar_generation p = expected + 1 \<and> ar_version_id p = Some v \<and>
    (\<forall>s. pointer_of rg' s = (if s = t then p else pointer_of rg s)) \<and>
    (\<exists>e. ev_from e = ar_version_id (pointer_of rg t) \<and> ev_to e = Some v \<and> ev_generation e = Some (expected + 1) \<and>
      (\<forall>s. pointer_events rg' s = pointer_events rg s @ (if s = t then [e] else [])))"
proof -
  from assms(1) obtain pointer rg1 ids now where a: "action \<in> {''activated'', ''rolled_back''}"
    "get_active_cluster_registry t rg = (pointer, rg1)"
    "prepare_activation ce t v actor action expected digest clock pointer rg1 = Inr ids"
    "p = \<lparr>ar_tenant = t, ar_version_id = Some v, ar_generation = expected + 1, ar_activated_at = Some now,
      ar_activated_by = Some actor\<rparr>"
    "rg' = rg1\<lparr>rg_events := dset (t, event_id)
        \<lparr>ev_tenant = t, ev_event_id = event_id, ev_action = action, ev_from = ar_version_id pointer, ev_to = Some v,
         ev_generation = Some (expected + 1), ev_created_at = now, ev_actor = actor, ev_details = ''{}''\<rparr> (rg_events rg1),
       rg_active := dset t p (rg_active rg1), rg_identities := ids\<rparr>"
    by (rule activate_ok)
  let ?e = "\<lparr>ev_tenant = t, ev_event_id = event_id, ev_action = action, ev_from = ar_version_id pointer, ev_to = Some v,
         ev_generation = Some (expected + 1), ev_created_at = now, ev_actor = actor, ev_details = ''{}''\<rparr>"
  have pointer: "pointer = pointer_of rg t"
    and rg1: "rg1 = rg\<lparr>rg_active := dsetdefault t (no_active t) (rg_active rg)\<rparr>"
    using get_active_entry [OF a(2)] by (simp_all add: pointer_of_def)
  have gen: "ar_generation pointer = expected" using a(3) by (rule prepare_activation_ok)
  have events: "rg_events rg' = rg_events rg @ [((t, event_id), ?e)]"
    using assms(2) by (simp add: a(5) rg1 dset_fresh)
  have "pointer_of rg' s = (if s = t then p else pointer_of rg s)" for s
    by (auto simp: pointer_of_def a(5) rg1 dict_simps split: option.split)
  moreover have "pointer_events rg' s = pointer_events rg s @ (if s = t then [?e] else [])" for s
    using a(1) by (auto simp: pointer_events_def events is_pointer_event_def)
  ultimately show ?thesis
    using gen pointer a(4) by (intro conjI exI [of _ ?e]) simp_all
qed

lemma same_log:
  "rg_events rg' = rg_events rg \<or> (\<exists>k e. rg_events rg' = rg_events rg @ [(k, e)] \<and> \<not> is_pointer_event e) \<Longrightarrow>
   pointer_events rg' t = pointer_events rg t"
  by (auto simp: pointer_events_def split_def)

lemma quiet_step:
  assumes "registry_step ce rg rg'" and "cluster_env_ok ce" and "registry_wf ce rg"
  shows "(\<forall>t. pointer_of rg' t = pointer_of rg t \<and> pointer_events rg' t = pointer_events rg t) \<or>
    (\<exists>t v expected actor action digest clock event_id p. dget (rg_events rg) (t, event_id) = None \<and>
      activate_cluster_registry ce t v expected actor action digest clock event_id rg = (Inr p, rg'))"
  using assms(1)
proof cases
  case (preview loc v identities clusters assignments)
  from preview(1) have "rg_events rg' = rg_events rg \<and>
      rg_active rg' = dsetdefault (rv_tenant v) (no_active (rv_tenant v)) (rg_active rg)"
    by (auto simp: insert_cluster_preview_def res_simps)
  then show ?thesis by (auto simp: pointer_events_def pointer_of_def dict_simps split: option.split)
next
  case (assign loc t xs)
  then show ?thesis by (auto simp: insert_trace_cluster_assignments_def res_simps pointer_events_def pointer_of_def)
next
  case (validation e)
  let ?k = "(ev_tenant e, ev_event_id e)"
  from validation(1) have rg': "rg' = rg\<lparr>rg_events := dset ?k e (rg_events rg)\<rparr>"
    and k: "dget (rg_events rg) ?k = None \<or> dget (rg_events rg) ?k = Some e"
    by (auto simp: insert_cluster_registry_event_def Let_def res_simps)
  have "rg_events rg' = rg_events rg \<or> (\<exists>k e. rg_events rg' = rg_events rg @ [(k, e)] \<and> \<not> is_pointer_event e)"
    using k validation(3) by (auto simp: rg' dset_same dset_fresh is_pointer_event_def)
  then have "pointer_events rg' t = pointer_events rg t" for t by (rule same_log)
  then show ?thesis by (simp add: rg' pointer_of_def)
next
  case (pointer t)
  then show ?thesis
    by (simp add: get_active_cluster_registry_def Let_def pointer_of_setdefault)
next
  case (activate t v expected actor action digest clock event_id p)
  then show ?thesis by blast
next
  case (rename t c name actor now event_id)
  from rename(1) assms(2) obtain i details where rg': "rg' = rg\<lparr>rg_events := dset (t, event_id)
        \<lparr>ev_tenant = t, ev_event_id = event_id, ev_action = ''renamed'', ev_from = None, ev_to = None,
         ev_generation = None, ev_created_at = now, ev_actor = actor, ev_details = details\<rparr> (rg_events rg),
       rg_identities := dset (t, c) (i\<lparr>ci_display_name := ce_nfc ce name, ci_updated_at := now,
        ci_updated_by := actor\<rparr>) (rg_identities rg)\<rparr>"
    by (rule rename_ok)
  have "rg_events rg' = rg_events rg \<or> (\<exists>k e. rg_events rg' = rg_events rg @ [(k, e)] \<and> \<not> is_pointer_event e)"
    using rename(2) by (auto simp: rg' dset_fresh is_pointer_event_def)
  then have "pointer_events rg' t = pointer_events rg t" for t by (rule same_log)
  then show ?thesis by (simp add: rg' pointer_of_def)
qed

lemma registry_step_log:
  assumes "registry_step ce rg rg'" and "cluster_env_ok ce" and "registry_wf ce rg" and "log_explains rg"
  shows "log_explains rg' \<and> (\<forall>t. ar_generation (pointer_of rg t) \<le> ar_generation (pointer_of rg' t))"
  using quiet_step [OF assms(1-3)]
proof
  assume "\<forall>t. pointer_of rg' t = pointer_of rg t \<and> pointer_events rg' t = pointer_events rg t"
  with assms(4) show ?thesis by (simp add: log_explains_def)
next
  assume "\<exists>t v expected actor action digest clock event_id p. dget (rg_events rg) (t, event_id) = None \<and>
      activate_cluster_registry ce t v expected actor action digest clock event_id rg = (Inr p, rg')"
  then obtain t v expected actor action digest clock event_id p where
    act: "activate_cluster_registry ce t v expected actor action digest clock event_id rg = (Inr p, rg')"
    and fresh: "dget (rg_events rg) (t, event_id) = None" by blast
  note facts = activate_pointer [OF act fresh]
  then obtain e where e: "ev_from e = ar_version_id (pointer_of rg t)" "ev_to e = Some v"
    "ev_generation e = Some (expected + 1)"
    "\<And>s. pointer_events rg' s = pointer_events rg s @ (if s = t then [e] else [])" by blast
  have a: "ar_generation (pointer_of rg t) = expected" "ar_generation p = expected + 1" "ar_version_id p = Some v"
    "\<And>s. pointer_of rg' s = (if s = t then p else pointer_of rg s)" using facts by blast+
  have "replay_pointer (None, 0) (pointer_events rg' t) = Some (Some v, expected + 1)"
    using replay_snoc [OF _ e(1,3), of "(None, 0)" "pointer_events rg t"] assms(4) a(1) e(2)
    by (simp add: e(4) log_explains_def)
  with assms(4) a e(4) show ?thesis by (simp add: log_explains_def)
qed

lemma registry_steps_log:
  "registry_steps ce rg rg' \<Longrightarrow> cluster_env_ok ce \<Longrightarrow> registry_wf ce rg \<Longrightarrow> log_explains rg \<Longrightarrow>
   log_explains rg' \<and> (\<forall>t. ar_generation (pointer_of rg t) \<le> ar_generation (pointer_of rg' t))"
proof (induction rule: rtranclp_induct)
  case (step b c)
  then have "registry_wf ce b" by (auto intro: registry_steps_wf)
  with step registry_step_log [OF step(2)] show ?case by (auto intro: order_trans)
qed simp

end
