(* ===== verification/Cluster_Samples.thy ===== *)
theory Cluster_Samples
  imports Cluster_Properties Samples "HOL-Library.Multiset" "HOL-Library.Code_Target_Nat"
begin

text \<open>The properties of the cluster registry, and a registry with one explicit cluster.\<close>

section \<open>Properties\<close>

text \<open>C14 (invariant). In every state the operations of the registry reach, an explicit key belongs to one
identity, every cluster of a version has an identity of its kind, every assignment to a cluster names a cluster
of its version, and the version a tenant's pointer names is stored with all its identities activated for it.\<close>

theorem registry_stays_consistent:
  assumes "registry_steps ce empty_registry rg" and "cluster_env_ok ce"
  shows "registry_wf ce rg \<and> (\<forall>v. ar_version_id (pointer_of rg t) = Some v \<longrightarrow> version_ready rg t v)"
proof -
  have wf: "registry_wf ce rg" using registry_steps_wf [OF assms empty_registry_wf] .
  then show ?thesis
    by (cases "dget (rg_active rg) t") (auto simp: pointer_of_def no_active_def registry_wf_def active_ok_def)
qed

lemma empty_log: "log_explains empty_registry"
  by (simp add: log_explains_def pointer_events_def pointer_of_def empty_registry_def no_active_def)

text \<open>C15 (refinement). The recorded events explain the pointer of a tenant: replaying its activations and
rollbacks from no version at all, each starts from the version the one before activated, the generations count up
by one, and the last one gives the version and the generation of the pointer.\<close>

theorem log_gives_pointer:
  assumes "registry_steps ce empty_registry rg" and "cluster_env_ok ce"
  shows "replay_pointer (None, 0) (pointer_events rg t)
    = Some (ar_version_id (pointer_of rg t), ar_generation (pointer_of rg t))"
  using registry_steps_log [OF assms empty_registry_wf empty_log] by (simp add: log_explains_def)

text \<open>C13 (safety). An activation takes effect only for a stored version whose last validation passed, on top of
its parent and with the coverage that was validated; and once it has taken effect, no activation that expects the same
generation succeeds, whatever happens in between.\<close>

theorem one_activation_per_generation:
  assumes "registry_steps ce empty_registry rg" and "cluster_env_ok ce"
    and "activate_cluster_registry ce t v expected actor action digest clock event_id rg = (Inr p, rg1)"
    and "dget (rg_events rg) (t, event_id) = None" and "registry_steps ce rg1 rg2"
    and "action' \<in> {''activated'', ''rolled_back''}"
  shows "(\<exists>version. dget (rg_versions rg) (t, v) = Some version \<and>
      (action = ''activated'' \<longrightarrow> rv_parent version = ar_version_id (pointer_of rg t))) \<and>
    version_validated rg t v \<and> cluster_candidate_digest (ce_python ce) (fit_candidates rg t v) = digest \<and>
    fst (activate_cluster_registry ce t v' expected actor' action' digest' clock' event_id' rg2)
      = Inl (ValueError ''cluster registry generation conflict'')"
proof -
  have wf: "registry_wf ce rg" using registry_steps_wf [OF assms(1,2) empty_registry_wf] .
  from assms(3) obtain pointer rg' ids where get: "get_active_cluster_registry t rg = (pointer, rg')"
    and prepared: "prepare_activation ce t v actor action expected digest clock pointer rg' = Inr ids"
    by (rule activate_ok)
  have rg': "pointer = pointer_of rg t" "rg' = rg\<lparr>rg_active := dsetdefault t (no_active t) (rg_active rg)\<rparr>"
    using get_active_entry [OF get] by (simp_all add: pointer_of_def)
  have parts: "(\<exists>version. dget (rg_versions rg) (t, v) = Some version \<and>
      (action = ''activated'' \<longrightarrow> rv_parent version = ar_version_id (pointer_of rg t))) \<and>
    version_validated rg t v \<and> cluster_candidate_digest (ce_python ce) (fit_candidates rg t v) = digest"
    using prepared by (rule prepare_activation_ok)
      (simp add: rg' version_validated_def registry_events_def fit_candidates_def)
  have step: "registry_step ce rg rg1" using registry_step.activate [OF assms(3,4)] .
  have gen1: "ar_generation (pointer_of rg1 t) = expected + 1" using activate_pointer [OF assms(3,4)] by simp
  have log: "log_explains rg1 \<and> registry_wf ce rg1"
    using registry_steps_log [OF assms(1,2) empty_registry_wf empty_log] registry_step_log [OF step assms(2) wf]
      registry_step_wf [OF step assms(2) wf] by blast
  then have "ar_generation (pointer_of rg1 t) \<le> ar_generation (pointer_of rg2 t)"
    using registry_steps_log [OF assms(5,2)] by blast
  with gen1 have "expected < ar_generation (pointer_of rg2 t)" by simp
  moreover obtain pointer2 rg3 where get2: "get_active_cluster_registry t rg2 = (pointer2, rg3)" by fastforce
  moreover have "pointer2 = pointer_of rg2 t" using get_active_entry [OF get2] by (simp add: pointer_of_def)
  ultimately show ?thesis
    using parts assms(6) by (auto simp: activate_cluster_registry_def prepare_activation_def)
qed

text \<open>C30 (invariant). Versions, clusters, assignments and events are never changed or lost once they are
recorded, and an identity keeps its kind.\<close>

theorem registry_append_only:
  assumes "registry_steps ce empty_registry rg" and "registry_steps ce rg rg'" and "cluster_env_ok ce"
  shows "recorded_in rg rg'"
  using registry_steps_record [OF assms(2,3)] registry_steps_wf [OF assms(1,3) empty_registry_wf] by blast

section \<open>Normalisation\<close>

lemma populate_not_pending:
  "tr_analysis_started_at_state (populate_trace_analysis_fields t) = ''valid''"
  "tr_analysis_raw_messages_state (populate_trace_analysis_fields t) \<noteq> ''pending''"
  by (auto simp: populate_trace_analysis_fields_def Let_def split: option.split)

lemma populate_analysis_pending: "\<not> analysis_pending tenant (populate_trace_analysis_fields t)"
  using populate_not_pending [of t] by (simp add: analysis_pending_def)

lemma filter_taken: "distinct (map f xs) \<Longrightarrow> filter (\<lambda>x. f x \<notin> set (map f (take n xs))) xs = drop n xs"
proof (induction xs arbitrary: n)
  case (Cons x xs)
  show ?case
  proof (cases n)
    case 0
    then show ?thesis by simp
  next
    case (Suc m)
    have "filter (\<lambda>y. f y \<notin> set (map f (take n (x # xs)))) xs = filter (\<lambda>y. f y \<notin> set (map f (take m xs))) xs"
      using Cons.prems Suc by (intro filter_cong) (auto simp: image_iff)
    with Suc Cons.IH [of m] Cons.prems show ?thesis by simp
  qed
qed simp

lemma length_filter_sort: "length (filter P (sort_key f xs)) = length (filter P xs)"
  by (metis mset_filter mset_sort size_mset)

lemma normalize_pending:
  assumes "normalize_cluster_trace_analysis tenant limit traces = (Inr n, traces')"
    and "distinct (map tr_trace_id (map snd traces))"
  shows "n = min (count_pending_analysis_rows traces tenant) (nat limit) \<and>
    count_pending_analysis_rows traces' tenant = count_pending_analysis_rows traces tenant - n"
proof -
  let ?p = "filter (analysis_pending tenant) (map snd traces)"
  let ?s = "sort_key tr_trace_id ?p"
  let ?c = "map tr_trace_id (take (nat limit) ?s)"
  let ?t = "\<lambda>t. if tr_trace_id t \<in> set ?c then populate_trace_analysis_fields t else t"
  from assms(1) have n: "n = min (length ?s) (nat limit)"
    and traces': "traces' = map (\<lambda>(k, t). (k, ?t t)) traces"
    by (auto simp: normalize_cluster_trace_analysis_def Let_def split: if_splits)
  have "distinct (map tr_trace_id ?p)" using assms(2) by (rule distinct_map_filter)
  then have distinct: "distinct (map tr_trace_id ?s)"
    by (metis mset_map mset_sort mset_eq_imp_distinct_iff)
  have "count_pending_analysis_rows traces' tenant = length (filter (analysis_pending tenant) (map ?t (map snd traces)))"
    by (simp add: count_pending_analysis_rows_def traces' split_def o_def)
  also have "\<dots> = length (filter (\<lambda>t. tr_trace_id t \<notin> set ?c) ?p)"
    by (simp add: filter_map o_def populate_analysis_pending cong: filter_cong)
      (metis (mono_tags, lifting) populate_analysis_pending)
  also have "\<dots> = length (filter (\<lambda>t. tr_trace_id t \<notin> set ?c) ?s)" by (simp only: length_filter_sort)
  also have "\<dots> = length (drop (nat limit) ?s)" by (simp only: filter_taken [OF distinct])
  finally show ?thesis by (simp add: n count_pending_analysis_rows_def)
qed

lemma normalize_ids:
  "map tr_trace_id (map snd (snd (normalize_cluster_trace_analysis tenant limit traces))) = map tr_trace_id (map snd traces)"
  by (auto simp: normalize_cluster_trace_analysis_def Let_def split_def populate_trace_analysis_fields_def split: option.split)

text \<open>C31 (termination). Normalising page by page ends: after finitely many calls no trace of the tenant is
pending, whatever the page size.\<close>

theorem normalization_ends:
  assumes "1 \<le> limit" and "limit \<le> 10000" and "distinct (map tr_trace_id (map snd traces))"
  shows "\<exists>k \<le> count_pending_analysis_rows traces tenant. count_pending_analysis_rows
    (((\<lambda>ts. snd (normalize_cluster_trace_analysis tenant limit ts)) ^^ k) traces) tenant = 0"
  using assms(3)
proof (induction "count_pending_analysis_rows traces tenant" arbitrary: traces rule: less_induct)
  case less
  show ?case
  proof (cases "count_pending_analysis_rows traces tenant = 0")
    case True
    then show ?thesis by (intro exI [of _ 0]) simp
  next
    case False
    let ?next = "snd (normalize_cluster_trace_analysis tenant limit traces)"
    obtain n where "normalize_cluster_trace_analysis tenant limit traces = (Inr n, ?next)"
      using assms(1,2) by (auto simp: normalize_cluster_trace_analysis_def Let_def)
    from normalize_pending [OF this less.prems] False assms(1)
    have fewer: "count_pending_analysis_rows ?next tenant < count_pending_analysis_rows traces tenant" by auto
    have "distinct (map tr_trace_id (map snd ?next))" using less.prems normalize_ids [of tenant limit traces] by simp
    from less.hyps [OF fewer this] obtain k where "k \<le> count_pending_analysis_rows ?next tenant"
      "count_pending_analysis_rows (((\<lambda>ts. snd (normalize_cluster_trace_analysis tenant limit ts)) ^^ k) ?next) tenant = 0"
      by blast
    with fewer show ?thesis by (intro exI [of _ "Suc k"] conjI) (simp, simp only: funpow_Suc_right o_apply)
  qed
qed

section \<open>Samples\<close>

definition sample_cluster_env :: cluster_env where
  "sample_cluster_env = \<lparr>ce_python = plain_py_env, ce_nfc = id, ce_control = (\<lambda>_. False),
     ce_unit_norm = (\<lambda>_. True), ce_quote = json_quote True\<rparr>"

definition sample_version :: registry_version where
  "sample_version = \<lparr>rv_tenant = ''t'', rv_version_id = ''v'', rv_parent = None, rv_strategy = ''explicit'',
     rv_cutoff = 9, rv_lookback_days = 90, rv_fit_definition = ''{}'', rv_fit_fingerprint = [],
     rv_preview_report = ''{}'', rv_created_at = 1, rv_created_by = ''a''\<rparr>"

definition sample_identity :: cluster_identity where
  "sample_identity = \<lparr>ci_tenant = ''t'', ci_cluster_id = ''c'', ci_kind = ''explicit'', ci_lifecycle = ''provisional'',
     ci_explicit_key = Some ''k'', ci_display_name = ''Orders'', ci_last_model = None, ci_last_centroid = None,
     ci_last_version = None, ci_created_at = 1, ci_created_by = ''a'', ci_updated_at = 1, ci_updated_by = ''a''\<rparr>"

definition sample_registry_cluster :: registry_cluster where
  "sample_registry_cluster = \<lparr>rc_tenant = ''t'', rc_version_id = ''v'', rc_cluster_id = ''c'', rc_kind = ''explicit'',
     rc_centroid = None, rc_radius = None, rc_member_count = 1, rc_outlier_count = 0\<rparr>"

definition sample_assignment :: cluster_assignment where
  "sample_assignment = \<lparr>as_tenant = ''t'', as_version_id = ''v'', as_trace_id = ''x'', as_origin = ''fit'',
     as_status = ''assigned'', as_cluster_id = Some ''c'', as_cluster_kind = Some ''explicit'', as_reason = None,
     as_distance = None, as_assigned_at = 1\<rparr>"

definition sample_validation :: registry_event where
  "sample_validation = \<lparr>ev_tenant = ''t'', ev_event_id = ''e'', ev_action = ''validated'', ev_from = None,
     ev_to = Some ''v'', ev_generation = None, ev_created_at = 2, ev_actor = ''a'', ev_details = ''{}''\<rparr>"

definition validated_registry :: "registry option" where
  "validated_registry = (case insert_cluster_preview (\<lambda>_ _. False) sample_version [sample_identity]
       [sample_registry_cluster] [sample_assignment] empty_registry of
     Inl e \<Rightarrow> None
   | Inr rg \<Rightarrow> (case insert_cluster_registry_event sample_validation rg of Inl e \<Rightarrow> None | Inr rg' \<Rightarrow> Some rg'))"

definition sample_activation :: "registry \<Rightarrow> active_registry result \<times> registry" where
  "sample_activation rg = activate_cluster_registry sample_cluster_env ''t'' ''v'' 0 ''a'' ''activated''
     (replicate 64 (CHR ''0'')) (\<lambda>n. 3) ''f'' rg"

lemma sample_cluster_env_ok: "cluster_env_ok sample_cluster_env"
  by (simp add: cluster_env_ok_def sample_cluster_env_def)

lemma validated_registry_some: "validated_registry \<noteq> None"
  by code_simp

lemma sample_registry_built: "built_preview sample_cluster_env sample_version [sample_identity] [sample_registry_cluster] [sample_assignment]"
  "passes registry_event_checks sample_validation"
  by (simp_all add: built_preview_def passes_def res_simps registry_version_checks_def sample_version_def
    cluster_identity_checks_def sample_identity_def registry_cluster_checks_def sample_registry_cluster_def
    cluster_assignment_checks_def sample_assignment_def registry_event_checks_def sample_validation_def
    display_name_ok_def sample_cluster_env_def code_points_def is_cont_def)

lemma validated_registry_steps:
  "validated_registry = Some rg \<Longrightarrow> registry_steps sample_cluster_env empty_registry rg"
proof -
  assume "validated_registry = Some rg"
  then obtain rg1 where a: "insert_cluster_preview (\<lambda>_ _. False) sample_version [sample_identity]
       [sample_registry_cluster] [sample_assignment] empty_registry = Inr rg1"
    and b: "insert_cluster_registry_event sample_validation rg1 = Inr rg"
    by (auto simp: validated_registry_def split: sum.splits)
  have "ev_action sample_validation \<in> {''validated'', ''validation_failed''}" by (simp add: sample_validation_def)
  from registry_step.preview [OF a sample_registry_built(1)] registry_step.validation [OF b sample_registry_built(2) this]
  show ?thesis by (meson converse_rtranclp_into_rtranclp r_into_rtranclp)
qed

text \<open>The registry before and after its first version is activated.\<close>

lemma sample_activated:
  "map_option (\<lambda>rg. (dget (rg_events rg) (''t'', ''f''), map_sum id ar_generation (fst (sample_activation rg)),
     map ci_lifecycle (map snd (rg_identities (snd (sample_activation rg)))),
     map ev_action (pointer_events (snd (sample_activation rg)) ''t''))) validated_registry
   = Some (None, Inr 1, [''active''], [''activated''])"
  by code_simp

lemma sample_states:
  obtains rg p rg1 where "validated_registry = Some rg" "sample_activation rg = (Inr p, rg1)" "ar_generation p = 1"
    "dget (rg_events rg) (''t'', ''f'') = None" "map ci_lifecycle (map snd (rg_identities rg1)) = [''active'']"
    "map ev_action (pointer_events rg1 ''t'') = [''activated'']"
proof -
  from validated_registry_some obtain rg where rg: "validated_registry = Some rg" by blast
  obtain r rg1 where r: "sample_activation rg = (r, rg1)" by fastforce
  note facts = sample_activated [unfolded rg option.map option.inject prod.inject r fst_conv snd_conv]
  from facts have "map_sum id ar_generation r = Inr 1" by blast
  then obtain p where p: "r = Inr p" "ar_generation p = 1" by (cases r) auto
  show thesis by (rule that [OF rg r [unfolded p(1)] p(2)]) (use facts in blast)+
qed

lemma sample_activation_step:
  "sample_activation rg = (Inr p, rg1) \<Longrightarrow> dget (rg_events rg) (''t'', ''f'') = None \<Longrightarrow>
   registry_step sample_cluster_env rg rg1"
  unfolding sample_activation_def by (rule registry_step.activate)

theorem registry_stays_consistent_witness:
  "\<exists>rg. registry_steps sample_cluster_env empty_registry rg \<and> ar_version_id (pointer_of rg ''t'') = Some ''v'' \<and>
     map ci_lifecycle (map snd (rg_identities rg)) = [''active''] \<and> version_ready rg ''t'' ''v''"
proof -
  obtain rg p rg1 where s: "validated_registry = Some rg" "sample_activation rg = (Inr p, rg1)"
    "dget (rg_events rg) (''t'', ''f'') = None" "map ci_lifecycle (map snd (rg_identities rg1)) = [''active'']"
    by (rule sample_states)
  have steps: "registry_steps sample_cluster_env empty_registry rg1"
    using validated_registry_steps [OF s(1)] sample_activation_step [OF s(2,3)] by simp
  have "ar_version_id (pointer_of rg1 ''t'') = Some ''v''"
    using activate_pointer [OF s(2) [unfolded sample_activation_def] s(3)] by simp
  moreover from this have "version_ready rg1 ''t'' ''v''"
    using registry_stays_consistent [OF steps sample_cluster_env_ok, of "''t''"] by simp
  ultimately show ?thesis using steps s(4) by (intro exI [of _ rg1] conjI)
qed

theorem log_gives_pointer_witness:
  "\<exists>rg. registry_steps sample_cluster_env empty_registry rg \<and> map ev_action (pointer_events rg ''t'') = [''activated''] \<and>
     replay_pointer (None, 0) (pointer_events rg ''t'') = Some (Some ''v'', 1)"
proof -
  obtain rg p rg1 where s: "validated_registry = Some rg" "sample_activation rg = (Inr p, rg1)"
    "dget (rg_events rg) (''t'', ''f'') = None" "map ev_action (pointer_events rg1 ''t'') = [''activated'']"
    by (rule sample_states)
  have steps: "registry_steps sample_cluster_env empty_registry rg1"
    using validated_registry_steps [OF s(1)] sample_activation_step [OF s(2,3)] by simp
  have "ar_version_id (pointer_of rg1 ''t'') = Some ''v'' \<and> ar_generation (pointer_of rg1 ''t'') = 1"
    using activate_pointer [OF s(2) [unfolded sample_activation_def] s(3)] by simp
  moreover from this have "replay_pointer (None, 0) (pointer_events rg1 ''t'') = Some (Some ''v'', 1)"
    using log_gives_pointer [OF steps sample_cluster_env_ok, of "''t''"] by simp
  ultimately show ?thesis using steps s(4) by (intro exI [of _ rg1] conjI)
qed

theorem one_activation_per_generation_witness:
  "\<exists>rg p rg1. sample_activation rg = (Inr p, rg1) \<and> ar_generation p = 1 \<and> version_validated rg ''t'' ''v'' \<and>
     fst (sample_activation rg1) = Inl (ValueError ''cluster registry generation conflict'')"
proof -
  obtain rg p rg1 where s: "validated_registry = Some rg" "sample_activation rg = (Inr p, rg1)" "ar_generation p = 1"
    "dget (rg_events rg) (''t'', ''f'') = None" by (rule sample_states)
  have "''activated'' \<in> {''activated'', ''rolled_back''}" by simp
  note facts = one_activation_per_generation [OF validated_registry_steps [OF s(1)] sample_cluster_env_ok
      s(2) [unfolded sample_activation_def] s(4) rtranclp.rtrancl_refl this]
  have "version_validated rg ''t'' ''v''" "fst (sample_activation rg1) = Inl (ValueError ''cluster registry generation conflict'')"
    using facts unfolding sample_activation_def by blast+
  with s(2,3) show ?thesis by (intro exI conjI)
qed

theorem registry_append_only_witness:
  "\<exists>rg rg1. validated_registry = Some rg \<and> snd (sample_activation rg) = rg1 \<and> recorded_in rg rg1"
proof -
  obtain rg p rg1 where s: "validated_registry = Some rg" "sample_activation rg = (Inr p, rg1)"
    "dget (rg_events rg) (''t'', ''f'') = None" by (rule sample_states)
  have "registry_steps sample_cluster_env rg rg1" using sample_activation_step [OF s(2,3)] by simp
  from registry_append_only [OF validated_registry_steps [OF s(1)] this sample_cluster_env_ok]
  have "recorded_in rg rg1" .
  moreover have "snd (sample_activation rg) = rg1" using s(2) by simp
  ultimately show ?thesis using s(1) by (intro exI conjI)
qed

definition pending_traces :: "(string, trace) dict" where
  "pending_traces = [(''x'', sample_trace\<lparr>tr_analysis_started_at_state := ''pending''\<rparr>)]"

theorem normalization_ends_witness:
  "count_pending_analysis_rows pending_traces ''t'' = 1 \<and> (\<exists>k. k \<le> 1 \<and> count_pending_analysis_rows
    (((\<lambda>ts. snd (normalize_cluster_trace_analysis ''t'' 5 ts)) ^^ k) pending_traces) ''t'' = 0)"
proof -
  have "count_pending_analysis_rows pending_traces ''t'' = 1" by code_simp
  moreover have "distinct (map tr_trace_id (map snd pending_traces))" by (simp add: pending_traces_def)
  ultimately show ?thesis using normalization_ends [of 5 pending_traces "''t''"] by auto
qed
end
