(* ===== verification/Spec2Isabelle.thy ===== *)
theory Spec2Isabelle
  imports Merge_Properties Analysis_Laws Json_Fuel Collector_Samples Quota_Laws Delivery_Samples
    Monitor_Samples Monitor_Store_Properties Buffered_Store Agent_Samples Cluster_Samples
begin

text \<open>
  A model of the evidence pipeline of verdict.
\<close>

end
